(* ===== verification/Sylar_Prelude.thy ===== *)
theory Sylar_Prelude
  imports Main "HOL-Library.Word"
begin

unbundle bit_operations_syntax

text \<open>
  Shared vocabulary of the development: the machine integer types, results that may be an
  error, the pointer and memory helpers (\<open>blit\<close> is \<^verbatim>\<open>memcpy\<close> into a block), and the
  generic lemmas on equally sized blocks that the storage proofs rest on.
\<close>

section \<open>Types and lemma collections\<close>

type_synonym u8 = "8 word"
type_synonym u16 = "16 word"
type_synonym u32 = "32 word"
type_synonym u64 = "64 word"

named_theorems blit_simps \<open>rewriting block copies\<close>
named_theorems inv_defs \<open>definitions of component invariants\<close>
named_theorems op_defs \<open>definitions of component operations\<close>

section \<open>Results that may be an error\<close>

type_synonym ('e, 'a) result = "'e + 'a"

fun bindE :: "'e + 'a \<Rightarrow> ('a \<Rightarrow> 'e + 'b) \<Rightarrow> 'e + 'b" where
  "bindE (Inl e) f = Inl e"
| "bindE (Inr x) f = f x"

lemma bindE_eq_Inr: "bindE m f = Inr y \<longleftrightarrow> (\<exists>x. m = Inr x \<and> f x = Inr y)"
  by (cases m) auto

lemma bindE_eq_Inl: "bindE m f = Inl e \<longleftrightarrow> m = Inl e \<or> (\<exists>x. m = Inr x \<and> f x = Inl e)"
  by (cases m) auto

lemma bindE_assoc: "bindE (bindE m f) g = bindE m (\<lambda>x. bindE (f x) g)"
  by (cases m) auto

fun foldE :: "('a \<Rightarrow> 'w \<Rightarrow> 'e + 'w) \<Rightarrow> 'a list \<Rightarrow> 'w \<Rightarrow> 'e + 'w" where
  "foldE f [] w = Inr w"
| "foldE f (x # xs) w = bindE (f x w) (foldE f xs)"

fun isOk :: "'e + 'a \<Rightarrow> bool" where
  "isOk (Inl e) = False"
| "isOk (Inr x) = True"

lemma isOk_iff: "isOk m \<longleftrightarrow> (\<exists>x. m = Inr x)"
  by (cases m) auto

section \<open>Unsigned subtraction of C's size type\<close>

text \<open>
  \<^verbatim>\<open>size_t\<close> values are natural numbers below \<open>2 ^ 64\<close>; the subtraction wraps around.
\<close>

definition size_sub :: "nat \<Rightarrow> nat \<Rightarrow> nat" where
  "size_sub a b = (if b \<le> a then a - b else a + 2 ^ 64 - b)"

lemma size_sub_le [simp]: "b \<le> a \<Longrightarrow> size_sub a b = a - b"
  by (simp add: size_sub_def)

lemma size_sub_word:
  assumes "a < 2 ^ 64" "b < 2 ^ 64"
  shows "size_sub a b = unat (of_nat a - of_nat b :: u64)"
proof (cases "b \<le> a")
  case True
  then have "(of_nat a - of_nat b :: u64) = of_nat (a - b)" by simp
  then show ?thesis using True assms by (simp add: unat_of_nat del: of_nat_diff)
next
  case False
  have "(of_nat (a + 2 ^ 64) :: u64) = of_nat a"
    by (simp add: word_unat_eq_iff unat_of_nat del: of_nat_add)
  then have "(of_nat a - of_nat b :: u64) = of_nat (a + 2 ^ 64 - b)"
    using False assms by (subst of_nat_diff) (auto simp del: of_nat_add)
  then show ?thesis using False assms by (simp add: size_sub_def unat_of_nat del: of_nat_diff)
qed

section \<open>Copying into a block\<close>

definition blit :: "'a list \<Rightarrow> nat \<Rightarrow> 'a list \<Rightarrow> 'a list" where
  "blit xs k ys = take k xs @ ys @ drop (k + length ys) xs"

lemma length_blit [blit_simps, simp]: "k + length ys \<le> length xs \<Longrightarrow> length (blit xs k ys) = length xs"
  by (simp add: blit_def)

lemma blit_Nil [blit_simps, simp]: "blit xs k [] = xs"
  by (simp add: blit_def)

lemma blit_blit [blit_simps]:
  "k \<le> length xs \<Longrightarrow> blit (blit xs k ys) (k + length ys) zs = blit xs k (ys @ zs)"
  by (simp add: blit_def min_absorb2 ac_simps)

lemma take_drop_blit [blit_simps, simp]:
  "k + length ys \<le> length xs \<Longrightarrow> take (length ys) (drop k (blit xs k ys)) = ys"
  by (simp add: blit_def)

lemma take_blit: "n \<le> k \<Longrightarrow> k \<le> length xs \<Longrightarrow> take n (blit xs k ys) = take n xs"
  by (simp add: blit_def min_def)

lemma drop_blit: "k + length ys \<le> n \<Longrightarrow> k + length ys \<le> length xs \<Longrightarrow> drop n (blit xs k ys) = drop n xs"
  by (simp add: blit_def)

lemma blit_append [simp]: "k + length ys \<le> length xs \<Longrightarrow> blit (xs @ zs) k ys = blit xs k ys @ zs"
  by (simp add: blit_def)

lemma blit_append2: "length xs \<le> k \<Longrightarrow> blit (xs @ zs) k ys = xs @ blit zs (k - length xs) ys"
  by (simp add: blit_def)

lemma nth_blit:
  "k + length ys \<le> length xs \<Longrightarrow> j < length xs \<Longrightarrow>
     blit xs k ys ! j = (if k \<le> j \<and> j < k + length ys then ys ! (j - k) else xs ! j)"
  by (auto simp: blit_def nth_append min_def)

section \<open>Equally sized blocks\<close>

lemma length_concat_blocks: "(\<And>b. b \<in> set bs \<Longrightarrow> length b = w) \<Longrightarrow> length (concat bs) = length bs * w"
  by (induction bs) auto

lemma concat_blocks_blit:
  assumes "\<And>b. b \<in> set bs \<Longrightarrow> length b = w" and "i < length bs" and "p + length ys \<le> w"
  shows "concat (bs[i := blit (bs ! i) p ys]) = blit (concat bs) (i * w + p) ys"
  using assms
proof (induction bs arbitrary: i)
  case Nil
  then show ?case by simp
next
  case (Cons b bs)
  have b: "length b = w" using Cons.prems(1) by simp
  show ?case
  proof (cases i)
    case 0
    then show ?thesis using Cons.prems b by simp
  next
    case (Suc j)
    have "concat (bs[j := blit (bs ! j) p ys]) = blit (concat bs) (j * w + p) ys"
      using Cons.IH [of j] Cons.prems Suc by simp
    then show ?thesis using Suc b by (simp add: blit_append2 add.assoc)
  qed
qed

lemma concat_blocks_slice:
  assumes "\<And>b. b \<in> set bs \<Longrightarrow> length b = w" and "i < length bs" and "p + n \<le> w"
  shows "take n (drop p (bs ! i)) = take n (drop (i * w + p) (concat bs))"
  using assms
proof (induction bs arbitrary: i)
  case Nil
  then show ?case by simp
next
  case (Cons b bs)
  have b: "length b = w" using Cons.prems(1) by simp
  show ?case
  proof (cases i)
    case 0
    then show ?thesis using Cons.prems b by simp
  next
    case (Suc j)
    have "take n (drop p (bs ! j)) = take n (drop (j * w + p) (concat bs))"
      using Cons.IH [of j] Cons.prems Suc by simp
    then show ?thesis using Suc b by (simp add: add.assoc)
  qed
qed

lemma take_drop_split: "n \<le> m \<Longrightarrow> take n (drop k xs) @ take (m - n) (drop (k + n) xs) = take m (drop k xs)"
  by (metis add.commute drop_drop le_add_diff_inverse take_add)

end
