(* ===== verification/Sylar_ByteArray.thy ===== *)
theory Sylar_ByteArray
  imports Sylar_Prelude
begin

unbundle bit_operations_syntax

text \<open>
  The storage layer of \<^verbatim>\<open>ByteArray\<close> (\<^verbatim>\<open>src/sylar/bytearray.cpp\<close>, \<^verbatim>\<open>bytearray.h\<close>): a chain of equally
  sized blocks with a cursor. The chain that starts at \<^verbatim>\<open>m_root\<close> is the list of its nodes, a
  node pointer is an index into it and \<open>None\<close> is \<^verbatim>\<open>nullptr\<close>. A dereference of a null pointer and
  a thrown \<^verbatim>\<open>std::out_of_range\<close> are errors of the model. The bytes a fresh block holds are not
  initialised by the code; they are the arbitrary byte \<open>m_fresh\<close> of the model.

  The theorems show that the invariant \<open>ba_inv\<close> is kept by every operation, that under it
  no write ever fails, and that every operation implements the one on a flat buffer.
\<close>

section \<open>State\<close>

datatype ba_error = OutOfRange string | NullDeref | NegativeLength | Hang

datatype endian = SYLAR_LITTLE_ENDIAN | SYLAR_BIG_ENDIAN

record node =
  node_ptr :: "u8 list"
  node_size :: nat

record bytearray =
  m_baseSize :: nat
  m_position :: nat
  m_capacity :: nat
  m_size :: nat
  m_endian :: endian
  m_nodes :: "node list"
  m_cur :: "nat option"
  m_fresh :: u8

definition Node :: "u8 \<Rightarrow> nat \<Rightarrow> node" where
  "Node fresh s = \<lparr>node_ptr = replicate s fresh, node_size = s\<rparr>"

definition ByteArray :: "nat \<Rightarrow> u8 \<Rightarrow> bytearray" where
  "ByteArray base_size fresh =
     \<lparr>m_baseSize = base_size, m_position = 0, m_capacity = base_size, m_size = 0,
      m_endian = SYLAR_BIG_ENDIAN, m_nodes = [Node fresh base_size], m_cur = Some 0,
      m_fresh = fresh\<rparr>"

definition isLittleEndian :: "bytearray \<Rightarrow> bool" where
  "isLittleEndian b \<longleftrightarrow> m_endian b = SYLAR_LITTLE_ENDIAN"

definition setIsLittleEndian :: "bytearray \<Rightarrow> bool \<Rightarrow> bytearray" where
  "setIsLittleEndian b val =
     (if val then b\<lparr>m_endian := SYLAR_LITTLE_ENDIAN\<rparr> else b\<lparr>m_endian := SYLAR_BIG_ENDIAN\<rparr>)"

definition getReadSize :: "bytearray \<Rightarrow> nat" where
  "getReadSize b = size_sub (m_size b) (m_position b)"

definition getCapacity :: "bytearray \<Rightarrow> nat" where
  "getCapacity b = size_sub (m_capacity b) (m_position b)"

definition next_node :: "node list \<Rightarrow> nat \<Rightarrow> nat option" where
  "next_node ns i = (if Suc i < length ns then Some (Suc i) else None)"

definition deref :: "node list \<Rightarrow> nat option \<Rightarrow> ba_error + node" where
  "deref ns c = (case c of None \<Rightarrow> Inl NullDeref
     | Some i \<Rightarrow> if i < length ns then Inr (ns ! i) else Inl NullDeref)"

section \<open>Operations\<close>

definition clear :: "bytearray \<Rightarrow> bytearray" where
  "clear b = b\<lparr>m_position := 0, m_size := 0, m_capacity := m_baseSize b, m_cur := Some 0,
               m_nodes := take 1 (m_nodes b)\<rparr>"

text \<open>
  \<^verbatim>\<open>ceil(1.0 * size / m_baseSize)\<close> as integer division rounding up; the double is exact for
  the sizes below \<open>2 ^ 53\<close> that fit in memory.
\<close>

definition addCapacity :: "bytearray \<Rightarrow> nat \<Rightarrow> bytearray" where
  "addCapacity b n =
     (let old_cap = getCapacity b in
      if n = 0 \<or> n \<le> old_cap then b
      else let count = (n - old_cap + m_baseSize b - 1) div m_baseSize b;
               fresh_nodes = replicate count (Node (m_fresh b) (m_baseSize b));
               b' = b\<lparr>m_nodes := m_nodes b @ fresh_nodes,
                      m_capacity := m_capacity b + count * m_baseSize b\<rparr>
           in if old_cap = 0
              then b'\<lparr>m_cur := (if count = 0 then None else Some (length (m_nodes b)))\<rparr>
              else b')"

text \<open>
  The copy loop of \<^verbatim>\<open>write\<close>: \<open>rest\<close> is the part of the caller's buffer from \<^verbatim>\<open>bpos\<close> on, so
  its length is \<^verbatim>\<open>size\<close>.
\<close>

function write_loop :: "node list \<Rightarrow> nat option \<Rightarrow> nat \<Rightarrow> nat \<Rightarrow> nat \<Rightarrow> u8 list
    \<Rightarrow> ba_error + (node list \<times> nat option \<times> nat)" where
  "write_loop ns cur pos npos ncap rest =
     (if rest = [] then Inr (ns, cur, pos)
      else case cur of None \<Rightarrow> Inl NullDeref
      | Some i \<Rightarrow>
         if \<not> i < length ns then Inl NullDeref
         else if length rest \<le> ncap then
           Inr (ns[i := (ns ! i)\<lparr>node_ptr := blit (node_ptr (ns ! i)) npos rest\<rparr>],
                (if node_size (ns ! i) = npos + length rest then next_node ns i else Some i),
                pos + length rest)
         else
           (let ns' = ns[i := (ns ! i)\<lparr>node_ptr := blit (node_ptr (ns ! i)) npos (take ncap rest)\<rparr>]
            in case next_node ns i of None \<Rightarrow> Inl NullDeref
               | Some j \<Rightarrow> write_loop ns' (Some j) (pos + ncap) 0 (node_size (ns' ! j)) (drop ncap rest)))"
  by pat_completeness auto
termination
  by (relation "measure (\<lambda>(ns, cur, _). length ns - (case cur of None \<Rightarrow> length ns | Some i \<Rightarrow> i))")
     (auto simp: next_node_def split: if_splits)

declare write_loop.simps [simp del]

definition ba_write :: "bytearray \<Rightarrow> u8 list \<Rightarrow> ba_error + bytearray" where
  "ba_write b0 buf =
     (if buf = [] then Inr b0
      else let b = addCapacity b0 (length buf);
               npos = m_position b mod m_baseSize b in
           bindE (deref (m_nodes b) (m_cur b)) (\<lambda>n.
           bindE (write_loop (m_nodes b) (m_cur b) (m_position b) npos (size_sub (node_size n) npos) buf)
             (\<lambda>(ns, cur, pos).
                Inr (b\<lparr>m_nodes := ns, m_cur := cur, m_position := pos,
                       m_size := (if m_size b < pos then pos else m_size b)\<rparr>))))"

text \<open>The copy loop of both \<^verbatim>\<open>read\<close> functions; \<open>acc\<close> is what has been copied out so far.\<close>

function read_loop :: "node list \<Rightarrow> nat option \<Rightarrow> nat \<Rightarrow> nat \<Rightarrow> nat \<Rightarrow> nat \<Rightarrow> u8 list
    \<Rightarrow> ba_error + (u8 list \<times> nat option \<times> nat)" where
  "read_loop ns cur pos npos ncap n acc =
     (if n = 0 then Inr (acc, cur, pos)
      else case cur of None \<Rightarrow> Inl NullDeref
      | Some i \<Rightarrow>
         if \<not> i < length ns then Inl NullDeref
         else if n \<le> ncap then
           Inr (acc @ take n (drop npos (node_ptr (ns ! i))),
                (if node_size (ns ! i) = npos + n then next_node ns i else Some i),
                pos + n)
         else
           (case next_node ns i of None \<Rightarrow> Inl NullDeref
            | Some j \<Rightarrow> read_loop ns (Some j) (pos + ncap) 0 (node_size (ns ! j)) (n - ncap)
                          (acc @ take ncap (drop npos (node_ptr (ns ! i))))))"
  by pat_completeness auto
termination
  by (relation "measure (\<lambda>(ns, cur, _). length ns - (case cur of None \<Rightarrow> length ns | Some i \<Rightarrow> i))")
     (auto simp: next_node_def split: if_splits)

declare read_loop.simps [simp del]

definition ba_read :: "bytearray \<Rightarrow> nat \<Rightarrow> ba_error + (u8 list \<times> bytearray)" where
  "ba_read b n =
     (if getReadSize b < n then Inl (OutOfRange ''not enough len'')
      else let npos = m_position b mod m_baseSize b in
           bindE (deref (m_nodes b) (m_cur b)) (\<lambda>nd.
           bindE (read_loop (m_nodes b) (m_cur b) (m_position b) npos (size_sub (node_size nd) npos) n [])
             (\<lambda>(out, cur, pos). Inr (out, b\<lparr>m_cur := cur, m_position := pos\<rparr>))))"

definition read_at :: "bytearray \<Rightarrow> nat \<Rightarrow> nat \<Rightarrow> ba_error + u8 list" where
  "read_at b n position =
     (if size_sub (m_size b) position < n then Inl (OutOfRange ''not enough len'')
      else let npos = position mod m_baseSize b in
           bindE (deref (m_nodes b) (m_cur b)) (\<lambda>nd.
           bindE (read_loop (m_nodes b) (m_cur b) position npos (size_sub (node_size nd) npos) n [])
             (\<lambda>(out, _, _). Inr out)))"

text \<open>The two while/if statements of \<^verbatim>\<open>setPosition\<close> that walk the chain from the root.\<close>

function seek :: "node list \<Rightarrow> nat option \<Rightarrow> nat \<Rightarrow> ba_error + nat option" where
  "seek ns cur v =
     (case cur of None \<Rightarrow> Inl NullDeref
      | Some i \<Rightarrow>
         if \<not> i < length ns then Inl NullDeref
         else if node_size (ns ! i) < v then seek ns (next_node ns i) (v - node_size (ns ! i))
         else if v = node_size (ns ! i) then Inr (next_node ns i) else Inr (Some i))"
  by pat_completeness auto
termination
  by (relation "measure (\<lambda>(ns, cur, _). length ns - (case cur of None \<Rightarrow> length ns | Some i \<Rightarrow> i))")
     (auto simp: next_node_def)

declare seek.simps [simp del]

definition setPosition :: "bytearray \<Rightarrow> nat \<Rightarrow> ba_error + bytearray" where
  "setPosition b v =
     (if m_capacity b < v then Inl (OutOfRange ''set_position out of range'')
      else bindE (seek (m_nodes b) (Some 0) v) (\<lambda>cur.
             Inr (b\<lparr>m_position := v, m_size := (if m_size b < v then v else m_size b), m_cur := cur\<rparr>)))"

text \<open>
  The loop of \<^verbatim>\<open>getReadBuffers\<close> and \<^verbatim>\<open>getWriteBuffers\<close>; an \<^verbatim>\<open>iovec\<close> is a node index, an offset
  into the node and a length.
\<close>

type_synonym iovec = "nat \<times> nat \<times> nat"

function iov_loop :: "node list \<Rightarrow> nat option \<Rightarrow> nat \<Rightarrow> nat \<Rightarrow> nat \<Rightarrow> ba_error + iovec list" where
  "iov_loop ns cur npos ncap len =
     (if len = 0 then Inr []
      else case cur of None \<Rightarrow> Inl NullDeref
      | Some i \<Rightarrow>
         if \<not> i < length ns then Inl NullDeref
         else if len \<le> ncap then Inr [(i, npos, len)]
         else (case next_node ns i of None \<Rightarrow> Inl NullDeref
               | Some j \<Rightarrow> bindE (iov_loop ns (Some j) 0 (node_size (ns ! j)) (len - ncap))
                             (\<lambda>vs. Inr ((i, npos, ncap) # vs))))"
  by pat_completeness auto
termination
  by (relation "measure (\<lambda>(ns, cur, _). length ns - (case cur of None \<Rightarrow> length ns | Some i \<Rightarrow> i))")
     (auto simp: next_node_def split: if_splits)

declare iov_loop.simps [simp del]

definition getReadBuffers :: "bytearray \<Rightarrow> nat \<Rightarrow> ba_error + (nat \<times> iovec list)" where
  "getReadBuffers b len0 =
     (let len = (if getReadSize b < len0 then getReadSize b else len0) in
      if len = 0 then Inr (0, [])
      else let npos = m_position b mod m_baseSize b in
           bindE (deref (m_nodes b) (m_cur b)) (\<lambda>nd.
           bindE (iov_loop (m_nodes b) (m_cur b) npos (size_sub (node_size nd) npos) len)
             (\<lambda>vs. Inr (len, vs))))"

text \<open>\<^verbatim>\<open>while(count > 0)\<close> of the positioned variant: follow \<open>count\<close> next pointers.\<close>

fun skip_nodes :: "node list \<Rightarrow> nat option \<Rightarrow> nat \<Rightarrow> ba_error + nat option" where
  "skip_nodes ns cur 0 = Inr cur"
| "skip_nodes ns cur (Suc k) =
     (case cur of None \<Rightarrow> Inl NullDeref | Some i \<Rightarrow> skip_nodes ns (next_node ns i) k)"

definition getReadBuffers_at :: "bytearray \<Rightarrow> nat \<Rightarrow> nat \<Rightarrow> ba_error + (nat \<times> iovec list)" where
  "getReadBuffers_at b len0 position =
     (let len = (if getReadSize b < len0 then getReadSize b else len0) in
      if len = 0 then Inr (0, [])
      else let npos = position mod m_baseSize b; count = position div m_baseSize b in
           bindE (skip_nodes (m_nodes b) (Some 0) count) (\<lambda>cur.
           bindE (deref (m_nodes b) cur) (\<lambda>nd.
           bindE (iov_loop (m_nodes b) cur npos (size_sub (node_size nd) npos) len)
             (\<lambda>vs. Inr (len, vs)))))"

definition getWriteBuffers :: "bytearray \<Rightarrow> nat \<Rightarrow> ba_error + (nat \<times> iovec list \<times> bytearray)" where
  "getWriteBuffers b0 len =
     (if len = 0 then Inr (0, [], b0)
      else let b = addCapacity b0 len; npos = m_position b mod m_baseSize b in
           bindE (deref (m_nodes b) (m_cur b)) (\<lambda>nd.
           bindE (iov_loop (m_nodes b) (m_cur b) npos (size_sub (node_size nd) npos) len)
             (\<lambda>vs. Inr (len, vs, b))))"

definition ba_toString :: "bytearray \<Rightarrow> ba_error + u8 list" where
  "ba_toString b = (if getReadSize b = 0 then Inr [] else read_at b (getReadSize b) (m_position b))"

definition hexdigit :: "nat \<Rightarrow> char" where
  "hexdigit d = (if d < 10 then char_of (48 + d) else char_of (87 + d))"

fun hex_items :: "nat \<Rightarrow> u8 list \<Rightarrow> string" where
  "hex_items i [] = []"
| "hex_items i (x # xs) =
     (if 0 < i \<and> i mod 32 = 0 then [char_of (10 :: nat)] else []) @
     [hexdigit (unat x div 16), hexdigit (unat x mod 16), CHR '' ''] @ hex_items (Suc i) xs"

definition toHexString :: "bytearray \<Rightarrow> ba_error + string" where
  "toHexString b = bindE (ba_toString b) (\<lambda>str. Inr (hex_items 0 str))"

text \<open>
  The loop of \<^verbatim>\<open>writeToFile\<close>: \<^verbatim>\<open>read_size\<close>, \<^verbatim>\<open>pos\<close> and \<^verbatim>\<open>len\<close> are signed; \<^verbatim>\<open>ofs.write\<close> with a negative
  length is the error \<open>NegativeLength\<close>. The result is what the file receives.
\<close>

function file_loop :: "nat \<Rightarrow> node list \<Rightarrow> nat option \<Rightarrow> int \<Rightarrow> int \<Rightarrow> u8 list \<Rightarrow> ba_error + u8 list" where
  "file_loop base ns cur read_size pos out =
     (if read_size \<le> 0 then Inr out
      else let diff = pos mod int base;
               len = (if int base < read_size then int base else read_size) - diff in
           case cur of None \<Rightarrow> Inl NullDeref
           | Some i \<Rightarrow>
              if \<not> i < length ns then Inl NullDeref
              else if len < 0 then Inl NegativeLength
              else file_loop base ns (next_node ns i) (read_size - len) (pos + len)
                     (out @ take (nat len) (drop (nat diff) (node_ptr (ns ! i)))))"
  by pat_completeness auto
termination
  by (relation "measure (\<lambda>(base, ns, cur, _). length ns - (case cur of None \<Rightarrow> length ns | Some i \<Rightarrow> i))")
     (auto simp: next_node_def)

declare file_loop.simps [simp del]

definition writeToFile :: "bytearray \<Rightarrow> bool \<Rightarrow> ba_error + (bool \<times> u8 list)" where
  "writeToFile b can_open =
     (if \<not> can_open then Inr (False, [])
      else bindE (file_loop (m_baseSize b) (m_nodes b) (m_cur b)
                    (int (getReadSize b)) (int (m_position b)) [])
             (\<lambda>out. Inr (True, out)))"

text \<open>
  The loop of \<^verbatim>\<open>readFromFile\<close>: \<open>data\<close> is what is left of the file. A read that hits the end of
  the file sets the eof flag and ends the loop. With blocks of size 0 no read ever reaches the end: the
  loop does not return, which is the error \<open>Hang\<close>.
\<close>

function from_file_loop :: "bytearray \<Rightarrow> u8 list \<Rightarrow> ba_error + bytearray" where
  "from_file_loop b data =
     bindE (ba_write b (take (m_baseSize b) data)) (\<lambda>b'.
       if m_baseSize b = 0 then Inl Hang
       else if length data < m_baseSize b then Inr b'
       else from_file_loop b' (drop (m_baseSize b) data))"
  by pat_completeness auto
termination
  by (relation "measure (\<lambda>(b, data). length data)") auto

declare from_file_loop.simps [simp del]

definition readFromFile :: "bytearray \<Rightarrow> u8 list option \<Rightarrow> ba_error + (bool \<times> bytearray)" where
  "readFromFile b file =
     (case file of None \<Rightarrow> Inr (False, b)
      | Some data \<Rightarrow> bindE (from_file_loop b data) (\<lambda>b'. Inr (True, b')))"

section \<open>The flat view and the invariant\<close>

definition mem :: "node list \<Rightarrow> u8 list" where
  "mem ns = concat (map node_ptr ns)"

definition blocks_ok :: "nat \<Rightarrow> node list \<Rightarrow> bool" where
  "blocks_ok w ns \<longleftrightarrow> (\<forall>n \<in> set ns. node_size n = w \<and> length (node_ptr n) = w)"

definition cursor :: "nat \<Rightarrow> nat \<Rightarrow> nat \<Rightarrow> nat option" where
  "cursor w k p = (if p div w < k then Some (p div w) else None)"

definition ba_inv :: "bytearray \<Rightarrow> bool" where
  "ba_inv b \<longleftrightarrow> 0 < m_baseSize b \<and> m_nodes b \<noteq> [] \<and> blocks_ok (m_baseSize b) (m_nodes b)
     \<and> m_capacity b = length (m_nodes b) * m_baseSize b
     \<and> m_position b \<le> m_size b \<and> m_size b \<le> m_capacity b
     \<and> m_cur b = cursor (m_baseSize b) (length (m_nodes b)) (m_position b)"

definition contents :: "bytearray \<Rightarrow> u8 list" where
  "contents b = take (m_size b) (mem (m_nodes b))"

fun iov_bytes :: "node list \<Rightarrow> iovec list \<Rightarrow> u8 list" where
  "iov_bytes ns [] = []"
| "iov_bytes ns ((i, p, n) # vs) = take n (drop p (node_ptr (ns ! i))) @ iov_bytes ns vs"

subsection \<open>Blocks\<close>

lemma length_mem [simp]: "blocks_ok w ns \<Longrightarrow> length (mem ns) = length ns * w"
  unfolding mem_def by (subst length_concat_blocks [where w = w]) (auto simp: blocks_ok_def)

lemma blocks_ok_nth [simp]:
  "blocks_ok w ns \<Longrightarrow> i < length ns \<Longrightarrow> node_size (ns ! i) = w"
  "blocks_ok w ns \<Longrightarrow> i < length ns \<Longrightarrow> length (node_ptr (ns ! i)) = w"
  by (auto simp: blocks_ok_def)

lemma blocks_ok_append [simp]: "blocks_ok w (xs @ ys) \<longleftrightarrow> blocks_ok w xs \<and> blocks_ok w ys"
  by (auto simp: blocks_ok_def)

lemma blocks_ok_fresh [simp]: "blocks_ok w (replicate k (Node f w))"
  by (auto simp: blocks_ok_def Node_def)

lemma blocks_ok_blit:
  assumes "blocks_ok w ns" "i < length ns" "p + length ys \<le> w"
  shows "blocks_ok w (ns[i := (ns ! i)\<lparr>node_ptr := blit (node_ptr (ns ! i)) p ys\<rparr>])"
  using assms by (auto simp: blocks_ok_def dest!: set_update_subset_insert [THEN subsetD])

lemma mem_append [simp]: "mem (xs @ ys) = mem xs @ mem ys"
  by (simp add: mem_def)

lemma mem_blit:
  assumes "blocks_ok w ns" "i < length ns" "p + length ys \<le> w"
  shows "mem (ns[i := (ns ! i)\<lparr>node_ptr := blit (node_ptr (ns ! i)) p ys\<rparr>]) = blit (mem ns) (i * w + p) ys"
  using concat_blocks_blit [of "map node_ptr ns" w i p ys] assms
  by (auto simp: mem_def map_update blocks_ok_def)

lemma mem_slice:
  assumes "blocks_ok w ns" "i < length ns" "p + n \<le> w"
  shows "take n (drop p (node_ptr (ns ! i))) = take n (drop (i * w + p) (mem ns))"
  using concat_blocks_slice [of "map node_ptr ns" w i p n] assms
  by (auto simp: mem_def blocks_ok_def)

subsection \<open>The cursor\<close>

lemma cursor_at [simp]: "p < w \<Longrightarrow> i < k \<Longrightarrow> cursor w k (i * w + p) = Some i"
  by (simp add: cursor_def)

lemma cursor_boundary: "0 < w \<Longrightarrow> cursor w (length ns) (Suc i * w) = next_node ns i"
  by (simp add: cursor_def next_node_def div_add_self1)

lemma cursor_end:
  assumes "p < w" "i < length ns" "n \<le> w - p"
  shows "(if w = p + n then next_node ns i else Some i) = cursor w (length ns) (i * w + p + n)"
proof (cases "w = p + n")
  case True
  then have "i * w + p + n = Suc i * w" by simp
  then have "cursor w (length ns) (i * w + p + n) = next_node ns i"
    using assms cursor_boundary [of w ns i] by (simp only:)
  then show ?thesis using True by simp
next
  case False
  then show ?thesis using assms cursor_at [of "p + n" w i "length ns"] by (simp add: add.assoc)
qed

subsection \<open>The loops\<close>

lemma next_in_chain:
  assumes "p < w" "i * w + p + n \<le> length ns * w" "\<not> n \<le> w - p"
  shows "Suc i < length ns"
proof (rule ccontr)
  assume "\<not> Suc i < length ns"
  then have "length ns * w \<le> Suc i * w" using mult_le_mono1 by (metis leI)
  then show False using assms by simp
qed

lemma write_loop_ok:
  assumes "blocks_ok w ns" "i < length ns" "p < w"
    and "i * w + p + length rest \<le> length ns * w"
  shows "\<exists>ns'. write_loop ns (Some i) (i * w + p) p (w - p) rest
      = Inr (ns', cursor w (length ns) (i * w + p + length rest), i * w + p + length rest)
    \<and> blocks_ok w ns' \<and> length ns' = length ns \<and> mem ns' = blit (mem ns) (i * w + p) rest"
  using assms
proof (induction "length ns - i" arbitrary: ns i p rest rule: less_induct)
  case less
  let ?upd = "\<lambda>xs. ns[i := (ns ! i)\<lparr>node_ptr := blit (node_ptr (ns ! i)) p xs\<rparr>]"
  show ?case
  proof (cases "length rest \<le> w - p")
    case True
    then have fits: "p + length rest \<le> w" using less.prems by simp
    have eq: "write_loop ns (Some i) (i * w + p) p (w - p) rest
        = Inr (if rest = [] then ns else ?upd rest,
               cursor w (length ns) (i * w + p + length rest), i * w + p + length rest)"
      using less.prems True cursor_end [of p w i ns "length rest"]
      by (subst write_loop.simps) auto
    show ?thesis unfolding eq
      using blocks_ok_blit [OF less.prems(1,2) fits] mem_blit [OF less.prems(1,2) fits] less.prems(1)
      by auto
  next
    case False
    let ?hd = "take (w - p) rest" and ?tl = "drop (w - p) rest"
    have len: "length ?hd = w - p" using False by simp
    have fits: "p + length ?hd \<le> w" using less.prems len by simp
    have step: "i * w + p + length ?hd = Suc i * w" using less.prems len by simp
    have nxt: "Suc i < length ns" by (rule next_in_chain [OF less.prems(3,4) False])
    have ok': "blocks_ok w (?upd ?hd)" by (rule blocks_ok_blit [OF less.prems(1,2) fits])
    have room: "Suc i * w + 0 + length ?tl \<le> length (?upd ?hd) * w"
      using less.prems(4) step False by simp
    from less.hyps [of "?upd ?hd" "Suc i" 0 ?tl] obtain ns' where ns':
      "write_loop (?upd ?hd) (Some (Suc i)) (Suc i * w) 0 w ?tl
         = Inr (ns', cursor w (length ns) (Suc i * w + length ?tl), Suc i * w + length ?tl)"
      "blocks_ok w ns'" "length ns' = length ns" "mem ns' = blit (mem (?upd ?hd)) (Suc i * w) ?tl"
      using nxt ok' room less.prems(3) diff_less_mono2 [of i "Suc i" "length ns"] by auto
    have tot: "Suc i * w + length ?tl = i * w + p + length rest"
      using step False by simp
    have "write_loop ns (Some i) (i * w + p) p (w - p) rest
        = write_loop (?upd ?hd) (Some (Suc i)) (Suc i * w) 0 w ?tl"
      using False nxt less.prems step len blocks_ok_nth(1) [OF ok', of "Suc i"]
      by (subst write_loop.simps) (auto simp: next_node_def add.commute)
    moreover have "mem ns' = blit (mem ns) (i * w + p) rest"
    proof -
      have "i * w + p \<le> length (mem ns)" using less.prems by simp
      then have "blit (blit (mem ns) (i * w + p) ?hd) (i * w + p + length ?hd) ?tl
          = blit (mem ns) (i * w + p) (?hd @ ?tl)"
        by (rule blit_blit)
      then show ?thesis
        using ns'(4) mem_blit [OF less.prems(1,2) fits] step by (simp add: add.commute)
    qed
    ultimately show ?thesis using ns' unfolding tot by (intro exI [of _ ns']) simp
  qed
qed

lemma read_loop_ok:
  assumes "blocks_ok w ns" "i < length ns" "p < w" "i * w + p + n \<le> length ns * w"
  shows "read_loop ns (Some i) (i * w + p) p (w - p) n acc
      = Inr (acc @ take n (drop (i * w + p) (mem ns)), cursor w (length ns) (i * w + p + n), i * w + p + n)"
  using assms
proof (induction "length ns - i" arbitrary: i p n acc rule: less_induct)
  case less
  show ?case
  proof (cases "n \<le> w - p")
    case True
    then have "p + n \<le> w" using less.prems by simp
    then show ?thesis
      using less.prems True cursor_end [of p w i ns n] mem_slice [of w ns i p n]
      by (subst read_loop.simps) auto
  next
    case False
    have step: "i * w + p + (w - p) = Suc i * w" using less.prems by simp
    have nxt: "Suc i < length ns" by (rule next_in_chain [OF less.prems(3,4) False])
    let ?acc = "acc @ take (w - p) (drop (i * w + p) (mem ns))"
    have "read_loop ns (Some i) (i * w + p) p (w - p) n acc
        = read_loop ns (Some (Suc i)) (Suc i * w) 0 w (n - (w - p)) ?acc"
      using False nxt less.prems step mem_slice [of w ns i p "w - p"]
      by (subst read_loop.simps) (auto simp: next_node_def add.commute)
    also have "\<dots> = Inr (?acc @ take (n - (w - p)) (drop (Suc i * w) (mem ns)),
        cursor w (length ns) (Suc i * w + (n - (w - p))), Suc i * w + (n - (w - p)))"
      using less.hyps [of "Suc i" 0 "n - (w - p)" ?acc] nxt less.prems step False by auto
    also have "?acc @ take (n - (w - p)) (drop (Suc i * w) (mem ns)) = acc @ take n (drop (i * w + p) (mem ns))"
      using take_drop_split [of "w - p" n "i * w + p" "mem ns"] step False by simp
    also have "Suc i * w + (n - (w - p)) = i * w + p + n"
      using step False by simp
    finally show ?thesis .
  qed
qed

lemma iov_loop_ok:
  assumes "blocks_ok w ns" "i < length ns" "p < w" "i * w + p + n \<le> length ns * w"
  shows "\<exists>vs. iov_loop ns (Some i) p (w - p) n = Inr vs
      \<and> iov_bytes ns vs = take n (drop (i * w + p) (mem ns))"
  using assms
proof (induction "length ns - i" arbitrary: i p n rule: less_induct)
  case less
  show ?case
  proof (cases "n \<le> w - p")
    case True
    then have "p + n \<le> w" using less.prems by simp
    then show ?thesis
      using less.prems True mem_slice [of w ns i p n]
      by (subst iov_loop.simps) auto
  next
    case False
    have step: "i * w + p + (w - p) = Suc i * w" using less.prems by simp
    have nxt: "Suc i < length ns" by (rule next_in_chain [OF less.prems(3,4) False])
    obtain vs where vs: "iov_loop ns (Some (Suc i)) 0 w (n - (w - p)) = Inr vs"
      "iov_bytes ns vs = take (n - (w - p)) (drop (Suc i * w) (mem ns))"
      using less.hyps [of "Suc i" 0 "n - (w - p)"] nxt less.prems step False
        diff_less_mono2 [of i "Suc i" "length ns"] by auto
    have "iov_loop ns (Some i) p (w - p) n = Inr ((i, p, w - p) # vs)"
      using False nxt less.prems vs by (subst iov_loop.simps) (auto simp: next_node_def)
    then show ?thesis
      using vs(2) take_drop_split [of "w - p" n "i * w + p" "mem ns"] step False less.prems
        mem_slice [of w ns i p "w - p"] by simp
  qed
qed

lemma seek_ok:
  assumes "blocks_ok w ns" "0 < w" "i < length ns" "i * w + v \<le> length ns * w"
  shows "seek ns (Some i) v = Inr (cursor w (length ns) (i * w + v))"
  using assms
proof (induction "length ns - i" arbitrary: i v rule: less_induct)
  case less
  show ?case
  proof (cases "v \<le> w")
    case True
    then show ?thesis
      using less.prems cursor_boundary [of w ns i] cursor_at [of v w i "length ns"]
      by (subst seek.simps) (auto simp: add.commute)
  next
    case False
    have nxt: "Suc i < length ns"
      using next_in_chain [of 0 w i v ns] less.prems False by simp
    have "seek ns (Some i) v = seek ns (Some (Suc i)) (v - w)"
      using False nxt less.prems by (subst seek.simps) (simp add: next_node_def)
    also have "\<dots> = Inr (cursor w (length ns) (Suc i * w + (v - w)))"
      using less.hyps [of "Suc i" "v - w"] nxt less.prems False by auto
    finally show ?thesis using False by simp
  qed
qed

subsection \<open>Operations under the invariant\<close>

lemma ba_invD:
  assumes "ba_inv b"
  shows "0 < m_baseSize b" "blocks_ok (m_baseSize b) (m_nodes b)" "m_position b \<le> m_size b"
    "m_size b \<le> m_capacity b" "m_capacity b = length (m_nodes b) * m_baseSize b"
    "m_cur b = cursor (m_baseSize b) (length (m_nodes b)) (m_position b)"
    "length (mem (m_nodes b)) = m_capacity b"
  using assms by (auto simp: ba_inv_def)

lemma length_contents [simp]: "ba_inv b \<Longrightarrow> length (contents b) = m_size b"
  using ba_invD(4,7) [of b] by (simp add: contents_def)

lemma getReadSize_inv [simp]: "ba_inv b \<Longrightarrow> getReadSize b = m_size b - m_position b"
  by (simp add: getReadSize_def ba_invD)

lemma getCapacity_inv [simp]: "ba_inv b \<Longrightarrow> getCapacity b = m_capacity b - m_position b"
proof -
  assume "ba_inv b"
  then have "m_position b \<le> m_capacity b" using ba_invD(3,4) le_trans by blast
  then show ?thesis by (simp add: getCapacity_def)
qed

lemma position_split:
  assumes "ba_inv b" "m_position b < m_capacity b"
  obtains i p where "m_position b = i * m_baseSize b + p" "p < m_baseSize b" "i < length (m_nodes b)"
    "m_position b mod m_baseSize b = p" "m_cur b = Some i"
proof
  let ?i = "m_position b div m_baseSize b" and ?p = "m_position b mod m_baseSize b"
  show "m_position b = ?i * m_baseSize b + ?p" by simp
  show "?p < m_baseSize b" using ba_invD(1) [OF assms(1)] by simp
  show i: "?i < length (m_nodes b)"
    using assms(2) ba_invD(1,5) [OF assms(1)] by (simp add: less_mult_imp_div_less)
  show "m_position b mod m_baseSize b = ?p" ..
  show "m_cur b = Some ?i" using ba_invD(6) [OF assms(1)] i by (simp add: cursor_def)
qed

lemma ByteArray_inv: "0 < base \<Longrightarrow> ba_inv (ByteArray base fresh) \<and> contents (ByteArray base fresh) = []"
  by (simp add: ba_inv_def ByteArray_def blocks_ok_def Node_def cursor_def contents_def)

lemma clear_inv: "ba_inv b \<Longrightarrow> ba_inv (clear b) \<and> contents (clear b) = [] \<and> m_position (clear b) = 0"
  by (cases "m_nodes b") (auto simp: ba_inv_def clear_def blocks_ok_def cursor_def contents_def)

lemma ceil_div_ge: "0 < w \<Longrightarrow> (n :: nat) \<le> (n + w - 1) div w * w"
  using dividend_less_div_times [of w "n + w - 1"] by linarith

lemma addCapacity_frame [simp]:
  "m_position (addCapacity b n) = m_position b" "m_size (addCapacity b n) = m_size b"
  "m_baseSize (addCapacity b n) = m_baseSize b" "m_endian (addCapacity b n) = m_endian b"
  "m_fresh (addCapacity b n) = m_fresh b"
  by (simp_all add: addCapacity_def Let_def)

lemma addCapacity_nodes:
  "\<exists>k. m_nodes (addCapacity b n) = m_nodes b @ replicate k (Node (m_fresh b) (m_baseSize b))"
  by (auto simp: addCapacity_def Let_def intro: exI [of _ 0])

lemma addCapacity_room:
  assumes inv: "ba_inv b"
  shows "m_position b + n \<le> m_capacity (addCapacity b n)"
proof -
  let ?w = "m_baseSize b" and ?need = "n - (m_capacity b - m_position b)"
  have "?need \<le> (?need + ?w - 1) div ?w * ?w"
    by (rule ceil_div_ge) (rule ba_invD(1) [OF inv])
  moreover have "m_position b \<le> m_capacity b"
    using ba_invD(3,4) [OF inv] by simp
  ultimately show ?thesis using inv by (auto simp: addCapacity_def Let_def)
qed

lemma addCapacity_contents:
  assumes inv: "ba_inv b"
  shows "contents (addCapacity b n) = contents b"
  using addCapacity_nodes [of b n] ba_invD [OF inv] by (auto simp: contents_def)

lemma addCapacity_inv:
  assumes inv: "ba_inv b"
  shows "ba_inv (addCapacity b n)"
proof (cases "n \<le> getCapacity b")
  case True
  then show ?thesis using inv by (simp add: addCapacity_def Let_def)
next
  case False
  let ?w = "m_baseSize b" and ?k = "length (m_nodes b)"
  let ?count = "(n - getCapacity b + ?w - 1) div ?w"
  note I = ba_invD [OF inv]
  have cnt: "0 < ?count" using False I(1) by (simp add: div_greater_zero_iff)
  have cur: "m_cur (addCapacity b n) = cursor ?w (?k + ?count) (m_position b)"
  proof (cases "getCapacity b = 0")
    case True
    then have "m_position b = ?k * ?w" using I inv by simp
    then show ?thesis using True False cnt I(1) by (simp add: addCapacity_def Let_def cursor_def)
  next
    case no: False
    then have "m_position b < m_capacity b" using inv by simp
    then have "m_position b div ?w < ?k" using I by (simp add: less_mult_imp_div_less)
    then show ?thesis using no False I by (simp add: addCapacity_def Let_def cursor_def)
  qed
  show ?thesis
    using inv False cnt cur by (auto simp: ba_inv_def addCapacity_def Let_def algebra_simps)
qed

lemma ba_write_ok:
  assumes inv: "ba_inv b0"
  obtains b where "ba_write b0 buf = Inr b" "ba_inv b"
    "contents b = blit (contents b0) (m_position b0) buf"
    "m_position b = m_position b0 + length buf"
    "m_endian b = m_endian b0" "m_baseSize b = m_baseSize b0"
proof (cases "buf = []")
  case True
  then show ?thesis using that [of b0] inv by (simp add: ba_write_def)
next
  case False
  define b where "b = addCapacity b0 (length buf)"
  have binv: "ba_inv b" unfolding b_def by (rule addCapacity_inv [OF inv])
  note I = ba_invD [OF binv]
  have room: "m_position b + length buf \<le> m_capacity b"
    using addCapacity_room [OF inv, of "length buf"] by (simp add: b_def)
  then have "m_position b < m_capacity b" using False by (cases buf) auto
  then obtain i p where ip: "m_position b = i * m_baseSize b + p" "p < m_baseSize b"
    "i < length (m_nodes b)" "m_position b mod m_baseSize b = p" "m_cur b = Some i"
    by (rule position_split [OF binv])
  obtain ns where ns: "write_loop (m_nodes b) (Some i) (m_position b) p (m_baseSize b - p) buf
      = Inr (ns, cursor (m_baseSize b) (length (m_nodes b)) (m_position b + length buf), m_position b + length buf)"
    "blocks_ok (m_baseSize b) ns" "length ns = length (m_nodes b)"
    "mem ns = blit (mem (m_nodes b)) (m_position b) buf"
    using write_loop_ok [OF I(2) ip(3,2), of buf] room I ip(1) by auto
  define b' where "b' = b\<lparr>m_nodes := ns, m_position := m_position b + length buf,
      m_cur := cursor (m_baseSize b) (length (m_nodes b)) (m_position b + length buf),
      m_size := (if m_size b < m_position b + length buf then m_position b + length buf else m_size b)\<rparr>"
  have "ba_write b0 buf = Inr b'"
    using False ip ns(1) I(2) unfolding ba_write_def b_def [symmetric] b'_def
    by (simp add: deref_def Let_def)
  moreover have "ba_inv b'"
    using binv ns room by (auto simp: ba_inv_def b'_def)
  moreover have "contents b' = blit (contents b) (m_position b) buf"
  proof -
    have "m_position b \<le> m_size b" "m_size b \<le> length (mem (m_nodes b))"
      "m_position b + length buf \<le> length (mem (m_nodes b))"
      using I room by auto
    then show ?thesis using ns(4) by (auto simp: contents_def b'_def blit_def min_def drop_take)
  qed
  ultimately show ?thesis
    using that [of b'] addCapacity_contents [OF inv] by (simp add: b'_def b_def)
qed

lemma ba_read_ok:
  assumes inv: "ba_inv b" and n: "n \<le> m_size b - m_position b" and pos: "m_position b < m_capacity b"
  obtains b' where "ba_read b n = Inr (take n (drop (m_position b) (contents b)), b')" "ba_inv b'"
    "contents b' = contents b" "m_position b' = m_position b + n" "m_endian b' = m_endian b"
    "m_baseSize b' = m_baseSize b" "m_size b' = m_size b" "m_capacity b' = m_capacity b"
proof -
  note I = ba_invD [OF inv]
  obtain i p where ip: "m_position b = i * m_baseSize b + p" "p < m_baseSize b"
    "i < length (m_nodes b)" "m_position b mod m_baseSize b = p" "m_cur b = Some i"
    by (rule position_split [OF inv pos])
  have "m_position b + n \<le> m_size b" using n I(3) by simp
  then have room: "m_position b + n \<le> length (m_nodes b) * m_baseSize b" using I(4,5) by simp
  have out: "take n (drop (m_position b) (mem (m_nodes b))) = take n (drop (m_position b) (contents b))"
    using \<open>m_position b + n \<le> m_size b\<close> by (simp add: contents_def drop_take min_def)
  let ?b' = "b\<lparr>m_cur := cursor (m_baseSize b) (length (m_nodes b)) (m_position b + n),
               m_position := m_position b + n\<rparr>"
  have "ba_read b n = Inr (take n (drop (m_position b) (contents b)), ?b')"
    using n inv ip I read_loop_ok [OF I(2) ip(3,2), of n "[]"] room out
    by (simp add: ba_read_def deref_def Let_def)
  moreover have "ba_inv ?b'"
    using inv \<open>m_position b + n \<le> m_size b\<close> by (simp add: ba_inv_def)
  ultimately show ?thesis using that [of ?b'] by (simp add: contents_def)
qed

lemma setPosition_ok:
  assumes inv: "ba_inv b" and v: "v \<le> m_capacity b"
  obtains b' where "setPosition b v = Inr b'" "ba_inv b'" "m_position b' = v"
    "m_size b' = max (m_size b) v" "m_nodes b' = m_nodes b" "m_endian b' = m_endian b"
    "m_baseSize b' = m_baseSize b" "m_capacity b' = m_capacity b"
proof -
  note I = ba_invD [OF inv]
  have sk: "seek (m_nodes b) (Some 0) v = Inr (cursor (m_baseSize b) (length (m_nodes b)) v)"
    using seek_ok [OF I(2,1), of 0 v] inv v by (simp add: ba_inv_def)
  let ?b' = "b\<lparr>m_position := v, m_size := (if m_size b < v then v else m_size b),
      m_cur := cursor (m_baseSize b) (length (m_nodes b)) v\<rparr>"
  have "setPosition b v = Inr ?b'" using v sk by (simp add: setPosition_def)
  moreover have "ba_inv ?b'" using inv v by (auto simp: ba_inv_def)
  ultimately show ?thesis using that [of ?b'] by (simp add: max_def)
qed


lemma ba_read_null:
  assumes inv: "ba_inv b" and pos: "m_position b = m_capacity b"
  shows "ba_read b 0 = Inl NullDeref"
  using ba_invD [OF inv] pos by (simp add: ba_read_def deref_def Let_def cursor_def)

lemma contents_setPosition:
  "ba_inv b \<Longrightarrow> v \<le> m_size b \<Longrightarrow> setPosition b v = Inr b' \<Longrightarrow> contents b' = contents b"
  by (auto simp: setPosition_def contents_def bindE_eq_Inr split: if_splits)

lemma read_at_ok:
  assumes inv: "ba_inv b" and n: "n \<le> m_size b - m_position b" and pos: "m_position b < m_capacity b"
  shows "read_at b n (m_position b) = Inr (take n (drop (m_position b) (contents b)))"
proof -
  obtain b' where "ba_read b n = Inr (take n (drop (m_position b) (contents b)), b')"
    by (rule ba_read_ok [OF assms])
  then show ?thesis using inv n ba_invD(3) [OF inv]
    by (auto simp: ba_read_def read_at_def Let_def bindE_eq_Inr)
qed

lemma ba_toString_ok:
  assumes inv: "ba_inv b"
  shows "ba_toString b = Inr (drop (m_position b) (contents b))"
proof (cases "m_position b = m_size b")
  case True
  then show ?thesis using inv by (simp add: ba_toString_def)
next
  case False
  then have "m_position b < m_capacity b" using ba_invD(3,4) [OF inv] by simp
  then show ?thesis using False inv ba_invD(3) [OF inv] read_at_ok [OF inv, of "m_size b - m_position b"]
    by (simp add: ba_toString_def)
qed

lemma getReadBuffers_ok:
  assumes inv: "ba_inv b"
  shows "\<exists>vs. getReadBuffers b len = Inr (min len (getReadSize b), vs)
      \<and> iov_bytes (m_nodes b) vs = take len (drop (m_position b) (contents b))"
proof (cases "min len (getReadSize b) = 0")
  case True
  then show ?thesis using inv by (auto simp: getReadBuffers_def Let_def)
next
  case False
  note I = ba_invD [OF inv]
  let ?n = "min len (getReadSize b)"
  have n: "m_position b + ?n \<le> m_size b" using False I(3) inv by auto
  have "m_position b < m_capacity b" using n False I(4) by linarith
  then obtain i p where ip: "m_position b = i * m_baseSize b + p" "p < m_baseSize b"
    "i < length (m_nodes b)" "m_position b mod m_baseSize b = p" "m_cur b = Some i"
    by (rule position_split [OF inv])
  obtain vs where vs: "iov_loop (m_nodes b) (Some i) p (m_baseSize b - p) ?n = Inr vs"
    "iov_bytes (m_nodes b) vs = take ?n (drop (m_position b) (mem (m_nodes b)))"
    using iov_loop_ok [OF I(2) ip(3,2), of ?n] n I ip(1) by auto
  have len: "(if getReadSize b < len then getReadSize b else len) = ?n" by simp
  have "getReadBuffers b len = Inr (?n, vs)"
    using ip I(2) vs(1) unfolding getReadBuffers_def Let_def len if_not_P [OF False] by (simp add: deref_def)
  moreover have "take ?n (drop (m_position b) (mem (m_nodes b))) = take len (drop (m_position b) (contents b))"
    using inv I(3,4,7) by (auto simp: contents_def drop_take min_def)
  ultimately show ?thesis using vs(2) by auto
qed

lemma getWriteBuffers_ok:
  assumes inv: "ba_inv b0" and len: "0 < len"
  shows "\<exists>vs b. getWriteBuffers b0 len = Inr (len, vs, b) \<and> b = addCapacity b0 len \<and> ba_inv b
      \<and> iov_bytes (m_nodes b) vs = take len (drop (m_position b) (mem (m_nodes b)))
      \<and> m_position b + len \<le> length (mem (m_nodes b))"
proof -
  define b where "b = addCapacity b0 len"
  have binv: "ba_inv b" unfolding b_def by (rule addCapacity_inv [OF inv])
  note I = ba_invD [OF binv]
  have room: "m_position b + len \<le> m_capacity b"
    using addCapacity_room [OF inv, of len] by (simp add: b_def)
  then have "m_position b < m_capacity b" using len by simp
  then obtain i p where ip: "m_position b = i * m_baseSize b + p" "p < m_baseSize b"
    "i < length (m_nodes b)" "m_position b mod m_baseSize b = p" "m_cur b = Some i"
    by (rule position_split [OF binv])
  obtain vs where vs: "iov_loop (m_nodes b) (Some i) p (m_baseSize b - p) len = Inr vs"
    "iov_bytes (m_nodes b) vs = take len (drop (m_position b) (mem (m_nodes b)))"
    using iov_loop_ok [OF I(2) ip(3,2), of len] room I ip(1) by auto
  have "getWriteBuffers b0 len = Inr (len, vs, b)"
    using len ip I(2) vs(1) unfolding getWriteBuffers_def b_def [symmetric] Let_def
    by (simp add: deref_def)
  then show ?thesis using vs(2) binv room I(7) b_def by auto
qed

lemma file_loop_aligned:
  assumes "blocks_ok w ns" "0 < w" "i * w + n \<le> length ns * w"
  shows "file_loop w ns (cursor w (length ns) (i * w)) (int n) (int (i * w)) out
    = Inr (out @ take n (drop (i * w) (mem ns)))"
  using assms
proof (induction n arbitrary: i out rule: less_induct)
  case (less n)
  show ?case
  proof (cases "n = 0")
    case True
    then show ?thesis by (subst file_loop.simps) simp
  next
    case False
    have i: "i < length ns"
    proof (rule ccontr)
      assume "\<not> i < length ns"
      then have "length ns * w \<le> i * w" by (simp add: leI)
      then show False using less.prems False by linarith
    qed
    let ?k = "min w n"
    have len: "(if int w < int n then int w else int n) = int ?k" by simp
    have nx: "next_node ns i = cursor w (length ns) (Suc i * w)"
      using cursor_boundary [of w ns i] less.prems(2) by simp
    have cur: "cursor w (length ns) (i * w) = Some i" using cursor_at [of 0 w i] i less.prems(2) by simp
    have sl: "take ?k (node_ptr (ns ! i)) = take ?k (drop (i * w) (mem ns))"
      using mem_slice [OF less.prems(1) i, of 0 ?k] by simp
    have "file_loop w ns (Some i) (int n) (int (i * w)) out
        = file_loop w ns (next_node ns i) (int n - int ?k) (int (i * w) + int ?k)
            (out @ take ?k (node_ptr (ns ! i)))"
      using False i by (subst file_loop.simps) (simp add: Let_def len del: of_nat_mult)
    also have "\<dots> = Inr (out @ take n (drop (i * w) (mem ns)))"
    proof (cases "w < n")
      case True
      have "file_loop w ns (cursor w (length ns) (Suc i * w)) (int (n - w)) (int (Suc i * w))
           (out @ take w (node_ptr (ns ! i)))
        = Inr ((out @ take w (node_ptr (ns ! i))) @ take (n - w) (drop (Suc i * w) (mem ns)))"
        using less.IH [of "n - w" "Suc i" "out @ take w (node_ptr (ns ! i))"] less.prems True by simp
      moreover have "int n - int w = int (n - w)" "int (i * w) + int w = int (Suc i * w)"
        using True by (simp_all add: algebra_simps)
      ultimately show ?thesis
        using True sl nx take_drop_split [of w n "i * w" "mem ns"]
        by (simp add: min_def add.commute del: of_nat_mult of_nat_diff)
    next
      case False
      then show ?thesis using sl by (subst file_loop.simps) (simp add: min_def)
    qed
    finally show ?thesis using cur by simp
  qed
qed

lemma from_file_loop_ok:
  assumes "ba_inv b"
  shows "\<exists>b'. from_file_loop b data = Inr b' \<and> ba_inv b'
    \<and> contents b' = blit (contents b) (m_position b) data \<and> m_position b' = m_position b + length data"
  using assms
proof (induction "length data" arbitrary: b data rule: less_induct)
  case less
  let ?w = "m_baseSize b" and ?hd = "take (m_baseSize b) data"
  have w: "0 < ?w" by (rule ba_invD(1) [OF less.prems])
  obtain b1 where b1: "ba_write b ?hd = Inr b1" "ba_inv b1"
    "contents b1 = blit (contents b) (m_position b) ?hd" "m_position b1 = m_position b + length ?hd"
    "m_baseSize b1 = ?w"
    by (rule ba_write_ok [OF less.prems, of ?hd]) blast
  show ?case
  proof (cases "length data < ?w")
    case True
    then have "from_file_loop b data = Inr b1" using b1(1) w by (subst from_file_loop.simps) simp
    then show ?thesis using b1 True by simp
  next
    case False
    then have "length (drop ?w data) < length data" using w by simp
    from less.hyps [OF this b1(2)] obtain b2 where b2: "from_file_loop b1 (drop ?w data) = Inr b2"
      "ba_inv b2" "contents b2 = blit (contents b1) (m_position b1) (drop ?w data)"
      "m_position b2 = m_position b1 + length (drop ?w data)" by blast
    have "from_file_loop b data = Inr b2"
      using False w b1(1) b2(1) by (subst from_file_loop.simps) simp
    moreover have "contents b2 = blit (contents b) (m_position b) data"
      using b2(3) b1(3,4) ba_invD(3) [OF less.prems] length_contents [OF less.prems]
        blit_blit [of "m_position b" "contents b" ?hd "drop ?w data"] by simp
    ultimately show ?thesis using b2 b1(4) False by simp
  qed
qed

section \<open>The interface the serialisers rely on\<close>

text \<open>
  A byte store is a flat sequence of bytes with a position: a write replaces the bytes from
  the position on (and extends the sequence), a read of at least one stored byte returns them,
  seeking to a stored position moves there. \<open>cfg\<close> is what none of the three change (the
  configured byte order).
\<close>

locale byte_store =
  fixes inv :: "'s \<Rightarrow> bool" and data :: "'s \<Rightarrow> u8 list" and pos :: "'s \<Rightarrow> nat" and cfg :: "'s \<Rightarrow> 'c"
    and wr :: "'s \<Rightarrow> u8 list \<Rightarrow> 'e + 's" and rd :: "'s \<Rightarrow> nat \<Rightarrow> 'e + (u8 list \<times> 's)"
    and seek_to :: "'s \<Rightarrow> nat \<Rightarrow> 'e + 's"
  assumes pos_le: "inv s \<Longrightarrow> pos s \<le> length (data s)"
    and wr_law: "inv s \<Longrightarrow> \<exists>s'. wr s buf = Inr s' \<and> inv s' \<and> data s' = blit (data s) (pos s) buf
        \<and> pos s' = pos s + length buf \<and> cfg s' = cfg s"
    and rd_law: "inv s \<Longrightarrow> 0 < n \<Longrightarrow> pos s + n \<le> length (data s) \<Longrightarrow>
        \<exists>s'. rd s n = Inr (take n (drop (pos s) (data s)), s') \<and> inv s' \<and> data s' = data s
          \<and> pos s' = pos s + n \<and> cfg s' = cfg s"
    and seek_law: "inv s \<Longrightarrow> p \<le> length (data s) \<Longrightarrow>
        \<exists>s'. seek_to s p = Inr s' \<and> inv s' \<and> data s' = data s \<and> pos s' = p \<and> cfg s' = cfg s"
begin

definition at :: "'s \<Rightarrow> u8 list \<Rightarrow> bool" where
  "at s bs \<longleftrightarrow> inv s \<and> take (length bs) (drop (pos s) (data s)) = bs"

lemma at_room: "at s bs \<Longrightarrow> pos s + length bs \<le> length (data s)"
proof -
  assume a: "at s bs"
  then have "length (take (length bs) (drop (pos s) (data s))) = length bs" by (simp add: at_def)
  then show ?thesis using a pos_le [of s] by (auto simp: at_def min_def split: if_splits)
qed

lemma rd_at:
  assumes "at s (bs @ rest)" "bs \<noteq> []"
  shows "\<exists>s'. rd s (length bs) = Inr (bs, s') \<and> at s' rest \<and> pos s' = pos s + length bs
    \<and> data s' = data s \<and> cfg s' = cfg s"
proof -
  have eq: "take (length bs + length rest) (drop (pos s) (data s)) = bs @ rest"
    using assms by (simp add: at_def)
  have "take (length bs) (take (length bs + length rest) (drop (pos s) (data s))) = bs"
    unfolding eq by simp
  then have hd: "take (length bs) (drop (pos s) (data s)) = bs" by (simp add: min_def)
  have "drop (length bs) (take (length bs + length rest) (drop (pos s) (data s))) = rest"
    unfolding eq by simp
  then have tl: "take (length rest) (drop (pos s + length bs) (data s)) = rest"
    by (simp add: drop_take add.commute)
  have room: "pos s + length bs \<le> length (data s)" using at_room [OF assms(1)] by simp
  have "inv s" using assms by (simp add: at_def)
  from rd_law [OF this _ room] assms(2) obtain s' where
    "rd s (length bs) = Inr (take (length bs) (drop (pos s) (data s)), s')" "inv s'"
    "data s' = data s" "pos s' = pos s + length bs" "cfg s' = cfg s" by auto
  then show ?thesis using hd tl by (auto simp: at_def)
qed

lemma write_then_seek:
  assumes "inv s"
  shows "\<exists>s1 s2. wr s buf = Inr s1 \<and> seek_to s1 (pos s) = Inr s2 \<and> at s2 buf \<and> pos s2 = pos s
    \<and> data s2 = data s1 \<and> cfg s2 = cfg s"
proof -
  from wr_law [OF assms, of buf] obtain s1 where s1: "wr s buf = Inr s1" "inv s1"
    "data s1 = blit (data s) (pos s) buf" "pos s1 = pos s + length buf" "cfg s1 = cfg s" by blast
  have "pos s \<le> length (data s1)" using pos_le [OF s1(2)] s1(4) by simp
  from seek_law [OF s1(2) this] obtain s2 where s2: "seek_to s1 (pos s) = Inr s2" "inv s2"
    "data s2 = data s1" "pos s2 = pos s" "cfg s2 = cfg s1" by blast
  have "take (length buf) (drop (pos s) (data s1)) = buf"
    using s1(3) pos_le [OF assms] by (simp add: blit_def)
  then show ?thesis using s1 s2 by (auto simp: at_def)
qed

end

interpretation ba: byte_store ba_inv contents m_position m_endian ba_write ba_read setPosition
proof
  fix s buf assume "ba_inv s"
  then show "\<exists>s'. ba_write s buf = Inr s' \<and> ba_inv s' \<and> contents s' = blit (contents s) (m_position s) buf
      \<and> m_position s' = m_position s + length buf \<and> m_endian s' = m_endian s"
    by (rule ba_write_ok [of s buf]) blast
next
  fix s n assume s: "ba_inv s" "0 < n" "m_position s + n \<le> length (contents s)"
  then have "n \<le> m_size s - m_position s" "m_position s < m_capacity s"
    using ba_invD(4) [OF s(1)] by auto
  from ba_read_ok [OF s(1) this] show "\<exists>s'. ba_read s n = Inr (take n (drop (m_position s) (contents s)), s')
      \<and> ba_inv s' \<and> contents s' = contents s \<and> m_position s' = m_position s + n \<and> m_endian s' = m_endian s"
    by blast
next
  fix s p assume s: "ba_inv s" "p \<le> length (contents s)"
  then have "p \<le> m_capacity s" using ba_invD(4) [OF s(1)] by simp
  from setPosition_ok [OF s(1) this] show "\<exists>s'. setPosition s p = Inr s' \<and> ba_inv s'
      \<and> contents s' = contents s \<and> m_position s' = p \<and> m_endian s' = m_endian s"
    using s contents_setPosition [OF s(1), of p] by (metis length_contents)
qed (auto simp: ba_invD)

end
