(* ===== verification/Sylar_Serial.thy ===== *)
theory Sylar_Serial
  imports Sylar_ByteArray
begin

unbundle bit_operations_syntax

text \<open>
  The typed readers and writers of \<^verbatim>\<open>ByteArray\<close> (\<^verbatim>\<open>src/sylar/bytearray.cpp\<close>, lines 63 to 329) and
  the byte order helpers of \<^verbatim>\<open>src/sylar/endian.h\<close>. An integer of either signedness is the word of
  its bits, a \<^verbatim>\<open>float\<close> or \<^verbatim>\<open>double\<close> the word that \<^verbatim>\<open>memcpy\<close> gives, a \<^verbatim>\<open>std::string\<close> its bytes. The
  theorems are the round trips: what was written is read back, for the fixed width codecs in
  both byte orders, for the variable length ones, for the zig-zag signed ones and for strings.
\<close>

section \<open>Byte order\<close>

text \<open>The object representation of an \<open>n\<close> byte integer on the little endian host.\<close>

definition le_bytes :: "nat \<Rightarrow> 'a::len word \<Rightarrow> u8 list" where
  "le_bytes n v = map (\<lambda>i. ucast (drop_bit (8 * i) v)) [0..<n]"

fun of_le_bytes :: "u8 list \<Rightarrow> 'a::len word" where
  "of_le_bytes [] = 0"
| "of_le_bytes (b # bs) = ucast b OR push_bit 8 (of_le_bytes bs)"

text \<open>\<^verbatim>\<open>bswap_16\<close>, \<^verbatim>\<open>bswap_32\<close> and \<^verbatim>\<open>bswap_64\<close> reverse the bytes; \<open>n\<close> is \<^verbatim>\<open>sizeof(T)\<close>.\<close>

definition byteswap :: "nat \<Rightarrow> 'a::len word \<Rightarrow> 'a word" where
  "byteswap n v = of_le_bytes (rev (le_bytes n v))"

definition SYLAR_BYTE_ORDER :: endian where
  "SYLAR_BYTE_ORDER = SYLAR_LITTLE_ENDIAN"

definition byteswapOnLittleEndian :: "nat \<Rightarrow> 'a::len word \<Rightarrow> 'a word" where
  "byteswapOnLittleEndian n t = (if SYLAR_BYTE_ORDER = SYLAR_BIG_ENDIAN then t else byteswap n t)"

definition byteswapOnBigEndian :: "nat \<Rightarrow> 'a::len word \<Rightarrow> 'a word" where
  "byteswapOnBigEndian n t = (if SYLAR_BYTE_ORDER = SYLAR_BIG_ENDIAN then byteswap n t else t)"

lemma length_le_bytes [simp]: "length (le_bytes n v) = n"
  by (simp add: le_bytes_def)

lemma bit_of_le_bytes:
  "bit (of_le_bytes bs :: 'a::len word) k
    \<longleftrightarrow> k < LENGTH('a) \<and> k div 8 < length bs \<and> bit (bs ! (k div 8)) (k mod 8)"
proof (induction bs arbitrary: k)
  case Nil
  then show ?case by simp
next
  case (Cons b bs)
  show ?case
  proof (cases "k < 8")
    case True
    then show ?thesis by (auto simp: bit_simps)
  next
    case False
    then have "k div 8 = Suc ((k - 8) div 8)" "k mod 8 = (k - 8) mod 8"
      by (simp_all add: le_div_geq le_mod_geq)
    moreover have "\<not> bit b k" using False bit_imp_le_length [of b k] by auto
    ultimately show ?thesis using False Cons.IH [of "k - 8"] by (auto simp: bit_simps)
  qed
qed

lemma of_le_bytes_le_bytes:
  assumes "LENGTH('a) \<le> 8 * n"
  shows "of_le_bytes (le_bytes n v) = (v :: 'a::len word)"
proof (rule bit_eqI)
  fix k assume "possible_bit TYPE('a word) k"
  then have k: "k < LENGTH('a)" by (simp add: possible_bit_word)
  then have d: "k div 8 < n" using assms by (simp add: div_less_iff_less_mult mult.commute)
  then have "bit (le_bytes n v ! (k div 8)) (k mod 8) = bit v (k div 8 * 8 + k mod 8)"
    by (simp add: le_bytes_def bit_simps mult.commute)
  then show "bit (of_le_bytes (le_bytes n v) :: 'a word) k = bit v k"
    using k d by (simp add: bit_of_le_bytes)
qed

lemma le_bytes_of_le_bytes:
  assumes "length bs = n" "8 * n \<le> LENGTH('a)"
  shows "le_bytes n (of_le_bytes bs :: 'a::len word) = bs"
proof (rule nth_equalityI)
  show "length (le_bytes n (of_le_bytes bs :: 'a word)) = length bs" using assms by simp
  fix i assume "i < length (le_bytes n (of_le_bytes bs :: 'a word))"
  then have i: "i < n" by simp
  show "le_bytes n (of_le_bytes bs :: 'a word) ! i = bs ! i"
  proof (rule bit_eqI)
    fix k assume "possible_bit TYPE(u8) k"
    then have k: "k < 8" by (simp add: possible_bit_word)
    have "8 * i + k < LENGTH('a)" using i k assms(2) by linarith
    moreover have "(8 * i + k) div 8 = i" "(8 * i + k) mod 8 = k" using k by auto
    ultimately show "bit (le_bytes n (of_le_bytes bs :: 'a word) ! i) k = bit (bs ! i) k"
      using i k assms(1) by (simp add: le_bytes_def bit_simps bit_of_le_bytes)
  qed
qed

lemma byteswap_byteswap:
  assumes "LENGTH('a) = 8 * n"
  shows "byteswap n (byteswap n v) = (v :: 'a::len word)"
  using assms by (simp add: byteswap_def le_bytes_of_le_bytes of_le_bytes_le_bytes)

section \<open>Fixed width integers\<close>

definition encF :: "nat \<Rightarrow> endian \<Rightarrow> 'a::len word \<Rightarrow> u8 list" where
  "encF n e v = le_bytes n (if e \<noteq> SYLAR_BYTE_ORDER then byteswap n v else v)"

definition decF :: "nat \<Rightarrow> endian \<Rightarrow> u8 list \<Rightarrow> 'a::len word" where
  "decF n e bs = (let v = of_le_bytes bs in if e = SYLAR_BYTE_ORDER then v else byteswap n v)"

definition writeFint8 :: "bytearray \<Rightarrow> u8 \<Rightarrow> ba_error + bytearray" where
  "writeFint8 b v = ba_write b (le_bytes 1 v)"

definition writeFuint8 :: "bytearray \<Rightarrow> u8 \<Rightarrow> ba_error + bytearray" where
  "writeFuint8 b v = ba_write b (le_bytes 1 v)"

definition writeFint16 :: "bytearray \<Rightarrow> u16 \<Rightarrow> ba_error + bytearray" where
  "writeFint16 b v = ba_write b (encF 2 (m_endian b) v)"

definition writeFuint16 :: "bytearray \<Rightarrow> u16 \<Rightarrow> ba_error + bytearray" where
  "writeFuint16 b v = ba_write b (encF 2 (m_endian b) v)"

definition writeFint32 :: "bytearray \<Rightarrow> u32 \<Rightarrow> ba_error + bytearray" where
  "writeFint32 b v = ba_write b (encF 4 (m_endian b) v)"

definition writeFuint32 :: "bytearray \<Rightarrow> u32 \<Rightarrow> ba_error + bytearray" where
  "writeFuint32 b v = ba_write b (encF 4 (m_endian b) v)"

definition writeFint64 :: "bytearray \<Rightarrow> u64 \<Rightarrow> ba_error + bytearray" where
  "writeFint64 b v = ba_write b (encF 8 (m_endian b) v)"

definition writeFuint64 :: "bytearray \<Rightarrow> u64 \<Rightarrow> ba_error + bytearray" where
  "writeFuint64 b v = ba_write b (encF 8 (m_endian b) v)"

definition writeFloat :: "bytearray \<Rightarrow> u32 \<Rightarrow> ba_error + bytearray" where
  "writeFloat b v = writeFuint32 b v"

definition writeDouble :: "bytearray \<Rightarrow> u64 \<Rightarrow> ba_error + bytearray" where
  "writeDouble b v = writeFuint64 b v"

definition readFint8 :: "bytearray \<Rightarrow> ba_error + (u8 \<times> bytearray)" where
  "readFint8 b = bindE (ba_read b 1) (\<lambda>(bs, b'). Inr (of_le_bytes bs, b'))"

definition readFuint8 :: "bytearray \<Rightarrow> ba_error + (u8 \<times> bytearray)" where
  "readFuint8 b = bindE (ba_read b 1) (\<lambda>(bs, b'). Inr (of_le_bytes bs, b'))"

definition readFint16 :: "bytearray \<Rightarrow> ba_error + (u16 \<times> bytearray)" where
  "readFint16 b = bindE (ba_read b 2) (\<lambda>(bs, b'). Inr (decF 2 (m_endian b) bs, b'))"

definition readFuint16 :: "bytearray \<Rightarrow> ba_error + (u16 \<times> bytearray)" where
  "readFuint16 b = bindE (ba_read b 2) (\<lambda>(bs, b'). Inr (decF 2 (m_endian b) bs, b'))"

definition readFint32 :: "bytearray \<Rightarrow> ba_error + (u32 \<times> bytearray)" where
  "readFint32 b = bindE (ba_read b 4) (\<lambda>(bs, b'). Inr (decF 4 (m_endian b) bs, b'))"

definition readFuint32 :: "bytearray \<Rightarrow> ba_error + (u32 \<times> bytearray)" where
  "readFuint32 b = bindE (ba_read b 4) (\<lambda>(bs, b'). Inr (decF 4 (m_endian b) bs, b'))"

definition readFint64 :: "bytearray \<Rightarrow> ba_error + (u64 \<times> bytearray)" where
  "readFint64 b = bindE (ba_read b 8) (\<lambda>(bs, b'). Inr (decF 8 (m_endian b) bs, b'))"

definition readFuint64 :: "bytearray \<Rightarrow> ba_error + (u64 \<times> bytearray)" where
  "readFuint64 b = bindE (ba_read b 8) (\<lambda>(bs, b'). Inr (decF 8 (m_endian b) bs, b'))"

definition readFloat :: "bytearray \<Rightarrow> ba_error + (u32 \<times> bytearray)" where
  "readFloat b = readFuint32 b"

definition readDouble :: "bytearray \<Rightarrow> ba_error + (u64 \<times> bytearray)" where
  "readDouble b = readFuint64 b"

section \<open>Zig-zag and variable length integers\<close>

text \<open>
  \<^verbatim>\<open>-v\<close> of the least integer overflows in C++; on the two's complement hosts the code runs on
  it is the word negation.
\<close>

definition EncodeZigzag32 :: "u32 \<Rightarrow> u32" where
  "EncodeZigzag32 v = (if sint v < 0 then (- v) * 2 - 1 else v * 2)"

definition EncodeZigzag64 :: "u64 \<Rightarrow> u64" where
  "EncodeZigzag64 v = (if sint v < 0 then (- v) * 2 - 1 else v * 2)"

definition DecodeZigzag32 :: "u32 \<Rightarrow> u32" where
  "DecodeZigzag32 v = drop_bit 1 v XOR - (v AND 1)"

definition DecodeZigzag64 :: "u64 \<Rightarrow> u64" where
  "DecodeZigzag64 v = drop_bit 1 v XOR - (v AND 1)"

text \<open>
  The loop of \<^verbatim>\<open>writeUint32\<close> and \<^verbatim>\<open>writeUint64\<close>, whose bodies are the same at both widths: the
  bytes put into the array \<^verbatim>\<open>tmp\<close>.
\<close>

lemma unat_shift7: "unat (drop_bit 7 v :: 'a::len word) = unat v div 128"
  by (subst unat_drop_bit_eq) (simp add: drop_bit_eq_div)

function varint_bytes :: "'a::len word \<Rightarrow> u8 list" where
  "varint_bytes v =
     (if 128 \<le> unat v then (ucast (v AND 127) OR 128) # varint_bytes (drop_bit 7 v) else [ucast v])"
  by pat_completeness auto
termination
  by (relation "measure unat") (auto simp: unat_shift7)

declare varint_bytes.simps [simp del]

definition writeUint32 :: "bytearray \<Rightarrow> u32 \<Rightarrow> ba_error + bytearray" where
  "writeUint32 b v = ba_write b (varint_bytes v)"

definition writeUint64 :: "bytearray \<Rightarrow> u64 \<Rightarrow> ba_error + bytearray" where
  "writeUint64 b v = ba_write b (varint_bytes v)"

definition writeInt32 :: "bytearray \<Rightarrow> u32 \<Rightarrow> ba_error + bytearray" where
  "writeInt32 b v = writeUint32 b (EncodeZigzag32 v)"

definition writeInt64 :: "bytearray \<Rightarrow> u64 \<Rightarrow> ba_error + bytearray" where
  "writeInt64 b v = writeUint64 b (EncodeZigzag64 v)"

text \<open>
  The loop of \<^verbatim>\<open>readUint32\<close> and \<^verbatim>\<open>readUint64\<close>: \<^verbatim>\<open>for(int i = 0; i < bits; i += 7)\<close>, again the same
  body at both widths.
\<close>

function varint_read :: "nat \<Rightarrow> nat \<Rightarrow> 'a::len word \<Rightarrow> bytearray \<Rightarrow> ba_error + ('a word \<times> bytearray)" where
  "varint_read bits i r b =
     (if i < bits then
        bindE (readFuint8 b) (\<lambda>(x, b').
          if unat x < 128 then Inr (r OR push_bit i (ucast x), b')
          else varint_read bits (i + 7) (r OR push_bit i (ucast (x AND 127))) b')
      else Inr (r, b))"
  by pat_completeness auto
termination
  by (relation "measure (\<lambda>(bits, i, _). bits - i)") auto

declare varint_read.simps [simp del]

definition readUint32 :: "bytearray \<Rightarrow> ba_error + (u32 \<times> bytearray)" where
  "readUint32 b = varint_read 32 0 0 b"

definition readUint64 :: "bytearray \<Rightarrow> ba_error + (u64 \<times> bytearray)" where
  "readUint64 b = varint_read 64 0 0 b"

definition readInt32 :: "bytearray \<Rightarrow> ba_error + (u32 \<times> bytearray)" where
  "readInt32 b = bindE (readUint32 b) (\<lambda>(v, b'). Inr (DecodeZigzag32 v, b'))"

definition readInt64 :: "bytearray \<Rightarrow> ba_error + (u64 \<times> bytearray)" where
  "readInt64 b = bindE (readUint64 b) (\<lambda>(v, b'). Inr (DecodeZigzag64 v, b'))"

section \<open>Strings\<close>

text \<open>The length is converted to the width of the length field, as the argument conversion does.\<close>

definition writeStringF16 :: "bytearray \<Rightarrow> u8 list \<Rightarrow> ba_error + bytearray" where
  "writeStringF16 b s = bindE (writeFuint16 b (of_nat (length s))) (\<lambda>b'. ba_write b' s)"

definition writeStringF32 :: "bytearray \<Rightarrow> u8 list \<Rightarrow> ba_error + bytearray" where
  "writeStringF32 b s = bindE (writeFuint32 b (of_nat (length s))) (\<lambda>b'. ba_write b' s)"

definition writeStringF64 :: "bytearray \<Rightarrow> u8 list \<Rightarrow> ba_error + bytearray" where
  "writeStringF64 b s = bindE (writeFuint64 b (of_nat (length s))) (\<lambda>b'. ba_write b' s)"

definition writeStringVint :: "bytearray \<Rightarrow> u8 list \<Rightarrow> ba_error + bytearray" where
  "writeStringVint b s = bindE (writeUint64 b (of_nat (length s))) (\<lambda>b'. ba_write b' s)"

definition writeStringWithoutLength :: "bytearray \<Rightarrow> u8 list \<Rightarrow> ba_error + bytearray" where
  "writeStringWithoutLength b s = ba_write b s"

definition readStringF16 :: "bytearray \<Rightarrow> ba_error + (u8 list \<times> bytearray)" where
  "readStringF16 b = bindE (readFuint16 b) (\<lambda>(len, b'). ba_read b' (unat len))"

definition readStringF32 :: "bytearray \<Rightarrow> ba_error + (u8 list \<times> bytearray)" where
  "readStringF32 b = bindE (readFuint32 b) (\<lambda>(len, b'). ba_read b' (unat len))"

definition readStringF64 :: "bytearray \<Rightarrow> ba_error + (u8 list \<times> bytearray)" where
  "readStringF64 b = bindE (readFuint64 b) (\<lambda>(len, b'). ba_read b' (unat len))"

definition readStringVint :: "bytearray \<Rightarrow> ba_error + (u8 list \<times> bytearray)" where
  "readStringVint b = bindE (readUint64 b) (\<lambda>(len, b'). ba_read b' (unat len))"

section \<open>Codecs over a byte store\<close>

text \<open>
  A codec writes a value as bytes (at least one) and reads it back from a store that stands at
  these bytes, leaving the position behind them. Whatever has this contract round-trips.
\<close>

locale codec = byte_store inv data pos cfg wr rd seek_to
  for inv :: "'s \<Rightarrow> bool" and data :: "'s \<Rightarrow> u8 list" and pos :: "'s \<Rightarrow> nat" and cfg :: "'s \<Rightarrow> 'c"
    and wr :: "'s \<Rightarrow> u8 list \<Rightarrow> 'e + 's" and rd :: "'s \<Rightarrow> nat \<Rightarrow> 'e + (u8 list \<times> 's)"
    and seek_to :: "'s \<Rightarrow> nat \<Rightarrow> 'e + 's" +
  fixes enc :: "'c \<Rightarrow> 'v \<Rightarrow> u8 list" and put :: "'s \<Rightarrow> 'v \<Rightarrow> 'e + 's" and get :: "'s \<Rightarrow> 'e + ('v \<times> 's)"
  assumes put_enc: "inv s \<Longrightarrow> put s v = wr s (enc (cfg s) v)"
    and get_at: "at s (enc (cfg s) v @ rest) \<Longrightarrow> \<exists>s'. get s = Inr (v, s') \<and> at s' rest
        \<and> pos s' = pos s + length (enc (cfg s) v) \<and> data s' = data s \<and> cfg s' = cfg s"
begin

lemma put_get:
  assumes "inv s"
  shows "\<exists>s1 s2 s3. put s v = Inr s1 \<and> seek_to s1 (pos s) = Inr s2 \<and> get s2 = Inr (v, s3)
    \<and> inv s3 \<and> data s3 = data s1 \<and> pos s3 = pos s1"
proof -
  let ?bs = "enc (cfg s) v"
  from write_then_seek [OF assms, of ?bs] obtain s1 s2 where
    s: "wr s ?bs = Inr s1" "seek_to s1 (pos s) = Inr s2" "at s2 ?bs" "pos s2 = pos s"
      "data s2 = data s1" "cfg s2 = cfg s" by blast
  from get_at [of s2 v "[]"] s obtain s3 where
    "get s2 = Inr (v, s3)" "at s3 []" "pos s3 = pos s2 + length ?bs" "data s3 = data s2" by auto
  moreover have "pos s1 = pos s + length ?bs" using wr_law [OF assms, of ?bs] s(1) by auto
  ultimately show ?thesis using s put_enc [OF assms] by (auto simp: at_def)
qed

end

locale fixed_codec = byte_store inv data pos cfg wr rd seek_to
  for inv :: "'s \<Rightarrow> bool" and data :: "'s \<Rightarrow> u8 list" and pos :: "'s \<Rightarrow> nat" and cfg :: "'s \<Rightarrow> 'c"
    and wr :: "'s \<Rightarrow> u8 list \<Rightarrow> 'e + 's" and rd :: "'s \<Rightarrow> nat \<Rightarrow> 'e + (u8 list \<times> 's)"
    and seek_to :: "'s \<Rightarrow> nat \<Rightarrow> 'e + 's" +
  fixes fenc :: "'c \<Rightarrow> 'v \<Rightarrow> u8 list" and fdec :: "'c \<Rightarrow> u8 list \<Rightarrow> 'v" and width :: nat
  assumes width_pos: "0 < width" and fenc_length: "length (fenc c v) = width"
    and fdec_fenc: "fdec c (fenc c v) = v"
begin

lemma fget_at:
  assumes "at s (fenc (cfg s) v @ rest)"
  shows "\<exists>s'. bindE (rd s width) (\<lambda>(bs, s'). Inr (fdec (cfg s) bs, s')) = Inr (v, s') \<and> at s' rest
    \<and> pos s' = pos s + length (fenc (cfg s) v) \<and> data s' = data s \<and> cfg s' = cfg s"
proof -
  have "fenc (cfg s) v \<noteq> []" using width_pos fenc_length [of "cfg s" v] by auto
  from rd_at [OF assms this] show ?thesis
    using fdec_fenc [of "cfg s" v] fenc_length [of "cfg s" v] by auto
qed

end

sublocale fixed_codec \<subseteq> codec inv data pos cfg wr rd seek_to fenc
    "\<lambda>s v. wr s (fenc (cfg s) v)" "\<lambda>s. bindE (rd s width) (\<lambda>(bs, s'). Inr (fdec (cfg s) bs, s'))"
  by unfold_locales (auto intro: fget_at)

lemma length_encF [simp]: "length (encF n e v) = n"
  by (simp add: encF_def)

lemma decF_encF: "LENGTH('a) = 8 * n \<Longrightarrow> decF n e (encF n e v) = (v :: 'a::len word)"
  by (simp add: decF_def encF_def Let_def of_le_bytes_le_bytes byteswap_byteswap)

interpretation c8: fixed_codec ba_inv contents m_position m_endian ba_write ba_read setPosition
  "\<lambda>_. le_bytes 1" "\<lambda>_. of_le_bytes :: u8 list \<Rightarrow> u8" 1
  by unfold_locales (auto simp: of_le_bytes_le_bytes)

interpretation c16: fixed_codec ba_inv contents m_position m_endian ba_write ba_read setPosition
  "encF 2" "decF 2 :: endian \<Rightarrow> u8 list \<Rightarrow> u16" 2
  by unfold_locales (auto simp: decF_encF)

interpretation c32: fixed_codec ba_inv contents m_position m_endian ba_write ba_read setPosition
  "encF 4" "decF 4 :: endian \<Rightarrow> u8 list \<Rightarrow> u32" 4
  by unfold_locales (auto simp: decF_encF)

interpretation c64: fixed_codec ba_inv contents m_position m_endian ba_write ba_read setPosition
  "encF 8" "decF 8 :: endian \<Rightarrow> u8 list \<Rightarrow> u64" 8
  by unfold_locales (auto simp: decF_encF)

lemmas fixed_defs = writeFint8_def writeFuint8_def writeFint16_def writeFuint16_def writeFint32_def
  writeFuint32_def writeFint64_def writeFuint64_def writeFloat_def writeDouble_def
  readFint8_def readFuint8_def readFint16_def readFuint16_def readFint32_def
  readFuint32_def readFint64_def readFuint64_def readFloat_def readDouble_def

definition roundtrips :: "(bytearray \<Rightarrow> 'v \<Rightarrow> ba_error + bytearray)
    \<Rightarrow> (bytearray \<Rightarrow> ba_error + ('v \<times> bytearray)) \<Rightarrow> bytearray \<Rightarrow> 'v \<Rightarrow> bool" where
  "roundtrips put get b v \<longleftrightarrow> (\<exists>b1 b2 b3. put b v = Inr b1 \<and> setPosition b1 (m_position b) = Inr b2
     \<and> get b2 = Inr (v, b3) \<and> ba_inv b3 \<and> contents b3 = contents b1 \<and> m_position b3 = m_position b1)"

subsection \<open>Variable length integers\<close>

lemma varint_bytes_not_Nil [simp]: "varint_bytes v \<noteq> []"
  by (subst varint_bytes.simps) simp

lemma varint_small: "unat v < 128 \<Longrightarrow> varint_bytes v = [ucast v]"
  by (subst varint_bytes.simps) simp

lemma varint_large: "128 \<le> unat v \<Longrightarrow> varint_bytes v = (ucast (v AND 127) OR 128) # varint_bytes (drop_bit 7 v)"
  by (subst varint_bytes.simps) simp

lemma varint_length: "unat v < 2 ^ (7 * Suc k) \<Longrightarrow> length (varint_bytes v) \<le> Suc k"
proof (induction k arbitrary: v)
  case 0
  then show ?case by (simp add: varint_small)
next
  case (Suc k)
  show ?case
  proof (cases "128 \<le> unat v")
    case True
    have "unat v div 128 < 2 ^ (7 * Suc k)"
      using Suc.prems by (simp add: div_less_iff_less_mult power_add)
    then have "length (varint_bytes (drop_bit 7 v)) \<le> Suc k"
      by (intro Suc.IH) (simp add: unat_shift7)
    then show ?thesis using True by (simp add: varint_large)
  next
    case False
    then show ?thesis by (simp add: varint_small)
  qed
qed

lemma tmp_fits: "length (varint_bytes (v32 :: u32)) \<le> 5" "length (varint_bytes (v64 :: u64)) \<le> 10"
proof -
  have "unat v32 < 2 ^ 32" using unsigned_less [of v32] by simp
  then have "unat v32 < 2 ^ (7 * Suc 4)" by (simp add: less_le_trans)
  then show "length (varint_bytes v32) \<le> 5" using varint_length [of v32 4] by simp
  have "unat v64 < 2 ^ 64" using unsigned_less [of v64] by simp
  then have "unat v64 < 2 ^ (7 * Suc 9)" by (simp add: less_le_trans)
  then show "length (varint_bytes v64) \<le> 10" using varint_length [of v64 9] by simp
qed

lemma readFuint8_at:
  assumes "ba.at b (x # rest)"
  shows "\<exists>b'. readFuint8 b = Inr (x, b') \<and> ba.at b' rest \<and> m_position b' = Suc (m_position b)
    \<and> contents b' = contents b \<and> m_endian b' = m_endian b"
  using c8.get_at [of b x rest] assms
  by (auto simp: readFuint8_def le_bytes_def)

lemma low7: "v AND 127 = take_bit 7 (v :: 'a::len word)"
  by (simp add: take_bit_eq_mask mask_eq_exp_minus_1)

lemma varint_continuation:
  fixes v :: "'a::len word"
  assumes "8 \<le> LENGTH('a)"
  defines "x \<equiv> (ucast (v AND 127) OR 128 :: u8)"
  shows "128 \<le> unat x" "ucast (x AND 127) = v AND 127"
proof -
  have e: "(128 :: u8) = 2 ^ 7" by simp
  have "128 \<le> x" unfolding x_def using le_word_or2 [of "128 :: u8" "ucast (v AND 127)"]
    by (simp add: or.commute)
  then show "128 \<le> unat x" by (simp add: word_le_nat_alt)
  show "ucast (x AND 127) = v AND 127"
    unfolding x_def low7 e using assms(1) by (intro bit_eqI) (auto simp: bit_simps)
qed

lemma varint_push:
  "push_bit i (v AND 127) OR push_bit (i + 7) (drop_bit 7 v) = push_bit i (v :: 'a::len word)"
proof (rule bit_eqI)
  fix k
  show "bit (push_bit i (v AND 127) OR push_bit (i + 7) (drop_bit 7 v)) k = bit (push_bit i v) k"
    unfolding low7 by (cases "k < i + 7") (auto simp: bit_simps)
qed

lemma varint_read_at:
  assumes "LENGTH('a) = bits" "8 \<le> bits" "i < bits" "unat v < 2 ^ (bits - i)"
    and "ba.at b (varint_bytes v @ rest)"
  shows "\<exists>b'. varint_read bits i r b = Inr (r OR push_bit i (v :: 'a::len word), b') \<and> ba.at b' rest
    \<and> m_position b' = m_position b + length (varint_bytes v) \<and> contents b' = contents b
    \<and> m_endian b' = m_endian b"
  using assms
proof (induction v arbitrary: i r b rule: varint_bytes.induct)
  case (1 v)
  show ?case
  proof (cases "128 \<le> unat v")
    case False
    have "unat (ucast v :: u8) = unat v"
      using False by (simp add: unsigned_ucast_eq take_bit_nat_eq_self)
    moreover have "ucast (ucast v :: u8) = v"
      using False \<open>8 \<le> bits\<close> "1.prems"(1)
      by (simp add: word_unat_eq_iff unsigned_ucast_eq unsigned_take_bit_eq take_bit_nat_eq_self)
    ultimately show ?thesis
      using False readFuint8_at [of b "ucast v" rest] "1.prems"
      by (subst varint_read.simps) (auto simp: varint_small)
  next
    case True
    let ?x = "ucast (v AND 127) OR 128 :: u8"
    have i7: "i + 7 < bits"
    proof (rule ccontr)
      assume "\<not> i + 7 < bits"
      then have "(2 :: nat) ^ (bits - i) \<le> 2 ^ 7" by (intro power_increasing) auto
      then show False using True "1.prems"(4) by simp
    qed
    then have e: "bits - i = bits - (i + 7) + 7" by simp
    have "(2 :: nat) ^ (bits - i) = 2 ^ (bits - (i + 7)) * 128"
      by (subst e) (simp only: power_add, simp)
    then have small: "unat (drop_bit 7 v) < 2 ^ (bits - (i + 7))"
      using "1.prems"(4) by (simp add: unat_shift7 div_less_iff_less_mult)
    have x: "128 \<le> unat ?x" "ucast (?x AND 127) = v AND 127"
      using varint_continuation [of v] "1.prems"(1,2) by auto
    have at: "ba.at b (?x # (varint_bytes (drop_bit 7 v) @ rest))"
      using "1.prems"(5) True by (simp add: varint_large)
    from readFuint8_at [OF this] obtain b1 where b1: "readFuint8 b = Inr (?x, b1)"
      "ba.at b1 (varint_bytes (drop_bit 7 v) @ rest)" "m_position b1 = Suc (m_position b)"
      "contents b1 = contents b" "m_endian b1 = m_endian b" by blast
    have "varint_read bits i r b = varint_read bits (i + 7) (r OR push_bit i (v AND 127)) b1"
      using "1.prems"(3) b1(1) x by (subst varint_read.simps) simp
    moreover have "(r OR push_bit i (v AND 127)) OR push_bit (i + 7) (drop_bit 7 v) = r OR push_bit i v"
      by (simp only: or.assoc varint_push)
    ultimately show ?thesis
      using "1.IH" [OF True "1.prems"(1,2) i7 small b1(2), of "r OR push_bit i (v AND 127)"] b1 True
      by (auto simp: varint_large simp del: push_bit_and)
  qed
qed

lemma zigzag_inverse:
  fixes v :: "'a::len word"
  defines "z \<equiv> (if sint v < 0 then (- v) * 2 - 1 else v * 2)"
  shows "drop_bit 1 z XOR - (z AND 1) = v"
proof (cases "sint v < 0")
  case True
  then have top: "bit v (LENGTH('a) - Suc 0)" by (simp add: bit_last_iff)
  have z: "z = NOT (2 * v)" using True by (simp add: z_def not_eq_complement)
  have "z AND 1 = 1" by (rule bit_eqI) (auto simp: z bit_simps bit_double_iff)
  then have "drop_bit 1 z XOR - (z AND 1) = NOT (drop_bit 1 z)" by simp
  also have "\<dots> = v"
  proof (rule bit_eqI)
    fix k assume "possible_bit TYPE('a word) k"
    then have k: "k < LENGTH('a)" by (simp add: possible_bit_word)
    show "bit (NOT (drop_bit 1 z)) k = bit v k"
    proof (cases "Suc k < LENGTH('a)")
      case True
      then show ?thesis by (auto simp: z bit_simps bit_double_iff)
    next
      case False
      then have "k = LENGTH('a) - Suc 0" using k by simp
      then show ?thesis using False top by (auto simp: z bit_simps bit_double_iff)
    qed
  qed
  finally show ?thesis .
next
  case False
  then have top: "\<not> bit v (LENGTH('a) - Suc 0)" by (simp add: bit_last_iff)
  have z: "z = 2 * v" using False by (simp add: z_def)
  have "z AND 1 = 0" by (rule bit_eqI) (auto simp: z bit_simps bit_double_iff)
  then have "drop_bit 1 z XOR - (z AND 1) = drop_bit 1 z" by simp
  also have "\<dots> = v"
  proof (rule bit_eqI)
    fix k assume "possible_bit TYPE('a word) k"
    then have k: "k < LENGTH('a)" by (simp add: possible_bit_word)
    show "bit (drop_bit 1 z) k = bit v k"
    proof (cases "Suc k < LENGTH('a)")
      case True
      then show ?thesis by (auto simp: z bit_simps bit_double_iff)
    next
      case False
      then have "k = LENGTH('a) - Suc 0" using k by simp
      then show ?thesis using False top by (auto simp: z bit_simps bit_double_iff)
    qed
  qed
  finally show ?thesis .
qed

lemma zigzag32: "DecodeZigzag32 (EncodeZigzag32 v) = v"
  unfolding DecodeZigzag32_def EncodeZigzag32_def by (rule zigzag_inverse)

lemma zigzag64: "DecodeZigzag64 (EncodeZigzag64 v) = v"
  unfolding DecodeZigzag64_def EncodeZigzag64_def by (rule zigzag_inverse)

interpretation v32: codec ba_inv contents m_position m_endian ba_write ba_read setPosition
  "\<lambda>_. varint_bytes" writeUint32 readUint32
  using varint_read_at [where 'a = 32 and bits = 32 and i = 0 and r = 0]
  by unfold_locales (auto simp: writeUint32_def readUint32_def unsigned_less [where 'b = 32 and 'a = nat, simplified])

interpretation v64: codec ba_inv contents m_position m_endian ba_write ba_read setPosition
  "\<lambda>_. varint_bytes" writeUint64 readUint64
  using varint_read_at [where 'a = 64 and bits = 64 and i = 0 and r = 0]
  by unfold_locales (auto simp: writeUint64_def readUint64_def unsigned_less [where 'b = 64 and 'a = nat, simplified])

interpretation z32: codec ba_inv contents m_position m_endian ba_write ba_read setPosition
  "\<lambda>_ v. varint_bytes (EncodeZigzag32 v)" writeInt32 readInt32
proof
  fix s v rest assume "ba.at s (varint_bytes (EncodeZigzag32 v) @ rest)"
  from v32.get_at [OF this] show "\<exists>s'. readInt32 s = Inr (v, s') \<and> ba.at s' rest
      \<and> m_position s' = m_position s + length (varint_bytes (EncodeZigzag32 v))
      \<and> contents s' = contents s \<and> m_endian s' = m_endian s"
    by (auto simp: readInt32_def zigzag32)
qed (simp add: writeInt32_def writeUint32_def)

interpretation z64: codec ba_inv contents m_position m_endian ba_write ba_read setPosition
  "\<lambda>_ v. varint_bytes (EncodeZigzag64 v)" writeInt64 readInt64
proof
  fix s v rest assume "ba.at s (varint_bytes (EncodeZigzag64 v) @ rest)"
  from v64.get_at [OF this] show "\<exists>s'. readInt64 s = Inr (v, s') \<and> ba.at s' rest
      \<and> m_position s' = m_position s + length (varint_bytes (EncodeZigzag64 v))
      \<and> contents s' = contents s \<and> m_endian s' = m_endian s"
    by (auto simp: readInt64_def zigzag64)
qed (simp add: writeInt64_def writeUint64_def)

subsection \<open>Strings\<close>

text \<open>
  A length-prefixed string over any codec of the length: the code's four string formats are
  instances. The string has a byte at least: reading none is where the code can fail.
\<close>

locale string_codec = codec inv data pos cfg wr rd seek_to enc put get
  for inv :: "'s \<Rightarrow> bool" and data :: "'s \<Rightarrow> u8 list" and pos :: "'s \<Rightarrow> nat" and cfg :: "'s \<Rightarrow> 'c"
    and wr :: "'s \<Rightarrow> u8 list \<Rightarrow> 'e + 's" and rd :: "'s \<Rightarrow> nat \<Rightarrow> 'e + (u8 list \<times> 's)"
    and seek_to :: "'s \<Rightarrow> nat \<Rightarrow> 'e + 's" and enc :: "'c \<Rightarrow> 'v \<Rightarrow> u8 list"
    and put :: "'s \<Rightarrow> 'v \<Rightarrow> 'e + 's" and get :: "'s \<Rightarrow> 'e + ('v \<times> 's)" +
  fixes of_len :: "nat \<Rightarrow> 'v" and to_len :: "'v \<Rightarrow> nat" and limit :: nat
  assumes to_of_len: "n < limit \<Longrightarrow> to_len (of_len n) = n"
begin

lemma put_string:
  assumes "inv s"
  shows "\<exists>s'. bindE (put s (of_len (length str))) (\<lambda>s1. wr s1 str) = Inr s' \<and> inv s'
    \<and> data s' = blit (data s) (pos s) (enc (cfg s) (of_len (length str)) @ str)
    \<and> pos s' = pos s + length (enc (cfg s) (of_len (length str))) + length str \<and> cfg s' = cfg s"
proof -
  let ?e = "enc (cfg s) (of_len (length str))"
  from wr_law [OF assms, of ?e] obtain s1 where s1: "put s (of_len (length str)) = Inr s1" "inv s1"
    "data s1 = blit (data s) (pos s) ?e" "pos s1 = pos s + length ?e" "cfg s1 = cfg s"
    using put_enc [OF assms] by auto
  from wr_law [OF s1(2), of str] obtain s2 where "wr s1 str = Inr s2" "inv s2"
    "data s2 = blit (data s1) (pos s1) str" "pos s2 = pos s1 + length str" "cfg s2 = cfg s1" by blast
  then show ?thesis using s1 blit_blit [OF pos_le [OF assms], of ?e str] by auto
qed

lemma get_string:
  assumes "at s (enc (cfg s) (of_len (length str)) @ str)" "str \<noteq> []" "length str < limit"
  shows "\<exists>s'. bindE (get s) (\<lambda>(len, s1). rd s1 (to_len len)) = Inr (str, s') \<and> inv s'
    \<and> data s' = data s \<and> pos s' = pos s + length (enc (cfg s) (of_len (length str))) + length str"
proof -
  from get_at [OF assms(1)] obtain s1 where s1: "get s = Inr (of_len (length str), s1)" "at s1 str"
    "pos s1 = pos s + length (enc (cfg s) (of_len (length str)))" "data s1 = data s" by blast
  from rd_at [of s1 str "[]"] s1(2) assms(2) obtain s2 where "rd s1 (length str) = Inr (str, s2)"
    "at s2 []" "pos s2 = pos s1 + length str" "data s2 = data s1" by auto
  then show ?thesis using s1 to_of_len [OF assms(3)] by (auto simp: at_def)
qed

lemma string_roundtrip:
  assumes "inv s" "str \<noteq> []" "length str < limit"
  shows "\<exists>s1 s2 s3. bindE (put s (of_len (length str))) (\<lambda>s1. wr s1 str) = Inr s1
    \<and> seek_to s1 (pos s) = Inr s2 \<and> bindE (get s2) (\<lambda>(len, s1). rd s1 (to_len len)) = Inr (str, s3)
    \<and> inv s3 \<and> data s3 = data s1 \<and> pos s3 = pos s1"
proof -
  let ?bs = "enc (cfg s) (of_len (length str)) @ str"
  from put_string [OF assms(1), of str] obtain s1 where
    s1: "bindE (put s (of_len (length str))) (\<lambda>s1. wr s1 str) = Inr s1" "inv s1"
      "data s1 = blit (data s) (pos s) ?bs" "pos s1 = pos s + length ?bs" "cfg s1 = cfg s" by auto
  have "pos s \<le> length (data s1)" using pos_le [OF s1(2)] s1(4) by simp
  from seek_law [OF s1(2) this] obtain s2 where s2: "seek_to s1 (pos s) = Inr s2" "inv s2"
    "data s2 = data s1" "pos s2 = pos s" "cfg s2 = cfg s1" by blast
  have "take (length ?bs) (drop (pos s) (data s1)) = ?bs"
    using s1(3) pos_le [OF assms(1)] by (simp add: blit_def)
  then have "at s2 (enc (cfg s2) (of_len (length str)) @ str)" using s1 s2 by (simp add: at_def)
  from get_string [OF this assms(2,3)] show ?thesis using s1 s2 by auto
qed

end

interpretation s16: string_codec ba_inv contents m_position m_endian ba_write ba_read setPosition
  "encF 2" writeFuint16 readFuint16 of_nat "unat :: u16 \<Rightarrow> nat" "2 ^ 16"
  using c16.get_at by unfold_locales (auto simp: writeFuint16_def readFuint16_def unat_of_nat)

interpretation s32: string_codec ba_inv contents m_position m_endian ba_write ba_read setPosition
  "encF 4" writeFuint32 readFuint32 of_nat "unat :: u32 \<Rightarrow> nat" "2 ^ 32"
  using c32.get_at by unfold_locales (auto simp: writeFuint32_def readFuint32_def unat_of_nat)

interpretation s64: string_codec ba_inv contents m_position m_endian ba_write ba_read setPosition
  "encF 8" writeFuint64 readFuint64 of_nat "unat :: u64 \<Rightarrow> nat" "2 ^ 64"
  using c64.get_at by unfold_locales (auto simp: writeFuint64_def readFuint64_def unat_of_nat)

interpretation sv: string_codec ba_inv contents m_position m_endian ba_write ba_read setPosition
  "\<lambda>_. varint_bytes" writeUint64 readUint64 of_nat "unat :: u64 \<Rightarrow> nat" "2 ^ 64"
  by unfold_locales (auto simp: unat_of_nat)

lemma strings_roundtrip:
  assumes "ba_inv b" "s \<noteq> []"
  shows "length s < 2 ^ 16 \<Longrightarrow> roundtrips writeStringF16 readStringF16 b s"
    and "length s < 2 ^ 32 \<Longrightarrow> roundtrips writeStringF32 readStringF32 b s"
    and "length s < 2 ^ 64 \<Longrightarrow> roundtrips writeStringF64 readStringF64 b s"
    and "length s < 2 ^ 64 \<Longrightarrow> roundtrips writeStringVint readStringVint b s"
  using s16.string_roundtrip [OF assms] s32.string_roundtrip [OF assms]
    s64.string_roundtrip [OF assms] sv.string_roundtrip [OF assms]
  unfolding roundtrips_def writeStringF16_def readStringF16_def writeStringF32_def readStringF32_def
    writeStringF64_def readStringF64_def writeStringVint_def readStringVint_def by blast+

lemma empty_string_at_end:
  assumes "ba_inv b" "m_position b + 2 = m_capacity b" "ba.at b [0, 0]"
  shows "readStringF16 b = Inl NullDeref"
proof -
  have e: "encF 2 (m_endian b) (0 :: u16) = [0, 0]"
    by (simp add: encF_def byteswap_def le_bytes_def upt_rec)
  obtain b' where b': "ba_read b 2 = Inr ([0, 0], b')" "ba_inv b'" "m_position b' = m_capacity b'"
    "m_endian b' = m_endian b"
  proof (rule ba_read_ok [OF assms(1), of 2])
    show "2 \<le> m_size b - m_position b" using ba.at_room [OF assms(3)] assms(1) by simp
    show "m_position b < m_capacity b" using assms(2) by simp
  qed (use assms in \<open>auto simp: ba.at_def numeral_2_eq_2\<close>)
  have "decF 2 (m_endian b) [0, 0] = (0 :: u16)" using decF_encF [of 2 "m_endian b" "0 :: u16"] e by simp
  then have "readFuint16 b = Inr (0, b')" using b' by (simp add: readFuint16_def)
  then show ?thesis using ba_read_null [OF b'(2,3)] by (simp add: readStringF16_def)
qed

section \<open>Reachable arrays\<close>

text \<open>One call of a member function that changes the array, when it returns.\<close>

inductive ba_step :: "bytearray \<Rightarrow> bytearray \<Rightarrow> bool" where
  step_write: "ba_write b buf = Inr b' \<Longrightarrow> ba_step b b'"
| step_read: "ba_read b n = Inr (out, b') \<Longrightarrow> ba_step b b'"
| step_seek: "setPosition b v = Inr b' \<Longrightarrow> ba_step b b'"
| step_clear: "ba_step b (clear b)"
| step_endian: "ba_step b (setIsLittleEndian b val)"
| step_buffers: "getWriteBuffers b len = Inr (n, vs, b') \<Longrightarrow> ba_step b b'"
| step_load: "readFromFile b src = Inr (ok, b') \<Longrightarrow> ba_step b b'"

inductive ba_reachable :: "bytearray \<Rightarrow> bool" where
  reach_new: "0 < base \<Longrightarrow> ba_reachable (ByteArray base fresh)"
| reach_step: "ba_reachable b \<Longrightarrow> ba_step b b' \<Longrightarrow> ba_reachable b'"

lemma ba_read_inv:
  assumes "ba_inv b" "ba_read b n = Inr (out, b')"
  shows "ba_inv b'"
proof -
  have "n \<le> m_size b - m_position b" using assms by (auto simp: ba_read_def split: if_splits)
  moreover have "m_position b < m_capacity b"
  proof (rule ccontr)
    assume "\<not> m_position b < m_capacity b"
    then have "m_position b = m_capacity b" "n = 0"
      using ba_invD(3,4) [OF assms(1)] \<open>n \<le> m_size b - m_position b\<close> by auto
    then show False using ba_read_null [OF assms(1)] assms(2) by simp
  qed
  ultimately obtain b2 where "ba_read b n = Inr (take n (drop (m_position b) (contents b)), b2)" "ba_inv b2"
    using ba_read_ok [OF assms(1)] by metis
  then show ?thesis using assms(2) by simp
qed

lemma setPosition_inv:
  assumes "ba_inv b" "setPosition b v = Inr b'"
  shows "ba_inv b'"
proof -
  have "v \<le> m_capacity b" using assms(2) by (auto simp: setPosition_def split: if_splits)
  then show ?thesis using setPosition_ok [OF assms(1)] assms(2) by (metis Inr_inject)
qed

lemma ba_step_inv: "ba_step b b' \<Longrightarrow> ba_inv b \<Longrightarrow> ba_inv b'"
proof (induction rule: ba_step.induct)
  case (step_write b buf b')
  then show ?case using ba.wr_law [of b buf] by auto
next
  case (step_read b n out b')
  then show ?case using ba_read_inv by blast
next
  case (step_seek b v b')
  then show ?case using setPosition_inv by blast
next
  case (step_clear b)
  then show ?case using clear_inv by blast
next
  case (step_endian b val)
  then show ?case by (auto simp: setIsLittleEndian_def ba_inv_def)
next
  case (step_buffers b len n vs b')
  then show ?case using getWriteBuffers_ok [of b len] by (cases "len = 0") (auto simp: getWriteBuffers_def)
next
  case (step_load b src ok b')
  then show ?case using from_file_loop_ok [of b "the src"]
    by (cases src) (auto simp: readFromFile_def bindE_eq_Inr)
qed

section \<open>Properties\<close>

text \<open>
  C1. Every array that the member functions can produce from a constructed one satisfies the
  storage invariant: the blocks have the base size, the capacity is their total size, the
  position is within the size and the size within the capacity, and the node pointer is the
  block the position lies in, or null exactly when the position is at the end of the last block.
\<close>

theorem reachable_ba_inv: "ba_reachable b \<Longrightarrow> ba_inv b"
  by (induction rule: ba_reachable.induct) (auto simp: ByteArray_inv intro: ba_step_inv)

theorem reachable_ba_inv_witness:
  "ba_inv (clear (ByteArray 4 7)) \<and> m_cur (clear (ByteArray 4 7)) = Some 0"
proof -
  have "ba_reachable (ByteArray 4 7)" by (rule reach_new) simp
  then have "ba_reachable (clear (ByteArray 4 7))" using step_clear by (rule reach_step)
  from reachable_ba_inv [OF this] show ?thesis by (simp add: clear_def)
qed

text \<open>
  C2. A write always succeeds and implements the write on a flat buffer: the bytes from the
  position on are replaced by the data, the buffer growing when they reach beyond its end,
  every other byte is kept, and the position moves behind the data. The chain of blocks, the
  allocation of new ones and the block boundaries are not visible.
\<close>

theorem write_refines_flat:
  assumes "ba_inv b"
  shows "\<exists>b'. ba_write b buf = Inr b' \<and> ba_inv b' \<and> m_position b' = m_position b + length buf
    \<and> contents b' = blit (contents b) (m_position b) buf
    \<and> m_size b' = max (m_size b) (m_position b + length buf)"
proof -
  obtain b' where b': "ba_write b buf = Inr b'" "ba_inv b'" "contents b' = blit (contents b) (m_position b) buf"
    "m_position b' = m_position b + length buf"
    by (rule ba_write_ok [OF assms])
  have "m_size b' = length (blit (contents b) (m_position b) buf)" using b'(2,3) by (metis length_contents)
  then show ?thesis using b' assms ba_invD(3) [OF assms] by (auto simp: blit_def max_def)
qed

theorem write_refines_flat_witness:
  "\<exists>b'. ba_write (ByteArray 4 0) [1, 2, 3, 4, 5, 6] = Inr b' \<and> contents b' = [1, 2, 3, 4, 5, 6] \<and> m_position b' = 6"
  using write_refines_flat [of "ByteArray 4 0" "[1, 2, 3, 4, 5, 6]"] ByteArray_inv [of 4 0]
  by (auto simp: ByteArray_def blit_def)

text \<open>
  C3. A read on every branch: asking for more than the readable bytes throws
  \<^verbatim>\<open>out_of_range\<close>; otherwise the next bytes are returned and the position moves behind them;
  but reading zero bytes at the very end of the last block dereferences the null node pointer.
\<close>

theorem read_refines_flat:
  assumes "ba_inv b"
  shows "(m_size b - m_position b < n \<longrightarrow> ba_read b n = Inl (OutOfRange ''not enough len''))
    \<and> (n \<le> m_size b - m_position b \<and> m_position b < m_capacity b \<longrightarrow>
        (\<exists>b'. ba_read b n = Inr (take n (drop (m_position b) (contents b)), b') \<and> ba_inv b'
          \<and> contents b' = contents b \<and> m_position b' = m_position b + n))
    \<and> (n = 0 \<and> m_position b = m_capacity b \<longrightarrow> ba_read b n = Inl NullDeref)"
proof (intro conjI impI)
  show "ba_read b n = Inl (OutOfRange ''not enough len'')" if "m_size b - m_position b < n"
    using that assms by (simp add: ba_read_def)
  show "\<exists>b'. ba_read b n = Inr (take n (drop (m_position b) (contents b)), b') \<and> ba_inv b'
      \<and> contents b' = contents b \<and> m_position b' = m_position b + n"
    if "n \<le> m_size b - m_position b \<and> m_position b < m_capacity b"
    using ba_read_ok [OF assms, of n] that by metis
  show "ba_read b n = Inl NullDeref" if "n = 0 \<and> m_position b = m_capacity b"
    using ba_read_null [OF assms] that by simp
qed

theorem read_refines_flat_witness: "ba_read (ByteArray 4 0) 3 = Inl (OutOfRange ''not enough len'')"
  using read_refines_flat [of "ByteArray 4 0" 3] ByteArray_inv [of 4 0] by (simp add: ByteArray_def)

text \<open>
  C4. Every fixed width integer, float and double that is written is read back, in both byte
  orders and wherever the position lies relative to the block boundaries.
\<close>

theorem fixed_width_read_back:
  assumes "ba_inv b"
  shows "roundtrips writeFint8 readFint8 b v8 \<and> roundtrips writeFuint8 readFuint8 b v8
    \<and> roundtrips writeFint16 readFint16 b v16 \<and> roundtrips writeFuint16 readFuint16 b v16
    \<and> roundtrips writeFint32 readFint32 b v32 \<and> roundtrips writeFuint32 readFuint32 b v32
    \<and> roundtrips writeFint64 readFint64 b v64 \<and> roundtrips writeFuint64 readFuint64 b v64
    \<and> roundtrips writeFloat readFloat b v32 \<and> roundtrips writeDouble readDouble b v64"
  using c8.put_get [OF assms, of v8] c16.put_get [OF assms, of v16] c32.put_get [OF assms, of v32]
    c64.put_get [OF assms, of v64]
  unfolding roundtrips_def fixed_defs by blast

theorem fixed_width_read_back_witness: "roundtrips writeFint32 readFint32 (ByteArray 3 0) 305419896"
  using fixed_width_read_back [of "ByteArray 3 0"] ByteArray_inv [of 3 0] by simp

text \<open>
  With the default byte order the integer is on the wire most significant byte first,
  with \<^verbatim>\<open>setIsLittleEndian(true)\<close> least significant byte first.
\<close>

theorem wire_byte_order:
  "encF 2 SYLAR_BIG_ENDIAN (v16 :: u16) = rev (le_bytes 2 v16)
    \<and> encF 4 SYLAR_BIG_ENDIAN (v32 :: u32) = rev (le_bytes 4 v32)
    \<and> encF 8 SYLAR_BIG_ENDIAN (v64 :: u64) = rev (le_bytes 8 v64)
    \<and> encF n SYLAR_LITTLE_ENDIAN v = le_bytes n v"
  by (simp add: encF_def byteswap_def SYLAR_BYTE_ORDER_def le_bytes_of_le_bytes)

text \<open>
  C5. The variable length integers round-trip, unsigned and zig-zag signed, at 32 and 64
  bits, and the encoding never overruns the local array \<^verbatim>\<open>tmp\<close> of 5 and 10 bytes.
\<close>

theorem varint_read_back:
  assumes "ba_inv b"
  shows "roundtrips writeUint32 readUint32 b v32 \<and> roundtrips writeUint64 readUint64 b v64
    \<and> roundtrips writeInt32 readInt32 b v32 \<and> roundtrips writeInt64 readInt64 b v64
    \<and> length (varint_bytes v32) \<le> 5 \<and> length (varint_bytes v64) \<le> 10"
  using v32.put_get [OF assms, of v32] v64.put_get [OF assms, of v64] z32.put_get [OF assms, of v32]
    z64.put_get [OF assms, of v64] tmp_fits
  unfolding roundtrips_def by blast

theorem varint_read_back_witness: "roundtrips writeInt32 readInt32 (ByteArray 2 0) (- 300)"
  using varint_read_back [of "ByteArray 2 0"] ByteArray_inv [of 2 0] by simp

text \<open>
  A non-empty string is read back by the reader of its format, as long as its length
  fits the length field.
\<close>

theorem string_read_back:
  assumes "ba_inv b" "s \<noteq> []"
  shows "(length s < 2 ^ 16 \<longrightarrow> roundtrips writeStringF16 readStringF16 b s)
    \<and> (length s < 2 ^ 32 \<longrightarrow> roundtrips writeStringF32 readStringF32 b s)
    \<and> (length s < 2 ^ 64 \<longrightarrow> roundtrips writeStringF64 readStringF64 b s
        \<and> roundtrips writeStringVint readStringVint b s)"
  using strings_roundtrip [OF assms] by blast

theorem string_read_back_witness: "roundtrips writeStringF16 readStringF16 (ByteArray 4 0) [104, 105]"
  using string_read_back [of "ByteArray 4 0" "[104, 105]"] ByteArray_inv [of 4 0] by simp

text \<open>
  An empty string whose length field ends exactly at the end of the last block cannot be
  read back: the read of zero bytes dereferences the null node pointer.
\<close>

theorem empty_string_read_crashes:
  assumes "ba_inv b" "m_position b + 2 = m_capacity b" "m_position b + 2 \<le> m_size b"
    and "take 2 (drop (m_position b) (contents b)) = [0, 0]"
  shows "readStringF16 b = Inl NullDeref"
  using assms empty_string_at_end [of b] by (simp add: ba.at_def numeral_2_eq_2)

theorem empty_string_read_crashes_witness:
  "\<exists>b1 b2. writeStringF16 (ByteArray 2 0) [] = Inr b1 \<and> setPosition b1 0 = Inr b2
     \<and> readStringF16 b2 = Inl NullDeref"
proof -
  define b1 where "b1 = \<lparr>m_baseSize = 2, m_position = 2, m_capacity = 2, m_size = 2,
      m_endian = SYLAR_BIG_ENDIAN, m_nodes = [\<lparr>node_ptr = [0, 0], node_size = 2\<rparr>], m_cur = None, m_fresh = 0\<rparr>"
  have w: "writeStringF16 (ByteArray 2 0) [] = Inr b1"
    by (simp add: writeStringF16_def writeFuint16_def encF_def byteswap_def le_bytes_def upt_rec
        ba_write_def ByteArray_def addCapacity_def getCapacity_def deref_def Node_def
        SYLAR_BYTE_ORDER_def b1_def write_loop.simps blit_def next_node_def Let_def numeral_2_eq_2)
  let ?b2 = "b1\<lparr>m_position := 0, m_cur := Some 0\<rparr>"
  have s: "setPosition b1 0 = Inr ?b2" by (simp add: setPosition_def b1_def seek.simps)
  have "ba_inv ?b2" by (simp add: ba_inv_def b1_def blocks_ok_def cursor_def)
  then have "readStringF16 ?b2 = Inl NullDeref"
    by (rule empty_string_read_crashes) (simp_all add: b1_def contents_def mem_def)
  then show ?thesis using w s by blast
qed

text \<open>
  Writing to a file from a block boundary writes exactly the readable bytes; from inside a
  block, with fewer readable bytes than the offset into the block, the length passed to
  \<^verbatim>\<open>ofs.write\<close> is negative.
\<close>

theorem writeToFile_behaviour:
  assumes "ba_inv b"
  shows "(m_position b mod m_baseSize b = 0 \<longrightarrow>
      writeToFile b True = Inr (True, drop (m_position b) (contents b)))
    \<and> (m_position b < m_size b \<and> m_size b - m_position b < m_position b mod m_baseSize b \<longrightarrow>
      writeToFile b True = Inl NegativeLength)"
proof (intro conjI impI)
  note I = ba_invD [OF assms]
  let ?i = "m_position b div m_baseSize b" and ?n = "m_size b - m_position b"
  assume "m_position b mod m_baseSize b = 0"
  then have pos: "?i * m_baseSize b = m_position b" by auto
  have "?i * m_baseSize b + ?n \<le> length (m_nodes b) * m_baseSize b" using pos I by simp
  from file_loop_aligned [OF I(2,1) this, of "[]"]
  show "writeToFile b True = Inr (True, drop (m_position b) (contents b))"
    using I assms by (simp add: writeToFile_def pos contents_def drop_take del: of_nat_diff)
next
  note I = ba_invD [OF assms]
  assume short: "m_position b < m_size b \<and> m_size b - m_position b < m_position b mod m_baseSize b"
  then have "m_position b < m_capacity b" using I(4) by linarith
  then obtain i p where ip: "p < m_baseSize b" "i < length (m_nodes b)"
    "m_position b mod m_baseSize b = p" "m_cur b = Some i"
    by (rule position_split [OF assms])
  have "int (m_position b) mod int (m_baseSize b) = int p" using ip(3) by (metis zmod_int)
  then show "writeToFile b True = Inl NegativeLength"
    using short ip assms
    by (simp add: writeToFile_def Let_def file_loop.simps [of "m_baseSize b" "m_nodes b" "Some i"] del: of_nat_diff)
qed

theorem writeToFile_behaviour_witness: "writeToFile (ByteArray 4 0) True = Inr (True, [])"
  using writeToFile_behaviour [of "ByteArray 4 0"] ByteArray_inv [of 4 0]
  by (simp add: ByteArray_def contents_def)

text \<open>
  The scatter/gather views agree with the contents: \<^verbatim>\<open>getReadBuffers\<close> returns the buffers
  that hold exactly the next \<open>len\<close> readable bytes (all of them when fewer are readable), and
  \<^verbatim>\<open>getWriteBuffers\<close> makes room for \<open>len\<close> bytes behind the position without changing contents.
\<close>

theorem buffers_view:
  assumes "ba_inv b"
  shows "(\<exists>vs. getReadBuffers b len = Inr (min len (m_size b - m_position b), vs)
      \<and> iov_bytes (m_nodes b) vs = take len (drop (m_position b) (contents b)))
    \<and> (0 < len \<longrightarrow> (\<exists>vs b'. getWriteBuffers b len = Inr (len, vs, b') \<and> ba_inv b'
      \<and> contents b' = contents b \<and> m_position b' = m_position b
      \<and> iov_bytes (m_nodes b') vs = take len (drop (m_position b) (mem (m_nodes b')))
      \<and> m_position b + len \<le> m_capacity b'))"
  using getReadBuffers_ok [OF assms, of len] getWriteBuffers_ok [OF assms, of len]
    addCapacity_contents [OF assms, of len] assms ba_invD(7) by fastforce

theorem buffers_view_witness:
  "\<exists>vs b'. getWriteBuffers (ByteArray 4 0) 10 = Inr (10, vs, b') \<and> m_position b' + 10 \<le> m_capacity b'"
  using buffers_view [of "ByteArray 4 0" 10] ByteArray_inv [of 4 0] by auto

text \<open>Loading a file writes the whole of it at the position, whatever the block size.\<close>

theorem readFromFile_loads_all:
  assumes "ba_inv b"
  shows "\<exists>b'. readFromFile b (Some bytes) = Inr (True, b') \<and> ba_inv b'
    \<and> contents b' = blit (contents b) (m_position b) bytes \<and> m_position b' = m_position b + length bytes"
  using from_file_loop_ok [OF assms, of bytes] by (auto simp: readFromFile_def)

theorem readFromFile_loads_all_witness:
  "\<exists>b'. readFromFile (ByteArray 2 0) (Some [1, 2, 3]) = Inr (True, b') \<and> contents b' = [1, 2, 3]"
  using readFromFile_loads_all [of "ByteArray 2 0" "[1, 2, 3]"] ByteArray_inv [of 2 0]
  by (auto simp: blit_def)

end
