(* ===== verification/Sylar_Containers.thy ===== *)
theory Sylar_Containers
  imports Sylar_Prelude
begin

text \<open>
  \<^verbatim>\<open>std::set\<close> and \<^verbatim>\<open>std::map\<close> with a user comparator, as the sources use them (the timer set of
  \<^verbatim>\<open>timer.h\<close>, the case insensitive header maps of \<^verbatim>\<open>http.h\<close>, the registries of \<^verbatim>\<open>config.h\<close> and
  \<^verbatim>\<open>servlet.h\<close>): the list of the elements in the order of iteration. Two keys are equivalent when
  neither is less than the other. The locale \<open>cxx_order\<close> is what C++ requires of a comparator (a
  strict weak order); under it the operations keep the list sorted and obey the laws of a
  finite map up to equivalence. \<open>cxx_total\<close> adds that equivalent keys are equal.
\<close>

section \<open>Operations\<close>

fun cset_insert :: "('a \<Rightarrow> 'a \<Rightarrow> bool) \<Rightarrow> 'a \<Rightarrow> 'a list \<Rightarrow> 'a list" where
  "cset_insert lt x [] = [x]"
| "cset_insert lt x (y # ys) =
     (if lt x y then x # y # ys else if lt y x then y # cset_insert lt x ys else y # ys)"

text \<open>\<^verbatim>\<open>find\<close> followed by \<^verbatim>\<open>erase\<close>: \<open>None\<close> when \<^verbatim>\<open>find\<close> returns \<^verbatim>\<open>end()\<close>.\<close>

fun cset_erase :: "('a \<Rightarrow> 'a \<Rightarrow> bool) \<Rightarrow> 'a \<Rightarrow> 'a list \<Rightarrow> 'a list option" where
  "cset_erase lt x [] = None"
| "cset_erase lt x (y # ys) =
     (if lt y x then map_option (Cons y) (cset_erase lt x ys) else if lt x y then None else Some ys)"

fun cmap_find :: "('k \<Rightarrow> 'k \<Rightarrow> bool) \<Rightarrow> 'k \<Rightarrow> ('k \<times> 'v) list \<Rightarrow> 'v option" where
  "cmap_find lt k [] = None"
| "cmap_find lt k ((k', v) # m) =
     (if lt k' k then cmap_find lt k m else if lt k k' then None else Some v)"

text \<open>\<^verbatim>\<open>m[k] = v\<close>: the key already stored is kept.\<close>

fun cmap_assign :: "('k \<Rightarrow> 'k \<Rightarrow> bool) \<Rightarrow> 'k \<Rightarrow> 'v \<Rightarrow> ('k \<times> 'v) list \<Rightarrow> ('k \<times> 'v) list" where
  "cmap_assign lt k v [] = [(k, v)]"
| "cmap_assign lt k v ((k', v') # m) =
     (if lt k' k then (k', v') # cmap_assign lt k v m
      else if lt k k' then (k, v) # (k', v') # m else (k', v) # m)"

text \<open>\<^verbatim>\<open>m.insert(make_pair(k, v))\<close>: nothing happens when the key is there.\<close>

fun cmap_insert :: "('k \<Rightarrow> 'k \<Rightarrow> bool) \<Rightarrow> 'k \<Rightarrow> 'v \<Rightarrow> ('k \<times> 'v) list \<Rightarrow> ('k \<times> 'v) list" where
  "cmap_insert lt k v [] = [(k, v)]"
| "cmap_insert lt k v ((k', v') # m) =
     (if lt k' k then (k', v') # cmap_insert lt k v m
      else if lt k k' then (k, v) # (k', v') # m else (k', v') # m)"

fun cmap_erase :: "('k \<Rightarrow> 'k \<Rightarrow> bool) \<Rightarrow> 'k \<Rightarrow> ('k \<times> 'v) list \<Rightarrow> ('k \<times> 'v) list" where
  "cmap_erase lt k [] = []"
| "cmap_erase lt k ((k', v') # m) =
     (if lt k' k then (k', v') # cmap_erase lt k m else if lt k k' then (k', v') # m else m)"

section \<open>Comparators\<close>

locale cxx_order =
  fixes lt :: "'a \<Rightarrow> 'a \<Rightarrow> bool"
  assumes irrefl: "\<not> lt x x"
    and trans: "lt x y \<Longrightarrow> lt y z \<Longrightarrow> lt x z"
    and neg_trans: "lt x z \<Longrightarrow> lt x y \<or> lt y z"
begin

definition eqv :: "'a \<Rightarrow> 'a \<Rightarrow> bool" where
  "eqv x y \<longleftrightarrow> \<not> lt x y \<and> \<not> lt y x"

abbreviation ordered :: "'a list \<Rightarrow> bool" where
  "ordered xs \<equiv> sorted_wrt lt xs"

abbreviation keys_ordered :: "('a \<times> 'v) list \<Rightarrow> bool" where
  "keys_ordered m \<equiv> sorted_wrt lt (map fst m)"

lemma asym: "lt x y \<Longrightarrow> \<not> lt y x"
  using irrefl trans by blast

lemma eqv_refl [simp]: "eqv x x"
  by (simp add: eqv_def irrefl)

lemma eqv_sym: "eqv x y \<Longrightarrow> eqv y x"
  by (simp add: eqv_def)

lemma eqv_trans: "eqv x y \<Longrightarrow> eqv y z \<Longrightarrow> eqv x z"
  using neg_trans unfolding eqv_def by blast

lemma eqv_lt: "eqv x y \<Longrightarrow> lt x z = lt y z" "eqv x y \<Longrightarrow> lt z x = lt z y"
  using neg_trans unfolding eqv_def by blast+

lemma ordered_Cons: "ordered (x # xs) \<longleftrightarrow> (\<forall>y \<in> set xs. lt x y) \<and> ordered xs"
  by simp

lemma ordered_append:
  "ordered (xs @ ys) \<longleftrightarrow> ordered xs \<and> ordered ys \<and> (\<forall>x \<in> set xs. \<forall>y \<in> set ys. lt x y)"
  by (simp add: sorted_wrt_append)

lemma ordered_distinct: "ordered xs \<Longrightarrow> distinct xs"
  by (induction xs) (auto simp: ordered_Cons irrefl)

lemma cset_insert_subset: "set (cset_insert lt x xs) \<subseteq> insert x (set xs)"
  by (induction xs) auto

lemma ordered_cset_insert: "ordered xs \<Longrightarrow> ordered (cset_insert lt x xs)"
proof (induction xs)
  case Nil
  then show ?case by (simp add: ordered_Cons)
next
  case (Cons y ys)
  then show ?case
    using cset_insert_subset [of x ys] trans by (auto simp: ordered_Cons)
qed

lemma ordered_cset_erase: "ordered xs \<Longrightarrow> cset_erase lt x xs = Some ys \<Longrightarrow> ordered ys \<and> set ys \<subseteq> set xs"
proof (induction xs arbitrary: ys)
  case Nil
  then show ?case by simp
next
  case (Cons y zs)
  then show ?case by (fastforce simp: ordered_Cons split: if_splits)
qed

lemma keys_ordered_Cons: "keys_ordered (kv # m) \<longleftrightarrow> (\<forall>k \<in> set (map fst m). lt (fst kv) k) \<and> keys_ordered m"
  by simp

lemma keys_assign: "set (map fst (cmap_assign lt k v m)) \<subseteq> insert k (set (map fst m))"
  by (induction lt k v m rule: cmap_assign.induct) auto

lemma keys_insert: "set (map fst (cmap_insert lt k v m)) \<subseteq> insert k (set (map fst m))"
  by (induction lt k v m rule: cmap_insert.induct) auto

lemma keys_erase: "set (map fst (cmap_erase lt k m)) \<subseteq> set (map fst m)"
  by (induction lt k m rule: cmap_erase.induct) auto

lemma keys_ordered_assign: "keys_ordered m \<Longrightarrow> keys_ordered (cmap_assign lt k v m)"
proof (induction m)
  case Nil
  then show ?case by (simp add: keys_ordered_Cons)
next
  case (Cons kv m)
  obtain k' v' where kv: "kv = (k', v')" by (cases kv)
  have m: "keys_ordered m" "x \<in> set (map fst m) \<Longrightarrow> lt k' x" for x
    using Cons.prems kv by (auto simp: keys_ordered_Cons)
  have "x \<in> set (map fst (cmap_assign lt k v m)) \<Longrightarrow> lt k' k \<Longrightarrow> lt k' x" for x
    using keys_assign [of k v m] m(2) by blast
  then show ?case
    using Cons.IH [OF m(1)] m trans [of k k'] unfolding kv by (simp add: keys_ordered_Cons)
qed

lemma keys_ordered_insert: "keys_ordered m \<Longrightarrow> keys_ordered (cmap_insert lt k v m)"
proof (induction m)
  case Nil
  then show ?case by (simp add: keys_ordered_Cons)
next
  case (Cons kv m)
  obtain k' v' where kv: "kv = (k', v')" by (cases kv)
  have m: "keys_ordered m" "x \<in> set (map fst m) \<Longrightarrow> lt k' x" for x
    using Cons.prems kv by (auto simp: keys_ordered_Cons)
  have "x \<in> set (map fst (cmap_insert lt k v m)) \<Longrightarrow> lt k' k \<Longrightarrow> lt k' x" for x
    using keys_insert [of k v m] m(2) by blast
  then show ?case
    using Cons.IH [OF m(1)] m trans [of k k'] unfolding kv by (simp add: keys_ordered_Cons)
qed

lemma keys_ordered_erase: "keys_ordered m \<Longrightarrow> keys_ordered (cmap_erase lt k m)"
proof (induction m)
  case Nil
  then show ?case by simp
next
  case (Cons kv m)
  obtain k' v' where kv: "kv = (k', v')" by (cases kv)
  have m: "keys_ordered m" "x \<in> set (map fst m) \<Longrightarrow> lt k' x" for x
    using Cons.prems kv by (auto simp: keys_ordered_Cons)
  have "x \<in> set (map fst (cmap_erase lt k m)) \<Longrightarrow> lt k' k \<Longrightarrow> lt k' x" for x
    using keys_erase [of k m] m(2) by blast
  then show ?case
    using Cons.IH [OF m(1)] m trans [of k k'] unfolding kv by (simp add: keys_ordered_Cons)
qed

lemma find_none: "(\<And>k'. k' \<in> set (map fst m) \<Longrightarrow> lt k k') \<Longrightarrow> cmap_find lt k m = None"
proof (cases m)
  case (Cons kv m')
  assume "\<And>k'. k' \<in> set (map fst m) \<Longrightarrow> lt k k'"
  then have "lt k (fst kv)" using Cons by simp
  then show ?thesis using Cons asym by (cases kv) simp
qed simp

lemma find_eqv: "eqv k k' \<Longrightarrow> cmap_find lt k m = cmap_find lt k' m"
  by (induction m) (auto simp: eqv_lt split: prod.splits)

lemma find_assign:
  "keys_ordered m \<Longrightarrow> cmap_find lt k (cmap_assign lt k' v m) = (if eqv k k' then Some v else cmap_find lt k m)"
proof (induction m)
  case Nil
  then show ?case by (auto simp: eqv_def)
next
  case (Cons kv m)
  obtain k1 v1 where kv: "kv = (k1, v1)" by (cases kv)
  have IH: "cmap_find lt k (cmap_assign lt k' v m) = (if eqv k k' then Some v else cmap_find lt k m)"
    using Cons by (simp add: keys_ordered_Cons)
  show ?case
  proof (cases "eqv k k'")
    case True
    then show ?thesis unfolding kv using IH eqv_lt [OF True] by (auto simp: irrefl asym)
  next
    case False
    have "lt k' k1 \<Longrightarrow> lt k k' \<Longrightarrow> lt k k1" by (rule trans)
    moreover have "\<not> lt k1 k' \<Longrightarrow> \<not> lt k' k1 \<Longrightarrow> lt k1 k = lt k' k \<and> lt k k1 = lt k k'"
      using eqv_lt [of k1 k' k] by (simp add: eqv_def)
    ultimately show ?thesis unfolding kv
      using IH False asym [of k k1]
      by (cases "lt k1 k'"; cases "lt k' k1"; cases "lt k' k") (auto simp: eqv_def)
  qed
qed

lemma find_insert:
  "keys_ordered m \<Longrightarrow> cmap_find lt k (cmap_insert lt k' v m) =
     (if eqv k k' \<and> cmap_find lt k m = None then Some v else cmap_find lt k m)"
proof (induction m)
  case Nil
  then show ?case by (auto simp: eqv_def)
next
  case (Cons kv m)
  obtain k1 v1 where kv: "kv = (k1, v1)" by (cases kv)
  have IH: "cmap_find lt k (cmap_insert lt k' v m) =
      (if eqv k k' \<and> cmap_find lt k m = None then Some v else cmap_find lt k m)"
    using Cons by (simp add: keys_ordered_Cons)
  show ?case
  proof (cases "eqv k k'")
    case True
    then show ?thesis unfolding kv using IH eqv_lt [OF True] by (auto simp: irrefl asym)
  next
    case False
    have "lt k' k1 \<Longrightarrow> lt k k' \<Longrightarrow> lt k k1" by (rule trans)
    moreover have "\<not> lt k1 k' \<Longrightarrow> \<not> lt k' k1 \<Longrightarrow> lt k1 k = lt k' k \<and> lt k k1 = lt k k'"
      using eqv_lt [of k1 k' k] by (simp add: eqv_def)
    ultimately show ?thesis unfolding kv
      using IH False asym [of k k1]
      by (cases "lt k1 k'"; cases "lt k' k1"; cases "lt k' k") (auto simp: eqv_def)
  qed
qed

lemma find_erase:
  "keys_ordered m \<Longrightarrow> cmap_find lt k (cmap_erase lt k' m) = (if eqv k k' then None else cmap_find lt k m)"
proof (induction m)
  case Nil
  then show ?case by simp
next
  case (Cons kv m)
  obtain k1 v1 where kv: "kv = (k1, v1)" by (cases kv)
  have IH: "cmap_find lt k (cmap_erase lt k' m) = (if eqv k k' then None else cmap_find lt k m)"
    using Cons by (simp add: keys_ordered_Cons)
  have gt: "k2 \<in> set (map fst m) \<Longrightarrow> lt k1 k2" for k2 using Cons.prems kv by (auto simp: keys_ordered_Cons)
  show ?case
  proof (cases "eqv k k'")
    case True
    have "\<not> lt k1 k \<Longrightarrow> \<not> lt k k1 \<Longrightarrow> cmap_find lt k m = None"
      using find_none [of m k] gt eqv_lt(1) [of k k1] by (auto simp: eqv_def)
    then show ?thesis unfolding kv using True IH eqv_lt [OF True] by (auto simp: irrefl asym)
  next
    case False
    have "lt k k1 \<Longrightarrow> cmap_find lt k m = None" using find_none [of m k] gt trans by blast
    moreover have "\<not> lt k1 k' \<Longrightarrow> \<not> lt k' k1 \<Longrightarrow> lt k1 k = lt k' k \<and> lt k k1 = lt k k'"
      using eqv_lt [of k1 k' k] by (simp add: eqv_def)
    ultimately show ?thesis unfolding kv
      using IH False asym [of k k1]
      by (cases "lt k1 k'"; cases "lt k' k1"; cases "lt k' k") (auto simp: eqv_def)
  qed
qed

end

locale cxx_total = cxx_order +
  assumes eqv_eq: "\<not> lt x y \<Longrightarrow> \<not> lt y x \<Longrightarrow> x = y"
begin

lemma set_cset_insert: "set (cset_insert lt x xs) = insert x (set xs)"
  by (induction xs) (auto dest: eqv_eq)

lemma hd_cset_insert: "ordered xs \<Longrightarrow> hd (cset_insert lt x xs) = x \<longleftrightarrow> (\<forall>y \<in> set xs. y = x \<or> lt x y)"
proof (cases xs)
  case (Cons y ys)
  assume o: "ordered xs"
  show ?thesis
  proof (cases "lt x y")
    case True
    then show ?thesis using Cons o trans by (auto simp: ordered_Cons)
  next
    case False
    then show ?thesis using Cons o eqv_eq [of x y] asym irrefl by (auto simp: ordered_Cons)
  qed
qed simp

lemma cset_erase_mem:
  assumes "ordered xs"
  shows "x \<in> set xs \<Longrightarrow> \<exists>ys. cset_erase lt x xs = Some ys \<and> set ys = set xs - {x}"
    and "x \<notin> set xs \<Longrightarrow> cset_erase lt x xs = None"
proof -
  have "(x \<in> set xs \<longrightarrow> (\<exists>ys. cset_erase lt x xs = Some ys \<and> set ys = set xs - {x}))
      \<and> (x \<notin> set xs \<longrightarrow> cset_erase lt x xs = None)"
    using assms
  proof (induction xs)
    case Nil
    then show ?case by simp
  next
    case (Cons y ys)
    show ?case
    proof (cases "x = y")
      case True
      then show ?thesis using Cons.prems irrefl by (auto simp: ordered_Cons)
    next
      case False
      show ?thesis
      proof (cases "lt y x")
        case True
        then show ?thesis using Cons False by (auto simp: ordered_Cons)
      next
        case nl: False
        then have "lt x y" using False eqv_eq by blast
        then have "x \<notin> set (y # ys)" using Cons.prems False asym by (auto simp: ordered_Cons)
        then show ?thesis using nl \<open>lt x y\<close> by simp
      qed
    qed
  qed
  then show "x \<in> set xs \<Longrightarrow> \<exists>ys. cset_erase lt x xs = Some ys \<and> set ys = set xs - {x}"
    and "x \<notin> set xs \<Longrightarrow> cset_erase lt x xs = None" by auto
qed

lemma ordered_unique: "ordered xs \<Longrightarrow> ordered ys \<Longrightarrow> set xs = set ys \<Longrightarrow> xs = ys"
proof (induction xs arbitrary: ys)
  case Nil
  then show ?case by simp
next
  case (Cons x xs)
  then obtain y zs where ys: "ys = y # zs" by (cases ys) auto
  have "x = y"
    using Cons.prems ys asym by (metis list.set_intros(1) ordered_Cons set_ConsD)
  moreover have "set xs = set zs"
    using Cons.prems ys \<open>x = y\<close> irrefl by (metis insert_ident list.simps(15) ordered_Cons)
  ultimately show ?case using Cons ys by (simp add: ordered_Cons)
qed

end

text \<open>The default comparator of \<^verbatim>\<open>std::map\<close> on natural number keys.\<close>

interpretation nat_lt: cxx_total "(<) :: nat \<Rightarrow> nat \<Rightarrow> bool"
  by unfold_locales auto

end
