(* ===== verification/Sylar_Timer.thy ===== *)
theory Sylar_Timer
  imports Sylar_Containers
begin

text \<open>
  The timer manager (\<^verbatim>\<open>src/sylar/timer.cpp\<close>, \<^verbatim>\<open>timer.h\<close>). A timer object lives at an address; the
  manager keeps the heap of timer objects and the ordered set of the pending ones, which is
  sorted by expiry time and then by address through \<^verbatim>\<open>Timer::Comparator\<close>. The comparator reads the
  expiry time through the pointer, so a pending timer's time must never change in place: that
  every operation keeps the set sorted is the invariant of the component. The clock
  (\<^verbatim>\<open>GetCurrentMS\<close>) is an argument. \<^verbatim>\<open>onTimerInsertedAtFront\<close> is reported as the boolean result of
  \<open>addTimer\<close>.
\<close>

section \<open>State\<close>

type_synonym taddr = nat

record 'cb timer =
  t_recurring :: bool
  t_ms :: u64
  t_next :: u64
  t_cb :: "'cb option"

record 'cb timer_mgr =
  t_heap :: "taddr \<Rightarrow> 'cb timer"
  t_timers :: "taddr list"
  t_tickled :: bool
  t_previouseTime :: u64

definition Timer :: "u64 \<Rightarrow> u64 \<Rightarrow> 'cb option \<Rightarrow> bool \<Rightarrow> 'cb timer" where
  "Timer now ms cb recurring = \<lparr>t_recurring = recurring, t_ms = ms, t_next = now + ms, t_cb = cb\<rparr>"

definition Timer_next :: "u64 \<Rightarrow> 'cb timer" where
  "Timer_next nxt = \<lparr>t_recurring = False, t_ms = 0, t_next = nxt, t_cb = None\<rparr>"

definition TimerManager :: "(taddr \<Rightarrow> 'cb timer) \<Rightarrow> u64 \<Rightarrow> 'cb timer_mgr" where
  "TimerManager h now = \<lparr>t_heap = h, t_timers = [], t_tickled = False, t_previouseTime = now\<rparr>"

text \<open>\<^verbatim>\<open>Timer::Comparator\<close> on possibly null pointers, and on the pointers of the set.\<close>

definition Comparator :: "(taddr \<Rightarrow> 'cb timer) \<Rightarrow> taddr option \<Rightarrow> taddr option \<Rightarrow> bool" where
  "Comparator h lhs rhs =
     (case (lhs, rhs) of
        (None, None) \<Rightarrow> False
      | (None, Some _) \<Rightarrow> True
      | (Some _, None) \<Rightarrow> False
      | (Some l, Some r) \<Rightarrow>
          if t_next (h l) < t_next (h r) then True
          else if t_next (h r) < t_next (h l) then False
          else l < r)"

abbreviation tless :: "(taddr \<Rightarrow> 'cb timer) \<Rightarrow> taddr \<Rightarrow> taddr \<Rightarrow> bool" where
  "tless h l r \<equiv> Comparator h (Some l) (Some r)"

section \<open>The manager\<close>

definition addTimer_ptr :: "'cb timer_mgr \<Rightarrow> taddr \<Rightarrow> bool \<times> 'cb timer_mgr" where
  "addTimer_ptr m val =
     (let ts = cset_insert (tless (t_heap m)) val (t_timers m);
          at_front = (hd ts = val \<and> \<not> t_tickled m)
      in (at_front, m\<lparr>t_timers := ts, t_tickled := (at_front \<or> t_tickled m)\<rparr>))"

text \<open>\<open>p\<close> is the address \<^verbatim>\<open>new Timer\<close> returns.\<close>

definition addTimer :: "'cb timer_mgr \<Rightarrow> u64 \<Rightarrow> taddr \<Rightarrow> u64 \<Rightarrow> 'cb option \<Rightarrow> bool \<Rightarrow> bool \<times> 'cb timer_mgr" where
  "addTimer m now p ms cb recurring =
     addTimer_ptr (m\<lparr>t_heap := (t_heap m)(p := Timer now ms cb recurring)\<rparr>) p"

text \<open>
  A callback is either a plain one or one bound to a weak pointer by \<^verbatim>\<open>addConditionTimer\<close>;
  \<open>OnTimer\<close> runs the latter only while the condition object is alive.
\<close>

datatype ('w, 'f) tcallback = Plain 'f | Conditional 'w 'f

definition OnTimer :: "('w \<Rightarrow> bool) \<Rightarrow> 'w \<Rightarrow> 'f \<Rightarrow> 'f option" where
  "OnTimer alive weak_cond cb = (if alive weak_cond then Some cb else None)"

definition addConditionTimer ::
    "('w, 'f) tcallback timer_mgr \<Rightarrow> u64 \<Rightarrow> taddr \<Rightarrow> u64 \<Rightarrow> 'f \<Rightarrow> 'w \<Rightarrow> bool \<Rightarrow> bool \<times> ('w, 'f) tcallback timer_mgr" where
  "addConditionTimer m now p ms cb weak_cond recurring =
     addTimer m now p ms (Some (Conditional weak_cond cb)) recurring"

definition deleteTimer :: "'cb timer_mgr \<Rightarrow> taddr \<Rightarrow> bool \<times> 'cb timer_mgr" where
  "deleteTimer m val =
     (case cset_erase (tless (t_heap m)) val (t_timers m) of
        None \<Rightarrow> (False, m)
      | Some ts \<Rightarrow> (True, m\<lparr>t_timers := ts\<rparr>))"

definition set_timer :: "'cb timer_mgr \<Rightarrow> taddr \<Rightarrow> 'cb timer \<Rightarrow> 'cb timer_mgr" where
  "set_timer m p t = m\<lparr>t_heap := (t_heap m)(p := t)\<rparr>"

definition cancel :: "'cb timer_mgr \<Rightarrow> taddr \<Rightarrow> bool \<times> 'cb timer_mgr" where
  "cancel m p =
     (let m1 = (if t_cb (t_heap m p) \<noteq> None then set_timer m p ((t_heap m p)\<lparr>t_cb := None\<rparr>) else m)
      in (True, snd (deleteTimer m1 p)))"

definition refresh :: "'cb timer_mgr \<Rightarrow> u64 \<Rightarrow> taddr \<Rightarrow> bool \<times> bool \<times> 'cb timer_mgr" where
  "refresh m now p =
     (let m1 = snd (deleteTimer m p); t = t_heap m1 p in
      if t_cb t = None then (False, False, m1)
      else let (front, m2) = addTimer_ptr (set_timer m1 p (t\<lparr>t_next := now + t_ms t\<rparr>)) p
           in (True, front, m2))"

definition reset :: "'cb timer_mgr \<Rightarrow> u64 \<Rightarrow> taddr \<Rightarrow> u64 \<Rightarrow> bool \<Rightarrow> bool \<times> bool \<times> 'cb timer_mgr" where
  "reset m now p ms from_now =
     (if ms = t_ms (t_heap m p) \<and> \<not> from_now then (True, False, m)
      else let m1 = snd (deleteTimer m p); t = t_heap m1 p;
               start = (if from_now then now else t_next t - t_ms t);
               (front, m2) = addTimer_ptr (set_timer m1 p (t\<lparr>t_ms := ms, t_next := start + ms\<rparr>)) p
           in (True, front, m2))"

definition getNextTimer :: "'cb timer_mgr \<Rightarrow> u64 \<Rightarrow> u64 \<times> 'cb timer_mgr" where
  "getNextTimer m now_ms =
     (let m' = m\<lparr>t_tickled := False\<rparr> in
      case t_timers m of
        [] \<Rightarrow> (- 1, m')
      | p # _ \<Rightarrow> if t_next (t_heap m p) \<le> now_ms then (0, m') else (t_next (t_heap m p) - now_ms, m'))"

definition detectClockRollover :: "'cb timer_mgr \<Rightarrow> u64 \<Rightarrow> bool \<times> 'cb timer_mgr" where
  "detectClockRollover m now_ms =
     (now_ms < t_previouseTime m \<and> now_ms < t_previouseTime m - 60 * 60 * 1000,
      m\<lparr>t_previouseTime := now_ms\<rparr>)"

text \<open>The loop over the expired timers of \<^verbatim>\<open>listExpiredCb\<close>.\<close>

fun expire_loop :: "u64 \<Rightarrow> 'cb timer_mgr \<Rightarrow> taddr list \<Rightarrow> 'cb option list \<times> 'cb timer_mgr" where
  "expire_loop now_ms m [] = ([], m)"
| "expire_loop now_ms m (p # ps) =
     (let t = t_heap m p;
          m' = (if t_recurring t
                then let m1 = set_timer m p (t\<lparr>t_next := now_ms + t_ms t\<rparr>)
                     in m1\<lparr>t_timers := cset_insert (tless (t_heap m1)) p (t_timers m1)\<rparr>
                else set_timer m p (t\<lparr>t_cb := None\<rparr>));
          (cbs, m'') = expire_loop now_ms m' ps
      in (t_cb t # cbs, m''))"

text \<open>
  \<open>nt\<close> is the address of the temporary \<^verbatim>\<open>now_timer\<close>. The iterator \<^verbatim>\<open>it\<close> is the length of the prefix
  before it: the lower bound of \<^verbatim>\<open>now_timer\<close>, then on over the timers due at this very
  millisecond.
\<close>

definition expired_count :: "'cb timer_mgr \<Rightarrow> bool \<Rightarrow> u64 \<Rightarrow> taddr \<Rightarrow> nat" where
  "expired_count m rollover now_ms nt =
     (let h = (t_heap m)(nt := Timer_next now_ms); ts = t_timers m;
          lower = (if rollover then length ts else length (takeWhile (\<lambda>p. tless h p nt) ts))
      in lower + length (takeWhile (\<lambda>p. t_next (h p) = now_ms) (drop lower ts)))"

definition listExpiredCb :: "'cb timer_mgr \<Rightarrow> u64 \<Rightarrow> taddr \<Rightarrow> 'cb option list \<times> 'cb timer_mgr" where
  "listExpiredCb m now_ms nt =
     (case t_timers m of
        [] \<Rightarrow> ([], m)
      | p # _ \<Rightarrow>
         let (rollover, m1) = detectClockRollover m now_ms in
         if \<not> rollover \<and> now_ms < t_next (t_heap m p) then ([], m1)
         else let k = expired_count m1 rollover now_ms nt
              in expire_loop now_ms (m1\<lparr>t_timers := drop k (t_timers m1)\<rparr>) (take k (t_timers m1)))"

definition hasTimer :: "'cb timer_mgr \<Rightarrow> bool" where
  "hasTimer m \<longleftrightarrow> t_timers m \<noteq> []"

section \<open>The order\<close>

lemma tless_iff: "tless h l r \<longleftrightarrow> t_next (h l) < t_next (h r) \<or> (t_next (h l) = t_next (h r) \<and> l < r)"
  by (auto simp: Comparator_def)

interpretation to: cxx_total "tless h" for h :: "taddr \<Rightarrow> 'cb timer"
  by unfold_locales (auto simp: tless_iff)

lemma Comparator_null [simp]:
  "\<not> Comparator h x None" "Comparator h None (Some r)"
  by (auto simp: Comparator_def split: option.splits)

interpretation cmp: cxx_total "Comparator h" for h :: "taddr \<Rightarrow> 'cb timer"
proof
  fix x y z :: "taddr option"
  show "\<not> Comparator h x x" by (cases x) (auto simp: to.irrefl)
  show "Comparator h x y \<Longrightarrow> Comparator h y z \<Longrightarrow> Comparator h x z"
    by (cases x; cases y; cases z) (auto intro: to.trans)
  show "Comparator h x z \<Longrightarrow> Comparator h x y \<or> Comparator h y z"
    using to.neg_trans by (cases x; cases y; cases z) auto
  show "\<not> Comparator h x y \<Longrightarrow> \<not> Comparator h y x \<Longrightarrow> x = y"
    using to.eqv_eq by (cases x; cases y) auto
qed

text \<open>The invariant: the set is sorted by the times the timers have now.\<close>

definition timers_sorted :: "'cb timer_mgr \<Rightarrow> bool" where
  "timers_sorted m \<longleftrightarrow> sorted_wrt (tless (t_heap m)) (t_timers m)"

lemma sorted_update_outside:
  "p \<notin> set ts \<Longrightarrow> sorted_wrt (tless (h(p := t))) ts = sorted_wrt (tless h) ts"
  by (induction ts) (auto simp: tless_iff)

lemma sorted_update_same_next:
  "t_next t = t_next (h p) \<Longrightarrow> tless (h(p := t)) = tless h"
  by (intro ext) (auto simp: tless_iff)

section \<open>Invariant\<close>

lemma timers_sorted_insert:
  "timers_sorted m \<Longrightarrow> timers_sorted (m\<lparr>t_timers := cset_insert (tless (t_heap m)) p (t_timers m)\<rparr>)"
  by (simp add: timers_sorted_def to.ordered_cset_insert)

lemma addTimer_ptr_sorted: "timers_sorted m \<Longrightarrow> timers_sorted (snd (addTimer_ptr m p))"
  using timers_sorted_insert [of m p] by (simp add: addTimer_ptr_def Let_def timers_sorted_def)

lemma deleteTimer_heap [simp]: "t_heap (snd (deleteTimer m p)) = t_heap m"
  by (simp add: deleteTimer_def split: option.splits)

lemma deleteTimer_ok:
  assumes "timers_sorted m"
  shows "timers_sorted (snd (deleteTimer m p))"
    and "set (t_timers (snd (deleteTimer m p))) = set (t_timers m) - {p}"
    and "fst (deleteTimer m p) \<longleftrightarrow> p \<in> set (t_timers m)"
proof -
  have o: "sorted_wrt (tless (t_heap m)) (t_timers m)" using assms by (simp add: timers_sorted_def)
  note in_set = to.cset_erase_mem(1) [OF o, of p] and out_set = to.cset_erase_mem(2) [OF o, of p]
  show "timers_sorted (snd (deleteTimer m p))"
  proof (cases "cset_erase (tless (t_heap m)) p (t_timers m)")
    case None
    then show ?thesis using assms by (simp add: deleteTimer_def)
  next
    case (Some ts)
    from to.ordered_cset_erase [OF o Some] Some show ?thesis by (simp add: deleteTimer_def timers_sorted_def)
  qed
  show "set (t_timers (snd (deleteTimer m p))) = set (t_timers m) - {p}"
  proof (cases "p \<in> set (t_timers m)")
    case True
    from in_set [OF True] obtain ys where "cset_erase (tless (t_heap m)) p (t_timers m) = Some ys"
      "set ys = set (t_timers m) - {p}" by blast
    then show ?thesis by (simp add: deleteTimer_def)
  next
    case False
    from out_set [OF False] False show ?thesis by (simp add: deleteTimer_def)
  qed
  show "fst (deleteTimer m p) \<longleftrightarrow> p \<in> set (t_timers m)"
  proof (cases "p \<in> set (t_timers m)")
    case True
    from in_set [OF True] obtain ys where "cset_erase (tless (t_heap m)) p (t_timers m) = Some ys" by blast
    with True show ?thesis by (simp add: deleteTimer_def)
  next
    case False
    from out_set [OF False] False show ?thesis by (simp add: deleteTimer_def)
  qed
qed

lemma set_timer_sorted:
  "timers_sorted m \<Longrightarrow> p \<notin> set (t_timers m) \<Longrightarrow> timers_sorted (set_timer m p t)"
  by (simp add: timers_sorted_def set_timer_def sorted_update_outside)

lemma set_timer_sorted_same:
  "timers_sorted m \<Longrightarrow> t_next t = t_next (t_heap m p) \<Longrightarrow> timers_sorted (set_timer m p t)"
  by (simp add: timers_sorted_def set_timer_def sorted_update_same_next)

lemma addTimer_sorted:
  "timers_sorted m \<Longrightarrow> p \<notin> set (t_timers m) \<Longrightarrow> timers_sorted (snd (addTimer m now p ms cb r))"
  using set_timer_sorted [of m p "Timer now ms cb r"] addTimer_ptr_sorted
  by (simp add: addTimer_def set_timer_def)

lemma cancel_sorted: "timers_sorted m \<Longrightarrow> timers_sorted (snd (cancel m p))"
  by (auto simp: cancel_def Let_def intro!: deleteTimer_ok(1) set_timer_sorted_same)

lemma readd_sorted:
  assumes "timers_sorted m"
  shows "timers_sorted (snd (addTimer_ptr (set_timer (snd (deleteTimer m p)) p t) p))"
  using deleteTimer_ok [OF assms, of p] by (intro addTimer_ptr_sorted set_timer_sorted) auto

lemma refresh_sorted: "timers_sorted m \<Longrightarrow> timers_sorted (snd (snd (refresh m now p)))"
  using readd_sorted deleteTimer_ok(1) by (auto simp: refresh_def Let_def split: prod.splits)

lemma reset_sorted: "timers_sorted m \<Longrightarrow> timers_sorted (snd (snd (reset m now p ms fn)))"
  using readd_sorted by (auto simp: reset_def Let_def split: prod.splits)

lemma getNextTimer_frame [simp]:
  "t_heap (snd (getNextTimer m now)) = t_heap m" "t_timers (snd (getNextTimer m now)) = t_timers m"
  by (auto simp: getNextTimer_def Let_def split: list.splits)

section \<open>Expiry\<close>

definition fire :: "u64 \<Rightarrow> 'cb timer \<Rightarrow> 'cb timer" where
  "fire now t = (if t_recurring t then t\<lparr>t_next := now + t_ms t\<rparr> else t\<lparr>t_cb := None\<rparr>)"

definition due :: "'cb timer_mgr \<Rightarrow> u64 \<Rightarrow> taddr list" where
  "due m now = (if fst (detectClockRollover m now) then t_timers m
                else filter (\<lambda>p. t_next (t_heap m p) \<le> now) (t_timers m))"

lemma expire_loop_spec:
  assumes "timers_sorted m" "distinct ps" "set ps \<inter> set (t_timers m) = {}"
  shows "fst (expire_loop now m ps) = map (\<lambda>p. t_cb (t_heap m p)) ps
    \<and> t_heap (snd (expire_loop now m ps)) = (\<lambda>p. if p \<in> set ps then fire now (t_heap m p) else t_heap m p)
    \<and> set (t_timers (snd (expire_loop now m ps)))
        = set (t_timers m) \<union> {p \<in> set ps. t_recurring (t_heap m p)}
    \<and> timers_sorted (snd (expire_loop now m ps))"
  using assms
proof (induction ps arbitrary: m)
  case Nil
  then show ?case by simp
next
  case (Cons p ps)
  let ?t = "t_heap m p"
  define m' where "m' = (if t_recurring ?t
      then let m1 = set_timer m p (?t\<lparr>t_next := now + t_ms ?t\<rparr>)
           in m1\<lparr>t_timers := cset_insert (tless (t_heap m1)) p (t_timers m1)\<rparr>
      else set_timer m p (?t\<lparr>t_cb := None\<rparr>))"
  have step: "expire_loop now m (p # ps) = (t_cb ?t # fst (expire_loop now m' ps), snd (expire_loop now m' ps))"
    by (simp add: m'_def Let_def split: prod.splits)
  have sorted: "timers_sorted m'"
  proof (cases "t_recurring ?t")
    case True
    let ?m1 = "set_timer m p (?t\<lparr>t_next := now + t_ms ?t\<rparr>)"
    have "timers_sorted ?m1" using Cons.prems by (intro set_timer_sorted) auto
    from timers_sorted_insert [OF this, of p] show ?thesis using True by (simp add: m'_def Let_def)
  next
    case False
    then show ?thesis using set_timer_sorted_same [OF Cons.prems(1)] by (simp add: m'_def)
  qed
  have heap: "t_heap m' = (t_heap m)(p := fire now ?t)"
    by (simp add: m'_def Let_def set_timer_def fire_def)
  have ts: "set (t_timers m') = set (t_timers m) \<union> (if t_recurring ?t then {p} else {})"
    by (simp add: m'_def Let_def set_timer_def to.set_cset_insert)
  have "set ps \<inter> set (t_timers m') = {}" using Cons.prems ts by auto
  note IH = Cons.IH [OF sorted _ this]
  have "p \<notin> set ps" using Cons.prems by simp
  then show ?case unfolding step using IH Cons.prems heap ts
    by (auto simp: fun_eq_iff)
qed

lemma takeWhile_now:
  assumes "sorted_wrt (tless h) ts" "\<And>p. p \<in> set ts \<Longrightarrow> now \<le> t_next (h p)"
  shows "takeWhile (\<lambda>p. t_next (h p) = now) ts = filter (\<lambda>p. t_next (h p) \<le> now) ts"
  using assms
proof (induction ts)
  case Nil
  then show ?case by simp
next
  case (Cons p ts)
  show ?case
  proof (cases "t_next (h p) = now")
    case True
    then show ?thesis using Cons by simp
  next
    case False
    then have "now < t_next (h p)" using Cons.prems(2) [of p] by simp
    then have "\<forall>q \<in> set ts. now < t_next (h q)"
      using Cons.prems(1) by (auto simp: tless_iff)
    then show ?thesis using False \<open>now < t_next (h p)\<close> by (simp add: filter_False not_le)
  qed
qed

lemma expired_prefix:
  assumes "sorted_wrt (tless h) ts" "nt \<notin> set ts" "t_next (h nt) = now"
  shows "takeWhile (\<lambda>p. tless h p nt) ts @ takeWhile (\<lambda>p. t_next (h p) = now) (dropWhile (\<lambda>p. tless h p nt) ts)
    = filter (\<lambda>p. t_next (h p) \<le> now) ts"
  using assms
proof (induction ts)
  case Nil
  then show ?case by simp
next
  case (Cons p ts)
  show ?case
  proof (cases "tless h p nt")
    case True
    then show ?thesis using Cons by (auto simp: tless_iff)
  next
    case False
    then have "now \<le> t_next (h p)" using Cons.prems by (auto simp: tless_iff not_less)
    then have "\<And>q. q \<in> set (p # ts) \<Longrightarrow> now \<le> t_next (h q)"
      using Cons.prems(1) by (auto simp: tless_iff)
    from takeWhile_now [OF Cons.prems(1) this] show ?thesis using False by simp
  qed
qed

lemma take_expired:
  assumes "timers_sorted m" "nt \<notin> set (t_timers m)"
  shows "take (expired_count m False now nt) (t_timers m) = filter (\<lambda>p. t_next (t_heap m p) \<le> now) (t_timers m)"
proof -
  let ?h = "(t_heap m)(nt := Timer_next now)" and ?ts = "t_timers m"
  have s: "sorted_wrt (tless ?h) ?ts" using assms by (simp add: sorted_update_outside timers_sorted_def)
  let ?a = "takeWhile (\<lambda>p. tless ?h p nt) ?ts" and ?b = "dropWhile (\<lambda>p. tless ?h p nt) ?ts"
  have drp: "drop (length ?a) ?ts = ?b" by (simp add: dropWhile_eq_drop)
  have "take (length ?a + length (takeWhile (\<lambda>p. t_next (?h p) = now) ?b)) ?ts
      = ?a @ takeWhile (\<lambda>p. t_next (?h p) = now) ?b"
    unfolding take_add drp by (simp add: takeWhile_eq_take [symmetric])
  moreover have "?a @ takeWhile (\<lambda>p. t_next (?h p) = now) ?b = filter (\<lambda>p. t_next (?h p) \<le> now) ?ts"
    using expired_prefix [OF s assms(2), of now] by (simp add: Timer_next_def)
  moreover have "filter (\<lambda>p. t_next (?h p) \<le> now) ?ts = filter (\<lambda>p. t_next (t_heap m p) \<le> now) ?ts"
    using assms(2) by (intro filter_cong) auto
  ultimately show ?thesis using drp by (simp add: expired_count_def Let_def)
qed


lemma detect_frame [simp]:
  "t_heap (snd (detectClockRollover m now)) = t_heap m"
  "t_timers (snd (detectClockRollover m now)) = t_timers m"
  by (simp_all add: detectClockRollover_def)

lemma due_none_early:
  assumes "timers_sorted m" "t_timers m = p # ts" "\<not> fst (detectClockRollover m now)" "now < t_next (t_heap m p)"
  shows "due m now = []"
proof -
  have "\<forall>q \<in> set (t_timers m). now < t_next (t_heap m q)"
    using assms by (auto simp: timers_sorted_def tless_iff)
  then show ?thesis using assms(3) by (simp add: due_def filter_False not_le)
qed

lemma expired_count_rollover: "take (expired_count m True now nt) (t_timers m) = t_timers m"
  by (simp add: expired_count_def Let_def)

lemma filter_prefix_drop:
  "take k xs = filter P xs \<Longrightarrow> distinct xs \<Longrightarrow> set (drop k xs) = set xs - set (filter P xs)"
proof -
  assume t: "take k xs = filter P xs" "distinct xs"
  have "set xs = set (take k xs) \<union> set (drop k xs)" by (metis append_take_drop_id set_append)
  moreover have "set (take k xs) \<inter> set (drop k xs) = {}" using t(2) by (simp add: set_take_disj_set_drop_if_distinct)
  ultimately show ?thesis using t(1) by auto
qed

lemma listExpiredCb_spec:
  assumes "timers_sorted m" "nt \<notin> set (t_timers m)"
  shows "fst (listExpiredCb m now nt) = map (\<lambda>p. t_cb (t_heap m p)) (due m now)
    \<and> t_heap (snd (listExpiredCb m now nt)) = (\<lambda>p. if p \<in> set (due m now) then fire now (t_heap m p) else t_heap m p)
    \<and> set (t_timers (snd (listExpiredCb m now nt)))
        = (set (t_timers m) - set (due m now)) \<union> {p \<in> set (due m now). t_recurring (t_heap m p)}
    \<and> timers_sorted (snd (listExpiredCb m now nt))"
proof (cases "t_timers m")
  case Nil
  then show ?thesis using assms by (simp add: listExpiredCb_def due_def)
next
  case (Cons p ts)
  let ?r = "fst (detectClockRollover m now)" and ?m1 = "snd (detectClockRollover m now)"
  show ?thesis
  proof (cases "\<not> ?r \<and> now < t_next (t_heap m p)")
    case True
    then have "due m now = []" using due_none_early [OF assms(1) Cons] by simp
    moreover have "listExpiredCb m now nt = ([], ?m1)"
      using True Cons by (simp add: listExpiredCb_def Let_def case_prod_beta)
    ultimately show ?thesis using assms(1) by (simp add: timers_sorted_def)
  next
    case False
    let ?k = "expired_count ?m1 ?r now nt" and ?ts = "t_timers m"
    let ?m2 = "?m1\<lparr>t_timers := drop ?k ?ts\<rparr>"
    have eq: "listExpiredCb m now nt = expire_loop now ?m2 (take ?k ?ts)"
      using False Cons by (auto simp: listExpiredCb_def Let_def case_prod_beta)
    have s1: "timers_sorted ?m1" using assms(1) by (simp add: timers_sorted_def)
    have dist: "distinct ?ts" using assms(1) by (simp add: timers_sorted_def to.ordered_distinct)
    have tk: "take ?k ?ts = due m now"
    proof (cases ?r)
      case True
      then show ?thesis using expired_count_rollover [of ?m1 now nt] by (simp add: due_def)
    next
      case no: False
      then show ?thesis using take_expired [OF s1, of nt now] assms(2) by (simp add: due_def)
    qed
    have s2: "timers_sorted ?m2" using assms(1) by (simp add: timers_sorted_def sorted_wrt_drop)
    have dj: "set (take ?k ?ts) \<inter> set (t_timers ?m2) = {}"
      using dist by (simp add: set_take_disj_set_drop_if_distinct)
    have rest: "set (drop ?k ?ts) = set ?ts - set (due m now)"
    proof -
      have "set ?ts = set (take ?k ?ts) \<union> set (drop ?k ?ts)" by (metis append_take_drop_id set_append)
      then show ?thesis using dj tk by auto
    qed
    show ?thesis
      using expire_loop_spec [OF s2 distinct_take [OF dist] dj, of now] unfolding eq
      by (simp add: tk rest cong: if_cong)
  qed
qed

section \<open>Reachable managers\<close>

inductive tm_step :: "'cb timer_mgr \<Rightarrow> 'cb timer_mgr \<Rightarrow> bool" where
  step_add: "p \<notin> set (t_timers m) \<Longrightarrow> tm_step m (snd (addTimer m now p ms cb recurring))"
| step_cancel: "tm_step m (snd (cancel m p))"
| step_refresh: "tm_step m (snd (snd (refresh m now p)))"
| step_reset: "tm_step m (snd (snd (reset m now p ms from_now)))"
| step_next: "tm_step m (snd (getNextTimer m now))"
| step_expire: "nt \<notin> set (t_timers m) \<Longrightarrow> tm_step m (snd (listExpiredCb m now nt))"

inductive tm_reachable :: "'cb timer_mgr \<Rightarrow> bool" where
  reach_init: "tm_reachable (TimerManager h now)"
| reach_step: "tm_reachable m \<Longrightarrow> tm_step m m' \<Longrightarrow> tm_reachable m'"

lemma tm_step_sorted: "tm_step m m' \<Longrightarrow> timers_sorted m \<Longrightarrow> timers_sorted m'"
proof (induction rule: tm_step.induct)
  case (step_next m now)
  then show ?case by (simp add: timers_sorted_def)
next
  case (step_expire nt m now)
  then show ?case using listExpiredCb_spec by blast
qed (simp_all add: addTimer_sorted cancel_sorted refresh_sorted reset_sorted)

lemma reachable_sorted: "tm_reachable m \<Longrightarrow> timers_sorted m"
  by (induction rule: tm_reachable.induct)
    (simp_all add: tm_step_sorted, simp add: timers_sorted_def TimerManager_def)

lemma addTimer_frame [simp]:
  "t_heap (snd (addTimer_ptr m p)) = t_heap m"
  "set (t_timers (snd (addTimer_ptr m p))) = insert p (set (t_timers m))"
  by (auto simp: addTimer_ptr_def Let_def to.set_cset_insert)

lemma cancel_heap: "t_heap (snd (cancel m p)) = (t_heap m)(p := (t_heap m p)\<lparr>t_cb := None\<rparr>)"
  by (cases "t_cb (t_heap m p)") (auto simp: cancel_def Let_def set_timer_def fun_eq_iff)

lemma set_timer_timers [simp]: "t_timers (set_timer m p t) = t_timers m" "t_heap (set_timer m p t) = (t_heap m)(p := t)"
  by (simp_all add: set_timer_def)

lemma cancel_timers:
  assumes "timers_sorted m"
  shows "set (t_timers (snd (cancel m p))) = set (t_timers m) - {p}"
  using deleteTimer_ok(2) [OF assms, of p]
    deleteTimer_ok(2) [OF set_timer_sorted_same [OF assms, of "(t_heap m p)\<lparr>t_cb := None\<rparr>" p], of p]
  by (simp add: cancel_def Let_def)

lemma due_set: "set (due m now) \<subseteq> set (t_timers m)"
  by (auto simp: due_def)

lemma cancel_previouse [simp]: "t_previouseTime (snd (cancel m p)) = t_previouseTime m"
  by (simp add: cancel_def Let_def deleteTimer_def set_timer_def split: option.splits)

definition demo_tm :: "nat timer_mgr" where
  "demo_tm = snd (addTimer (snd (addTimer (TimerManager (\<lambda>_. Timer 0 0 None False) 1000) 1000 1 50 (Some 7) False))
      1000 2 20 (Some 8) True)"

lemma demo_tm_simps:
  "t_timers demo_tm = [2, 1]" "t_tickled demo_tm"
  "t_heap demo_tm = (\<lambda>_. Timer 0 0 None False)(1 := Timer 1000 50 (Some 7) False, 2 := Timer 1000 20 (Some 8) True)"
  "t_previouseTime demo_tm = 1000"
  by (simp_all add: demo_tm_def TimerManager_def addTimer_def addTimer_ptr_def Let_def Timer_def tless_iff)

lemma demo_tm_reachable: "tm_reachable demo_tm"
  unfolding demo_tm_def
  by (intro reach_step [OF _ step_add] reach_init)
    (simp_all add: TimerManager_def addTimer_def addTimer_ptr_def Let_def)

lemma demo_tm_due: "due demo_tm 1030 = [2]"
  by (simp add: due_def detectClockRollover_def demo_tm_simps Timer_def)



text \<open>C6. \<open>listExpiredCb\<close> hands out, in order, the callbacks of exactly the pending timers whose time has
  come (of all of them when the clock went back by more than an hour), re-arms the recurring ones
  one period after now, drops the others and clears their callback, and touches nothing else.\<close>

theorem listExpiredCb_fires_due:
  assumes "tm_reachable m" "nt \<notin> set (t_timers m)"
  shows "fst (listExpiredCb m now nt) = map (\<lambda>p. t_cb (t_heap m p)) (due m now)
    \<and> t_heap (snd (listExpiredCb m now nt)) = (\<lambda>p. if p \<in> set (due m now) then fire now (t_heap m p) else t_heap m p)
    \<and> set (t_timers (snd (listExpiredCb m now nt)))
        = (set (t_timers m) - set (due m now)) \<union> {p \<in> set (due m now). t_recurring (t_heap m p)}"
  using listExpiredCb_spec [OF reachable_sorted [OF assms(1)] assms(2)] by blast

theorem listExpiredCb_fires_due_witness:
  "fst (listExpiredCb demo_tm 1030 9) = [Some 8] \<and> set (t_timers (snd (listExpiredCb demo_tm 1030 9))) = {1, 2}
    \<and> t_next (t_heap (snd (listExpiredCb demo_tm 1030 9)) 2) = 1050"
  using listExpiredCb_fires_due [OF demo_tm_reachable, of 9 1030]
  by (auto simp: demo_tm_due demo_tm_simps Timer_def fire_def)

text \<open>\<open>getNextTimer\<close> answers the all-ones value exactly without timers (unless the wait itself is
  that long), zero exactly when \<open>listExpiredCb\<close> has something to fire without a rollover, and otherwise
  waiting that long makes the earliest timer, and no earlier moment any timer, due.\<close>

theorem getNextTimer_waits_for_earliest:
  assumes "tm_reachable m" "t_timers m \<noteq> []"
  shows "(fst (getNextTimer m now) = 0 \<longleftrightarrow> (\<exists>p \<in> set (t_timers m). t_next (t_heap m p) \<le> now))
    \<and> (fst (getNextTimer m now) \<noteq> 0 \<longrightarrow>
        now + fst (getNextTimer m now) = t_next (t_heap m (hd (t_timers m)))
        \<and> (\<forall>d < fst (getNextTimer m now). \<forall>p \<in> set (t_timers m). \<not> t_next (t_heap m p) \<le> now + d))
    \<and> fst (getNextTimer (TimerManager h now) now) = - 1"
proof -
  obtain p ts where ts: "t_timers m = p # ts" using assms(2) by (cases "t_timers m") auto
  have le: "\<forall>q \<in> set (t_timers m). t_next (t_heap m p) \<le> t_next (t_heap m q)"
    using reachable_sorted [OF assms(1)] ts by (auto simp: timers_sorted_def tless_iff)
  show ?thesis
  proof (cases "t_next (t_heap m p) \<le> now")
    case True
    then show ?thesis using ts by (auto simp: getNextTimer_def Let_def TimerManager_def)
  next
    case False
    let ?n = "t_next (t_heap m p)"
    have g: "fst (getNextTimer m now) = ?n - now" using False ts by (simp add: getNextTimer_def Let_def)
    have nz: "?n - now \<noteq> 0" using False by auto
    have early: "\<not> t_next (t_heap m q) \<le> now + d" if "d < ?n - now" "q \<in> set (t_timers m)" for d q
    proof -
      have "now + d < ?n" using that(1) False by uint_arith
      then show ?thesis using le that(2) by fastforce
    qed
    have "\<not> (\<exists>q \<in> set (t_timers m). t_next (t_heap m q) \<le> now)" using le False by force
    then show ?thesis using g nz early ts by (auto simp: getNextTimer_def Let_def TimerManager_def)
  qed
qed

theorem getNextTimer_waits_for_earliest_witness:
  "fst (getNextTimer demo_tm 1005) = 15 \<and> 1005 + fst (getNextTimer demo_tm 1005) = t_next (t_heap demo_tm 2)"
  using getNextTimer_waits_for_earliest [OF demo_tm_reachable, of 1005 "\<lambda>_. Timer 0 0 (None :: nat option) False"]
  by (simp add: demo_tm_simps Timer_def getNextTimer_def Let_def)

text \<open>After \<open>cancel\<close> the timer is out of the set and its callback is gone, the other timers are
  untouched, a later expiry fires the same timers as before without it, and \<open>refresh\<close> refuses it.\<close>

theorem cancel_removes:
  assumes "tm_reachable m"
  shows "fst (cancel m p) \<and> p \<notin> set (t_timers (snd (cancel m p)))
    \<and> set (t_timers (snd (cancel m p))) = set (t_timers m) - {p}
    \<and> (\<forall>q. q \<noteq> p \<longrightarrow> t_heap (snd (cancel m p)) q = t_heap m q)
    \<and> set (due (snd (cancel m p)) now) = set (due m now) - {p}
    \<and> fst (refresh (snd (cancel m p)) now' p) = False"
proof -
  note ts = cancel_timers [OF reachable_sorted [OF assms], of p]
  have "set (due (snd (cancel m p)) now) = set (due m now) - {p}"
    unfolding due_def using ts by (auto simp: detectClockRollover_def cancel_heap)
  then show ?thesis using ts by (simp add: cancel_heap refresh_def Let_def) (simp add: cancel_def Let_def)
qed

theorem cancel_removes_witness:
  "set (t_timers (snd (cancel demo_tm 2))) = {1} \<and> fst (refresh (snd (cancel demo_tm 2)) 1010 2) = False"
  using cancel_removes [OF demo_tm_reachable, of 2 1000 1010] by (auto simp: demo_tm_simps)

text \<open>\<open>refresh\<close> and \<open>reset\<close> keep the set of pending timers up to the timer itself, which they
  (re-)insert with the new expiry time; a timer without callback is dropped by \<open>refresh\<close> but
  re-inserted by \<open>reset\<close>, so a cancelled timer comes back as one that fires an empty function.\<close>

theorem refresh_reset_rearm:
  assumes "tm_reachable m"
  shows "(t_cb (t_heap m p) = None \<longrightarrow> fst (refresh m now p) = False
            \<and> set (t_timers (snd (snd (refresh m now p)))) = set (t_timers m) - {p})
    \<and> (t_cb (t_heap m p) \<noteq> None \<longrightarrow> fst (refresh m now p)
            \<and> t_heap (snd (snd (refresh m now p))) = (t_heap m)(p := (t_heap m p)\<lparr>t_next := now + t_ms (t_heap m p)\<rparr>)
            \<and> set (t_timers (snd (snd (refresh m now p)))) = insert p (set (t_timers m)))
    \<and> (ms = t_ms (t_heap m p) \<and> \<not> from_now \<longrightarrow> reset m now p ms from_now = (True, False, m))
    \<and> (ms \<noteq> t_ms (t_heap m p) \<or> from_now \<longrightarrow>
            set (t_timers (snd (snd (reset m now p ms from_now)))) = insert p (set (t_timers m))
            \<and> t_heap (snd (snd (reset m now p ms from_now))) = (t_heap m)(p := (t_heap m p)\<lparr>t_ms := ms,
                 t_next := (if from_now then now else t_next (t_heap m p) - t_ms (t_heap m p)) + ms\<rparr>))"
proof -
  note d = deleteTimer_ok(2) [OF reachable_sorted [OF assms], of p]
  show ?thesis by (auto simp: refresh_def reset_def Let_def case_prod_beta d)
qed

theorem refresh_reset_rearm_witness:
  "t_next (t_heap (snd (snd (refresh demo_tm 1010 1))) 1) = 1060
    \<and> t_next (t_heap (snd (snd (reset demo_tm 1010 1 70 False))) 1) = 1070"
  using refresh_reset_rearm [OF demo_tm_reachable, of 1 1010 70 False] by (simp add: demo_tm_simps Timer_def)

text \<open>\<open>addTimer\<close> of a fresh timer asks for a wake-up exactly when it becomes the earliest timer and
  no wake-up is outstanding; afterwards none is asked for again before \<open>getNextTimer\<close> is called.\<close>

theorem addTimer_tickles_once:
  assumes "tm_reachable m" "p \<notin> set (t_timers m)"
  shows "(fst (addTimer m now p ms cb r) \<longleftrightarrow> \<not> t_tickled m
            \<and> (\<forall>q \<in> set (t_timers m). Comparator ((t_heap m)(p := Timer now ms cb r)) (Some p) (Some q)))
    \<and> (fst (addTimer m now p ms cb r) \<longrightarrow> t_tickled (snd (addTimer m now p ms cb r)))
    \<and> (t_tickled m \<longrightarrow> \<not> fst (addTimer m now p ms cb r) \<and> t_tickled (snd (addTimer m now p ms cb r)))
    \<and> \<not> t_tickled (snd (getNextTimer m now))"
proof -
  let ?h = "(t_heap m)(p := Timer now ms cb r)"
  have s: "sorted_wrt (tless ?h) (t_timers m)"
    using reachable_sorted [OF assms(1)] assms(2) by (simp add: timers_sorted_def sorted_update_outside)
  note front = to.hd_cset_insert [OF s, of p]
  show ?thesis using assms(2) by (auto simp: addTimer_def addTimer_ptr_def Let_def front getNextTimer_def split: list.splits)
qed

theorem addTimer_tickles_once_witness:
  "\<not> fst (addTimer demo_tm 1000 3 5 (Some 9) False) \<and> t_tickled (snd (addTimer demo_tm 1000 3 5 (Some 9) False))"
  using addTimer_tickles_once [OF demo_tm_reachable, of 3 1000 5 "Some 9" False] by (simp add: demo_tm_simps)

end
