(* ===== verification/Sylar_Util.thy ===== *)
theory Sylar_Util
  imports Sylar_Prelude
begin

text \<open>
  The string and clock helpers (\<^verbatim>\<open>src/sylar/util.cpp\<close>): percent encoding and decoding, the trim
  functions, the clock conversions, the backtrace printer and \<^verbatim>\<open>FSUtil::Unlink\<close>. A \<^verbatim>\<open>std::string\<close> is a
  list of characters, that is of bytes. The lazily allocated result \<^verbatim>\<open>ss\<close> of the encoders is an
  option: \<^term>\<open>None\<close> is the null pointer.
\<close>

section \<open>Clock\<close>

definition GetCurrentMS :: "u64 \<Rightarrow> u64 \<Rightarrow> u64" where
  "GetCurrentMS tv_sec tv_usec = tv_sec * 1000 + tv_usec div 1000"

definition GetCurrentUS :: "u64 \<Rightarrow> u64 \<Rightarrow> u64" where
  "GetCurrentUS tv_sec tv_usec = tv_sec * 1000 * 1000 + tv_usec"

section \<open>Backtrace and unlink\<close>

text \<open>\<open>strings\<close> is what \<^verbatim>\<open>backtrace_symbols\<close> returned, a null pointer included.\<close>

definition Backtrace :: "(string \<Rightarrow> string) \<Rightarrow> string list option \<Rightarrow> nat \<Rightarrow> string list \<Rightarrow> string list" where
  "Backtrace demangle strings skip bt =
     (case strings of None \<Rightarrow> bt | Some ss \<Rightarrow> bt @ map demangle (drop skip ss))"

definition Backtrace2String :: "(string \<Rightarrow> string) \<Rightarrow> string list option \<Rightarrow> nat \<Rightarrow> string \<Rightarrow> string" where
  "Backtrace2String demangle strings skip prefix =
     concat (map (\<lambda>b. prefix @ b @ ''\<newline>'') (Backtrace demangle strings skip []))"

text \<open>\<open>lstat\<close> and \<open>unlink\<close> return the result code of the system call.\<close>

definition Unlink :: "(string \<Rightarrow> int) \<Rightarrow> (string \<Rightarrow> int) \<Rightarrow> string \<Rightarrow> bool \<Rightarrow> bool" where
  "Unlink lstat unlink filename exist =
     (if \<not> exist \<and> lstat filename \<noteq> 0 then True else unlink filename = 0)"

section \<open>Percent encoding\<close>

definition uri_chars :: "nat list" where
  "uri_chars =
    [0, 0, 0, 0, 0, 0, 0, 0,   0, 0, 0, 0, 0, 0, 0, 0,
     0, 0, 0, 0, 0, 0, 0, 0,   0, 0, 0, 0, 0, 0, 0, 0,
     0, 0, 0, 0, 0, 0, 0, 0,   0, 0, 0, 0, 0, 1, 1, 0,
     1, 1, 1, 1, 1, 1, 1, 1,   1, 1, 0, 0, 0, 1, 0, 0,
     0, 1, 1, 1, 1, 1, 1, 1,   1, 1, 1, 1, 1, 1, 1, 1,
     1, 1, 1, 1, 1, 1, 1, 1,   1, 1, 1, 0, 0, 0, 0, 1,
     0, 1, 1, 1, 1, 1, 1, 1,   1, 1, 1, 1, 1, 1, 1, 1,
     1, 1, 1, 1, 1, 1, 1, 1,   1, 1, 1, 0, 0, 0, 1, 0] @ replicate 128 0"

definition xdigit_chars :: "nat list" where
  "xdigit_chars =
    [0,0,0,0,0,0,0,0,0,0,0,0,0,0,0,0,
     0,0,0,0,0,0,0,0,0,0,0,0,0,0,0,0,
     0,0,0,0,0,0,0,0,0,0,0,0,0,0,0,0,
     0,1,2,3,4,5,6,7,8,9,0,0,0,0,0,0,
     0,10,11,12,13,14,15,0,0,0,0,0,0,0,0,0,
     0,0,0,0,0,0,0,0,0,0,0,0,0,0,0,0,
     0,10,11,12,13,14,15,0,0,0,0,0,0,0,0,0,
     0,0,0,0,0,0,0,0,0,0,0,0,0,0,0,0] @ replicate 128 0"

definition CHAR_IS_UNRESERVED :: "char \<Rightarrow> bool" where
  "CHAR_IS_UNRESERVED c \<longleftrightarrow> uri_chars ! of_char c \<noteq> 0"

definition isxdigit :: "char \<Rightarrow> bool" where
  "isxdigit c \<longleftrightarrow> (let n = of_char c :: nat in (48 \<le> n \<and> n \<le> 57) \<or> (65 \<le> n \<and> n \<le> 70) \<or> (97 \<le> n \<and> n \<le> 102))"

definition hexdigits :: string where
  "hexdigits = ''0123456789ABCDEF''"

text \<open>\<open>pre\<close> is the part of the string before \<^verbatim>\<open>c\<close>.\<close>

fun urlenc_loop :: "bool \<Rightarrow> string \<Rightarrow> string \<Rightarrow> string option \<Rightarrow> string option" where
  "urlenc_loop space_as_plus pre [] ss = ss"
| "urlenc_loop space_as_plus pre (c # cs) ss =
     urlenc_loop space_as_plus (pre @ [c]) cs
       (if \<not> CHAR_IS_UNRESERVED c
        then let s = (case ss of None \<Rightarrow> pre | Some s \<Rightarrow> s) in
             Some (if c = CHR '' '' \<and> space_as_plus then s @ ''+''
                   else s @ [CHR ''%'', hexdigits ! (of_char c div 16), hexdigits ! (of_char c mod 16)])
        else case ss of None \<Rightarrow> None | Some s \<Rightarrow> Some (s @ [c]))"

definition UrlEncode :: "string \<Rightarrow> bool \<Rightarrow> string" where
  "UrlEncode str space_as_plus =
     (case urlenc_loop space_as_plus [] str None of None \<Rightarrow> str | Some s \<Rightarrow> s)"

fun urldec_loop :: "bool \<Rightarrow> string \<Rightarrow> string \<Rightarrow> string option \<Rightarrow> string option" where
  "urldec_loop space_as_plus pre [] ss = ss"
| "urldec_loop space_as_plus pre (c # cs) ss =
     (if c = CHR ''+'' \<and> space_as_plus
      then urldec_loop space_as_plus (pre @ [c]) cs
             (Some ((case ss of None \<Rightarrow> pre | Some s \<Rightarrow> s) @ '' ''))
      else if c = CHR ''%'' \<and> 2 \<le> length cs \<and> isxdigit (cs ! 0) \<and> isxdigit (cs ! 1)
      then urldec_loop space_as_plus (pre @ c # take 2 cs) (drop 2 cs)
             (Some ((case ss of None \<Rightarrow> pre | Some s \<Rightarrow> s) @
                [char_of (16 * (xdigit_chars ! of_char (cs ! 0)) + xdigit_chars ! of_char (cs ! 1))]))
      else urldec_loop space_as_plus (pre @ [c]) cs
             (case ss of None \<Rightarrow> None | Some s \<Rightarrow> Some (s @ [c])))"

definition UrlDecode :: "string \<Rightarrow> bool \<Rightarrow> string" where
  "UrlDecode str space_as_plus =
     (case urldec_loop space_as_plus [] str None of None \<Rightarrow> str | Some s \<Rightarrow> s)"

section \<open>Trimming\<close>

definition find_first_not_of :: "string \<Rightarrow> string \<Rightarrow> nat option" where
  "find_first_not_of str delimit =
     (let k = length (takeWhile (\<lambda>c. c \<in> set delimit) str) in if k < length str then Some k else None)"

definition find_last_not_of :: "string \<Rightarrow> string \<Rightarrow> nat option" where
  "find_last_not_of str delimit =
     (let k = length (takeWhile (\<lambda>c. c \<in> set delimit) (rev str)) in
      if k < length str then Some (length str - 1 - k) else None)"

definition substr :: "string \<Rightarrow> nat \<Rightarrow> nat \<Rightarrow> string" where
  "substr str pos n = take n (drop pos str)"

definition Trim :: "string \<Rightarrow> string \<Rightarrow> string" where
  "Trim str delimit =
     (case find_first_not_of str delimit of
        None \<Rightarrow> ''''
      | Some b \<Rightarrow> (case find_last_not_of str delimit of
            None \<Rightarrow> drop b str
          | Some e \<Rightarrow> substr str b (e - b + 1)))"

definition TrimLeft :: "string \<Rightarrow> string \<Rightarrow> string" where
  "TrimLeft str delimit = (case find_first_not_of str delimit of None \<Rightarrow> '''' | Some b \<Rightarrow> drop b str)"

definition TrimRight :: "string \<Rightarrow> string \<Rightarrow> string" where
  "TrimRight str delimit =
     (case find_last_not_of str delimit of None \<Rightarrow> '''' | Some e \<Rightarrow> substr str 0 e)"

section \<open>Strings of the C and C++ libraries\<close>

definition tolower :: "char \<Rightarrow> char" where
  "tolower c = (let n = of_char c :: nat in if 65 \<le> n \<and> n \<le> 90 then char_of (n + 32) else c)"

text \<open>C strings end at the first null byte.\<close>

definition c_str :: "string \<Rightarrow> string" where
  "c_str s = takeWhile (\<lambda>c. c \<noteq> CHR 0x00) s"

text \<open>\<^verbatim>\<open>str.find(c, pos)\<close>.\<close>

definition find_char :: "char \<Rightarrow> string \<Rightarrow> nat \<Rightarrow> nat option" where
  "find_char c str pos =
     (let k = length (takeWhile (\<lambda>x. x \<noteq> c) (drop pos str)) in
      if pos + k < length str then Some (pos + k) else None)"

lemma find_char_bounds: "find_char c str pos = Some k \<Longrightarrow> pos \<le> k \<and> k < length str"
  by (auto simp: find_char_def Let_def split: if_splits)

text \<open>\<^verbatim>\<open>operator<<\<close> on unsigned integers.\<close>

fun show_nat :: "nat \<Rightarrow> string" where
  "show_nat n = (if n < 10 then [char_of (48 + n)] else show_nat (n div 10) @ [char_of (48 + n mod 10)])"

declare show_nat.simps [simp del]

section \<open>What the encoders compute\<close>

definition enc_char :: "bool \<Rightarrow> char \<Rightarrow> string" where
  "enc_char sp c =
     (if CHAR_IS_UNRESERVED c then [c]
      else if c = CHR '' '' \<and> sp then ''+''
      else [CHR ''%'', hexdigits ! (of_char c div 16), hexdigits ! (of_char c mod 16)])"

lemma urlenc_step:
  "urlenc_loop sp pre (c # cs) ss = urlenc_loop sp (pre @ [c]) cs
     (case ss of None \<Rightarrow> if CHAR_IS_UNRESERVED c then None else Some (pre @ enc_char sp c)
      | Some s \<Rightarrow> Some (s @ enc_char sp c))"
  by (cases ss) (simp_all add: enc_char_def)

lemma urlenc_loop_spec:
  "(case urlenc_loop sp pre cs ss of None \<Rightarrow> pre @ cs | Some s \<Rightarrow> s)
     = (case ss of None \<Rightarrow> pre | Some s \<Rightarrow> s) @ concat (map (enc_char sp) cs)"
proof (induction cs arbitrary: pre ss)
  case Nil
  then show ?case by (cases ss) simp_all
next
  case (Cons c cs)
  have "CHAR_IS_UNRESERVED c \<Longrightarrow> enc_char sp c = [c]" by (simp add: enc_char_def)
  then show ?case using Cons [where pre = "pre @ [c]"] unfolding urlenc_step
    by (cases ss; cases "CHAR_IS_UNRESERVED c") (simp_all del: urlenc_loop.simps cong: option.case_cong)
qed

lemma UrlEncode_eq: "UrlEncode s sp = concat (map (enc_char sp) s)"
  using urlenc_loop_spec [where sp = sp and pre = "[]" and cs = s and ss = None] by (simp add: UrlEncode_def cong: option.case_cong)

fun url_dec :: "bool \<Rightarrow> string \<Rightarrow> string" where
  "url_dec sp [] = []"
| "url_dec sp (c # cs) =
     (if c = CHR ''+'' \<and> sp then CHR '' '' # url_dec sp cs
      else if c = CHR ''%'' \<and> 2 \<le> length cs \<and> isxdigit (cs ! 0) \<and> isxdigit (cs ! 1)
      then char_of (16 * (xdigit_chars ! of_char (cs ! 0)) + xdigit_chars ! of_char (cs ! 1)) # url_dec sp (drop 2 cs)
      else c # url_dec sp cs)"

lemma urldec_loop_spec:
  "(case urldec_loop sp pre cs ss of None \<Rightarrow> pre @ cs | Some s \<Rightarrow> s)
     = (case ss of None \<Rightarrow> pre | Some s \<Rightarrow> s) @ url_dec sp cs"
proof (induction sp pre cs ss rule: urldec_loop.induct)
  case (1 sp pre ss)
  then show ?case by (cases ss) simp_all
next
  case (2 sp pre c cs ss)
  show ?case
  proof (cases "c = CHR ''+'' \<and> sp")
    case True
    then show ?thesis using 2(1) by (simp cong: option.case_cong)
  next
    case no_plus: False
    show ?thesis
    proof (cases "c = CHR ''%'' \<and> 2 \<le> length cs \<and> isxdigit (cs ! 0) \<and> isxdigit (cs ! 1)")
      case True
      then show ?thesis using 2(2) [OF no_plus True] by (simp cong: option.case_cong)
    next
      case False
      show ?thesis
        unfolding urldec_loop.simps url_dec.simps if_not_P [OF no_plus] if_not_P [OF False]
        using 2(3) [OF no_plus False] by (cases ss) (simp_all cong: option.case_cong)
    qed
  qed
qed

lemma UrlDecode_eq: "UrlDecode s sp = url_dec sp s"
  using urldec_loop_spec [where sp = sp and pre = "[]" and cs = s and ss = None] by (simp add: UrlDecode_def cong: option.case_cong)

section \<open>Round trip\<close>

lemma less_16_cases:
  "k < (16 :: nat) \<Longrightarrow> k = 0 \<or> k = 1 \<or> k = 2 \<or> k = 3 \<or> k = 4 \<or> k = 5 \<or> k = 6 \<or> k = 7 \<or> k = 8 \<or> k = 9
     \<or> k = 10 \<or> k = 11 \<or> k = 12 \<or> k = 13 \<or> k = 14 \<or> k = 15"
  by arith

lemma hexdigit_facts:
  assumes "k < 16"
  shows "isxdigit (hexdigits ! k) \<and> xdigit_chars ! of_char (hexdigits ! k) = k \<and> CHAR_IS_UNRESERVED (hexdigits ! k)"
  using less_16_cases [OF assms]
  by (elim disjE) (simp_all add: hexdigits_def isxdigit_def xdigit_chars_def CHAR_IS_UNRESERVED_def uri_chars_def nth_append)

lemma nibbles: "of_char c div 16 < (16 :: nat)" "of_char c mod 16 < (16 :: nat)"
proof -
  have "of_char c < (256 :: nat)" by simp
  then show "of_char c div 16 < (16 :: nat)" by (simp add: less_mult_imp_div_less)
qed simp

lemma hex_pair_facts:
  "isxdigit (hexdigits ! (of_char c div 16)) \<and> isxdigit (hexdigits ! (of_char c mod 16))
   \<and> 16 * (xdigit_chars ! of_char (hexdigits ! (of_char c div 16)))
       + xdigit_chars ! of_char (hexdigits ! (of_char c mod 16)) = of_char c"
  using hexdigit_facts [OF nibbles(1) [of c]] hexdigit_facts [OF nibbles(2) [of c]] by simp

lemma unreserved_plain: "CHAR_IS_UNRESERVED c \<Longrightarrow> c \<noteq> CHR ''+'' \<and> c \<noteq> CHR ''%''"
proof -
  have "\<not> CHAR_IS_UNRESERVED (CHR ''+'')" "\<not> CHAR_IS_UNRESERVED (CHR ''%'')"
    by (simp_all add: CHAR_IS_UNRESERVED_def uri_chars_def nth_append)
  then show "CHAR_IS_UNRESERVED c \<Longrightarrow> c \<noteq> CHR ''+'' \<and> c \<noteq> CHR ''%''" by metis
qed

lemma url_dec_enc_char: "(sp \<longrightarrow> sp') \<Longrightarrow> url_dec sp' (enc_char sp c @ cs) = c # url_dec sp' cs"
  using hex_pair_facts [of c] unreserved_plain [of c] by (auto simp: enc_char_def)

lemma url_dec_enc: "(sp \<longrightarrow> sp') \<Longrightarrow> url_dec sp' (concat (map (enc_char sp) s)) = s"
  by (induction s) (simp_all add: url_dec_enc_char)

lemma enc_char_safe: "x \<in> set (enc_char sp c) \<Longrightarrow> CHAR_IS_UNRESERVED x \<or> x = CHR ''%'' \<or> (sp \<and> x = CHR ''+'')"
  using hexdigit_facts [OF nibbles(1) [of c]] hexdigit_facts [OF nibbles(2) [of c]]
  by (auto simp: enc_char_def split: if_splits)

section \<open>Trimming against dropWhile\<close>

lemma takeWhile_all_iff: "length (takeWhile P xs) < length xs \<longleftrightarrow> (\<exists>x \<in> set xs. \<not> P x)"
  by (metis length_takeWhile_le linorder_not_less le_antisym takeWhile_eq_all_conv takeWhile_eq_take take_all_iff order_refl)

lemma TrimLeft_eq: "TrimLeft s d = dropWhile (\<lambda>c. c \<in> set d) s"
  proof (cases "\<exists>x \<in> set s. x \<notin> set d")
  case True
  then show ?thesis by (simp add: TrimLeft_def find_first_not_of_def Let_def takeWhile_all_iff dropWhile_eq_drop)
next
  case False
  then have e: "dropWhile (\<lambda>c. c \<in> set d) s = []" by simp
  show ?thesis unfolding e using False by (simp add: TrimLeft_def find_first_not_of_def Let_def takeWhile_all_iff)
qed

definition trim_end :: "string \<Rightarrow> string \<Rightarrow> string" where
  "trim_end s d = rev (dropWhile (\<lambda>c. c \<in> set d) (rev s))"

lemma trim_end_take:
  "trim_end s d = take (length s - length (takeWhile (\<lambda>c. c \<in> set d) (rev s))) s"
  by (simp add: trim_end_def dropWhile_eq_drop rev_drop)

lemma TrimRight_eq: "TrimRight s d = butlast (trim_end s d)"
  by (auto simp: TrimRight_def find_last_not_of_def substr_def Let_def takeWhile_all_iff trim_end_take butlast_take
      dest: iffD2 [OF takeWhile_all_iff])

lemma Trim_eq: "Trim s d = trim_end (dropWhile (\<lambda>c. c \<in> set d) s) d"
proof (cases "\<exists>x \<in> set s. x \<notin> set d")
  case False
  then have e: "dropWhile (\<lambda>c. c \<in> set d) s = []" by simp
  show ?thesis unfolding e using False by (simp add: Trim_def find_first_not_of_def Let_def takeWhile_all_iff trim_end_def)
next
  case True
  let ?P = "\<lambda>c. c \<in> set d"
  define b r k where "b = length (takeWhile ?P s)" and "r = dropWhile ?P s" and "k = length (takeWhile ?P (rev r))"
  have r: "r = drop b s" by (simp add: b_def r_def dropWhile_eq_drop)
  have ex: "\<exists>x \<in> set r. \<not> ?P x" using True unfolding r_def
    by (metis dropWhile_eq_Nil_conv hd_dropWhile hd_in_set)
  have "rev s = rev r @ rev (takeWhile ?P s)" unfolding r_def by (metis rev_append takeWhile_dropWhile_id)
  then have k: "takeWhile ?P (rev s) = takeWhile ?P (rev r)" using ex by (auto simp: takeWhile_append1)
  have kr: "k < length r" using ex takeWhile_all_iff [of ?P "rev r"] by (simp add: k_def)
  have b: "b < length s" using True by (simp add: b_def takeWhile_all_iff)
  have f: "find_first_not_of s d = Some b" using b by (simp add: find_first_not_of_def b_def Let_def)
  have l: "find_last_not_of s d = Some (length s - 1 - k)"
    using kr length_dropWhile_le [of ?P s] unfolding find_last_not_of_def k k_def [symmetric] by (simp add: Let_def r_def)
  have "length s - 1 - k - b + 1 = length r - k" using kr r by simp
  then have "Trim s d = take (length r - k) r" by (simp add: Trim_def f l substr_def r)
  then show ?thesis by (simp add: trim_end_take k_def r_def)
qed

section \<open>Properties\<close>

text \<open>Decoding an encoded string gives it back, byte for byte, whatever bytes it has: with the same
  treatment of spaces, and also when only the decoder maps plus signs to spaces. The encoded text
  consists of the unreserved characters of the table, percent signs and (for spaces) plus signs.\<close>

theorem url_encode_decode:
  "((space_as_plus \<longrightarrow> plus_as_space) \<longrightarrow> UrlDecode (UrlEncode s space_as_plus) plus_as_space = s)
    \<and> set (UrlEncode s space_as_plus) \<subseteq>
        {c. CHAR_IS_UNRESERVED c} \<union> {CHR ''%''} \<union> (if space_as_plus then {CHR ''+''} else {})"
  using url_dec_enc by (auto simp: UrlEncode_eq UrlDecode_eq dest!: enc_char_safe)

theorem url_encode_decode_witness:
  "UrlEncode ''a b+c'' True = ''a+b%2Bc'' \<and> UrlDecode ''a+b%2Bc'' True = ''a b+c''"
proof -
  have "UrlEncode ''a b+c'' True = ''a+b%2Bc''"
    by (simp add: UrlEncode_eq enc_char_def CHAR_IS_UNRESERVED_def uri_chars_def nth_append hexdigits_def)
  then show ?thesis using url_encode_decode [of True True "''a b+c''"] by simp
qed

text \<open>\<open>Trim\<close> and \<open>TrimLeft\<close> strip exactly the delimiter characters at the ends, but \<open>TrimRight\<close> also loses
  the last character that it should keep: it passes the position of that character as a length.\<close>

theorem trim_functions:
  "Trim s d = rev (dropWhile (\<lambda>c. c \<in> set d) (rev (dropWhile (\<lambda>c. c \<in> set d) s)))
    \<and> TrimLeft s d = dropWhile (\<lambda>c. c \<in> set d) s
    \<and> TrimRight s d = butlast (rev (dropWhile (\<lambda>c. c \<in> set d) (rev s)))"
  using Trim_eq TrimLeft_eq TrimRight_eq by (simp add: trim_end_def)

end
