(* ===== verification/Sylar_Http.thy ===== *)
theory Sylar_Http
  imports Sylar_Util Sylar_Containers "HOL-Library.List_Lexorder" "HOL-Library.Sublist"
begin

text \<open>
  HTTP messages (\<^verbatim>\<open>src/sylar/http/http.h\<close>, \<^verbatim>\<open>http.cpp\<close>): the method and status tables, the case
  insensitive header maps, requests and responses with their accessors, the lazy parsing of
  query, form and cookie parameters, and the printer \<^verbatim>\<open>dump\<close>. A status is its number (the enum is cast
  from an integer of the peer); a map is its list in key order, with \<^verbatim>\<open>CaseInsensitiveLess\<close> as comparator.
  \<^verbatim>\<open>boost::lexical_cast\<close> is a parameter: \<^term>\<open>None\<close> is its exception.
\<close>

section \<open>Methods and statuses\<close>

datatype HttpMethod =
    DELETE | GET | HEAD | POST | PUT | CONNECT | OPTIONS | TRACE | COPY | LOCK | MKCOL | MOVE
    | PROPFIND | PROPPATCH | SEARCH | UNLOCK | BIND | REBIND | UNBIND | ACL | REPORT
    | MKACTIVITY | CHECKOUT | MERGE | MSEARCH | NOTIFY | SUBSCRIBE | UNSUBSCRIBE | PATCH
    | PURGE | MKCALENDAR | LINK | UNLINK | SOURCE | INVALID_METHOD

definition HTTP_METHOD_MAP :: "(HttpMethod \<times> string) list" where
  "HTTP_METHOD_MAP =
    [(DELETE, ''DELETE''), (GET, ''GET''), (HEAD, ''HEAD''), (POST, ''POST''),
     (PUT, ''PUT''), (CONNECT, ''CONNECT''), (OPTIONS, ''OPTIONS''), (TRACE, ''TRACE''),
     (COPY, ''COPY''), (LOCK, ''LOCK''), (MKCOL, ''MKCOL''), (MOVE, ''MOVE''),
     (PROPFIND, ''PROPFIND''), (PROPPATCH, ''PROPPATCH''), (SEARCH, ''SEARCH''), (UNLOCK, ''UNLOCK''),
     (BIND, ''BIND''), (REBIND, ''REBIND''), (UNBIND, ''UNBIND''), (ACL, ''ACL''),
     (REPORT, ''REPORT''), (MKACTIVITY, ''MKACTIVITY''), (CHECKOUT, ''CHECKOUT''), (MERGE, ''MERGE''),
     (MSEARCH, ''M-SEARCH''), (NOTIFY, ''NOTIFY''), (SUBSCRIBE, ''SUBSCRIBE''), (UNSUBSCRIBE, ''UNSUBSCRIBE''),
     (PATCH, ''PATCH''), (PURGE, ''PURGE''), (MKCALENDAR, ''MKCALENDAR''), (LINK, ''LINK''),
     (UNLINK, ''UNLINK''), (SOURCE, ''SOURCE'')]"

definition StringToHttpMethod :: "string \<Rightarrow> HttpMethod" where
  "StringToHttpMethod m =
     (case find (\<lambda>e. snd e = c_str m) HTTP_METHOD_MAP of None \<Rightarrow> INVALID_METHOD | Some e \<Rightarrow> fst e)"

text \<open>The argument is the memory behind the pointer.\<close>

definition CharsToHttpMethod :: "string \<Rightarrow> HttpMethod" where
  "CharsToHttpMethod m =
     (case find (\<lambda>e. take (length (snd e)) m = snd e) HTTP_METHOD_MAP of None \<Rightarrow> INVALID_METHOD | Some e \<Rightarrow> fst e)"

definition HttpMethod_index :: "HttpMethod \<Rightarrow> nat" where
  "HttpMethod_index m = length (takeWhile (\<lambda>e. fst e \<noteq> m) HTTP_METHOD_MAP)"

definition s_method_string :: "string list" where
  "s_method_string = map snd HTTP_METHOD_MAP"

definition HttpMethodToString :: "HttpMethod \<Rightarrow> string" where
  "HttpMethodToString m =
     (let idx = HttpMethod_index m in
      if idx \<ge> length s_method_string then ''<unknown>'' else s_method_string ! idx)"

definition HTTP_STATUS_MAP :: "(int \<times> string) list" where
  "HTTP_STATUS_MAP =
    [(100, ''Continue''), (101, ''Switching Protocols''), (102, ''Processing''),
     (200, ''OK''), (201, ''Created''), (202, ''Accepted''),
     (203, ''Non-Authoritative Information''), (204, ''No Content''), (205, ''Reset Content''),
     (206, ''Partial Content''), (207, ''Multi-Status''), (208, ''Already Reported''),
     (226, ''IM Used''), (300, ''Multiple Choices''), (301, ''Moved Permanently''),
     (302, ''Found''), (303, ''See Other''), (304, ''Not Modified''),
     (305, ''Use Proxy''), (307, ''Temporary Redirect''), (308, ''Permanent Redirect''),
     (400, ''Bad Request''), (401, ''Unauthorized''), (402, ''Payment Required''),
     (403, ''Forbidden''), (404, ''Not Found''), (405, ''Method Not Allowed''),
     (406, ''Not Acceptable''), (407, ''Proxy Authentication Required''), (408, ''Request Timeout''),
     (409, ''Conflict''), (410, ''Gone''), (411, ''Length Required''),
     (412, ''Precondition Failed''), (413, ''Payload Too Large''), (414, ''URI Too Long''),
     (415, ''Unsupported Media Type''), (416, ''Range Not Satisfiable''), (417, ''Expectation Failed''),
     (421, ''Misdirected Request''), (422, ''Unprocessable Entity''), (423, ''Locked''),
     (424, ''Failed Dependency''), (426, ''Upgrade Required''), (428, ''Precondition Required''),
     (429, ''Too Many Requests''), (431, ''Request Header Fields Too Large''), (451, ''Unavailable For Legal Reasons''),
     (500, ''Internal Server Error''), (501, ''Not Implemented''), (502, ''Bad Gateway''),
     (503, ''Service Unavailable''), (504, ''Gateway Timeout''), (505, ''HTTP Version Not Supported''),
     (506, ''Variant Also Negotiates''), (507, ''Insufficient Storage''), (508, ''Loop Detected''),
     (510, ''Not Extended''), (511, ''Network Authentication Required'')]"

definition HttpStatusToString :: "int \<Rightarrow> string" where
  "HttpStatusToString s = (case map_of HTTP_STATUS_MAP s of None \<Rightarrow> ''<unknown>'' | Some msg \<Rightarrow> msg)"

section \<open>Case insensitive maps\<close>

fun strcasecmp :: "string \<Rightarrow> string \<Rightarrow> int" where
  "strcasecmp [] [] = 0"
| "strcasecmp [] (b # bs) = - int (of_char (tolower b))"
| "strcasecmp (a # as) [] = int (of_char (tolower a))"
| "strcasecmp (a # as) (b # bs) =
     (if tolower a \<noteq> tolower b then int (of_char (tolower a)) - int (of_char (tolower b)) else strcasecmp as bs)"

definition CaseInsensitiveLess :: "string \<Rightarrow> string \<Rightarrow> bool" where
  "CaseInsensitiveLess lhs rhs \<longleftrightarrow> strcasecmp (c_str lhs) (c_str rhs) < 0"

fun strcasestr :: "string \<Rightarrow> string \<Rightarrow> bool" where
  "strcasestr [] needle = (needle = [])"
| "strcasestr (c # cs) needle =
     (map tolower (take (length needle) (c # cs)) = map tolower needle \<or> strcasestr cs needle)"

type_synonym MapType = "(string \<times> string) list"

definition checkGetAs :: "(string \<Rightarrow> 'a option) \<Rightarrow> MapType \<Rightarrow> string \<Rightarrow> 'a \<Rightarrow> bool \<times> 'a" where
  "checkGetAs lexical_cast m key def =
     (case cmap_find CaseInsensitiveLess key m of
        None \<Rightarrow> (False, def)
      | Some v \<Rightarrow> (case lexical_cast v of Some x \<Rightarrow> (True, x) | None \<Rightarrow> (False, def)))"

definition getAs :: "(string \<Rightarrow> 'a option) \<Rightarrow> MapType \<Rightarrow> string \<Rightarrow> 'a \<Rightarrow> 'a" where
  "getAs lexical_cast m key def =
     (case cmap_find CaseInsensitiveLess key m of
        None \<Rightarrow> def
      | Some v \<Rightarrow> (case lexical_cast v of Some x \<Rightarrow> x | None \<Rightarrow> def))"

section \<open>Requests\<close>

record http_request =
  q_method :: HttpMethod
  q_version :: u8
  q_close :: bool
  q_websocket :: bool
  q_parserParamFlag :: u8
  q_path :: string
  q_query :: string
  q_fragment :: string
  q_body :: string
  q_headers :: MapType
  q_params :: MapType
  q_cookies :: MapType

record http_response =
  r_status :: int
  r_version :: u8
  r_close :: bool
  r_websocket :: bool
  r_body :: string
  r_reason :: string
  r_headers :: MapType
  r_cookies :: "string list"

definition HttpRequest :: "u8 \<Rightarrow> bool \<Rightarrow> http_request" where
  "HttpRequest version close =
     \<lparr>q_method = GET, q_version = version, q_close = close, q_websocket = False, q_parserParamFlag = 0,
      q_path = ''/'', q_query = '''', q_fragment = '''', q_body = '''',
      q_headers = [], q_params = [], q_cookies = []\<rparr>"

definition HttpResponse :: "u8 \<Rightarrow> bool \<Rightarrow> http_response" where
  "HttpResponse version close =
     \<lparr>r_status = 200, r_version = version, r_close = close, r_websocket = False,
      r_body = '''', r_reason = '''', r_headers = [], r_cookies = []\<rparr>"

definition createResponse :: "http_request \<Rightarrow> http_response" where
  "createResponse q = HttpResponse (q_version q) (q_close q)"

definition get_or :: "MapType \<Rightarrow> string \<Rightarrow> string \<Rightarrow> string" where
  "get_or m key def = (case cmap_find CaseInsensitiveLess key m of None \<Rightarrow> def | Some v \<Rightarrow> v)"

definition q_getHeader :: "http_request \<Rightarrow> string \<Rightarrow> string \<Rightarrow> string" where
  "q_getHeader q key def = get_or (q_headers q) key def"

definition q_setHeader :: "http_request \<Rightarrow> string \<Rightarrow> string \<Rightarrow> http_request" where
  "q_setHeader q key val = q\<lparr>q_headers := cmap_assign CaseInsensitiveLess key val (q_headers q)\<rparr>"

definition setParam :: "http_request \<Rightarrow> string \<Rightarrow> string \<Rightarrow> http_request" where
  "setParam q key val = q\<lparr>q_params := cmap_assign CaseInsensitiveLess key val (q_params q)\<rparr>"

definition q_setCookie :: "http_request \<Rightarrow> string \<Rightarrow> string \<Rightarrow> http_request" where
  "q_setCookie q key val = q\<lparr>q_cookies := cmap_assign CaseInsensitiveLess key val (q_cookies q)\<rparr>"

definition q_delHeader :: "http_request \<Rightarrow> string \<Rightarrow> http_request" where
  "q_delHeader q key = q\<lparr>q_headers := cmap_erase CaseInsensitiveLess key (q_headers q)\<rparr>"

definition delParam :: "http_request \<Rightarrow> string \<Rightarrow> http_request" where
  "delParam q key = q\<lparr>q_params := cmap_erase CaseInsensitiveLess key (q_params q)\<rparr>"

definition delCookie :: "http_request \<Rightarrow> string \<Rightarrow> http_request" where
  "delCookie q key = q\<lparr>q_cookies := cmap_erase CaseInsensitiveLess key (q_cookies q)\<rparr>"

text \<open>\<open>hasHeader\<close> and its siblings: the result is whether the key is there and what \<^verbatim>\<open>*val\<close> is then.\<close>

definition hasHeader :: "http_request \<Rightarrow> string \<Rightarrow> string option" where
  "hasHeader q key = cmap_find CaseInsensitiveLess key (q_headers q)"

subsection \<open>Lazy parameters\<close>

text \<open>The macro \<^verbatim>\<open>PARSE_PARAM\<close>; the do-while loop starts at \<open>pos\<close>.\<close>

function PARSE_PARAM :: "string \<Rightarrow> MapType \<Rightarrow> char \<Rightarrow> (string \<Rightarrow> string) \<Rightarrow> nat \<Rightarrow> MapType" where
  "PARSE_PARAM str m flag trim pos =
     (case find_char (CHR ''='') str pos of
        None \<Rightarrow> m
      | Some key \<Rightarrow>
          (case find_char flag str key of
             None \<Rightarrow> cmap_insert CaseInsensitiveLess (trim (substr str pos (key - pos)))
                       (UrlDecode (drop (key + 1) str) True) m
           | Some pos' \<Rightarrow>
               PARSE_PARAM str
                 (cmap_insert CaseInsensitiveLess (trim (substr str pos (key - pos)))
                    (UrlDecode (substr str (key + 1) (pos' - key - 1)) True) m)
                 flag trim (pos' + 1)))"
  by pat_completeness auto

termination
  by (relation "measure (\<lambda>(str, m, flag, trim, pos). length str - pos)") (auto dest!: find_char_bounds)

declare PARSE_PARAM.simps [simp del]

definition default_delimit :: string where
  "default_delimit = [CHR '' '', CHR 0x09, CHR 0x0D, CHR 0x0A]"

definition initQueryParam :: "http_request \<Rightarrow> http_request" where
  "initQueryParam q =
     (if bit (q_parserParamFlag q) 0 then q
      else q\<lparr>q_params := PARSE_PARAM (q_query q) (q_params q) (CHR ''&'') (\<lambda>s. s) 0,
             q_parserParamFlag := or (q_parserParamFlag q) 1\<rparr>)"

definition initBodyParam :: "http_request \<Rightarrow> http_request" where
  "initBodyParam q =
     (if bit (q_parserParamFlag q) 1 then q
      else if \<not> strcasestr (c_str (q_getHeader q ''content-type'' '''')) ''application/x-www-form-urlencoded''
      then q\<lparr>q_parserParamFlag := or (q_parserParamFlag q) 2\<rparr>
      else q\<lparr>q_params := PARSE_PARAM (q_body q) (q_params q) (CHR ''&'') (\<lambda>s. s) 0,
             q_parserParamFlag := or (q_parserParamFlag q) 2\<rparr>)"

definition initCookies :: "http_request \<Rightarrow> http_request" where
  "initCookies q =
     (if bit (q_parserParamFlag q) 2 then q
      else let cookie = q_getHeader q ''cookie'' '''' in
           if cookie = '''' then q\<lparr>q_parserParamFlag := or (q_parserParamFlag q) 4\<rparr>
           else q\<lparr>q_cookies := PARSE_PARAM cookie (q_cookies q) (CHR '';'') (\<lambda>s. Trim s default_delimit) 0,
                  q_parserParamFlag := or (q_parserParamFlag q) 4\<rparr>)"

definition initParam :: "http_request \<Rightarrow> http_request" where
  "initParam q = initCookies (initBodyParam (initQueryParam q))"

definition getParam :: "http_request \<Rightarrow> string \<Rightarrow> string \<Rightarrow> string \<times> http_request" where
  "getParam q key def = (let q' = initBodyParam (initQueryParam q) in (get_or (q_params q') key def, q'))"

definition getCookie :: "http_request \<Rightarrow> string \<Rightarrow> string \<Rightarrow> string \<times> http_request" where
  "getCookie q key def = (let q' = initCookies q in (get_or (q_cookies q') key def, q'))"

definition hasParam :: "http_request \<Rightarrow> string \<Rightarrow> string option \<times> http_request" where
  "hasParam q key =
     (let q' = initBodyParam (initQueryParam q) in (cmap_find CaseInsensitiveLess key (q_params q'), q'))"

definition hasCookie :: "http_request \<Rightarrow> string \<Rightarrow> string option \<times> http_request" where
  "hasCookie q key = (let q' = initCookies q in (cmap_find CaseInsensitiveLess key (q_cookies q'), q'))"

definition q_init :: "http_request \<Rightarrow> http_request" where
  "q_init q =
     (let conn = q_getHeader q ''connection'' '''' in
      if conn \<noteq> '''' then q\<lparr>q_close := (strcasecmp (c_str conn) ''keep-alive'' \<noteq> 0)\<rparr> else q)"

section \<open>Responses\<close>

definition r_getHeader :: "http_response \<Rightarrow> string \<Rightarrow> string \<Rightarrow> string" where
  "r_getHeader r key def = get_or (r_headers r) key def"

definition r_setHeader :: "http_response \<Rightarrow> string \<Rightarrow> string \<Rightarrow> http_response" where
  "r_setHeader r key val = r\<lparr>r_headers := cmap_assign CaseInsensitiveLess key val (r_headers r)\<rparr>"

definition r_delHeader :: "http_response \<Rightarrow> string \<Rightarrow> http_response" where
  "r_delHeader r key = r\<lparr>r_headers := cmap_erase CaseInsensitiveLess key (r_headers r)\<rparr>"

definition setRedirect :: "http_response \<Rightarrow> string \<Rightarrow> http_response" where
  "setRedirect r uri = r_setHeader (r\<lparr>r_status := 302\<rparr>) ''Location'' uri"

text \<open>\<open>Time2Str\<close> prints a time in the format of the source.\<close>

definition r_setCookie ::
    "(int \<Rightarrow> string) \<Rightarrow> http_response \<Rightarrow> string \<Rightarrow> string \<Rightarrow> int \<Rightarrow> string \<Rightarrow> string \<Rightarrow> bool \<Rightarrow> http_response" where
  "r_setCookie Time2Str r key val expired path domain secure =
     r\<lparr>r_cookies := r_cookies r @
        [key @ ''='' @ val
         @ (if expired > 0 then '';expires='' @ Time2Str expired @ '' GMT'' else '''')
         @ (if domain \<noteq> '''' then '';domain='' @ domain else '''')
         @ (if path \<noteq> '''' then '';path='' @ path else '''')
         @ (if secure then '';secure'' else '''')]\<rparr>"

section \<open>Printing\<close>

definition crlf :: string where
  "crlf = [CHR 0x0D, CHR 0x0A]"

definition show_version :: "u8 \<Rightarrow> string" where
  "show_version v = show_nat (unat (drop_bit 4 v)) @ ''.'' @ show_nat (unat (take_bit 4 v))"

text \<open>The enum value is cast to \<^verbatim>\<open>uint32_t\<close>.\<close>

definition show_status :: "int \<Rightarrow> string" where
  "show_status s = show_nat (nat (s mod 2 ^ 32))"

definition dump_headers :: "bool \<Rightarrow> MapType \<Rightarrow> string" where
  "dump_headers websocket m =
     concat (map (\<lambda>(k, v). if \<not> websocket \<and> strcasecmp (c_str k) ''connection'' = 0 then ''''
                           else k @ '': '' @ v @ crlf) m)"

definition dump_connection :: "bool \<Rightarrow> bool \<Rightarrow> string" where
  "dump_connection websocket close =
     (if \<not> websocket then ''connection: '' @ (if close then ''close'' else ''keep-alive'') @ crlf else '''')"

definition dump_body :: "string \<Rightarrow> string" where
  "dump_body body =
     (if body \<noteq> '''' then ''content-length: '' @ show_nat (length body) @ crlf @ crlf @ body else crlf)"

definition q_dump :: "http_request \<Rightarrow> string" where
  "q_dump q =
     HttpMethodToString (q_method q) @ '' '' @ q_path q
     @ (if q_query q = '''' then '''' else ''?'') @ q_query q
     @ (if q_fragment q = '''' then '''' else ''#'') @ q_fragment q
     @ '' HTTP/'' @ show_version (q_version q) @ crlf
     @ dump_connection (q_websocket q) (q_close q)
     @ dump_headers (q_websocket q) (q_headers q)
     @ dump_body (q_body q)"

definition r_dump :: "http_response \<Rightarrow> string" where
  "r_dump r =
     ''HTTP/'' @ show_version (r_version r) @ '' '' @ show_status (r_status r) @ '' ''
     @ (if r_reason r = '''' then HttpStatusToString (r_status r) else r_reason r) @ crlf
     @ dump_headers (r_websocket r) (r_headers r)
     @ concat (map (\<lambda>c. ''Set-Cookie: '' @ c @ crlf) (r_cookies r))
     @ dump_connection (r_websocket r) (r_close r)
     @ dump_body (r_body r)"

section \<open>The header order\<close>

definition ckey :: "string \<Rightarrow> nat list" where
  "ckey s = map (\<lambda>c. of_char (tolower c)) (c_str s)"

lemma of_char_0_iff: "(of_char c :: nat) = 0 \<longleftrightarrow> c = CHR 0x00"
proof -
  have "(of_char (CHR 0x00) :: nat) = 0" by simp
  then show ?thesis by (metis of_char_eq_iff)
qed

lemma tolower_nonzero: "c \<noteq> CHR 0x00 \<Longrightarrow> (0 :: nat) < of_char (tolower c)"
proof -
  assume "c \<noteq> CHR 0x00"
  then have n: "(of_char c :: nat) \<noteq> 0" by (simp add: of_char_0_iff)
  show ?thesis using n by (simp add: tolower_def Let_def of_char_of)
qed

lemma strcasecmp_iff:
  assumes "CHR 0x00 \<notin> set a" "CHR 0x00 \<notin> set b"
  shows "(strcasecmp a b < 0 \<longleftrightarrow> map (\<lambda>c. of_char (tolower c) :: nat) a < map (\<lambda>c. of_char (tolower c)) b)
    \<and> (strcasecmp a b = 0 \<longleftrightarrow> map (\<lambda>c. of_char (tolower c) :: nat) a = map (\<lambda>c. of_char (tolower c)) b)"
  using assms
proof (induction a b rule: strcasecmp.induct)
  case (4 a as b bs)
  then show ?case by (cases "tolower a = tolower b") auto
next
  case (2 b bs)
  then have "(0 :: nat) < of_char (tolower b)" by (intro tolower_nonzero) auto
  then show ?case by simp
next
  case (3 a as)
  then have "(0 :: nat) < of_char (tolower a)" by (intro tolower_nonzero) auto
  then show ?case by simp
qed simp

lemma c_str_no_null: "CHR 0x00 \<notin> set (c_str s)"
  by (auto simp: c_str_def dest: set_takeWhileD)

lemma CaseInsensitiveLess_iff: "CaseInsensitiveLess l r \<longleftrightarrow> ckey l < ckey r"
  using strcasecmp_iff [OF c_str_no_null c_str_no_null] by (simp add: CaseInsensitiveLess_def ckey_def)

interpretation ci: cxx_order CaseInsensitiveLess
  by unfold_locales (auto simp: CaseInsensitiveLess_iff)

lemma ci_eqv: "ci.eqv k k' \<longleftrightarrow> ckey k = ckey k'"
  by (auto simp: ci.eqv_def CaseInsensitiveLess_iff)

lemma find_ckey: "ckey k = ckey k' \<Longrightarrow> cmap_find CaseInsensitiveLess k m = cmap_find CaseInsensitiveLess k' m"
  by (rule ci.find_eqv) (simp add: ci_eqv)

section \<open>Well-formed messages\<close>

definition map_ok :: "MapType \<Rightarrow> bool" where
  "map_ok m \<longleftrightarrow> sorted_wrt CaseInsensitiveLess (map fst m)"

definition request_ok :: "http_request \<Rightarrow> bool" where
  "request_ok q \<longleftrightarrow> map_ok (q_headers q) \<and> map_ok (q_params q) \<and> map_ok (q_cookies q)"

lemma map_ok_ops [simp]:
  "map_ok []"
  "map_ok m \<Longrightarrow> map_ok (cmap_assign CaseInsensitiveLess k v m)"
  "map_ok m \<Longrightarrow> map_ok (cmap_insert CaseInsensitiveLess k v m)"
  "map_ok m \<Longrightarrow> map_ok (cmap_erase CaseInsensitiveLess k m)"
  by (simp_all add: map_ok_def ci.keys_ordered_assign ci.keys_ordered_insert ci.keys_ordered_erase)

lemma PARSE_PARAM_ok: "map_ok m \<Longrightarrow> map_ok (PARSE_PARAM str m flag trim pos)"
proof (induction str m flag trim pos rule: PARSE_PARAM.induct)
  case (1 str m flag trim pos)
  then show ?case by (subst PARSE_PARAM.simps) (auto split: option.splits)
qed

lemma init_ok:
  "request_ok q \<Longrightarrow> request_ok (initQueryParam q)"
  "request_ok q \<Longrightarrow> request_ok (initBodyParam q)"
  "request_ok q \<Longrightarrow> request_ok (initCookies q)"
  by (simp_all add: request_ok_def initQueryParam_def initBodyParam_def initCookies_def Let_def PARSE_PARAM_ok)

lemma get_assign:
  "map_ok m \<Longrightarrow> get_or (cmap_assign CaseInsensitiveLess k v m) k' d = (if ckey k = ckey k' then v else get_or m k' d)"
  unfolding map_ok_def get_or_def using ci.find_assign [of m k' k v] by (simp add: ci_eqv eq_commute)

lemma get_erase:
  "map_ok m \<Longrightarrow> get_or (cmap_erase CaseInsensitiveLess k m) k' d = (if ckey k = ckey k' then d else get_or m k' d)"
  unfolding map_ok_def get_or_def using ci.find_erase [of m k' k] by (simp add: ci_eqv eq_commute)

lemma ci_find_insert:
  "map_ok m \<Longrightarrow> cmap_find CaseInsensitiveLess k' (cmap_insert CaseInsensitiveLess k v m)
     = (if ckey k = ckey k' \<and> cmap_find CaseInsensitiveLess k' m = None then Some v else cmap_find CaseInsensitiveLess k' m)"
  unfolding map_ok_def using ci.find_insert [of m k' k v] by (auto simp: ci_eqv)

section \<open>Parameters\<close>

lemma takeWhile_until: "c \<notin> set k \<Longrightarrow> takeWhile (\<lambda>x. x \<noteq> c) (k @ c # rest) = k"
  by (induction k) auto

lemma takeWhile_absent: "c \<notin> set k \<Longrightarrow> takeWhile (\<lambda>x. x \<noteq> c) k = k"
  by (induction k) auto

lemma find_char_here: "c \<notin> set k \<Longrightarrow> find_char c (pre @ k @ c # rest) (length pre) = Some (length pre + length k)"
  by (simp add: find_char_def takeWhile_until)

lemma find_char_absent: "c \<notin> set s \<Longrightarrow> find_char c (pre @ s) (length pre) = None"
  by (simp add: find_char_def takeWhile_absent)

fun render_params :: "char \<Rightarrow> (string \<times> string) list \<Rightarrow> string" where
  "render_params flag [] = []"
| "render_params flag [(k, v)] = k @ CHR ''='' # UrlEncode v True"
| "render_params flag ((k, v) # kvs) = k @ CHR ''='' # UrlEncode v True @ flag # render_params flag kvs"


lemma encoded_no_sep: "\<not> CHAR_IS_UNRESERVED c \<Longrightarrow> c \<noteq> CHR ''%'' \<Longrightarrow> c \<noteq> CHR ''+'' \<Longrightarrow> c \<notin> set (UrlEncode v True)"
  by (auto simp: UrlEncode_eq dest: enc_char_safe)

lemma separators: "\<not> CHAR_IS_UNRESERVED (CHR ''&'')" "\<not> CHAR_IS_UNRESERVED (CHR '';'')"
  by (simp_all add: CHAR_IS_UNRESERVED_def uri_chars_def)

lemma url_roundtrip: "UrlDecode (UrlEncode v True) True = v"
  by (simp add: UrlEncode_eq UrlDecode_eq url_dec_enc)

lemma parse_last:
  assumes "CHR ''='' \<notin> set k" "flag \<notin> set ev" "flag \<noteq> CHR ''=''"
  shows "PARSE_PARAM (pre @ k @ CHR ''='' # ev) m flag trim (length pre)
    = cmap_insert CaseInsensitiveLess (trim k) (UrlDecode ev True) m"
proof -
  have "find_char (CHR ''='') (pre @ k @ CHR ''='' # ev) (length pre) = Some (length pre + length k)"
    using assms(1) by (rule find_char_here)
  moreover have "find_char flag (pre @ k @ CHR ''='' # ev) (length pre + length k) = None"
    using find_char_absent [of flag "CHR ''='' # ev" "pre @ k"] assms by simp
  ultimately show ?thesis by (subst PARSE_PARAM.simps) (simp add: substr_def)
qed

lemma parse_step:
  assumes "CHR ''='' \<notin> set k" "flag \<notin> set ev" "flag \<noteq> CHR ''=''"
  shows "PARSE_PARAM (pre @ k @ CHR ''='' # ev @ flag # rest) m flag trim (length pre)
    = PARSE_PARAM ((pre @ k @ CHR ''='' # ev @ [flag]) @ rest)
        (cmap_insert CaseInsensitiveLess (trim k) (UrlDecode ev True) m) flag trim (length (pre @ k @ CHR ''='' # ev @ [flag]))"
proof -
  have "find_char (CHR ''='') (pre @ k @ CHR ''='' # ev @ flag # rest) (length pre) = Some (length pre + length k)"
    using assms(1) by (rule find_char_here)
  moreover have "find_char flag (pre @ k @ CHR ''='' # ev @ flag # rest) (length pre + length k)
      = Some (length pre + length k + Suc (length ev))"
    using find_char_here [of flag "CHR ''='' # ev" "pre @ k" rest] assms by simp
  ultimately show ?thesis by (subst PARSE_PARAM.simps) (simp add: substr_def add.assoc)
qed

lemma parse_render:
  assumes "\<forall>(k, v) \<in> set kvs. CHR ''='' \<notin> set k" "flag \<noteq> CHR ''=''" "\<And>v. flag \<notin> set (UrlEncode v True)"
  shows "PARSE_PARAM (pre @ render_params flag kvs) m flag trim (length pre)
    = fold (\<lambda>(k, v). cmap_insert CaseInsensitiveLess (trim k) v) kvs m"
  using assms
proof (induction flag kvs arbitrary: pre m rule: render_params.induct)
  case (1 flag)
  have "find_char (CHR ''='') pre (length pre) = None" by (simp add: find_char_def)
  then show ?case by (subst PARSE_PARAM.simps) simp
next
  case (2 flag k v)
  then have "CHR ''='' \<notin> set k" by simp
  then show ?case using parse_last [OF _ 2(3) [of v] 2(2), of k pre m trim] by (simp add: url_roundtrip)
next
  case (3 flag k v kv kvs)
  have "CHR ''='' \<notin> set k" using 3(2) by auto
  note step = parse_step [OF this 3(4) [of v] 3(3), of pre "render_params flag (kv # kvs)" m trim]
  have "\<forall>(k, v) \<in> set (kv # kvs). CHR ''='' \<notin> set k" using 3(2) by simp
  note IH = 3(1) [OF this 3(3) 3(4)]
  have eq: "pre @ render_params flag ((k, v) # kv # kvs)
      = pre @ k @ CHR ''='' # UrlEncode v True @ flag # render_params flag (kv # kvs)" by simp
  show ?case unfolding eq step IH by (simp add: url_roundtrip)
qed

section \<open>Framing\<close>

text \<open>What a reader that looks for the first empty line takes as the body.\<close>

fun after_blank :: "string \<Rightarrow> string option" where
  "after_blank [] = None"
| "after_blank (c # cs) =
     (if take 4 (c # cs) = crlf @ crlf then Some (drop 4 (c # cs)) else after_blank cs)"

definition lines_text :: "string list \<Rightarrow> string" where
  "lines_text ls = concat (map (\<lambda>l. l @ crlf) ls)"

abbreviation CR :: char where
  "CR \<equiv> CHR 0x0D"

lemma after_blank_line: "CR \<notin> set l \<Longrightarrow> after_blank (l @ s) = after_blank s"
  by (induction l) (auto simp: crlf_def)

lemma after_blank_next:
  assumes "l \<noteq> []" "CR \<notin> set l"
  shows "after_blank (crlf @ l @ s) = after_blank s"
proof -
  obtain c cs where l: "l = c # cs" using assms(1) by (cases l) auto
  have "after_blank (crlf @ l @ s) = after_blank (l @ s)" using assms(2) l by (auto simp: crlf_def)
  then show ?thesis using after_blank_line [OF assms(2)] by simp
qed

definition line_ok :: "string \<Rightarrow> bool" where
  "line_ok l \<longleftrightarrow> l \<noteq> [] \<and> CR \<notin> set l"

lemma after_blank_lines:
  "\<forall>l \<in> set ls. line_ok l \<Longrightarrow> after_blank (crlf @ lines_text ls @ crlf @ body) = Some body"
proof (induction ls)
  case Nil
  then show ?case by (simp add: lines_text_def crlf_def)
next
  case (Cons l ls)
  have "after_blank (crlf @ l @ crlf @ lines_text ls @ crlf @ body) = after_blank (crlf @ lines_text ls @ crlf @ body)"
    using Cons.prems by (intro after_blank_next) (auto simp: line_ok_def)
  then show ?case using Cons by (simp add: lines_text_def)
qed

lemma show_nat_digits: "set (show_nat n) \<subseteq> {c. 48 \<le> (of_char c :: nat) \<and> (of_char c :: nat) \<le> 57}"
proof (induction n rule: show_nat.induct)
  case (1 n)
  then show ?case by (subst show_nat.simps) (auto simp: of_char_of)
qed

lemma show_nat_no_CR: "CR \<notin> set (show_nat n)"
proof
  assume "CR \<in> set (show_nat n)"
  then have "48 \<le> (of_char CR :: nat)" using show_nat_digits by blast
  then show False by simp
qed

lemma table_no_CR:
  "list_all (\<lambda>e. CR \<notin> set (snd e)) HTTP_STATUS_MAP" "list_all (\<lambda>e. CR \<notin> set (snd e)) HTTP_METHOD_MAP"
  by (simp_all add: HTTP_STATUS_MAP_def HTTP_METHOD_MAP_def)

lemma status_no_CR: "CR \<notin> set (HttpStatusToString s)"
proof (cases "map_of HTTP_STATUS_MAP s")
  case None
  then show ?thesis by (simp add: HttpStatusToString_def)
next
  case (Some msg)
  from bspec [OF table_no_CR(1) [unfolded list_all_iff] map_of_SomeD [OF Some]] Some
  show ?thesis by (simp add: HttpStatusToString_def)
qed

lemma method_no_CR: "CR \<notin> set (HttpMethodToString m)"
  using table_no_CR(2) by (auto simp: HttpMethodToString_def Let_def s_method_string_def list_all_iff)

definition text_ok :: "MapType \<Rightarrow> bool" where
  "text_ok m \<longleftrightarrow> (\<forall>(k, v) \<in> set m. CR \<notin> set k \<and> CR \<notin> set v)"

definition header_lines :: "bool \<Rightarrow> MapType \<Rightarrow> string list" where
  "header_lines ws m =
     map (\<lambda>(k, v). k @ '': '' @ v) (filter (\<lambda>(k, v). ws \<or> strcasecmp (c_str k) ''connection'' \<noteq> 0) m)"

lemma dump_headers_lines: "dump_headers ws m = lines_text (header_lines ws m)"
  by (induction m) (auto simp: dump_headers_def header_lines_def lines_text_def)

definition connection_lines :: "bool \<Rightarrow> bool \<Rightarrow> string list" where
  "connection_lines ws close =
     (if ws then [] else [''connection: '' @ (if close then ''close'' else ''keep-alive'')])"

definition length_lines :: "string \<Rightarrow> string list" where
  "length_lines body = (if body = [] then [] else [''content-length: '' @ show_nat (length body)])"

lemma dump_parts:
  "dump_connection ws close = lines_text (connection_lines ws close)"
  "dump_body body = lines_text (length_lines body) @ crlf @ body"
  "concat (map (\<lambda>c. ''Set-Cookie: '' @ c @ crlf) cs) = lines_text (map (\<lambda>c. ''Set-Cookie: '' @ c) cs)"
  by (auto simp: dump_connection_def connection_lines_def lines_text_def dump_body_def length_lines_def comp_def)

lemma lines_text_append: "lines_text (xs @ ys) = lines_text xs @ lines_text ys"
  by (simp add: lines_text_def)

lemma part_lines_ok:
  "text_ok m \<Longrightarrow> \<forall>l \<in> set (header_lines ws m). line_ok l"
  "\<forall>l \<in> set (connection_lines ws close). line_ok l"
  "\<forall>l \<in> set (length_lines body). line_ok l"
  by (auto simp: line_ok_def text_ok_def header_lines_def connection_lines_def length_lines_def show_nat_no_CR)

lemma r_dump_lines:
  "r_dump r = (''HTTP/'' @ show_version (r_version r) @ '' '' @ show_status (r_status r) @ '' ''
       @ (if r_reason r = '''' then HttpStatusToString (r_status r) else r_reason r))
     @ crlf @ lines_text (header_lines (r_websocket r) (r_headers r)
         @ map (\<lambda>c. ''Set-Cookie: '' @ c) (r_cookies r)
         @ connection_lines (r_websocket r) (r_close r) @ length_lines (r_body r)) @ crlf @ r_body r"
  unfolding r_dump_def dump_headers_lines dump_parts lines_text_append by simp

lemma q_dump_lines:
  "q_dump q = (HttpMethodToString (q_method q) @ '' '' @ q_path q
       @ (if q_query q = '''' then '''' else ''?'') @ q_query q
       @ (if q_fragment q = '''' then '''' else ''#'') @ q_fragment q
       @ '' HTTP/'' @ show_version (q_version q))
     @ crlf @ lines_text (connection_lines (q_websocket q) (q_close q)
         @ header_lines (q_websocket q) (q_headers q) @ length_lines (q_body q)) @ crlf @ q_body q"
  by (simp add: q_dump_def dump_headers_lines dump_parts lines_text_append)

lemma sublist_behind: "sublist xs ys \<Longrightarrow> sublist xs (ps @ ys)"
  by (rule sublist_order.order.trans [OF _ sublist_append_leftI])

lemma dump_body_announces:
  "body \<noteq> [] \<Longrightarrow> sublist (''content-length: '' @ show_nat (length body) @ crlf) (dump_body body)"
  using sublist_appendI [of "''content-length: '' @ show_nat (length body) @ crlf" "[]" "crlf @ body"]
  by (simp add: dump_body_def)

lemma show_version_no_CR: "CR \<notin> set (show_version v)"
  by (simp add: show_version_def show_nat_no_CR)

section \<open>Properties\<close>

text \<open>The header map of a request and of a response is a map up to upper and lower case: after
  \<open>setHeader\<close> the key is read back under any spelling and every other key as before, after
  \<open>delHeader\<close> the key is gone, and the maps stay sorted, also those of parameters and cookies.\<close>

theorem header_map_laws:
  assumes "request_ok q" "map_ok (r_headers r)"
  shows "q_getHeader (q_setHeader q k v) k' d = (if ckey k = ckey k' then v else q_getHeader q k' d)
    \<and> q_getHeader (q_delHeader q k) k' d = (if ckey k = ckey k' then d else q_getHeader q k' d)
    \<and> r_getHeader (r_setHeader r k v) k' d = (if ckey k = ckey k' then v else r_getHeader r k' d)
    \<and> r_getHeader (r_delHeader r k) k' d = (if ckey k = ckey k' then d else r_getHeader r k' d)
    \<and> request_ok (q_setHeader q k v) \<and> request_ok (q_delHeader q k) \<and> request_ok (setParam q k v)
    \<and> request_ok (delParam q k) \<and> request_ok (q_setCookie q k v) \<and> request_ok (delCookie q k)
    \<and> request_ok (initParam q) \<and> map_ok (r_headers (r_setHeader r k v)) \<and> map_ok (r_headers (r_delHeader r k))"
  using assms init_ok
  by (simp add: request_ok_def get_assign get_erase q_getHeader_def q_setHeader_def q_delHeader_def
      r_getHeader_def r_setHeader_def r_delHeader_def setParam_def delParam_def q_setCookie_def delCookie_def
      initParam_def)

lemma HttpRequest_ok [simp]: "request_ok (HttpRequest v c)"
  by (simp add: request_ok_def HttpRequest_def)

theorem header_map_laws_witness:
  "q_getHeader (q_setHeader (HttpRequest 0x11 True) ''Host'' ''a'') ''hOST'' ''d'' = ''a''"
proof -
  have "ckey ''Host'' = ckey ''hOST''" by (simp add: ckey_def c_str_def tolower_def)
  then show ?thesis
    using header_map_laws [of "HttpRequest 0x11 True" "HttpResponse 0x11 True" "''Host''" "''a''" "''hOST''" "''d''"]
    by (simp add: HttpResponse_def)
qed

text \<open>A query string that was rendered from key and value pairs with the library's own encoder is
  parsed back: each key gets its first value, values may hold any byte, keys must not contain an
  equals sign. Parameters that were set before the parsing are kept.\<close>

theorem query_parse_render:
  assumes "\<forall>(k, v) \<in> set kvs. CHR ''='' \<notin> set k" "\<not> bit (q_parserParamFlag q) 0"
    "q_query q = render_params (CHR ''&'') kvs"
  shows "q_params (initQueryParam q) = fold (\<lambda>(k, v). cmap_insert CaseInsensitiveLess k v) kvs (q_params q)"
proof -
  have "CHR ''&'' \<notin> set (UrlEncode v True)" for v by (rule encoded_no_sep) (simp_all add: separators)
  then show ?thesis
    using parse_render [OF assms(1), of "CHR ''&''" "[]" "q_params q" "\<lambda>s. s"] assms(2, 3)
    by (simp add: initQueryParam_def)
qed

theorem query_parse_render_witness:
  "q_params (initQueryParam ((HttpRequest 0x11 True)\<lparr>q_query := render_params (CHR ''&'') [(''a'', ''1&2''), (''b'', ''='')]\<rparr>))
     = [(''a'', ''1&2''), (''b'', ''='')]"
  using query_parse_render [of "[(''a'', ''1&2''), (''b'', ''='')]"
      "(HttpRequest 0x11 True)\<lparr>q_query := render_params (CHR ''&'') [(''a'', ''1&2''), (''b'', ''='')]\<rparr>"]
  by (simp add: HttpRequest_def CaseInsensitiveLess_def c_str_def tolower_def)

text \<open>A printed message is framed correctly: when no header text contains a carriage return, the first
  empty line is the one in front of the body, so a reader finds exactly the body there, and a
  non-empty body is announced by a line with its length.\<close>

theorem dump_framing:
  assumes "text_ok (r_headers r)" "\<forall>c \<in> set (r_cookies r). CR \<notin> set c" "CR \<notin> set (r_reason r)"
    "text_ok (q_headers q)" "CR \<notin> set (q_path q)" "CR \<notin> set (q_query q)" "CR \<notin> set (q_fragment q)"
  shows "after_blank (r_dump r) = Some (r_body r) \<and> after_blank (q_dump q) = Some (q_body q)
    \<and> (r_body r \<noteq> [] \<longrightarrow> sublist (''content-length: '' @ show_nat (length (r_body r)) @ crlf) (r_dump r))
    \<and> (q_body q \<noteq> [] \<longrightarrow> sublist (''content-length: '' @ show_nat (length (q_body q)) @ crlf) (q_dump q))"
proof -
  have c: "\<forall>l \<in> set (map (\<lambda>c. ''Set-Cookie: '' @ c) (r_cookies r)). line_ok l"
    using assms(2) by (simp add: line_ok_def)
  have h: "\<forall>l \<in> set (header_lines (r_websocket r) (r_headers r)). line_ok l"
    by (rule part_lines_ok(1) [OF assms(1)])
  have hq: "\<forall>l \<in> set (header_lines (q_websocket q) (q_headers q)). line_ok l"
    by (rule part_lines_ok(1) [OF assms(4)])
  have r: "after_blank (r_dump r) = Some (r_body r)"
    unfolding r_dump_lines
    by (subst after_blank_line, simp_all add: show_version_no_CR show_status_def show_nat_no_CR status_no_CR assms(3))
      (rule after_blank_lines, use c h in \<open>simp add: ball_Un part_lines_ok\<close>)
  have q: "after_blank (q_dump q) = Some (q_body q)"
    unfolding q_dump_lines
    by (subst after_blank_line, simp_all add: show_version_no_CR method_no_CR assms(5-7))
      (rule after_blank_lines, use hq in \<open>simp add: ball_Un part_lines_ok\<close>)
  have "r_body r \<noteq> [] \<Longrightarrow> sublist (''content-length: '' @ show_nat (length (r_body r)) @ crlf) (r_dump r)"
    unfolding r_dump_def by (intro sublist_behind dump_body_announces)
  moreover have "q_body q \<noteq> [] \<Longrightarrow> sublist (''content-length: '' @ show_nat (length (q_body q)) @ crlf) (q_dump q)"
    unfolding q_dump_def by (intro sublist_behind dump_body_announces)
  ultimately show ?thesis using r q by blast
qed

theorem dump_framing_witness:
  "after_blank (r_dump ((HttpResponse 0x11 True)\<lparr>r_body := ''hi'', r_headers := [(''A'', ''b'')]\<rparr>)) = Some ''hi''"
  using dump_framing [of "(HttpResponse 0x11 True)\<lparr>r_body := ''hi'', r_headers := [(''A'', ''b'')]\<rparr>" "HttpRequest 0x11 True"]
  by (simp add: HttpResponse_def HttpRequest_def text_ok_def)

lemma find_unique: "x \<in> set xs \<Longrightarrow> P x \<Longrightarrow> (\<And>y. y \<in> set xs \<Longrightarrow> P y \<Longrightarrow> y = x) \<Longrightarrow> find P xs = Some x"
proof (induction xs)
  case (Cons a xs)
  show ?case
  proof (cases "P a")
    case True
    then have "a = x" using Cons.prems(3) [of a] by simp
    then show ?thesis using True by simp
  next
    case False
    then have "x \<in> set xs" using Cons.prems(1, 2) by auto
    then have "find P xs = Some x" using Cons.prems(2, 3) by (intro Cons.IH) (blast intro: list.set_intros)+
    then show ?thesis using False by simp
  qed
qed simp

lemma method_table:
  "distinct (map fst HTTP_METHOD_MAP)"
  "list_all (\<lambda>e. CHR 0x00 \<notin> set (snd e)) HTTP_METHOD_MAP"
  by (simp_all add: HTTP_METHOD_MAP_def)

lemma method_prefix_free:
  "list_all (\<lambda>e. list_all (\<lambda>e'. prefix (snd e) (snd e') \<longrightarrow> e = e') HTTP_METHOD_MAP) HTTP_METHOD_MAP"
  by (simp add: HTTP_METHOD_MAP_def)

lemma method_unique:
  assumes "(m, name) \<in> set HTTP_METHOD_MAP" "(m', name') \<in> set HTTP_METHOD_MAP"
  shows "prefix name name' \<Longrightarrow> (m', name') = (m, name)" "m = m' \<Longrightarrow> name' = name"
proof -
  show "prefix name name' \<Longrightarrow> (m', name') = (m, name)"
    using method_prefix_free assms by (fastforce simp: list_all_iff)
  show "m = m' \<Longrightarrow> name' = name"
    using eq_key_imp_eq_value [OF method_table(1)] assms by blast
qed

lemma method_string:
  assumes "(m, name) \<in> set HTTP_METHOD_MAP"
  shows "HttpMethodToString m = name"
proof -
  let ?k = "length (takeWhile (\<lambda>e. fst e \<noteq> m) HTTP_METHOD_MAP)"
  have k: "?k < length HTTP_METHOD_MAP"
    using assms by (simp add: takeWhile_all_iff) force
  then have "fst (HTTP_METHOD_MAP ! ?k) = m" using nth_length_takeWhile [of "\<lambda>e. fst e \<noteq> m"] by blast
  moreover have "HTTP_METHOD_MAP ! ?k \<in> set HTTP_METHOD_MAP" using k by simp
  ultimately have "snd (HTTP_METHOD_MAP ! ?k) = name" using method_unique(2) [OF assms] by (metis prod.collapse)
  then show ?thesis using k by (simp add: HttpMethodToString_def HttpMethod_index_def s_method_string_def)
qed

text \<open>Every method name of the table is recognised as its method, by the exact comparison and, in front
  of any further characters, by the comparison of the first bytes: the latter takes a name that only
  starts with a method's name for that method. The printed name is the table's.\<close>

theorem method_names_recognised:
  assumes "(m, name) \<in> set HTTP_METHOD_MAP"
  shows "StringToHttpMethod name = m \<and> HttpMethodToString m = name \<and> CharsToHttpMethod (name @ rest) = m"
proof -
  have nn: "c_str name = name"
    using method_table(2) assms by (force simp: list_all_iff c_str_def takeWhile_eq_all_conv)
  have "find (\<lambda>e. snd e = c_str name) HTTP_METHOD_MAP = Some (m, name)"
  proof (rule find_unique)
    fix e assume "e \<in> set HTTP_METHOD_MAP" "snd e = c_str name"
    then have "(fst e, name) \<in> set HTTP_METHOD_MAP" "e = (fst e, name)" by (metis nn prod.collapse)+
    then show "e = (m, name)" using method_unique(1) [OF assms, of "fst e" name] by simp
  qed (use assms nn in auto)
  moreover have "find (\<lambda>e. take (length (snd e)) (name @ rest) = snd e) HTTP_METHOD_MAP = Some (m, name)"
  proof (rule find_unique)
    fix e assume e: "e \<in> set HTTP_METHOD_MAP" "take (length (snd e)) (name @ rest) = snd e"
    obtain m' name' where [simp]: "e = (m', name')" by force
    have "prefix name name' \<or> prefix name' name"
      using e(2) by (metis prefix_order.refl prefixI prefix_same_cases append_take_drop_id snd_conv \<open>e = (m', name')\<close>)
    then show "e = (m, name)" using method_unique(1) [OF assms, of m' name'] method_unique(1) [of m' name' m name] assms e(1) by auto
  qed (use assms in auto)
  ultimately show ?thesis
    using method_string [OF assms] by (simp add: StringToHttpMethod_def CharsToHttpMethod_def)
qed

theorem method_names_recognised_witness: "CharsToHttpMethod ''GETTER /x'' = GET"
  using method_names_recognised [of GET "''GET''" "''TER /x''"] by (simp add: HTTP_METHOD_MAP_def)

lemma init_done:
  "bit (q_parserParamFlag q) 0 \<Longrightarrow> initQueryParam q = q"
  "bit (q_parserParamFlag q) (Suc 0) \<Longrightarrow> initBodyParam q = q"
  "bit (q_parserParamFlag q) 2 \<Longrightarrow> initCookies q = q"
  by (simp_all add: initQueryParam_def initBodyParam_def initCookies_def)

lemma flag_bits:
  "bit (or x 1 :: u8) 0" "bit (or x 2 :: u8) (Suc 0)" "bit (or x 4 :: u8) 2"
  "bit x n \<Longrightarrow> bit (or x y) n"
  by (simp_all add: bit_or_iff bit_numeral_word_iff)

lemma init_sets:
  "bit (q_parserParamFlag (initQueryParam q)) 0"
  "bit (q_parserParamFlag (initBodyParam q)) (Suc 0)"
  "bit (q_parserParamFlag (initCookies q)) 2"
  by (simp_all add: initQueryParam_def initBodyParam_def initCookies_def Let_def flag_bits)

lemma init_keeps:
  "bit (q_parserParamFlag q) n \<Longrightarrow> bit (q_parserParamFlag (initQueryParam q)) n"
  "bit (q_parserParamFlag q) n \<Longrightarrow> bit (q_parserParamFlag (initBodyParam q)) n"
  "bit (q_parserParamFlag q) n \<Longrightarrow> bit (q_parserParamFlag (initCookies q)) n"
  by (simp_all add: initQueryParam_def initBodyParam_def initCookies_def Let_def flag_bits)

lemma del_flag [simp]:
  "q_parserParamFlag (delParam q k) = q_parserParamFlag q" "q_parserParamFlag (delCookie q k) = q_parserParamFlag q"
  by (simp_all add: delParam_def delCookie_def)

text \<open>Parameters are parsed at most once: a second \<open>initParam\<close> changes nothing, so a parameter or cookie
  that the program deletes after the first access does not come back on the next one.\<close>

theorem params_parsed_once:
  "initParam (initParam q) = initParam q
    \<and> initBodyParam (initQueryParam (delParam (snd (getParam q k d)) k')) = delParam (snd (getParam q k d)) k'
    \<and> initCookies (delCookie (snd (getCookie q k d)) k') = delCookie (snd (getCookie q k d)) k'"
  by (simp add: initParam_def getParam_def getCookie_def Let_def init_done init_sets init_keeps)

end
