(* ===== verification/Sylar_Stream.thy ===== *)
theory Sylar_Stream
  imports Sylar_Prelude
begin

text \<open>
  Streams (\<^verbatim>\<open>src/sylar/stream.cpp\<close>): the loops that read and write a fixed number of bytes on top of the
  virtual \<^verbatim>\<open>read\<close> and \<^verbatim>\<open>write\<close>, which are parameters. \<open>rd s n\<close> is a call \<^verbatim>\<open>read(buffer, n)\<close> in the state
  \<open>s\<close>: its result, the bytes it stored at the start of the buffer and the next state; \<open>wr s bs\<close> is
  \<^verbatim>\<open>write(buffer, n)\<close> with the bytes \<open>bs\<close> in the buffer. The locales say what the callers rely on: a
  positive result is the number of bytes moved and at most what was asked for.
\<close>

section \<open>Loops\<close>

text \<open>Conversions of a \<^verbatim>\<open>size_t\<close> to \<^verbatim>\<open>int64_t\<close> and of the result to \<^verbatim>\<open>int\<close>.\<close>

definition to_int64 :: "int \<Rightarrow> int" where
  "to_int64 n = signed_take_bit 63 n"

definition to_int32 :: "int \<Rightarrow> int" where
  "to_int32 n = signed_take_bit 31 n"

type_synonym ('s, 'b) reader = "'s \<Rightarrow> nat \<Rightarrow> int \<times> 'b list \<times> 's"
type_synonym ('s, 'b) writer = "'s \<Rightarrow> 'b list \<Rightarrow> int \<times> 's"

text \<open>\<open>acc\<close> is what the buffer holds up to \<^verbatim>\<open>offset\<close>.\<close>

function read_fix_loop :: "('s, 'b) reader \<Rightarrow> 's \<Rightarrow> 'b list \<Rightarrow> int \<Rightarrow> int \<Rightarrow> int \<times> 'b list \<times> 's" where
  "read_fix_loop rd s acc left len0 =
     (if left > 0
      then case rd s (nat left) of
             (len, bs, s') \<Rightarrow>
               if len \<le> 0 then (to_int32 len, acc, s')
               else read_fix_loop rd s' (acc @ bs) (left - len) len0
      else (to_int32 len0, acc, s))"
  by pat_completeness auto

termination
  by (relation "measure (\<lambda>(rd, s, acc, left, len0). nat left)") auto

definition readFixSize :: "('s, 'b) reader \<Rightarrow> 's \<Rightarrow> nat \<Rightarrow> int \<times> 'b list \<times> 's" where
  "readFixSize rd s len = read_fix_loop rd s [] (to_int64 (int len)) (int len)"

function write_fix_loop :: "('s, 'b) writer \<Rightarrow> 's \<Rightarrow> 'b list \<Rightarrow> nat \<Rightarrow> int \<Rightarrow> int \<times> 's" where
  "write_fix_loop wr s buf offset left =
     (if left > 0
      then case wr s (take (nat left) (drop offset buf)) of
             (len, s') \<Rightarrow>
               if len \<le> 0 then (to_int32 len, s')
               else write_fix_loop wr s' buf (offset + nat len) (left - len)
      else (to_int32 (int (length buf)), s))"
  by pat_completeness auto

termination
  by (relation "measure (\<lambda>(wr, s, buf, offset, left). nat left)") auto

declare read_fix_loop.simps [simp del] write_fix_loop.simps [simp del]

text \<open>The whole buffer is written: \<^verbatim>\<open>length\<close> is its size at every call.\<close>

definition writeFixSize :: "('s, 'b) writer \<Rightarrow> 's \<Rightarrow> 'b list \<Rightarrow> int \<times> 's" where
  "writeFixSize wr s buf = write_fix_loop wr s buf 0 (to_int64 (int (length buf)))"

lemma to_int64_small: "n < 2 ^ 63 \<Longrightarrow> to_int64 (int n) = int n"
  by (simp add: to_int64_def signed_take_bit_int_eq_self)

lemma to_int32_small: "- (2 ^ 31) \<le> n \<Longrightarrow> n < 2 ^ 31 \<Longrightarrow> to_int32 n = n"
  by (simp add: to_int32_def signed_take_bit_int_eq_self)

section \<open>Interfaces\<close>

text \<open>
  A byte source: \<open>pending s\<close> are the bytes that are still to be delivered. A read that fails
  leaves them as they are.
\<close>

locale byte_source =
  fixes rd :: "('s, 'b) reader" and pending :: "'s \<Rightarrow> 'b list"
  assumes rd_range: "rd s n = (len, bs, s') \<Longrightarrow> 0 < n \<Longrightarrow> - (2 ^ 31) \<le> len \<and> len \<le> int n"
    and rd_moves: "rd s n = (len, bs, s') \<Longrightarrow> 0 < n \<Longrightarrow> 0 < len \<Longrightarrow> int (length bs) = len \<and> pending s = bs @ pending s'"
    and rd_fails: "rd s n = (len, bs, s') \<Longrightarrow> 0 < n \<Longrightarrow> len \<le> 0 \<Longrightarrow> pending s' = pending s"
begin

lemma read_fix_loop_spec:
  assumes "read_fix_loop rd s acc left len0 = (rt, bs, s')"
  shows "\<exists>got. bs = acc @ got \<and> pending s = got @ pending s' \<and>
    ((int (length got) = max left 0 \<and> rt = to_int32 len0)
     \<or> (int (length got) < left \<and> (\<exists>e. e \<le> 0 \<and> - (2 ^ 31) \<le> e \<and> rt = e)))"
  using assms
proof (induction "nat left" arbitrary: s acc left rule: less_induct)
  case less
  show ?case
  proof (cases "left > 0")
    case False
    then show ?thesis using less.prems by (subst (asm) read_fix_loop.simps) auto
  next
    case True
    obtain len b s1 where r: "rd s (nat left) = (len, b, s1)" by (cases "rd s (nat left)") auto
    have range: "- (2 ^ 31) \<le> len \<and> len \<le> left" using rd_range [OF r] True by simp
    show ?thesis
    proof (cases "len \<le> 0")
      case fail: True
      have "bs = acc \<and> rt = to_int32 len \<and> s' = s1"
        using less.prems True r fail by (subst (asm) read_fix_loop.simps) simp
      moreover have "to_int32 len = len" using range fail by (intro to_int32_small) auto
      moreover have "pending s1 = pending s" using rd_fails [OF r] True fail by simp
      ultimately show ?thesis using True range fail by (intro exI [of _ "[]"]) auto
    next
      case False
      have rest: "read_fix_loop rd s1 (acc @ b) (left - len) len0 = (rt, bs, s')"
        using less.prems True r False by (subst (asm) read_fix_loop.simps) simp
      have mv: "int (length b) = len" "pending s = b @ pending s1" using rd_moves [OF r] True False by auto
      have "nat (left - len) < nat left" using True False by simp
      from less.hyps [OF this rest] obtain got where g: "bs = (acc @ b) @ got" "pending s1 = got @ pending s'"
        "(int (length got) = max (left - len) 0 \<and> rt = to_int32 len0)
         \<or> (int (length got) < left - len \<and> rt \<le> 0 \<and> - (2 ^ 31) \<le> rt)" by auto
      show ?thesis
        using g mv range by (intro exI [of _ "b @ got"]) auto
    qed
  qed
qed

lemma readFixSize_spec:
  assumes "readFixSize rd s n = (rt, bs, s')" "0 < n" "n < 2 ^ 31"
  shows "pending s = bs @ pending s' \<and>
    (if 0 < rt then rt = int n \<and> length bs = n else length bs < n)"
proof -
  have e: "to_int64 (int n) = int n" using assms(3) by (simp add: to_int64_small)
  have "to_int32 (int n) = int n" using assms(3) by (simp add: to_int32_small)
  then show ?thesis using read_fix_loop_spec [of s "[]" "int n" "int n"] assms by (auto simp: readFixSize_def e)
qed

lemma readFixSize_result:
  assumes "readFixSize rd s n = (rt, bs, s')" "0 < n" "n < 2 ^ 31" "0 < rt"
  shows "bs = take n (pending s)" "pending s' = drop n (pending s)"
  using readFixSize_spec [OF assms(1-3)] assms(4) by auto

end

text \<open>A byte sink: \<open>sent s\<close> are the bytes that were taken so far.\<close>

locale byte_sink =
  fixes wr :: "('s, 'b) writer" and sent :: "'s \<Rightarrow> 'b list"
  assumes wr_range: "wr s bs = (len, s') \<Longrightarrow> bs \<noteq> [] \<Longrightarrow> - (2 ^ 31) \<le> len \<and> len \<le> int (length bs)"
    and wr_moves: "wr s bs = (len, s') \<Longrightarrow> bs \<noteq> [] \<Longrightarrow> sent s' = sent s @ take (nat len) bs"
begin

lemma write_fix_loop_spec:
  assumes "write_fix_loop wr s buf offset left = (rt, s')" "int (length buf) = int offset + left" "0 \<le> left"
  shows "\<exists>k \<le> nat left. sent s' = sent s @ take k (drop offset buf) \<and>
    ((k = nat left \<and> rt = to_int32 (int (length buf))) \<or> (k < nat left \<and> rt \<le> 0))"
  using assms
proof (induction "nat left" arbitrary: s offset left rule: less_induct)
  case less
  show ?case
  proof (cases "left > 0")
    case False
    then show ?thesis using less.prems by (subst (asm) write_fix_loop.simps) (auto intro!: exI [of _ 0])
  next
    case True
    let ?c = "take (nat left) (drop offset buf)"
    have c: "?c = drop offset buf" "length ?c = nat left" using less.prems True by auto
    have ne: "?c \<noteq> []" using c(2) True by (metis list.size(3) zero_less_nat_eq less_irrefl)
    obtain len s1 where r: "wr s ?c = (len, s1)" by (cases "wr s ?c") auto
    have range: "- (2 ^ 31) \<le> len" "len \<le> left" using wr_range [OF r ne] c True by auto
    have mv: "sent s1 = sent s @ take (nat len) (drop offset buf)" using wr_moves [OF r ne] c by simp
    show ?thesis
    proof (cases "len \<le> 0")
      case fail: True
      then have "rt = to_int32 len \<and> s' = s1"
        using less.prems(1) True r by (subst (asm) write_fix_loop.simps) simp
      moreover have "to_int32 len = len" using range fail by (intro to_int32_small) auto
      ultimately show ?thesis using mv fail True by (intro exI [of _ 0]) auto
    next
      case False
      have rest: "write_fix_loop wr s1 buf (offset + nat len) (left - len) = (rt, s')"
        using less.prems(1) True r False by (subst (asm) write_fix_loop.simps) simp
      have m: "nat (left - len) < nat left" using True False by simp
      have "int (length buf) = int (offset + nat len) + (left - len)" "0 \<le> left - len"
        using less.prems(2) range False by auto
      from less.hyps [OF m rest this] obtain k where k: "k \<le> nat (left - len)"
        "sent s' = sent s1 @ take k (drop (offset + nat len) buf)"
        "(k = nat (left - len) \<and> rt = to_int32 (int (length buf))) \<or> (k < nat (left - len) \<and> rt \<le> 0)" by auto
      have "take (nat len + k) (drop offset buf) = take (nat len) (drop offset buf) @ take k (drop (offset + nat len) buf)"
    by (metis take_add drop_drop add.commute)
      then show ?thesis using k mv range False by (intro exI [of _ "nat len + k"]) auto
    qed
  qed
qed

lemma writeFixSize_spec:
  assumes "writeFixSize wr s buf = (rt, s')" "length buf < 2 ^ 31"
  shows "\<exists>k \<le> length buf. sent s' = sent s @ take k buf \<and>
    (if 0 < rt \<or> buf = [] then k = length buf \<and> rt = int (length buf) else k < length buf)"
proof -
  have e: "to_int64 (int (length buf)) = int (length buf)" using assms(2) by (simp add: to_int64_small)
  have t: "to_int32 (int (length buf)) = int (length buf)" using assms(2) by (simp add: to_int32_small)
  from write_fix_loop_spec [of s buf 0 "int (length buf)" rt s'] assms(1) e
  obtain k where "k \<le> length buf" "sent s' = sent s @ take k buf"
    "(k = length buf \<and> rt = int (length buf)) \<or> (k < length buf \<and> rt \<le> 0)"
    by (auto simp: writeFixSize_def t)
  then show ?thesis by (intro exI [of _ k]) auto
qed

end

end
