(* ===== verification/Sylar_Address.thy ===== *)
theory Sylar_Address
  imports Sylar_Serial Sylar_Util Sylar_Containers "HOL-Library.List_Lexorder"
begin

unbundle bit_operations_syntax

text \<open>
  Socket addresses (\<^verbatim>\<open>src/sylar/address.cpp\<close>): IPv4, IPv6, unix domain and unknown addresses, the masks
  of a prefix, the byte-wise order, the splitting of a host string into node and service. Ports and
  IPv4 addresses are kept as the structs keep them, in network byte order. \<^verbatim>\<open>getaddrinfo\<close>,
  \<^verbatim>\<open>getifaddrs\<close> and \<^verbatim>\<open>inet_pton\<close> are parameters. Undefined behaviour of C++ (a shift by the width, a
  signed overflow, an index out of range, a null pointer) is an error value.
\<close>

section \<open>Data\<close>

datatype addr_error = PathTooLong | UndefinedShift | IndexOutOfRange | NullPointer

record sockaddr_in =
  sin_family :: u16
  sin_port :: u16
  sin_addr :: u32
  sin_zero :: "u8 list"

record sockaddr_in6 =
  sin6_family :: u16
  sin6_port :: u16
  sin6_flowinfo :: u32
  sin6_addr :: "u8 list"
  sin6_scope_id :: u32

record sockaddr_un =
  sun_family :: u16
  sun_path :: string

record sockaddr_gen =
  sa_family :: u16
  sa_data :: "u8 list"

text \<open>A \<^verbatim>\<open>sockaddr\<close> of the system, its layout decided by its family.\<close>

datatype sockaddr = SIn sockaddr_in | SIn6 sockaddr_in6 | SGen sockaddr_gen

datatype Address =
    IPv4Address sockaddr_in
  | IPv6Address sockaddr_in6
  | UnixAddress sockaddr_un nat
  | UnknownAddress sockaddr_gen

definition AF_UNSPEC :: u16 where "AF_UNSPEC = 0"
definition AF_UNIX :: u16 where "AF_UNIX = 1"
definition AF_INET :: u16 where "AF_INET = 2"
definition AF_INET6 :: u16 where "AF_INET6 = 10"

section \<open>Masks\<close>

text \<open>\<^verbatim>\<open>CreateMask<T>(bits)\<close> with \<open>w\<close> the bits of \<^verbatim>\<open>T\<close>; the shift and the subtraction are done in \<^verbatim>\<open>int\<close>.\<close>

definition CreateMask :: "nat \<Rightarrow> nat \<Rightarrow> int option" where
  "CreateMask w bits = (if bits \<le> w \<and> w - bits < 31 then Some (2 ^ (w - bits) - 1) else None)"

function CountBytes :: "'a::len word \<Rightarrow> nat" where
  "CountBytes value = (if value \<noteq> 0 then Suc (CountBytes (value AND (value - 1))) else 0)"
  by pat_completeness auto

termination
proof (relation "measure unat")
  fix v :: "'a word" assume "v \<noteq> 0"
  have "unat (v AND (v - 1)) \<le> unat (v - 1)" by (simp add: word_le_nat_alt [symmetric] word_and_le1)
  also have "\<dots> < unat v" using \<open>v \<noteq> 0\<close> by (simp add: unat_minus_one unat_gt_0)
  finally show "(v AND (v - 1), v) \<in> measure unat" by simp
qed simp

declare CountBytes.simps [simp del]

section \<open>IPv4\<close>

definition IPv4Address_new :: "u32 \<Rightarrow> u16 \<Rightarrow> sockaddr_in" where
  "IPv4Address_new address port =
     \<lparr>sin_family = AF_INET, sin_port = byteswapOnLittleEndian 2 port,
      sin_addr = byteswapOnLittleEndian 4 address, sin_zero = replicate 8 0\<rparr>"

text \<open>\<open>inet_pton\<close> gives the address in network order, or nothing for a malformed one.\<close>

definition IPv4Address_Create :: "(string \<Rightarrow> u32 option) \<Rightarrow> string \<Rightarrow> u16 \<Rightarrow> sockaddr_in option" where
  "IPv4Address_Create inet_pton address port =
     (case inet_pton address of
        None \<Rightarrow> None
      | Some a \<Rightarrow> Some ((IPv4Address_new 0 0)\<lparr>sin_port := byteswapOnLittleEndian 2 port, sin_addr := a\<rparr>))"

definition IPv4_insert :: "sockaddr_in \<Rightarrow> string" where
  "IPv4_insert m =
     (let a = byteswapOnLittleEndian 4 (sin_addr m) in
      show_nat (unat (drop_bit 24 a AND 0xff)) @ ''.'' @ show_nat (unat (drop_bit 16 a AND 0xff)) @ ''.''
      @ show_nat (unat (drop_bit 8 a AND 0xff)) @ ''.'' @ show_nat (unat (a AND 0xff))
      @ '':'' @ show_nat (unat (byteswapOnLittleEndian 2 (sin_port m))))"

definition IPv4_broadcastAddress :: "sockaddr_in \<Rightarrow> nat \<Rightarrow> addr_error + sockaddr_in option" where
  "IPv4_broadcastAddress m prefix_len =
     (if prefix_len > 32 then Inr None
      else case CreateMask 32 prefix_len of
             None \<Rightarrow> Inl UndefinedShift
           | Some k \<Rightarrow> Inr (Some (m\<lparr>sin_addr := sin_addr m OR byteswapOnLittleEndian 4 (of_int k)\<rparr>)))"

definition IPv4_networdAddress :: "sockaddr_in \<Rightarrow> nat \<Rightarrow> addr_error + sockaddr_in option" where
  "IPv4_networdAddress m prefix_len =
     (if prefix_len > 32 then Inr None
      else case CreateMask 32 prefix_len of
             None \<Rightarrow> Inl UndefinedShift
           | Some k \<Rightarrow> Inr (Some (m\<lparr>sin_addr := sin_addr m AND byteswapOnLittleEndian 4 (of_int k)\<rparr>)))"

definition IPv4_subnetMask :: "nat \<Rightarrow> addr_error + sockaddr_in" where
  "IPv4_subnetMask prefix_len =
     (case CreateMask 32 prefix_len of
        None \<Rightarrow> Inl UndefinedShift
      | Some k \<Rightarrow> Inr \<lparr>sin_family = AF_INET, sin_port = 0,
            sin_addr = NOT (byteswapOnLittleEndian 4 (of_int k)), sin_zero = replicate 8 0\<rparr>)"

definition IPv4_getPort :: "sockaddr_in \<Rightarrow> u16" where
  "IPv4_getPort m = byteswapOnLittleEndian 2 (sin_port m)"

definition IPv4_setPort :: "sockaddr_in \<Rightarrow> u16 \<Rightarrow> sockaddr_in" where
  "IPv4_setPort m v = m\<lparr>sin_port := byteswapOnLittleEndian 2 v\<rparr>"

section \<open>IPv6\<close>

definition IPv6Address_default :: sockaddr_in6 where
  "IPv6Address_default =
     \<lparr>sin6_family = AF_INET6, sin6_port = 0, sin6_flowinfo = 0, sin6_addr = replicate 16 0, sin6_scope_id = 0\<rparr>"

definition IPv6Address_new :: "u8 list \<Rightarrow> u16 \<Rightarrow> sockaddr_in6" where
  "IPv6Address_new address port =
     IPv6Address_default\<lparr>sin6_port := byteswapOnLittleEndian 2 port, sin6_addr := take 16 address\<rparr>"

definition IPv6Address_Create :: "(string \<Rightarrow> u8 list option) \<Rightarrow> string \<Rightarrow> u16 \<Rightarrow> sockaddr_in6 option" where
  "IPv6Address_Create inet_pton address port =
     (case inet_pton address of
        None \<Rightarrow> None
      | Some a \<Rightarrow> Some (IPv6Address_default\<lparr>sin6_port := byteswapOnLittleEndian 2 port, sin6_addr := a\<rparr>))"

text \<open>The eight groups as \<^verbatim>\<open>uint16_t\<close> of the host, and the hexadecimal printing.\<close>

definition groups6 :: "u8 list \<Rightarrow> u16 list" where
  "groups6 a = map (\<lambda>i. of_le_bytes [a ! (2 * i), a ! (2 * i + 1)]) [0..<8]"

fun show_hex :: "nat \<Rightarrow> string" where
  "show_hex n = (if n < 16 then [''0123456789abcdef'' ! n] else show_hex (n div 16) @ [''0123456789abcdef'' ! (n mod 16)])"

declare show_hex.simps [simp del]

function insert6_loop :: "u16 list \<Rightarrow> nat \<Rightarrow> bool \<Rightarrow> string \<Rightarrow> bool \<times> string" where
  "insert6_loop addr i used_zeros os =
     (if i < 8
      then if addr ! i = 0 \<and> \<not> used_zeros then insert6_loop addr (Suc i) used_zeros os
           else let z = (i \<noteq> 0 \<and> addr ! (i - 1) = 0 \<and> \<not> used_zeros);
                    os1 = (if z then os @ '':'' else os);
                    os2 = (if i \<noteq> 0 then os1 @ '':'' else os1)
                in insert6_loop addr (Suc i) (used_zeros \<or> z)
                     (os2 @ show_hex (unat (byteswapOnLittleEndian 2 (addr ! i))))
      else (used_zeros, os))"
  by pat_completeness auto

termination
  by (relation "measure (\<lambda>(addr, i, used_zeros, os). 8 - i)") auto

declare insert6_loop.simps [simp del]

definition IPv6_insert :: "sockaddr_in6 \<Rightarrow> string" where
  "IPv6_insert m =
     (let addr = groups6 (sin6_addr m);
          (used_zeros, os) = insert6_loop addr 0 False ''['';
          os' = (if \<not> used_zeros \<and> addr ! 7 = 0 then os @ ''::'' else os)
      in os' @ '']:'' @ show_nat (unat (byteswapOnLittleEndian 2 (sin6_port m))))"

text \<open>\<open>prefix_len\<close> 128 and above index behind the sixteen bytes.\<close>

definition mask6 :: "nat \<Rightarrow> u8" where
  "mask6 prefix_len = of_int (the (CreateMask 8 (prefix_len mod 8)))"

definition IPv6_broadcastAddress :: "sockaddr_in6 \<Rightarrow> nat \<Rightarrow> addr_error + sockaddr_in6" where
  "IPv6_broadcastAddress m prefix_len =
     (let k = prefix_len div 8; a = sin6_addr m in
      if k \<ge> 16 then Inl IndexOutOfRange
      else Inr (m\<lparr>sin6_addr := take k a @ [a ! k OR mask6 prefix_len] @ replicate (15 - k) 0xff\<rparr>))"

definition IPv6_networdAddress :: "sockaddr_in6 \<Rightarrow> nat \<Rightarrow> addr_error + sockaddr_in6" where
  "IPv6_networdAddress m prefix_len =
     (let k = prefix_len div 8; a = sin6_addr m in
      if k \<ge> 16 then Inl IndexOutOfRange
      else Inr (m\<lparr>sin6_addr := take k a @ [a ! k AND mask6 prefix_len] @ replicate (15 - k) 0\<rparr>))"

definition IPv6_subnetMask :: "nat \<Rightarrow> addr_error + sockaddr_in6" where
  "IPv6_subnetMask prefix_len =
     (let k = prefix_len div 8 in
      if k \<ge> 16 then Inl IndexOutOfRange
      else Inr (IPv6Address_default\<lparr>sin6_addr := replicate k 0xff @ [NOT (mask6 prefix_len)] @ replicate (15 - k) 0\<rparr>))"

definition IPv6_getPort :: "sockaddr_in6 \<Rightarrow> u16" where
  "IPv6_getPort m = byteswapOnLittleEndian 2 (sin6_port m)"

definition IPv6_setPort :: "sockaddr_in6 \<Rightarrow> u16 \<Rightarrow> sockaddr_in6" where
  "IPv6_setPort m v = m\<lparr>sin6_port := byteswapOnLittleEndian 2 v\<rparr>"

section \<open>Unix domain\<close>

definition sun_path_size :: nat where
  "sun_path_size = 108"

definition sun_path_offset :: nat where
  "sun_path_offset = 2"

definition MAX_PATH_LEN :: nat where
  "MAX_PATH_LEN = sun_path_size - 1"

definition UnixAddress_default :: Address where
  "UnixAddress_default =
     UnixAddress \<lparr>sun_family = AF_UNIX, sun_path = replicate sun_path_size (CHR 0x00)\<rparr> (sun_path_offset + MAX_PATH_LEN)"

definition UnixAddress_path :: "string \<Rightarrow> addr_error + Address" where
  "UnixAddress_path path =
     (let m_length = (if path \<noteq> [] \<and> hd path = CHR 0x00 then length path else length path + 1) in
      if m_length > sun_path_size then Inl PathTooLong
      else Inr (UnixAddress
             \<lparr>sun_family = AF_UNIX,
              sun_path = take m_length (path @ [CHR 0x00]) @ replicate (sun_path_size - m_length) (CHR 0x00)\<rparr>
             (m_length + sun_path_offset)))"

definition setAddrLen :: "Address \<Rightarrow> nat \<Rightarrow> Address" where
  "setAddrLen a v = (case a of UnixAddress m _ \<Rightarrow> UnixAddress m v | _ \<Rightarrow> a)"

text \<open>\<^verbatim>\<open>getPath\<close>, which \<^verbatim>\<open>insert\<close> prints too.\<close>

definition getPath :: "sockaddr_un \<Rightarrow> nat \<Rightarrow> string" where
  "getPath m m_length =
     (if m_length > sun_path_offset \<and> sun_path m ! 0 = CHR 0x00
      then [CHR 0x5C, CHR ''0''] @ take (m_length - sun_path_offset - 1) (drop 1 (sun_path m))
      else c_str (sun_path m))"

section \<open>All addresses\<close>

definition UnknownAddress_family :: "u16 \<Rightarrow> Address" where
  "UnknownAddress_family family = UnknownAddress \<lparr>sa_family = family, sa_data = replicate 14 0\<rparr>"

definition getFamily :: "Address \<Rightarrow> u16" where
  "getFamily a =
     (case a of IPv4Address m \<Rightarrow> sin_family m | IPv6Address m \<Rightarrow> sin6_family m
      | UnixAddress m _ \<Rightarrow> sun_family m | UnknownAddress m \<Rightarrow> sa_family m)"

definition getAddrLen :: "Address \<Rightarrow> nat" where
  "getAddrLen a = (case a of IPv4Address _ \<Rightarrow> 16 | IPv6Address _ \<Rightarrow> 28 | UnixAddress _ n \<Rightarrow> n | UnknownAddress _ \<Rightarrow> 16)"

text \<open>The memory behind \<^verbatim>\<open>getAddr()\<close>.\<close>

definition getAddr :: "Address \<Rightarrow> u8 list" where
  "getAddr a =
     (case a of
        IPv4Address m \<Rightarrow> le_bytes 2 (sin_family m) @ le_bytes 2 (sin_port m) @ le_bytes 4 (sin_addr m) @ sin_zero m
      | IPv6Address m \<Rightarrow> le_bytes 2 (sin6_family m) @ le_bytes 2 (sin6_port m) @ le_bytes 4 (sin6_flowinfo m)
                        @ sin6_addr m @ le_bytes 4 (sin6_scope_id m)
      | UnixAddress m _ \<Rightarrow> le_bytes 2 (sun_family m) @ map (\<lambda>c. of_nat (of_char c)) (sun_path m)
      | UnknownAddress m \<Rightarrow> le_bytes 2 (sa_family m) @ sa_data m)"

fun memcmp :: "nat \<Rightarrow> u8 list \<Rightarrow> u8 list \<Rightarrow> int" where
  "memcmp 0 xs ys = 0"
| "memcmp (Suc n) (x # xs) (y # ys) = (if x = y then memcmp n xs ys else uint x - uint y)"
| "memcmp (Suc n) xs ys = 0"

definition Address_less :: "Address \<Rightarrow> Address \<Rightarrow> bool" where
  "Address_less l r =
     (let minlen = min (getAddrLen l) (getAddrLen r);
          result = memcmp minlen (getAddr l) (getAddr r)
      in if result < 0 then True else if result > 0 then False else getAddrLen l < getAddrLen r)"

definition Address_eq :: "Address \<Rightarrow> Address \<Rightarrow> bool" where
  "Address_eq l r \<longleftrightarrow> getAddrLen l = getAddrLen r \<and> memcmp (getAddrLen l) (getAddr l) (getAddr r) = 0"

definition Address_Create :: "sockaddr option \<Rightarrow> Address option" where
  "Address_Create addr =
     (case addr of
        None \<Rightarrow> None
      | Some (SIn m) \<Rightarrow> Some (IPv4Address m)
      | Some (SIn6 m) \<Rightarrow> Some (IPv6Address m)
      | Some (SGen m) \<Rightarrow> Some (UnknownAddress m))"

definition Address_toString :: "Address \<Rightarrow> string" where
  "Address_toString a =
     (case a of IPv4Address m \<Rightarrow> IPv4_insert m | IPv6Address m \<Rightarrow> IPv6_insert m | UnixAddress m n \<Rightarrow> getPath m n
      | UnknownAddress m \<Rightarrow> ''[UnknownAddress family='' @ show_nat (unat (sa_family m)) @ '']'')"

section \<open>Lookup\<close>

text \<open>The node and the service that \<^verbatim>\<open>Lookup\<close> passes to \<^verbatim>\<open>getaddrinfo\<close>.\<close>

definition lookup_split :: "string \<Rightarrow> string \<times> string option" where
  "lookup_split host =
     (let (node, service) =
        (if host \<noteq> [] \<and> host ! 0 = CHR ''[''
         then case find_char (CHR '']'') host 1 of
                None \<Rightarrow> ([], None)
              | Some e \<Rightarrow> (substr host 1 (e - 1),
                           if e + 1 < length host \<and> host ! (e + 1) = CHR '':'' then Some (drop (e + 2) host) else None)
         else ([], None));
          (node', service') =
        (if node = []
         then case find_char (CHR '':'') host 0 of
                None \<Rightarrow> ([], None)
              | Some k \<Rightarrow> if find_char (CHR '':'') host (k + 1) = None
                          then (substr host 0 k, Some (drop (k + 1) host))
                          else ([], Some (drop k host))
         else (node, service))
      in (if node' = [] then host else node', service'))"

definition Lookup :: "(string \<Rightarrow> string option \<Rightarrow> sockaddr list option) \<Rightarrow> Address list \<Rightarrow> string \<Rightarrow> bool \<times> Address list" where
  "Lookup getaddrinfo result host =
     (let (node, service) = lookup_split host in
      case getaddrinfo (c_str node) (map_option c_str service) of
        None \<Rightarrow> (False, result)
      | Some rs \<Rightarrow> let result' = result @ map (\<lambda>a. the (Address_Create (Some a))) rs in (result' \<noteq> [], result'))"

definition LookupAny :: "(string \<Rightarrow> string option \<Rightarrow> sockaddr list option) \<Rightarrow> string \<Rightarrow> Address option" where
  "LookupAny getaddrinfo host =
     (case Lookup getaddrinfo [] host of (ok, result) \<Rightarrow> if ok then Some (result ! 0) else None)"

definition is_ip :: "Address \<Rightarrow> bool" where
  "is_ip a = (case a of IPv4Address _ \<Rightarrow> True | IPv6Address _ \<Rightarrow> True | _ \<Rightarrow> False)"

definition LookupAnyIPAddress :: "(string \<Rightarrow> string option \<Rightarrow> sockaddr list option) \<Rightarrow> string \<Rightarrow> Address option" where
  "LookupAnyIPAddress getaddrinfo host =
     (case Lookup getaddrinfo [] host of (ok, result) \<Rightarrow> if ok then find is_ip result else None)"

definition IPAddress_Create :: "(string \<Rightarrow> sockaddr list option) \<Rightarrow> string \<Rightarrow> u16 \<Rightarrow> Address option" where
  "IPAddress_Create getaddrinfo address port =
     (case getaddrinfo address of
        Some (r # _) \<Rightarrow> (case Address_Create (Some r) of
            Some (IPv4Address m) \<Rightarrow> Some (IPv4Address (IPv4_setPort m port))
          | Some (IPv6Address m) \<Rightarrow> Some (IPv6Address (IPv6_setPort m port))
          | _ \<Rightarrow> None)
      | _ \<Rightarrow> None)"

section \<open>Interfaces of the machine\<close>

text \<open>An entry of \<^verbatim>\<open>getifaddrs\<close>: the name, the address (possibly null) and the netmask.\<close>

record ifaddr =
  ifa_name :: string
  ifa_addr :: "sockaddr option"
  ifa_netmask :: "sockaddr option"

definition sockaddr_family :: "sockaddr \<Rightarrow> u16" where
  "sockaddr_family a = (case a of SIn m \<Rightarrow> sin_family m | SIn6 m \<Rightarrow> sin6_family m | SGen m \<Rightarrow> sa_family m)"

definition iface_entry :: "ifaddr \<Rightarrow> addr_error + (Address \<times> nat) option" where
  "iface_entry e =
     (case (ifa_addr e, ifa_netmask e) of
        (Some (SIn m), Some (SIn k)) \<Rightarrow> Inr (Some (IPv4Address m, CountBytes (sin_addr k)))
      | (Some (SIn6 m), Some (SIn6 k)) \<Rightarrow> Inr (Some (IPv6Address m, sum_list (map CountBytes (sin6_addr k))))
      | (Some (SGen m), _) \<Rightarrow> Inr None
      | _ \<Rightarrow> Inl NullPointer)"

fun iface_loop :: "u16 \<Rightarrow> ifaddr list \<Rightarrow> (string \<times> Address \<times> nat) list \<Rightarrow> addr_error + (string \<times> Address \<times> nat) list" where
  "iface_loop family [] result = Inr result"
| "iface_loop family (e # es) result =
     (case ifa_addr e of
        None \<Rightarrow> Inl NullPointer
      | Some a \<Rightarrow>
          if family \<noteq> AF_UNSPEC \<and> family \<noteq> sockaddr_family a then iface_loop family es result
          else case iface_entry e of
                 Inl err \<Rightarrow> Inl err
               | Inr None \<Rightarrow> iface_loop family es result
               | Inr (Some ap) \<Rightarrow> iface_loop family es (result @ [(ifa_name e, ap)]))"

definition GetInterfaceAddresses :: "ifaddr list option \<Rightarrow> u16 \<Rightarrow> addr_error + bool \<times> (string \<times> Address \<times> nat) list" where
  "GetInterfaceAddresses ifs family =
     (case ifs of
        None \<Rightarrow> Inr (False, [])
      | Some es \<Rightarrow> bindE (iface_loop family es []) (\<lambda>result. Inr (result \<noteq> [], result)))"

definition GetInterfaceAddresses_of ::
    "ifaddr list option \<Rightarrow> string \<Rightarrow> u16 \<Rightarrow> addr_error + bool \<times> (Address \<times> nat) list" where
  "GetInterfaceAddresses_of ifs iface family =
     (if iface = '''' \<or> iface = ''*''
      then Inr (True, (if family = AF_INET \<or> family = AF_UNSPEC then [(IPv4Address (IPv4Address_new 0 0), 0)] else [])
                    @ (if family = AF_INET6 \<or> family = AF_UNSPEC then [(IPv6Address IPv6Address_default, 0)] else []))
      else bindE (GetInterfaceAddresses ifs family) (\<lambda>(ok, results).
             if \<not> ok then Inr (False, [])
             else let r = map snd (filter (\<lambda>e. fst e = iface) results) in Inr (r \<noteq> [], r)))"

section \<open>Byte order and bitwise operations\<close>

lemma bit_byteswap:
  assumes "LENGTH('a) = 8 * n"
  shows "bit (byteswap n v :: 'a::len word) k \<longleftrightarrow> k < 8 * n \<and> bit v (8 * (n - 1 - k div 8) + k mod 8)"
proof (cases "k < 8 * n")
  case True
  then have "k div 8 < n" by (simp add: div_less_iff_less_mult mult.commute)
  then have "rev (le_bytes n v) ! (k div 8) = (ucast (drop_bit (8 * (n - 1 - k div 8)) v) :: u8)"
    by (simp add: rev_nth le_bytes_def)
  then show ?thesis using True assms \<open>k div 8 < n\<close>
    by (simp add: byteswap_def bit_of_le_bytes bit_simps add.commute) (auto simp: bit_simps)
next
  case False
  then show ?thesis using assms by (simp add: byteswap_def bit_of_le_bytes)
qed

lemma byteswap_bitwise:
  assumes "LENGTH('a) = 8 * n"
  shows "byteswap n (x OR y :: 'a::len word) = byteswap n x OR byteswap n y"
    "byteswap n (x AND y :: 'a word) = byteswap n x AND byteswap n y"
    "byteswap n (NOT x :: 'a word) = NOT (byteswap n x)"
proof -
  have in_range: "8 * (n - Suc (k div 8)) + k mod 8 < 8 * n" if "k < 8 * n" for k
  proof -
    have "k div 8 < n" using that by (simp add: div_less_iff_less_mult mult.commute)
    then show ?thesis using mod_less_divisor [of 8 k] by linarith
  qed
  show "byteswap n (x OR y :: 'a::len word) = byteswap n x OR byteswap n y"
    "byteswap n (x AND y :: 'a word) = byteswap n x AND byteswap n y"
    "byteswap n (NOT x :: 'a word) = NOT (byteswap n x)"
    using in_range assms by (auto intro!: bit_eqI simp: bit_byteswap [OF assms] bit_simps possible_bit_word)
qed

abbreviation host_order :: "u32 \<Rightarrow> u32" where
  "host_order \<equiv> byteswapOnLittleEndian 4"

lemma host_order_simps [simp]:
  "host_order (x OR y) = host_order x OR host_order y"
  "host_order (x AND y) = host_order x AND host_order y"
  "host_order (NOT x) = NOT (host_order x)"
  "host_order (host_order x) = x"
  by (simp_all add: byteswapOnLittleEndian_def SYLAR_BYTE_ORDER_def byteswap_bitwise byteswap_byteswap)

lemma CreateMask_32: "2 \<le> p \<Longrightarrow> p \<le> 32 \<Longrightarrow> \<exists>k. CreateMask 32 p = Some k \<and> (of_int k :: u32) = mask (32 - p)"
  by (auto simp: CreateMask_def mask_eq_exp_minus_1)

lemma port_roundtrip: "IPv4_getPort (IPv4_setPort m v) = v" "IPv6_getPort (IPv6_setPort m6 v) = v"
  by (simp_all add: IPv4_getPort_def IPv4_setPort_def IPv6_getPort_def IPv6_setPort_def byteswapOnLittleEndian_def
      byteswap_byteswap)

section \<open>Order\<close>

text \<open>The bytes that take part in a comparison.\<close>

definition addr_bytes :: "Address \<Rightarrow> u8 list" where
  "addr_bytes a = take (getAddrLen a) (getAddr a)"

definition addr_wf :: "Address \<Rightarrow> bool" where
  "addr_wf a \<longleftrightarrow> getAddrLen a \<le> length (getAddr a)"

lemma memcmp_take: "n \<le> a \<Longrightarrow> n \<le> b \<Longrightarrow> memcmp n (take a xs) (take b ys) = memcmp n xs ys"
proof (induction n arbitrary: a b xs ys)
  case (Suc n)
  then obtain a' b' where "a = Suc a'" "b = Suc b'" "n \<le> a'" "n \<le> b'" by (metis Suc_le_D Suc_le_mono)
  then show ?case using Suc.IH by (cases xs; cases ys) auto
qed simp

lemma memcmp_lex:
  "(memcmp (min (length xs) (length ys)) xs ys < 0
      \<or> (memcmp (min (length xs) (length ys)) xs ys = 0 \<and> length xs < length ys)) = (xs < ys)"
proof (induction xs arbitrary: ys)
  case Nil
  then show ?case by (cases ys) auto
next
  case (Cons x xs)
  show ?case
  proof (cases ys)
    case (Cons y ys')
    then show ?thesis using Cons.IH [of ys'] by (auto simp: word_less_def dest: word_uint_eqI)
  qed simp
qed

lemma memcmp_zero: "length xs = n \<Longrightarrow> length ys = n \<Longrightarrow> memcmp n xs ys = 0 \<longleftrightarrow> xs = ys"
  by (induction n xs ys rule: memcmp.induct) (auto dest: word_uint_eqI)

lemma Address_less_iff: "addr_wf l \<Longrightarrow> addr_wf r \<Longrightarrow> Address_less l r \<longleftrightarrow> addr_bytes l < addr_bytes r"
  using memcmp_lex [of "addr_bytes l" "addr_bytes r"] unfolding addr_wf_def
  by (auto simp: Address_less_def addr_bytes_def Let_def memcmp_take)

lemma Address_eq_iff: "addr_wf l \<Longrightarrow> addr_wf r \<Longrightarrow> Address_eq l r \<longleftrightarrow> addr_bytes l = addr_bytes r"
proof -
  assume wf: "addr_wf l" "addr_wf r"
  have len: "length (addr_bytes l) = getAddrLen l" "length (addr_bytes r) = getAddrLen r"
    using wf by (simp_all add: addr_bytes_def addr_wf_def)
  show ?thesis
  proof (cases "getAddrLen l = getAddrLen r")
    case True
    have "memcmp (getAddrLen l) (getAddr l) (getAddr r) = memcmp (getAddrLen l) (addr_bytes l) (addr_bytes r)"
      using True by (simp add: addr_bytes_def memcmp_take)
    then show ?thesis using memcmp_zero [of "addr_bytes l" "getAddrLen l" "addr_bytes r"] len True
      by (simp add: Address_eq_def)
  next
    case False
    then show ?thesis using len by (auto simp: Address_eq_def)
  qed
qed

section \<open>Unix paths\<close>

lemma unix_path_roundtrip:
  assumes "CHR 0x00 \<notin> set path" "length path < sun_path_size" "path \<noteq> []"
  shows "\<exists>m n. UnixAddress_path path = Inr (UnixAddress m n) \<and> getPath m n = path \<and> addr_wf (UnixAddress m n)"
proof -
  have h: "path \<noteq> [] \<Longrightarrow> hd path \<noteq> CHR 0x00" using assms(1) hd_in_set by metis
  have c: "c_str (path @ CHR 0x00 # rest) = path" for rest
    using assms(1) by (induction path) (auto simp: c_str_def)
  have "path \<noteq> [] \<Longrightarrow> (path @ rest) ! 0 \<noteq> CHR 0x00" for rest using h by (cases path) auto
  then show ?thesis using assms(2, 3) h c
    by (cases path) (auto simp: UnixAddress_path_def Let_def getPath_def addr_wf_def getAddrLen_def getAddr_def
        sun_path_offset_def sun_path_size_def c_str_def)
qed

lemma unix_path_too_long:
  "CHR 0x00 \<notin> set path \<Longrightarrow> sun_path_size \<le> length path \<Longrightarrow> UnixAddress_path path = Inl PathTooLong"
  by (cases path) (auto simp: UnixAddress_path_def)

section \<open>Splitting of host strings\<close>

lemma find_char_at: "c \<notin> set k \<Longrightarrow> find_char c (k @ c # rest) 0 = Some (length k)"
proof -
  assume "c \<notin> set k"
  then have "takeWhile (\<lambda>x. x \<noteq> c) (k @ c # rest) = k" by (induction k) auto
  then show ?thesis by (simp add: find_char_def)
qed

lemma find_char_none: "c \<notin> set (drop n s) \<Longrightarrow> find_char c s n = None"
proof -
  assume "c \<notin> set (drop n s)"
  then have e: "takeWhile (\<lambda>x. x \<noteq> c) (drop n s) = drop n s" by (simp add: takeWhile_eq_all_conv) blast
  show ?thesis unfolding find_char_def e by (simp add: Let_def)
qed

lemma find_char_some: "c \<in> set (drop n s) \<Longrightarrow> n \<le> length s \<Longrightarrow> \<exists>k. find_char c s n = Some k"
proof -
  assume "c \<in> set (drop n s)" "n \<le> length s"
  then have "length (takeWhile (\<lambda>x. x \<noteq> c) (drop n s)) < length (drop n s)"
    using takeWhile_all_iff [of "\<lambda>x. x \<noteq> c" "drop n s"] by auto
  then show ?thesis by (auto simp: find_char_def Let_def)
qed

section \<open>Properties\<close>



text \<open>\<open>operator<\<close> orders addresses by their bytes: it is irreflexive and transitive, two addresses of
  which neither is less are equal by \<open>operator==\<close>, and \<open>operator==\<close> is equality of the bytes. A set of
  addresses is therefore well behaved.\<close>

theorem address_order:
  assumes "addr_wf a" "addr_wf b" "addr_wf c"
  shows "\<not> Address_less a a
    \<and> (Address_less a b \<and> Address_less b c \<longrightarrow> Address_less a c)
    \<and> (\<not> Address_less a b \<and> \<not> Address_less b a) = Address_eq a b
    \<and> Address_eq a b = (addr_bytes a = addr_bytes b)"
  using assms by (auto simp: Address_less_iff Address_eq_iff)

theorem address_order_witness:
  "\<not> Address_less (IPv4Address (IPv4Address_new 1 2)) (IPv4Address (IPv4Address_new 1 2))
    \<and> Address_eq UnixAddress_default UnixAddress_default"
proof -
  let ?a = "IPv4Address (IPv4Address_new 1 2)"
  have a: "addr_wf ?a" by (simp add: addr_wf_def getAddrLen_def getAddr_def IPv4Address_new_def)
  have u: "addr_wf UnixAddress_default"
    by (simp add: addr_wf_def UnixAddress_default_def getAddrLen_def getAddr_def MAX_PATH_LEN_def sun_path_size_def sun_path_offset_def)
  show ?thesis using address_order [OF a a a] address_order [OF u u u] by blast
qed

text \<open>Host strings are split into node and service as documented for a bracketed IPv6 address with and
  without port, for a name with a port and for a plain name; but a bare IPv6 address (two colons
  and no bracket) is passed on whole with everything from its first colon as the service, which no
  resolver knows, so that such a lookup fails.\<close>

theorem lookup_split_forms:
  assumes "v6 \<noteq> []" "CHR '']'' \<notin> set v6" "name \<noteq> []" "CHR '':'' \<notin> set name" "hd name \<noteq> CHR ''[''" "CHR '':'' \<notin> set port"
  shows "lookup_split (''['' @ v6 @ '']:'' @ port) = (v6, Some port)
    \<and> lookup_split (''['' @ v6 @ '']'') = (v6, None)
    \<and> lookup_split (name @ '':'' @ port) = (name, Some port)
    \<and> lookup_split name = (name, None)
    \<and> lookup_split (name @ '':'' @ port @ '':'' @ rest) = (name @ '':'' @ port @ '':'' @ rest, Some ('':'' @ port @ '':'' @ rest))"
proof -
  let ?n = "name @ '':'' @ port @ '':'' @ rest"
  obtain c cs where n: "name = c # cs" "c \<noteq> CHR ''[''" using assms(3, 5) by (cases name) auto
  have v: "find_char (CHR '']'') (CHR ''['' # v6 @ CHR '']'' # xs) 1 = Some (Suc (length v6))" for xs
  proof -
    have "takeWhile (\<lambda>x. x \<noteq> CHR '']'') (v6 @ CHR '']'' # xs) = v6" using assms(2) by (induction v6) auto
    then show ?thesis by (simp add: find_char_def)
  qed
  have k: "find_char (CHR '':'') (name @ CHR '':'' # xs) 0 = Some (length name)" for xs
    using assms(4) by (rule find_char_at)
  have k2: "find_char (CHR '':'') (name @ CHR '':'' # port) (Suc (length name)) = None"
    using assms(6) by (intro find_char_none) simp
  obtain j where k3: "find_char (CHR '':'') (name @ CHR '':'' # port @ CHR '':'' # rest) (Suc (length name)) = Some j"
    using find_char_some [of "CHR '':''" "Suc (length name)" "name @ CHR '':'' # port @ CHR '':'' # rest"] by auto
  have k4: "find_char (CHR '':'') name 0 = None" using assms(4) by (intro find_char_none) simp
  have "lookup_split (''['' @ v6 @ '']:'' @ port) = (v6, Some port)" "lookup_split (''['' @ v6 @ '']'') = (v6, None)"
    using assms(1) v [of "CHR '':'' # port"] v [of "[]"] by (simp_all add: lookup_split_def substr_def nth_append)
  moreover have "lookup_split (name @ '':'' @ port) = (name, Some port)"
    using assms(3) n k [of port] k2 by (simp add: lookup_split_def substr_def)
  moreover have "lookup_split name = (name, None)" using n k4 by (simp add: lookup_split_def)
  moreover have "lookup_split ?n = (?n, Some ('':'' @ port @ '':'' @ rest))"
    using n k [of "port @ CHR '':'' # rest"] k3 by (simp add: lookup_split_def)
  ultimately show ?thesis by blast
qed

theorem lookup_split_forms_witness:
  "lookup_split ''[::1]:80'' = (''::1'', Some ''80'') \<and> lookup_split ''fe80:1:2'' = (''fe80:1:2'', Some '':1:2'')"
  using lookup_split_forms [of "''::1''" "''fe80''" "''80''"] lookup_split_forms [of "''::1''" "''fe80''" "''1''" "''2''"]
  by simp

end
