(* ===== verification/Sylar_Fiber.thy ===== *)
theory Sylar_Fiber
  imports Sylar_Prelude
begin

text \<open>
  Fibers (\<^verbatim>\<open>src/sylar/fiber.cpp\<close>, \<^verbatim>\<open>fiber.h\<close>). A fiber object lives at an address; a thread has its
  thread local pointers to the running fiber and to its scheduling fiber. \<^verbatim>\<open>swapcontext\<close> is a transfer
  of control: \<open>fw_running\<close> says whose context the processor executes (\<^term>\<open>None\<close> is the thread's own context,
  \<^verbatim>\<open>t_oldThreadContext\<close>). The body of a callback is not part of the model: it ends a slice by yielding,
  by returning or by throwing. A failed assertion is an error value.
\<close>

section \<open>State\<close>

datatype State = INIT | HOLD | EXEC | TERM' | READY | EXCEPT

type_synonym faddr = nat

record 'cb fiber =
  f_id :: u64
  f_stacksize :: u32
  f_state :: State
  f_stack :: bool
  f_caller :: bool
  f_cb :: "'cb option"

record 'cb fiber_world =
  fw_heap :: "faddr \<Rightarrow> 'cb fiber option"
  fw_cur :: "faddr option"
  fw_sche :: "faddr option"
  fw_running :: "faddr option"
  fw_fiber_id :: u64
  fw_fiber_count :: u64

datatype fiber_error = AssertFailed | NullFiber

type_synonym 'cb fresult = "fiber_error + 'cb fiber_world"

definition getState :: "'cb fiber_world \<Rightarrow> faddr \<Rightarrow> State option" where
  "getState w p = map_option f_state (fw_heap w p)"

definition upd_fiber :: "faddr \<Rightarrow> ('cb fiber \<Rightarrow> 'cb fiber) \<Rightarrow> 'cb fiber_world \<Rightarrow> 'cb fiber_world" where
  "upd_fiber p g w = w\<lparr>fw_heap := (fw_heap w)(p := map_option g (fw_heap w p))\<rparr>"

definition SetThis :: "faddr option \<Rightarrow> 'cb fiber_world \<Rightarrow> 'cb fiber_world" where
  "SetThis f w = w\<lparr>fw_cur := f\<rparr>"

definition Fiber_GetThis :: "'cb fiber_world \<Rightarrow> faddr option" where
  "Fiber_GetThis w = fw_cur w"

definition GetFiberId :: "'cb fiber_world \<Rightarrow> u64" where
  "GetFiberId w =
     (case fw_cur w of None \<Rightarrow> 0 | Some p \<Rightarrow> (case fw_heap w p of None \<Rightarrow> 0 | Some f \<Rightarrow> f_id f))"

section \<open>Construction and destruction\<close>

text \<open>\<open>p\<close> is the address that \<^verbatim>\<open>new\<close> returns.\<close>

definition Fiber_main :: "faddr \<Rightarrow> 'cb fiber_world \<Rightarrow> 'cb fiber_world" where
  "Fiber_main p w =
     SetThis (Some p)
       (w\<lparr>fw_heap := (fw_heap w)(p \<mapsto> \<lparr>f_id = 0, f_stacksize = 0, f_state = EXEC, f_stack = False, f_caller = False, f_cb = None\<rparr>),
          fw_fiber_count := fw_fiber_count w + 1\<rparr>)"

definition Fiber_new :: "u32 \<Rightarrow> faddr \<Rightarrow> 'cb option \<Rightarrow> u32 \<Rightarrow> bool \<Rightarrow> 'cb fiber_world \<Rightarrow> 'cb fiber_world" where
  "Fiber_new g_fiber_stack_size p cb stacksize use_caller w =
     w\<lparr>fw_heap := (fw_heap w)(p \<mapsto>
          \<lparr>f_id = fw_fiber_id w + 1, f_stacksize = (if stacksize \<noteq> 0 then stacksize else g_fiber_stack_size),
           f_state = INIT, f_stack = True, f_caller = use_caller, f_cb = cb\<rparr>),
       fw_fiber_id := fw_fiber_id w + 1, fw_fiber_count := fw_fiber_count w + 1\<rparr>"

definition Fiber_destroy :: "faddr \<Rightarrow> 'cb fiber_world \<Rightarrow> 'cb fresult" where
  "Fiber_destroy p w =
     (case fw_heap w p of
        None \<Rightarrow> Inl NullFiber
      | Some f \<Rightarrow>
          let w1 = w\<lparr>fw_heap := (fw_heap w)(p := None), fw_fiber_count := fw_fiber_count w - 1\<rparr> in
          if f_stack f
          then if f_state f = TERM' \<or> f_state f = EXCEPT \<or> f_state f = INIT then Inr w1 else Inl AssertFailed
          else if f_cb f \<noteq> None \<or> f_state f \<noteq> EXEC then Inl AssertFailed
          else Inr (if fw_cur w = Some p then SetThis None w1 else w1))"

definition Fiber_reset :: "faddr \<Rightarrow> 'cb option \<Rightarrow> 'cb fiber_world \<Rightarrow> 'cb fresult" where
  "Fiber_reset p cb w =
     (case fw_heap w p of
        None \<Rightarrow> Inl NullFiber
      | Some f \<Rightarrow>
          if \<not> f_stack f \<or> \<not> (f_state f = TERM' \<or> f_state f = EXCEPT \<or> f_state f = INIT) then Inl AssertFailed
          else Inr (upd_fiber p (\<lambda>f. f\<lparr>f_cb := cb, f_caller := False, f_state := INIT\<rparr>) w))"

definition CreateScheFiber :: "faddr \<Rightarrow> faddr option \<Rightarrow> 'cb fiber_world \<Rightarrow> 'cb fiber_world" where
  "CreateScheFiber p scheFiber w =
     (if fw_sche w \<noteq> None then w
      else case scheFiber of
             Some f \<Rightarrow> (SetThis (Some f) w)\<lparr>fw_sche := Some f\<rparr>
           | None \<Rightarrow> (Fiber_main p w)\<lparr>fw_sche := Some p\<rparr>)"

section \<open>Switching\<close>

definition Fiber_call :: "faddr \<Rightarrow> 'cb fiber_world \<Rightarrow> 'cb fiber_world" where
  "Fiber_call p w = (upd_fiber p (\<lambda>f. f\<lparr>f_state := EXEC\<rparr>) (SetThis (Some p) w))\<lparr>fw_running := Some p\<rparr>"

definition Fiber_back :: "'cb fiber_world \<Rightarrow> 'cb fiber_world" where
  "Fiber_back w = (SetThis (fw_sche w) w)\<lparr>fw_running := None\<rparr>"

definition swapIn :: "faddr \<Rightarrow> 'cb fiber_world \<Rightarrow> 'cb fresult" where
  "swapIn p w =
     (let w1 = SetThis (Some p) w in
      if getState w1 p = None \<or> fw_sche w = None then Inl NullFiber
      else if getState w1 p = Some EXEC then Inl AssertFailed
      else Inr ((upd_fiber p (\<lambda>f. f\<lparr>f_state := EXEC\<rparr>) w1)\<lparr>fw_running := Some p\<rparr>))"

definition swapOut :: "'cb fiber_world \<Rightarrow> 'cb fresult" where
  "swapOut w =
     (if fw_sche w = None then Inl NullFiber
      else Inr ((SetThis (fw_sche w) w)\<lparr>fw_running := fw_sche w\<rparr>))"

definition yield_as :: "State \<Rightarrow> 'cb fiber_world \<Rightarrow> 'cb fresult" where
  "yield_as s w =
     (case Fiber_GetThis w of
        None \<Rightarrow> Inl NullFiber
      | Some p \<Rightarrow> if getState w p \<noteq> Some EXEC then Inl AssertFailed
                  else swapOut (upd_fiber p (\<lambda>f. f\<lparr>f_state := s\<rparr>) w))"

definition YieldToReady :: "'cb fiber_world \<Rightarrow> 'cb fresult" where
  "YieldToReady w = yield_as READY w"

definition YieldToHold :: "'cb fiber_world \<Rightarrow> 'cb fresult" where
  "YieldToHold w = yield_as HOLD w"

text \<open>The end of the callback: \<open>ok\<close> is whether it returned; otherwise it threw.\<close>

definition finish_cb :: "bool \<Rightarrow> faddr \<Rightarrow> 'cb fiber_world \<Rightarrow> 'cb fiber_world" where
  "finish_cb ok p w =
     (if ok then upd_fiber p (\<lambda>f. f\<lparr>f_cb := None, f_state := TERM'\<rparr>) w
      else upd_fiber p (\<lambda>f. f\<lparr>f_state := EXCEPT\<rparr>) w)"

definition MainFunc :: "bool \<Rightarrow> 'cb fiber_world \<Rightarrow> 'cb fresult" where
  "MainFunc ok w =
     (case Fiber_GetThis w of None \<Rightarrow> Inl AssertFailed | Some p \<Rightarrow> swapOut (finish_cb ok p w))"

definition CallerMainFunc :: "bool \<Rightarrow> 'cb fiber_world \<Rightarrow> 'cb fresult" where
  "CallerMainFunc ok w =
     (case Fiber_GetThis w of None \<Rightarrow> Inl AssertFailed | Some p \<Rightarrow> Inr (Fiber_back (finish_cb ok p w)))"

section \<open>Life of a worker thread's fibers\<close>

text \<open>
  The invariant of a thread whose scheduling fiber exists: the scheduling fiber has no stack of its own and stays
  \<^term>\<open>EXEC\<close>; the current fiber is the one that runs; every other fiber that executes is the current one;
  the fibers that ended normally have dropped their callback.
\<close>

definition others_ok :: "'cb fiber_world \<Rightarrow> faddr \<Rightarrow> faddr \<Rightarrow> bool" where
  "others_ok w s c \<longleftrightarrow>
     (\<forall>p f. fw_heap w p = Some f \<longrightarrow> p \<noteq> s \<longrightarrow>
        f_stack f \<and> (f_state f = EXEC \<longrightarrow> c = p) \<and> (f_state f = TERM' \<longrightarrow> f_cb f = None))"

definition fiber_inv_at :: "'cb fiber_world \<Rightarrow> faddr \<Rightarrow> faddr \<Rightarrow> 'cb fiber \<Rightarrow> 'cb fiber \<Rightarrow> bool" where
  "fiber_inv_at w s c sf cf \<longleftrightarrow>
     fw_sche w = Some s \<and> fw_heap w s = Some sf \<and> f_state sf = EXEC \<and> \<not> f_stack sf \<and> f_cb sf = None
     \<and> fw_cur w = Some c \<and> fw_running w = Some c \<and> fw_heap w c = Some cf \<and> f_state cf = EXEC \<and> others_ok w s c"

definition fiber_inv :: "'cb fiber_world \<Rightarrow> bool" where
  "fiber_inv w \<longleftrightarrow> (\<exists>s c sf cf. fiber_inv_at w s c sf cf)"

text \<open>What a worker does: create, reset, destroy and enter fibers from the scheduling fiber; leave the
  current fiber by a yield or by its end.\<close>

inductive fiber_step :: "'cb fiber_world \<Rightarrow> 'cb fiber_world \<Rightarrow> bool" where
  fs_new: "fw_heap w p = None \<Longrightarrow> fiber_step w (Fiber_new g p cb stsz False w)"
| fs_reset: "Some p \<noteq> fw_sche w \<Longrightarrow> Fiber_reset p cb w = Inr w' \<Longrightarrow> fiber_step w w'"
| fs_destroy: "Some p \<noteq> fw_sche w \<Longrightarrow> Fiber_destroy p w = Inr w' \<Longrightarrow> fiber_step w w'"
| fs_in: "fw_cur w = fw_sche w \<Longrightarrow> swapIn p w = Inr w' \<Longrightarrow> fiber_step w w'"
| fs_ready: "fw_cur w \<noteq> fw_sche w \<Longrightarrow> YieldToReady w = Inr w' \<Longrightarrow> fiber_step w w'"
| fs_hold: "fw_cur w \<noteq> fw_sche w \<Longrightarrow> YieldToHold w = Inr w' \<Longrightarrow> fiber_step w w'"
| fs_end: "fw_cur w \<noteq> fw_sche w \<Longrightarrow> MainFunc ok w = Inr w' \<Longrightarrow> fiber_step w w'"

inductive fiber_reachable :: "'cb fiber_world \<Rightarrow> bool" where
  fr_init: "fiber_reachable ((CreateScheFiber p None \<lparr>fw_heap = Map.empty, fw_cur = None, fw_sche = None, fw_running = None,
              fw_fiber_id = n, fw_fiber_count = k\<rparr>)\<lparr>fw_running := Some p\<rparr>)"
| fr_step: "fiber_reachable w \<Longrightarrow> fiber_step w w' \<Longrightarrow> fiber_reachable w'"

lemmas fiber_ops = Fiber_new_def Fiber_reset_def Fiber_destroy_def swapIn_def swapOut_def yield_as_def YieldToReady_def
  YieldToHold_def MainFunc_def finish_cb_def upd_fiber_def SetThis_def getState_def Fiber_GetThis_def Let_def

lemma fiber_inv_init:
  "fiber_inv ((CreateScheFiber p None \<lparr>fw_heap = Map.empty, fw_cur = None, fw_sche = None, fw_running = None,
              fw_fiber_id = n, fw_fiber_count = k\<rparr>)\<lparr>fw_running := Some p\<rparr>)"
  by (simp add: fiber_inv_def fiber_inv_at_def others_ok_def CreateScheFiber_def Fiber_main_def SetThis_def)

lemma others_okD:
  "others_ok w s c \<Longrightarrow> fw_heap w p = Some f \<Longrightarrow> p \<noteq> s \<Longrightarrow>
     f_stack f \<and> (f_state f = EXEC \<longrightarrow> c = p) \<and> (f_state f = TERM' \<longrightarrow> f_cb f = None)"
  unfolding others_ok_def by blast

text \<open>Leaving the current fiber in a state other than \<^term>\<open>EXEC\<close> gives the processor to the scheduling fiber.\<close>

lemma leave_inv:
  assumes "fiber_inv w" "fw_cur w = Some c" "fw_cur w \<noteq> fw_sche w"
    "\<And>f. f_stack (g f) = f_stack f \<and> f_state (g f) \<noteq> EXEC \<and> (f_state (g f) = TERM' \<longrightarrow> f_cb (g f) = None)"
  shows "\<exists>w'. swapOut (upd_fiber c g w) = Inr w' \<and> fiber_inv w' \<and> fw_cur w' = fw_sche w' \<and> fw_sche w' = fw_sche w"
proof -
  from assms(1) obtain s c' sf cf where i: "fiber_inv_at w s c' sf cf" unfolding fiber_inv_def by blast
  let ?w = "(SetThis (fw_sche w) (upd_fiber c g w))\<lparr>fw_running := fw_sche w\<rparr>"
  have cs: "c \<noteq> s" "c' = c" using assms(2, 3) i by (auto simp: fiber_inv_at_def)
  have cf: "fw_heap w c = Some cf" "f_stack cf"
    using i cs others_okD [of w s c' c cf] by (auto simp: fiber_inv_at_def)
  have "others_ok ?w s s" unfolding others_ok_def
  proof (intro allI impI)
    fix p f assume p: "fw_heap ?w p = Some f" "p \<noteq> s"
    show "f_stack f \<and> (f_state f = EXEC \<longrightarrow> s = p) \<and> (f_state f = TERM' \<longrightarrow> f_cb f = None)"
    proof (cases "p = c")
      case True
      then have "f = g cf" using p cf by (simp add: upd_fiber_def SetThis_def)
      then show ?thesis using assms(4) [of cf] cf by simp
    next
      case False
      then have "fw_heap w p = Some f" using p by (simp add: upd_fiber_def SetThis_def)
      with i False p(2) cs show ?thesis using others_okD [of w s c' p f] by (auto simp: fiber_inv_at_def)
    qed
  qed
  then have "fiber_inv_at ?w s s sf sf" using i cs by (simp add: fiber_inv_at_def upd_fiber_def SetThis_def)
  then have "fiber_inv ?w" unfolding fiber_inv_def by blast
  moreover have "swapOut (upd_fiber c g w) = Inr ?w" using i by (simp add: fiber_inv_at_def swapOut_def upd_fiber_def SetThis_def)
  ultimately show ?thesis by (auto simp: SetThis_def upd_fiber_def)
qed

lemma leave_ops:
  assumes "fiber_inv w" "fw_cur w \<noteq> fw_sche w"
  shows "\<exists>w'. YieldToReady w = Inr w' \<and> fiber_inv w' \<and> fw_cur w' = fw_sche w'"
    "\<exists>w'. YieldToHold w = Inr w' \<and> fiber_inv w' \<and> fw_cur w' = fw_sche w'"
    "\<exists>w'. MainFunc ok w = Inr w' \<and> fiber_inv w' \<and> fw_cur w' = fw_sche w'"
proof -
  obtain c where c: "fw_cur w = Some c" "getState w c = Some EXEC" using assms(1) by (auto simp: fiber_inv_def fiber_inv_at_def getState_def)
  note leave = leave_inv [OF assms(1) c(1) assms(2)]
  show "\<exists>w'. YieldToReady w = Inr w' \<and> fiber_inv w' \<and> fw_cur w' = fw_sche w'"
    "\<exists>w'. YieldToHold w = Inr w' \<and> fiber_inv w' \<and> fw_cur w' = fw_sche w'"
    using leave [of "\<lambda>f. f\<lparr>f_state := READY\<rparr>"] leave [of "\<lambda>f. f\<lparr>f_state := HOLD\<rparr>"] c
    by (auto simp: YieldToReady_def YieldToHold_def yield_as_def Fiber_GetThis_def)
  show "\<exists>w'. MainFunc ok w = Inr w' \<and> fiber_inv w' \<and> fw_cur w' = fw_sche w'"
    using leave [of "\<lambda>f. f\<lparr>f_cb := None, f_state := TERM'\<rparr>"] leave [of "\<lambda>f. f\<lparr>f_state := EXCEPT\<rparr>"] c
    by (cases ok) (auto simp: MainFunc_def finish_cb_def Fiber_GetThis_def)
qed

text \<open>Entering a fiber from the scheduling fiber.\<close>

lemma swapIn_inv:
  assumes "fiber_inv w" "fw_cur w = fw_sche w" "fw_heap w p = Some f" "f_state f \<noteq> EXEC"
  shows "\<exists>w'. swapIn p w = Inr w' \<and> fiber_inv w' \<and> fw_cur w' = Some p \<and> fw_running w' = Some p \<and> getState w' p = Some EXEC"
proof -
  from assms(1) obtain s c sf cf where i: "fiber_inv_at w s c sf cf" unfolding fiber_inv_def by blast
  let ?w = "(upd_fiber p (\<lambda>f. f\<lparr>f_state := EXEC\<rparr>) (SetThis (Some p) w))\<lparr>fw_running := Some p\<rparr>"
  have cs: "c = s" "p \<noteq> s" using assms i by (auto simp: fiber_inv_at_def)
  have st: "f_stack f" using i cs assms(3) others_okD [of w s c p f] by (auto simp: fiber_inv_at_def)
  have "others_ok ?w s p" unfolding others_ok_def
  proof (intro allI impI)
    fix q h assume q: "fw_heap ?w q = Some h" "q \<noteq> s"
    show "f_stack h \<and> (f_state h = EXEC \<longrightarrow> p = q) \<and> (f_state h = TERM' \<longrightarrow> f_cb h = None)"
    proof (cases "q = p")
      case True
      then have "h = f\<lparr>f_state := EXEC\<rparr>" using q assms(3) by (simp add: upd_fiber_def SetThis_def)
      then show ?thesis using True st by simp
    next
      case False
      then have "fw_heap w q = Some h" using q by (simp add: upd_fiber_def SetThis_def)
      with i False q(2) cs show ?thesis using others_okD [of w s c q h] by (auto simp: fiber_inv_at_def)
    qed
  qed
  then have "fiber_inv_at ?w s p sf (f\<lparr>f_state := EXEC\<rparr>)"
    using i cs assms(3) by (simp add: fiber_inv_at_def upd_fiber_def SetThis_def)
  then have "fiber_inv ?w" unfolding fiber_inv_def by blast
  moreover have "swapIn p w = Inr ?w"
    using i assms(3, 4) by (simp add: fiber_inv_at_def swapIn_def getState_def SetThis_def)
  ultimately show ?thesis using assms(3) by (auto simp: upd_fiber_def SetThis_def getState_def)
qed

text \<open>Operations that leave the pointers alone and touch a fiber that neither schedules nor runs.\<close>

lemma heap_update_inv:
  assumes "fiber_inv w" "Some p \<noteq> fw_sche w" "Some p \<noteq> fw_cur w"
    "\<And>f. h = Some f \<Longrightarrow> f_stack f \<and> f_state f \<noteq> EXEC \<and> (f_state f = TERM' \<longrightarrow> f_cb f = None)"
  shows "fiber_inv (w\<lparr>fw_heap := (fw_heap w)(p := h), fw_fiber_id := n, fw_fiber_count := k\<rparr>)"
proof -
  from assms(1) obtain s c sf cf where i: "fiber_inv_at w s c sf cf" unfolding fiber_inv_def by blast
  have "p \<noteq> s" "p \<noteq> c" using assms(2, 3) i by (auto simp: fiber_inv_at_def)
  moreover have "others_ok (w\<lparr>fw_heap := (fw_heap w)(p := h), fw_fiber_id := n, fw_fiber_count := k\<rparr>) s c"
    using i assms(4) unfolding fiber_inv_at_def others_ok_def by auto
  ultimately have "fiber_inv_at (w\<lparr>fw_heap := (fw_heap w)(p := h), fw_fiber_id := n, fw_fiber_count := k\<rparr>) s c sf cf"
    using i by (simp add: fiber_inv_at_def)
  then show ?thesis unfolding fiber_inv_def by blast
qed

lemma not_cur: "fiber_inv w \<Longrightarrow> fw_heap w p = Some f \<Longrightarrow> f_state f \<noteq> EXEC \<Longrightarrow> Some p \<noteq> fw_cur w"
  by (auto simp: fiber_inv_def fiber_inv_at_def)

lemma fiber_step_inv: "fiber_step w w' \<Longrightarrow> fiber_inv w \<Longrightarrow> fiber_inv w'"
proof (induction rule: fiber_step.induct)
  case (fs_new w p g cb stsz)
  then have "Some p \<noteq> fw_sche w" "Some p \<noteq> fw_cur w" by (auto simp: fiber_inv_def fiber_inv_at_def)
  then show ?case unfolding Fiber_new_def by (intro heap_update_inv [OF fs_new(2)]) auto
next
  case (fs_reset p w cb w')
  then obtain f where f: "fw_heap w p = Some f" "f_state f \<noteq> EXEC" "f_stack f"
    and w': "w' = upd_fiber p (\<lambda>f. f\<lparr>f_cb := cb, f_caller := False, f_state := INIT\<rparr>) w"
    by (auto simp: Fiber_reset_def split: option.splits if_splits)
  show ?case
    using heap_update_inv [OF fs_reset(3, 1) not_cur [OF fs_reset(3) f(1, 2)],
        where h = "Some (f\<lparr>f_cb := cb, f_caller := False, f_state := INIT\<rparr>)" and n = "fw_fiber_id w" and k = "fw_fiber_count w"] f
    by (simp add: w' upd_fiber_def)
next
  case (fs_destroy p w w')
  then obtain f where f: "fw_heap w p = Some f" by (auto simp: Fiber_destroy_def split: option.splits)
  have st: "f_stack f" using others_okD [OF _ f] fs_destroy(1, 3) by (auto simp: fiber_inv_def fiber_inv_at_def)
  then have f2: "f_state f \<noteq> EXEC" and w': "w' = w\<lparr>fw_heap := (fw_heap w)(p := None), fw_fiber_count := fw_fiber_count w - 1\<rparr>"
    using fs_destroy(2) f by (auto simp: Fiber_destroy_def Let_def split: if_splits)
  show ?case
    using heap_update_inv [OF fs_destroy(3, 1) not_cur [OF fs_destroy(3) f f2],
        where h = None and n = "fw_fiber_id w" and k = "fw_fiber_count w - 1"]
    by (simp add: w')
next
  case (fs_in w p w')
  then obtain f where "fw_heap w p = Some f" "f_state f \<noteq> EXEC"
    by (auto simp: swapIn_def getState_def SetThis_def Let_def split: if_splits)
  from swapIn_inv [OF fs_in(3, 1) this] show ?case using fs_in(2) by auto
next
  case (fs_ready w w')
  then show ?case using leave_ops(1) [of w] by auto
next
  case (fs_hold w w')
  then show ?case using leave_ops(2) [of w] by auto
next
  case (fs_end w ok w')
  then show ?case using leave_ops(3) [of w ok] by auto
qed

lemma fiber_reachable_inv: "fiber_reachable w \<Longrightarrow> fiber_inv w"
  by (induction rule: fiber_reachable.induct) (simp_all only: fiber_inv_init fiber_step_inv)

section \<open>Properties\<close>


definition demo_fw :: "nat fiber_world" where
  "demo_fw = Fiber_new 128 5 (Some 7) 0 False ((CreateScheFiber 1 None \<lparr>fw_heap = Map.empty, fw_cur = None, fw_sche = None,
      fw_running = None, fw_fiber_id = 0, fw_fiber_count = 0\<rparr>)\<lparr>fw_running := Some 1\<rparr>)"

lemma demo_fw_reachable: "fiber_reachable demo_fw"
  unfolding demo_fw_def by (rule fr_step [OF fr_init fs_new]) (simp add: CreateScheFiber_def Fiber_main_def SetThis_def)


end
