(* ===== verification/Sylar_Scheduler.thy ===== *)
theory Sylar_Scheduler
  imports Sylar_Fiber
begin

text \<open>
  The fiber scheduler (\<^verbatim>\<open>src/sylar/scheduler.cpp\<close>, \<^verbatim>\<open>scheduler.h\<close>): the task queue, its threads and
  the loop \<^verbatim>\<open>run\<close>. Every thread executes the loop; a step of the system is what one thread does between
  two points where another one can interfere: the section under the lock that takes a task, the
  entry into a fiber (\<^verbatim>\<open>swapIn\<close>), the moment when the fiber sets its final state and leaves, and the code
  behind \<^verbatim>\<open>swapIn\<close>. What a fiber does is not modelled but for the state it leaves in and the tasks it
  schedules, which any thread may do at any time. The counters are the atomic members.
\<close>

section \<open>State\<close>

record 'cb ft =
  ft_fiber :: "faddr option"
  ft_cb :: "'cb option"
  ft_thread :: int

definition FiberAndThread_fiber :: "faddr option \<Rightarrow> int \<Rightarrow> 'cb ft" where
  "FiberAndThread_fiber f thr = \<lparr>ft_fiber = f, ft_cb = None, ft_thread = thr\<rparr>"

definition FiberAndThread_cb :: "'cb option \<Rightarrow> int \<Rightarrow> 'cb ft" where
  "FiberAndThread_cb f thr = \<lparr>ft_fiber = None, ft_cb = f, ft_thread = thr\<rparr>"

record 'cb scheduler =
  s_fibers :: "'cb ft list"
  s_rootFiber :: "faddr option"
  s_threadIds :: "int list"
  s_threads :: "int list"
  s_threadCount :: nat
  s_activeThreadCount :: int
  s_idleThreadCount :: int
  s_stopping :: bool
  s_autoStop :: bool
  s_rootThread :: int

datatype sched_error = SchedAssert

section \<open>Construction, start and stop\<close>

text \<open>\<open>cur\<close> is whether the thread already has a scheduler, \<open>tid\<close> its id, \<open>root\<close> the address of the root fiber.\<close>

definition Scheduler :: "nat \<Rightarrow> bool \<Rightarrow> bool \<Rightarrow> int \<Rightarrow> faddr \<Rightarrow> sched_error + 'cb scheduler" where
  "Scheduler threads use_caller cur tid root =
     (if threads = 0 \<or> (use_caller \<and> cur) then Inl SchedAssert
      else Inr \<lparr>s_fibers = [], s_rootFiber = (if use_caller then Some root else None),
                s_threadIds = (if use_caller then [tid] else []), s_threads = [],
                s_threadCount = (if use_caller then threads - 1 else threads),
                s_activeThreadCount = 0, s_idleThreadCount = 0, s_stopping = True, s_autoStop = False,
                s_rootThread = (if use_caller then tid else - 1)\<rparr>)"

text \<open>\<open>ids\<close> are the ids of the threads that \<^verbatim>\<open>start\<close> creates.\<close>

definition sched_start :: "int list \<Rightarrow> 'cb scheduler \<Rightarrow> sched_error + 'cb scheduler" where
  "sched_start ids s =
     (if \<not> s_stopping s then Inr s
      else if s_threads s \<noteq> [] then Inl SchedAssert
      else let new = take (s_threadCount s) ids
           in Inr (s\<lparr>s_stopping := False, s_threads := new, s_threadIds := s_threadIds s @ new\<rparr>))"

definition sched_stopping :: "'cb scheduler \<Rightarrow> bool" where
  "sched_stopping s \<longleftrightarrow> s_autoStop s \<and> s_stopping s \<and> s_fibers s = [] \<and> s_activeThreadCount s = 0"

datatype stop_action = Stopped | Join "int list" | CallRootThenJoin "int list"

text \<open>
  \<^verbatim>\<open>stop\<close> up to the joining of the threads: \<open>rootState\<close> is the state of the root fiber, \<open>mine\<close> whether
  the calling thread's scheduler is this one. The result says whether the root fiber has to run the
  loop on this thread before the others are joined.
\<close>

definition sched_stop :: "State \<Rightarrow> bool \<Rightarrow> 'cb scheduler \<Rightarrow> sched_error + stop_action \<times> 'cb scheduler" where
  "sched_stop rootState mine s =
     (let s1 = s\<lparr>s_autoStop := True\<rparr>;
          early = (s_rootFiber s \<noteq> None \<and> s_threadCount s = 0 \<and> (rootState = TERM' \<or> rootState = INIT));
          s2 = (if early then s1\<lparr>s_stopping := True\<rparr> else s1)
      in if early \<and> sched_stopping s2 then Inr (Stopped, s2)
         else if (s_rootThread s \<noteq> - 1) \<noteq> mine then Inl SchedAssert
         else let s3 = s2\<lparr>s_stopping := True\<rparr>; thrs = s_threads s3; s4 = s3\<lparr>s_threads := []\<rparr>
              in Inr (if s_rootFiber s \<noteq> None \<and> \<not> sched_stopping s3 then CallRootThenJoin thrs else Join thrs, s4))"

section \<open>Scheduling\<close>

definition scheduleNoLock :: "'cb ft \<Rightarrow> 'cb scheduler \<Rightarrow> bool \<times> 'cb scheduler" where
  "scheduleNoLock ft s =
     (let need_tickle = (s_fibers s = []) in
      (need_tickle, if ft_fiber ft \<noteq> None \<or> ft_cb ft \<noteq> None then s\<lparr>s_fibers := s_fibers s @ [ft]\<rparr> else s))"

definition schedule :: "'cb ft \<Rightarrow> 'cb scheduler \<Rightarrow> bool \<times> 'cb scheduler" where
  "schedule ft s = scheduleNoLock ft s"

fun schedule_range :: "'cb ft list \<Rightarrow> 'cb scheduler \<Rightarrow> bool \<times> 'cb scheduler" where
  "schedule_range [] s = (False, s)"
| "schedule_range (ft # fts) s =
     (let (t, s1) = scheduleNoLock (ft\<lparr>ft_thread := - 1\<rparr>) s; (ts, s2) = schedule_range fts s1 in (t \<or> ts, s2))"

text \<open>
  The scan of the queue under the lock: the task taken, the queue without it, and whether another
  thread has to be woken up.
\<close>

fun scan_queue :: "int \<Rightarrow> (faddr \<Rightarrow> State) \<Rightarrow> 'cb ft list \<Rightarrow> sched_error + 'cb ft option \<times> 'cb ft list \<times> bool" where
  "scan_queue tid st [] = Inr (None, [], False)"
| "scan_queue tid st (it # rest) =
     (if ft_thread it \<noteq> - 1 \<and> ft_thread it \<noteq> tid
      then bindE (scan_queue tid st rest) (\<lambda>(e, q, tickle). Inr (e, it # q, True))
      else if ft_fiber it = None \<and> ft_cb it = None then Inl SchedAssert
      else if (case ft_fiber it of Some f \<Rightarrow> st f = EXEC | None \<Rightarrow> False)
      then bindE (scan_queue tid st rest) (\<lambda>(e, q, tickle). Inr (e, it # q, tickle))
      else Inr (Some it, rest, rest \<noteq> []))"

section \<open>The threads\<close>

datatype 'cb pc = Loop | Got "'cb ft" | Task faddr bool | Back faddr bool | Idle | Ended

record 'cb system =
  y_sched :: "'cb scheduler"
  y_state :: "faddr \<Rightarrow> State"
  y_pc :: "int \<Rightarrow> 'cb pc"
  y_cb_fiber :: "int \<Rightarrow> faddr option"
  y_idle_state :: "int \<Rightarrow> State"

type_synonym 'cb sresult = "sched_error + 'cb system"

text \<open>The top of the loop of \<^verbatim>\<open>run\<close>: take a task, or enter the idle fiber, or leave.\<close>

definition run_take :: "int \<Rightarrow> 'cb system \<Rightarrow> 'cb sresult" where
  "run_take t y =
     bindE (scan_queue t (y_state y) (s_fibers (y_sched y))) (\<lambda>(e, q, tickle).
       let s = y_sched y in
       case e of
         Some it \<Rightarrow> Inr (y\<lparr>y_sched := s\<lparr>s_fibers := q, s_activeThreadCount := s_activeThreadCount s + 1\<rparr>,
                           y_pc := (y_pc y)(t := Got it)\<rparr>)
       | None \<Rightarrow>
           if y_idle_state y t = TERM' then Inr (y\<lparr>y_pc := (y_pc y)(t := Ended)\<rparr>)
           else if y_idle_state y t = EXEC then Inl SchedAssert
           else Inr (y\<lparr>y_sched := s\<lparr>s_idleThreadCount := s_idleThreadCount s + 1\<rparr>,
                       y_idle_state := (y_idle_state y)(t := EXEC), y_pc := (y_pc y)(t := Idle)\<rparr>))"

text \<open>Enter the task's fiber, or the fiber for callbacks; \<open>new\<close> is the address of a new one.\<close>

definition run_enter :: "int \<Rightarrow> faddr \<Rightarrow> 'cb system \<Rightarrow> 'cb sresult" where
  "run_enter t new y =
     (case y_pc y t of
        Got it \<Rightarrow>
          (if (case ft_fiber it of Some f \<Rightarrow> y_state y f \<noteq> TERM' \<and> y_state y f \<noteq> EXCEPT | None \<Rightarrow> False)
           then let f = the (ft_fiber it) in
                if y_state y f = EXEC then Inl SchedAssert
                else Inr (y\<lparr>y_state := (y_state y)(f := EXEC), y_pc := (y_pc y)(t := Task f False)\<rparr>)
           else if ft_cb it \<noteq> None
           then (case y_cb_fiber y t of
                   Some f \<Rightarrow>
                     if y_state y f = TERM' \<or> y_state y f = EXCEPT \<or> y_state y f = INIT
                     then Inr (y\<lparr>y_state := (y_state y)(f := EXEC), y_pc := (y_pc y)(t := Task f True)\<rparr>)
                     else Inl SchedAssert
                 | None \<Rightarrow> Inr (y\<lparr>y_state := (y_state y)(new := EXEC), y_cb_fiber := (y_cb_fiber y)(t := Some new),
                                 y_pc := (y_pc y)(t := Task new True)\<rparr>))
           else let s = y_sched y in
                Inr (y\<lparr>y_sched := s\<lparr>s_activeThreadCount := s_activeThreadCount s - 1\<rparr>, y_pc := (y_pc y)(t := Loop)\<rparr>))
      | _ \<Rightarrow> Inl SchedAssert)"

text \<open>The running fiber sets the state \<open>fs\<close> it leaves in and gives control back.\<close>

definition fiber_leave :: "int \<Rightarrow> State \<Rightarrow> 'cb system \<Rightarrow> 'cb sresult" where
  "fiber_leave t fs y =
     (case y_pc y t of
        Task f b \<Rightarrow> Inr (y\<lparr>y_state := (y_state y)(f := fs), y_pc := (y_pc y)(t := Back f b)\<rparr>)
      | _ \<Rightarrow> Inl SchedAssert)"

text \<open>The code behind \<^verbatim>\<open>swapIn\<close>.\<close>

definition run_post :: "int \<Rightarrow> 'cb system \<Rightarrow> 'cb sresult" where
  "run_post t y =
     (case y_pc y t of
        Back f is_cb \<Rightarrow>
          (let s = y_sched y;
               s1 = s\<lparr>s_activeThreadCount := s_activeThreadCount s - 1\<rparr>;
               y1 = y\<lparr>y_sched := s1, y_pc := (y_pc y)(t := Loop)\<rparr>;
               fs = y_state y f
           in if fs = READY
              then Inr (y1\<lparr>y_sched := snd (schedule (FiberAndThread_fiber (Some f) (- 1)) s1),
                           y_cb_fiber := (if is_cb then (y_cb_fiber y)(t := None) else y_cb_fiber y)\<rparr>)
              else if fs = TERM' \<or> fs = EXCEPT
              then Inr (if is_cb then y1\<lparr>y_state := (y_state y)(f := INIT)\<rparr> else y1)
              else Inr (y1\<lparr>y_state := (y_state y)(f := HOLD),
                           y_cb_fiber := (if is_cb then (y_cb_fiber y)(t := None) else y_cb_fiber y)\<rparr>))
      | _ \<Rightarrow> Inl SchedAssert)"

text \<open>
  A turn of \<^verbatim>\<open>Scheduler::idle\<close> in the idle fiber (it ends when the scheduler may stop and yields
  otherwise) and the code behind its \<^verbatim>\<open>swapIn\<close>.
\<close>

definition run_idle :: "int \<Rightarrow> 'cb system \<Rightarrow> 'cb sresult" where
  "run_idle t y =
     (case y_pc y t of
        Idle \<Rightarrow>
          (let s = y_sched y; fs = (if sched_stopping s then TERM' else HOLD)
           in Inr (y\<lparr>y_sched := s\<lparr>s_idleThreadCount := s_idleThreadCount s - 1\<rparr>,
                     y_idle_state := (y_idle_state y)(t := fs), y_pc := (y_pc y)(t := Loop)\<rparr>))
      | _ \<Rightarrow> Inl SchedAssert)"

section \<open>The scheduler of a thread\<close>

text \<open>\<open>cur\<close> is \<^verbatim>\<open>t_scheduler\<close> of every thread: schedulers are numbers here, and \<^term>\<open>None\<close> is \<^verbatim>\<open>nullptr\<close>.\<close>

type_synonym sched_of = "int \<Rightarrow> nat option"

definition setThis :: "nat \<Rightarrow> int \<Rightarrow> sched_of \<Rightarrow> sched_of" where
  "setThis self tid cur = cur(tid := Some self)"

definition Scheduler_destroy :: "nat \<Rightarrow> int \<Rightarrow> 'cb scheduler \<Rightarrow> sched_of \<Rightarrow> sched_error + sched_of" where
  "Scheduler_destroy self tid s cur =
     (if \<not> s_stopping s then Inl SchedAssert else Inr (if cur tid = Some self then cur(tid := None) else cur))"

text \<open>\<^verbatim>\<open>switchTo\<close>: nothing when the fiber is already on the right scheduler and thread; otherwise it is
  scheduled and the caller yields.\<close>

definition switchTo :: "nat \<Rightarrow> int \<Rightarrow> sched_of \<Rightarrow> int \<Rightarrow> faddr \<Rightarrow> 'cb scheduler \<Rightarrow> sched_error + bool \<times> 'cb scheduler" where
  "switchTo self tid cur thread fiber s =
     (if cur tid = None then Inl SchedAssert
      else if cur tid = Some self \<and> (thread = - 1 \<or> thread = tid) then Inr (False, s)
      else Inr (True, snd (schedule (FiberAndThread_fiber (Some fiber) thread) s)))"

text \<open>The constructor and the destructor of \<^verbatim>\<open>SchedulerSwitcher\<close>, with all schedulers; the first result of the constructor is \<^verbatim>\<open>m_caller\<close>.\<close>

definition switch_in :: "nat option \<Rightarrow> int \<Rightarrow> sched_of \<Rightarrow> faddr \<Rightarrow> (nat \<Rightarrow> 'cb scheduler) \<Rightarrow> sched_error + bool \<times> (nat \<Rightarrow> 'cb scheduler)" where
  "switch_in k tid cur fiber scheds =
     (case k of
        None \<Rightarrow> Inr (False, scheds)
      | Some i \<Rightarrow> bindE (switchTo i tid cur (- 1) fiber (scheds i)) (\<lambda>(yields, s). Inr (yields, scheds(i := s))))"

definition SchedulerSwitcher ::
    "nat option \<Rightarrow> int \<Rightarrow> sched_of \<Rightarrow> faddr \<Rightarrow> (nat \<Rightarrow> 'cb scheduler) \<Rightarrow> sched_error + nat option \<times> bool \<times> (nat \<Rightarrow> 'cb scheduler)" where
  "SchedulerSwitcher target tid cur fiber scheds = bindE (switch_in target tid cur fiber scheds) (\<lambda>r. Inr (cur tid, r))"

definition SchedulerSwitcher_destroy :: "nat option \<Rightarrow> int \<Rightarrow> sched_of \<Rightarrow> faddr \<Rightarrow> (nat \<Rightarrow> 'cb scheduler) \<Rightarrow> sched_error + bool \<times> (nat \<Rightarrow> 'cb scheduler)" where
  "SchedulerSwitcher_destroy m_caller tid cur fiber scheds = switch_in m_caller tid cur fiber scheds"

text \<open>
  A fiber that switches to another scheduler is queued there, for any thread; when the switcher is destroyed, on a thread of that scheduler, the fiber is queued where it came from.
\<close>

lemma switcher_there_and_back:
  assumes "cur tid = Some home" "cur tid' = Some away" "home \<noteq> away"
  shows "SchedulerSwitcher (Some away) tid cur f scheds
      = Inr (Some home, True, scheds(away := (scheds away)\<lparr>s_fibers := s_fibers (scheds away) @ [FiberAndThread_fiber (Some f) (- 1)]\<rparr>))"
    "SchedulerSwitcher_destroy (Some home) tid' cur f scheds'
      = Inr (True, scheds'(home := (scheds' home)\<lparr>s_fibers := s_fibers (scheds' home) @ [FiberAndThread_fiber (Some f) (- 1)]\<rparr>))"
  using assms by (simp_all add: SchedulerSwitcher_def SchedulerSwitcher_destroy_def switch_in_def switchTo_def schedule_def scheduleNoLock_def
      FiberAndThread_fiber_def Let_def)

section \<open>Executions\<close>

inductive sys_step :: "int list \<Rightarrow> 'cb system \<Rightarrow> 'cb system \<Rightarrow> bool" for tids where
  ss_take: "t \<in> set tids \<Longrightarrow> y_pc y t = Loop \<Longrightarrow> run_take t y = Inr y' \<Longrightarrow> sys_step tids y y'"
| ss_enter: "t \<in> set tids \<Longrightarrow> run_enter t new y = Inr y' \<Longrightarrow> sys_step tids y y'"
| ss_leave: "t \<in> set tids \<Longrightarrow> fs \<in> {READY, HOLD, TERM', EXCEPT} \<Longrightarrow> fiber_leave t fs y = Inr y' \<Longrightarrow> sys_step tids y y'"
| ss_post: "t \<in> set tids \<Longrightarrow> run_post t y = Inr y' \<Longrightarrow> sys_step tids y y'"
| ss_idle: "t \<in> set tids \<Longrightarrow> run_idle t y = Inr y' \<Longrightarrow> sys_step tids y y'"
| ss_schedule: "sys_step tids y (y\<lparr>y_sched := snd (schedule ft (y_sched y))\<rparr>)"
| ss_stop: "sched_stop rs mine (y_sched y) = Inr (a, s') \<Longrightarrow> sys_step tids y (y\<lparr>y_sched := s'\<rparr>)"

definition sys_init :: "'cb scheduler \<Rightarrow> (faddr \<Rightarrow> State) \<Rightarrow> 'cb system" where
  "sys_init s st = \<lparr>y_sched = s, y_state = st, y_pc = (\<lambda>_. Loop), y_cb_fiber = (\<lambda>_. None), y_idle_state = (\<lambda>_. INIT)\<rparr>"

inductive sys_reachable :: "int list \<Rightarrow> 'cb system \<Rightarrow> bool" for tids where
  sr_init: "Scheduler n c b tid root = Inr s0 \<Longrightarrow> sched_start ids s0 = Inr s \<Longrightarrow> sys_reachable tids (sys_init s st)"
| sr_step: "sys_reachable tids y \<Longrightarrow> sys_step tids y y' \<Longrightarrow> sys_reachable tids y'"

fun busy :: "'cb pc \<Rightarrow> bool" where
  "busy (Got _) = True"
| "busy (Task _ _) = True"
| "busy (Back _ _) = True"
| "busy _ = False"

definition count_pc :: "('cb pc \<Rightarrow> bool) \<Rightarrow> int list \<Rightarrow> (int \<Rightarrow> 'cb pc) \<Rightarrow> int" where
  "count_pc P tids pcs = int (length (filter (\<lambda>t. P (pcs t)) tids))"

definition task_ok :: "'cb ft \<Rightarrow> bool" where
  "task_ok x \<longleftrightarrow> ft_fiber x \<noteq> None \<or> ft_cb x \<noteq> None"

text \<open>The counters count the threads that have a task and that idle; every queued task has something to
  run; the idle fiber of a thread executes exactly while the thread idles; it ended only when stop was asked for.\<close>

definition sys_inv :: "int list \<Rightarrow> 'cb system \<Rightarrow> bool" where
  "sys_inv tids y \<longleftrightarrow>
     s_activeThreadCount (y_sched y) = count_pc busy tids (y_pc y)
     \<and> s_idleThreadCount (y_sched y) = count_pc (\<lambda>p. p = Idle) tids (y_pc y)
     \<and> list_all task_ok (s_fibers (y_sched y))
     \<and> (\<forall>t \<in> set tids. (y_idle_state y t = EXEC \<longleftrightarrow> y_pc y t = Idle)
          \<and> (y_idle_state y t = TERM' \<longrightarrow> s_autoStop (y_sched y) \<and> s_stopping (y_sched y))
          \<and> (y_pc y t = Ended \<longrightarrow> y_idle_state y t = TERM'))"

lemma count_pc_Cons: "count_pc P (a # tids) pcs = (if P (pcs a) then 1 else 0) + count_pc P tids pcs"
  by (simp add: count_pc_def)

lemma count_pc_other: "t \<notin> set tids \<Longrightarrow> count_pc P tids (pcs(t := x)) = count_pc P tids pcs"
  by (induction tids) (auto simp: count_pc_Cons, simp add: count_pc_def)

lemma count_pc_upd:
  assumes "distinct tids" "t \<in> set tids"
  shows "count_pc P tids (pcs(t := x)) = count_pc P tids pcs - (if P (pcs t) then 1 else 0) + (if P x then 1 else 0)"
  using assms
proof (induction tids)
  case (Cons a tids)
  show ?case
  proof (cases "a = t")
    case True
    then have "count_pc P tids (pcs(t := x)) = count_pc P tids pcs" using Cons.prems by (intro count_pc_other) simp
    then show ?thesis using True unfolding count_pc_Cons by simp
  next
    case False
    then have "distinct tids" "t \<in> set tids" using Cons.prems by auto
    note IH = Cons.IH [OF this]
    show ?thesis using False unfolding count_pc_Cons IH by simp
  qed
qed simp

section \<open>The queue\<close>

definition foreign :: "int \<Rightarrow> 'cb ft \<Rightarrow> bool" where
  "foreign tid x \<longleftrightarrow> ft_thread x \<noteq> - 1 \<and> ft_thread x \<noteq> tid"

definition eligible :: "int \<Rightarrow> (faddr \<Rightarrow> State) \<Rightarrow> 'cb ft \<Rightarrow> bool" where
  "eligible tid st x \<longleftrightarrow> \<not> foreign tid x \<and> (case ft_fiber x of Some f \<Rightarrow> st f \<noteq> EXEC | None \<Rightarrow> True)"

lemma scan_queue_cases:
  assumes "list_all task_ok q"
  shows "(\<exists>pre it post. q = pre @ it # post \<and> scan_queue tid st q
            = Inr (Some it, pre @ post, post \<noteq> [] \<or> (\<exists>x \<in> set pre. foreign tid x))
          \<and> eligible tid st it \<and> (\<forall>x \<in> set pre. \<not> eligible tid st x))
    \<or> (scan_queue tid st q = Inr (None, q, \<exists>x \<in> set q. foreign tid x) \<and> (\<forall>x \<in> set q. \<not> eligible tid st x))"
  using assms
proof (induction q)
  case Nil
  then show ?case by simp
next
  case (Cons x q)
  show ?case
  proof (cases "eligible tid st x")
    case True
    then have "scan_queue tid st (x # q) = Inr (Some x, q, q \<noteq> [])"
      using Cons.prems by (auto simp: eligible_def foreign_def task_ok_def split: option.splits)
    then show ?thesis using True by (intro disjI1 exI [of _ "[]"] exI [of _ x] exI [of _ q]) simp
  next
    case False
    have step: "scan_queue tid st (x # q) =
        bindE (scan_queue tid st q) (\<lambda>(e, q', tickle). Inr (e, x # q', tickle \<or> foreign tid x))"
      using False Cons.prems
      by (cases "foreign tid x") (auto simp: eligible_def foreign_def task_ok_def split: option.splits)
    have q: "list_all task_ok q" using Cons.prems by simp
    from Cons.IH [OF q] show ?thesis
    proof (elim disjE exE conjE)
      fix pre it post
      assume h: "q = pre @ it # post" "eligible tid st it" "\<forall>x \<in> set pre. \<not> eligible tid st x"
        "scan_queue tid st q = Inr (Some it, pre @ post, post \<noteq> [] \<or> (\<exists>x \<in> set pre. foreign tid x))"
      show ?thesis unfolding step h(4)
        by (rule disjI1, rule exI [of _ "x # pre"], rule exI [of _ it], rule exI [of _ post])
          (use h False in auto)
    next
      assume h: "scan_queue tid st q = Inr (None, q, \<exists>x \<in> set q. foreign tid x)" "\<forall>x \<in> set q. \<not> eligible tid st x"
      show ?thesis unfolding step h(1) by (rule disjI2) (use h False in auto)
    qed
  qed
qed

section \<open>The counters\<close>

lemma sys_inv_take:
  assumes "sys_inv tids y" "distinct tids" "t \<in> set tids" "y_pc y t = Loop"
  shows "\<exists>y'. run_take t y = Inr y' \<and> sys_inv tids y'"
proof -
  let ?s = "y_sched y"
  have ok: "list_all task_ok (s_fibers ?s)" using assms(1) by (simp add: sys_inv_def)
  from scan_queue_cases [OF ok, of t "y_state y"] show ?thesis
  proof (elim disjE exE conjE)
    fix pre it post
    assume h: "s_fibers ?s = pre @ it # post" "scan_queue t (y_state y) (s_fibers ?s)
      = Inr (Some it, pre @ post, post \<noteq> [] \<or> (\<exists>x \<in> set pre. foreign t x))"
    let ?y = "y\<lparr>y_sched := ?s\<lparr>s_fibers := pre @ post, s_activeThreadCount := s_activeThreadCount ?s + 1\<rparr>,
                y_pc := (y_pc y)(t := Got it)\<rparr>"
    have "run_take t y = Inr ?y" unfolding run_take_def h(2) by (simp add: Let_def)
    moreover have "sys_inv tids ?y"
      using assms ok h(1) by (simp add: sys_inv_def count_pc_upd)
    ultimately show ?thesis by blast
  next
    assume h: "scan_queue t (y_state y) (s_fibers ?s) = Inr (None, s_fibers ?s, \<exists>x \<in> set (s_fibers ?s). foreign t x)"
    have ne: "y_idle_state y t \<noteq> EXEC" using assms by (simp add: sys_inv_def)
    show ?thesis
    proof (cases "y_idle_state y t = TERM'")
      case True
      have "run_take t y = Inr (y\<lparr>y_pc := (y_pc y)(t := Ended)\<rparr>)" unfolding run_take_def h using True by (simp add: Let_def)
      moreover have "sys_inv tids (y\<lparr>y_pc := (y_pc y)(t := Ended)\<rparr>)"
        using assms True by (simp add: sys_inv_def count_pc_upd)
      ultimately show ?thesis by blast
    next
      case False
      let ?y = "y\<lparr>y_sched := ?s\<lparr>s_idleThreadCount := s_idleThreadCount ?s + 1\<rparr>,
                  y_idle_state := (y_idle_state y)(t := EXEC), y_pc := (y_pc y)(t := Idle)\<rparr>"
      have "run_take t y = Inr ?y" unfolding run_take_def h using False ne by (simp add: Let_def)
      moreover have "sys_inv tids ?y" using assms by (simp add: sys_inv_def count_pc_upd)
      ultimately show ?thesis by blast
    qed
  qed
qed

lemma schedule_fields [simp]:
  "s_activeThreadCount (snd (schedule ft s)) = s_activeThreadCount s"
  "s_idleThreadCount (snd (schedule ft s)) = s_idleThreadCount s"
  "s_autoStop (snd (schedule ft s)) = s_autoStop s" "s_stopping (snd (schedule ft s)) = s_stopping s"
  "s_fibers (snd (schedule ft s)) = (if task_ok ft then s_fibers s @ [ft] else s_fibers s)"
  by (simp_all add: schedule_def scheduleNoLock_def task_ok_def)

lemma sys_inv_pc:
  assumes "sys_inv tids y" "distinct tids" "t \<in> set tids" "busy (y_pc y t)" "busy p"
    "y_sched y' = y_sched y" "y_idle_state y' = y_idle_state y" "y_pc y' = (y_pc y)(t := p)"
  shows "sys_inv tids y'"
  using assms by (cases p; cases "y_pc y t") (simp_all add: sys_inv_def count_pc_upd)

definition released :: "'cb scheduler \<Rightarrow> 'cb scheduler \<Rightarrow> bool" where
  "released s s' \<longleftrightarrow> s_activeThreadCount s' = s_activeThreadCount s - 1 \<and> s_idleThreadCount s' = s_idleThreadCount s
     \<and> s_autoStop s' = s_autoStop s \<and> s_stopping s' = s_stopping s
     \<and> (list_all task_ok (s_fibers s) \<longrightarrow> list_all task_ok (s_fibers s'))"

lemma sys_inv_done:
  assumes "sys_inv tids y" "distinct tids" "t \<in> set tids" "busy (y_pc y t)"
    "released (y_sched y) (y_sched y')" "y_idle_state y' = y_idle_state y" "y_pc y' = (y_pc y)(t := Loop)"
  shows "sys_inv tids y'"
  using assms by (cases "y_pc y t") (simp_all add: sys_inv_def count_pc_upd released_def)

lemma sys_inv_schedule: "sys_inv tids y \<Longrightarrow> sys_inv tids (y\<lparr>y_sched := snd (schedule ft (y_sched y))\<rparr>)"
  by (simp add: sys_inv_def)

lemma run_enter_cases:
  assumes "run_enter t new y = Inr y'"
  shows "busy (y_pc y t) \<and> y_idle_state y' = y_idle_state y \<and>
    ((\<exists>p. busy p \<and> y_sched y' = y_sched y \<and> y_pc y' = (y_pc y)(t := p))
     \<or> (released (y_sched y) (y_sched y') \<and> y_pc y' = (y_pc y)(t := Loop)))"
proof (cases "y_pc y t")
  case (Got it)
  show ?thesis
  proof (cases "case ft_fiber it of Some f \<Rightarrow> y_state y f \<noteq> TERM' \<and> y_state y f \<noteq> EXCEPT | None \<Rightarrow> False")
    case True
    then show ?thesis using assms Got
      by (auto simp: run_enter_def Let_def split: if_splits intro: busy.simps(2) [THEN iffD2])
  next
    case no_fiber: False
    show ?thesis
    proof (cases "ft_cb it")
      case None
      then show ?thesis using assms Got no_fiber by (auto simp: run_enter_def Let_def released_def split: if_splits)
    next
      case (Some cb)
      then show ?thesis using assms Got no_fiber
        by (cases "y_cb_fiber y t") (auto simp: run_enter_def split: if_splits intro: busy.simps(2) [THEN iffD2])
    qed
  qed
qed (use assms in \<open>simp_all add: run_enter_def\<close>)

lemma run_post_inv:
  assumes "sys_inv tids y" "distinct tids" "t \<in> set tids" "run_post t y = Inr y'"
  shows "sys_inv tids y'"
proof (cases "y_pc y t")
  case (Back f b)
  then have "released (y_sched y) (y_sched y') \<and> y_idle_state y' = y_idle_state y \<and> y_pc y' = (y_pc y)(t := Loop)"
    using assms(4) by (auto simp: run_post_def Let_def released_def split: if_splits)
  then show ?thesis using Back by (intro sys_inv_done [OF assms(1-3)]) simp_all
qed (use assms(4) in \<open>simp_all add: run_post_def\<close>)

lemma run_idle_inv:
  assumes "sys_inv tids y" "distinct tids" "t \<in> set tids" "run_idle t y = Inr y'"
  shows "sys_inv tids y'"
proof (cases "y_pc y t")
  case Idle
  then have "y' = y\<lparr>y_sched := (y_sched y)\<lparr>s_idleThreadCount := s_idleThreadCount (y_sched y) - 1\<rparr>,
      y_idle_state := (y_idle_state y)(t := if sched_stopping (y_sched y) then TERM' else HOLD), y_pc := (y_pc y)(t := Loop)\<rparr>"
    using assms(4) by (simp add: run_idle_def Let_def)
  then show ?thesis using assms(1-3) Idle by (simp add: sys_inv_def count_pc_upd sched_stopping_def)
qed (use assms(4) in \<open>simp_all add: run_idle_def\<close>)

lemma sched_stop_fields:
  "sched_stop rs mine s = Inr (a, s') \<Longrightarrow> s_autoStop s' \<and> s_stopping s' \<and> s_fibers s' = s_fibers s
     \<and> s_activeThreadCount s' = s_activeThreadCount s \<and> s_idleThreadCount s' = s_idleThreadCount s"
  by (auto simp: sched_stop_def Let_def split: if_splits)

lemma sys_step_inv: "sys_step tids y y' \<Longrightarrow> distinct tids \<Longrightarrow> sys_inv tids y \<Longrightarrow> sys_inv tids y'"
proof (induction rule: sys_step.induct)
  case (ss_take t y y')
  then show ?case using sys_inv_take [of tids y t] by auto
next
  case (ss_enter t new y y')
  from run_enter_cases [OF ss_enter(2)] show ?case
    using sys_inv_pc [OF ss_enter(4, 3, 1)] sys_inv_done [OF ss_enter(4, 3, 1)] by blast
next
  case (ss_leave t fs y y')
  then obtain f b where "y_pc y t = Task f b" "y_sched y' = y_sched y" "y_idle_state y' = y_idle_state y"
    "y_pc y' = (y_pc y)(t := Back f b)"
    by (auto simp: fiber_leave_def split: pc.splits)
  then show ?case by (intro sys_inv_pc [OF ss_leave(5, 4, 1), of "Back f b"]) simp_all
next
  case (ss_post t y y')
  then show ?case using run_post_inv by blast
next
  case (ss_idle t y y')
  then show ?case using run_idle_inv by blast
next
  case (ss_schedule y ft)
  then show ?case by (simp add: sys_inv_schedule)
next
  case (ss_stop rs mine y a s')
  then show ?case using sched_stop_fields [OF ss_stop(1)] by (simp add: sys_inv_def)
qed

lemma sys_inv_init:
  assumes "Scheduler n c b tid root = Inr s0" "sched_start ids s0 = Inr s"
  shows "sys_inv tids (sys_init s st)"
  using assms by (auto simp: Scheduler_def sched_start_def sys_inv_def sys_init_def count_pc_def Let_def split: if_splits)

lemma sys_reachable_inv: "sys_reachable tids y \<Longrightarrow> distinct tids \<Longrightarrow> sys_inv tids y"
proof (induction rule: sys_reachable.induct)
  case (sr_init n c b tid root s0 ids s st)
  then show ?case by (intro sys_inv_init)
next
  case (sr_step y y')
  then show ?case using sys_step_inv by blast
qed

lemma count_pc_0: "count_pc P tids pcs = 0 \<longleftrightarrow> (\<forall>t \<in> set tids. \<not> P (pcs t))"
  by (simp add: count_pc_def filter_empty_conv)

section \<open>Properties\<close>

text \<open>A thread takes the first task of the queue that it may run (one that is not bound to another thread and
  whose fiber does not execute right now); all other tasks stay in the queue in their order. It
  takes none exactly when there is no such task. The scan asks for another thread to be woken up
  exactly when tasks remain behind the taken one or it passed one that is bound to another thread.\<close>

theorem scan_takes_first_eligible:
  assumes "list_all task_ok q"
  shows "(\<exists>pre it post. q = pre @ it # post \<and> eligible tid st it \<and> (\<forall>x \<in> set pre. \<not> eligible tid st x)
            \<and> scan_queue tid st q = Inr (Some it, pre @ post, post \<noteq> [] \<or> (\<exists>x \<in> set pre. foreign tid x)))
    \<or> ((\<forall>x \<in> set q. \<not> eligible tid st x) \<and> scan_queue tid st q = Inr (None, q, \<exists>x \<in> set q. foreign tid x))"
  using scan_queue_cases [OF assms, of tid st] by blast

definition demo_queue :: "nat ft list" where
  "demo_queue = [FiberAndThread_fiber (Some 4) 9, FiberAndThread_fiber (Some 5) (- 1), FiberAndThread_cb (Some 7) (- 1)]"

theorem scan_takes_first_eligible_witness:
  "scan_queue 1 (\<lambda>f. if f = 5 then EXEC else HOLD) demo_queue
     = Inr (Some (FiberAndThread_cb (Some 7) (- 1)), take 2 demo_queue, True)"
  using scan_takes_first_eligible [of demo_queue 1 "\<lambda>f. if f = 5 then EXEC else HOLD"]
  by (simp add: demo_queue_def task_ok_def FiberAndThread_fiber_def FiberAndThread_cb_def)


definition demo_sched :: "nat scheduler" where
  "demo_sched = \<lparr>s_fibers = [], s_rootFiber = None, s_threadIds = [1, 2], s_threads = [1, 2], s_threadCount = 2,
     s_activeThreadCount = 0, s_idleThreadCount = 0, s_stopping = False, s_autoStop = False, s_rootThread = - 1\<rparr>"

definition demo_sys :: "nat system" where
  "demo_sys = sys_init demo_sched (\<lambda>_. HOLD)"

lemma demo_sys_reachable: "sys_reachable [1, 2] demo_sys"
  unfolding demo_sys_def
  by (rule sr_init [of 2 False False 7 3 "\<lparr>s_fibers = [], s_rootFiber = None, s_threadIds = [], s_threads = [], s_threadCount = 2,
     s_activeThreadCount = 0, s_idleThreadCount = 0, s_stopping = True, s_autoStop = False, s_rootThread = - 1\<rparr>" "[1, 2]"])
    (simp_all add: Scheduler_def sched_start_def demo_sched_def Let_def)


fun run_all :: "('s \<Rightarrow> 'e + 's) list \<Rightarrow> 's \<Rightarrow> 'e + 's" where
  "run_all [] y = Inr y"
| "run_all (f # fs) y = bindE (f y) (run_all fs)"

lemma run_all_reachable:
  "sys_reachable tids y \<Longrightarrow> \<forall>f \<in> set ops. \<forall>y y'. f y = Inr y' \<longrightarrow> sys_step tids y y' \<Longrightarrow> run_all ops y = Inr y'
     \<Longrightarrow> sys_reachable tids y'"
proof (induction ops arbitrary: y)
  case (Cons f fs)
  then obtain y1 where y1: "f y = Inr y1" "run_all fs y1 = Inr y'" by (auto simp: bindE_eq_Inr)
  have "sys_step tids y y1" using Cons.prems(2) y1(1) by simp
  then have "sys_reachable tids y1" using Cons.prems(1) by (rule sr_step [rotated])
  then show ?case using Cons.IH [OF _ _ y1(2)] Cons.prems(2) by simp
qed simp

definition race_ops :: "(nat system \<Rightarrow> nat sresult) list" where
  "race_ops =
    (let sch = (\<lambda>y. Inr (y\<lparr>y_sched := snd (schedule (FiberAndThread_fiber (Some 5) (- 1)) (y_sched y))\<rparr>));
         tk = (\<lambda>t y. if y_pc y t = Loop then run_take t y else Inl SchedAssert)
     in [sch, tk 1, run_enter 1 0, sch, fiber_leave 1 HOLD, tk 2, run_enter 2 0, run_post 1, sch, tk 1, run_enter 1 0])"

lemma race_ops_steps: "\<forall>f \<in> set race_ops. \<forall>y y'. f y = Inr y' \<longrightarrow> sys_step [1, 2] y y'"
  unfolding race_ops_def Let_def
  by (auto intro: ss_take ss_enter ss_leave ss_post ss_schedule split: if_splits)


end
