(* ===== verification/Sylar_IOManager.thy ===== *)
theory Sylar_IOManager
  imports Sylar_Scheduler Sylar_Timer
begin

unbundle bit_operations_syntax

text \<open>
  The I/O manager (\<^verbatim>\<open>src/sylar/iomanager.cpp\<close>, \<^verbatim>\<open>iomanager.h\<close>): the table of file descriptor contexts, the
  registration of read and write events with their waiters, their cancellation and delivery, the
  wake-up, the stop condition and the wait time of the idle loop. The waiters' schedulers are numbers;
  \<open>m_posted\<close> logs the tasks handed to them. The result of \<^verbatim>\<open>epoll_ctl\<close> is a parameter: \<open>ctl op fd events\<close> is
  whether the call succeeded. A failed assertion, an index out of range and a null scheduler are errors.
\<close>

section \<open>State\<close>

datatype io_error = IoAssert | IoIndex | IoNullScheduler

abbreviation NONE :: u32 where "NONE \<equiv> 0"
abbreviation READ :: u32 where "READ \<equiv> 1"
abbreviation WRITE :: u32 where "WRITE \<equiv> 4"

definition EPOLLET :: u32 where "EPOLLET = 0x80000000"
definition EPOLLERR :: u32 where "EPOLLERR = 8"
definition EPOLLHUP :: u32 where "EPOLLHUP = 16"

datatype EpollCtlOp = EPOLL_CTL_ADD | EPOLL_CTL_MOD | EPOLL_CTL_DEL

record 'cb event_ctx =
  ev_scheduler :: "nat option"
  ev_fiber :: "faddr option"
  ev_cb :: "'cb option"

record 'cb fd_ctx =
  fc_read :: "'cb event_ctx"
  fc_write :: "'cb event_ctx"
  fc_fd :: nat
  fc_events :: u32

record 'cb iomanager =
  m_pendingEventCount :: int
  m_fdContexts :: "'cb fd_ctx list"
  m_posted :: "(nat \<times> 'cb ft) list"

definition MAX_FD :: nat where
  "MAX_FD = 65535"

section \<open>Contexts\<close>

definition empty_ctx :: "'cb event_ctx" where
  "empty_ctx = \<lparr>ev_scheduler = None, ev_fiber = None, ev_cb = None\<rparr>"

definition FdContext :: "nat \<Rightarrow> 'cb fd_ctx" where
  "FdContext i = \<lparr>fc_read = empty_ctx, fc_write = empty_ctx, fc_fd = i, fc_events = NONE\<rparr>"

definition contextResize :: "nat \<Rightarrow> 'cb iomanager \<Rightarrow> 'cb iomanager" where
  "contextResize sz m =
     (let sz' = (if sz > MAX_FD then MAX_FD else sz); old = m_fdContexts m
      in m\<lparr>m_fdContexts := take sz' old @ map FdContext [length old..<sz']\<rparr>)"

definition IOManager :: "'cb iomanager" where
  "IOManager = contextResize 32 \<lparr>m_pendingEventCount = 0, m_fdContexts = [], m_posted = []\<rparr>"

text \<open>
  The destructor: the scheduler is stopped, three descriptors are closed and the contexts deleted. The first result is how the scheduler stopped.
\<close>

definition IOManager_destroy ::
    "State \<Rightarrow> bool \<Rightarrow> int \<times> int \<times> int \<Rightarrow> 'cb scheduler \<Rightarrow> 'cb iomanager \<Rightarrow> sched_error + stop_action \<times> int list \<times> 'cb scheduler \<times> 'cb iomanager" where
  "IOManager_destroy rootState mine fds s m =
     (let (epfd, tickle_r, tickle_w) = fds in
      bindE (sched_stop rootState mine s) (\<lambda>(a, s1). Inr (a, [epfd, tickle_r, tickle_w], s1, m\<lparr>m_fdContexts := []\<rparr>)))"

text \<open>The texts of operations and events in log messages.\<close>

definition op_text :: "EpollCtlOp \<Rightarrow> string" where
  "op_text op = (case op of EPOLL_CTL_ADD \<Rightarrow> ''EPOLL_CTL_ADD'' | EPOLL_CTL_MOD \<Rightarrow> ''EPOLL_CTL_MOD'' | EPOLL_CTL_DEL \<Rightarrow> ''EPOLL_CTL_DEL'')"

definition epoll_names :: "(u32 \<times> string) list" where
  "epoll_names =
     [(1, ''EPOLLIN''), (2, ''EPOLLPRI''), (4, ''EPOLLOUT''), (0x40, ''EPOLLRDNORM''), (0x80, ''EPOLLRDBAND''), (0x100, ''EPOLLWRNORM''),
      (0x200, ''EPOLLWRBAND''), (0x400, ''EPOLLMSG''), (EPOLLERR, ''EPOLLERR''), (EPOLLHUP, ''EPOLLHUP''), (0x2000, ''EPOLLRDHUP''),
      (0x40000000, ''EPOLLONESHOT''), (EPOLLET, ''EPOLLET'')]"

definition epoll_text :: "u32 \<Rightarrow> string" where
  "epoll_text events =
     (if events = 0 then ''0''
      else snd (fold (\<lambda>(bits, name) (first, os). if events AND bits \<noteq> 0 then (False, os @ (if first then '''' else ''|'') @ name) else (first, os))
                  epoll_names (True, '''')))"

text \<open>\<open>getContext\<close> fails for anything but a read or a write event.\<close>

definition getContext :: "u32 \<Rightarrow> 'cb fd_ctx \<Rightarrow> io_error + 'cb event_ctx" where
  "getContext event c = (if event = READ then Inr (fc_read c) else if event = WRITE then Inr (fc_write c) else Inl IoAssert)"

definition setContext :: "u32 \<Rightarrow> 'cb event_ctx \<Rightarrow> 'cb fd_ctx \<Rightarrow> 'cb fd_ctx" where
  "setContext event e c = (if event = READ then c\<lparr>fc_read := e\<rparr> else if event = WRITE then c\<lparr>fc_write := e\<rparr> else c)"

definition resetContext :: "'cb event_ctx \<Rightarrow> 'cb event_ctx" where
  "resetContext e = e\<lparr>ev_scheduler := None, ev_fiber := None, ev_cb := None\<rparr>"

text \<open>\<open>triggerEvent\<close>: the context afterwards and the task that is handed to the waiter's scheduler. The
  callback or fiber is swapped out of the context.\<close>

definition triggerEvent :: "u32 \<Rightarrow> 'cb fd_ctx \<Rightarrow> io_error + 'cb fd_ctx \<times> (nat \<times> 'cb ft)" where
  "triggerEvent event c =
     (if fc_events c AND event = 0 then Inl IoAssert
      else let c1 = c\<lparr>fc_events := fc_events c AND NOT event\<rparr> in
           bindE (getContext event c1) (\<lambda>e.
             case ev_scheduler e of
               None \<Rightarrow> Inl IoNullScheduler
             | Some sid \<Rightarrow>
                 if ev_cb e \<noteq> None
                 then Inr (setContext event (e\<lparr>ev_cb := None, ev_scheduler := None\<rparr>) c1,
                           (sid, FiberAndThread_cb (ev_cb e) (- 1)))
                 else Inr (setContext event (e\<lparr>ev_fiber := None, ev_scheduler := None\<rparr>) c1,
                           (sid, FiberAndThread_fiber (ev_fiber e) (- 1)))))"

section \<open>Operations\<close>

definition set_fd :: "nat \<Rightarrow> 'cb fd_ctx \<Rightarrow> 'cb iomanager \<Rightarrow> 'cb iomanager" where
  "set_fd fd c m = m\<lparr>m_fdContexts := (m_fdContexts m)[fd := c]\<rparr>"

text \<open>
  \<open>self\<close> is \<^verbatim>\<open>Scheduler::GetThis()\<close>, \<open>cur\<close> is \<^verbatim>\<open>Fiber::GetThis()\<close> with its state. The
  comparison with \<^verbatim>\<open>MAX_FD\<close> is unsigned.
\<close>

definition addEvent ::
    "(EpollCtlOp \<Rightarrow> nat \<Rightarrow> u32 \<Rightarrow> bool) \<Rightarrow> nat option \<Rightarrow> (faddr \<times> State) option \<Rightarrow> int \<Rightarrow> u32 \<Rightarrow> 'cb option
      \<Rightarrow> 'cb iomanager \<Rightarrow> io_error + int \<times> 'cb iomanager" where
  "addEvent ctl self cur fd event cb m =
     (if unat (of_int fd :: u32) > MAX_FD then Inr (0, m)
      else let i = nat fd;
               m1 = (if length (m_fdContexts m) \<le> i then contextResize (3 * i div 2) m else m)
           in if length (m_fdContexts m1) \<le> i then Inl IoIndex
           else let c = m_fdContexts m1 ! i in
                if fc_events c AND event \<noteq> 0 then Inl IoAssert
                else let op = (if fc_events c \<noteq> 0 then EPOLL_CTL_MOD else EPOLL_CTL_ADD) in
                     if \<not> ctl op i (EPOLLET OR fc_events c OR event) then Inr (- 1, m1)
                     else let m2 = m1\<lparr>m_pendingEventCount := m_pendingEventCount m1 + 1\<rparr>;
                              c1 = c\<lparr>fc_events := fc_events c OR event\<rparr>
                          in bindE (getContext event c1) (\<lambda>e.
                               if ev_scheduler e \<noteq> None \<or> ev_fiber e \<noteq> None \<or> ev_cb e \<noteq> None then Inl IoAssert
                               else case cb of
                                      Some f \<Rightarrow> Inr (0, set_fd i (setContext event (e\<lparr>ev_scheduler := self, ev_cb := Some f\<rparr>) c1) m2)
                                    | None \<Rightarrow>
                                        (case cur of
                                           Some (p, EXEC) \<Rightarrow> Inr (0, set_fd i (setContext event (e\<lparr>ev_scheduler := self, ev_fiber := Some p\<rparr>) c1) m2)
                                         | _ \<Rightarrow> Inl IoAssert)))"

text \<open>The part that \<open>delEvent\<close>, \<open>cancelEvent\<close> and \<open>cancelAll\<close> share: the context of the descriptor, or
  nothing when the table is too short.\<close>

definition lookup_fd :: "int \<Rightarrow> 'cb iomanager \<Rightarrow> io_error + 'cb fd_ctx option" where
  "lookup_fd fd m =
     (if int (length (m_fdContexts m)) \<le> fd then Inr None
      else if fd < 0 then Inl IoIndex
      else Inr (Some (m_fdContexts m ! nat fd)))"

definition delEvent :: "(EpollCtlOp \<Rightarrow> nat \<Rightarrow> u32 \<Rightarrow> bool) \<Rightarrow> int \<Rightarrow> u32 \<Rightarrow> 'cb iomanager \<Rightarrow> io_error + bool \<times> 'cb iomanager" where
  "delEvent ctl fd event m =
     bindE (lookup_fd fd m) (\<lambda>r. case r of
        None \<Rightarrow> Inr (False, m)
      | Some c \<Rightarrow>
          if fc_events c AND event = 0 then Inr (False, m)
          else let new_events = fc_events c AND NOT event;
                   op = (if new_events \<noteq> 0 then EPOLL_CTL_MOD else EPOLL_CTL_DEL)
               in if \<not> ctl op (nat fd) (EPOLLET OR new_events) then Inr (False, m)
                  else let m1 = m\<lparr>m_pendingEventCount := m_pendingEventCount m - 1\<rparr>; c1 = c\<lparr>fc_events := new_events\<rparr>
                       in bindE (getContext event c1) (\<lambda>e. Inr (True, set_fd (nat fd) (setContext event (resetContext e) c1) m1)))"

text \<open>A trigger inside the manager: the task is posted and the pending counter goes down.\<close>

definition fire_event :: "nat \<Rightarrow> u32 \<Rightarrow> 'cb iomanager \<Rightarrow> io_error + 'cb iomanager" where
  "fire_event i event m =
     bindE (triggerEvent event (m_fdContexts m ! i)) (\<lambda>(c, task).
       Inr ((set_fd i c m)\<lparr>m_posted := m_posted m @ [task], m_pendingEventCount := m_pendingEventCount m - 1\<rparr>))"

definition cancelEvent :: "(EpollCtlOp \<Rightarrow> nat \<Rightarrow> u32 \<Rightarrow> bool) \<Rightarrow> int \<Rightarrow> u32 \<Rightarrow> 'cb iomanager \<Rightarrow> io_error + bool \<times> 'cb iomanager" where
  "cancelEvent ctl fd event m =
     bindE (lookup_fd fd m) (\<lambda>r. case r of
        None \<Rightarrow> Inr (False, m)
      | Some c \<Rightarrow>
          if fc_events c AND event = 0 then Inr (False, m)
          else let new_events = fc_events c AND NOT event;
                   op = (if new_events \<noteq> 0 then EPOLL_CTL_MOD else EPOLL_CTL_DEL)
               in if \<not> ctl op (nat fd) (EPOLLET OR new_events) then Inr (False, m)
                  else bindE (fire_event (nat fd) event m) (\<lambda>m1. Inr (True, m1)))"

definition fire_if :: "bool \<Rightarrow> nat \<Rightarrow> u32 \<Rightarrow> 'cb iomanager \<Rightarrow> io_error + 'cb iomanager" where
  "fire_if b i event m = (if b then fire_event i event m else Inr m)"

definition cancelAll :: "(EpollCtlOp \<Rightarrow> nat \<Rightarrow> u32 \<Rightarrow> bool) \<Rightarrow> int \<Rightarrow> 'cb iomanager \<Rightarrow> io_error + bool \<times> 'cb iomanager" where
  "cancelAll ctl fd m =
     bindE (lookup_fd fd m) (\<lambda>r. case r of
        None \<Rightarrow> Inr (False, m)
      | Some c \<Rightarrow>
          if fc_events c = 0 then Inr (False, m)
          else if \<not> ctl EPOLL_CTL_DEL (nat fd) 0 then Inr (False, m)
          else bindE (fire_if (fc_events c AND READ \<noteq> 0) (nat fd) READ m) (\<lambda>m1.
               bindE (fire_if (fc_events (m_fdContexts m1 ! nat fd) AND WRITE \<noteq> 0) (nat fd) WRITE m1) (\<lambda>m2.
                 if fc_events (m_fdContexts m2 ! nat fd) \<noteq> 0 then Inl IoAssert else Inr (True, m2))))"

section \<open>The idle loop\<close>

text \<open>One reported event of \<open>epoll_wait\<close> for the descriptor context \<open>i\<close> with the event bits \<open>evs\<close>.\<close>

definition handle_event :: "(EpollCtlOp \<Rightarrow> nat \<Rightarrow> u32 \<Rightarrow> bool) \<Rightarrow> nat \<Rightarrow> u32 \<Rightarrow> 'cb iomanager \<Rightarrow> io_error + 'cb iomanager" where
  "handle_event ctl i evs m =
     (let c = m_fdContexts m ! i;
          evs' = (if evs AND (EPOLLERR OR EPOLLHUP) \<noteq> 0 then evs OR ((READ OR WRITE) AND fc_events c) else evs);
          real_events = (if evs' AND READ \<noteq> 0 then READ else NONE) OR (if evs' AND WRITE \<noteq> 0 then WRITE else NONE)
      in if fc_events c AND real_events = NONE then Inr m
         else let left_events = fc_events c AND NOT real_events;
                  op = (if left_events \<noteq> 0 then EPOLL_CTL_MOD else EPOLL_CTL_DEL)
              in if \<not> ctl op i (EPOLLET OR left_events) then Inr m
                 else bindE (fire_if (real_events AND READ \<noteq> 0) i READ m) (\<lambda>m1.
                        fire_if (real_events AND WRITE \<noteq> 0) i WRITE m1))"

text \<open>The last argument of \<open>epoll_wait\<close>, as the do-while loop computes it from \<open>getNextTimer\<close>.\<close>

definition epoll_timeout :: "u64 \<Rightarrow> int" where
  "epoll_timeout next_timeout =
     (let n = (if next_timeout \<noteq> - 1
               then if sint (ucast next_timeout :: u32) > 3000 then 3000 else next_timeout
               else 3000)
      in sint (ucast n :: u32))"

text \<open>The write to the pipe: whether \<^verbatim>\<open>tickle\<close> wakes a thread.\<close>

definition tickle :: "'cb scheduler \<Rightarrow> bool" where
  "tickle s \<longleftrightarrow> s_idleThreadCount s > 0"

definition im_stopping :: "u64 \<Rightarrow> 'cb timer_mgr \<Rightarrow> 'cb scheduler \<Rightarrow> 'cb iomanager \<Rightarrow> bool \<times> u64 \<times> 'cb timer_mgr" where
  "im_stopping now tm s m =
     (let (timeout, tm1) = getNextTimer tm now
      in (timeout = - 1 \<and> m_pendingEventCount m = 0 \<and> sched_stopping s, timeout, tm1))"

text \<open>The expired timers' callbacks are scheduled in one batch.\<close>

definition schedule_expired :: "u64 \<Rightarrow> taddr \<Rightarrow> 'cb timer_mgr \<Rightarrow> 'cb scheduler \<Rightarrow> 'cb scheduler \<times> 'cb timer_mgr" where
  "schedule_expired now nt tm s =
     (let (cbs, tm1) = listExpiredCb tm now nt
      in (if cbs \<noteq> [] then snd (schedule_range (map (\<lambda>cb. FiberAndThread_cb cb (- 1)) cbs) s) else s, tm1))"

text \<open>
  What \<open>epoll_wait\<close> reported, one entry per event: a byte in the wake-up pipe, or event bits for a
  descriptor context. A round takes the stop decision, waits, schedules the callbacks of the expired
  timers (\<open>now'\<close> is the time after the wait, \<open>nt\<close> the address of the probe timer) and handles the reports
  in order. It yields \<open>None\<close> when the loop ends.
\<close>

datatype Report = TickleReport | FdReport nat u32

fun handle_reports :: "(EpollCtlOp \<Rightarrow> nat \<Rightarrow> u32 \<Rightarrow> bool) \<Rightarrow> Report list \<Rightarrow> 'cb iomanager \<Rightarrow> io_error + 'cb iomanager" where
  "handle_reports ctl [] m = Inr m"
| "handle_reports ctl (TickleReport # rs) m = handle_reports ctl rs m"
| "handle_reports ctl (FdReport i evs # rs) m = bindE (handle_event ctl i evs m) (handle_reports ctl rs)"

definition idle_round ::
    "(EpollCtlOp \<Rightarrow> nat \<Rightarrow> u32 \<Rightarrow> bool) \<Rightarrow> u64 \<Rightarrow> u64 \<Rightarrow> taddr \<Rightarrow> Report list
      \<Rightarrow> 'cb timer_mgr \<Rightarrow> 'cb scheduler \<Rightarrow> 'cb iomanager
      \<Rightarrow> io_error + (int \<times> 'cb timer_mgr \<times> 'cb scheduler \<times> 'cb iomanager) option" where
  "idle_round ctl now now' nt reports tm s m =
     (let (stop, next_timeout, tm1) = im_stopping now tm s m
      in if stop then Inr None
         else let timeout = epoll_timeout next_timeout; (s1, tm2) = schedule_expired now' nt tm1 s
              in bindE (handle_reports ctl reports m) (\<lambda>m1. Inr (Some (timeout, tm2, s1, m1))))"

section \<open>Invariant\<close>

text \<open>A registered event has a scheduler and exactly one of a callback and a fiber; the slot of an event
  that is not registered is empty.\<close>

definition slot_ok :: "bool \<Rightarrow> 'cb event_ctx \<Rightarrow> bool" where
  "slot_ok registered e \<longleftrightarrow>
     (if registered then ev_scheduler e \<noteq> None \<and> (ev_cb e = None) = (ev_fiber e \<noteq> None) else e = empty_ctx)"

definition ctx_ok :: "'cb fd_ctx \<Rightarrow> bool" where
  "ctx_ok c \<longleftrightarrow> fc_events c \<in> {0, 1, 4, 5} \<and> slot_ok (fc_events c AND READ \<noteq> 0) (fc_read c)
     \<and> slot_ok (fc_events c AND WRITE \<noteq> 0) (fc_write c)"

definition registered :: "'cb fd_ctx \<Rightarrow> int" where
  "registered c = (if fc_events c AND READ \<noteq> 0 then 1 else 0) + (if fc_events c AND WRITE \<noteq> 0 then 1 else 0)"

definition im_inv :: "'cb iomanager \<Rightarrow> bool" where
  "im_inv m \<longleftrightarrow> (\<forall>c \<in> set (m_fdContexts m). ctx_ok c) \<and> m_pendingEventCount m = sum_list (map registered (m_fdContexts m))
     \<and> 32 \<le> length (m_fdContexts m) \<and> length (m_fdContexts m) \<le> MAX_FD"

text \<open>The task that delivers an event.\<close>

definition waiter :: "u32 \<Rightarrow> 'cb fd_ctx \<Rightarrow> nat \<times> 'cb ft" where
  "waiter event c =
     (let e = (if event = READ then fc_read c else fc_write c)
      in (the (ev_scheduler e),
          if ev_cb e \<noteq> None then FiberAndThread_cb (ev_cb e) (- 1) else FiberAndThread_fiber (ev_fiber e) (- 1)))"

lemma mask_eval:
  "(1 :: u32) AND 1 = 1" "(4 :: u32) AND 1 = 0" "(5 :: u32) AND 1 = 1" "(1 :: u32) AND 4 = 0" "(4 :: u32) AND 4 = 4" "(5 :: u32) AND 4 = 4"
  "(1 :: u32) AND NOT 1 = 0" "(4 :: u32) AND NOT 1 = 4" "(5 :: u32) AND NOT 1 = 4"
  "(1 :: u32) AND NOT 4 = 1" "(4 :: u32) AND NOT 4 = 0" "(5 :: u32) AND NOT 4 = 1"
  "(1 :: u32) OR 4 = 5" "(4 :: u32) OR 1 = 5" "(4 :: u32) AND 5 = 4" "(1 :: u32) AND 5 = 1" "(5 :: u32) AND 5 = 5"
  "(1 :: u32) AND NOT 5 = 0" "(4 :: u32) AND NOT 5 = 0" "(5 :: u32) AND NOT 5 = 0"
  by (simp_all)

lemma sum_update:
  fixes f :: "'a \<Rightarrow> int"
  shows "i < length xs \<Longrightarrow> sum_list (map f (xs[i := x])) = sum_list (map f xs) - f (xs ! i) + f x"
  by (induction xs arbitrary: i) (auto split: nat.splits)

lemma im_inv_set_fd:
  assumes "im_inv m" "i < length (m_fdContexts m)" "ctx_ok c" "m_fdContexts m' = (m_fdContexts m)[i := c]"
    "m_pendingEventCount m' = m_pendingEventCount m - registered (m_fdContexts m ! i) + registered c"
  shows "im_inv m'"
  using assms by (auto simp: im_inv_def sum_update dest!: set_update_subset_insert [THEN subsetD])

lemma ctx_at: "im_inv m \<Longrightarrow> i < length (m_fdContexts m) \<Longrightarrow> ctx_ok (m_fdContexts m ! i) \<and> fc_events (m_fdContexts m ! i) \<in> {0, 1, 4, 5}"
  unfolding im_inv_def ctx_ok_def by (meson nth_mem)

lemma slot_empty [simp]: "slot_ok False e \<longleftrightarrow> e = empty_ctx"
  by (simp add: slot_ok_def)

lemma trigger_ok:
  assumes "ctx_ok c" "event = READ \<or> event = WRITE" "fc_events c AND event \<noteq> 0"
  shows "\<exists>c'. triggerEvent event c = Inr (c', waiter event c) \<and> ctx_ok c' \<and> registered c' = registered c - 1
    \<and> fc_events c' = fc_events c AND NOT event
    \<and> (event = READ \<longrightarrow> fc_write c' = fc_write c) \<and> (event = WRITE \<longrightarrow> fc_read c' = fc_read c)"
proof -
  have ev: "fc_events c \<in> {0, 1, 4, 5}" using assms(1) by (simp add: ctx_ok_def)
  let ?e = "if event = READ then fc_read c else fc_write c"
  have slot: "slot_ok True ?e" using assms ev by (auto simp: ctx_ok_def)
  obtain sid where sid: "ev_scheduler ?e = Some sid" using slot by (auto simp: slot_ok_def)
  have one: "(ev_cb ?e = None) = (ev_fiber ?e \<noteq> None)" using slot by (simp add: slot_ok_def)
  have emp: "?e\<lparr>ev_cb := None, ev_scheduler := None\<rparr> = empty_ctx" if "ev_cb ?e \<noteq> None"
    using one that by (simp add: empty_ctx_def)
  have emp2: "?e\<lparr>ev_fiber := None, ev_scheduler := None\<rparr> = empty_ctx" if "ev_cb ?e = None"
    using that by (simp add: empty_ctx_def)
  let ?c = "setContext event empty_ctx (c\<lparr>fc_events := fc_events c AND NOT event\<rparr>)"
  have "triggerEvent event c = Inr (?c, waiter event c)"
  proof (cases "event = READ")
    case True
    then show ?thesis using assms(3) sid emp emp2
      by (cases "ev_cb (fc_read c)") (simp_all add: triggerEvent_def getContext_def waiter_def Let_def setContext_def)
  next
    case False
    then have "event = WRITE" using assms(2) by simp
    then show ?thesis using assms(3) sid emp emp2
      by (cases "ev_cb (fc_write c)") (simp_all add: triggerEvent_def getContext_def waiter_def Let_def setContext_def)
  qed
  moreover have "ctx_ok ?c \<and> registered ?c = registered c - 1 \<and> fc_events ?c = fc_events c AND NOT event"
    using ev assms(2)
    by (elim insertE emptyE disjE) (use assms(1, 3) in \<open>simp_all add: ctx_ok_def registered_def setContext_def mask_eval\<close>)
  ultimately show ?thesis using assms(2) by (intro exI [of _ ?c]) (auto simp: setContext_def)
qed

section \<open>Every operation keeps the invariant\<close>

lemma fire_ok:
  assumes "im_inv m" "i < length (m_fdContexts m)" "event = READ \<or> event = WRITE" "fc_events (m_fdContexts m ! i) AND event \<noteq> 0"
  shows "\<exists>m'. fire_event i event m = Inr m' \<and> im_inv m' \<and> m_posted m' = m_posted m @ [waiter event (m_fdContexts m ! i)]
    \<and> m_pendingEventCount m' = m_pendingEventCount m - 1
    \<and> length (m_fdContexts m') = length (m_fdContexts m)
    \<and> (\<forall>j. j \<noteq> i \<longrightarrow> m_fdContexts m' ! j = m_fdContexts m ! j)
    \<and> fc_events (m_fdContexts m' ! i) = fc_events (m_fdContexts m ! i) AND NOT event
    \<and> (event = READ \<longrightarrow> fc_write (m_fdContexts m' ! i) = fc_write (m_fdContexts m ! i))"
proof -
  let ?c = "m_fdContexts m ! i"
  have "ctx_ok ?c" using assms(1, 2) by (simp add: im_inv_def)
  from trigger_ok [OF this assms(3, 4)] obtain c' where c': "triggerEvent event ?c = Inr (c', waiter event ?c)" "ctx_ok c'"
    "registered c' = registered ?c - 1" "fc_events c' = fc_events ?c AND NOT event"
    "event = READ \<longrightarrow> fc_write c' = fc_write ?c" by blast
  let ?m = "(set_fd i c' m)\<lparr>m_posted := m_posted m @ [waiter event ?c], m_pendingEventCount := m_pendingEventCount m - 1\<rparr>"
  have "fire_event i event m = Inr ?m" by (simp add: fire_event_def c'(1))
  moreover have "im_inv ?m" by (rule im_inv_set_fd [OF assms(1, 2) c'(2)]) (simp_all add: set_fd_def c'(3))
  ultimately show ?thesis using assms(2) c' by (intro exI [of _ ?m]) (auto simp: set_fd_def)
qed

lemma registered_reset:
  assumes "ctx_ok c" "event = READ \<or> event = WRITE" "fc_events c AND event \<noteq> 0"
  shows "let c' = setContext event empty_ctx (c\<lparr>fc_events := fc_events c AND NOT event\<rparr>)
    in ctx_ok c' \<and> registered c' = registered c - 1"
proof -
  have ev: "fc_events c \<in> {0, 1, 4, 5}" using assms(1) by (simp add: ctx_ok_def)
  show ?thesis using ev assms(2)
    by (elim insertE emptyE disjE) (use assms(1, 3) in \<open>simp_all add: ctx_ok_def registered_def setContext_def mask_eval Let_def\<close>)
qed

lemma lookup_ok: "0 \<le> fd \<Longrightarrow> lookup_fd fd m = Inr (if nat fd < length (m_fdContexts m) then Some (m_fdContexts m ! nat fd) else None)"
  by (auto simp: lookup_fd_def)

lemma resetContext_empty [simp]: "resetContext e = empty_ctx"
  by (simp add: resetContext_def empty_ctx_def)

lemma delEvent_ok:
  assumes "im_inv m" "0 \<le> fd" "event = READ \<or> event = WRITE"
  shows "\<exists>b m'. delEvent ctl fd event m = Inr (b, m') \<and> im_inv m' \<and> m_posted m' = m_posted m
    \<and> (b \<longleftrightarrow> nat fd < length (m_fdContexts m) \<and> fc_events (m_fdContexts m ! nat fd) AND event \<noteq> 0
          \<and> ctl (if fc_events (m_fdContexts m ! nat fd) AND NOT event \<noteq> 0 then EPOLL_CTL_MOD else EPOLL_CTL_DEL) (nat fd)
              (EPOLLET OR (fc_events (m_fdContexts m ! nat fd) AND NOT event)))
    \<and> (\<not> b \<longrightarrow> m' = m)
    \<and> (b \<longrightarrow> m_pendingEventCount m' = m_pendingEventCount m - 1
          \<and> fc_events (m_fdContexts m' ! nat fd) = fc_events (m_fdContexts m ! nat fd) AND NOT event)"
proof (cases "nat fd < length (m_fdContexts m) \<and> fc_events (m_fdContexts m ! nat fd) AND event \<noteq> 0
    \<and> ctl (if fc_events (m_fdContexts m ! nat fd) AND NOT event \<noteq> 0 then EPOLL_CTL_MOD else EPOLL_CTL_DEL) (nat fd)
              (EPOLLET OR (fc_events (m_fdContexts m ! nat fd) AND NOT event))")
  case False
  then have "delEvent ctl fd event m = Inr (False, m)" using assms(2) by (auto simp: delEvent_def lookup_ok Let_def)
  then show ?thesis using False assms(1) by blast
next
  case True
  let ?c = "m_fdContexts m ! nat fd"
  let ?c' = "setContext event empty_ctx (?c\<lparr>fc_events := fc_events ?c AND NOT event\<rparr>)"
  let ?m = "set_fd (nat fd) ?c' (m\<lparr>m_pendingEventCount := m_pendingEventCount m - 1\<rparr>)"
  have "ctx_ok ?c" using assms(1) True by (simp add: im_inv_def)
  from registered_reset [OF this assms(3)] True have r: "ctx_ok ?c'" "registered ?c' = registered ?c - 1" by (simp_all add: Let_def)
  have "delEvent ctl fd event m = Inr (True, ?m)"
    using True assms(2, 3) by (auto simp: delEvent_def lookup_ok Let_def getContext_def)
  moreover have "im_inv ?m"
    using True by (intro im_inv_set_fd [OF assms(1) _ r(1), of "nat fd"]) (simp_all add: set_fd_def r(2))
  ultimately show ?thesis using True assms(3) by (intro exI [of _ True] exI [of _ ?m]) (auto simp: set_fd_def setContext_def)
qed

lemma cancelEvent_ok:
  assumes "im_inv m" "0 \<le> fd" "event = READ \<or> event = WRITE"
  shows "\<exists>b m'. cancelEvent ctl fd event m = Inr (b, m') \<and> im_inv m'
    \<and> (b \<longleftrightarrow> nat fd < length (m_fdContexts m) \<and> fc_events (m_fdContexts m ! nat fd) AND event \<noteq> 0
          \<and> ctl (if fc_events (m_fdContexts m ! nat fd) AND NOT event \<noteq> 0 then EPOLL_CTL_MOD else EPOLL_CTL_DEL) (nat fd)
              (EPOLLET OR (fc_events (m_fdContexts m ! nat fd) AND NOT event)))
    \<and> (\<not> b \<longrightarrow> m' = m)
    \<and> (b \<longrightarrow> m_posted m' = m_posted m @ [waiter event (m_fdContexts m ! nat fd)]
          \<and> m_pendingEventCount m' = m_pendingEventCount m - 1
          \<and> fc_events (m_fdContexts m' ! nat fd) = fc_events (m_fdContexts m ! nat fd) AND NOT event)"
proof (cases "nat fd < length (m_fdContexts m) \<and> fc_events (m_fdContexts m ! nat fd) AND event \<noteq> 0
    \<and> ctl (if fc_events (m_fdContexts m ! nat fd) AND NOT event \<noteq> 0 then EPOLL_CTL_MOD else EPOLL_CTL_DEL) (nat fd)
              (EPOLLET OR (fc_events (m_fdContexts m ! nat fd) AND NOT event))")
  case False
  then have "cancelEvent ctl fd event m = Inr (False, m)" using assms(2) by (auto simp: cancelEvent_def lookup_ok Let_def)
  then show ?thesis using False assms(1) by blast
next
  case True
  then obtain m' where m': "fire_event (nat fd) event m = Inr m'" "im_inv m'"
    "m_posted m' = m_posted m @ [waiter event (m_fdContexts m ! nat fd)]" "m_pendingEventCount m' = m_pendingEventCount m - 1"
    "fc_events (m_fdContexts m' ! nat fd) = fc_events (m_fdContexts m ! nat fd) AND NOT event"
    using fire_ok [OF assms(1) _ assms(3)] by blast
  have "cancelEvent ctl fd event m = Inr (True, m')" using True assms(2) m'(1) by (simp add: cancelEvent_def lookup_ok Let_def)
  then show ?thesis using True m' by blast
qed

lemma fire_if_ok:
  assumes "im_inv m" "i < length (m_fdContexts m)" "event = READ \<or> event = WRITE"
    "b \<Longrightarrow> fc_events (m_fdContexts m ! i) AND event \<noteq> 0"
  shows "\<exists>m'. fire_if b i event m = Inr m' \<and> im_inv m'
    \<and> m_posted m' = m_posted m @ (if b then [waiter event (m_fdContexts m ! i)] else [])
    \<and> length (m_fdContexts m') = length (m_fdContexts m)
    \<and> fc_events (m_fdContexts m' ! i) = (if b then fc_events (m_fdContexts m ! i) AND NOT event else fc_events (m_fdContexts m ! i))
    \<and> (event = READ \<longrightarrow> fc_write (m_fdContexts m' ! i) = fc_write (m_fdContexts m ! i))"
proof (cases b)
  case True
  then show ?thesis using fire_ok [OF assms(1-3) assms(4) [OF True]] by (fastforce simp: fire_if_def)
next
  case False
  then show ?thesis using assms(1) by (simp add: fire_if_def)
qed

lemma waiter_write: "fc_write c' = fc_write c \<Longrightarrow> waiter WRITE c' = waiter WRITE c"
  by (simp add: waiter_def)

text \<open>Both slots of a context, one after the other.\<close>

lemma fire_both_ok:
  assumes "im_inv m" "i < length (m_fdContexts m)"
    "br \<Longrightarrow> fc_events (m_fdContexts m ! i) AND READ \<noteq> 0" "bw \<Longrightarrow> fc_events (m_fdContexts m ! i) AND WRITE \<noteq> 0"
  shows "\<exists>m1 m2. fire_if br i READ m = Inr m1 \<and> fire_if bw i WRITE m1 = Inr m2 \<and> im_inv m2
    \<and> fc_events (m_fdContexts m1 ! i) AND WRITE = fc_events (m_fdContexts m ! i) AND WRITE
    \<and> m_posted m2 = m_posted m @ (if br then [waiter READ (m_fdContexts m ! i)] else [])
         @ (if bw then [waiter WRITE (m_fdContexts m ! i)] else [])
    \<and> fc_events (m_fdContexts m2 ! i) = (fc_events (m_fdContexts m ! i) AND NOT (if br then READ else 0)) AND NOT (if bw then WRITE else 0)"
proof -
  let ?c = "m_fdContexts m ! i"
  from fire_if_ok [OF assms(1, 2), of READ br] assms(3) obtain m1 where m1: "fire_if br i READ m = Inr m1" "im_inv m1"
    "m_posted m1 = m_posted m @ (if br then [waiter READ ?c] else [])" "length (m_fdContexts m1) = length (m_fdContexts m)"
    "fc_events (m_fdContexts m1 ! i) = (if br then fc_events ?c AND NOT READ else fc_events ?c)"
    "fc_write (m_fdContexts m1 ! i) = fc_write ?c" by blast
  have keep: "fc_events (m_fdContexts m1 ! i) AND WRITE = fc_events ?c AND WRITE"
    by (simp add: m1(5) word_bw_assocs)
  from fire_if_ok [OF m1(2), of i WRITE bw] assms(2, 4) m1(4) keep obtain m2 where m2: "fire_if bw i WRITE m1 = Inr m2" "im_inv m2"
    "m_posted m2 = m_posted m1 @ (if bw then [waiter WRITE (m_fdContexts m1 ! i)] else [])"
    "fc_events (m_fdContexts m2 ! i) = (if bw then fc_events (m_fdContexts m1 ! i) AND NOT WRITE else fc_events (m_fdContexts m1 ! i))"
    by auto
  show ?thesis by (rule exI [of _ m1], rule exI [of _ m2]) (use m1 m2 keep waiter_write [OF m1(6)] in simp)
qed

lemma or_and_nonzero: "((x OR y) AND z \<noteq> 0) = (x AND z \<noteq> 0 \<or> y AND z \<noteq> (0 :: u32))"
  by (simp add: bit.conj_disj_distrib2 or_eq_0_iff)

lemma both_masked:
  assumes "fc_events c \<in> {0, 1, 4, 5}"
  shows "((READ OR WRITE) AND fc_events c) AND READ = fc_events c AND READ"
    "((READ OR WRITE) AND fc_events c) AND WRITE = fc_events c AND WRITE"
  using assms by (auto simp: mask_eval)

lemma cancelAll_ok:
  assumes "im_inv m" "0 \<le> fd"
  shows "\<exists>b m'. cancelAll ctl fd m = Inr (b, m') \<and> im_inv m'
    \<and> (b \<longleftrightarrow> nat fd < length (m_fdContexts m) \<and> fc_events (m_fdContexts m ! nat fd) \<noteq> 0 \<and> ctl EPOLL_CTL_DEL (nat fd) 0)
    \<and> (\<not> b \<longrightarrow> m' = m)
    \<and> (b \<longrightarrow> fc_events (m_fdContexts m' ! nat fd) = 0 \<and> m_posted m' = m_posted m
         @ (if fc_events (m_fdContexts m ! nat fd) AND READ \<noteq> 0 then [waiter READ (m_fdContexts m ! nat fd)] else [])
         @ (if fc_events (m_fdContexts m ! nat fd) AND WRITE \<noteq> 0 then [waiter WRITE (m_fdContexts m ! nat fd)] else []))"
proof (cases "nat fd < length (m_fdContexts m) \<and> fc_events (m_fdContexts m ! nat fd) \<noteq> 0 \<and> ctl EPOLL_CTL_DEL (nat fd) 0")
  case False
  then have "cancelAll ctl fd m = Inr (False, m)" using assms(2) by (auto simp: cancelAll_def lookup_ok)
  then show ?thesis using False assms(1) by blast
next
  case True
  let ?c = "m_fdContexts m ! nat fd"
  have ev: "fc_events ?c \<in> {0, 1, 4, 5}" using ctx_at [OF assms(1)] True by blast
  from fire_both_ok [OF assms(1), of "nat fd" "fc_events ?c AND READ \<noteq> 0" "fc_events ?c AND WRITE \<noteq> 0"] True
  obtain m1 m2 where f: "fire_if (fc_events ?c AND READ \<noteq> 0) (nat fd) READ m = Inr m1"
    "fire_if (fc_events ?c AND WRITE \<noteq> 0) (nat fd) WRITE m1 = Inr m2" "im_inv m2"
    "fc_events (m_fdContexts m1 ! nat fd) AND WRITE = fc_events ?c AND WRITE"
    "m_posted m2 = m_posted m @ (if fc_events ?c AND READ \<noteq> 0 then [waiter READ ?c] else [])
         @ (if fc_events ?c AND WRITE \<noteq> 0 then [waiter WRITE ?c] else [])"
    "fc_events (m_fdContexts m2 ! nat fd) = (fc_events ?c AND NOT (if fc_events ?c AND READ \<noteq> 0 then READ else 0))
        AND NOT (if fc_events ?c AND WRITE \<noteq> 0 then WRITE else 0)" by blast
  have z: "fc_events (m_fdContexts m2 ! nat fd) = 0" unfolding f(6) using ev by (elim insertE emptyE) (simp_all add: mask_eval)
  have "cancelAll ctl fd m = Inr (True, m2)"
    using True assms(2) f(1, 2) by (simp add: cancelAll_def lookup_ok f(4) z)
  then show ?thesis using True f(3, 5) z by blast
qed

lemma handle_ok:
  assumes "im_inv m" "i < length (m_fdContexts m)"
    "evs AND READ \<noteq> 0 \<Longrightarrow> fc_events (m_fdContexts m ! i) AND READ \<noteq> 0"
    "evs AND WRITE \<noteq> 0 \<Longrightarrow> fc_events (m_fdContexts m ! i) AND WRITE \<noteq> 0"
  defines "c \<equiv> m_fdContexts m ! i"
  defines "err \<equiv> evs AND (EPOLLERR OR EPOLLHUP) \<noteq> 0"
  defines "br \<equiv> fc_events c AND READ \<noteq> 0 \<and> (evs AND READ \<noteq> 0 \<or> err)"
  defines "bw \<equiv> fc_events c AND WRITE \<noteq> 0 \<and> (evs AND WRITE \<noteq> 0 \<or> err)"
  shows "\<exists>m'. handle_event ctl i evs m = Inr m' \<and> im_inv m'
    \<and> (m' = m \<or> (m_posted m' = m_posted m @ (if br then [waiter READ c] else []) @ (if bw then [waiter WRITE c] else [])
         \<and> fc_events (m_fdContexts m' ! i) = (fc_events c AND NOT (if br then READ else 0)) AND NOT (if bw then WRITE else 0)))
    \<and> ((\<forall>op e. ctl op i e) \<and> (br \<or> bw) \<longrightarrow> m_posted m' = m_posted m @ (if br then [waiter READ c] else []) @ (if bw then [waiter WRITE c] else []))"
proof -
  have ev: "fc_events c \<in> {0, 1, 4, 5}" unfolding c_def using ctx_at [OF assms(1, 2)] by blast
  let ?evs = "if err then evs OR ((READ OR WRITE) AND fc_events c) else evs"
  have r: "(?evs AND READ \<noteq> 0) = br" "(?evs AND WRITE \<noteq> 0) = bw"
    using assms(3, 4) both_masked [OF ev] by (auto simp: br_def bw_def c_def or_and_nonzero)
  let ?real = "(if br then READ else NONE) OR (if bw then WRITE else NONE)"
  have real: "(?real AND READ \<noteq> 0) = br" "(?real AND WRITE \<noteq> 0) = bw" by (auto simp: mask_eval)
  have hit: "(fc_events c AND ?real = NONE) = (\<not> br \<and> \<not> bw)"
    using ev by (auto simp: br_def bw_def mask_eval)
  let ?left = "fc_events c AND NOT ?real"
  let ?op = "if ?left \<noteq> 0 then EPOLL_CTL_MOD else EPOLL_CTL_DEL"
  have eq: "handle_event ctl i evs m =
      (if \<not> br \<and> \<not> bw then Inr m
       else if \<not> ctl ?op i (EPOLLET OR ?left) then Inr m
       else bindE (fire_if br i READ m) (fire_if bw i WRITE))"
    unfolding handle_event_def Let_def c_def [symmetric] err_def [symmetric] r hit real by simp
  from fire_both_ok [OF assms(1, 2), of br bw] obtain m1 m2 where f: "fire_if br i READ m = Inr m1" "fire_if bw i WRITE m1 = Inr m2" "im_inv m2"
    "m_posted m2 = m_posted m @ (if br then [waiter READ c] else []) @ (if bw then [waiter WRITE c] else [])"
    "fc_events (m_fdContexts m2 ! i) = (fc_events c AND NOT (if br then READ else 0)) AND NOT (if bw then WRITE else 0)"
    unfolding c_def [symmetric] by (auto simp: br_def bw_def)
  show ?thesis
  proof (cases "(br \<or> bw) \<and> ctl ?op i (EPOLLET OR ?left)")
    case True
    then have "handle_event ctl i evs m = Inr m2" unfolding eq using f(1, 2) by auto
    then show ?thesis using f(3, 4, 5) by blast
  next
    case False
    then have "handle_event ctl i evs m = Inr m" unfolding eq by auto
    then show ?thesis using assms(1) False by blast
  qed
qed

lemma contextResize_grows:
  assumes "im_inv m" "length (m_fdContexts m) \<le> i"
  shows "im_inv (contextResize (3 * i div 2) m)
    \<and> length (m_fdContexts (contextResize (3 * i div 2) m)) = min (3 * i div 2) MAX_FD
    \<and> m_posted (contextResize (3 * i div 2) m) = m_posted m
    \<and> m_pendingEventCount (contextResize (3 * i div 2) m) = m_pendingEventCount m"
proof -
  let ?sz = "min (3 * i div 2) MAX_FD" and ?old = "m_fdContexts m"
  have len: "32 \<le> length ?old" "length ?old \<le> MAX_FD" using assms(1) by (simp_all add: im_inv_def)
  have sz: "length ?old \<le> ?sz" using assms(2) len by auto
  have ctx: "m_fdContexts (contextResize (3 * i div 2) m) = ?old @ map FdContext [length ?old..<?sz]"
    using sz by (auto simp: contextResize_def Let_def min_def split: if_splits)
  have new: "ctx_ok (FdContext j)" "registered (FdContext j) = 0" for j
    by (simp_all add: ctx_ok_def FdContext_def registered_def)
  have zero: "sum_list (map (registered \<circ> FdContext) js) = 0" for js by (induction js) (simp_all add: new)
  show ?thesis
    using assms(1) sz len by (auto simp: im_inv_def ctx new zero contextResize_def Let_def)
qed

lemma register_ok:
  assumes "ctx_ok c" "event = READ \<or> event = WRITE" "fc_events c AND event = 0" "slot_ok True e"
  shows "ctx_ok (setContext event e (c\<lparr>fc_events := fc_events c OR event\<rparr>))
    \<and> registered (setContext event e (c\<lparr>fc_events := fc_events c OR event\<rparr>)) = registered c + 1"
proof -
  have ev: "fc_events c \<in> {0, 1, 4, 5}" using assms(1) by (simp add: ctx_ok_def)
  show ?thesis using ev assms(2)
    by (elim insertE emptyE disjE) (use assms(1, 3, 4) in \<open>simp_all add: ctx_ok_def registered_def setContext_def mask_eval\<close>)
qed

lemma slot_free:
  assumes "ctx_ok c" "event = READ \<or> event = WRITE" "fc_events c AND event = 0"
  shows "getContext event (c\<lparr>fc_events := fc_events c OR event\<rparr>) = Inr empty_ctx"
  using assms by (auto simp: ctx_ok_def getContext_def)

text \<open>A successful registration, for a descriptor inside the table.\<close>

lemma addEvent_ok:
  assumes "im_inv m" "0 \<le> fd" "fd < int MAX_FD" "event = READ \<or> event = WRITE"
    "cb \<noteq> None \<or> cur = Some (p, EXEC)"
  defines "m1 \<equiv> if length (m_fdContexts m) \<le> nat fd then contextResize (3 * nat fd div 2) m else m"
  defines "c \<equiv> m_fdContexts m1 ! nat fd"
  assumes "fc_events c AND event = 0"
  shows "\<exists>m'. addEvent ctl (Some sid) cur fd event cb m
      = Inr (if ctl (if fc_events c \<noteq> 0 then EPOLL_CTL_MOD else EPOLL_CTL_ADD) (nat fd) (EPOLLET OR fc_events c OR event) then 0 else - 1, m')
    \<and> im_inv m' \<and> m_posted m' = m_posted m
    \<and> (ctl (if fc_events c \<noteq> 0 then EPOLL_CTL_MOD else EPOLL_CTL_ADD) (nat fd) (EPOLLET OR fc_events c OR event) \<longrightarrow>
         m_pendingEventCount m' = m_pendingEventCount m + 1
         \<and> fc_events (m_fdContexts m' ! nat fd) AND event \<noteq> 0
         \<and> waiter event (m_fdContexts m' ! nat fd)
             = (sid, case cb of Some f \<Rightarrow> FiberAndThread_cb (Some f) (- 1) | None \<Rightarrow> FiberAndThread_fiber (Some p) (- 1)))"
proof -
  let ?i = "nat fd"
  have m1: "im_inv m1" "?i < length (m_fdContexts m1)" "m_posted m1 = m_posted m" "m_pendingEventCount m1 = m_pendingEventCount m"
    using contextResize_grows [OF assms(1), of ?i] assms(1-3) unfolding m1_def
    by (auto simp: im_inv_def MAX_FD_def split: if_splits)
  have fd: "\<not> MAX_FD < unat (of_int fd :: u32)"
    using assms(2, 3) by (simp add: MAX_FD_def unat_eq_nat_uint word_of_int_eq_iff uint_word_of_int take_bit_int_eq_self not_less nat_le_iff)
  have ok: "ctx_ok c" using ctx_at [OF m1(1, 2)] by (simp add: c_def)
  let ?c1 = "c\<lparr>fc_events := fc_events c OR event\<rparr>"
  note free = slot_free [OF ok assms(4, 8)]
  let ?e = "case cb of Some f \<Rightarrow> empty_ctx\<lparr>ev_scheduler := Some sid, ev_cb := Some f\<rparr>
     | None \<Rightarrow> empty_ctx\<lparr>ev_scheduler := Some sid, ev_fiber := Some p\<rparr>"
  have slot: "slot_ok True ?e" by (cases cb) (simp_all add: slot_ok_def empty_ctx_def)
  note reg = register_ok [OF ok assms(4, 8) slot]
  let ?m2 = "set_fd ?i (setContext event ?e ?c1) (m1\<lparr>m_pendingEventCount := m_pendingEventCount m1 + 1\<rparr>)"
  let ?ok = "ctl (if fc_events c \<noteq> 0 then EPOLL_CTL_MOD else EPOLL_CTL_ADD) ?i (EPOLLET OR fc_events c OR event)"
  have inv2: "im_inv ?m2"
    by (rule im_inv_set_fd [OF m1(1, 2), of "setContext event ?e ?c1"]) (use reg in \<open>simp_all add: set_fd_def c_def\<close>)
  have eq: "addEvent ctl (Some sid) cur fd event cb m = (if ?ok then Inr (0, ?m2) else Inr (- 1, m1))"
    unfolding addEvent_def using fd m1(2) assms(5, 8) free
    by (cases cb) (auto simp: Let_def m1_def [symmetric] c_def [symmetric] not_le empty_ctx_def)
  have w: "waiter event (setContext event ?e ?c1)
      = (sid, case cb of Some f \<Rightarrow> FiberAndThread_cb (Some f) (- 1) | None \<Rightarrow> FiberAndThread_fiber (Some p) (- 1))"
    using assms(4) by (cases cb) (auto simp: waiter_def setContext_def empty_ctx_def Let_def)
  have b: "fc_events (setContext event ?e ?c1) AND event \<noteq> 0"
    using assms(4) by (auto simp: setContext_def bit.conj_disj_distrib2 or_eq_0_iff)
  show ?thesis
  proof (cases ?ok)
    case True
    then show ?thesis unfolding eq using inv2 m1 w b by (intro exI [of _ ?m2]) (simp add: set_fd_def)
  next
    case False
    then show ?thesis unfolding eq using m1 by (intro exI [of _ m1]) simp
  qed
qed

section \<open>Reachable managers\<close>

text \<open>
  The operations as the program uses them: events are added under a scheduler by a running fiber or with a callback,
  the descriptors are valid ones, and what \<open>epoll_wait\<close> reports for a descriptor is registered there (besides errors
  and hang-ups).
\<close>

inductive im_step :: "'cb iomanager \<Rightarrow> 'cb iomanager \<Rightarrow> bool" where
  is_add: "0 \<le> fd \<Longrightarrow> event = READ \<or> event = WRITE \<Longrightarrow> addEvent ctl (Some sid) cur fd event cb m = Inr (rt, m') \<Longrightarrow> im_step m m'"
| is_del: "0 \<le> fd \<Longrightarrow> event = READ \<or> event = WRITE \<Longrightarrow> delEvent ctl fd event m = Inr (b, m') \<Longrightarrow> im_step m m'"
| is_cancel: "0 \<le> fd \<Longrightarrow> event = READ \<or> event = WRITE \<Longrightarrow> cancelEvent ctl fd event m = Inr (b, m') \<Longrightarrow> im_step m m'"
| is_cancel_all: "0 \<le> fd \<Longrightarrow> cancelAll ctl fd m = Inr (b, m') \<Longrightarrow> im_step m m'"
| is_event: "i < length (m_fdContexts m)
    \<Longrightarrow> (evs AND READ \<noteq> 0 \<longrightarrow> fc_events (m_fdContexts m ! i) AND READ \<noteq> 0)
    \<Longrightarrow> (evs AND WRITE \<noteq> 0 \<longrightarrow> fc_events (m_fdContexts m ! i) AND WRITE \<noteq> 0)
    \<Longrightarrow> handle_event ctl i evs m = Inr m' \<Longrightarrow> im_step m m'"

inductive im_reachable :: "'cb iomanager \<Rightarrow> bool" where
  ir_init: "im_reachable IOManager"
| ir_step: "im_reachable m \<Longrightarrow> im_step m m' \<Longrightarrow> im_reachable m'"

lemma addEvent_inv:
  assumes "im_inv m" "0 \<le> fd" "event = READ \<or> event = WRITE" "addEvent ctl (Some sid) cur fd event cb m = Inr (rt, m')"
  shows "im_inv m'"
proof (cases "unat (of_int fd :: u32) > MAX_FD")
  case True
  then show ?thesis using assms(1, 4) by (simp add: addEvent_def)
next
  case False
  define m1 where "m1 = (if length (m_fdContexts m) \<le> nat fd then contextResize (3 * nat fd div 2) m else m)"
  define c where "c = m_fdContexts m1 ! nat fd"
  have m1: "im_inv m1" using assms(1) contextResize_grows unfolding m1_def by auto
  have go: "nat fd < length (m_fdContexts m1)" "fc_events c AND event = 0"
    using assms(4) False by (auto simp: addEvent_def Let_def m1_def [symmetric] c_def [symmetric] split: if_splits)
  have "fd < int MAX_FD" using go(1) m1 assms(2) by (auto simp: im_inv_def nat_less_iff)
  show ?thesis
  proof (cases "cb \<noteq> None \<or> (\<exists>p. cur = Some (p, EXEC))")
    case True
    then obtain p where "cb \<noteq> None \<or> cur = Some (p, EXEC)" by blast
    from addEvent_ok [OF assms(1, 2) \<open>fd < int MAX_FD\<close> assms(3) this, of ctl sid] go(2) assms(4) show ?thesis
      unfolding m1_def [symmetric] c_def [symmetric] by auto
  next
    case no: False
    have free: "getContext event (c\<lparr>fc_events := fc_events c OR event\<rparr>) = Inr empty_ctx"
      using ctx_at [OF m1 go(1)] assms(3) go(2) by (intro slot_free) (auto simp: c_def)
    have "m' = m1"
      using assms(4) False go no free
      by (auto simp: addEvent_def Let_def m1_def [symmetric] c_def [symmetric] empty_ctx_def split: if_splits option.splits prod.splits State.splits)
    then show ?thesis using m1 by simp
  qed
qed

lemma im_step_inv: "im_step m m' \<Longrightarrow> im_inv m \<Longrightarrow> im_inv m'"
proof (induction rule: im_step.induct)
  case (is_add fd event ctl sid cur cb m rt m')
  then show ?case using addEvent_inv by blast
next
  case (is_del fd event ctl m b m')
  then show ?case using delEvent_ok [of m fd event ctl] by auto
next
  case (is_cancel fd event ctl m b m')
  then show ?case using cancelEvent_ok [of m fd event ctl] by auto
next
  case (is_cancel_all fd ctl m b m')
  then show ?case using cancelAll_ok [of m fd ctl] by auto
next
  case (is_event i m evs ctl m')
  then show ?case using handle_ok [of m i evs ctl] by auto
qed

lemma im_inv_init: "im_inv IOManager"
proof -
  have "im_inv (IOManager :: 'a iomanager) \<longleftrightarrow> (\<forall>c \<in> set (map FdContext [0..<32]). ctx_ok (c :: 'a fd_ctx))
      \<and> 0 = sum_list (map registered (map FdContext [0..<32] :: 'a fd_ctx list))"
    by (simp add: im_inv_def IOManager_def contextResize_def Let_def MAX_FD_def)
  moreover have "ctx_ok (FdContext j :: 'a fd_ctx)" "registered (FdContext j :: 'a fd_ctx) = 0" for j
    by (simp_all add: ctx_ok_def FdContext_def registered_def)
  moreover have "sum_list (map (registered \<circ> FdContext :: nat \<Rightarrow> int) js) = 0" for js :: "nat list" by (induction js) (simp_all add: ctx_ok_def FdContext_def registered_def)
  ultimately show ?thesis by (auto simp: comp_def FdContext_def registered_def)
qed

lemma im_reachable_inv: "im_reachable m \<Longrightarrow> im_inv m"
  by (induction rule: im_reachable.induct) (blast intro: im_inv_init im_step_inv)+

lemma u32_of_int_big:
  assumes "- (2 ^ 31) \<le> fd" "fd < 2 ^ 31" "fd < 0 \<or> fd > 65535"
  shows "65535 < unat (of_int fd :: u32)"
proof (cases "fd < 0")
  case True
  then have "uint (of_int fd :: u32) = fd + 2 ^ 32"
    using assms(1) mod_add_self2 [of fd "2 ^ 32"] mod_pos_pos_trivial [of "fd + 2 ^ 32" "2 ^ 32"]
    by (simp add: uint_word_of_int take_bit_eq_mod)
  then show ?thesis using assms(1) True by (simp add: unat_eq_nat_uint zless_nat_eq_int_zless)
next
  case False
  then have "uint (of_int fd :: u32) = fd" using assms(2) by (simp add: uint_word_of_int take_bit_int_eq_self)
  then show ?thesis using assms(3) False by (simp add: unat_eq_nat_uint zless_nat_eq_int_zless)
qed

lemma sint_ucast_u32: "sint (ucast (n :: u64) :: u32) = signed_take_bit 31 (uint n)"
  by (simp add: sint_uint unsigned_ucast_eq signed_take_bit_take_bit)

lemma pending_zero:
  assumes "im_inv m"
  shows "m_pendingEventCount m = 0 \<longleftrightarrow> (\<forall>c \<in> set (m_fdContexts m). fc_events c = NONE)"
proof -
  have nonneg: "0 \<le> registered c" for c :: "'a fd_ctx" by (simp add: registered_def)
  have zero: "registered c = 0 \<longleftrightarrow> fc_events c = NONE" if "c \<in> set (m_fdContexts m)" for c
  proof -
    have "fc_events c \<in> {0, 1, 4, 5}" using assms that by (auto simp: im_inv_def ctx_ok_def)
    then show ?thesis by (elim insertE emptyE) (simp_all add: registered_def mask_eval)
  qed
  have "sum_list (map registered cs) = 0 \<longleftrightarrow> (\<forall>c \<in> set cs. registered c = 0)" for cs :: "'a fd_ctx list"
    using nonneg by (subst sum_list_nonneg_eq_0_iff) auto
  then show ?thesis using assms zero by (auto simp: im_inv_def)
qed

section \<open>Properties\<close>

text \<open>C8. In every state the I/O manager can reach, the pending counter is the number of registered events, each
  registered event has exactly one waiter (a callback or a fiber, with a scheduler) and each other slot is
  empty; so the counter is zero, as the stop condition asks, exactly when nobody waits for an event.\<close>

theorem pending_counts_waiters:
  assumes "im_reachable m"
  shows "m_pendingEventCount m = sum_list (map registered (m_fdContexts m))
    \<and> (\<forall>c \<in> set (m_fdContexts m). ctx_ok c)
    \<and> (m_pendingEventCount m = 0 \<longleftrightarrow> (\<forall>c \<in> set (m_fdContexts m). fc_events c = NONE))"
  using im_reachable_inv [OF assms] pending_zero [OF im_reachable_inv [OF assms]] by (simp add: im_inv_def)

definition all_ok :: "EpollCtlOp \<Rightarrow> nat \<Rightarrow> u32 \<Rightarrow> bool" where
  "all_ok op fd e = True"

definition demo_im :: "nat iomanager" where
  "demo_im = set_fd 3 \<lparr>fc_read = \<lparr>ev_scheduler = Some 0, ev_fiber = None, ev_cb = Some 7\<rparr>, fc_write = empty_ctx, fc_fd = 3, fc_events = READ\<rparr>
     (IOManager\<lparr>m_pendingEventCount := 1\<rparr>)"

lemma IOManager_table: "m_fdContexts (IOManager :: 'cb iomanager) = map FdContext [0..<32]"
  by (simp add: IOManager_def contextResize_def Let_def MAX_FD_def)

lemma demo_im_reachable: "im_reachable demo_im"
proof (rule ir_step [OF ir_init])
  have "addEvent all_ok (Some 0) None 3 READ (Some 7) IOManager = Inr (0, demo_im)"
    by (simp add: addEvent_def all_ok_def MAX_FD_def IOManager_table Let_def FdContext_def getContext_def setContext_def empty_ctx_def demo_im_def)
      (simp add: IOManager_def contextResize_def Let_def MAX_FD_def set_fd_def)
  then show "im_step IOManager demo_im" by (rule is_add [rotated 2]) simp_all
qed

lemma demo_im_ctx: "m_fdContexts demo_im ! 3
    = \<lparr>fc_read = \<lparr>ev_scheduler = Some 0, ev_fiber = None, ev_cb = Some 7\<rparr>, fc_write = empty_ctx, fc_fd = 3, fc_events = READ\<rparr>"
  "length (m_fdContexts demo_im) = 32" "m_posted demo_im = []"
  by (simp_all add: demo_im_def set_fd_def IOManager_table) (simp add: IOManager_def contextResize_def Let_def)

theorem pending_counts_waiters_witness: "m_pendingEventCount demo_im = 1 \<and> sum_list (map registered (m_fdContexts demo_im)) = 1"
proof -
  have "m_pendingEventCount demo_im = 1" by (simp add: demo_im_def set_fd_def)
  then show ?thesis using pending_counts_waiters [OF demo_im_reachable] by simp
qed

lemma delEvent_clears:
  assumes "im_inv m" "0 \<le> fd" "nat fd < length (m_fdContexts m)" "event = READ \<or> event = WRITE" "\<forall>op e. ctl op (nat fd) e"
  defines "c \<equiv> m_fdContexts m ! nat fd"
  shows "\<exists>m'. delEvent ctl fd event m = Inr (fc_events c AND event \<noteq> 0, m') \<and> m_posted m' = m_posted m \<and> fc_events (m_fdContexts m' ! nat fd) AND event = 0"
proof -
  have in_range: "(nat fd < length (m_fdContexts m)) = True" "ctl op (nat fd) e = True" for op e using assms(3, 5) by simp_all
  have cleared: "(x AND NOT event) AND event = 0" for x :: u32 by (simp add: word_bw_assocs)
  obtain b m' where d: "delEvent ctl fd event m = Inr (b, m')" "m_posted m' = m_posted m" "b = (fc_events c AND event \<noteq> 0)" "\<not> b \<longrightarrow> m' = m"
    "b \<longrightarrow> fc_events (m_fdContexts m' ! nat fd) = fc_events c AND NOT event"
    using delEvent_ok [OF assms(1, 2, 4), of ctl, unfolded in_range c_def [symmetric]] by blast
  then have "fc_events (m_fdContexts m' ! nat fd) AND event = 0" using cleared by (cases b) (simp_all add: c_def)
  then show ?thesis using d(1-3) by blast
qed

lemma cancelEvent_posts:
  assumes "im_inv m" "0 \<le> fd" "nat fd < length (m_fdContexts m)" "event = READ \<or> event = WRITE" "\<forall>op e. ctl op (nat fd) e"
  defines "c \<equiv> m_fdContexts m ! nat fd"
  shows "\<exists>m'. cancelEvent ctl fd event m = Inr (fc_events c AND event \<noteq> 0, m')
    \<and> m_posted m' = m_posted m @ (if fc_events c AND event \<noteq> 0 then [waiter event c] else []) \<and> fc_events (m_fdContexts m' ! nat fd) AND event = 0"
proof -
  have in_range: "(nat fd < length (m_fdContexts m)) = True" "ctl op (nat fd) e = True" for op e using assms(3, 5) by simp_all
  have cleared: "(x AND NOT event) AND event = 0" for x :: u32 by (simp add: word_bw_assocs)
  obtain b m' where k: "cancelEvent ctl fd event m = Inr (b, m')" "b = (fc_events c AND event \<noteq> 0)" "\<not> b \<longrightarrow> m' = m"
    "b \<longrightarrow> m_posted m' = m_posted m @ [waiter event c] \<and> fc_events (m_fdContexts m' ! nat fd) = fc_events c AND NOT event"
    using cancelEvent_ok [OF assms(1, 2, 4), of ctl, unfolded in_range c_def [symmetric]] by blast
  then have "fc_events (m_fdContexts m' ! nat fd) AND event = 0" "m_posted m' = m_posted m @ (if b then [waiter event c] else [])"
    using cleared by (cases b; simp add: c_def)+
  then show ?thesis using k(1, 2) by blast
qed

lemma cancelAll_posts:
  assumes "im_inv m" "0 \<le> fd" "nat fd < length (m_fdContexts m)" "\<forall>op e. ctl op (nat fd) e"
  defines "c \<equiv> m_fdContexts m ! nat fd"
  shows "\<exists>b m'. cancelAll ctl fd m = Inr (b, m') \<and> fc_events (m_fdContexts m' ! nat fd) = 0
    \<and> m_posted m' = m_posted m @ (if fc_events c AND READ \<noteq> 0 then [waiter READ c] else []) @ (if fc_events c AND WRITE \<noteq> 0 then [waiter WRITE c] else [])"
proof -
  have in_range: "(nat fd < length (m_fdContexts m)) = True" "ctl op (nat fd) e = True" for op e using assms(3, 4) by simp_all
  obtain b m' where a: "cancelAll ctl fd m = Inr (b, m')" "b \<longleftrightarrow> fc_events c \<noteq> 0" "\<not> b \<longrightarrow> m' = m"
    "b \<longrightarrow> fc_events (m_fdContexts m' ! nat fd) = 0
      \<and> m_posted m' = m_posted m @ (if fc_events c AND READ \<noteq> 0 then [waiter READ c] else []) @ (if fc_events c AND WRITE \<noteq> 0 then [waiter WRITE c] else [])"
    using cancelAll_ok [OF assms(1, 2), of ctl, unfolded in_range c_def [symmetric]] by blast
  then have "fc_events (m_fdContexts m' ! nat fd) = 0"
    "m_posted m' = m_posted m @ (if fc_events c AND READ \<noteq> 0 then [waiter READ c] else []) @ (if fc_events c AND WRITE \<noteq> 0 then [waiter WRITE c] else [])"
    by (cases b; simp add: c_def)+
  then show ?thesis using a(1) by blast
qed

lemma handle_posts:
  assumes "im_inv m" "nat fd < length (m_fdContexts m)" "\<forall>op e. ctl op (nat fd) e"
    "evs AND READ \<noteq> 0 \<longrightarrow> fc_events (m_fdContexts m ! nat fd) AND READ \<noteq> 0" "evs AND WRITE \<noteq> 0 \<longrightarrow> fc_events (m_fdContexts m ! nat fd) AND WRITE \<noteq> 0"
  defines "c \<equiv> m_fdContexts m ! nat fd" and "got \<equiv> \<lambda>e. evs AND e \<noteq> 0 \<or> evs AND (EPOLLERR OR EPOLLHUP) \<noteq> 0"
  shows "\<exists>m'. handle_event ctl (nat fd) evs m = Inr m'
    \<and> m_posted m' = m_posted m @ (if fc_events c AND READ \<noteq> 0 \<and> got READ then [waiter READ c] else [])
        @ (if fc_events c AND WRITE \<noteq> 0 \<and> got WRITE then [waiter WRITE c] else [])"
proof -
  let ?br = "fc_events c AND READ \<noteq> 0 \<and> got READ" and ?bw = "fc_events c AND WRITE \<noteq> 0 \<and> got WRITE"
  have r: "evs AND READ \<noteq> 0 \<Longrightarrow> fc_events c AND READ \<noteq> 0" "evs AND WRITE \<noteq> 0 \<Longrightarrow> fc_events c AND WRITE \<noteq> 0" using assms(4, 5) by (simp_all add: c_def)
  obtain m' where h: "handle_event ctl (nat fd) evs m = Inr m'"
    "m' = m \<or> m_posted m' = m_posted m @ (if ?br then [waiter READ c] else []) @ (if ?bw then [waiter WRITE c] else [])"
    "?br \<or> ?bw \<longrightarrow> m_posted m' = m_posted m @ (if ?br then [waiter READ c] else []) @ (if ?bw then [waiter WRITE c] else [])"
    using handle_ok [OF assms(1, 2), of evs ctl, OF r [unfolded c_def]] assms(3) unfolding c_def [symmetric] got_def by blast
  then have "m_posted m' = m_posted m @ (if ?br then [waiter READ c] else []) @ (if ?bw then [waiter WRITE c] else [])" by (cases "?br \<or> ?bw") auto
  then show ?thesis using h(1) by blast
qed



text \<open>The error paths of the registration: a descriptor above 65535 or a negative one is ignored with the
  result 0 and nothing registered; 65535 itself passes the check and is indexed past the table; an event
  that is already registered fails the assertion. An event reported for a waiter that is gone
  (deregistered between \<open>epoll_wait\<close> and its handling) fails the assertion of \<open>triggerEvent\<close> while the other
  waiter of the descriptor is still registered, and is ignored otherwise.\<close>

theorem event_error_paths:
  assumes "im_reachable m"
  shows "(\<forall>fd. - (2 ^ 31) \<le> fd \<and> fd < 2 ^ 31 \<and> (fd < 0 \<or> fd > 65535) \<longrightarrow> addEvent ctl self cur fd event cb m = Inr (0, m))
    \<and> addEvent ctl self cur 65535 event cb m = Inl IoIndex
    \<and> (\<forall>i < length (m_fdContexts m). fc_events (m_fdContexts m ! i) AND event \<noteq> 0 \<longrightarrow> addEvent ctl self cur (int i) event cb m = Inl IoAssert)
    \<and> (\<forall>i < length (m_fdContexts m). fc_events (m_fdContexts m ! i) = WRITE \<and> ctl EPOLL_CTL_DEL i EPOLLET \<longrightarrow>
         handle_event ctl i (READ OR WRITE) m = Inl IoAssert)
    \<and> (\<forall>i < length (m_fdContexts m). fc_events (m_fdContexts m ! i) = WRITE \<longrightarrow> handle_event ctl i READ m = Inr m)"
proof -
  have inv: "im_inv m" by (rule im_reachable_inv [OF assms])
  have len: "length (m_fdContexts m) \<le> MAX_FD" using inv by (simp add: im_inv_def)
  have ignored: "addEvent ctl self cur fd event cb m = Inr (0, m)" if "- (2 ^ 31) \<le> fd" "fd < 2 ^ 31" "fd < 0 \<or> fd > 65535" for fd
    using u32_of_int_big [OF that] by (simp add: addEvent_def MAX_FD_def)
  have last: "addEvent ctl self cur 65535 event cb m = Inl IoIndex"
    using contextResize_grows [OF inv, of 65535] len by (simp add: addEvent_def Let_def MAX_FD_def)
  have twice: "addEvent ctl self cur (int i) event cb m = Inl IoAssert"
    if "i < length (m_fdContexts m)" "fc_events (m_fdContexts m ! i) AND event \<noteq> 0" for i
  proof -
    have "unat (of_nat i :: u32) = i" using that(1) len by (simp add: MAX_FD_def unat_of_nat)
    then show ?thesis using that len by (simp add: addEvent_def Let_def)
  qed
  have stale: "handle_event ctl i (READ OR WRITE) m = Inl IoAssert"
    if "fc_events (m_fdContexts m ! i) = WRITE" "ctl EPOLL_CTL_DEL i EPOLLET" for i
    using that by (simp add: handle_event_def Let_def EPOLLERR_def EPOLLHUP_def fire_if_def fire_event_def triggerEvent_def mask_eval)
  have gone: "handle_event ctl i READ m = Inr m" if "fc_events (m_fdContexts m ! i) = WRITE" for i
    using that by (simp add: handle_event_def Let_def EPOLLERR_def EPOLLHUP_def mask_eval)
  show ?thesis using ignored last twice stale gone by blast
qed

theorem event_error_paths_witness:
  "addEvent all_ok None None 65536 READ (Some 7) demo_im = Inr (0, demo_im)
    \<and> addEvent all_ok None None 3 READ (Some 7) demo_im = Inl IoAssert"
  using event_error_paths [OF demo_im_reachable, of all_ok None None READ "Some 7"] demo_im_ctx(1, 2) by (auto dest: spec [of _ 3])

text \<open>The idle loop waits between zero and three seconds as long as the next timer is less than \<open>2\<^sup>3\<^sup>1\<close>
  milliseconds away or there is none, never past that timer; a timer due in \<open>2\<^sup>3\<^sup>1\<close> to \<open>2\<^sup>3\<^sup>2 - 1\<close> milliseconds is cast to a
  negative number, which \<open>epoll_wait\<close> takes as an unbounded wait.\<close>

theorem epoll_timeout_bounds:
  "(n < 0x80000000 \<or> n = - 1 \<longrightarrow> 0 \<le> epoll_timeout n \<and> epoll_timeout n \<le> 3000 \<and> (n \<noteq> - 1 \<longrightarrow> epoll_timeout n \<le> uint n))
    \<and> (0x80000000 \<le> n \<and> n < 0x100000000 \<longrightarrow> epoll_timeout n < 0)"
proof -
  have low: "sint (ucast n :: u32) = uint n" if "n < 0x80000000"
  proof -
    have "uint n < 2 ^ 31" using that by (simp add: word_less_def)
    then show ?thesis using signed_take_bit_int_eq_self [of 31 "uint n"] uint_ge_0 [of n] by (simp add: sint_ucast_u32)
  qed
  have high: "sint (ucast n :: u32) = uint n - 2 ^ 32" if "0x80000000 \<le> n" "n < 0x100000000"
  proof -
    have u: "2 ^ 31 \<le> uint n" "uint n < 2 ^ 32" using that by (simp_all add: word_less_def word_le_def)
    have "signed_take_bit 31 (uint n) = (uint n + 2 ^ 31) mod 2 ^ 32 - 2 ^ 31"
      by (simp add: signed_take_bit_eq_take_bit_shift take_bit_eq_mod add.commute)
    moreover have "(uint n + 2 ^ 31) mod 2 ^ 32 = uint n - 2 ^ 31"
      using u mod_pos_pos_trivial [of "uint n - 2 ^ 31" "2 ^ 32"] mod_add_self2 [of "uint n - 2 ^ 31" "2 ^ 32"] by (simp add: add.commute)
    ultimately show ?thesis by (simp add: sint_ucast_u32)
  qed
  have "0 \<le> epoll_timeout n \<and> epoll_timeout n \<le> 3000 \<and> epoll_timeout n \<le> uint n" if "n < 0x80000000" "n \<noteq> - 1"
    using that low [OF that(1)] by (auto simp: epoll_timeout_def Let_def)
  moreover have "epoll_timeout (- 1) = 3000" by (simp add: epoll_timeout_def)
  moreover have "epoll_timeout n < 0" if "0x80000000 \<le> n" "n < 0x100000000"
  proof -
    have "uint n < 2 ^ 32" using that by (auto simp: word_less_def)
    moreover have "n \<noteq> - 1" using that(2) by auto
    ultimately show ?thesis using high [OF that] by (simp add: epoll_timeout_def Let_def)
  qed
  moreover have "n < 0x80000000 \<longrightarrow> n \<noteq> - 1" by auto
  ultimately show ?thesis by fastforce
qed

theorem epoll_timeout_bounds_witness: "epoll_timeout 5000 = 3000 \<and> epoll_timeout 20 \<le> 20 \<and> epoll_timeout 0x80000000 < 0"
proof -
  have "epoll_timeout 5000 = 3000" by (simp add: epoll_timeout_def)
  then show ?thesis using epoll_timeout_bounds [of 20] epoll_timeout_bounds [of "0x80000000"] by simp
qed

section \<open>A round of the idle loop\<close>

lemma fire_frame: "fire_if b i event m = Inr m' \<Longrightarrow> length (m_fdContexts m') = length (m_fdContexts m)
    \<and> (\<forall>j. j \<noteq> i \<longrightarrow> m_fdContexts m' ! j = m_fdContexts m ! j)"
  by (cases "triggerEvent event (m_fdContexts m ! i)") (auto simp: fire_if_def fire_event_def set_fd_def split: if_splits)

lemma handle_frame: "handle_event ctl i evs m = Inr m' \<Longrightarrow> length (m_fdContexts m') = length (m_fdContexts m)
    \<and> (\<forall>j. j \<noteq> i \<longrightarrow> m_fdContexts m' ! j = m_fdContexts m ! j)"
  unfolding handle_event_def Let_def
  by (auto split: if_splits simp: bindE_eq_Inr dest!: fire_frame)

fun report_fd :: "Report \<Rightarrow> nat list" where
  "report_fd TickleReport = []"
| "report_fd (FdReport i evs) = [i]"

fun report_ok :: "'cb iomanager \<Rightarrow> Report \<Rightarrow> bool" where
  "report_ok m TickleReport \<longleftrightarrow> True"
| "report_ok m (FdReport i evs) \<longleftrightarrow> i < length (m_fdContexts m)
     \<and> (evs AND READ \<noteq> 0 \<longrightarrow> fc_events (m_fdContexts m ! i) AND READ \<noteq> 0)
     \<and> (evs AND WRITE \<noteq> 0 \<longrightarrow> fc_events (m_fdContexts m ! i) AND WRITE \<noteq> 0)"

lemma report_ok_frame:
  assumes "handle_event ctl i evs m = Inr m'" "\<forall>r \<in> set rs. report_ok m r" "i \<notin> set (concat (map report_fd rs))"
  shows "\<forall>r \<in> set rs. report_ok m' r"
proof
  fix r
  assume r: "r \<in> set rs"
  show "report_ok m' r"
  proof (cases r)
    case (FdReport j evs')
    then have "j \<noteq> i" using r assms(3) by force
    then show ?thesis using FdReport r assms(2) handle_frame [OF assms(1)] by force
  qed simp
qed

lemma handle_reports_ok:
  assumes "im_inv m" "distinct (concat (map report_fd rs))" "\<forall>r \<in> set rs. report_ok m r"
  shows "\<exists>m'. handle_reports ctl rs m = Inr m' \<and> im_inv m'"
  using assms
proof (induction rs arbitrary: m)
  case (Cons r rs)
  show ?case
  proof (cases r)
    case (FdReport i evs)
    obtain m1 where m1: "handle_event ctl i evs m = Inr m1" "im_inv m1"
      using handle_ok [of m i evs ctl] Cons.prems(1, 3) FdReport by auto
    have "\<forall>r \<in> set rs. report_ok m1 r" using report_ok_frame [OF m1(1), of rs] Cons.prems(2, 3) FdReport by simp
    then show ?thesis using Cons.IH [OF m1(2)] Cons.prems(2) m1(1) FdReport by simp
  qed (use Cons in simp)
qed simp

lemma due_next: "due (snd (getNextTimer m now)) now' = due m now'"
  by (auto simp: due_def detectClockRollover_def getNextTimer_def Let_def split: list.splits)

lemma schedule_range_appends:
  "s_fibers (snd (schedule_range fts s)) = s_fibers s
     @ map (\<lambda>ft. ft\<lparr>ft_thread := - 1\<rparr>) (filter (\<lambda>ft. ft_fiber ft \<noteq> None \<or> ft_cb ft \<noteq> None) fts)"
  by (induction fts arbitrary: s) (auto simp: scheduleNoLock_def Let_def case_prod_beta)

text \<open>C10. A round of the idle loop ends the loop exactly when no timer is pending, nobody waits for an event and the
  scheduler has been told to stop and is drained. Otherwise it never fails for reports of registered
  events on distinct descriptors, waits for the bounded time, appends the callbacks of exactly the
  timers that are due, in their order, to the scheduler's queue for any thread, and keeps the event
  table consistent.\<close>

theorem idle_round_works:
  fixes m :: "'cb iomanager" and s :: "'cb scheduler" and now now' :: u64
  assumes "im_reachable m" "tm_reachable tm" "nt \<notin> set (t_timers tm)"
    "distinct (concat (map report_fd reports))" "\<forall>r \<in> set reports. report_ok m r"
  defines "stop \<equiv> fst (getNextTimer tm now) = - 1 \<and> (\<forall>c \<in> set (m_fdContexts m). fc_events c = NONE) \<and> sched_stopping s"
  shows "(stop \<longrightarrow> idle_round ctl now now' nt reports tm s m = Inr None)
    \<and> (\<not> stop \<longrightarrow> (\<exists>tm' s' m'. idle_round ctl now now' nt reports tm s m = Inr (Some (epoll_timeout (fst (getNextTimer tm now)), tm', s', m'))
         \<and> im_inv m'
         \<and> s_fibers s' = s_fibers s @ map (\<lambda>cb. FiberAndThread_cb cb (- 1)) (filter (\<lambda>cb. cb \<noteq> None) (map (\<lambda>p. t_cb (t_heap tm p)) (due tm now')))
         \<and> tm' = snd (listExpiredCb (snd (getNextTimer tm now)) now' nt)))"
proof -
  let ?tm1 = "snd (getNextTimer tm now)"
  have inv: "im_inv m" by (rule im_reachable_inv [OF assms(1)])
  have st: "fst (im_stopping now tm s m) = stop" "fst (snd (im_stopping now tm s m)) = fst (getNextTimer tm now)"
      "snd (snd (im_stopping now tm s m)) = ?tm1"
    using pending_zero [OF inv] by (simp_all add: im_stopping_def case_prod_beta stop_def)
  obtain m' where m': "handle_reports ctl reports m = Inr m'" "im_inv m'" using handle_reports_ok [OF inv assms(4, 5)] by blast
  have "timers_sorted ?tm1" using reachable_sorted [OF assms(2)] by (simp add: timers_sorted_def)
  from listExpiredCb_spec [OF this, of nt now'] assms(3)
  have cbs: "fst (listExpiredCb ?tm1 now' nt) = map (\<lambda>p. t_cb (t_heap tm p)) (due tm now')" by (simp add: due_next)
  have q: "s_fibers (fst (schedule_expired now' nt ?tm1 s))
      = s_fibers s @ map (\<lambda>cb. FiberAndThread_cb cb (- 1)) (filter (\<lambda>cb. cb \<noteq> None) (map (\<lambda>p. t_cb (t_heap tm p)) (due tm now')))"
    "snd (schedule_expired now' nt ?tm1 s) = snd (listExpiredCb ?tm1 now' nt)"
    unfolding schedule_expired_def Let_def case_prod_beta cbs
    by (simp_all add: schedule_range_appends filter_map comp_def FiberAndThread_cb_def)
  show ?thesis
    using st m' q by (auto simp: idle_round_def Let_def case_prod_beta)
qed

theorem idle_round_works_witness:
  "\<exists>tm' s' m'. idle_round all_ok 1000 1030 9 [TickleReport, FdReport 3 READ] demo_tm demo_sched demo_im = Inr (Some (20, tm', s', m'))
     \<and> s_fibers s' = [FiberAndThread_cb (Some 8) (- 1)]"
proof -
  have "fst (getNextTimer demo_tm 1000) = 20" by (simp add: getNextTimer_def demo_tm_simps Let_def Timer_def)
  moreover have "epoll_timeout 20 = 20" by (simp add: epoll_timeout_def)
  ultimately show ?thesis
    using idle_round_works [OF demo_im_reachable demo_tm_reachable, of 9 "[TickleReport, FdReport 3 READ]" 1000 demo_sched all_ok 1030]
    by (auto simp: demo_im_ctx demo_tm_due demo_tm_simps demo_sched_def Timer_def)
qed

end
