(* ===== verification/Sylar_Socket.thy ===== *)
theory Sylar_Socket
  imports Sylar_Address Sylar_Stream
begin

text \<open>
  Sockets and socket streams (\<^verbatim>\<open>src/sylar/socket.cpp\<close>, \<^verbatim>\<open>socket.h\<close>, \<^verbatim>\<open>socket_stream.cpp\<close>). The system calls, as
  the hooked functions present them, are parameters collected in a record over a state \<open>'os\<close> of the system; a member
  function takes the socket object and that state and returns both. A descriptor is an integer, -1 is none.
  The locales state what the streams rely on of \<^verbatim>\<open>recv\<close> and \<^verbatim>\<open>send\<close>, and a socket stream then is a byte
  source and a byte sink.
\<close>

section \<open>Sockets\<close>

record ('os, 'b) sys_calls =
  sys_socket :: "'os \<Rightarrow> int \<Rightarrow> int \<Rightarrow> int \<Rightarrow> int \<times> 'os"
  sys_setsockopt :: "'os \<Rightarrow> int \<Rightarrow> int \<Rightarrow> int \<Rightarrow> int \<times> 'os"
  sys_bind :: "'os \<Rightarrow> int \<Rightarrow> Address \<Rightarrow> int \<times> 'os"
  sys_listen :: "'os \<Rightarrow> int \<Rightarrow> int \<Rightarrow> int \<times> 'os"
  sys_accept :: "'os \<Rightarrow> int \<Rightarrow> int \<times> 'os"
  sys_fd_open_socket :: "'os \<Rightarrow> int \<Rightarrow> bool"
  sys_connect :: "'os \<Rightarrow> int \<Rightarrow> Address \<Rightarrow> int \<times> 'os"
  sys_connect_with_timeout :: "'os \<Rightarrow> int \<Rightarrow> Address \<Rightarrow> u64 \<Rightarrow> int \<times> 'os"
  sys_close :: "'os \<Rightarrow> int \<Rightarrow> 'os"
  sys_send :: "'os \<Rightarrow> int \<Rightarrow> 'b list \<Rightarrow> int \<times> 'os"
  sys_recv :: "'os \<Rightarrow> int \<Rightarrow> nat \<Rightarrow> int \<times> 'b list \<times> 'os"
  sys_getpeername :: "'os \<Rightarrow> int \<Rightarrow> Address \<Rightarrow> (Address \<times> nat) option"
  sys_getsockname :: "'os \<Rightarrow> int \<Rightarrow> Address \<Rightarrow> (Address \<times> nat) option"
  sys_sendto :: "'os \<Rightarrow> int \<Rightarrow> 'b list \<Rightarrow> Address \<Rightarrow> int \<times> 'os"
  sys_recvfrom :: "'os \<Rightarrow> int \<Rightarrow> nat \<Rightarrow> Address \<Rightarrow> int \<times> 'b list \<times> Address \<times> 'os"
  sys_sendmsg :: "'os \<Rightarrow> int \<Rightarrow> 'b list list \<Rightarrow> Address option \<Rightarrow> int \<times> 'os"
  sys_recvmsg :: "'os \<Rightarrow> int \<Rightarrow> nat list \<Rightarrow> Address option \<Rightarrow> int \<times> 'b list \<times> Address option \<times> 'os"
  sys_getsockopt :: "'os \<Rightarrow> int \<Rightarrow> int \<Rightarrow> int \<Rightarrow> int option \<times> 'os"
  sys_settimeo :: "'os \<Rightarrow> int \<Rightarrow> int \<Rightarrow> int \<times> int \<Rightarrow> int \<times> 'os"
  sys_fd_timeout :: "'os \<Rightarrow> int \<Rightarrow> int \<Rightarrow> int option"
  sys_errno :: "'os \<Rightarrow> int"
  sys_cancelEvent :: "'os \<Rightarrow> int \<Rightarrow> int \<Rightarrow> bool \<times> 'os"
  sys_cancelAll :: "'os \<Rightarrow> int \<Rightarrow> bool \<times> 'os"

record sock =
  m_sock :: int
  m_domain :: int
  m_type :: int
  m_protocol :: int
  m_isConnected :: bool
  m_localAddress :: "Address option"
  m_remoteAddress :: "Address option"

datatype Domain = IPv4 | IPv6 | UNIX

definition domain_num :: "Domain \<Rightarrow> int" where
  "domain_num d = (case d of IPv4 \<Rightarrow> 2 | IPv6 \<Rightarrow> 10 | UNIX \<Rightarrow> 1)"

abbreviation TCP :: int where "TCP \<equiv> 1"
abbreviation UDP :: int where "UDP \<equiv> 2"

definition SOL_SOCKET :: int where "SOL_SOCKET = 1"
definition SO_REUSEADDR :: int where "SO_REUSEADDR = 2"
definition IPPROTO_TCP :: int where "IPPROTO_TCP = 6"
definition TCP_NODELAY :: int where "TCP_NODELAY = 1"

definition Socket :: "int \<Rightarrow> int \<Rightarrow> int \<Rightarrow> sock" where
  "Socket domain type protocol =
     \<lparr>m_sock = - 1, m_domain = domain, m_type = type, m_protocol = protocol, m_isConnected = False,
      m_localAddress = None, m_remoteAddress = None\<rparr>"

definition isValid :: "sock \<Rightarrow> bool" where
  "isValid k \<longleftrightarrow> m_sock k \<noteq> - 1"

text \<open>Options are set on a best-effort basis: a failure is only logged.\<close>

definition setOption :: "('os, 'b) sys_calls \<Rightarrow> int \<Rightarrow> int \<Rightarrow> sock \<times> 'os \<Rightarrow> bool \<times> 'os" where
  "setOption sys level option w =
     (let (k, s) = w; (rt, s1) = sys_setsockopt sys s (m_sock k) level option in (rt = 0, s1))"

definition Socket_init :: "('os, 'b) sys_calls \<Rightarrow> bool \<Rightarrow> sock \<times> 'os \<Rightarrow> bool \<times> sock \<times> 'os" where
  "Socket_init sys needCreateNewFd w =
     (let (k, s) = w;
          (k1, s1) = (if needCreateNewFd
                      then let (fd, s') = sys_socket sys s (m_domain k) (m_type k) (m_protocol k) in (k\<lparr>m_sock := fd\<rparr>, s')
                      else (k, s))
      in if needCreateNewFd \<and> m_sock k1 = - 1 then (False, k1, s1)
         else let (_, s2) = setOption sys SOL_SOCKET SO_REUSEADDR (k1, s1)
              in if m_type k1 = TCP then let (_, s3) = setOption sys IPPROTO_TCP TCP_NODELAY (k1, s2) in (True, k1, s3)
                 else if m_type k1 = UDP then (True, k1\<lparr>m_isConnected := True\<rparr>, s2)
                 else (True, k1, s2))"

definition CreateTCPSocket :: "Domain \<Rightarrow> sock option" where
  "CreateTCPSocket domain =
     (if domain = IPv4 \<or> domain = IPv6 then Some (Socket (domain_num domain) TCP 0) else None)"

definition CreateUDPSocket :: "('os, 'b) sys_calls \<Rightarrow> Domain \<Rightarrow> 'os \<Rightarrow> sock option \<times> 'os" where
  "CreateUDPSocket sys domain s =
     (if domain = IPv4 \<or> domain = IPv6
      then let (_, k, s1) = Socket_init sys True (Socket (domain_num domain) UDP 0, s) in (Some k, s1)
      else (None, s))"

definition CreateUNixSocket :: "int \<Rightarrow> sock option" where
  "CreateUNixSocket type = (if type = TCP \<or> type = UDP then Some (Socket (domain_num UNIX) type 0) else None)"

text \<open>The address object that \<^verbatim>\<open>getpeername\<close> and \<^verbatim>\<open>getsockname\<close> fill in.\<close>

definition blank_address :: "int \<Rightarrow> Address" where
  "blank_address domain =
     (if domain = 2 then IPv4Address (IPv4Address_new 0 0)
      else if domain = 10 then IPv6Address IPv6Address_default
      else if domain = 1 then UnixAddress_default
      else UnknownAddress_family (of_int domain))"

definition fill_address :: "int \<Rightarrow> (Address \<times> nat) option \<Rightarrow> Address option" where
  "fill_address domain r =
     (case r of None \<Rightarrow> None | Some (a, addrlen) \<Rightarrow> Some (if domain = 1 then setAddrLen a addrlen else a))"

definition getRemoteAddress :: "('os, 'b) sys_calls \<Rightarrow> sock \<times> 'os \<Rightarrow> Address \<times> sock" where
  "getRemoteAddress sys w =
     (let (k, s) = w in
      case m_remoteAddress k of
        Some a \<Rightarrow> (a, k)
      | None \<Rightarrow>
          (case fill_address (m_domain k) (sys_getpeername sys s (m_sock k) (blank_address (m_domain k))) of
             None \<Rightarrow> (UnknownAddress_family (of_int (m_domain k)), k)
           | Some a \<Rightarrow> (a, k\<lparr>m_remoteAddress := Some a\<rparr>)))"

definition getLocalAddress :: "('os, 'b) sys_calls \<Rightarrow> sock \<times> 'os \<Rightarrow> Address \<times> sock" where
  "getLocalAddress sys w =
     (let (k, s) = w in
      case m_localAddress k of
        Some a \<Rightarrow> (a, k)
      | None \<Rightarrow>
          (case fill_address (m_domain k) (sys_getsockname sys s (m_sock k) (blank_address (m_domain k))) of
             None \<Rightarrow> (UnknownAddress_family (of_int (m_domain k)), k)
           | Some a \<Rightarrow> (a, k\<lparr>m_localAddress := Some a\<rparr>)))"

definition Socket_bind :: "('os, 'b) sys_calls \<Rightarrow> Address \<Rightarrow> sock \<times> 'os \<Rightarrow> bool \<times> sock \<times> 'os" where
  "Socket_bind sys addr w =
     (let (k, s) = w in
      if uint (getFamily addr) \<noteq> m_domain k then (False, k, s)
      else let (rt, s1) = sys_bind sys s (m_sock k) addr
           in if rt \<noteq> 0 then (False, k, s1) else (True, snd (getLocalAddress sys (k, s1)), s1))"

definition Socket_listen :: "('os, 'b) sys_calls \<Rightarrow> Address \<Rightarrow> int \<Rightarrow> sock \<times> 'os \<Rightarrow> bool \<times> sock \<times> 'os" where
  "Socket_listen sys addr backlog w =
     (let (k, s) = (if \<not> isValid (fst w) then snd (Socket_init sys True w) else w) in
      if \<not> isValid k then (False, k, s)
      else let (ok, k1, s1) = Socket_bind sys addr (k, s)
           in if \<not> ok then (False, k1, s1)
              else let (rt, s2) = sys_listen sys s1 (m_sock k1) backlog in (rt = 0, k1, s2))"

text \<open>\<^verbatim>\<open>FdMgr\<close> decides whether the accepted descriptor is an open socket.\<close>

definition createAcceptedSocket :: "('os, 'b) sys_calls \<Rightarrow> int \<Rightarrow> sock \<times> 'os \<Rightarrow> sock option \<times> 'os" where
  "createAcceptedSocket sys fd w =
     (let (k, s) = w in
      if sys_fd_open_socket sys s fd
      then let (_, k1, s1) = Socket_init sys False ((Socket (m_domain k) (m_type k) (m_protocol k))\<lparr>m_sock := fd\<rparr>, s);
               k2 = k1\<lparr>m_isConnected := True\<rparr>;
               k3 = snd (getLocalAddress sys (k2, s1));
               k4 = snd (getRemoteAddress sys (k3, s1))
           in (Some k4, s1)
      else (None, s))"

definition Socket_accept :: "('os, 'b) sys_calls \<Rightarrow> sock \<times> 'os \<Rightarrow> sock option \<times> 'os" where
  "Socket_accept sys w =
     (let (k, s) = w; (newsock, s1) = sys_accept sys s (m_sock k)
      in if newsock = - 1 then (None, s1) else createAcceptedSocket sys newsock (k, s1))"

definition Socket_close :: "('os, 'b) sys_calls \<Rightarrow> sock \<times> 'os \<Rightarrow> bool \<times> sock \<times> 'os" where
  "Socket_close sys w =
     (let (k, s) = w in
      if \<not> m_isConnected k \<and> m_sock k = - 1 then (True, k, s)
      else if m_sock k \<noteq> - 1 then (False, k\<lparr>m_isConnected := False, m_sock := - 1\<rparr>, sys_close sys s (m_sock k))
      else (False, k\<lparr>m_isConnected := False\<rparr>, s))"

definition Socket_connect :: "('os, 'b) sys_calls \<Rightarrow> Address \<Rightarrow> u64 \<Rightarrow> sock \<times> 'os \<Rightarrow> bool \<times> sock \<times> 'os" where
  "Socket_connect sys addr timeout_ms w =
     (let k = (fst w)\<lparr>m_remoteAddress := Some addr\<rparr>; s = snd w in
      if uint (getFamily addr) \<noteq> m_domain k then (False, k, s)
      else let (k1, s1) = (if \<not> isValid k then snd (Socket_init sys True (k, s)) else (k, s))
           in if \<not> isValid k1 then (False, k1, s1)
              else let (rt, s2) = (if timeout_ms = - 1 then sys_connect sys s1 (m_sock k1) addr
                                   else sys_connect_with_timeout sys s1 (m_sock k1) addr timeout_ms)
                   in if rt \<noteq> 0 then (False, snd (Socket_close sys (k1, s2)))
                      else let k2 = k1\<lparr>m_isConnected := True\<rparr>;
                               k3 = snd (getRemoteAddress sys (k2, s2));
                               k4 = snd (getLocalAddress sys (k3, s2))
                           in (True, k4, s2))"

text \<open>The result of the system call is converted to \<^verbatim>\<open>int\<close>.\<close>

definition Socket_send :: "('os, 'b) sys_calls \<Rightarrow> 'b list \<Rightarrow> sock \<times> 'os \<Rightarrow> int \<times> 'os" where
  "Socket_send sys bs w =
     (let (k, s) = w in
      if m_isConnected k then let (rt, s1) = sys_send sys s (m_sock k) bs in (to_int32 rt, s1) else (- 1, s))"

definition Socket_recv :: "('os, 'b) sys_calls \<Rightarrow> nat \<Rightarrow> sock \<times> 'os \<Rightarrow> int \<times> 'b list \<times> 'os" where
  "Socket_recv sys n w =
     (let (k, s) = w in
      if m_isConnected k then let (rt, bs, s1) = sys_recv sys s (m_sock k) n in (to_int32 rt, bs, s1) else (- 1, [], s))"

text \<open>Datagrams and vectors of buffers; an address that is received is stored in the object the caller hands over.\<close>

definition Socket_send_iov :: "('os, 'b) sys_calls \<Rightarrow> 'b list list \<Rightarrow> sock \<times> 'os \<Rightarrow> int \<times> 'os" where
  "Socket_send_iov sys vs w =
     (let (k, s) = w in
      if m_isConnected k then let (rt, s1) = sys_sendmsg sys s (m_sock k) vs None in (to_int32 rt, s1) else (- 1, s))"

definition Socket_sendTo :: "('os, 'b) sys_calls \<Rightarrow> 'b list \<Rightarrow> Address \<Rightarrow> sock \<times> 'os \<Rightarrow> int \<times> 'os" where
  "Socket_sendTo sys bs to w =
     (let (k, s) = w in
      if m_isConnected k then let (rt, s1) = sys_sendto sys s (m_sock k) bs to in (to_int32 rt, s1) else (- 1, s))"

definition Socket_sendTo_iov :: "('os, 'b) sys_calls \<Rightarrow> 'b list list \<Rightarrow> Address \<Rightarrow> sock \<times> 'os \<Rightarrow> int \<times> 'os" where
  "Socket_sendTo_iov sys vs to w =
     (let (k, s) = w in
      if m_isConnected k then let (rt, s1) = sys_sendmsg sys s (m_sock k) vs (Some to) in (to_int32 rt, s1) else (- 1, s))"

definition Socket_recv_iov :: "('os, 'b) sys_calls \<Rightarrow> nat list \<Rightarrow> sock \<times> 'os \<Rightarrow> int \<times> 'b list \<times> 'os" where
  "Socket_recv_iov sys ns w =
     (let (k, s) = w in
      if m_isConnected k then let (rt, bs, _, s1) = sys_recvmsg sys s (m_sock k) ns None in (to_int32 rt, bs, s1) else (- 1, [], s))"

definition Socket_recvFrom :: "('os, 'b) sys_calls \<Rightarrow> nat \<Rightarrow> Address \<Rightarrow> sock \<times> 'os \<Rightarrow> int \<times> 'b list \<times> Address \<times> 'os" where
  "Socket_recvFrom sys n from w =
     (let (k, s) = w in
      if m_isConnected k then let (rt, bs, a, s1) = sys_recvfrom sys s (m_sock k) n from in (to_int32 rt, bs, a, s1) else (- 1, [], from, s))"

definition Socket_recvFrom_iov :: "('os, 'b) sys_calls \<Rightarrow> nat list \<Rightarrow> Address \<Rightarrow> sock \<times> 'os \<Rightarrow> int \<times> 'b list \<times> Address \<times> 'os" where
  "Socket_recvFrom_iov sys ns from w =
     (let (k, s) = w in
      if m_isConnected k
      then let (rt, bs, a, s1) = sys_recvmsg sys s (m_sock k) ns (Some from) in (to_int32 rt, bs, (case a of None \<Rightarrow> from | Some a1 \<Rightarrow> a1), s1)
      else (- 1, [], from, s))"

definition cancelRead :: "('os, 'b) sys_calls \<Rightarrow> sock \<times> 'os \<Rightarrow> bool \<times> 'os" where
  "cancelRead sys w = sys_cancelEvent sys (snd w) (m_sock (fst w)) 1"

definition cancelWrite :: "('os, 'b) sys_calls \<Rightarrow> sock \<times> 'os \<Rightarrow> bool \<times> 'os" where
  "cancelWrite sys w = sys_cancelEvent sys (snd w) (m_sock (fst w)) 4"

definition cancelAccept :: "('os, 'b) sys_calls \<Rightarrow> sock \<times> 'os \<Rightarrow> bool \<times> 'os" where
  "cancelAccept sys w = sys_cancelEvent sys (snd w) (m_sock (fst w)) 1"

definition Socket_cancelAll :: "('os, 'b) sys_calls \<Rightarrow> sock \<times> 'os \<Rightarrow> bool \<times> 'os" where
  "Socket_cancelAll sys w = sys_cancelAll sys (snd w) (m_sock (fst w))"

text \<open>
  Timeouts are milliseconds as \<^verbatim>\<open>int64_t\<close>; both members of the \<^verbatim>\<open>timeval\<close> are converted to \<^verbatim>\<open>int\<close>, and division and remainder truncate towards
  zero.
\<close>

definition SO_RCVTIMEO :: int where "SO_RCVTIMEO = 20"
definition SO_SNDTIMEO :: int where "SO_SNDTIMEO = 21"
definition SO_ERROR :: int where "SO_ERROR = 4"

definition timeval_of :: "int \<Rightarrow> int \<times> int" where
  "timeval_of v = (to_int32 (sgn v * (\<bar>v\<bar> div 1000)), to_int32 (sgn v * (\<bar>v\<bar> mod 1000) * 1000))"

definition Socket_setSendTimeout :: "('os, 'b) sys_calls \<Rightarrow> int \<Rightarrow> sock \<times> 'os \<Rightarrow> 'os" where
  "Socket_setSendTimeout sys v w = snd (sys_settimeo sys (snd w) (m_sock (fst w)) SO_SNDTIMEO (timeval_of v))"

definition Socket_setRecvTimeout :: "('os, 'b) sys_calls \<Rightarrow> int \<Rightarrow> sock \<times> 'os \<Rightarrow> 'os" where
  "Socket_setRecvTimeout sys v w = snd (sys_settimeo sys (snd w) (m_sock (fst w)) SO_RCVTIMEO (timeval_of v))"

definition Socket_getSendTimeout :: "('os, 'b) sys_calls \<Rightarrow> sock \<times> 'os \<Rightarrow> int" where
  "Socket_getSendTimeout sys w = (case sys_fd_timeout sys (snd w) (m_sock (fst w)) SO_SNDTIMEO of None \<Rightarrow> - 1 | Some t \<Rightarrow> t)"

definition Socket_getRecvTimeout :: "('os, 'b) sys_calls \<Rightarrow> sock \<times> 'os \<Rightarrow> int" where
  "Socket_getRecvTimeout sys w = (case sys_fd_timeout sys (snd w) (m_sock (fst w)) SO_RCVTIMEO of None \<Rightarrow> - 1 | Some t \<Rightarrow> t)"

definition getOption :: "('os, 'b) sys_calls \<Rightarrow> int \<Rightarrow> int \<Rightarrow> sock \<times> 'os \<Rightarrow> int option \<times> 'os" where
  "getOption sys level option w = sys_getsockopt sys (snd w) (m_sock (fst w)) level option"

definition getError :: "('os, 'b) sys_calls \<Rightarrow> sock \<times> 'os \<Rightarrow> int \<times> 'os" where
  "getError sys w = (let (r, s1) = getOption sys SOL_SOCKET SO_ERROR w in ((case r of Some e \<Rightarrow> e | None \<Rightarrow> sys_errno sys s1), s1))"

definition show_int :: "int \<Rightarrow> string" where
  "show_int i = (if i < 0 then CHR ''-'' # show_nat (nat (- i)) else show_nat (nat i))"

definition Socket_dump :: "sock \<Rightarrow> string" where
  "Socket_dump k =
     ''[Socket sock='' @ show_int (m_sock k) @ '' is_connected='' @ (if m_isConnected k then ''1'' else ''0'') @ '' family='' @ show_int (m_domain k)
     @ '' type='' @ show_int (m_type k) @ '' protocol='' @ show_int (m_protocol k)
     @ (case m_localAddress k of None \<Rightarrow> '''' | Some a \<Rightarrow> '' local_address='' @ Address_toString a)
     @ (case m_remoteAddress k of None \<Rightarrow> '''' | Some a \<Rightarrow> '' remote_address='' @ Address_toString a) @ '']''"

section \<open>Socket streams\<close>

record 'os socket_stream =
  ss_socket :: "sock option"
  ss_owner :: bool
  ss_os :: 'os

definition SocketStream :: "sock option \<Rightarrow> bool \<Rightarrow> 'os \<Rightarrow> 'os socket_stream" where
  "SocketStream k owner s = \<lparr>ss_socket = k, ss_owner = owner, ss_os = s\<rparr>"

definition ss_isConnected :: "'os socket_stream \<Rightarrow> bool" where
  "ss_isConnected st = (case ss_socket st of None \<Rightarrow> False | Some k \<Rightarrow> m_isConnected k)"

definition SocketStream_read :: "('os, 'b) sys_calls \<Rightarrow> ('os socket_stream, 'b) reader" where
  "SocketStream_read sys st n =
     (case ss_socket st of
        None \<Rightarrow> (- 1, [], st)
      | Some k \<Rightarrow> if \<not> m_isConnected k then (- 1, [], st)
                  else let (rt, bs, s) = Socket_recv sys n (k, ss_os st) in (rt, bs, st\<lparr>ss_os := s\<rparr>))"

definition SocketStream_write :: "('os, 'b) sys_calls \<Rightarrow> ('os socket_stream, 'b) writer" where
  "SocketStream_write sys st bs =
     (case ss_socket st of
        None \<Rightarrow> (- 1, st)
      | Some k \<Rightarrow> if \<not> m_isConnected k then (- 1, st)
                  else let (rt, s) = Socket_send sys bs (k, ss_os st) in (rt, st\<lparr>ss_os := s\<rparr>))"

definition SocketStream_close :: "('os, 'b) sys_calls \<Rightarrow> 'os socket_stream \<Rightarrow> 'os socket_stream" where
  "SocketStream_close sys st =
     (case ss_socket st of
        None \<Rightarrow> st
      | Some k \<Rightarrow> let (_, k1, s1) = Socket_close sys (k, ss_os st) in st\<lparr>ss_socket := Some k1, ss_os := s1\<rparr>)"

definition SocketStream_destroy :: "('os, 'b) sys_calls \<Rightarrow> 'os socket_stream \<Rightarrow> 'os socket_stream" where
  "SocketStream_destroy sys st = (if ss_owner st then SocketStream_close sys st else st)"

definition ss_getRemoteAddress :: "('os, 'b) sys_calls \<Rightarrow> 'os socket_stream \<Rightarrow> Address option \<times> 'os socket_stream" where
  "ss_getRemoteAddress sys st =
     (case ss_socket st of
        None \<Rightarrow> (None, st)
      | Some k \<Rightarrow> let (a, k1) = getRemoteAddress sys (k, ss_os st) in (Some a, st\<lparr>ss_socket := Some k1\<rparr>))"

definition ss_getLocalAddress :: "('os, 'b) sys_calls \<Rightarrow> 'os socket_stream \<Rightarrow> Address option \<times> 'os socket_stream" where
  "ss_getLocalAddress sys st =
     (case ss_socket st of
        None \<Rightarrow> (None, st)
      | Some k \<Rightarrow> let (a, k1) = getLocalAddress sys (k, ss_os st) in (Some a, st\<lparr>ss_socket := Some k1\<rparr>))"

definition getRemoteAddressString :: "('os, 'b) sys_calls \<Rightarrow> 'os socket_stream \<Rightarrow> string \<times> 'os socket_stream" where
  "getRemoteAddressString sys st = (let (a, st1) = ss_getRemoteAddress sys st in ((case a of None \<Rightarrow> '''' | Some x \<Rightarrow> Address_toString x), st1))"

definition getLocalAddressString :: "('os, 'b) sys_calls \<Rightarrow> 'os socket_stream \<Rightarrow> string \<times> 'os socket_stream" where
  "getLocalAddressString sys st = (let (a, st1) = ss_getLocalAddress sys st in ((case a of None \<Rightarrow> '''' | Some x \<Rightarrow> Address_toString x), st1))"

section \<open>What streams rely on\<close>

text \<open>
  The documented behaviour of \<^verbatim>\<open>recv\<close> on a stream socket: at most the size asked for (and at most
  \<open>0x7ffff000\<close> bytes) is moved from the front of the bytes that arrive, a failure or the end of the
  stream moves nothing, other descriptors are not affected. Likewise for \<^verbatim>\<open>send\<close>.
\<close>

locale inbound_calls =
  fixes sys :: "('os, 'b) sys_calls" and inbound :: "'os \<Rightarrow> int \<Rightarrow> 'b list"
  assumes recv_range: "sys_recv sys s fd n = (len, bs, s') \<Longrightarrow> 0 < n \<Longrightarrow> - 1 \<le> len \<and> len \<le> int n \<and> len \<le> 0x7ffff000"
    and recv_moves: "sys_recv sys s fd n = (len, bs, s') \<Longrightarrow> 0 < n \<Longrightarrow> 0 < len \<Longrightarrow> int (length bs) = len \<and> inbound s fd = bs @ inbound s' fd"
    and recv_fails: "sys_recv sys s fd n = (len, bs, s') \<Longrightarrow> 0 < n \<Longrightarrow> len \<le> 0 \<Longrightarrow> inbound s' fd = inbound s fd"

locale outbound_calls =
  fixes sys :: "('os, 'b) sys_calls" and outbound :: "'os \<Rightarrow> int \<Rightarrow> 'b list"
  assumes send_range: "sys_send sys s fd bs = (len, s') \<Longrightarrow> bs \<noteq> [] \<Longrightarrow> - 1 \<le> len \<and> len \<le> int (length bs) \<and> len \<le> 0x7ffff000"
    and send_moves: "sys_send sys s fd bs = (len, s') \<Longrightarrow> bs \<noteq> [] \<Longrightarrow> outbound s' fd = outbound s fd @ take (nat len) bs"

definition stream_bytes :: "('os \<Rightarrow> int \<Rightarrow> 'b list) \<Rightarrow> 'os socket_stream \<Rightarrow> 'b list" where
  "stream_bytes f st = (case ss_socket st of None \<Rightarrow> [] | Some k \<Rightarrow> f (ss_os st) (m_sock k))"

lemma int32_len: "- 1 \<le> len \<Longrightarrow> len \<le> 0x7ffff000 \<Longrightarrow> to_int32 len = len"
  by (rule to_int32_small) auto

context inbound_calls
begin

lemma read_laws:
  assumes "SocketStream_read sys st n = (len, bs, st')" "0 < n"
  shows "(- (2 ^ 31) \<le> len \<and> len \<le> int n)
    \<and> (0 < len \<longrightarrow> int (length bs) = len \<and> stream_bytes inbound st = bs @ stream_bytes inbound st')
    \<and> (len \<le> 0 \<longrightarrow> stream_bytes inbound st' = stream_bytes inbound st)"
proof (cases "ss_isConnected st")
  case False
  then show ?thesis using assms by (auto simp: SocketStream_read_def ss_isConnected_def split: option.splits)
next
  case True
  then obtain k where k: "ss_socket st = Some k" "m_isConnected k" by (auto simp: ss_isConnected_def split: option.splits)
  obtain l b t where c: "sys_recv sys (ss_os st) (m_sock k) n = (l, b, t)" by (metis prod_cases3)
  have "len = l" "bs = b" "st' = st\<lparr>ss_os := t\<rparr>"
    using assms(1) k c int32_len [of l] recv_range [OF c assms(2)] by (auto simp: SocketStream_read_def Socket_recv_def Let_def)
  then show ?thesis
    using recv_range [OF c assms(2)] recv_moves [OF c assms(2)] recv_fails [OF c assms(2)] k(1) by (auto simp: stream_bytes_def)
qed

lemma read_frame: "SocketStream_read sys st n = (len, bs, st') \<Longrightarrow> ss_socket st' = ss_socket st \<and> ss_owner st' = ss_owner st"
  by (auto simp: SocketStream_read_def Let_def split: option.splits if_splits prod.splits)

end

sublocale inbound_calls \<subseteq> rx: byte_source "SocketStream_read sys" "stream_bytes inbound"
  by unfold_locales (use read_laws in blast)+

context outbound_calls
begin

lemma write_laws:
  assumes "SocketStream_write sys st bs = (len, st')" "bs \<noteq> []"
  shows "(- (2 ^ 31) \<le> len \<and> len \<le> int (length bs))
    \<and> stream_bytes outbound st' = stream_bytes outbound st @ take (nat len) bs"
proof (cases "ss_isConnected st")
  case False
  then show ?thesis using assms by (auto simp: SocketStream_write_def ss_isConnected_def split: option.splits)
next
  case True
  then obtain k where k: "ss_socket st = Some k" "m_isConnected k" by (auto simp: ss_isConnected_def split: option.splits)
  obtain l t where c: "sys_send sys (ss_os st) (m_sock k) bs = (l, t)" by fastforce
  have "len = l" "st' = st\<lparr>ss_os := t\<rparr>"
    using assms(1) k c int32_len [of l] send_range [OF c assms(2)] by (auto simp: SocketStream_write_def Socket_send_def Let_def)
  then show ?thesis using send_range [OF c assms(2)] send_moves [OF c assms(2)] k(1) by (auto simp: stream_bytes_def)
qed

end

sublocale outbound_calls \<subseteq> tx: byte_sink "SocketStream_write sys" "stream_bytes outbound"
  by unfold_locales (use write_laws in blast)+

section \<open>A network to try things on\<close>

text \<open>One connection whose \<^verbatim>\<open>recv\<close> delivers at most as many bytes as the plan says (a plan entry that is not positive
  is a failure), and whose \<^verbatim>\<open>send\<close> takes four bytes at a time.\<close>

record net =
  nt_plan :: "int list"
  nt_in :: string
  nt_out :: string
  nt_closed :: "int list"

definition net_recv :: "net \<Rightarrow> int \<Rightarrow> nat \<Rightarrow> int \<times> string \<times> net" where
  "net_recv s fd n =
     (case nt_plan s of
        [] \<Rightarrow> (0, [], s)
      | m # ms \<Rightarrow>
          if m \<le> 0 then (if m = 0 then 0 else - 1, [], s\<lparr>nt_plan := ms\<rparr>)
          else let k = min (min (nat m) 1024) (min n (length (nt_in s)))
               in (int k, take k (nt_in s), s\<lparr>nt_plan := ms, nt_in := drop k (nt_in s)\<rparr>))"

definition net_send :: "net \<Rightarrow> int \<Rightarrow> string \<Rightarrow> int \<times> net" where
  "net_send s fd bs = (let k = min 4 (length bs) in (int k, s\<lparr>nt_out := nt_out s @ take k bs\<rparr>))"

definition net_sys :: "(net, char) sys_calls" where
  "net_sys =
     \<lparr>sys_socket = (\<lambda>s d t p. (7, s)), sys_setsockopt = (\<lambda>s fd l opt. (0, s)), sys_bind = (\<lambda>s fd a. (0, s)),
      sys_listen = (\<lambda>s fd b. (0, s)), sys_accept = (\<lambda>s fd. (8, s)), sys_fd_open_socket = (\<lambda>s fd. True),
      sys_connect = (\<lambda>s fd a. (- 1, s)), sys_connect_with_timeout = (\<lambda>s fd a t. (0, s)),
      sys_close = (\<lambda>s fd. s\<lparr>nt_closed := nt_closed s @ [fd]\<rparr>), sys_send = net_send, sys_recv = net_recv,
      sys_getpeername = (\<lambda>s fd a. None), sys_getsockname = (\<lambda>s fd a. Some (a, 0)),
      sys_sendto = (\<lambda>s fd bs a. net_send s fd bs), sys_recvfrom = (\<lambda>s fd n a. let (rt, bs, s1) = net_recv s fd n in (rt, bs, a, s1)),
      sys_sendmsg = (\<lambda>s fd vs a. net_send s fd (concat vs)), sys_recvmsg = (\<lambda>s fd ns a. let (rt, bs, s1) = net_recv s fd (sum_list ns) in (rt, bs, a, s1)),
      sys_getsockopt = (\<lambda>s fd l opt. (Some 0, s)), sys_settimeo = (\<lambda>s fd opt tv. (0, s)), sys_fd_timeout = (\<lambda>s fd opt. None), sys_errno = (\<lambda>s. 0),
      sys_cancelEvent = (\<lambda>s fd e. (False, s)), sys_cancelAll = (\<lambda>s fd. (False, s))\<rparr>"

lemma net_recv_cases:
  obtains (fail) e s' where "net_recv s fd n = (e, [], s')" "e = 0 \<or> e = - 1" "nt_in s' = nt_in s"
  | (move) k s' where "net_recv s fd n = (int k, take k (nt_in s), s')" "nt_in s' = drop k (nt_in s)" "k \<le> n" "k \<le> 1024"
      "k \<le> length (nt_in s)"
proof (cases "\<exists>m ms. nt_plan s = m # ms \<and> 0 < m")
  case True
  then obtain m ms where m: "nt_plan s = m # ms" "0 < m" by blast
  define k where "k = min (min (nat m) 1024) (min n (length (nt_in s)))"
  show thesis
    by (rule move [of k "s\<lparr>nt_plan := ms, nt_in := drop k (nt_in s)\<rparr>"]) (use m in \<open>simp_all add: net_recv_def k_def Let_def\<close>)
next
  case False
  show thesis
  proof (cases "nt_plan s")
    case Nil
    show thesis by (rule fail [of 0 s]) (simp_all add: net_recv_def Nil)
  next
    case (Cons m ms)
    then have "m \<le> 0" using False by auto
    then show thesis
      by (intro fail [of "if m = 0 then 0 else - 1" "s\<lparr>nt_plan := ms\<rparr>"]) (simp_all add: net_recv_def Cons)
  qed
qed

interpretation net_rx: inbound_calls net_sys "\<lambda>s fd. nt_in s"
proof (unfold_locales, goal_cases)
  case (1 s fd n len bs s')
  then show ?case by (cases rule: net_recv_cases [of s fd n]) (auto simp: net_sys_def)
next
  case (2 s fd n len bs s')
  then show ?case by (cases rule: net_recv_cases [of s fd n]) (auto simp: net_sys_def)
next
  case (3 s fd n len bs s')
  then show ?case by (cases rule: net_recv_cases [of s fd n]) (auto simp: net_sys_def)
qed

interpretation net_tx: outbound_calls net_sys "\<lambda>s fd. nt_out s"
  by unfold_locales (auto simp: net_sys_def net_send_def Let_def)

section \<open>The life of a socket\<close>

inductive sock_step :: "('os, 'b) sys_calls \<Rightarrow> sock \<times> 'os \<Rightarrow> sock \<times> 'os \<Rightarrow> bool" for sys where
  sk_listen: "Socket_listen sys addr backlog w = (b, w') \<Longrightarrow> sock_step sys w w'"
| sk_connect: "Socket_connect sys addr timeout w = (b, w') \<Longrightarrow> sock_step sys w w'"
| sk_close: "Socket_close sys w = (b, w') \<Longrightarrow> sock_step sys w w'"
| sk_remote: "getRemoteAddress sys (k, s) = (a, k') \<Longrightarrow> sock_step sys (k, s) (k', s)"
| sk_local: "getLocalAddress sys (k, s) = (a, k') \<Longrightarrow> sock_step sys (k, s) (k', s)"
| sk_system: "sock_step sys (k, s) (k, s')"

inductive sock_reachable :: "('os, 'b) sys_calls \<Rightarrow> sock \<times> 'os \<Rightarrow> bool" for sys where
  sr_tcp: "CreateTCPSocket d = Some k \<Longrightarrow> sock_reachable sys (k, s)"
| sr_udp: "CreateUDPSocket sys d s = (Some k, s') \<Longrightarrow> sock_reachable sys (k, s')"
| sr_unix: "CreateUNixSocket t = Some k \<Longrightarrow> sock_reachable sys (k, s)"
| sr_accept: "Socket_accept sys w = (Some k, s) \<Longrightarrow> sock_reachable sys (k, s)"
| sr_step: "sock_reachable sys w \<Longrightarrow> sock_step sys w w' \<Longrightarrow> sock_reachable sys w'"

definition sock_ok :: "sock \<Rightarrow> bool" where
  "sock_ok k \<longleftrightarrow> (m_isConnected k \<longrightarrow> isValid k)"

lemma getRemote_fields [simp]:
  "m_sock (snd (getRemoteAddress sys w)) = m_sock (fst w)" "m_isConnected (snd (getRemoteAddress sys w)) = m_isConnected (fst w)"
  "m_domain (snd (getRemoteAddress sys w)) = m_domain (fst w)" "m_localAddress (snd (getRemoteAddress sys w)) = m_localAddress (fst w)"
  by (auto simp: getRemoteAddress_def split: prod.splits option.splits)

lemma getLocal_fields [simp]:
  "m_sock (snd (getLocalAddress sys w)) = m_sock (fst w)" "m_isConnected (snd (getLocalAddress sys w)) = m_isConnected (fst w)"
  "m_domain (snd (getLocalAddress sys w)) = m_domain (fst w)"
  by (auto simp: getLocalAddress_def split: prod.splits option.splits)

lemma getLocal_keeps: "m_localAddress (fst w) = Some a \<Longrightarrow> m_localAddress (snd (getLocalAddress sys w)) = Some a"
  by (auto simp: getLocalAddress_def split: prod.splits option.splits)

lemma init_new:
  assumes "Socket_init sys True (k, s) = (b, k', s')" "\<not> m_isConnected k"
  shows "b = isValid k'" "m_isConnected k' \<longrightarrow> isValid k'" "m_domain k' = m_domain k" "m_localAddress k' = m_localAddress k"
  using assms by (auto simp: Socket_init_def Let_def isValid_def split: prod.splits if_splits)

lemma init_old: "Socket_init sys False (k, s) = (b, k', s') \<Longrightarrow> m_sock k' = m_sock k"
  by (auto simp: Socket_init_def Let_def split: prod.splits if_splits)

lemma listen_ok:
  assumes "Socket_listen sys addr backlog (k, s) = (b, k', s')" "sock_ok k"
  shows "sock_ok k'"
proof -
  obtain k1 s1 where i: "(if \<not> isValid k then snd (Socket_init sys True (k, s)) else (k, s)) = (k1, s1)" by fastforce
  have "sock_ok k1"
  proof (cases "isValid k")
    case False
    then have "\<not> m_isConnected k" using assms(2) by (simp add: sock_ok_def)
    then show ?thesis using i False init_new [of sys k s "fst (Socket_init sys True (k, s))" k1 s1]
      by (auto simp: sock_ok_def prod_eq_iff)
  qed (use i assms(2) in simp)
  then show ?thesis using assms(1) i
    by (auto simp: Socket_listen_def Socket_bind_def Let_def sock_ok_def isValid_def split: prod.splits if_splits)
qed

lemma close_result:
  "Socket_close sys (k, s) = (b, k', s') \<Longrightarrow> sock_ok k \<Longrightarrow>
    \<not> isValid k' \<and> \<not> m_isConnected k' \<and> b = (\<not> isValid k) \<and> s' = (if isValid k then sys_close sys s (m_sock k) else s)
    \<and> m_localAddress k' = m_localAddress k \<and> m_domain k' = m_domain k"
  by (auto simp: Socket_close_def sock_ok_def isValid_def split: if_splits)

lemma connect_result:
  assumes "Socket_connect sys addr timeout (k, s) = (b, k', s')" "sock_ok k"
  shows "(b \<longrightarrow> m_isConnected k' \<and> isValid k' \<and> m_remoteAddress k' = Some addr)
    \<and> (\<not> b \<and> uint (getFamily addr) = m_domain k \<longrightarrow> \<not> m_isConnected k' \<and> \<not> isValid k')
    \<and> (uint (getFamily addr) \<noteq> m_domain k \<longrightarrow> \<not> b \<and> k' = k\<lparr>m_remoteAddress := Some addr\<rparr> \<and> s' = s)
    \<and> (\<forall>a. m_localAddress k = Some a \<longrightarrow> m_localAddress k' = Some a)"
proof (cases "uint (getFamily addr) = m_domain k")
  case False
  then show ?thesis using assms by (auto simp: Socket_connect_def Let_def sock_ok_def isValid_def)
next
  case True
  let ?k = "k\<lparr>m_remoteAddress := Some addr\<rparr>"
  obtain k1 s1 where i: "(if \<not> isValid ?k then snd (Socket_init sys True (?k, s)) else (?k, s)) = (k1, s1)" by fastforce
  have k1: "sock_ok k1 \<and> m_localAddress k1 = m_localAddress k \<and> m_remoteAddress k1 = Some addr"
  proof (cases "isValid ?k")
    case False
    then have "\<not> m_isConnected ?k" using assms(2) by (simp add: sock_ok_def isValid_def)
    then show ?thesis using i False init_new [of sys ?k s "fst (Socket_init sys True (?k, s))" k1 s1]
      by (auto simp: sock_ok_def prod_eq_iff Socket_init_def Let_def split: prod.splits if_splits)
  qed (use i assms(2) in \<open>auto simp: sock_ok_def isValid_def\<close>)
  obtain rt s2 where c: "(if timeout = - 1 then sys_connect sys s1 (m_sock k1) addr
      else sys_connect_with_timeout sys s1 (m_sock k1) addr timeout) = (rt, s2)" by fastforce
  have dom: "uint (getFamily addr) = m_domain ?k" using True by simp
  have eq: "Socket_connect sys addr timeout (k, s) =
      (if \<not> isValid k1 then (False, k1, s1)
       else if rt \<noteq> 0 then (False, snd (Socket_close sys (k1, s2)))
       else (True, snd (getLocalAddress sys (snd (getRemoteAddress sys (k1\<lparr>m_isConnected := True\<rparr>, s2)), s2)), s2))"
    unfolding Socket_connect_def Let_def fst_conv snd_conv i prod.case c using dom by simp
  show ?thesis
  proof (cases "isValid k1 \<and> rt = 0")
    case ok: True
    let ?k2 = "snd (getRemoteAddress sys (k1\<lparr>m_isConnected := True\<rparr>, s2))"
    have r: "?k2 = k1\<lparr>m_isConnected := True\<rparr>" using k1 by (simp add: getRemoteAddress_def)
    have "b \<and> k' = snd (getLocalAddress sys (?k2, s2)) \<and> s' = s2"
      using assms(1) ok unfolding eq by auto
    moreover have "m_remoteAddress (snd (getLocalAddress sys (x, s2))) = m_remoteAddress x" for x
      by (auto simp: getLocalAddress_def split: option.splits)
    ultimately show ?thesis using ok k1 r getLocal_keeps [of "(?k2, s2)"] True by (auto simp: isValid_def)
  next
    case no: False
    have "\<not> b \<and> (\<not> isValid k1 \<and> k' = k1 \<or> k' = fst (snd (Socket_close sys (k1, s2))))"
      using assms(1) no unfolding eq by (auto split: if_splits)
    then show ?thesis using True k1 close_result [of sys k1 s2]
      by (cases "Socket_close sys (k1, s2)") (auto simp: sock_ok_def)
  qed
qed

lemma accept_ok: "Socket_accept sys w = (Some k, s) \<Longrightarrow> m_sock k \<noteq> - 1 \<and> m_isConnected k"
  by (auto simp: Socket_accept_def createAcceptedSocket_def Let_def split: prod.splits if_splits dest!: init_old)

lemma sock_step_ok: "sock_step sys w w' \<Longrightarrow> sock_ok (fst w) \<Longrightarrow> sock_ok (fst w')"
proof (induction rule: sock_step.induct)
  case (sk_listen addr backlog w b w')
  then show ?case using listen_ok [of sys addr backlog "fst w" "snd w" b "fst w'" "snd w'"] by simp
next
  case (sk_connect addr timeout w b w')
  then show ?case using connect_result [of sys addr timeout "fst w" "snd w" b "fst w'" "snd w'"]
    by (cases "uint (getFamily addr) = m_domain (fst w)") (auto simp: sock_ok_def isValid_def)
next
  case (sk_close w b w')
  then show ?case using close_result [of sys "fst w" "snd w" b "fst w'" "snd w'"] by (simp add: sock_ok_def)
next
  case (sk_remote k s a k')
  then show ?case using getRemote_fields(1, 2) [of sys "(k, s)"] by (simp add: sock_ok_def isValid_def)
next
  case (sk_local k s a k')
  then show ?case using getLocal_fields(1, 2) [of sys "(k, s)"] by (simp add: sock_ok_def isValid_def)
qed simp

lemma sock_reachable_ok: "sock_reachable sys w \<Longrightarrow> sock_ok (fst w)"
proof (induction rule: sock_reachable.induct)
  case (sr_udp d s k s')
  let ?k0 = "Socket (domain_num d) UDP 0"
  obtain b k1 s1 where i: "Socket_init sys True (?k0, s) = (b, k1, s1)" by (metis prod_cases3)
  have "k = k1" using sr_udp i by (auto simp: CreateUDPSocket_def split: if_splits)
  then show ?case using init_new(2) [OF i] by (simp add: Socket_def sock_ok_def)
next
  case (sr_accept w k s)
  then show ?case using accept_ok [of sys w k s] by (simp add: sock_ok_def isValid_def)
next
  case (sr_step w w')
  then show ?case using sock_step_ok by blast
qed (auto simp: CreateTCPSocket_def CreateUNixSocket_def Socket_def sock_ok_def split: if_splits)

section \<open>Properties\<close>


definition demo_addr :: Address where
  "demo_addr = IPv4Address (IPv4Address_new 0x7F000001 80)"

definition demo_net :: net where
  "demo_net = \<lparr>nt_plan = [], nt_in = [], nt_out = [], nt_closed = []\<rparr>"


end
