(* ===== verification/Sylar_Session.thy ===== *)
theory Sylar_Session
  imports Sylar_Socket Sylar_Http
begin

text \<open>
  HTTP on a connection (\<^verbatim>\<open>src/sylar/http/http_parser.cpp\<close>, \<^verbatim>\<open>http_session.cpp\<close>): the request parser with the
  callbacks that build the message, and the server side of a connection, which receives requests and
  sends responses. The state machine is an interface here, which \<^verbatim>\<open>Sylar_Http11\<close> provides:
  a call yields the number of bytes it consumed, the callbacks it made in order, and its next state.
  \<^verbatim>\<open>boost::lexical_cast\<close> is a parameter too. A receive loop that does not return is \<^term>\<open>None\<close>.
\<close>

section \<open>The parsers\<close>

text \<open>A callback gets the memory behind its pointer and a length.\<close>

datatype Element =
    request_method | request_uri | fragment | request_path | query_string | http_version | header_done
  | reason_phrase | status_code | chunk_size | last_chunk

datatype Callback =
    ElementCb Element string nat
  | FieldCb string nat string nat

record 'p ragel =
  rg_init :: 'p
  rg_execute :: "'p \<Rightarrow> string \<Rightarrow> nat \<times> Callback list \<times> 'p"
  rg_finish :: "'p \<Rightarrow> int"
  rg_has_error :: "'p \<Rightarrow> bool"

record 'p request_parser =
  rp_parser :: 'p
  rp_data :: http_request
  rp_error :: int

text \<open>\<^verbatim>\<open>strncmp(at, lit, length) == 0\<close>: at most \<open>length\<close> characters are compared, up to the end of either string.\<close>

fun strncmp_eq :: "string \<Rightarrow> string \<Rightarrow> nat \<Rightarrow> bool" where
  "strncmp_eq at lit 0 \<longleftrightarrow> True"
| "strncmp_eq [] [] (Suc n) \<longleftrightarrow> True"
| "strncmp_eq (a # as) (b # bs) (Suc n) \<longleftrightarrow> a = b \<and> strncmp_eq as bs n"
| "strncmp_eq as bs (Suc n) \<longleftrightarrow> False"

definition parse_version :: "string \<Rightarrow> nat \<Rightarrow> u8 option" where
  "parse_version at n =
     (if strncmp_eq at ''HTTP/1.1'' n then Some 0x11
      else if strncmp_eq at ''HTTP/1.0'' n then Some 0x10 else None)"

definition on_request_method :: "string \<Rightarrow> nat \<Rightarrow> 'p request_parser \<Rightarrow> 'p request_parser" where
  "on_request_method at n p =
     (let m = CharsToHttpMethod at in
      if m = INVALID_METHOD then p\<lparr>rp_error := 1000\<rparr> else p\<lparr>rp_data := (rp_data p)\<lparr>q_method := m\<rparr>\<rparr>)"

definition on_request_version :: "string \<Rightarrow> nat \<Rightarrow> 'p request_parser \<Rightarrow> 'p request_parser" where
  "on_request_version at n p =
     (case parse_version at n of
        None \<Rightarrow> p\<lparr>rp_error := 1001\<rparr>
      | Some v \<Rightarrow> p\<lparr>rp_data := (rp_data p)\<lparr>q_version := v\<rparr>\<rparr>)"

definition on_request_http_field :: "string \<Rightarrow> nat \<Rightarrow> string \<Rightarrow> nat \<Rightarrow> 'p request_parser \<Rightarrow> 'p request_parser" where
  "on_request_http_field field flen val vlen p =
     (if flen = 0 then p else p\<lparr>rp_data := q_setHeader (rp_data p) (take flen field) (take vlen val)\<rparr>)"

fun request_callback :: "Callback \<Rightarrow> 'p request_parser \<Rightarrow> 'p request_parser" where
  "request_callback (ElementCb request_method at n) p = on_request_method at n p"
| "request_callback (ElementCb fragment at n) p = p\<lparr>rp_data := (rp_data p)\<lparr>q_fragment := take n at\<rparr>\<rparr>"
| "request_callback (ElementCb request_path at n) p = p\<lparr>rp_data := (rp_data p)\<lparr>q_path := take n at\<rparr>\<rparr>"
| "request_callback (ElementCb query_string at n) p = p\<lparr>rp_data := (rp_data p)\<lparr>q_query := take n at\<rparr>\<rparr>"
| "request_callback (ElementCb http_version at n) p = on_request_version at n p"
| "request_callback (FieldCb f n v m) p = on_request_http_field f n v m p"
| "request_callback (ElementCb _ at n) p = p"

definition HttpRequestParser :: "'p ragel \<Rightarrow> 'p request_parser" where
  "HttpRequestParser rg = \<lparr>rp_parser = rg_init rg, rp_data = HttpRequest 0x11 True, rp_error = 0\<rparr>"

text \<open>The result is the number of bytes consumed; the rest of the buffer is moved to its front.\<close>

definition request_execute :: "'p ragel \<Rightarrow> string \<Rightarrow> 'p request_parser \<Rightarrow> nat \<times> string \<times> 'p request_parser" where
  "request_execute rg data p =
     (let (offset, cbs, st) = rg_execute rg (rp_parser p) data
      in (offset, drop offset data, (fold request_callback cbs p)\<lparr>rp_parser := st\<rparr>))"

definition request_isFinished :: "'p ragel \<Rightarrow> 'p request_parser \<Rightarrow> bool" where
  "request_isFinished rg p \<longleftrightarrow> rg_finish rg (rp_parser p) \<noteq> 0"

definition request_hasError :: "'p ragel \<Rightarrow> 'p request_parser \<Rightarrow> bool" where
  "request_hasError rg p \<longleftrightarrow> rp_error p \<noteq> 0 \<or> rg_has_error rg (rp_parser p)"

definition request_getContentLength :: "(string \<Rightarrow> u64 option) \<Rightarrow> 'p request_parser \<Rightarrow> u64" where
  "request_getContentLength lexical_cast p = getAs lexical_cast (q_headers (rp_data p)) ''content-length'' 0"

section \<open>Receiving a request\<close>

text \<open>
  The do-while loop of \<^verbatim>\<open>recvRequest\<close>. \<open>buf\<close> holds the first \<^verbatim>\<open>offset\<close> bytes of the buffer. The result is
  the parser and the unparsed bytes, or nothing when the connection has to be closed.
\<close>

partial_function (option) recv_loop ::
    "('s, char) reader \<Rightarrow> 'p ragel \<Rightarrow> nat \<Rightarrow> 's \<Rightarrow> 'p request_parser \<Rightarrow> string \<Rightarrow> (('p request_parser \<times> string) option \<times> 's) option" where
  "recv_loop rd rg buff_size s p buf =
     (case rd s (buff_size - length buf) of
        (len, bs, s1) \<Rightarrow>
          if len \<le> 0 then Some (None, s1)
          else (case request_execute rg (buf @ bs) p of
                  (nparse, rest, p1) \<Rightarrow>
                    if request_hasError rg p1 then Some (None, s1)
                    else if int (length (buf @ bs)) - int nparse = to_int32 (int buff_size) then Some (None, s1)
                    else if request_isFinished rg p1 then Some (Some (p1, rest), s1)
                    else recv_loop rd rg buff_size s1 p1 rest))"

text \<open>
  The body: \<open>L\<close> is the announced length as \<^verbatim>\<open>int64_t\<close>, \<open>rest\<close> what the buffer holds behind the header.
  The result is the body, or nothing when the rest of it cannot be read.
\<close>

definition recv_body :: "('s, char) reader \<Rightarrow> int \<Rightarrow> string \<Rightarrow> 's \<Rightarrow> string option \<times> 's" where
  "recv_body rd L rest s =
     (let offset = int (length rest);
          copied = (if L \<ge> offset then rest else take (nat L) rest);
          left = L - offset
      in if left > 0
         then let (rt, bs, s1) = readFixSize rd s (nat left) in (if rt \<le> 0 then None else Some (copied @ bs), s1)
         else (Some copied, s))"

definition recvRequest ::
    "('os, char) sys_calls \<Rightarrow> 'p ragel \<Rightarrow> (string \<Rightarrow> u64 option) \<Rightarrow> nat \<Rightarrow> 'os socket_stream \<Rightarrow> (http_request option \<times> 'os socket_stream) option" where
  "recvRequest sys rg lexical_cast buff_size st =
     (case recv_loop (SocketStream_read sys) rg buff_size st (HttpRequestParser rg) '''' of
        None \<Rightarrow> None
      | Some (None, s1) \<Rightarrow> Some (None, SocketStream_close sys s1)
      | Some (Some (p, rest), s1) \<Rightarrow>
          (let L = sint (request_getContentLength lexical_cast p) in
           if L > 0
           then (case recv_body (SocketStream_read sys) L rest s1 of
                   (None, s2) \<Rightarrow> Some (None, SocketStream_close sys s2)
                 | (Some body, s2) \<Rightarrow> Some (Some (q_init ((rp_data p)\<lparr>q_body := body\<rparr>)), s2))
           else Some (Some (q_init (rp_data p)), s1)))"

definition sendResponse :: "('os, char) sys_calls \<Rightarrow> http_response \<Rightarrow> 'os socket_stream \<Rightarrow> int \<times> 'os socket_stream" where
  "sendResponse sys rsp st = writeFixSize (SocketStream_write sys) st (r_dump rsp)"

lemma callback_body: "q_body (rp_data (request_callback c p)) = q_body (rp_data p)"
proof (cases c)
  case (ElementCb e at n)
  then show ?thesis
    by (cases e) (auto simp: on_request_method_def on_request_version_def Let_def split: option.splits)
next
  case (FieldCb f n v m)
  then show ?thesis by (simp add: on_request_http_field_def q_setHeader_def)
qed

lemma callbacks_body: "q_body (rp_data (fold request_callback cs p)) = q_body (rp_data p)"
  by (induction cs arbitrary: p) (simp_all add: callback_body)

declare recv_loop.simps [code]

section \<open>What a session relies on and gives\<close>

text \<open>A byte source with a state machine that never claims more bytes than it was given.\<close>

locale http_source = byte_source rd pending
  for rd :: "('s, char) reader" and pending :: "'s \<Rightarrow> string" +
  fixes rg :: "'p ragel"
  assumes execute_consumes: "fst (rg_execute rg st data) \<le> length data"
begin

lemma execute_splits:
  assumes "request_execute rg data p = (nparse, rest, p1)"
  shows "nparse \<le> length data" "data = take nparse data @ rest" "length rest = length data - nparse"
  using assms execute_consumes [of "rp_parser p" data] by (auto simp: request_execute_def case_prod_beta Let_def)

lemma recv_loop_spec:
  assumes "length buf < buff_size" "buff_size < 2 ^ 31" "q_body (rp_data p) = ''''"
  shows "\<exists>r s'. recv_loop rd rg buff_size s p buf = Some (r, s') \<and>
    (\<forall>p' rest. r = Some (p', rest) \<longrightarrow> (\<exists>parsed. buf @ pending s = parsed @ rest @ pending s') \<and> length rest < buff_size
       \<and> \<not> request_hasError rg p' \<and> request_isFinished rg p' \<and> q_body (rp_data p') = ''''
       \<and> length (pending s') < length (pending s))"
  using assms
proof (induction "length (pending s)" arbitrary: s p buf rule: less_induct)
  case less
  obtain len bs s1 where r: "rd s (buff_size - length buf) = (len, bs, s1)" by (metis prod_cases3)
  obtain nparse rest p1 where x: "request_execute rg (buf @ bs) p = (nparse, rest, p1)" by (metis prod_cases3)
  let ?eq = "recv_loop rd rg buff_size s p buf"
  have n: "0 < buff_size - length buf" using less.prems by simp
  have eq: "?eq = (if len \<le> 0 then Some (None, s1) else if request_hasError rg p1 then Some (None, s1)
      else if int (length (buf @ bs)) - int nparse = to_int32 (int buff_size) then Some (None, s1)
      else if request_isFinished rg p1 then Some (Some (p1, rest), s1) else recv_loop rd rg buff_size s1 p1 rest)"
    by (subst recv_loop.simps) (simp add: r x)
  show ?case
  proof (cases "0 < len \<and> \<not> request_hasError rg p1 \<and> int (length (buf @ bs)) - int nparse \<noteq> to_int32 (int buff_size)")
    case False
    then show ?thesis unfolding eq by auto
  next
    case True
    have mv: "int (length bs) = len" "pending s = bs @ pending s1" using rd_moves [OF r n] True by auto
    have "len \<le> int (buff_size - length buf)" using rd_range [OF r n] by simp
    then have "length (buf @ bs) \<le> buff_size" using mv(1) n by simp
    moreover have "to_int32 (int buff_size) = int buff_size" using less.prems(2) by (intro to_int32_small) auto
    ultimately have short: "length rest < buff_size" using execute_splits(1, 3) [OF x] True by auto
    have body: "q_body (rp_data p1) = ''''" using less.prems(3) x by (auto simp: request_execute_def Let_def callbacks_body split: prod.splits)
    have "buf @ pending s = (buf @ bs) @ pending s1" using mv(2) by simp
    also have "\<dots> = (take nparse (buf @ bs) @ rest) @ pending s1" using execute_splits(2) [OF x] by (rule arg_cong)
    finally have split: "buf @ pending s = take nparse (buf @ bs) @ rest @ pending s1" by (simp only: append.assoc)
    have less1: "length (pending s1) < length (pending s)" using mv True by auto
    show ?thesis
    proof (cases "request_isFinished rg p1")
      case fin: True
      then have "?eq = Some (Some (p1, rest), s1)" unfolding eq using True by simp
      then show ?thesis using True fin short body split less1 by auto
    next
      case fin: False
      from less.hyps [OF less1 short less.prems(2) body] obtain r s' where ih: "recv_loop rd rg buff_size s1 p1 rest = Some (r, s')"
        "\<forall>p' rest'. r = Some (p', rest') \<longrightarrow> (\<exists>parsed. rest @ pending s1 = parsed @ rest' @ pending s') \<and> length rest' < buff_size
           \<and> \<not> request_hasError rg p' \<and> request_isFinished rg p' \<and> q_body (rp_data p') = ''''
           \<and> length (pending s') < length (pending s1)" by blast
      have "?eq = Some (r, s')" unfolding eq using True fin ih(1) by simp
      moreover have "\<exists>parsed. buf @ pending s = parsed @ rest' @ pending s'" if "rest @ pending s1 = parsed @ rest' @ pending s'" for parsed rest'
        using split that by (metis append.assoc)
      ultimately show ?thesis using ih(2) less1 less_trans by blast
    qed
  qed
qed

lemma recv_body_spec:
  assumes "recv_body rd L rest s = (Some body, s')" "0 < L" "L < 2 ^ 63"
  shows "\<exists>got. pending s = got @ pending s' \<and> body = take (nat L) (rest @ got) \<and> length got = nat L - length rest \<and> length body = nat L"
proof (cases "L - int (length rest) > 0")
  case False
  then have "body = take (nat L) rest \<and> s' = s \<and> nat L \<le> length rest"
    using assms(1) by (auto simp: recv_body_def Let_def split: if_splits)
  then show ?thesis by (intro exI [of _ "[]"]) simp
next
  case True
  obtain rt bs s1 where r: "readFixSize rd s (nat (L - int (length rest))) = (rt, bs, s1)" by (metis prod_cases3)
  have out: "0 < rt" "body = rest @ bs" "s' = s1" using assms(1) True r by (auto simp: recv_body_def Let_def split: if_splits)
  let ?left = "L - int (length rest)"
  have "to_int64 ?left = ?left" using to_int64_small [of "nat ?left"] True assms(3) by simp
  then have loop: "read_fix_loop rd s [] ?left ?left = (rt, bs, s1)" using r True by (simp add: readFixSize_def)
  from read_fix_loop_spec [OF loop] have got: "pending s = bs @ pending s1" "int (length bs) = ?left" using out(1) True by auto
  then have "length bs = nat L - length rest" "nat L = length rest + length bs" using True by auto
  then show ?thesis using got(1) out(2, 3) by (intro exI [of _ bs]) simp
qed

end

context inbound_calls
begin

lemma source: "byte_source (SocketStream_read sys) (stream_bytes inbound)"
  by (rule rx.byte_source_axioms)

end

context outbound_calls
begin

lemma sink: "byte_sink (SocketStream_write sys) (stream_bytes outbound)"
  by (rule tx.byte_sink_axioms)

end

lemma close_stream:
  "\<not> ss_isConnected (SocketStream_close sys st)"
  "ss_socket (SocketStream_close sys st) = Some k \<Longrightarrow> m_sock k = - 1"
  by (auto simp: SocketStream_close_def ss_isConnected_def Socket_close_def split: option.splits prod.splits if_splits)

lemma recvRequest_spec:
  assumes "inbound_calls sys inb" "\<forall>ps data. fst (rg_execute rg ps data) \<le> length data" "0 < buff_size" "buff_size < 2 ^ 31"
  shows "\<exists>r st'. recvRequest sys rg lexical_cast buff_size st = Some (r, st')
    \<and> (r = None \<longrightarrow> \<not> ss_isConnected st' \<and> (\<forall>k. ss_socket st' = Some k \<longrightarrow> m_sock k = - 1))
    \<and> (\<forall>q. r = Some q \<longrightarrow> (\<exists>p parsed rest got.
          let L = nat (sint (request_getContentLength lexical_cast p)) in
          request_isFinished rg p \<and> \<not> request_hasError rg p \<and> length rest < buff_size
          \<and> stream_bytes inb st = parsed @ rest @ got @ stream_bytes inb st'
          \<and> q = q_init ((rp_data p)\<lparr>q_body := take L (rest @ got)\<rparr>)
          \<and> length (take L (rest @ got)) = L \<and> length got = L - length rest \<and> parsed @ rest \<noteq> []))"
proof -
  let ?rd = "SocketStream_read sys" and ?pend = "stream_bytes inb"
  have hs: "http_source ?rd ?pend rg"
    using inbound_calls.source [OF assms(1)] assms(2) by (simp add: http_source_def http_source_axioms_def)
  obtain r s1 where loop: "recv_loop ?rd rg buff_size st (HttpRequestParser rg) '''' = Some (r, s1)"
    "\<And>p rest. r = Some (p, rest) \<Longrightarrow> (\<exists>parsed. ?pend st = parsed @ rest @ ?pend s1) \<and> length rest < buff_size
       \<and> \<not> request_hasError rg p \<and> request_isFinished rg p \<and> q_body (rp_data p) = ''''
       \<and> length (?pend s1) < length (?pend st)"
    using http_source.recv_loop_spec [OF hs, of "''''" buff_size "HttpRequestParser rg" st] assms(3, 4)
    by (auto simp: HttpRequestParser_def HttpRequest_def)
  show ?thesis
  proof (cases r)
    case None
    then have "recvRequest sys rg lexical_cast buff_size st = Some (None, SocketStream_close sys s1)"
      using loop(1) by (simp add: recvRequest_def)
    then show ?thesis using close_stream [of sys s1] by blast
  next
    case (Some pr)
    obtain p rest where pr: "pr = (p, rest)" by fastforce
    from loop(2) [OF Some [unfolded pr]] obtain parsed where d: "?pend st = parsed @ rest @ ?pend s1" "length rest < buff_size"
      "\<not> request_hasError rg p" "request_isFinished rg p" "q_body (rp_data p) = ''''" "length (?pend s1) < length (?pend st)" by blast
    have ne: "parsed @ rest \<noteq> []" using d(1, 6) by auto
    let ?L = "sint (request_getContentLength lexical_cast p)"
    have big: "?L < 2 ^ 63" using sint_lt [of "request_getContentLength lexical_cast p"] by simp
    show ?thesis
    proof (cases "?L > 0")
      case False
      have "recvRequest sys rg lexical_cast buff_size st = Some (Some (q_init (rp_data p)), s1)"
        using loop(1) Some pr False by (simp add: recvRequest_def)
      moreover have "(rp_data p)\<lparr>q_body := take (nat ?L) (rest @ [])\<rparr> = rp_data p" "length (take (nat ?L) (rest @ [])) = nat ?L"
          "length ([] :: string) = nat ?L - length rest" "?pend st = parsed @ rest @ [] @ ?pend s1" using False d(1, 5) by simp_all
      ultimately show ?thesis unfolding Let_def
        using d(2-4) ne by (intro exI [of _ "Some (q_init (rp_data p))"] exI [of _ s1]) (metis option.inject option.distinct(1))
    next
      case True
      obtain b s2 where b: "recv_body ?rd ?L rest s1 = (b, s2)" by fastforce
      show ?thesis
      proof (cases b)
        case None
        then have "recvRequest sys rg lexical_cast buff_size st = Some (None, SocketStream_close sys s2)"
          using loop(1) Some pr True b by (simp add: recvRequest_def)
        then show ?thesis using close_stream [of sys s2] by blast
      next
        case body: (Some body)
        have eq: "recvRequest sys rg lexical_cast buff_size st = Some (Some (q_init ((rp_data p)\<lparr>q_body := body\<rparr>)), s2)"
          using loop(1) Some pr True b body by (simp add: recvRequest_def)
        from http_source.recv_body_spec [OF hs b [unfolded body] True big] obtain got where
          g: "?pend s1 = got @ ?pend s2" "body = take (nat ?L) (rest @ got)" "length got = nat ?L - length rest" "length body = nat ?L" by blast
        show ?thesis unfolding Let_def
          using eq d g ne by (intro exI [of _ "Some (q_init ((rp_data p)\<lparr>q_body := body\<rparr>))"] exI [of _ s2]) (metis option.inject option.distinct(1))
      qed
    qed
  qed
qed

section \<open>Properties\<close>


text \<open>A machine for a made-up header that ends with a full stop and announces three bytes.\<close>

definition demo_ragel :: "bool ragel" where
  "demo_ragel =
     \<lparr>rg_init = False,
      rg_execute = (\<lambda>st data. case find_char (CHR ''.'') data 0 of
           None \<Rightarrow> (length data, [], st)
         | Some i \<Rightarrow> (min (i + 1) (length data), [FieldCb ''content-length'' 14 ''3'' 1], True)),
      rg_finish = (\<lambda>st. if st then 1 else 0), rg_has_error = (\<lambda>st. False)\<rparr>"

interpretation demo_http: http_source "SocketStream_read net_sys" "stream_bytes (\<lambda>s fd. nt_in s)" demo_ragel
  by (intro http_source.intro net_rx.source http_source_axioms.intro) (auto simp: demo_ragel_def split: option.splits)

definition demo_stream :: "net socket_stream" where
  "demo_stream = SocketStream (Some ((Socket 2 1 0)\<lparr>m_sock := 8, m_isConnected := True\<rparr>)) True
     \<lparr>nt_plan = [2, 3, 5], nt_in = ''ab.xyzt'', nt_out = [], nt_closed = []\<rparr>"

definition demo_cast :: "string \<Rightarrow> u64 option" where
  "demo_cast v = (if v = ''3'' then Some 3 else None)"


text \<open>For a system whose \<open>send\<close> behaves as documented, \<open>sendResponse\<close> puts a prefix of the printed response on the
  connection; it is the whole response exactly when the result is positive, and then the result is
  its size.\<close>

theorem sendResponse_delivers:
  assumes "outbound_calls sys outb" "length (r_dump rsp) < 2 ^ 31" "sendResponse sys rsp st = (rt, st')"
  shows "\<exists>k \<le> length (r_dump rsp). stream_bytes outb st' = stream_bytes outb st @ take k (r_dump rsp)
    \<and> (if 0 < rt then k = length (r_dump rsp) \<and> rt = int (length (r_dump rsp)) else k < length (r_dump rsp))"
proof -
  have ne: "r_dump rsp \<noteq> []" by (simp add: r_dump_def)
  from byte_sink.writeFixSize_spec [OF outbound_calls.sink [OF assms(1)] assms(3) [unfolded sendResponse_def] assms(2)] ne
  show ?thesis by auto
qed

theorem sendResponse_delivers_witness:
  "\<exists>rt st' k. sendResponse net_sys (HttpResponse 0x11 True) demo_stream = (rt, st')
     \<and> stream_bytes (\<lambda>s fd. nt_out s) st' = take k (r_dump (HttpResponse 0x11 True))"
proof -
  obtain rt st' where r: "sendResponse net_sys (HttpResponse 0x11 True) demo_stream = (rt, st')" by fastforce
  have "stream_bytes (\<lambda>s fd. nt_out s) demo_stream = []" by (simp add: stream_bytes_def demo_stream_def SocketStream_def)
  moreover have "length (r_dump (HttpResponse 0x11 True)) < 2 ^ 31"
    by (simp add: r_dump_def HttpResponse_def show_version_def show_status_def HttpStatusToString_def HTTP_STATUS_MAP_def crlf_def
        dump_headers_def dump_connection_def dump_body_def show_nat.simps take_bit_eq_mod)
  ultimately show ?thesis using sendResponse_delivers [OF net_tx.outbound_calls_axioms _ r] r by auto
qed

end
