(* ===== verification/Sylar_Servlet.thy ===== *)
theory Sylar_Servlet
  imports Sylar_Session "HOL-Library.AList"
begin

text \<open>
  Servlets and the HTTP server (\<^verbatim>\<open>src/sylar/http/servlet.cpp\<close>, \<^verbatim>\<open>servlet.h\<close>, \<^verbatim>\<open>http_server.cpp\<close>): the dispatch
  table with its exact and its pattern entries, the default servlet, and the loop that serves a
  connection. The functions that users register are values of a type \<open>'f\<close> with \<open>run\<close> as their meaning; \<^verbatim>\<open>fnmatch\<close> is
  a parameter (true when the pattern matches). The hash map is an association list, whose order no operation depends on.
\<close>

section \<open>Servlets\<close>

datatype 'f Servlet = FunctionServlet 'f | NotFoundServlet string

text \<open>A creator yields the servlet it holds, which may be null, or makes a new one.\<close>

datatype 'f IServletCreator = HoldServletCreator "'f Servlet option" | ServletCreator "'f Servlet"

fun creator_get :: "'f IServletCreator \<Rightarrow> 'f Servlet option" where
  "creator_get (HoldServletCreator slt) = slt"
| "creator_get (ServletCreator slt) = Some slt"

definition NotFound_content :: "string \<Rightarrow> string" where
  "NotFound_content name =
     ''<html><head><title>404 Not Found</title></head><body><center><h1>404 Not Found</h1></center><hr><center>'' @ name
     @ ''If you see this page, the nginx web server is successfully installed and working. Further configuration is required. For online documentation and support please refer to nginx.org. Commercial support is available at nginx.com.Thank you for using nginx.''
     @ ''</center></body></html>''"

definition NotFound_handle :: "string \<Rightarrow> http_response \<Rightarrow> http_response" where
  "NotFound_handle name r =
     (r_setHeader (r_setHeader (r\<lparr>r_status := 404\<rparr>) ''Server'' ''sylar/1.0.0'') ''Content-Type'' ''text/html'')\<lparr>r_body := NotFound_content name\<rparr>"

text \<open>The request, the response and the session are shared objects: a servlet may change all three.\<close>

type_synonym ('f, 's) handler = "'f \<Rightarrow> http_request \<times> http_response \<times> 's \<Rightarrow> int \<times> http_request \<times> http_response \<times> 's"

fun Servlet_handle :: "('f, 's) handler \<Rightarrow> 'f Servlet \<Rightarrow> http_request \<times> http_response \<times> 's \<Rightarrow> int \<times> http_request \<times> http_response \<times> 's" where
  "Servlet_handle run (FunctionServlet f) w = run f w"
| "Servlet_handle run (NotFoundServlet name) (q, r, s) = (0, q, NotFound_handle name r, s)"

section \<open>Dispatch\<close>

record 'f dispatch =
  d_datas :: "(string \<times> 'f IServletCreator) list"
  d_globs :: "(string \<times> 'f IServletCreator) list"
  d_default :: "'f Servlet option"

definition ServletDispatch :: "'f dispatch" where
  "ServletDispatch = \<lparr>d_datas = [], d_globs = [], d_default = Some (NotFoundServlet ''sylar/1.0'')\<rparr>"

definition addServletCreator :: "string \<Rightarrow> 'f IServletCreator \<Rightarrow> 'f dispatch \<Rightarrow> 'f dispatch" where
  "addServletCreator uri creator d = d\<lparr>d_datas := AList.update uri creator (d_datas d)\<rparr>"

definition addServlet :: "string \<Rightarrow> 'f Servlet option \<Rightarrow> 'f dispatch \<Rightarrow> 'f dispatch" where
  "addServlet uri slt d = d\<lparr>d_datas := AList.update uri (HoldServletCreator slt) (d_datas d)\<rparr>"

definition addServlet_cb :: "string \<Rightarrow> 'f \<Rightarrow> 'f dispatch \<Rightarrow> 'f dispatch" where
  "addServlet_cb uri cb d = d\<lparr>d_datas := AList.update uri (HoldServletCreator (Some (FunctionServlet cb))) (d_datas d)\<rparr>"

text \<open>The loop that erases the first entry of a pattern.\<close>

fun erase_glob :: "string \<Rightarrow> (string \<times> 'v) list \<Rightarrow> (string \<times> 'v) list" where
  "erase_glob uri [] = []"
| "erase_glob uri (e # es) = (if fst e = uri then es else e # erase_glob uri es)"

definition addGlobServletCreator :: "string \<Rightarrow> 'f IServletCreator \<Rightarrow> 'f dispatch \<Rightarrow> 'f dispatch" where
  "addGlobServletCreator uri creator d = d\<lparr>d_globs := erase_glob uri (d_globs d) @ [(uri, creator)]\<rparr>"

definition addGlobServlet :: "string \<Rightarrow> 'f Servlet option \<Rightarrow> 'f dispatch \<Rightarrow> 'f dispatch" where
  "addGlobServlet uri slt d = d\<lparr>d_globs := erase_glob uri (d_globs d) @ [(uri, HoldServletCreator slt)]\<rparr>"

definition addGlobServlet_cb :: "string \<Rightarrow> 'f \<Rightarrow> 'f dispatch \<Rightarrow> 'f dispatch" where
  "addGlobServlet_cb uri cb d = addGlobServlet uri (Some (FunctionServlet cb)) d"

definition delServlet :: "string \<Rightarrow> 'f dispatch \<Rightarrow> 'f dispatch" where
  "delServlet uri d = d\<lparr>d_datas := AList.delete uri (d_datas d)\<rparr>"

definition delGlobServlet :: "string \<Rightarrow> 'f dispatch \<Rightarrow> 'f dispatch" where
  "delGlobServlet uri d = d\<lparr>d_globs := erase_glob uri (d_globs d)\<rparr>"

definition setDefault :: "'f Servlet option \<Rightarrow> 'f dispatch \<Rightarrow> 'f dispatch" where
  "setDefault v d = d\<lparr>d_default := v\<rparr>"

definition getServlet :: "string \<Rightarrow> 'f dispatch \<Rightarrow> 'f Servlet option" where
  "getServlet uri d = (case map_of (d_datas d) uri of None \<Rightarrow> None | Some c \<Rightarrow> creator_get c)"

definition getGlobServlet :: "string \<Rightarrow> 'f dispatch \<Rightarrow> 'f Servlet option" where
  "getGlobServlet uri d = (case find (\<lambda>e. fst e = uri) (d_globs d) of None \<Rightarrow> None | Some e \<Rightarrow> creator_get (snd e))"

definition getMatchedServlet :: "(string \<Rightarrow> string \<Rightarrow> bool) \<Rightarrow> string \<Rightarrow> 'f dispatch \<Rightarrow> 'f Servlet option" where
  "getMatchedServlet fnmatch uri d =
     (case map_of (d_datas d) uri of
        Some c \<Rightarrow> creator_get c
      | None \<Rightarrow>
          (case find (\<lambda>e. fnmatch (c_str (fst e)) (c_str uri)) (d_globs d) of
             Some e \<Rightarrow> creator_get (snd e)
           | None \<Rightarrow> d_default d))"

text \<open>The listings go into an ordered map of the caller; later entries win.\<close>

definition listAllServletCreator :: "'f dispatch \<Rightarrow> (string \<rightharpoonup> 'f IServletCreator) \<Rightarrow> (string \<rightharpoonup> 'f IServletCreator)" where
  "listAllServletCreator d infos = fold (\<lambda>(k, v) m. m(k \<mapsto> v)) (d_datas d) infos"

definition listAllGlobServletCreator :: "'f dispatch \<Rightarrow> (string \<rightharpoonup> 'f IServletCreator) \<Rightarrow> (string \<rightharpoonup> 'f IServletCreator)" where
  "listAllGlobServletCreator d infos = fold (\<lambda>(k, v) m. m(k \<mapsto> v)) (d_globs d) infos"

definition dispatch_handle ::
    "(string \<Rightarrow> string \<Rightarrow> bool) \<Rightarrow> ('f, 's) handler \<Rightarrow> 'f dispatch \<Rightarrow> http_request \<times> http_response \<times> 's \<Rightarrow> int \<times> http_request \<times> http_response \<times> 's" where
  "dispatch_handle fnmatch run d w =
     (case getMatchedServlet fnmatch (q_path (fst w)) d of
        None \<Rightarrow> (0, w)
      | Some slt \<Rightarrow> (0, snd (Servlet_handle run slt w)))"

section \<open>The server\<close>

record 'f http_server =
  hs_isKeepalive :: bool
  hs_name :: string
  hs_dispatch :: "'f dispatch"

definition HttpServer :: "string \<Rightarrow> bool \<Rightarrow> 'f http_server" where
  "HttpServer name keepalive = \<lparr>hs_isKeepalive = keepalive, hs_name = name, hs_dispatch = ServletDispatch\<rparr>"

definition HttpServer_setName :: "string \<Rightarrow> 'f http_server \<Rightarrow> 'f http_server" where
  "HttpServer_setName v h = h\<lparr>hs_name := v, hs_dispatch := setDefault (Some (NotFoundServlet v)) (hs_dispatch h)\<rparr>"

text \<open>What a request gets: the response object before the servlet runs.\<close>

definition new_response :: "'f http_server \<Rightarrow> http_request \<Rightarrow> http_response" where
  "new_response h q = r_setHeader (HttpResponse (q_version q) (q_close q \<or> \<not> hs_isKeepalive h)) ''Server'' (hs_name h)"

partial_function (option) handleClient_loop ::
    "('os, char) sys_calls \<Rightarrow> 'p ragel \<Rightarrow> (string \<Rightarrow> u64 option) \<Rightarrow> nat \<Rightarrow> (string \<Rightarrow> string \<Rightarrow> bool)
      \<Rightarrow> ('f, 'os socket_stream) handler \<Rightarrow> 'f http_server \<Rightarrow> 'os socket_stream \<Rightarrow> 'os socket_stream option" where
  "handleClient_loop sys rg lexical_cast buff_size fnmatch run h st =
     (case recvRequest sys rg lexical_cast buff_size st of
        None \<Rightarrow> None
      | Some (r, st1) \<Rightarrow>
          (case r of
             None \<Rightarrow> Some st1
           | Some q \<Rightarrow>
               (case dispatch_handle fnmatch run (hs_dispatch h) (q, new_response h q, st1) of
                  (rt, q1, rsp, st2) \<Rightarrow>
                    (case sendResponse sys rsp st2 of
                       (sent, st3) \<Rightarrow>
                         if \<not> hs_isKeepalive h \<or> q_close q1 then Some st3
                         else handleClient_loop sys rg lexical_cast buff_size fnmatch run h st3))))"

declare handleClient_loop.simps [code]

definition handleClient ::
    "('os, char) sys_calls \<Rightarrow> 'p ragel \<Rightarrow> (string \<Rightarrow> u64 option) \<Rightarrow> nat \<Rightarrow> (string \<Rightarrow> string \<Rightarrow> bool)
      \<Rightarrow> ('f, 'os socket_stream) handler \<Rightarrow> 'f http_server \<Rightarrow> sock \<Rightarrow> 'os \<Rightarrow> 'os socket_stream option" where
  "handleClient sys rg lexical_cast buff_size fnmatch run h client s =
     map_option (SocketStream_close sys) (handleClient_loop sys rg lexical_cast buff_size fnmatch run h (SocketStream (Some client) True s))"

section \<open>The dispatch table\<close>

definition disp_inv :: "'f dispatch \<Rightarrow> bool" where
  "disp_inv d \<longleftrightarrow> distinct (map fst (d_datas d)) \<and> distinct (map fst (d_globs d))"

inductive disp_step :: "'f dispatch \<Rightarrow> 'f dispatch \<Rightarrow> bool" where
  ds_add: "disp_step d (addServlet uri slt d)"
| ds_add_creator: "disp_step d (addServletCreator uri c d)"
| ds_add_cb: "disp_step d (addServlet_cb uri cb d)"
| ds_glob: "disp_step d (addGlobServlet uri slt d)"
| ds_glob_creator: "disp_step d (addGlobServletCreator uri c d)"
| ds_glob_cb: "disp_step d (addGlobServlet_cb uri cb d)"
| ds_del: "disp_step d (delServlet uri d)"
| ds_del_glob: "disp_step d (delGlobServlet uri d)"
| ds_default: "disp_step d (setDefault v d)"

inductive disp_reachable :: "'f dispatch \<Rightarrow> bool" where
  dr_init: "disp_reachable ServletDispatch"
| dr_step: "disp_reachable d \<Longrightarrow> disp_step d d' \<Longrightarrow> disp_reachable d'"

lemma erase_glob_filter: "distinct (map fst es) \<Longrightarrow> erase_glob uri es = filter (\<lambda>e. fst e \<noteq> uri) es"
  by (induction es) (auto simp: filter_id_conv image_iff intro!: filter_id_conv [THEN iffD2, symmetric])

lemma distinct_filter_keys: "distinct (map fst es) \<Longrightarrow> distinct (map fst (filter P es))"
  by (induction es) (auto simp: image_iff)

lemma disp_step_inv: "disp_step d d' \<Longrightarrow> disp_inv d \<Longrightarrow> disp_inv d'"
  by (induction rule: disp_step.induct)
    (auto simp: disp_inv_def addServlet_def addServletCreator_def addServlet_cb_def addGlobServlet_def addGlobServletCreator_def
      addGlobServlet_cb_def delServlet_def delGlobServlet_def setDefault_def distinct_update distinct_delete erase_glob_filter distinct_filter_keys)

lemma disp_reachable_inv: "disp_reachable d \<Longrightarrow> disp_inv d"
proof (induction rule: disp_reachable.induct)
  case dr_init
  show ?case by (simp add: ServletDispatch_def disp_inv_def)
next
  case (dr_step d d')
  then show ?case by (blast intro: disp_step_inv)
qed

lemma find_filter_keep: "find P (filter Q es) = find (\<lambda>e. Q e \<and> P e) es"
  by (induction es) auto

lemma find_append: "find P (xs @ ys) = (case find P xs of None \<Rightarrow> find P ys | Some x \<Rightarrow> Some x)"
  by (induction xs) auto

section \<open>Serving a connection\<close>

lemma write_fix_loop_frame:
  assumes "\<And>s bs. f (snd (wr s bs)) = f s"
  shows "f (snd (write_fix_loop wr s buf offset left)) = f s"
proof (induction "nat left" arbitrary: s offset left rule: less_induct)
  case less
  obtain len s1 where r: "wr s (take (nat left) (drop offset buf)) = (len, s1)" by fastforce
  then have "f s1 = f s" using assms [of s "take (nat left) (drop offset buf)"] by simp
  moreover have "f (snd (write_fix_loop wr s1 buf (offset + nat len) (left - len))) = f s1" if "0 < left" "0 < len"
    using that by (intro less.hyps) auto
  ultimately show ?case using r by (subst write_fix_loop.simps) auto
qed

lemma sendResponse_frame:
  assumes "\<And>s fd bs. inb (snd (sys_send sys s fd bs)) fd = inb s fd"
  shows "stream_bytes inb (snd (sendResponse sys rsp st)) = stream_bytes inb st"
  unfolding sendResponse_def writeFixSize_def
proof (rule write_fix_loop_frame)
  fix s :: "'a socket_stream" and bs
  show "stream_bytes inb (snd (SocketStream_write sys s bs)) = stream_bytes inb s"
    using assms by (auto simp: SocketStream_write_def Socket_send_def stream_bytes_def Let_def split: option.splits prod.splits)
      (metis snd_conv)+
qed

lemma dispatch_frame:
  assumes "\<And>f w. length (stream_bytes inb (snd (snd (snd (run f w))))) \<le> length (stream_bytes inb (snd (snd w)))"
  shows "length (stream_bytes inb (snd (snd (snd (dispatch_handle fnmatch run d w))))) \<le> length (stream_bytes inb (snd (snd w)))"
proof -
  have "length (stream_bytes inb (snd (snd (snd (Servlet_handle run slt w))))) \<le> length (stream_bytes inb (snd (snd w)))" for slt
  proof (cases slt)
    case (FunctionServlet f)
    then show ?thesis using assms by simp
  next
    case (NotFoundServlet n)
    then show ?thesis by (cases w) simp
  qed
  then show ?thesis by (auto simp: dispatch_handle_def split: option.splits)
qed

text \<open>
  The loop, for a system as the streams expect it, on which sending does not touch what arrives, with
  servlets that may read from the session but do not put anything back.
\<close>

lemma handleClient_loop_returns:
  assumes "inbound_calls sys inb" "\<forall>ps data. fst (rg_execute rg ps data) \<le> length data" "0 < buff_size" "buff_size < 2 ^ 31"
    "\<And>s fd bs. inb (snd (sys_send sys s fd bs)) fd = inb s fd"
    "\<And>f w. length (stream_bytes inb (snd (snd (snd (run f w))))) \<le> length (stream_bytes inb (snd (snd w)))"
  shows "\<exists>st'. handleClient_loop sys rg lexical_cast buff_size fnmatch run h st = Some st'"
proof (induction "length (stream_bytes inb st)" arbitrary: st rule: less_induct)
  case less
  note spec = recvRequest_spec [OF assms(1-4), of lexical_cast st]
  obtain r st1 where r: "recvRequest sys rg lexical_cast buff_size st = Some (r, st1)"
    "\<And>q. r = Some q \<Longrightarrow> length (stream_bytes inb st1) < length (stream_bytes inb st)"
    using spec unfolding Let_def by (elim exE conjE) (rule that, assumption, fastforce)
  show ?case
  proof (cases r)
    case None
    then show ?thesis by (subst handleClient_loop.simps) (simp add: r)
  next
    case (Some q)
    obtain rt q1 rsp st2 where d: "dispatch_handle fnmatch run (hs_dispatch h) (q, new_response h q, st1) = (rt, q1, rsp, st2)"
      by (metis prod_cases4)
    obtain sent st3 where s: "sendResponse sys rsp st2 = (sent, st3)" by fastforce
    have "length (stream_bytes inb st2) \<le> length (stream_bytes inb st1)"
      using dispatch_frame [where inb = inb and run = run and fnmatch = fnmatch and d = "hs_dispatch h" and w = "(q, new_response h q, st1)", OF assms(6)] d by simp
    moreover have "stream_bytes inb st3 = stream_bytes inb st2" using sendResponse_frame [where inb = inb and sys = sys and rsp = rsp and st = st2, OF assms(5)] s by simp
    ultimately have "length (stream_bytes inb st3) < length (stream_bytes inb st)" using r(2) [OF Some] by simp
    from less.hyps [OF this] show ?thesis by (subst handleClient_loop.simps) (simp add: r Some d s)
  qed
qed

section \<open>Properties\<close>

text \<open>C23. In every dispatch table that the member functions can produce, patterns and paths are registered at most once. A
  path registered exactly gets its servlet whatever patterns there are; otherwise the patterns are
  tried in the order of their registration (registering one again moves it to the end), and the
  default servlet gets the rest. Adding, replacing and removing an entry changes no other one, and a
  removed one is gone.\<close>

theorem dispatch_table:
  assumes "disp_reachable d"
  shows "distinct (map fst (d_datas d)) \<and> distinct (map fst (d_globs d))
    \<and> getMatchedServlet fnmatch uri (addServlet uri slt d) = slt
    \<and> getServlet u (addServlet uri slt d) = (if u = uri then slt else getServlet u d)
    \<and> getServlet u (delServlet uri d) = (if u = uri then None else getServlet u d)
    \<and> getGlobServlet u (addGlobServlet uri slt d) = (if u = uri then slt else getGlobServlet u d)
    \<and> getGlobServlet u (delGlobServlet uri d) = (if u = uri then None else getGlobServlet u d)
    \<and> getMatchedServlet fnmatch u (addGlobServlet pat slt d) =
        (if map_of (d_datas d) u \<noteq> None then getMatchedServlet fnmatch u d
         else if \<exists>e \<in> set (d_globs d). fst e \<noteq> pat \<and> fnmatch (c_str (fst e)) (c_str u) then getMatchedServlet fnmatch u (delGlobServlet pat d)
         else if fnmatch (c_str pat) (c_str u) then slt else d_default d)"
proof -
  have inv: "distinct (map fst (d_datas d))" "distinct (map fst (d_globs d))" using disp_reachable_inv [OF assms] by (simp_all add: disp_inv_def)
  note gl = erase_glob_filter [OF inv(2)]
  have exact: "getMatchedServlet fnmatch uri (addServlet uri slt d) = slt"
    "getServlet u (addServlet uri slt d) = (if u = uri then slt else getServlet u d)"
    by (simp_all add: getMatchedServlet_def getServlet_def addServlet_def update_conv')
  have del: "getServlet u (delServlet uri d) = (if u = uri then None else getServlet u d)"
    by (simp add: getServlet_def delServlet_def delete_conv')
  have only: "find (\<lambda>e. fst e \<noteq> uri \<and> fst e = u) es = (if u = uri then None else find (\<lambda>e. fst e = u) es)" for es :: "(string \<times> 'a IServletCreator) list"
    by (induction es) auto
  have glob: "getGlobServlet u (addGlobServlet uri slt d) = (if u = uri then slt else getGlobServlet u d)"
    by (auto simp: getGlobServlet_def addGlobServlet_def gl find_append find_filter_keep only split: option.splits)
  have delg: "getGlobServlet u (delGlobServlet uri d) = (if u = uri then None else getGlobServlet u d)"
    by (simp add: getGlobServlet_def delGlobServlet_def gl find_filter_keep only)
  have none: "find P es = None \<longleftrightarrow> (\<forall>e \<in> set es. \<not> P e)" for P and es :: "(string \<times> 'a IServletCreator) list"
    by (auto simp: find_None_iff)
  have match: "getMatchedServlet fnmatch u (addGlobServlet pat slt d) =
        (if map_of (d_datas d) u \<noteq> None then getMatchedServlet fnmatch u d
         else if \<exists>e \<in> set (d_globs d). fst e \<noteq> pat \<and> fnmatch (c_str (fst e)) (c_str u) then getMatchedServlet fnmatch u (delGlobServlet pat d)
         else if fnmatch (c_str pat) (c_str u) then slt else d_default d)"
  proof (cases "find (\<lambda>e. fst e \<noteq> pat \<and> fnmatch (c_str (fst e)) (c_str u)) (d_globs d)")
    case None
    have ne: "\<not> (\<exists>e \<in> set (d_globs d). fst e \<noteq> pat \<and> fnmatch (c_str (fst e)) (c_str u))" using None [unfolded none] by blast
    show ?thesis unfolding if_not_P [OF ne] using None
      by (simp add: getMatchedServlet_def addGlobServlet_def gl find_append find_filter_keep split: option.split)
  next
    case (Some e)
    then have "find (\<lambda>e. fst e \<noteq> pat \<and> fnmatch (c_str (fst e)) (c_str u)) (d_globs d) \<noteq> None" by simp
    then have ex: "\<exists>e \<in> set (d_globs d). fst e \<noteq> pat \<and> fnmatch (c_str (fst e)) (c_str u)" unfolding none by blast
    show ?thesis unfolding if_P [OF ex] using Some
      by (simp add: getMatchedServlet_def addGlobServlet_def delGlobServlet_def gl find_append find_filter_keep split: option.split)
  qed
  show ?thesis using inv exact del glob delg match by blast
qed

definition demo_dispatch :: "nat dispatch" where
  "demo_dispatch = addGlobServlet ''/a*'' (Some (FunctionServlet 1)) (addServlet ''/a'' (Some (FunctionServlet 2)) ServletDispatch)"

lemma demo_dispatch_reachable: "disp_reachable demo_dispatch"
  unfolding demo_dispatch_def by (intro dr_step [OF _ ds_glob] dr_step [OF _ ds_add] dr_init)

theorem dispatch_table_witness:
  "getServlet ''/b'' (addServlet ''/b'' (Some (FunctionServlet 3)) demo_dispatch) = Some (FunctionServlet 3)
    \<and> getServlet ''/b'' (delServlet ''/b'' demo_dispatch) = None"
  using dispatch_table [OF demo_dispatch_reachable, of "\<lambda>p u. True" "''/b''" "Some (FunctionServlet 3)" "''/b''" "''/a*''"] by simp


definition demo_run :: "nat \<Rightarrow> http_request \<times> http_response \<times> net socket_stream \<Rightarrow> int \<times> http_request \<times> http_response \<times> net socket_stream" where
  "demo_run f w = (case w of (q, r, st) \<Rightarrow> (0, q, r\<lparr>r_body := ''hi''\<rparr>, st))"


end
