(* ===== verification/Sylar_Hook.thy ===== *)
theory Sylar_Hook
  imports Sylar_Prelude
begin

unbundle bit_operations_syntax

text \<open>
  Descriptor contexts and hooked system calls (\<^verbatim>\<open>src/sylar/fdmanager.cpp\<close>, \<^verbatim>\<open>fdmanager.h\<close>, \<^verbatim>\<open>hook.cpp\<close>). The
  descriptor manager keeps, for every descriptor, whether it is a socket, the non-blocking mode that the
  user asked for, the mode that the system is in, and the timeouts; the hooks keep up the appearance of blocking calls on top of
  non-blocking descriptors. The original system calls are parameters collected in a record over a state
  \<open>'k\<close> of the kernel. An index outside the table is an error.
\<close>

section \<open>Contexts\<close>

datatype hook_error = FdIndex

record 'k kernel_calls =
  kc_fstat :: "'k \<Rightarrow> int \<Rightarrow> bool option"
  kc_getfl :: "'k \<Rightarrow> int \<Rightarrow> u32"
  kc_setfl :: "'k \<Rightarrow> int \<Rightarrow> u32 \<Rightarrow> int \<times> 'k"
  kc_fionbio :: "'k \<Rightarrow> int \<Rightarrow> bool \<Rightarrow> int \<times> 'k"
  kc_socket :: "'k \<Rightarrow> int \<times> 'k"
  kc_close :: "'k \<Rightarrow> int \<Rightarrow> int \<times> 'k"
  kc_setsockopt :: "'k \<Rightarrow> int \<Rightarrow> int \<Rightarrow> int \<Rightarrow> int \<times> int \<Rightarrow> int \<times> 'k"

definition O_NONBLOCK :: u32 where "O_NONBLOCK = 0x800"

record fdctx =
  f_isInit :: bool
  f_isSocket :: bool
  f_sysNonblock :: bool
  f_userNonblock :: bool
  f_isClosed :: bool
  f_fd :: int
  f_recvTimeout :: u64
  f_sendTimeout :: u64

abbreviation SO_RCVTIMEO :: int where "SO_RCVTIMEO \<equiv> 20"
abbreviation SO_SNDTIMEO :: int where "SO_SNDTIMEO \<equiv> 21"

text \<open>\<open>kc_fstat\<close> yields whether the descriptor is a socket, or nothing when the call fails.\<close>

definition FdCtx_init :: "'k kernel_calls \<Rightarrow> fdctx \<times> 'k \<Rightarrow> bool \<times> fdctx \<times> 'k" where
  "FdCtx_init kc w =
     (let (c, k) = w in
      if f_isInit c then (True, c, k)
      else let c1 = c\<lparr>f_recvTimeout := - 1, f_sendTimeout := - 1\<rparr>;
               c2 = (case kc_fstat kc k (f_fd c1) of
                       None \<Rightarrow> c1\<lparr>f_isInit := False, f_isSocket := False\<rparr>
                     | Some is_sock \<Rightarrow> c1\<lparr>f_isInit := True, f_isSocket := is_sock\<rparr>);
               (c3, k1) = (if f_isSocket c2
                           then let flags = kc_getfl kc k (f_fd c2)
                                in (c2\<lparr>f_sysNonblock := True\<rparr>,
                                    if flags AND O_NONBLOCK = 0 then snd (kc_setfl kc k (f_fd c2) (flags OR O_NONBLOCK)) else k)
                           else (c2\<lparr>f_sysNonblock := False\<rparr>, k));
               c4 = c3\<lparr>f_userNonblock := False, f_isClosed := False\<rparr>
           in (f_isInit c4, c4, k1))"

definition FdCtx :: "'k kernel_calls \<Rightarrow> int \<Rightarrow> 'k \<Rightarrow> fdctx \<times> 'k" where
  "FdCtx kc fd k =
     snd (FdCtx_init kc (\<lparr>f_isInit = False, f_isSocket = False, f_sysNonblock = False, f_userNonblock = False, f_isClosed = False,
        f_fd = fd, f_recvTimeout = - 1, f_sendTimeout = - 1\<rparr>, k))"

definition setTimeout :: "int \<Rightarrow> u64 \<Rightarrow> fdctx \<Rightarrow> fdctx" where
  "setTimeout type v c = (if type = SO_RCVTIMEO then c\<lparr>f_recvTimeout := v\<rparr> else c\<lparr>f_sendTimeout := v\<rparr>)"

definition getTimeout :: "int \<Rightarrow> fdctx \<Rightarrow> u64" where
  "getTimeout type c = (if type = SO_RCVTIMEO then f_recvTimeout c else f_sendTimeout c)"

section \<open>The manager\<close>

record 'k fdworld =
  fw_datas :: "fdctx option list"
  fw_kernel :: 'k
  fw_hook_enable :: bool

definition FdManager :: "'k \<Rightarrow> 'k fdworld" where
  "FdManager k = \<lparr>fw_datas = replicate 64 None, fw_kernel = k, fw_hook_enable = False\<rparr>"

definition set_hook_enable :: "bool \<Rightarrow> 'k fdworld \<Rightarrow> 'k fdworld" where
  "set_hook_enable flag w = w\<lparr>fw_hook_enable := flag\<rparr>"

text \<open>\<^verbatim>\<open>vector::resize\<close>.\<close>

definition resize :: "nat \<Rightarrow> 'a option list \<Rightarrow> 'a option list" where
  "resize n xs = take n xs @ replicate (n - length xs) None"

definition set_ctx :: "int \<Rightarrow> fdctx option \<Rightarrow> 'k fdworld \<Rightarrow> 'k fdworld" where
  "set_ctx fd c w = w\<lparr>fw_datas := (fw_datas w)[nat fd := c]\<rparr>"

definition fd_get :: "'k kernel_calls \<Rightarrow> int \<Rightarrow> bool \<Rightarrow> 'k fdworld \<Rightarrow> hook_error + fdctx option \<times> 'k fdworld" where
  "fd_get kc fd auto_create w =
     (if fd = - 1 then Inr (None, w)
      else let small = (int (length (fw_datas w)) \<le> fd) in
           if small \<and> \<not> auto_create then Inr (None, w)
           else if \<not> small \<and> fd < 0 then Inl FdIndex
           else if \<not> small \<and> (fw_datas w ! nat fd \<noteq> None \<or> \<not> auto_create) then Inr (fw_datas w ! nat fd, w)
           else let (c, k1) = FdCtx kc fd (fw_kernel w);
                    w1 = (if small then w\<lparr>fw_datas := resize (3 * nat fd div 2) (fw_datas w)\<rparr> else w)
                in if nat fd < length (fw_datas w1) then Inr (Some c, set_ctx fd (Some c) (w1\<lparr>fw_kernel := k1\<rparr>)) else Inl FdIndex)"

definition fd_del :: "int \<Rightarrow> 'k fdworld \<Rightarrow> hook_error + 'k fdworld" where
  "fd_del fd w =
     (if int (length (fw_datas w)) \<le> fd then Inr w
      else if fd < 0 then Inl FdIndex
      else Inr (set_ctx fd None w))"

section \<open>Hooked calls that change a context\<close>

text \<open>Without an argument, \<^verbatim>\<open>get\<close> creates the context.\<close>

definition hook_socket :: "'k kernel_calls \<Rightarrow> 'k fdworld \<Rightarrow> hook_error + int \<times> 'k fdworld" where
  "hook_socket kc w =
     (let (fd, k1) = kc_socket kc (fw_kernel w); w1 = w\<lparr>fw_kernel := k1\<rparr>
      in if \<not> fw_hook_enable w \<or> fd = - 1 then Inr (fd, w1)
         else bindE (fd_get kc fd True w1) (\<lambda>(c, w2). Inr (fd, w2)))"

definition raw_setfl :: "'k kernel_calls \<Rightarrow> int \<Rightarrow> u32 \<Rightarrow> 'k fdworld \<Rightarrow> int \<times> 'k fdworld" where
  "raw_setfl kc fd arg w = (let (rt, k1) = kc_setfl kc (fw_kernel w) fd arg in (rt, w\<lparr>fw_kernel := k1\<rparr>))"

definition fcntl_setfl :: "'k kernel_calls \<Rightarrow> int \<Rightarrow> u32 \<Rightarrow> 'k fdworld \<Rightarrow> hook_error + int \<times> 'k fdworld" where
  "fcntl_setfl kc fd arg w =
     bindE (fd_get kc fd True w) (\<lambda>(r, w1).
       case r of
         None \<Rightarrow> Inr (raw_setfl kc fd arg w1)
       | Some c \<Rightarrow>
           if f_isClosed c \<or> \<not> f_isSocket c then Inr (raw_setfl kc fd arg w1)
           else let w2 = set_ctx fd (Some (c\<lparr>f_userNonblock := (arg AND O_NONBLOCK \<noteq> 0)\<rparr>)) w1;
                    arg' = (if f_sysNonblock c then arg OR O_NONBLOCK else arg AND NOT O_NONBLOCK)
                in Inr (raw_setfl kc fd arg' w2))"

definition fcntl_getfl :: "'k kernel_calls \<Rightarrow> int \<Rightarrow> 'k fdworld \<Rightarrow> hook_error + u32 \<times> 'k fdworld" where
  "fcntl_getfl kc fd w =
     (let arg = kc_getfl kc (fw_kernel w) fd in
      bindE (fd_get kc fd True w) (\<lambda>(r, w1).
        case r of
          None \<Rightarrow> Inr (arg, w1)
        | Some c \<Rightarrow>
            if f_isClosed c \<or> \<not> f_isSocket c then Inr (arg, w1)
            else Inr (if f_userNonblock c then arg OR O_NONBLOCK else arg AND NOT O_NONBLOCK, w1)))"

definition ioctl_fionbio :: "'k kernel_calls \<Rightarrow> int \<Rightarrow> bool \<Rightarrow> 'k fdworld \<Rightarrow> hook_error + int \<times> 'k fdworld" where
  "ioctl_fionbio kc fd user_nonblock w =
     bindE (fd_get kc fd True w) (\<lambda>(r, w1).
       let w2 = (case r of
                   None \<Rightarrow> w1
                 | Some c \<Rightarrow> if f_isClosed c \<or> \<not> f_isSocket c then w1 else set_ctx fd (Some (c\<lparr>f_userNonblock := user_nonblock\<rparr>)) w1);
           (rt, k1) = kc_fionbio kc (fw_kernel w2) fd user_nonblock
       in Inr (rt, w2\<lparr>fw_kernel := k1\<rparr>))"

text \<open>A \<^verbatim>\<open>timeval\<close> is a pair of seconds and microseconds; the product is stored as \<^verbatim>\<open>uint64_t\<close>.\<close>

definition hook_setsockopt :: "'k kernel_calls \<Rightarrow> int \<Rightarrow> int \<Rightarrow> int \<Rightarrow> int \<times> int \<Rightarrow> 'k fdworld \<Rightarrow> hook_error + int \<times> 'k fdworld" where
  "hook_setsockopt kc sockfd level optname tv w =
     (let raw = (\<lambda>w1. let (rt, k1) = kc_setsockopt kc (fw_kernel w1) sockfd level optname tv in (rt, w1\<lparr>fw_kernel := k1\<rparr>))
      in if fw_hook_enable w \<and> level = 1 \<and> (optname = SO_RCVTIMEO \<or> optname = SO_SNDTIMEO)
         then bindE (fd_get kc sockfd True w) (\<lambda>(r, w1).
                Inr (raw (case r of None \<Rightarrow> w1
                          | Some c \<Rightarrow> set_ctx sockfd (Some (setTimeout optname (of_int (fst tv * 1000 + snd tv div 1000)) c)) w1)))
         else Inr (raw w))"

text \<open>\<open>cancel_all\<close> tells whether the thread has an I/O manager, whose events on the descriptor are cancelled then: the result records that call.\<close>

definition hook_close :: "'k kernel_calls \<Rightarrow> bool \<Rightarrow> int \<Rightarrow> 'k fdworld \<Rightarrow> hook_error + (int \<times> bool) \<times> 'k fdworld" where
  "hook_close kc has_iom fd w =
     (let raw = (\<lambda>w1. let (rt, k1) = kc_close kc (fw_kernel w1) fd in (rt, w1\<lparr>fw_kernel := k1\<rparr>))
      in if \<not> fw_hook_enable w then let (rt, w1) = raw w in Inr ((rt, False), w1)
         else bindE (fd_get kc fd True w) (\<lambda>(r, w1).
                case r of
                  None \<Rightarrow> (let (rt, w2) = raw w1 in Inr ((rt, False), w2))
                | Some c \<Rightarrow> bindE (fd_del fd w1) (\<lambda>w2. let (rt, w3) = raw w2 in Inr ((rt, has_iom), w3))))"

section \<open>Hooked calls that may wait\<close>

datatype errno = EINTR | EAGAIN | EBADF | ETIMEDOUT | EINPROGRESS | OtherErrno nat

text \<open>What a hooked call does, in order, besides changing the world.\<close>

datatype action = OriginCall | ArmTimer u64 | CancelTimer | AddEvent | YieldToHold

text \<open>
  \<open>io_call\<close> is the original function, \<open>io_addEvent\<close> the registration of the running fiber for the event, and
  \<open>io_yield\<close> the time until the fiber runs again: whether the timer went off meanwhile. \<open>io_getsockopt\<close> is the pending error
  of a socket.
\<close>

record 'w io_ops =
  io_call :: "'w \<Rightarrow> int \<times> errno \<times> 'w"
  io_addEvent :: "'w \<Rightarrow> int \<times> errno \<times> 'w"
  io_yield :: "'w \<Rightarrow> bool \<times> 'w"
  io_getsockopt :: "'w \<Rightarrow> int \<times> errno \<times> errno option"

definition arm :: "u64 \<Rightarrow> action list" where
  "arm timeout = (if timeout \<noteq> - 1 then [ArmTimer timeout] else [])"

definition disarm :: "u64 \<Rightarrow> action list" where
  "disarm timeout = (if timeout \<noteq> - 1 then [CancelTimer] else [])"

text \<open>The part of \<^verbatim>\<open>do_io\<close> behind \<^verbatim>\<open>retry\<close>, with what was done so far. An interrupted call is repeated at once.\<close>

partial_function (option) do_io_retry :: "'w io_ops \<Rightarrow> u64 \<Rightarrow> action list \<Rightarrow> 'w \<Rightarrow> (int \<times> errno \<times> action list \<times> 'w) option" where
  "do_io_retry ops timeout acts w =
     (case io_call ops w of (n, e, w1) \<Rightarrow>
        if n = - 1 \<and> e = EINTR then do_io_retry ops timeout (acts @ [OriginCall]) w1
        else if n = - 1 \<and> e = EAGAIN
        then (case io_addEvent ops w1 of (rt, e2, w2) \<Rightarrow>
                if rt \<noteq> 0 then Some (- 1, e2, acts @ [OriginCall] @ arm timeout @ [AddEvent] @ disarm timeout, w2)
                else (case io_yield ops w2 of (timed_out, w3) \<Rightarrow>
                        if timeout \<noteq> - 1 \<and> timed_out
                        then Some (- 1, ETIMEDOUT, acts @ [OriginCall] @ arm timeout @ [AddEvent, YieldToHold] @ disarm timeout, w3)
                        else do_io_retry ops timeout (acts @ [OriginCall] @ arm timeout @ [AddEvent, YieldToHold] @ disarm timeout) w3))
        else Some (n, e, acts @ [OriginCall], w1))"

declare do_io_retry.simps [code]

definition direct :: "'w io_ops \<Rightarrow> 'w \<Rightarrow> (int \<times> errno \<times> action list \<times> 'w) option" where
  "direct ops w = (case io_call ops w of (n, e, w1) \<Rightarrow> Some (n, e, [OriginCall], w1))"

text \<open>The context is the one that \<^verbatim>\<open>FdMgr\<close> has for the descriptor.\<close>

definition do_io :: "bool \<Rightarrow> fdctx option \<Rightarrow> int \<Rightarrow> 'w io_ops \<Rightarrow> 'w \<Rightarrow> (int \<times> errno \<times> action list \<times> 'w) option" where
  "do_io hook_enable ctx timeout_so ops w =
     (if \<not> hook_enable then direct ops w
      else case ctx of
             None \<Rightarrow> direct ops w
           | Some c \<Rightarrow>
               if f_isClosed c then Some (- 1, EBADF, [], w)
               else if \<not> f_isSocket c \<or> f_userNonblock c then direct ops w
               else do_io_retry ops (getTimeout timeout_so c) [] w)"

definition connect_with_timeout :: "bool \<Rightarrow> fdctx option \<Rightarrow> u64 \<Rightarrow> 'w io_ops \<Rightarrow> 'w \<Rightarrow> (int \<times> errno \<times> action list \<times> 'w) option" where
  "connect_with_timeout hook_enable ctx timeout_ms ops w =
     (if \<not> hook_enable then direct ops w
      else case ctx of
             None \<Rightarrow> Some (- 1, EBADF, [], w)
           | Some c \<Rightarrow>
               if f_isClosed c then Some (- 1, EBADF, [], w)
               else if \<not> f_isSocket c \<or> f_userNonblock c then direct ops w
               else (case io_call ops w of (n, e, w1) \<Rightarrow>
                       if n = 0 then Some (0, e, [OriginCall], w1)
                       else if n \<noteq> - 1 \<or> e \<noteq> EINPROGRESS then Some (n, e, [OriginCall], w1)
                       else (case io_addEvent ops w1 of (rt, e2, w2) \<Rightarrow>
                               let finish = (\<lambda>w acts. case io_getsockopt ops w of (g, ge, err) \<Rightarrow>
                                               if g = - 1 then Some (- 1, ge, acts, w)
                                               else case err of None \<Rightarrow> Some (0, ge, acts, w) | Some er \<Rightarrow> Some (- 1, er, acts, w))
                               in if rt = 0
                                  then (case io_yield ops w2 of (timed_out, w3) \<Rightarrow>
                                          let acts = [OriginCall] @ arm timeout_ms @ [AddEvent, YieldToHold] @ disarm timeout_ms
                                          in if timeout_ms \<noteq> - 1 \<and> timed_out then Some (- 1, ETIMEDOUT, acts, w3) else finish w3 acts)
                                  else finish w2 ([OriginCall] @ arm timeout_ms @ [AddEvent] @ disarm timeout_ms))))"

text \<open>The timeout is a constant: one millisecond.\<close>

definition hook_connect :: "bool \<Rightarrow> fdctx option \<Rightarrow> 'w io_ops \<Rightarrow> 'w \<Rightarrow> (int \<times> errno \<times> action list \<times> 'w) option" where
  "hook_connect hook_enable ctx ops w = connect_with_timeout hook_enable ctx 1 ops w"

text \<open>
  The hooked functions that move data, with the original function and its arguments as they are forwarded. \<open>env\<close> yields, for a descriptor, such a function and an event, what a call on
  them does; 1 is \<^verbatim>\<open>IOManager::READ\<close> and 4 \<^verbatim>\<open>IOManager::WRITE\<close>.
\<close>

datatype origin = Accept_f | Read_f nat | Readv_f "nat list" | Recv_f nat int | Recvfrom_f nat int | Recvmsg_f "nat list" int
  | Write_f "u8 list" | Writev_f "u8 list list" | Send_f "u8 list" int | Sendto_f "u8 list" int | Sendmsg_f "u8 list list" int

type_synonym 'k io_env = "int \<Rightarrow> origin \<Rightarrow> u32 \<Rightarrow> 'k fdworld io_ops"

type_synonym 'k io_result = "(hook_error + int \<times> errno \<times> action list \<times> 'k fdworld) option"

definition hook_io :: "'k kernel_calls \<Rightarrow> 'k io_env \<Rightarrow> int \<Rightarrow> origin \<Rightarrow> u32 \<Rightarrow> int \<Rightarrow> 'k fdworld \<Rightarrow> 'k io_result" where
  "hook_io kc env fd f event timeout_so w =
     (if \<not> fw_hook_enable w then map_option Inr (do_io False None timeout_so (env fd f event) w)
      else case fd_get kc fd True w of
             Inl e \<Rightarrow> Some (Inl e)
           | Inr (ctx, w1) \<Rightarrow> map_option Inr (do_io True ctx timeout_so (env fd f event) w1))"

text \<open>An accepted descriptor gets a context, whether the hooks are enabled or not.\<close>

definition hook_accept :: "'k kernel_calls \<Rightarrow> 'k io_env \<Rightarrow> int \<Rightarrow> 'k fdworld \<Rightarrow> 'k io_result" where
  "hook_accept kc env s w =
     map_option (\<lambda>r. bindE r (\<lambda>(fd, e, acts, w1).
       if fd \<ge> 0 then bindE (fd_get kc fd True w1) (\<lambda>(c, w2). Inr (fd, e, acts, w2)) else Inr (fd, e, acts, w1)))
       (hook_io kc env s Accept_f 1 SO_RCVTIMEO w)"

definition hook_read :: "'k kernel_calls \<Rightarrow> 'k io_env \<Rightarrow> int \<Rightarrow> nat \<Rightarrow> 'k fdworld \<Rightarrow> 'k io_result" where
  "hook_read kc env fd count w = hook_io kc env fd (Read_f count) 1 SO_RCVTIMEO w"

definition hook_readv :: "'k kernel_calls \<Rightarrow> 'k io_env \<Rightarrow> int \<Rightarrow> nat list \<Rightarrow> 'k fdworld \<Rightarrow> 'k io_result" where
  "hook_readv kc env fd iov w = hook_io kc env fd (Readv_f iov) 1 SO_RCVTIMEO w"

definition hook_recv :: "'k kernel_calls \<Rightarrow> 'k io_env \<Rightarrow> int \<Rightarrow> nat \<Rightarrow> int \<Rightarrow> 'k fdworld \<Rightarrow> 'k io_result" where
  "hook_recv kc env fd len flags w = hook_io kc env fd (Recv_f len flags) 1 SO_RCVTIMEO w"

definition hook_recvfrom :: "'k kernel_calls \<Rightarrow> 'k io_env \<Rightarrow> int \<Rightarrow> nat \<Rightarrow> int \<Rightarrow> 'k fdworld \<Rightarrow> 'k io_result" where
  "hook_recvfrom kc env fd len flags w = hook_io kc env fd (Recvfrom_f len flags) 1 SO_RCVTIMEO w"

definition hook_recvmsg :: "'k kernel_calls \<Rightarrow> 'k io_env \<Rightarrow> int \<Rightarrow> nat list \<Rightarrow> int \<Rightarrow> 'k fdworld \<Rightarrow> 'k io_result" where
  "hook_recvmsg kc env fd iov flags w = hook_io kc env fd (Recvmsg_f iov flags) 1 SO_RCVTIMEO w"

definition hook_write :: "'k kernel_calls \<Rightarrow> 'k io_env \<Rightarrow> int \<Rightarrow> u8 list \<Rightarrow> 'k fdworld \<Rightarrow> 'k io_result" where
  "hook_write kc env fd buf w = hook_io kc env fd (Write_f buf) 4 SO_SNDTIMEO w"

definition hook_writev :: "'k kernel_calls \<Rightarrow> 'k io_env \<Rightarrow> int \<Rightarrow> u8 list list \<Rightarrow> 'k fdworld \<Rightarrow> 'k io_result" where
  "hook_writev kc env fd iov w = hook_io kc env fd (Writev_f iov) 4 SO_SNDTIMEO w"

definition hook_send :: "'k kernel_calls \<Rightarrow> 'k io_env \<Rightarrow> int \<Rightarrow> u8 list \<Rightarrow> int \<Rightarrow> 'k fdworld \<Rightarrow> 'k io_result" where
  "hook_send kc env fd msg flags w = hook_io kc env fd (Send_f msg flags) 4 SO_SNDTIMEO w"

definition hook_sendto :: "'k kernel_calls \<Rightarrow> 'k io_env \<Rightarrow> int \<Rightarrow> u8 list \<Rightarrow> int \<Rightarrow> 'k fdworld \<Rightarrow> 'k io_result" where
  "hook_sendto kc env fd msg flags w = hook_io kc env fd (Sendto_f msg flags) 4 SO_SNDTIMEO w"

definition hook_sendmsg :: "'k kernel_calls \<Rightarrow> 'k io_env \<Rightarrow> int \<Rightarrow> u8 list list \<Rightarrow> int \<Rightarrow> 'k fdworld \<Rightarrow> 'k io_result" where
  "hook_sendmsg kc env fd iov flags w = hook_io kc env fd (Sendmsg_f iov flags) 4 SO_SNDTIMEO w"

text \<open>
  \<^verbatim>\<open>fcntl\<close> with the commands of Linux: those with a number, with none, with a pointer to a lock and with a pointer to an owner are forwarded as they are; any other command is forwarded without its argument.
\<close>

datatype fcntl_arg = NoArg | IntArg u32 | PtrArg nat

definition fcntl_int_cmds :: "int list" where
  "fcntl_int_cmds = [0, 1030, 2, 8, 10, 1024, 1026, 1031]"

definition fcntl_plain_cmds :: "int list" where
  "fcntl_plain_cmds = [1, 9, 11, 1025, 1032]"

definition fcntl_ptr_cmds :: "int list" where
  "fcntl_ptr_cmds = [6, 7, 5, 16, 15]"

definition hook_fcntl ::
    "'k kernel_calls \<Rightarrow> ('k \<Rightarrow> int \<Rightarrow> int \<Rightarrow> fcntl_arg \<Rightarrow> int \<times> 'k) \<Rightarrow> int \<Rightarrow> int \<Rightarrow> fcntl_arg \<Rightarrow> 'k fdworld \<Rightarrow> hook_error + int \<times> 'k fdworld" where
  "hook_fcntl kc fcntl_f fd cmd arg w =
     (let forward = (\<lambda>a. let (rt, k1) = fcntl_f (fw_kernel w) fd cmd a in Inr (rt, w\<lparr>fw_kernel := k1\<rparr>)) in
      if cmd = 4 then fcntl_setfl kc fd (case arg of IntArg v \<Rightarrow> v | _ \<Rightarrow> 0) w
      else if cmd = 3 then bindE (fcntl_getfl kc fd w) (\<lambda>(v, w1). Inr (sint v, w1))
      else if cmd \<in> set fcntl_int_cmds then forward arg
      else if cmd \<in> set fcntl_plain_cmds then forward NoArg
      else if cmd \<in> set fcntl_ptr_cmds then forward arg
      else forward NoArg)"

definition hook_getsockopt :: "('k \<Rightarrow> int \<Rightarrow> int \<Rightarrow> int \<Rightarrow> int \<times> int option) \<Rightarrow> int \<Rightarrow> int \<Rightarrow> int \<Rightarrow> 'k fdworld \<Rightarrow> int \<times> int option" where
  "hook_getsockopt getsockopt_f fd level optname w = getsockopt_f (fw_kernel w) fd level optname"

definition is_hook_enable :: "'k fdworld \<Rightarrow> bool" where
  "is_hook_enable w = fw_hook_enable w"

text \<open>The milliseconds that the sleeping functions pass to \<^verbatim>\<open>addTimer\<close>: \<^verbatim>\<open>unsigned\<close> and \<^verbatim>\<open>int\<close> arithmetic.\<close>

definition sleep_ms :: "u32 \<Rightarrow> u64" where
  "sleep_ms seconds = ucast (seconds * 1000)"

definition usleep_ms :: "u32 \<Rightarrow> u64" where
  "usleep_ms usec = ucast (usec div 1000)"

definition nanosleep_ms :: "int \<Rightarrow> int \<Rightarrow> u64" where
  "nanosleep_ms tv_sec tv_nsec = of_int (signed_take_bit 31 (tv_sec * 1000 + tv_nsec div 1000 div 1000))"

section \<open>Waiting calls\<close>

definition armed :: "action list \<Rightarrow> nat" where
  "armed acts = length (filter (\<lambda>a. \<exists>t. a = ArmTimer t) acts)"

definition disarmed :: "action list \<Rightarrow> nat" where
  "disarmed acts = length (filter (\<lambda>a. a = CancelTimer) acts)"

lemma armed_simps [simp]:
  "armed [] = 0" "armed (a # acts) = (if \<exists>t. a = ArmTimer t then 1 else 0) + armed acts" "armed (acts1 @ acts2) = armed acts1 + armed acts2"
  "disarmed [] = 0" "disarmed (a # acts) = (if a = CancelTimer then 1 else 0) + disarmed acts" "disarmed (acts1 @ acts2) = disarmed acts1 + disarmed acts2"
  "armed (arm t) = disarmed (disarm t)" "armed (disarm t) = 0" "disarmed (arm t) = 0"
  by (simp_all add: armed_def disarmed_def arm_def disarm_def)

lemma do_io_retry_result:
  assumes "do_io_retry ops timeout acts w = Some (n, e, acts', w')"
  shows "(\<forall>w. fst (io_addEvent ops w) = 0) \<and> armed acts = disarmed acts \<and> (timeout = - 1 \<longrightarrow> armed acts = 0) \<longrightarrow>
    (n = - 1 \<longrightarrow> e \<noteq> EINTR \<and> e \<noteq> EAGAIN) \<and> armed acts' = disarmed acts' \<and> (timeout = - 1 \<longrightarrow> armed acts' = 0)"
  using assms
proof (induction ops timeout acts w "(n, e, acts', w')" rule: do_io_retry.raw_induct [rotated, consumes 1])
  case (1 retry ops timeout acts w)
  obtain n1 e1 w1 where c: "io_call ops w = (n1, e1, w1)" by (metis prod_cases3)
  obtain rt e2 w2 where a: "io_addEvent ops w1 = (rt, e2, w2)" by (metis prod_cases3)
  obtain timed w3 where y: "io_yield ops w2 = (timed, w3)" by fastforce
  have none: "timeout = - 1 \<Longrightarrow> arm timeout = [] \<and> disarm timeout = []" by (simp add: arm_def disarm_def)
  show ?case
  proof (intro impI)
    assume ok: "(\<forall>w. fst (io_addEvent ops w) = 0) \<and> armed acts = disarmed acts \<and> (timeout = - 1 \<longrightarrow> armed acts = 0)"
    then have rt: "rt = 0" using a by (metis fst_conv)
    let ?goal = "(n = - 1 \<longrightarrow> e \<noteq> EINTR \<and> e \<noteq> EAGAIN) \<and> armed acts' = disarmed acts' \<and> (timeout = - 1 \<longrightarrow> armed acts' = 0)"
    consider (intr) "n1 = - 1" "e1 = EINTR" | (wait) "n1 = - 1" "e1 = EAGAIN" "\<not> (timeout \<noteq> - 1 \<and> timed)"
      | (out) "n1 = - 1" "e1 = EAGAIN" "timeout \<noteq> - 1 \<and> timed" | (ret) "\<not> (n1 = - 1 \<and> (e1 = EINTR \<or> e1 = EAGAIN))" by blast
    then show ?goal
    proof cases
      case intr
      then have "retry ops timeout (acts @ [OriginCall]) w1 = Some (n, e, acts', w')" using 1(2) c by simp
      from 1(1) [OF this] show ?thesis using ok by auto
    next
      case wait
      then have "retry ops timeout (acts @ [OriginCall] @ arm timeout @ [AddEvent, YieldToHold] @ disarm timeout) w3 = Some (n, e, acts', w')"
        using 1(2) c a y rt by (auto split: if_splits)
      from 1(1) [OF this] show ?thesis using ok none by auto
    next
      case out
      then show ?thesis using 1(2) c a y rt ok by auto
    next
      case ret
      then show ?thesis using 1(2) c ok by auto
    qed
  qed
qed

text \<open>It returns when the world comes closer to an answer with every attempt that has to be repeated.\<close>

lemma do_io_retry_returns:
  assumes "\<forall>w n e w1. io_call ops w = (n, e, w1) \<and> n = - 1 \<and> (e = EINTR \<or> e = EAGAIN) \<longrightarrow> dist w1 < (dist w :: nat)"
    "\<forall>w. dist (snd (snd (io_addEvent ops w))) \<le> dist w" "\<forall>w. dist (snd (io_yield ops w)) \<le> dist w"
  shows "\<exists>r. do_io_retry ops timeout acts w = Some r"
proof (induction "dist w" arbitrary: acts w rule: less_induct)
  case less
  obtain n1 e1 w1 where c: "io_call ops w = (n1, e1, w1)" by (metis prod_cases3)
  obtain rt e2 w2 where a: "io_addEvent ops w1 = (rt, e2, w2)" by (metis prod_cases3)
  obtain timed w3 where y: "io_yield ops w2 = (timed, w3)" by fastforce
  show ?case
  proof (cases "n1 = - 1 \<and> (e1 = EINTR \<or> e1 = EAGAIN)")
    case True
    have d: "dist w1 < dist w" using assms(1) c True by blast
    moreover have "dist w3 \<le> dist w1" using assms(2) [THEN spec, of w1] assms(3) [THEN spec, of w2] a y by simp
    ultimately have "\<exists>r. do_io_retry ops timeout xs w1 = Some r" "\<exists>r. do_io_retry ops timeout xs w3 = Some r" for xs
      using less by (auto intro: order_le_less_trans)
    then show ?thesis using True by (subst do_io_retry.simps) (auto simp: c a y)
  next
    case False
    then show ?thesis by (subst do_io_retry.simps) (auto simp: c)
  qed
qed

section \<open>Flags\<close>

text \<open>What the hooks rely on of the kernel: the flags of a descriptor are what was set last, and setting
  them touches no other descriptor.\<close>

locale kernel_flags =
  fixes kc :: "'k kernel_calls"
  assumes getfl_setfl: "kc_getfl kc (snd (kc_setfl kc k fd v)) fd' AND O_NONBLOCK = (if fd' = fd then v else kc_getfl kc k fd') AND O_NONBLOCK"
    and getfl_setsockopt: "kc_getfl kc (snd (kc_setsockopt kc k sock level opt tv)) fd' AND O_NONBLOCK = kc_getfl kc k fd' AND O_NONBLOCK"
    and getfl_fionbio: "kc_getfl kc (snd (kc_fionbio kc k fd b)) fd' AND O_NONBLOCK = (if fd' = fd then if b then O_NONBLOCK else 0 else kc_getfl kc k fd' AND O_NONBLOCK)"

text \<open>Every socket that has a context is non-blocking in the system, and its context says so.\<close>

definition fd_inv :: "'k kernel_calls \<Rightarrow> 'k fdworld \<Rightarrow> bool" where
  "fd_inv kc w \<longleftrightarrow> 64 \<le> length (fw_datas w) \<and> (\<forall>i c. i < length (fw_datas w) \<and> fw_datas w ! i = Some c \<longrightarrow>
     f_fd c = int i \<and> \<not> f_isClosed c \<and> f_sysNonblock c = f_isSocket c \<and> (f_isSocket c \<longrightarrow> kc_getfl kc (fw_kernel w) (int i) AND O_NONBLOCK \<noteq> 0))"

lemma fd_inv_ctx:
  "fd_inv kc w \<Longrightarrow> i < length (fw_datas w) \<Longrightarrow> fw_datas w ! i = Some c \<Longrightarrow>
     f_fd c = int i \<and> \<not> f_isClosed c \<and> f_sysNonblock c = f_isSocket c \<and> (f_isSocket c \<longrightarrow> kc_getfl kc (fw_kernel w) (int i) AND O_NONBLOCK \<noteq> 0)"
  unfolding fd_inv_def by blast

lemma nonblock_bit: "O_NONBLOCK AND O_NONBLOCK \<noteq> 0" "(v OR O_NONBLOCK) AND O_NONBLOCK = O_NONBLOCK" "(v AND NOT O_NONBLOCK) AND O_NONBLOCK = 0" "O_NONBLOCK \<noteq> 0"
  by (simp_all add: O_NONBLOCK_def word_bw_assocs bit.conj_disj_distrib2)

lemma and_exp_cases: "v AND 2 ^ n = 0 \<or> v AND 2 ^ n = (2 ^ n :: 'a :: len word)"
  by (cases "bit v n") (auto intro!: bit_eqI simp: bit_and_iff bit_exp_iff)

lemma bit_cases: "v AND O_NONBLOCK = 0 \<or> v AND O_NONBLOCK = O_NONBLOCK"
  using and_exp_cases [of v 11] by (simp add: O_NONBLOCK_def)

context kernel_flags
begin

lemma FdCtx_flags:
  assumes "FdCtx kc fd k = (c, k')"
  shows "f_fd c = fd \<and> f_sysNonblock c = f_isSocket c \<and> \<not> f_isClosed c \<and> \<not> f_userNonblock c
    \<and> (f_isSocket c \<longrightarrow> kc_getfl kc k' fd AND O_NONBLOCK \<noteq> 0)
    \<and> (\<forall>fd'. fd' \<noteq> fd \<longrightarrow> kc_getfl kc k' fd' AND O_NONBLOCK = kc_getfl kc k fd' AND O_NONBLOCK)"
  using assms by (auto simp: FdCtx_def FdCtx_init_def Let_def getfl_setfl nonblock_bit split: option.splits if_splits)

lemma new_ctx_inv:
  assumes "fd_inv kc w" "0 \<le> fd" "FdCtx kc fd (fw_kernel w) = (c, k')" "nat fd < length ds" "length (fw_datas w) \<le> length ds"
    "\<And>i c. i < length ds \<Longrightarrow> ds ! i = Some c \<Longrightarrow> i < length (fw_datas w) \<and> fw_datas w ! i = Some c"
  shows "fd_inv kc (w\<lparr>fw_datas := ds[nat fd := Some c], fw_kernel := k'\<rparr>)"
proof -
  note f = FdCtx_flags [OF assms(3)]
  have "f_fd d = int i \<and> \<not> f_isClosed d \<and> f_sysNonblock d = f_isSocket d \<and> (f_isSocket d \<longrightarrow> kc_getfl kc k' (int i) AND O_NONBLOCK \<noteq> 0)"
    if "i < length ds" "ds[nat fd := Some c] ! i = Some d" for i d
  proof (cases "i = nat fd")
    case True
    then show ?thesis using that f assms(2, 4) by simp
  next
    case False
    then have "i < length (fw_datas w)" "fw_datas w ! i = Some d" using assms(6) [of i d] that by auto
    moreover have "int i \<noteq> fd" using False by auto
    ultimately show ?thesis using fd_inv_ctx [OF assms(1)] f by simp
  qed
  moreover have "64 \<le> length ds" using assms(1, 5) by (simp add: fd_inv_def)
  ultimately show ?thesis by (auto simp: fd_inv_def)
qed

lemma fd_get_ok:
  assumes "fd_inv kc w" "0 \<le> fd"
  shows "\<exists>c w'. fd_get kc fd True w = Inr (Some c, w') \<and> fd_inv kc w' \<and> nat fd < length (fw_datas w') \<and> fw_datas w' ! nat fd = Some c
    \<and> fw_hook_enable w' = fw_hook_enable w
    \<and> (\<forall>c0. nat fd < length (fw_datas w) \<and> fw_datas w ! nat fd = Some c0 \<longrightarrow> c = c0 \<and> w' = w)"
proof -
  obtain c k' where c: "FdCtx kc fd (fw_kernel w) = (c, k')" by fastforce
  have len: "64 \<le> length (fw_datas w)" using assms(1) by (simp add: fd_inv_def)
  show ?thesis
  proof (cases "int (length (fw_datas w)) \<le> fd")
    case True
    let ?ds = "resize (3 * nat fd div 2) (fw_datas w)"
    have big: "length (fw_datas w) \<le> 3 * nat fd div 2" "nat fd < 3 * nat fd div 2" using True len by auto
    then have ds: "length ?ds = 3 * nat fd div 2" "?ds = fw_datas w @ replicate (3 * nat fd div 2 - length (fw_datas w)) None"
      by (simp_all add: resize_def)
    have old: "i < length (fw_datas w) \<and> fw_datas w ! i = Some d" if "i < length ?ds" "?ds ! i = Some d" for i d
      using that ds by (auto simp: nth_append split: if_splits)
    have "fd_get kc fd True w = Inr (Some c, w\<lparr>fw_datas := ?ds[nat fd := Some c], fw_kernel := k'\<rparr>)"
      using True assms(2) c big ds(1) by (simp add: fd_get_def set_ctx_def)
    moreover have "fd_inv kc (w\<lparr>fw_datas := ?ds[nat fd := Some c], fw_kernel := k'\<rparr>)"
      by (rule new_ctx_inv [OF assms c]) (use big ds(1) old in auto)
    ultimately show ?thesis using big ds(1) True by (intro exI [of _ c] exI) auto
  next
    case False
    then have i: "nat fd < length (fw_datas w)" using assms(2) by simp
    show ?thesis
    proof (cases "fw_datas w ! nat fd")
      case None
      have "fd_get kc fd True w = Inr (Some c, w\<lparr>fw_datas := (fw_datas w)[nat fd := Some c], fw_kernel := k'\<rparr>)"
        using False assms(2) c i None by (simp add: fd_get_def set_ctx_def)
      moreover have "fd_inv kc (w\<lparr>fw_datas := (fw_datas w)[nat fd := Some c], fw_kernel := k'\<rparr>)"
        by (rule new_ctx_inv [OF assms c]) (use i in auto)
      ultimately show ?thesis using i None by (intro exI [of _ c] exI) auto
    next
      case (Some d)
      then have "fd_get kc fd True w = Inr (Some d, w)" using False assms(2) i by (simp add: fd_get_def)
      then show ?thesis using Some i assms(1) by auto
    qed
  qed
qed

lemma set_ctx_inv:
  assumes "fd_inv kc w" "nat fd < length (fw_datas w)" "fw_datas w ! nat fd = Some c" "0 \<le> fd"
    "f_fd c' = f_fd c" "f_isClosed c' = f_isClosed c" "f_sysNonblock c' = f_sysNonblock c" "f_isSocket c' = f_isSocket c"
  shows "fd_inv kc (set_ctx fd (Some c') w)"
proof -
  have "f_fd d = int i \<and> \<not> f_isClosed d \<and> f_sysNonblock d = f_isSocket d \<and> (f_isSocket d \<longrightarrow> kc_getfl kc (fw_kernel w) (int i) AND O_NONBLOCK \<noteq> 0)"
    if "i < length (fw_datas w)" "(fw_datas w)[nat fd := Some c'] ! i = Some d" for i d
  proof (cases "i = nat fd")
    case True
    then have "d = c'" using that assms(2) by simp
    then show ?thesis using fd_inv_ctx [OF assms(1-3)] assms(5-) True by simp
  next
    case False
    then have "fw_datas w ! i = Some d" using that(2) by simp
    from fd_inv_ctx [OF assms(1) that(1) this] show ?thesis by blast
  qed
  moreover have k: "fw_datas (set_ctx fd (Some c') w) = (fw_datas w)[nat fd := Some c']" "fw_kernel (set_ctx fd (Some c') w) = fw_kernel w"
    by (simp_all add: set_ctx_def)
  ultimately show ?thesis using assms(1) unfolding fd_inv_def k length_list_update by blast
qed

lemma setfl_inv:
  assumes "fd_inv kc w" "nat fd < length (fw_datas w)" "fw_datas w ! nat fd = Some c" "0 \<le> fd" "f_isSocket c \<longrightarrow> v AND O_NONBLOCK \<noteq> 0"
  shows "fd_inv kc (snd (raw_setfl kc fd v w))"
proof -
  have k: "fw_kernel (snd (raw_setfl kc fd v w)) = snd (kc_setfl kc (fw_kernel w) fd v)" "fw_datas (snd (raw_setfl kc fd v w)) = fw_datas w"
    by (simp_all add: raw_setfl_def case_prod_beta)
  have "f_isSocket d \<longrightarrow> kc_getfl kc (snd (kc_setfl kc (fw_kernel w) fd v)) (int i) AND O_NONBLOCK \<noteq> 0"
    if "i < length (fw_datas w)" "fw_datas w ! i = Some d" for i d
    using that assms(3-5) fd_inv_ctx [OF assms(1) that] by (cases "int i = fd") (auto simp: getfl_setfl)
  then show ?thesis using assms(1) unfolding fd_inv_def k by blast
qed

text \<open>\<^verbatim>\<open>F_SETFL\<close> on a descriptor: what a following \<^verbatim>\<open>F_GETFL\<close> reports.\<close>

lemma getfl_at:
  assumes "fd_inv kc w" "0 \<le> fd" "nat fd < length (fw_datas w)" "fw_datas w ! nat fd = Some c"
  shows "fcntl_getfl kc fd w = Inr (if f_isSocket c then (if f_userNonblock c then kc_getfl kc (fw_kernel w) fd OR O_NONBLOCK
      else kc_getfl kc (fw_kernel w) fd AND NOT O_NONBLOCK) else kc_getfl kc (fw_kernel w) fd, w)"
  using fd_get_ok [OF assms(1, 2)] assms(3, 4) fd_inv_ctx [OF assms(1, 3, 4)] by (auto simp: fcntl_getfl_def Let_def)

lemma fcntl_setfl_ok:
  assumes "fd_inv kc w" "0 \<le> fd"
  shows "\<exists>rt w' v. fcntl_setfl kc fd arg w = Inr (rt, w') \<and> fd_inv kc w' \<and> fcntl_getfl kc fd w' = Inr (v, w')
    \<and> v AND O_NONBLOCK = arg AND O_NONBLOCK"
proof -
  obtain c w1 where g: "fd_get kc fd True w = Inr (Some c, w1)" "fd_inv kc w1" "nat fd < length (fw_datas w1)" "fw_datas w1 ! nat fd = Some c"
    using fd_get_ok [OF assms] by blast
  have open_ctx: "\<not> f_isClosed c" "f_sysNonblock c = f_isSocket c" using fd_inv_ctx [OF g(2-4)] by simp_all
  have datas: "fw_datas (snd (raw_setfl kc fd v x)) = fw_datas x" "kc_getfl kc (fw_kernel (snd (raw_setfl kc fd v x))) fd AND O_NONBLOCK = v AND O_NONBLOCK" for v x
    by (simp_all add: raw_setfl_def case_prod_beta getfl_setfl)
  show ?thesis
  proof (cases "f_isSocket c")
    case False
    let ?r = "raw_setfl kc fd arg w1"
    have eq: "fcntl_setfl kc fd arg w = Inr (fst ?r, snd ?r)" using g(1) False by (simp add: fcntl_setfl_def)
    have inv: "fd_inv kc (snd ?r)" by (rule setfl_inv [OF g(2-4) assms(2)]) (simp add: False)
    show ?thesis using eq inv getfl_at [OF inv assms(2), of c] g(3, 4) datas [of arg w1] False
      by (intro exI [of _ "fst ?r"] exI [of _ "snd ?r"]) simp
  next
    case True
    let ?c = "c\<lparr>f_userNonblock := (arg AND O_NONBLOCK \<noteq> 0)\<rparr>"
    let ?w = "set_ctx fd (Some ?c) w1"
    let ?r = "raw_setfl kc fd (arg OR O_NONBLOCK) ?w"
    have i: "fd_inv kc ?w" by (rule set_ctx_inv [OF g(2-4) assms(2)]) simp_all
    have at: "nat fd < length (fw_datas ?w)" "fw_datas ?w ! nat fd = Some ?c" using g(3) by (simp_all add: set_ctx_def)
    have inv: "fd_inv kc (snd ?r)" by (rule setfl_inv [OF i at assms(2)]) (simp add: nonblock_bit)
    have eq: "fcntl_setfl kc fd arg w = Inr (fst ?r, snd ?r)" using g(1) True open_ctx by (simp add: fcntl_setfl_def)
    have "(if f_userNonblock ?c then x OR O_NONBLOCK else x AND NOT O_NONBLOCK) AND O_NONBLOCK = arg AND O_NONBLOCK" for x
      using bit_cases [of arg] by (auto simp: nonblock_bit)
    then show ?thesis using eq inv getfl_at [OF inv assms(2), of ?c] at datas(1) [of "arg OR O_NONBLOCK" ?w] True
      by (intro exI [of _ "fst ?r"] exI [of _ "snd ?r"]) simp
  qed
qed

lemma setsockopt_ok:
  assumes "fd_inv kc w" "0 \<le> fd"
  shows "\<exists>rt w'. hook_setsockopt kc fd level optname tv w = Inr (rt, w') \<and> fd_inv kc w'
    \<and> (fw_hook_enable w \<and> level = 1 \<and> (optname = SO_RCVTIMEO \<or> optname = SO_SNDTIMEO) \<longrightarrow>
        (\<exists>c. nat fd < length (fw_datas w') \<and> fw_datas w' ! nat fd = Some c \<and> getTimeout optname c = of_int (fst tv * 1000 + snd tv div 1000)))"
proof -
  have frame: "fd_inv kc (x\<lparr>fw_kernel := snd (kc_setsockopt kc (fw_kernel x) fd level optname tv)\<rparr>)" if "fd_inv kc x" for x
    using that by (simp add: fd_inv_def getfl_setsockopt)
  show ?thesis
  proof (cases "fw_hook_enable w \<and> level = 1 \<and> (optname = SO_RCVTIMEO \<or> optname = SO_SNDTIMEO)")
    case False
    then show ?thesis using frame [OF assms(1)] by (auto simp: hook_setsockopt_def Let_def case_prod_beta)
  next
    case True
    obtain c w1 where g: "fd_get kc fd True w = Inr (Some c, w1)" "fd_inv kc w1" "nat fd < length (fw_datas w1)" "fw_datas w1 ! nat fd = Some c"
      using fd_get_ok [OF assms] by blast
    let ?c = "setTimeout optname (of_int (fst tv * 1000 + snd tv div 1000)) c"
    let ?w = "set_ctx fd (Some ?c) w1"
    let ?k = "snd (kc_setsockopt kc (fw_kernel ?w) fd level optname tv)"
    have "fd_inv kc ?w" by (rule set_ctx_inv [OF g(2-4) assms(2)]) (simp_all add: setTimeout_def)
    then have "fd_inv kc (?w\<lparr>fw_kernel := ?k\<rparr>)" by (rule frame)
    moreover have "hook_setsockopt kc fd level optname tv w = Inr (fst (kc_setsockopt kc (fw_kernel ?w) fd level optname tv), ?w\<lparr>fw_kernel := ?k\<rparr>)"
      unfolding hook_setsockopt_def Let_def using True g(1) by (simp add: case_prod_beta)
    moreover have "getTimeout optname ?c = of_int (fst tv * 1000 + snd tv div 1000)" using True by (auto simp: getTimeout_def setTimeout_def)
    ultimately show ?thesis using g(3) by (auto simp: set_ctx_def)
  qed
qed

end

text \<open>A kernel that is a table of flags, in which every descriptor is a socket.\<close>

definition table_kernel :: "(int \<Rightarrow> u32) kernel_calls" where
  "table_kernel =
     \<lparr>kc_fstat = (\<lambda>k fd. Some True), kc_getfl = (\<lambda>k fd. k fd), kc_setfl = (\<lambda>k fd v. (0, k(fd := v))),
      kc_fionbio = (\<lambda>k fd b. (0, k(fd := if b then k fd OR O_NONBLOCK else k fd AND NOT O_NONBLOCK))),
      kc_socket = (\<lambda>k. (3, k)), kc_close = (\<lambda>k fd. (0, k)), kc_setsockopt = (\<lambda>k fd l opt tv. (0, k))\<rparr>"

interpretation table: kernel_flags table_kernel
  by unfold_locales (auto simp: table_kernel_def nonblock_bit)

inductive fd_step :: "'k kernel_calls \<Rightarrow> 'k fdworld \<Rightarrow> 'k fdworld \<Rightarrow> bool" for kc where
  fs_enable: "fd_step kc w (set_hook_enable b w)"
| fs_get: "0 \<le> fd \<Longrightarrow> fd_get kc fd True w = Inr (r, w') \<Longrightarrow> fd_step kc w w'"
| fs_del: "0 \<le> fd \<Longrightarrow> fd_del fd w = Inr w' \<Longrightarrow> fd_step kc w w'"
| fs_setfl: "0 \<le> fd \<Longrightarrow> fcntl_setfl kc fd arg w = Inr (rt, w') \<Longrightarrow> fd_step kc w w'"
| fs_setsockopt: "0 \<le> fd \<Longrightarrow> hook_setsockopt kc fd level optname tv w = Inr (rt, w') \<Longrightarrow> fd_step kc w w'"

inductive fd_reachable :: "'k kernel_calls \<Rightarrow> 'k fdworld \<Rightarrow> bool" for kc where
  fr_init: "fd_reachable kc (FdManager k)"
| fr_step: "fd_reachable kc w \<Longrightarrow> fd_step kc w w' \<Longrightarrow> fd_reachable kc w'"

lemma fd_del_inv: "fd_inv kc w \<Longrightarrow> fd_del fd w = Inr w' \<Longrightarrow> fd_inv kc w'"
  by (auto simp: fd_del_def fd_inv_def set_ctx_def nth_list_update split: if_splits)

context kernel_flags
begin

lemma fd_step_inv: "fd_step kc w w' \<Longrightarrow> fd_inv kc w \<Longrightarrow> fd_inv kc w'"
proof (induction rule: fd_step.induct)
  case (fs_enable w b)
  then show ?case by (simp add: fd_inv_def set_hook_enable_def)
next
  case (fs_get fd w r w')
  then show ?case using fd_get_ok [of w fd] by auto
next
  case (fs_del fd w w')
  then show ?case using fd_del_inv by blast
next
  case (fs_setfl fd arg w rt w')
  then show ?case using fcntl_setfl_ok [of w fd arg] by auto
next
  case (fs_setsockopt fd level optname tv w rt w')
  then show ?case using setsockopt_ok [of w fd level optname tv] by auto
qed

lemma fd_reachable_inv: "fd_reachable kc w \<Longrightarrow> fd_inv kc w"
proof (induction rule: fd_reachable.induct)
  case (fr_init k)
  show ?case by (auto simp: fd_inv_def FdManager_def)
next
  case (fr_step w w')
  then show ?case using fd_step_inv by blast
qed

text \<open>An accepted connection is known to the manager, so that its calls are hooked, and it is non-blocking in the system.\<close>

lemma accept_registers:
  assumes "hook_accept kc env s w = Some (Inr (fd, e, acts, w'))" "0 \<le> fd"
    "\<forall>n e acts w1. hook_io kc env s Accept_f 1 SO_RCVTIMEO w = Some (Inr (n, e, acts, w1)) \<longrightarrow> fd_inv kc w1"
  shows "fd_inv kc w' \<and> (\<exists>c. nat fd < length (fw_datas w') \<and> fw_datas w' ! nat fd = Some c \<and> (f_isSocket c \<longrightarrow> kc_getfl kc (fw_kernel w') fd AND O_NONBLOCK \<noteq> 0))"
proof -
  obtain n w1 where h: "hook_io kc env s Accept_f 1 SO_RCVTIMEO w = Some (Inr (n, e, acts, w1))" "n = fd" "\<exists>c. fd_get kc fd True w1 = Inr (c, w')"
    using assms(1,2) by (auto simp: hook_accept_def bindE_eq_Inr split: if_splits)
  have "fd_inv kc w1" using assms(3) h(1) by blast
  then obtain c where c: "fd_inv kc w'" "nat fd < length (fw_datas w')" "fw_datas w' ! nat fd = Some c" using fd_get_ok [OF _ assms(2)] h(3) by fastforce
  then show ?thesis using fd_inv_ctx [OF c] assms(2) by auto
qed

lemma fionbio_breaks:
  assumes "fd_inv kc w" "0 \<le> fd" "nat fd < length (fw_datas w)" "fw_datas w ! nat fd = Some c" "f_isSocket c"
  shows "\<exists>rt w'. ioctl_fionbio kc fd False w = Inr (rt, w') \<and> kc_getfl kc (fw_kernel w') fd AND O_NONBLOCK = 0"
proof -
  have g: "fd_get kc fd True w = Inr (Some c, w)" using fd_get_ok [OF assms(1, 2)] assms(3, 4) by auto
  have "\<not> f_isClosed c" using fd_inv_ctx [OF assms(1, 3, 4)] by simp
  then show ?thesis using g assms(5) by (simp add: ioctl_fionbio_def Let_def case_prod_beta getfl_fionbio)
qed

end

section \<open>Properties\<close>




text \<open>A world that answers \<open>EAGAIN\<close> a number of times.\<close>

definition slow_ops :: "nat io_ops" where
  "slow_ops = \<lparr>io_call = (\<lambda>w. if w = 0 then (5, EAGAIN, 0) else (- 1, EAGAIN, w - 1)), io_addEvent = (\<lambda>w. (0, EAGAIN, w)),
     io_yield = (\<lambda>w. (False, w)), io_getsockopt = (\<lambda>w. (0, EAGAIN, None))\<rparr>"

definition demo_ctx :: fdctx where
  "demo_ctx = \<lparr>f_isInit = True, f_isSocket = True, f_sysNonblock = True, f_userNonblock = False, f_isClosed = False, f_fd = 3,
     f_recvTimeout = 100, f_sendTimeout = - 1\<rparr>"


end
