(* ===== verification/Sylar_Config.thy ===== *)
theory Sylar_Config
  imports Sylar_Util Sylar_Containers "HOL-Library.List_Lexorder"
begin

text \<open>
  Configuration variables (\<^verbatim>\<open>src/sylar/config.h\<close>, \<^verbatim>\<open>config.cpp\<close>): typed variables with their change listeners,
  the registry that maps names to variables, and loading from YAML. The types of variables are
  values of a type \<open>'t\<close>, all values live in one type \<open>'v\<close>; the conversions between strings and values (\<^verbatim>\<open>LexicalCast\<close>) and
  the YAML printer are parameters, \<^term>\<open>None\<close> is an exception of a conversion. A YAML document is a tree.
  A variable is never removed, so its name stands for the pointer to it.
\<close>

section \<open>Variables\<close>

record ('t, 'v, 'cb) config_var =
  cv_name :: string
  cv_description :: string
  cv_type :: 't
  cv_val :: 'v
  cv_cbs :: "(nat \<times> 'cb) list"

definition ConfigVar :: "'t \<Rightarrow> string \<Rightarrow> 'v \<Rightarrow> string \<Rightarrow> ('t, 'v, 'cb) config_var" where
  "ConfigVar t name default_value description =
     \<lparr>cv_name = map tolower name, cv_description = description, cv_type = t, cv_val = default_value, cv_cbs = []\<rparr>"

definition cv_toString :: "('t \<Rightarrow> 'v \<Rightarrow> string option) \<Rightarrow> ('t, 'v, 'cb) config_var \<Rightarrow> string" where
  "cv_toString to_str x = (case to_str (cv_type x) (cv_val x) of Some s \<Rightarrow> s | None \<Rightarrow> '''')"

text \<open>The listeners are called with the old and the new value before the variable changes: the calls are the first result.\<close>

definition setValue :: "'v \<Rightarrow> ('t, 'v, 'cb) config_var \<Rightarrow> ('cb \<times> 'v \<times> 'v) list \<times> ('t, 'v, 'cb) config_var" where
  "setValue v x =
     (if v = cv_val x then ([], x)
      else (map (\<lambda>(k, cb). (cb, cv_val x, v)) (cv_cbs x), x\<lparr>cv_val := v\<rparr>))"

definition fromString ::
    "('t \<Rightarrow> string \<Rightarrow> 'v option) \<Rightarrow> string \<Rightarrow> ('t, 'v, 'cb) config_var \<Rightarrow> bool \<times> ('cb \<times> 'v \<times> 'v) list \<times> ('t, 'v, 'cb) config_var" where
  "fromString from_str s x =
     (case from_str (cv_type x) s of
        Some v \<Rightarrow> (True, setValue v x)
      | None \<Rightarrow> (False, [], x))"

text \<open>The listener ids come from a counter that all variables of one type share.\<close>

definition addListener :: "'cb \<Rightarrow> nat \<Rightarrow> ('t, 'v, 'cb) config_var \<Rightarrow> nat \<times> ('t, 'v, 'cb) config_var" where
  "addListener cb s_fun_id x = (s_fun_id + 1, x\<lparr>cv_cbs := cmap_assign (<) (s_fun_id + 1) cb (cv_cbs x)\<rparr>)"

definition delListener :: "nat \<Rightarrow> ('t, 'v, 'cb) config_var \<Rightarrow> ('t, 'v, 'cb) config_var" where
  "delListener key x = x\<lparr>cv_cbs := cmap_erase (<) key (cv_cbs x)\<rparr>"

definition getListener :: "nat \<Rightarrow> ('t, 'v, 'cb) config_var \<Rightarrow> 'cb option" where
  "getListener key x = cmap_find (<) key (cv_cbs x)"

definition clearListener :: "('t, 'v, 'cb) config_var \<Rightarrow> ('t, 'v, 'cb) config_var" where
  "clearListener x = x\<lparr>cv_cbs := []\<rparr>"

section \<open>The registry\<close>

text \<open>\<^verbatim>\<open>std::string\<close>'s order.\<close>

definition string_less :: "string \<Rightarrow> string \<Rightarrow> bool" where
  "string_less a b \<longleftrightarrow> (map of_char a :: nat list) < map of_char b"

type_synonym ('t, 'v, 'cb) config = "(string \<times> ('t, 'v, 'cb) config_var) list"

definition config_chars :: string where
  "config_chars = ''abcdefghikjlmnopqrstuvwxyz._012345678''"

datatype config_error = InvalidArgument string

definition LookupBase :: "string \<Rightarrow> ('t, 'v, 'cb) config \<Rightarrow> ('t, 'v, 'cb) config_var option" where
  "LookupBase name g = cmap_find string_less name g"

text \<open>A variable of another type under the name is a null pointer.\<close>

definition Lookup_typed :: "'t \<Rightarrow> string \<Rightarrow> ('t, 'v, 'cb) config \<Rightarrow> ('t, 'v, 'cb) config_var option" where
  "Lookup_typed t name g =
     (case cmap_find string_less name g of None \<Rightarrow> None | Some x \<Rightarrow> if cv_type x = t then Some x else None)"

definition Config_Lookup ::
    "'t \<Rightarrow> string \<Rightarrow> 'v \<Rightarrow> string \<Rightarrow> ('t, 'v, 'cb) config \<Rightarrow> config_error + ('t, 'v, 'cb) config_var option \<times> ('t, 'v, 'cb) config" where
  "Config_Lookup t name default_value description g =
     (case cmap_find string_less name g of
        Some x \<Rightarrow> Inr (if cv_type x = t then Some x else None, g)
      | None \<Rightarrow>
          if find_first_not_of name config_chars \<noteq> None then Inl (InvalidArgument name)
          else let x = ConfigVar t name default_value description in Inr (Some x, cmap_assign string_less name x g))"

definition Visit :: "(('t, 'v, 'cb) config_var \<Rightarrow> 'r) \<Rightarrow> ('t, 'v, 'cb) config \<Rightarrow> 'r list" where
  "Visit cb g = map (\<lambda>(k, x). cb x) g"

section \<open>YAML\<close>

datatype yaml = YNull | YScalar string | YSequence "yaml list" | YMap "(string \<times> yaml) list"

fun ListAllMember :: "string \<Rightarrow> yaml \<Rightarrow> (string \<times> yaml) list" where
  "ListAllMember prefix node =
     (if find_first_not_of prefix config_chars \<noteq> None then []
      else (prefix, node) #
        (case node of
           YMap kvs \<Rightarrow> concat (map (\<lambda>kv. ListAllMember (if prefix = '''' then fst kv else prefix @ ''.'' @ fst kv) (snd kv)) kvs)
         | _ \<Rightarrow> []))"

declare ListAllMember.simps [simp del]

text \<open>One node: a variable with that name takes the scalar, or the text of the subtree. \<open>emit\<close> prints a node.\<close>

definition load_node ::
    "('t \<Rightarrow> string \<Rightarrow> 'v option) \<Rightarrow> (yaml \<Rightarrow> string) \<Rightarrow> string \<times> yaml \<Rightarrow> ('t, 'v, 'cb) config \<Rightarrow> ('t, 'v, 'cb) config" where
  "load_node from_str emit i g =
     (if fst i = '''' then g
      else let key = map tolower (fst i) in
           case LookupBase key g of
             None \<Rightarrow> g
           | Some x \<Rightarrow>
               let text = (case snd i of YScalar s \<Rightarrow> s | node \<Rightarrow> emit node)
               in cmap_assign string_less key (snd (snd (fromString from_str text x))) g)"

definition LoadFromYaml ::
    "('t \<Rightarrow> string \<Rightarrow> 'v option) \<Rightarrow> (yaml \<Rightarrow> string) \<Rightarrow> yaml \<Rightarrow> ('t, 'v, 'cb) config \<Rightarrow> ('t, 'v, 'cb) config" where
  "LoadFromYaml from_str emit root g = fold (load_node from_str emit) (ListAllMember '''' root) g"

section \<open>Conversions of containers\<close>

text \<open>
  \<^verbatim>\<open>LexicalCast\<close> between strings and containers, from the conversions of the elements, the YAML reader
  \<open>yload\<close> (nothing is an exception), the printer \<open>emit\<close> and \<open>key_at\<close>, the node that \<^verbatim>\<open>operator[]\<close> with a number finds in a mapping.
\<close>

fun node_size :: "yaml \<Rightarrow> nat" where
  "node_size (YSequence ns) = length ns"
| "node_size (YMap kvs) = length kvs"
| "node_size _ = 0"

fun node_at :: "(yaml \<Rightarrow> nat \<Rightarrow> yaml) \<Rightarrow> yaml \<Rightarrow> nat \<Rightarrow> yaml" where
  "node_at key_at (YSequence ns) i = ns ! i"
| "node_at key_at n i = key_at n i"

fun node_pairs :: "yaml \<Rightarrow> (string \<times> yaml) list" where
  "node_pairs (YMap kvs) = kvs"
| "node_pairs _ = []"

fun sequence_opt :: "'a option list \<Rightarrow> 'a list option" where
  "sequence_opt [] = Some []"
| "sequence_opt (None # xs) = None"
| "sequence_opt (Some x # xs) = map_option (Cons x) (sequence_opt xs)"

definition vector_fromString ::
    "(string \<Rightarrow> yaml option) \<Rightarrow> (yaml \<Rightarrow> string) \<Rightarrow> (yaml \<Rightarrow> nat \<Rightarrow> yaml) \<Rightarrow> (string \<Rightarrow> 'a option) \<Rightarrow> string \<Rightarrow> 'a list option" where
  "vector_fromString yload emit key_at elem v =
     (case yload v of
        None \<Rightarrow> None
      | Some node \<Rightarrow> sequence_opt (map (\<lambda>i. elem (emit (node_at key_at node i))) [0..<node_size node]))"

definition vector_toString :: "(string \<Rightarrow> yaml option) \<Rightarrow> (yaml \<Rightarrow> string) \<Rightarrow> ('a \<Rightarrow> string option) \<Rightarrow> 'a list \<Rightarrow> string option" where
  "vector_toString yload emit elem v =
     map_option (\<lambda>ns. emit (YSequence ns)) (sequence_opt (map (\<lambda>x. case elem x of None \<Rightarrow> None | Some s \<Rightarrow> yload s) v))"

text \<open>A \<^verbatim>\<open>std::set\<close> is the list of its elements in order.\<close>

definition set_fromString ::
    "('a \<Rightarrow> 'a \<Rightarrow> bool) \<Rightarrow> (string \<Rightarrow> yaml option) \<Rightarrow> (yaml \<Rightarrow> string) \<Rightarrow> (yaml \<Rightarrow> nat \<Rightarrow> yaml) \<Rightarrow> (string \<Rightarrow> 'a option) \<Rightarrow> string \<Rightarrow> 'a list option" where
  "set_fromString lt yload emit key_at elem v =
     map_option (\<lambda>xs. fold (cset_insert lt) xs []) (vector_fromString yload emit key_at elem v)"

definition map_fromString ::
    "(string \<Rightarrow> yaml option) \<Rightarrow> (yaml \<Rightarrow> string) \<Rightarrow> (string \<Rightarrow> 'a option) \<Rightarrow> string \<Rightarrow> (string \<times> 'a) list option" where
  "map_fromString yload emit elem v =
     (case yload v of
        None \<Rightarrow> None
      | Some node \<Rightarrow>
          map_option (\<lambda>kvs. fold (\<lambda>(k, x) m. cmap_insert string_less k x m) kvs [])
            (sequence_opt (map (\<lambda>(k, n). map_option (Pair k) (elem (emit n))) (node_pairs node))))"

text \<open>The keys of a \<^verbatim>\<open>std::map\<close> are distinct, so that every assignment to the new node appends an entry.\<close>

definition map_toString :: "(string \<Rightarrow> yaml option) \<Rightarrow> (yaml \<Rightarrow> string) \<Rightarrow> ('a \<Rightarrow> string option) \<Rightarrow> (string \<times> 'a) list \<Rightarrow> string option" where
  "map_toString yload emit elem v =
     map_option (\<lambda>kvs. emit (YMap kvs))
       (sequence_opt (map (\<lambda>(k, x). case elem x of None \<Rightarrow> None | Some s \<Rightarrow> map_option (Pair k) (yload s)) v))"

text \<open>
  The other containers: the code for lists is that of vectors, and the text of an ordered set is that of its elements. A hash table is a set or a map; the order in which it is
  iterated is arbitrary, so that the elements in that order are the argument of the printing functions.
\<close>

definition list_fromString ::
    "(string \<Rightarrow> yaml option) \<Rightarrow> (yaml \<Rightarrow> string) \<Rightarrow> (yaml \<Rightarrow> nat \<Rightarrow> yaml) \<Rightarrow> (string \<Rightarrow> 'a option) \<Rightarrow> string \<Rightarrow> 'a list option" where
  "list_fromString yload emit key_at elem v = vector_fromString yload emit key_at elem v"

definition list_toString :: "(string \<Rightarrow> yaml option) \<Rightarrow> (yaml \<Rightarrow> string) \<Rightarrow> ('a \<Rightarrow> string option) \<Rightarrow> 'a list \<Rightarrow> string option" where
  "list_toString yload emit elem v = vector_toString yload emit elem v"

definition set_toString :: "(string \<Rightarrow> yaml option) \<Rightarrow> (yaml \<Rightarrow> string) \<Rightarrow> ('a \<Rightarrow> string option) \<Rightarrow> 'a list \<Rightarrow> string option" where
  "set_toString yload emit elem v = vector_toString yload emit elem v"

definition unordered_set_fromString ::
    "(string \<Rightarrow> yaml option) \<Rightarrow> (yaml \<Rightarrow> string) \<Rightarrow> (yaml \<Rightarrow> nat \<Rightarrow> yaml) \<Rightarrow> (string \<Rightarrow> 'a option) \<Rightarrow> string \<Rightarrow> 'a set option" where
  "unordered_set_fromString yload emit key_at elem v = map_option (\<lambda>xs. fold insert xs {}) (vector_fromString yload emit key_at elem v)"

definition unordered_set_toString :: "(string \<Rightarrow> yaml option) \<Rightarrow> (yaml \<Rightarrow> string) \<Rightarrow> ('a \<Rightarrow> string option) \<Rightarrow> 'a list \<Rightarrow> string option" where
  "unordered_set_toString yload emit elem v = vector_toString yload emit elem v"

text \<open>\<^verbatim>\<open>insert\<close> does nothing when the key is there.\<close>

definition unordered_map_fromString ::
    "(string \<Rightarrow> yaml option) \<Rightarrow> (yaml \<Rightarrow> string) \<Rightarrow> (string \<Rightarrow> 'a option) \<Rightarrow> string \<Rightarrow> (string \<Rightarrow> 'a option) option" where
  "unordered_map_fromString yload emit elem v =
     (case yload v of
        None \<Rightarrow> None
      | Some node \<Rightarrow>
          map_option (\<lambda>kvs. fold (\<lambda>(k, x) m. if m k = None then m(k := Some x) else m) kvs (\<lambda>k. None))
            (sequence_opt (map (\<lambda>(k, n). map_option (Pair k) (elem (emit n))) (node_pairs node))))"

definition unordered_map_toString :: "(string \<Rightarrow> yaml option) \<Rightarrow> (yaml \<Rightarrow> string) \<Rightarrow> ('a \<Rightarrow> string option) \<Rightarrow> (string \<times> 'a) list \<Rightarrow> string option" where
  "unordered_map_toString yload emit elem v = map_toString yload emit elem v"

section \<open>Names and paths\<close>

definition valid_name :: "string \<Rightarrow> bool" where
  "valid_name s \<longleftrightarrow> set s \<subseteq> set config_chars"

lemma find_first_not_of_None: "find_first_not_of s cs = None \<longleftrightarrow> set s \<subseteq> set cs"
proof -
  have "length (takeWhile (\<lambda>c. c \<in> set cs) s) < length s \<longleftrightarrow> \<not> set s \<subseteq> set cs"
    by (induction s) auto
  then show ?thesis by (simp add: find_first_not_of_def Let_def)
qed

lemma name_check [simp]: "(find_first_not_of s config_chars = None) = valid_name s"
  by (simp add: find_first_not_of_None valid_name_def)

lemma lower_chars: "list_all (\<lambda>c. tolower c = c) config_chars"
  by (simp add: config_chars_def tolower_def)

lemma valid_lower: "valid_name s \<Longrightarrow> map tolower s = s"
  using lower_chars by (intro map_idI) (auto simp: valid_name_def list_all_iff)

text \<open>The reference: a node under a sequence of keys.\<close>

inductive at_path :: "yaml \<Rightarrow> string list \<Rightarrow> yaml \<Rightarrow> bool" where
  at_here: "at_path n [] n"
| at_key: "(k, m) \<in> set kvs \<Longrightarrow> at_path m ks n \<Longrightarrow> at_path (YMap kvs) (k # ks) n"

inductive_cases at_path_Nil [elim!]: "at_path m [] n"
inductive_cases at_path_Cons [elim!]: "at_path m (k # ks) n"

definition join_key :: "string \<Rightarrow> string \<Rightarrow> string" where
  "join_key p k = (if p = '''' then k else p @ ''.'' @ k)"

definition dotted :: "string list \<Rightarrow> string" where
  "dotted ks = foldl join_key '''' ks"

lemma valid_join [simp]: "valid_name (join_key p k) \<longleftrightarrow> valid_name p \<and> valid_name k"
proof -
  have "CHR ''.'' \<in> set config_chars" by (simp add: config_chars_def)
  then show ?thesis by (auto simp: valid_name_def join_key_def)
qed

lemma ListAllMember_paths:
  "(q, n) \<in> set (ListAllMember p node) \<longleftrightarrow>
     (\<exists>ks. at_path node ks n \<and> q = foldl join_key p ks \<and> valid_name p \<and> (\<forall>k \<in> set ks. valid_name k))"
proof (induction p node rule: ListAllMember.induct)
  case (1 p node)
  have key: "(if p = '''' then fst kv else p @ ''.'' @ fst kv) = join_key p (fst kv)" for kv :: "string \<times> yaml" by (simp add: join_key_def)
  show ?case
  proof (cases "valid_name p")
    case False
    then show ?thesis by (subst ListAllMember.simps) simp
  next
    case valid: True
    show ?thesis
    proof (cases "\<exists>kvs. node = YMap kvs")
      case False
      then have "ListAllMember p node = [(p, node)]" using valid by (subst ListAllMember.simps) (auto split: yaml.splits)
      moreover have "at_path node ks n \<longleftrightarrow> ks = [] \<and> n = node" for ks
        using False by (auto intro: at_here elim: at_path.cases)
      ultimately show ?thesis using valid by auto
    next
      case True
      then obtain kvs where YMap: "node = YMap kvs" by blast
      have ih: "(q, n) \<in> set (ListAllMember (join_key p (fst kv)) (snd kv)) \<longleftrightarrow>
          (\<exists>ks. at_path (snd kv) ks n \<and> q = foldl join_key (join_key p (fst kv)) ks \<and> valid_name (join_key p (fst kv)) \<and> (\<forall>k \<in> set ks. valid_name k))"
        if "kv \<in> set kvs" for kv
        using 1 [OF _ YMap that] valid unfolding key by simp
      have "set (ListAllMember p node) = insert (p, node) (\<Union>kv \<in> set kvs. set (ListAllMember (join_key p (fst kv)) (snd kv)))"
        using valid YMap by (subst ListAllMember.simps) (simp add: join_key_def)
      then have "(q, n) \<in> set (ListAllMember p node) \<longleftrightarrow> (q, n) = (p, node) \<or> (\<exists>kv \<in> set kvs. (q, n) \<in> set (ListAllMember (join_key p (fst kv)) (snd kv)))"
        by auto
      also have "\<dots> \<longleftrightarrow> (\<exists>ks. at_path node ks n \<and> q = foldl join_key p ks \<and> valid_name p \<and> (\<forall>k \<in> set ks. valid_name k))"
      proof (intro iffI; elim disjE bexE exE conjE)
        assume "(q, n) = (p, node)"
        then show "\<exists>ks. at_path node ks n \<and> q = foldl join_key p ks \<and> valid_name p \<and> (\<forall>k \<in> set ks. valid_name k)"
          using valid by (intro exI [of _ "[]"]) (auto intro: at_here)
      next
        fix kv
        assume kv: "kv \<in> set kvs" "(q, n) \<in> set (ListAllMember (join_key p (fst kv)) (snd kv))"
        then obtain ks where "at_path (snd kv) ks n" "q = foldl join_key (join_key p (fst kv)) ks" "valid_name (fst kv)" "\<forall>k \<in> set ks. valid_name k"
          using ih by auto
        then show "\<exists>ks. at_path node ks n \<and> q = foldl join_key p ks \<and> valid_name p \<and> (\<forall>k \<in> set ks. valid_name k)"
          using kv(1) valid YMap by (intro exI [of _ "fst kv # ks"]) (auto intro!: at_key [of "fst kv" "snd kv"])
      next
        fix ks
        assume a: "at_path node ks n" "q = foldl join_key p ks" "\<forall>k \<in> set ks. valid_name k"
        show "(q, n) = (p, node) \<or> (\<exists>kv \<in> set kvs. (q, n) \<in> set (ListAllMember (join_key p (fst kv)) (snd kv)))"
        proof (cases ks)
          case Nil
          then show ?thesis using a by auto
        next
          case (Cons k ks')
          then obtain m where m: "(k, m) \<in> set kvs" "at_path m ks' n" using a(1) YMap by auto
          then show ?thesis using ih [OF m(1)] a Cons valid by (intro disjI2 bexI [OF _ m(1)]) auto
        qed
      qed
      finally show ?thesis .
    qed
  qed
qed

section \<open>The registry as a map\<close>

interpretation names: cxx_total string_less
proof
  fix x y :: string
  assume "\<not> string_less x y" "\<not> string_less y x"
  then have "map (of_char :: char \<Rightarrow> nat) x = map of_char y" by (simp add: string_less_def)
  then show "x = y" by (rule map_injective) (simp add: inj_def)
qed (auto simp: string_less_def)

lemma names_eqv [simp]: "names.eqv x y \<longleftrightarrow> x = y"
  unfolding names.eqv_def using names.eqv_eq names.irrefl by blast

text \<open>The names in the registry are valid, in order, and each variable carries its own name; its listeners are in the order of their ids.\<close>

definition config_inv :: "('t, 'v, 'cb) config \<Rightarrow> bool" where
  "config_inv g \<longleftrightarrow> sorted_wrt string_less (map fst g) \<and> (\<forall>(k, x) \<in> set g. valid_name k \<and> cv_name x = k \<and> sorted_wrt (<) (map fst (cv_cbs x)))"

lemma find_in_set: "cmap_find string_less name g = Some x \<Longrightarrow> sorted_wrt string_less (map fst g) \<Longrightarrow> (name, x) \<in> set g"
  by (induction g) (auto split: if_splits dest: names.eqv_eq)

lemma set_assign: "set (cmap_assign string_less k v g) \<subseteq> insert (k, v) (set g)"
proof (induction g)
  case (Cons kv g)
  then show ?case using names.eqv_eq [of "fst kv" k] by (cases kv) (auto split: if_splits)
qed simp

lemma config_inv_assign:
  assumes "config_inv g" "valid_name k" "cv_name x = k" "sorted_wrt (<) (map fst (cv_cbs x))"
  shows "config_inv (cmap_assign string_less k x g)"
  using assms set_assign [of k x g] names.keys_ordered_assign [of g k x] unfolding config_inv_def by fastforce

lemma find_assign_name:
  "config_inv g \<Longrightarrow> cmap_find string_less n (cmap_assign string_less k x g) = (if n = k then Some x else cmap_find string_less n g)"
  using names.find_assign [of g n k x] by (simp add: config_inv_def)

lemma find_ok: "config_inv g \<Longrightarrow> cmap_find string_less n g = Some x \<Longrightarrow> valid_name n \<and> cv_name x = n \<and> sorted_wrt (<) (map fst (cv_cbs x))"
  using find_in_set [of n g x] by (auto simp: config_inv_def)

lemma setValue_fields [simp]:
  "cv_name (snd (setValue v x)) = cv_name x" "cv_cbs (snd (setValue v x)) = cv_cbs x" "cv_type (snd (setValue v x)) = cv_type x" "cv_val (snd (setValue v x)) = v"
  by (simp_all add: setValue_def)

lemma fromString_fields [simp]:
  "cv_name (snd (snd (fromString f s x))) = cv_name x" "cv_cbs (snd (snd (fromString f s x))) = cv_cbs x" "cv_type (snd (snd (fromString f s x))) = cv_type x"
  "cv_val (snd (snd (fromString f s x))) = (case f (cv_type x) s of None \<Rightarrow> cv_val x | Some v \<Rightarrow> v)"
  by (simp_all add: fromString_def split: option.splits)

inductive config_step :: "('t \<Rightarrow> string \<Rightarrow> 'v option) \<Rightarrow> (yaml \<Rightarrow> string) \<Rightarrow> ('t, 'v, 'cb) config \<Rightarrow> ('t, 'v, 'cb) config \<Rightarrow> bool" for from_str emit where
  cs_lookup: "Config_Lookup t name d desc g = Inr (r, g') \<Longrightarrow> config_step from_str emit g g'"
| cs_set: "LookupBase name g = Some x \<Longrightarrow> config_step from_str emit g (cmap_assign string_less name (snd (setValue v x)) g)"
| cs_add: "LookupBase name g = Some x \<Longrightarrow> config_step from_str emit g (cmap_assign string_less name (snd (addListener cb i x)) g)"
| cs_del: "LookupBase name g = Some x \<Longrightarrow> config_step from_str emit g (cmap_assign string_less name (delListener i x) g)"
| cs_clear: "LookupBase name g = Some x \<Longrightarrow> config_step from_str emit g (cmap_assign string_less name (clearListener x) g)"
| cs_load: "config_step from_str emit g (LoadFromYaml from_str emit root g)"

inductive config_reachable :: "('t \<Rightarrow> string \<Rightarrow> 'v option) \<Rightarrow> (yaml \<Rightarrow> string) \<Rightarrow> ('t, 'v, 'cb) config \<Rightarrow> bool" for from_str emit where
  cr_init: "config_reachable from_str emit []"
| cr_step: "config_reachable from_str emit g \<Longrightarrow> config_step from_str emit g g' \<Longrightarrow> config_reachable from_str emit g'"

lemma load_node_inv: "config_inv g \<Longrightarrow> config_inv (load_node from_str emit i g)"
  using find_ok [of g "map tolower (fst i)"] by (auto simp: load_node_def LookupBase_def Let_def intro!: config_inv_assign split: option.splits)

lemma load_nodes_inv: "config_inv g \<Longrightarrow> config_inv (fold (load_node from_str emit) is g)"
  by (induction "is" arbitrary: g) (simp_all add: load_node_inv)

lemma config_step_inv: "config_step from_str emit g g' \<Longrightarrow> config_inv g \<Longrightarrow> config_inv g'"
proof (induction rule: config_step.induct)
  case (cs_lookup t name d desc g r g')
  then show ?case
    by (auto simp: Config_Lookup_def Let_def ConfigVar_def valid_lower intro!: config_inv_assign split: option.splits if_splits)
next
  case (cs_set name g x v)
  then show ?case using find_ok [of g name x] by (auto simp: LookupBase_def intro!: config_inv_assign)
next
  case (cs_add name g x cb i)
  then show ?case using find_ok [of g name x] nat_lt.keys_ordered_assign
    by (auto simp: LookupBase_def addListener_def intro!: config_inv_assign)
next
  case (cs_del name g x i)
  then show ?case using find_ok [of g name x] nat_lt.keys_ordered_erase
    by (auto simp: LookupBase_def delListener_def intro!: config_inv_assign)
next
  case (cs_clear name g x)
  then show ?case using find_ok [of g name x] by (auto simp: LookupBase_def clearListener_def intro!: config_inv_assign)
next
  case (cs_load g root)
  then show ?case by (simp add: LoadFromYaml_def load_nodes_inv)
qed

lemma config_reachable_inv: "config_reachable from_str emit g \<Longrightarrow> config_inv g"
proof (induction rule: config_reachable.induct)
  case cr_init
  show ?case by (simp add: config_inv_def)
next
  case (cr_step g g')
  then show ?case using config_step_inv by blast
qed

section \<open>Loading\<close>

definition node_text :: "(yaml \<Rightarrow> string) \<Rightarrow> yaml \<Rightarrow> string" where
  "node_text emit n = (case n of YScalar s \<Rightarrow> s | node \<Rightarrow> emit node)"

definition take_node :: "('t \<Rightarrow> string \<Rightarrow> 'v option) \<Rightarrow> (yaml \<Rightarrow> string) \<Rightarrow> yaml \<Rightarrow> ('t, 'v, 'cb) config_var \<Rightarrow> ('t, 'v, 'cb) config_var" where
  "take_node from_str emit n x = snd (snd (fromString from_str (node_text emit n) x))"

lemma load_node_find:
  assumes "config_inv g" "valid_name (fst i)" "name \<noteq> ''''"
  shows "LookupBase name (load_node from_str emit i g)
    = (if fst i = name then map_option (take_node from_str emit (snd i)) (LookupBase name g) else LookupBase name g)"
  using assms find_assign_name [OF assms(1)] valid_lower [OF assms(2)]
  by (auto simp: load_node_def LookupBase_def take_node_def node_text_def Let_def split: option.splits)

lemma load_nodes_find:
  assumes "config_inv g" "\<forall>i \<in> set is. valid_name (fst i)" "name \<noteq> ''''"
  shows "LookupBase name (fold (load_node from_str emit) is g)
    = map_option (fold (take_node from_str emit) (map snd (filter (\<lambda>i. fst i = name) is))) (LookupBase name g)"
  using assms
proof (induction "is" arbitrary: g)
  case Nil
  then show ?case by (simp add: option.map_id0 [unfolded id_def])
next
  case (Cons i "is")
  show ?case
    using Cons.IH [of "load_node from_str emit i g"] Cons.prems load_node_find [of g i name from_str emit]
    by (simp add: load_node_inv option.map_comp comp_def)
qed

section \<open>Round trips\<close>

lemma sequence_opt_Some: "sequence_opt (map Some xs) = Some xs"
  by (induction xs) simp_all

lemma sequence_opt_map: "sequence_opt (map f xs) = Some ys \<Longrightarrow> length ys = length xs \<and> (\<forall>i < length xs. f (xs ! i) = Some (ys ! i))"
proof (induction xs arbitrary: ys)
  case (Cons x xs)
  then obtain y ys' where y: "f x = Some y" "sequence_opt (map f xs) = Some ys'" "ys = y # ys'" by (cases "f x") auto
  then show ?case using Cons.IH [OF y(2)] by (auto simp: nth_Cons split: nat.splits)
qed simp

lemma sequence_opt_all: "(\<And>x. x \<in> set xs \<Longrightarrow> f x = Some (g x)) \<Longrightarrow> sequence_opt (map f xs) = Some (map g xs)"
  by (induction xs) auto

lemma fold_insert_ordered:
  assumes "cxx_order lt" "sorted_wrt lt (ys @ xs)"
  shows "fold (cset_insert lt) xs ys = ys @ xs"
  using assms(2)
proof (induction xs arbitrary: ys)
  case (Cons x xs)
  have "cset_insert lt x ys = ys @ [x]" if "sorted_wrt lt ys" "\<forall>y \<in> set ys. lt y x"
    using that cxx_order.asym [OF assms(1)] by (induction ys) auto
  then have "cset_insert lt x ys = ys @ [x]" using Cons.prems by (simp add: sorted_wrt_append)
  then show ?case using Cons.IH [of "ys @ [x]"] Cons.prems by simp
qed simp

lemma fold_insert_pairs:
  assumes "sorted_wrt string_less (map fst (ys @ xs))"
  shows "fold (\<lambda>(k, x) m. cmap_insert string_less k x m) xs ys = ys @ xs"
  using assms
proof (induction xs arbitrary: ys)
  case (Cons kv xs)
  obtain k x where kv: "kv = (k, x)" by fastforce
  have "cmap_insert string_less k x zs = zs @ [(k, x)]" if "\<forall>z \<in> set (map fst zs). string_less z k" for zs
    using that names.asym by (induction zs) auto
  then have "cmap_insert string_less k x ys = ys @ [(k, x)]" using Cons.prems kv by (simp add: sorted_wrt_append)
  then show ?case using Cons.IH [of "ys @ [(k, x)]"] Cons.prems kv by simp
qed simp

lemma vector_roundtrip:
  assumes "\<forall>n. yload (emit n) = Some n" "\<forall>x \<in> set xs. \<exists>s n. to_elem x = Some s \<and> yload s = Some n \<and> from_elem (emit n) = Some x"
  shows "\<exists>s. vector_toString yload emit to_elem xs = Some s \<and> vector_fromString yload emit key_at from_elem s = Some xs"
proof -
  obtain f where f: "\<And>x. x \<in> set xs \<Longrightarrow> (case to_elem x of None \<Rightarrow> None | Some s \<Rightarrow> yload s) = Some (f x) \<and> from_elem (emit (f x)) = Some x"
    using assms(2) by (metis (no_types, lifting) option.simps(5))
  have "vector_toString yload emit to_elem xs = Some (emit (YSequence (map f xs)))"
    using sequence_opt_all [of xs "\<lambda>x. case to_elem x of None \<Rightarrow> None | Some s \<Rightarrow> yload s" f] f by (simp add: vector_toString_def)
  moreover have "map (\<lambda>i. from_elem (emit (map f xs ! i))) [0..<length xs] = map Some xs"
    using f by (intro nth_equalityI) auto
  ultimately show ?thesis using assms(1) by (simp add: vector_fromString_def sequence_opt_Some)
qed

lemma map_written:
  assumes "\<forall>n. yload (emit n) = Some n" "\<forall>(k, x) \<in> set kvs. \<exists>s n. to_elem x = Some s \<and> yload s = Some n \<and> from_elem (emit n) = Some x"
  shows "\<exists>s ps. map_toString yload emit to_elem kvs = Some s \<and> yload s = Some (YMap ps)
    \<and> sequence_opt (map (\<lambda>(k, n). map_option (Pair k) (from_elem (emit n))) ps) = Some kvs"
proof -
  have "\<forall>kv \<in> set kvs. \<exists>n. (case to_elem (snd kv) of None \<Rightarrow> None | Some s \<Rightarrow> yload s) = Some n \<and> from_elem (emit n) = Some (snd kv)"
    using assms(2) by fastforce
  from bchoice [OF this] obtain f where
    f: "\<And>kv. kv \<in> set kvs \<Longrightarrow> (case to_elem (snd kv) of None \<Rightarrow> None | Some s \<Rightarrow> yload s) = Some (f kv) \<and> from_elem (emit (f kv)) = Some (snd kv)"
    by blast
  let ?g = "\<lambda>kv. (fst kv, f kv)"
  have step: "(case to_elem (snd kv) of None \<Rightarrow> None | Some s \<Rightarrow> map_option (Pair (fst kv)) (yload s)) = Some (?g kv)" if "kv \<in> set kvs" for kv
    using f [OF that] by (cases "to_elem (snd kv)") auto
  have "map_toString yload emit to_elem kvs = Some (emit (YMap (map ?g kvs)))"
    using sequence_opt_all [of kvs "\<lambda>kv. case to_elem (snd kv) of None \<Rightarrow> None | Some s \<Rightarrow> map_option (Pair (fst kv)) (yload s)" ?g] step
    by (simp add: map_toString_def case_prod_unfold)
  moreover have "sequence_opt (map (\<lambda>(k, n). map_option (Pair k) (from_elem (emit n))) (map ?g kvs)) = Some kvs"
    using sequence_opt_all [of kvs "\<lambda>kv. map_option (Pair (fst kv)) (from_elem (emit (f kv)))" "\<lambda>kv. kv"] f by (simp add: comp_def)
  ultimately show ?thesis using assms(1) by blast
qed

lemma map_roundtrip:
  assumes "\<forall>n. yload (emit n) = Some n" "\<forall>(k, x) \<in> set kvs. \<exists>s n. to_elem x = Some s \<and> yload s = Some n \<and> from_elem (emit n) = Some x"
    "sorted_wrt string_less (map fst kvs)"
  shows "\<exists>s. map_toString yload emit to_elem kvs = Some s \<and> map_fromString yload emit from_elem s = Some kvs"
  using map_written [OF assms(1,2)] fold_insert_pairs [of "[]" kvs] assms(3) by (auto simp: map_fromString_def)

lemma insert_absent: "fold (\<lambda>(k, x) m. if m k = None then m(k := Some x) else m) kvs m = map_of kvs ++ m"
proof (induction kvs arbitrary: m)
  case (Cons kv kvs)
  obtain k x where kv: "kv = (k, x)" by fastforce
  show ?case unfolding kv using Cons.IH by (auto simp: map_add_def fun_eq_iff split: option.splits)
qed simp

section \<open>Properties\<close>

text \<open>C36. \<open>ListAllMember\<close> lists exactly the nodes of the document under their dotted paths, for the paths whose keys are
  made of the admitted characters, and \<open>LoadFromYaml\<close> gives each registered variable in turn every node
  whose dotted path is its name: a conversion that fails leaves the value, no variable is added, removed
  or changes its type, and variables that the document does not name keep their value.\<close>

theorem yaml_reaches_variables:
  assumes "config_reachable from_str emit g" "name \<noteq> ''''"
  shows "((q, n) \<in> set (ListAllMember '''' root) \<longleftrightarrow> (\<exists>ks. at_path root ks n \<and> q = dotted ks \<and> (\<forall>k \<in> set ks. valid_name k)))
    \<and> LookupBase name (LoadFromYaml from_str emit root g)
        = map_option (fold (take_node from_str emit) (map snd (filter (\<lambda>i. fst i = name) (ListAllMember '''' root)))) (LookupBase name g)
    \<and> (LookupBase name (LoadFromYaml from_str emit root g) = None \<longleftrightarrow> LookupBase name g = None)
    \<and> (\<forall>x y. LookupBase name g = Some x \<and> LookupBase name (LoadFromYaml from_str emit root g) = Some y \<longrightarrow>
         cv_type y = cv_type x \<and> cv_cbs y = cv_cbs x
         \<and> (\<forall>n. map snd (filter (\<lambda>i. fst i = name) (ListAllMember '''' root)) = [n] \<longrightarrow>
              cv_val y = (case from_str (cv_type x) (node_text emit n) of Some v \<Rightarrow> v | None \<Rightarrow> cv_val x))
         \<and> ((\<forall>ks n. at_path root ks n \<longrightarrow> dotted ks \<noteq> name) \<longrightarrow> y = x))"
proof -
  have inv: "config_inv g" by (rule config_reachable_inv [OF assms(1)])
  have empty: "valid_name ''''" by (simp add: valid_name_def)
  have paths: "(q, n) \<in> set (ListAllMember '''' root) \<longleftrightarrow> (\<exists>ks. at_path root ks n \<and> q = dotted ks \<and> (\<forall>k \<in> set ks. valid_name k))" for q n
    using ListAllMember_paths [of q n "''''" root] empty by (simp add: dotted_def)
  have valid: "valid_name (foldl join_key p ks)" if "valid_name p" "\<forall>k \<in> set ks. valid_name k" for p ks
    using that by (induction ks arbitrary: p) auto
  have "\<forall>i \<in> set (ListAllMember '''' root). valid_name (fst i)" using paths valid empty by (force simp: dotted_def)
  note load = load_nodes_find [OF inv this assms(2), of from_str emit, folded LoadFromYaml_def]
  have keep: "cv_type (fold (take_node from_str emit) ns x) = cv_type x \<and> cv_cbs (fold (take_node from_str emit) ns x) = cv_cbs x" for ns and x :: "('a, 'b, 'c) config_var"
    by (induction ns arbitrary: x) (simp_all add: take_node_def)
  have none: "map snd (filter (\<lambda>i. fst i = name) (ListAllMember '''' root)) = []" if "\<forall>ks n. at_path root ks n \<longrightarrow> dotted ks \<noteq> name"
  proof -
    have "fst i \<noteq> name" if i: "i \<in> set (ListAllMember '''' root)" for i
    proof -
      obtain ks where "at_path root ks (snd i)" "fst i = dotted ks" using i paths [of "fst i" "snd i"] by auto
      then show ?thesis using \<open>\<forall>ks n. at_path root ks n \<longrightarrow> dotted ks \<noteq> name\<close> by metis
    qed
    then show ?thesis by (simp add: filter_empty_conv)
  qed
  show ?thesis using paths load keep none by (auto simp: take_node_def)
qed

definition demo_from :: "unit \<Rightarrow> string \<Rightarrow> string option" where
  "demo_from t s = (if s = '''' then None else Some s)"

definition demo_config :: "(unit, string, nat) config" where
  "demo_config = [(''tcp.port'', ConfigVar () ''tcp.port'' ''80'' '''')]"

lemma demo_valid: "valid_name ''tcp.port''" "valid_name ''tcp''" "valid_name ''''" "\<not> valid_name ''tcp.port9''"
  by (simp_all add: valid_name_def config_chars_def)

lemma demo_config_reachable: "config_reachable demo_from emit demo_config"
proof (rule cr_step [OF cr_init cs_lookup])
  show "Config_Lookup () ''tcp.port'' ''80'' '''' [] = Inr (Some (ConfigVar () ''tcp.port'' ''80'' ''''), demo_config)"
    by (simp add: Config_Lookup_def demo_config_def demo_valid Let_def)
qed

theorem yaml_reaches_variables_witness:
  "\<exists>y. LookupBase ''tcp.port'' (LoadFromYaml demo_from (\<lambda>n. '''') (YMap [(''tcp'', YMap [(''port'', YScalar ''8080'')])]) demo_config) = Some y
     \<and> cv_val y = ''8080''"
proof -
  let ?root = "YMap [(''tcp'', YMap [(''port'', YScalar ''8080'')])]"
  have nodes: "map snd (filter (\<lambda>i. fst i = ''tcp.port'') (ListAllMember '''' ?root)) = [YScalar ''8080'']"
    by (simp add: ListAllMember.simps demo_valid)
  have old: "LookupBase ''tcp.port'' demo_config = Some (ConfigVar () ''tcp.port'' ''80'' '''')"
    by (simp add: LookupBase_def demo_config_def string_less_def)
  note all = yaml_reaches_variables [OF demo_config_reachable [of "\<lambda>n. ''''"], of "''tcp.port''" "''''" YNull ?root, simplified list.simps simp_thms]
  have "LookupBase ''tcp.port'' (LoadFromYaml demo_from (\<lambda>n. '''') ?root demo_config) \<noteq> None"
    using all [THEN conjunct2, THEN conjunct2, THEN conjunct1] old by simp
  then obtain y where y: "LookupBase ''tcp.port'' (LoadFromYaml demo_from (\<lambda>n. '''') ?root demo_config) = Some y" by blast
  have "cv_val y = (case demo_from () (node_text (\<lambda>n. '''') (YScalar ''8080'')) of Some v \<Rightarrow> v | None \<Rightarrow> ''80'')"
    using all [THEN conjunct2, THEN conjunct2, THEN conjunct2] old y nodes by (simp add: ConfigVar_def node_text_def demo_from_def)
  then show ?thesis using y by (simp add: node_text_def demo_from_def)
qed

text \<open>The registry in every state that the program can reach: all names are made of the admitted characters (letters, dots, underscores and the
  digits but 9); the first \<open>Lookup\<close> of a valid name creates the variable with its default, later ones of the same type
  return it whatever default they give, one of another type returns null, and an invalid name throws and changes
  nothing. A new value calls every listener once, in the order of registration, with the old and the new value; an equal value calls
  none; and a listener that was removed is gone.\<close>

theorem config_registry:
  assumes "config_reachable from_str emit g"
  shows "(\<forall>n x. LookupBase n g = Some x \<longrightarrow> valid_name n \<and> cv_name x = n)
    \<and> (LookupBase name g = None \<and> valid_name name \<longrightarrow> (\<exists>g'. Config_Lookup t name d desc g = Inr (Some (ConfigVar t name d desc), g')
          \<and> (\<forall>d' desc'. Config_Lookup t name d' desc' g' = Inr (Some (ConfigVar t name d desc), g'))
          \<and> (\<forall>t' d' desc'. t' \<noteq> t \<longrightarrow> Config_Lookup t' name d' desc' g' = Inr (None, g'))
          \<and> (\<forall>n. n \<noteq> name \<longrightarrow> LookupBase n g' = LookupBase n g)))
    \<and> (LookupBase name g = None \<and> \<not> valid_name name \<longrightarrow> Config_Lookup t name d desc g = Inl (InvalidArgument name))
    \<and> (\<forall>x v. LookupBase name g = Some x \<longrightarrow>
          fst (setValue v x) = (if v = cv_val x then [] else map (\<lambda>e. (snd e, cv_val x, v)) (cv_cbs x))
          \<and> cv_val (snd (setValue v x)) = v \<and> sorted_wrt (<) (map fst (cv_cbs x))
          \<and> getListener (i + 1) (snd (addListener cb i x)) = Some cb
          \<and> getListener i (delListener i x) = None)"
proof -
  have inv: "config_inv g" by (rule config_reachable_inv [OF assms])
  have names: "valid_name n \<and> cv_name x = n" if "LookupBase n g = Some x" for n x
    using find_ok [OF inv] that by (simp add: LookupBase_def)
  have create: "\<exists>g'. Config_Lookup t name d desc g = Inr (Some (ConfigVar t name d desc), g')
          \<and> (\<forall>d' desc'. Config_Lookup t name d' desc' g' = Inr (Some (ConfigVar t name d desc), g'))
          \<and> (\<forall>t' d' desc'. t' \<noteq> t \<longrightarrow> Config_Lookup t' name d' desc' g' = Inr (None, g'))
          \<and> (\<forall>n. n \<noteq> name \<longrightarrow> LookupBase n g' = LookupBase n g)" if "LookupBase name g = None" "valid_name name"
    using that find_assign_name [OF inv] by (auto simp: Config_Lookup_def LookupBase_def ConfigVar_def Let_def)
  have invalid: "Config_Lookup t name d desc g = Inl (InvalidArgument name)" if "LookupBase name g = None" "\<not> valid_name name"
    using that by (simp add: Config_Lookup_def LookupBase_def)
  have listeners: "fst (setValue v x) = (if v = cv_val x then [] else map (\<lambda>e. (snd e, cv_val x, v)) (cv_cbs x))
          \<and> cv_val (snd (setValue v x)) = v \<and> sorted_wrt (<) (map fst (cv_cbs x))
          \<and> getListener (i + 1) (snd (addListener cb i x)) = Some cb \<and> getListener i (delListener i x) = None"
    if "LookupBase name g = Some x" for x v
  proof -
    have s: "sorted_wrt (<) (map fst (cv_cbs x))" using find_ok [OF inv] that by (simp add: LookupBase_def)
    then show ?thesis using nat_lt.find_assign [OF s, of "i + 1" "i + 1" cb] nat_lt.find_erase [OF s, of i i]
      by (auto simp: setValue_def getListener_def addListener_def delListener_def)
  qed
  show ?thesis using names create invalid listeners by blast
qed

theorem config_registry_witness:
  "LookupBase ''tcp.port9'' demo_config = None \<and> Config_Lookup () ''tcp.port9'' ''1'' '''' demo_config = Inl (InvalidArgument ''tcp.port9'')"
proof -
  have "LookupBase ''tcp.port9'' demo_config = None" by (simp add: LookupBase_def demo_config_def string_less_def)
  then show ?thesis
    using config_registry [OF demo_config_reachable [of "\<lambda>n. ''''"], of "''tcp.port9''" "()" "''1''" "''''" 0 0,
        THEN conjunct2, THEN conjunct2, THEN conjunct1] demo_valid(4)
    by simp
qed

text \<open>The conversions of containers are inverse to each other: if the YAML reader reads back what the printer prints and the
  elements survive their own conversion, then a vector, an ordered set and a map with string keys read back from
  their text are the same.\<close>

lemma container_casts_roundtrip:
  assumes "\<forall>n. yload (emit n) = Some n" "\<forall>x. \<exists>s n. to_elem x = Some s \<and> yload s = Some n \<and> from_elem (emit n) = Some x" "cxx_order lt"
  shows "(\<exists>s. vector_toString yload emit to_elem xs = Some s \<and> vector_fromString yload emit key_at from_elem s = Some xs)
    \<and> (sorted_wrt lt ys \<longrightarrow> (\<exists>s. vector_toString yload emit to_elem ys = Some s \<and> set_fromString lt yload emit key_at from_elem s = Some ys))
    \<and> (sorted_wrt string_less (map fst kvs) \<longrightarrow> (\<exists>s. map_toString yload emit to_elem kvs = Some s \<and> map_fromString yload emit from_elem s = Some kvs))"
proof -
  have vec: "\<exists>s. vector_toString yload emit to_elem zs = Some s \<and> vector_fromString yload emit key_at from_elem s = Some zs" for zs
    by (rule vector_roundtrip [OF assms(1)]) (use assms(2) in simp)
  have "\<exists>s. vector_toString yload emit to_elem ys = Some s \<and> set_fromString lt yload emit key_at from_elem s = Some ys" if "sorted_wrt lt ys"
    using vec [of ys] fold_insert_ordered [OF assms(3), of "[]" ys] that by (auto simp: set_fromString_def)
  moreover have "\<exists>s. map_toString yload emit to_elem kvs = Some s \<and> map_fromString yload emit from_elem s = Some kvs" if "sorted_wrt string_less (map fst kvs)"
    by (rule map_roundtrip [OF assms(1) _ that]) (use assms(2) in simp)
  ultimately show ?thesis using vec [of xs] by blast
qed

text \<open>The same for lists and hash tables, whose text depends on the order in which they are iterated but not what is read back.\<close>

lemma unordered_casts_roundtrip:
  assumes "\<forall>n. yload (emit n) = Some n" "\<forall>x. \<exists>s n. to_elem x = Some s \<and> yload s = Some n \<and> from_elem (emit n) = Some x"
  shows "(\<exists>s. list_toString yload emit to_elem xs = Some s \<and> list_fromString yload emit key_at from_elem s = Some xs)
    \<and> (\<exists>s. unordered_set_toString yload emit to_elem xs = Some s \<and> unordered_set_fromString yload emit key_at from_elem s = Some (set xs))
    \<and> (\<exists>s. unordered_map_toString yload emit to_elem kvs = Some s \<and> unordered_map_fromString yload emit from_elem s = Some (map_of kvs))"
proof -
  have vec: "\<exists>s. vector_toString yload emit to_elem xs = Some s \<and> vector_fromString yload emit key_at from_elem s = Some xs"
    by (rule vector_roundtrip [OF assms(1)]) (use assms(2) in simp)
  have set: "fold insert xs {} = set xs" using union_set_fold [of xs "{}"] by simp
  obtain s ps where "map_toString yload emit to_elem kvs = Some s" "yload s = Some (YMap ps)"
    "sequence_opt (map (\<lambda>(k, n). map_option (Pair k) (from_elem (emit n))) ps) = Some kvs"
    using map_written [OF assms(1), of kvs to_elem from_elem] assms(2) by auto
  then have "\<exists>s. unordered_map_toString yload emit to_elem kvs = Some s \<and> unordered_map_fromString yload emit from_elem s = Some (map_of kvs)"
    by (intro exI [of _ s]) (simp add: unordered_map_toString_def unordered_map_fromString_def insert_absent)
  then show ?thesis using vec set
    by (auto simp: list_toString_def list_fromString_def unordered_set_toString_def unordered_set_fromString_def)
qed

end
