(* ===== verification/Sylar_LogFormat.thy ===== *)
theory Sylar_LogFormat
  imports Sylar_Util
begin

text \<open>
  Log levels, events and the formatter (first half of \<^verbatim>\<open>src/sylar/log.cpp\<close>): the pattern parser of \<^verbatim>\<open>LogFormatter::init\<close> with its
  inner loop over one conversion, the table of conversions, and printing. \<^verbatim>\<open>strftime\<close> in the local time zone is a
  parameter. The parser is compared with patterns rendered from a list of segments.
\<close>

section \<open>Levels\<close>

datatype Level = UNKNOWN | DEBUG | INFO | WARN | ERROR | FATAL

fun level_num :: "Level \<Rightarrow> nat" where
  "level_num UNKNOWN = 0"
| "level_num DEBUG = 1"
| "level_num INFO = 2"
| "level_num WARN = 3"
| "level_num ERROR = 4"
| "level_num FATAL = 5"

instantiation Level :: linorder
begin

definition less_eq_Level :: "Level \<Rightarrow> Level \<Rightarrow> bool" where
  "less_eq_Level a b \<longleftrightarrow> level_num a \<le> level_num b"

definition less_Level :: "Level \<Rightarrow> Level \<Rightarrow> bool" where
  "less_Level a b \<longleftrightarrow> level_num a < level_num b"

instance
proof
  fix x y :: Level
  assume "x \<le> y" "y \<le> x"
  then show "x = y" by (cases x; cases y; simp add: less_eq_Level_def)
qed (auto simp: less_eq_Level_def less_Level_def)

end

fun LogLevel_ToString :: "Level \<Rightarrow> string" where
  "LogLevel_ToString DEBUG = ''DEBUG''"
| "LogLevel_ToString INFO = ''INFO''"
| "LogLevel_ToString WARN = ''WARN''"
| "LogLevel_ToString ERROR = ''ERROR''"
| "LogLevel_ToString FATAL = ''FATAL''"
| "LogLevel_ToString UNKNOWN = ''UNKNOWN''"

definition LogLevel_FromString :: "string \<Rightarrow> Level" where
  "LogLevel_FromString str =
     (if str = ''debug'' then DEBUG else if str = ''info'' then INFO else if str = ''warn'' then WARN
      else if str = ''error'' then ERROR else if str = ''fatal'' then FATAL
      else if str = ''DEBUG'' then DEBUG else if str = ''INFO'' then INFO else if str = ''WARN'' then WARN
      else if str = ''ERROR'' then ERROR else if str = ''FATAL'' then FATAL
      else UNKNOWN)"

section \<open>Events\<close>

record LogEvent =
  e_logger :: nat
  e_level :: Level
  e_file :: string
  e_line :: u32
  e_elapse :: u32
  e_threadId :: u32
  e_fiberId :: u32
  e_time :: u64
  e_threadName :: string
  e_ss :: string

text \<open>The constructor narrows the elapsed time; loggers are addresses.\<close>

definition LogEvent_new ::
    "nat \<Rightarrow> Level \<Rightarrow> string \<Rightarrow> u32 \<Rightarrow> u64 \<Rightarrow> u32 \<Rightarrow> u32 \<Rightarrow> u64 \<Rightarrow> string \<Rightarrow> LogEvent" where
  "LogEvent_new logger level file line elapse threadId fiberId time threadName =
     \<lparr>e_logger = logger, e_level = level, e_file = file, e_line = line, e_elapse = ucast elapse,
      e_threadId = threadId, e_fiberId = fiberId, e_time = time, e_threadName = threadName, e_ss = ''''\<rparr>"

text \<open>The formatted text is that of \<^verbatim>\<open>vasprintf\<close>; nothing when it fails.\<close>

definition LogEvent_format :: "string option \<Rightarrow> LogEvent \<Rightarrow> LogEvent" where
  "LogEvent_format text e = (case text of None \<Rightarrow> e | Some s \<Rightarrow> e\<lparr>e_ss := e_ss e @ s\<rparr>)"

section \<open>Format items\<close>

datatype FormatItem =
  MessageFormatItem | LevelFormatItem | ElapseFormatItem | NameFormatItem | ThreadIdFormatItem | FiberIdFormatItem
| ThreadNameFormatItem | DateTimeFormatItem string | FilenameFormatItem | LineFormatItem | NewLineFormatItem
| StringFormatItem string | TabFormatItem

definition show_word :: "'a :: len word \<Rightarrow> string" where
  "show_word w = show_nat (unat w)"

text \<open>\<open>strftime\<close> renders a time with a format; \<open>name\<close> is the name of the event's logger.\<close>

fun item_format :: "(string \<Rightarrow> u64 \<Rightarrow> string) \<Rightarrow> string \<Rightarrow> Level \<Rightarrow> LogEvent \<Rightarrow> FormatItem \<Rightarrow> string" where
  "item_format strftime name level e MessageFormatItem = e_ss e"
| "item_format strftime name level e LevelFormatItem = LogLevel_ToString level"
| "item_format strftime name level e ElapseFormatItem = show_word (e_elapse e)"
| "item_format strftime name level e NameFormatItem = name"
| "item_format strftime name level e ThreadIdFormatItem = show_word (e_threadId e)"
| "item_format strftime name level e FiberIdFormatItem = show_word (e_fiberId e)"
| "item_format strftime name level e ThreadNameFormatItem = e_threadName e"
| "item_format strftime name level e (DateTimeFormatItem f) = strftime (c_str f) (e_time e)"
| "item_format strftime name level e FilenameFormatItem = e_file e"
| "item_format strftime name level e LineFormatItem = show_word (e_line e)"
| "item_format strftime name level e NewLineFormatItem = [CHR 0x0A]"
| "item_format strftime name level e (StringFormatItem s) = s"
| "item_format strftime name level e TabFormatItem = [CHR 0x09]"

section \<open>The pattern parser\<close>

definition isalpha :: "char \<Rightarrow> bool" where
  "isalpha c \<longleftrightarrow> (let n = of_char c :: nat in 65 \<le> n \<and> n \<le> 90 \<or> 97 \<le> n \<and> n \<le> 122)"

text \<open>The inner loop: position, status, start of the format, and the two texts.\<close>

function scan_item ::
    "string \<Rightarrow> nat \<Rightarrow> nat \<Rightarrow> nat \<Rightarrow> nat \<Rightarrow> string \<Rightarrow> string \<Rightarrow> nat \<times> nat \<times> string \<times> string" where
  "scan_item p i n fmt_status fmt_begin str fmt =
     (if n < length p then
        if fmt_status = 0 \<and> \<not> isalpha (p ! n) \<and> p ! n \<noteq> CHR ''{'' \<and> p ! n \<noteq> CHR ''}''
        then (n, fmt_status, substr p (i + 1) (n - i - 1), fmt)
        else if fmt_status = 0 \<and> p ! n = CHR ''{''
        then scan_item p i (n + 1) 1 n (substr p (i + 1) (n - i - 1)) fmt
        else if fmt_status = 1 \<and> p ! n = CHR ''}''
        then (n + 1, 0, str, substr p (fmt_begin + 1) (n - fmt_begin - 1))
        else scan_item p i (n + 1) fmt_status fmt_begin
               (if n + 1 = length p \<and> str = '''' then drop (i + 1) p else str) fmt
      else (n, fmt_status, str, fmt))"
  by pat_completeness auto
termination by (relation "measure (\<lambda>(p, i, n, _). length p - n)") auto

declare scan_item.simps [simp del]

lemma scan_item_ge: "n \<le> fst (scan_item p i n st b str fmt)"
proof (induction p i n st b str fmt rule: scan_item.induct)
  case (1 p i n st b str fmt)
  then show ?case by (subst scan_item.simps) (auto dest: Suc_leD)
qed

lemma scan_item_gt: "(n, r) = scan_item p i (Suc i) st b str fmt \<Longrightarrow> i < n"
  using scan_item_ge [of "Suc i" p i st b str fmt] by (metis Suc_le_lessD fst_conv)

function init_loop ::
    "string \<Rightarrow> nat \<Rightarrow> string \<Rightarrow> (string \<times> string \<times> nat) list \<Rightarrow> bool \<Rightarrow> string \<times> (string \<times> string \<times> nat) list \<times> bool" where
  "init_loop p i nstr vec err =
     (if i < length p then
        if p ! i \<noteq> CHR ''%'' then init_loop p (i + 1) (nstr @ [p ! i]) vec err
        else if i + 1 < length p \<and> p ! (i + 1) = CHR ''%'' then init_loop p (i + 1) (nstr @ ''%'') vec err
        else (case scan_item p i (i + 1) 0 0 '''' '''' of
                (n, fmt_status, str, fmt) \<Rightarrow>
                  if fmt_status = 0
                  then init_loop p n '''' (vec @ (if nstr \<noteq> '''' then [(nstr, '''', 0)] else []) @ [(str, fmt, 1)]) err
                  else init_loop p (i + 1) nstr (vec @ [(''<<pattern_error>>'', fmt, 0)]) True)
      else (nstr, vec, err))"
  by pat_completeness auto
termination by (relation "measure (\<lambda>(p, i, _). length p - i)") (auto dest!: scan_item_gt intro: diff_less_mono2)

declare init_loop.simps [simp del]

definition s_format_items :: "(string \<times> (string \<Rightarrow> FormatItem)) list" where
  "s_format_items =
    [(''m'', \<lambda>_. MessageFormatItem), (''p'', \<lambda>_. LevelFormatItem), (''r'', \<lambda>_. ElapseFormatItem), (''c'', \<lambda>_. NameFormatItem),
     (''t'', \<lambda>_. ThreadIdFormatItem), (''n'', \<lambda>_. NewLineFormatItem), (''d'', DateTimeFormatItem), (''f'', \<lambda>_. FilenameFormatItem),
     (''l'', \<lambda>_. LineFormatItem), (''T'', \<lambda>_. TabFormatItem), (''F'', \<lambda>_. FiberIdFormatItem), (''N'', \<lambda>_. ThreadNameFormatItem)]"

definition make_item :: "string \<times> string \<times> nat \<Rightarrow> FormatItem \<times> bool" where
  "make_item t =
     (case t of (str, fmt, type) \<Rightarrow>
        if type = 0 then (StringFormatItem str, False)
        else case map_of s_format_items str of
               None \<Rightarrow> (StringFormatItem (''<<error_format %'' @ str @ ''>>''), True)
             | Some C \<Rightarrow> (C fmt, False))"

record LogFormatter =
  lf_error :: bool
  lf_pattern :: string
  lf_items :: "FormatItem list"

definition LogFormatter_new :: "string \<Rightarrow> LogFormatter" where
  "LogFormatter_new pattern =
     (case init_loop pattern 0 '''' [] False of
        (nstr, vec, err) \<Rightarrow>
          let vec' = vec @ (if nstr \<noteq> '''' then [(nstr, '''', 0)] else [])
          in \<lparr>lf_error = err \<or> (\<exists>t \<in> set vec'. snd (make_item t)), lf_pattern = pattern, lf_items = map (fst \<circ> make_item) vec'\<rparr>)"

definition LogFormatter_format :: "(string \<Rightarrow> u64 \<Rightarrow> string) \<Rightarrow> string \<Rightarrow> Level \<Rightarrow> LogEvent \<Rightarrow> LogFormatter \<Rightarrow> string" where
  "LogFormatter_format strftime name level e f = concat (map (item_format strftime name level e) (lf_items f))"

section \<open>Patterns as segments\<close>

datatype segment = Text string | Conv string | ConvFmt string string

fun render_segment :: "segment \<Rightarrow> string" where
  "render_segment (Text s) = s"
| "render_segment (Conv a) = CHR ''%'' # a"
| "render_segment (ConvFmt a f) = CHR ''%'' # a @ CHR ''{'' # f @ ''}''"

definition render_pattern :: "segment list \<Rightarrow> string" where
  "render_pattern segs = concat (map render_segment segs)"

fun segment_tuple :: "segment \<Rightarrow> string \<times> string \<times> nat" where
  "segment_tuple (Text s) = (s, '''', 0)"
| "segment_tuple (Conv a) = (a, '''', 1)"
| "segment_tuple (ConvFmt a f) = (a, f, 1)"

definition stops :: "string \<Rightarrow> bool" where
  "stops s \<longleftrightarrow> s = '''' \<or> (\<not> isalpha (hd s) \<and> hd s \<noteq> CHR ''{'' \<and> hd s \<noteq> CHR ''}'')"

text \<open>Texts are not empty, hold no percent sign and do not touch; what follows a conversion without a format ends its name.\<close>

fun segments_ok :: "segment list \<Rightarrow> bool" where
  "segments_ok [] = True"
| "segments_ok (Text s # segs) =
     (s \<noteq> '''' \<and> CHR ''%'' \<notin> set s \<and> (case segs of Text _ # _ \<Rightarrow> False | _ \<Rightarrow> True) \<and> segments_ok segs)"
| "segments_ok (Conv a # segs) =
     (a \<noteq> '''' \<and> list_all isalpha a \<and> (case segs of Text s # _ \<Rightarrow> stops s | _ \<Rightarrow> True) \<and> segments_ok segs)"
| "segments_ok (ConvFmt a f # segs) = (list_all isalpha a \<and> CHR ''}'' \<notin> set f \<and> segments_ok segs)"

lemma render_Cons [simp]: "render_pattern (s # segs) = render_segment s @ render_pattern segs"
  by (simp add: render_pattern_def)

lemma render_Nil [simp]: "render_pattern [] = ''''"
  by (simp add: render_pattern_def)

lemma isalpha_plain [simp]: "isalpha c \<Longrightarrow> c \<noteq> CHR ''{'' \<and> c \<noteq> CHR ''}'' \<and> c \<noteq> CHR ''%''"
  by (auto simp: isalpha_def Let_def)

lemma nth_middle [simp]: "(xs @ y # zs) ! length xs = y"
  by (rule nth_append_length)

text \<open>The inner loop over the letters of a name, in front of each kind of ending.\<close>

lemma scan_letters:
  assumes "list_all isalpha b" "p = pre @ CHR ''%'' # a @ b @ rest" "rest \<noteq> ''''"
  shows "scan_item p (length pre) (Suc (length pre + length a)) 0 0 '''' ''''
    = scan_item p (length pre) (Suc (length pre + length a + length b)) 0 0 '''' ''''"
  using assms
proof (induction b arbitrary: a)
  case (Cons c b)
  have n: "p ! Suc (length pre + length a) = c" "Suc (length pre + length a) < length p"
    "Suc (Suc (length pre + length a)) \<noteq> length p"
    using Cons.prems by (auto simp: nth_append)
  have "scan_item p (length pre) (Suc (length pre + length a)) 0 0 '''' ''''
      = scan_item p (length pre) (Suc (Suc (length pre + length a))) 0 0 '''' ''''"
    using n Cons.prems(1) isalpha_plain [of c] by (subst scan_item.simps) auto
  then show ?case using Cons.IH [of "a @ [c]"] Cons.prems by simp
qed simp

lemma scan_to_end:
  assumes "list_all isalpha b" "b \<noteq> ''''" "p = pre @ CHR ''%'' # a @ b"
  shows "scan_item p (length pre) (Suc (length pre + length a)) 0 0 '''' '''' = (length p, 0, a @ b, '''')"
proof -
  obtain b' c where b: "b = b' @ [c]" using assms(2) by (metis rev_exhaust)
  have "scan_item p (length pre) (Suc (length pre + length a)) 0 0 '''' ''''
      = scan_item p (length pre) (Suc (length pre + length a + length b')) 0 0 '''' ''''"
    by (rule scan_letters [of _ _ _ _ "[c]"]) (use assms b in auto)
  also have "\<dots> = (length p, 0, a @ b, '''')"
  proof -
    have "p ! Suc (length pre + length a + length b') = c" "isalpha c" using assms b by (auto simp: nth_append)
    then show ?thesis using assms(3) b isalpha_plain [of c]
      by (subst scan_item.simps) (auto simp: scan_item.simps [of _ _ "Suc (Suc _)"])
  qed
  finally show ?thesis .
qed

lemma scan_stop:
  assumes "list_all isalpha a" "stops rest" "rest \<noteq> ''''" "p = pre @ CHR ''%'' # a @ rest"
  shows "scan_item p (length pre) (Suc (length pre)) 0 0 '''' '''' = (Suc (length pre + length a), 0, a, '''')"
proof -
  have "scan_item p (length pre) (Suc (length pre)) 0 0 '''' ''''
      = scan_item p (length pre) (Suc (length pre + length a)) 0 0 '''' ''''"
    using scan_letters [of a p pre "''''" rest] assms by simp
  moreover have "p ! Suc (length pre + length a) = hd rest" using assms by (cases rest) (auto simp: nth_append)
  moreover have "substr p (Suc (length pre)) (length a) = a" using assms by (simp add: substr_def)
  ultimately show ?thesis using assms by (subst (asm) (2) scan_item.simps) (auto simp: stops_def)
qed

lemma scan_format:
  assumes "CHR ''}'' \<notin> set g" "p = pre @ f @ g @ CHR ''}'' # rest" "0 < length pre"
  shows "scan_item p i (length pre + length f) 1 (length pre - 1) str '''' = (Suc (length pre + length f + length g), 0, str, f @ g)"
  using assms
proof (induction g arbitrary: f)
  case Nil
  then have "p ! (length pre + length f) = CHR ''}''" by (simp add: nth_append)
  moreover have "substr p (length pre) (length f) = f" using Nil by (simp add: substr_def)
  ultimately show ?case using Nil by (subst scan_item.simps) auto
next
  case (Cons c g)
  have "p ! (length pre + length f) = c" "Suc (length pre + length f) \<noteq> length p" "length pre + length f < length p"
    using Cons.prems by (auto simp: nth_append)
  then have "scan_item p i (length pre + length f) 1 (length pre - 1) str '''' = scan_item p i (Suc (length pre + length f)) 1 (length pre - 1) str ''''"
    using Cons.prems(1) by (subst scan_item.simps) auto
  then show ?case using Cons.IH [of "f @ [c]"] Cons.prems by simp
qed

lemma scan_brace:
  assumes "list_all isalpha a" "p = pre @ CHR ''%'' # a @ CHR ''{'' # rest"
  shows "scan_item p (length pre) (Suc (length pre)) 0 0 '''' ''''
    = scan_item p (length pre) (Suc (Suc (length pre + length a))) 1 (Suc (length pre + length a)) a ''''"
proof -
  have "scan_item p (length pre) (Suc (length pre)) 0 0 '''' ''''
      = scan_item p (length pre) (Suc (length pre + length a)) 0 0 '''' ''''"
    using scan_letters [of a p pre "''''" "CHR ''{'' # rest"] assms by simp
  moreover have "p ! Suc (length pre + length a) = CHR ''{''" using assms by (auto simp: nth_append)
  moreover have "substr p (Suc (length pre)) (length a) = a" using assms by (simp add: substr_def)
  ultimately show ?thesis using assms by (subst (asm) (2) scan_item.simps) auto
qed

lemma scan_conv_fmt:
  assumes "list_all isalpha a" "CHR ''}'' \<notin> set f" "p = pre @ CHR ''%'' # a @ CHR ''{'' # f @ CHR ''}'' # rest"
  shows "scan_item p (length pre) (Suc (length pre)) 0 0 '''' '''' = (Suc (Suc (Suc (length pre + length a + length f))), 0, a, f)"
  using scan_brace [of a p pre "f @ CHR ''}'' # rest"] scan_format [of f p "pre @ CHR ''%'' # a @ ''{''" "''''" rest "length pre" a] assms
  by simp

lemma scan_unclosed:
  assumes "CHR ''}'' \<notin> set g" "p = pre @ g"
  shows "fst (snd (scan_item p i (length pre) 1 b str fmt)) = 1"
  using assms
proof (induction g arbitrary: pre str)
  case Nil
  then show ?case by (simp add: scan_item.simps)
next
  case (Cons c g)
  then have "p ! length pre = c" "length pre < length p" by simp_all
  moreover have "fst (snd (scan_item p i (length (pre @ [c])) 1 b str' fmt)) = 1" for str' by (rule Cons.IH) (use Cons.prems in auto)
  ultimately show ?case using Cons.prems by (subst scan_item.simps) auto
qed

section \<open>The outer loop\<close>

definition pending_text :: "string \<Rightarrow> (string \<times> string \<times> nat) list" where
  "pending_text nstr = (if nstr \<noteq> '''' then [(nstr, '''', 0)] else [])"

lemma init_text:
  assumes "CHR ''%'' \<notin> set s" "p = pre @ s @ rest"
  shows "init_loop p (length pre) nstr vec err = init_loop p (length pre + length s) (nstr @ s) vec err"
  using assms
proof (induction s arbitrary: pre nstr)
  case (Cons c s)
  have "init_loop p (length pre) nstr vec err = init_loop p (Suc (length pre)) (nstr @ [c]) vec err"
    using Cons.prems by (subst init_loop.simps) auto
  then show ?case using Cons.IH [of "pre @ [c]" "nstr @ [c]"] Cons.prems by simp
qed simp

lemma init_conversion:
  assumes "p = pre @ CHR ''%'' # rest" "rest = '''' \<or> hd rest \<noteq> CHR ''%''"
    "scan_item p (length pre) (Suc (length pre)) 0 0 '''' '''' = (n, 0, a, f)"
  shows "init_loop p (length pre) nstr vec err = init_loop p n '''' (vec @ pending_text nstr @ [(a, f, 1)]) err"
proof -
  have "\<not> (Suc (length pre) < length p \<and> p ! Suc (length pre) = CHR ''%'')"
    using assms(1, 2) by (cases rest) (auto simp: nth_append)
  then show ?thesis using assms(1, 3) by (subst init_loop.simps) (auto simp: pending_text_def)
qed

lemma render_stops:
  assumes "case segs of Text s # _ \<Rightarrow> stops s \<and> s \<noteq> '''' | _ \<Rightarrow> True" shows "stops (render_pattern segs)"
proof -
  have "\<not> isalpha CHR ''%''" by (simp add: isalpha_def)
  then show ?thesis using assms by (cases segs rule: segments_ok.cases) (auto simp: stops_def)
qed

lemma first_letter: "list_all isalpha a \<Longrightarrow> a \<noteq> '''' \<Longrightarrow> hd (a @ rest) \<noteq> CHR ''%''"
  by (cases a) auto

lemma init_segments:
  assumes "segments_ok segs" "nstr \<noteq> '''' \<longrightarrow> (case segs of Text _ # _ \<Rightarrow> False | _ \<Rightarrow> True)" "p = pre @ render_pattern segs"
  shows "\<exists>nstr' vec'. init_loop p (length pre) nstr vec err = (nstr', vec', err)
    \<and> vec' @ pending_text nstr' = vec @ pending_text nstr @ map segment_tuple segs"
  using assms
proof (induction segs arbitrary: pre nstr vec rule: segments_ok.induct)
  case 1
  then show ?case by (simp add: init_loop.simps)
next
  case (2 s segs)
  have "init_loop p (length pre) nstr vec err = init_loop p (length (pre @ s)) s vec err"
    using init_text [of s p pre "render_pattern segs" nstr vec err] 2 by simp
  moreover have "\<exists>nstr' vec'. init_loop p (length (pre @ s)) s vec err = (nstr', vec', err)
      \<and> vec' @ pending_text nstr' = vec @ pending_text s @ map segment_tuple segs"
    by (rule "2.IH") (use 2 in auto)
  ultimately show ?case using 2 by (simp add: pending_text_def)
next
  case (3 a segs)
  let ?rest = "render_pattern segs"
  have "scan_item p (length pre) (Suc (length pre)) 0 0 '''' '''' = (Suc (length pre + length a), 0, a, '''')"
  proof (cases "?rest = ''''")
    case True
    then show ?thesis using scan_to_end [of a p pre "''''"] 3 by simp
  next
    case False
    have "stops ?rest" using 3 by (intro render_stops) (auto split: list.splits segment.splits)
    then show ?thesis using scan_stop [of a ?rest p pre] 3 False by simp
  qed
  then have "init_loop p (length pre) nstr vec err
      = init_loop p (length (pre @ CHR ''%'' # a)) '''' (vec @ pending_text nstr @ [(a, '''', 1)]) err"
    using init_conversion [of p pre "a @ ?rest"] 3 first_letter by simp
  then show ?case using "3.IH" [of "''''" "pre @ CHR ''%'' # a" "vec @ pending_text nstr @ [(a, '''', 1)]"] 3
    by (simp add: pending_text_def [of "''''"])
next
  case (4 a f segs)
  let ?rest = "render_pattern segs"
  have "scan_item p (length pre) (Suc (length pre)) 0 0 '''' '''' = (Suc (Suc (Suc (length pre + length a + length f))), 0, a, f)"
    using scan_conv_fmt [of a f p pre ?rest] 4 by simp
  moreover have "hd (a @ CHR ''{'' # f @ CHR ''}'' # ?rest) \<noteq> CHR ''%''" using 4 by (cases a) auto
  ultimately have "init_loop p (length pre) nstr vec err
      = init_loop p (length (pre @ CHR ''%'' # a @ CHR ''{'' # f @ ''}'')) '''' (vec @ pending_text nstr @ [(a, f, 1)]) err"
    using init_conversion [of p pre "a @ CHR ''{'' # f @ CHR ''}'' # ?rest"] 4 by (simp add: add.assoc)
  then show ?case using "4.IH" [of "''''" "pre @ CHR ''%'' # a @ CHR ''{'' # f @ ''}''" "vec @ pending_text nstr @ [(a, f, 1)]"] 4
    by (simp add: pending_text_def [of "''''"])
qed

lemma LogFormatter_fields:
  assumes "init_loop pattern 0 '''' [] False = (nstr, vec, err)"
  shows "lf_items (LogFormatter_new pattern) = map (fst \<circ> make_item) (vec @ pending_text nstr)"
    "lf_error (LogFormatter_new pattern) \<longleftrightarrow> err \<or> (\<exists>t \<in> set (vec @ pending_text nstr). snd (make_item t))"
  using assms by (simp_all add: LogFormatter_new_def pending_text_def Let_def)

lemma init_mono: "init_loop p i nstr vec err = (nstr', vec', err') \<Longrightarrow> set vec \<subseteq> set vec' \<and> (err \<longrightarrow> err')"
proof (induction "length p - i" arbitrary: i nstr vec err rule: less_induct)
  case less
  have step: "set v \<subseteq> set vec' \<and> (e \<longrightarrow> err')" if "i < length p" "i < j" "init_loop p j ns v e = (nstr', vec', err')" for j ns v e
    using less.hyps [OF _ that(3)] that(1, 2) by simp
  obtain n st str fmt where s: "scan_item p i (Suc i) 0 0 '''' '''' = (n, st, str, fmt)" by (metis prod_cases4)
  have n: "i < n" by (rule scan_item_gt [OF s [symmetric]])
  consider "\<not> i < length p" | "i < length p" "init_loop p (Suc i) (nstr @ [p ! i]) vec err = (nstr', vec', err')"
    | "i < length p" "init_loop p n '''' (vec @ (if nstr \<noteq> '''' then [(nstr, '''', 0)] else []) @ [(str, fmt, 1)]) err = (nstr', vec', err')"
    | "i < length p" "init_loop p (Suc i) nstr (vec @ [(''<<pattern_error>>'', fmt, 0)]) True = (nstr', vec', err')"
    using less.prems s by (subst (asm) init_loop.simps) (simp split: if_splits)
  then show ?case
  proof cases
    case 1
    then show ?thesis using less.prems by (simp add: init_loop.simps)
  next
    case 2
    then show ?thesis using step by blast
  next
    case 3
    then show ?thesis using step [OF 3(1) n 3(2)] by simp
  next
    case 4
    then show ?thesis using step [OF 4(1) _ 4(2)] by simp
  qed
qed

lemma init_unclosed:
  assumes "CHR ''%'' \<notin> set s" "list_all isalpha a" "CHR ''}'' \<notin> set f"
  shows "lf_error (LogFormatter_new (s @ CHR ''%'' # a @ CHR ''{'' # f))"
proof -
  let ?p = "s @ CHR ''%'' # a @ CHR ''{'' # f"
  have "fst (snd (scan_item ?p (length s) (Suc (length s)) 0 0 '''' '''')) = 1"
    using scan_unclosed [of f ?p "s @ CHR ''%'' # a @ ''{''" "length s" "Suc (length s + length a)" a "''''"] assms
      scan_brace [of a ?p s f] by simp
  moreover have "\<not> (Suc (length s) < length ?p \<and> ?p ! Suc (length s) = CHR ''%'')" using assms(2) by (cases a) (auto simp: nth_append)
  ultimately have "\<exists>fmt. init_loop ?p (length s) s [] False = init_loop ?p (Suc (length s)) s [(''<<pattern_error>>'', fmt, 0)] True"
    by (subst init_loop.simps) (auto split: prod.splits)
  then obtain fmt where "init_loop ?p (length s) s [] False = init_loop ?p (Suc (length s)) s [(''<<pattern_error>>'', fmt, 0)] True" ..
  then obtain ns v e where "init_loop ?p 0 '''' [] False = (ns, v, e)" "e"
    using init_text [of s ?p "''''" "CHR ''%'' # a @ CHR ''{'' # f" "''''" "[]" False] assms(1) init_mono
    by (metis append_Nil list.size(3) plus_nat.add_0 prod_cases3)
  then show ?thesis by (simp add: LogFormatter_fields)
qed

lemma double_percent_end:
  assumes "CHR ''%'' \<notin> set s"
  shows "lf_error (LogFormatter_new (s @ ''%%''))" "lf_items (LogFormatter_new (s @ ''%%'')) = [StringFormatItem (s @ ''%''), StringFormatItem ''<<error_format %>>'']"
proof -
  let ?p = "s @ ''%%''"
  have "init_loop ?p 0 '''' [] False = init_loop ?p (length s) s [] False"
    using init_text [of s ?p "''''" "''%%''" "''''" "[]" False] assms by simp
  also have "\<dots> = init_loop ?p (Suc (length s)) (s @ ''%'') [] False"
    by (subst init_loop.simps) (simp add: nth_append)
  also have "\<dots> = ('''', [(s @ ''%'', '''', 0), ('''', '''', 1)], False)"
    using init_conversion [of ?p "s @ ''%''" "''''" "Suc (Suc (length s))" "''''" "''''" "s @ ''%''" "[]" False]
    by (simp add: scan_item.simps init_loop.simps [of _ "Suc (Suc _)"] pending_text_def)
  finally have "init_loop ?p 0 '''' [] False = ('''', [(s @ ''%'', '''', 0), ('''', '''', 1)], False)" .
  from LogFormatter_fields [OF this]
  show "lf_error (LogFormatter_new ?p)" "lf_items (LogFormatter_new ?p) = [StringFormatItem (s @ ''%''), StringFormatItem ''<<error_format %>>'']"
    by (simp_all add: make_item_def s_format_items_def pending_text_def)
qed

section \<open>Properties\<close>

text \<open>A pattern written as texts and conversions, with or without a format in braces, is parsed into exactly those items, in
  order, and is in error exactly when one of the conversions is unknown; so printing an event prints each segment in turn. A
  brace that is not closed is an error. A doubled percent sign is not an escape: at the end of a pattern it is an
  error (the second sign starts a conversion without a name).\<close>

theorem pattern_parsed:
  assumes "segments_ok segs" "CHR ''%'' \<notin> set s" "list_all isalpha a" "CHR ''}'' \<notin> set f"
  shows "lf_items (LogFormatter_new (render_pattern segs)) = map (fst \<circ> make_item \<circ> segment_tuple) segs
    \<and> lf_error (LogFormatter_new (render_pattern segs)) = (\<exists>seg \<in> set segs. \<exists>x. (seg = Conv x \<or> (\<exists>y. seg = ConvFmt x y)) \<and> x \<notin> fst ` set s_format_items)
    \<and> LogFormatter_format strftime name level e (LogFormatter_new (render_pattern segs))
        = concat (map (item_format strftime name level e \<circ> fst \<circ> make_item \<circ> segment_tuple) segs)
    \<and> lf_error (LogFormatter_new (s @ CHR ''%'' # a @ CHR ''{'' # f))
    \<and> lf_error (LogFormatter_new (s @ ''%%''))"
proof -
  obtain ns v where i: "init_loop (render_pattern segs) 0 '''' [] False = (ns, v, False)" "v @ pending_text ns = map segment_tuple segs"
    using init_segments [of segs "''''" "render_pattern segs" "''''" "[]" False] assms(1) by (auto simp: pending_text_def [of "''''"])
  have unknown: "snd (make_item (segment_tuple seg)) = (\<exists>x. (seg = Conv x \<or> (\<exists>y. seg = ConvFmt x y)) \<and> x \<notin> fst ` set s_format_items)" for seg
    by (cases seg) (auto simp: make_item_def map_of_eq_None_iff [symmetric] split: option.splits)
  have items: "lf_items (LogFormatter_new (render_pattern segs)) = map (fst \<circ> make_item \<circ> segment_tuple) segs"
    using LogFormatter_fields(1) [OF i(1)] i(2) by simp
  moreover have "lf_error (LogFormatter_new (render_pattern segs)) = (\<exists>seg \<in> set segs. snd (make_item (segment_tuple seg)))"
    using LogFormatter_fields(2) [OF i(1)] i(2) by simp
  ultimately show ?thesis
    using unknown init_unclosed [OF assms(2-4)] double_percent_end(1) [OF assms(2)] by (simp add: LogFormatter_format_def comp_assoc)
qed

theorem pattern_parsed_witness:
  "lf_items (LogFormatter_new (render_pattern [Text ''['', Conv ''p'', Text '']'', ConvFmt ''d'' ''%H'', Conv ''m'', Conv ''n'']))
     = [StringFormatItem ''['', LevelFormatItem, StringFormatItem '']'', DateTimeFormatItem ''%H'', MessageFormatItem, NewLineFormatItem]"
proof -
  have "segments_ok [Text ''['', Conv ''p'', Text '']'', ConvFmt ''d'' ''%H'', Conv ''m'', Conv ''n'']"
    by (simp add: stops_def isalpha_def)
  from pattern_parsed [OF this, of "''''" "''''" "''''"] show ?thesis by (simp add: make_item_def s_format_items_def)
qed

end
