(* ===== verification/Sylar_Log.thy ===== *)
theory Sylar_Log
  imports Sylar_LogFormat Sylar_Config "HOL-Library.Monad_Syntax"
begin

text \<open>
  Appenders, loggers, the logger manager and the configuration of logging (second half of \<^verbatim>\<open>src/sylar/log.cpp\<close>). Loggers and
  appenders are shared objects: a world holds them under their addresses, with what standard output and
  the log files received (stream buffering is left out). Whether a file can be opened and how a time is printed are
  given by an environment. A call through a null pointer is an error value; \<open>Logger::log\<close> recurses through root loggers.
\<close>

section \<open>The objects\<close>

datatype appender_class = StdoutLogAppender | FileLogAppender string

record appender =
  ap_class :: appender_class
  ap_level :: Level
  ap_hasFormatter :: bool
  ap_formatter :: "LogFormatter option"
  ap_good :: bool
  ap_lastTime :: u64

record logger =
  lg_name :: string
  lg_level :: Level
  lg_appenders :: "nat list"
  lg_formatter :: "LogFormatter option"
  lg_root :: "nat option"

record log_world =
  lw_loggers :: "logger list"
  lw_appenders :: "appender list"
  lw_named :: "(string \<times> nat) list"
  lw_root :: nat
  lw_stdout :: string
  lw_files :: "string \<Rightarrow> string"

record log_env =
  le_strftime :: "string \<Rightarrow> u64 \<Rightarrow> string"
  le_open :: "string \<Rightarrow> bool"

datatype log_error = NullFormatter | NullAppender

definition upd_appender :: "nat \<Rightarrow> (appender \<Rightarrow> appender) \<Rightarrow> log_world \<Rightarrow> log_world" where
  "upd_appender a f w = w\<lparr>lw_appenders := (lw_appenders w)[a := f (lw_appenders w ! a)]\<rparr>"

definition upd_logger :: "nat \<Rightarrow> (logger \<Rightarrow> logger) \<Rightarrow> log_world \<Rightarrow> log_world" where
  "upd_logger l f w = w\<lparr>lw_loggers := (lw_loggers w)[l := f (lw_loggers w ! l)]\<rparr>"

definition cout :: "string \<Rightarrow> log_world \<Rightarrow> log_world" where
  "cout s w = w\<lparr>lw_stdout := lw_stdout w @ s\<rparr>"

abbreviation endl :: string where "endl \<equiv> [CHR 0x0A]"

section \<open>Appenders\<close>

definition appender_setLevel :: "Level \<Rightarrow> nat \<Rightarrow> log_world \<Rightarrow> log_world" where
  "appender_setLevel level a w = upd_appender a (\<lambda>x. x\<lparr>ap_level := level\<rparr>) w"

definition hasFormatter :: "nat \<Rightarrow> log_world \<Rightarrow> bool" where
  "hasFormatter a w = ap_hasFormatter (lw_appenders w ! a)"

definition appender_setFormatter :: "LogFormatter option \<Rightarrow> nat \<Rightarrow> log_world \<Rightarrow> log_world" where
  "appender_setFormatter val a w = upd_appender a (\<lambda>x. x\<lparr>ap_formatter := val, ap_hasFormatter := (val \<noteq> None)\<rparr>) w"

definition StdoutLogAppender_new :: "log_world \<Rightarrow> nat \<times> log_world" where
  "StdoutLogAppender_new w =
     (length (lw_appenders w),
      w\<lparr>lw_appenders := lw_appenders w @ [\<lparr>ap_class = StdoutLogAppender, ap_level = DEBUG, ap_hasFormatter = False,
           ap_formatter = None, ap_good = True, ap_lastTime = 0\<rparr>]\<rparr>)"

text \<open>Opening for appending; the old stream is closed.\<close>

definition reopen :: "log_env \<Rightarrow> string \<Rightarrow> nat \<Rightarrow> log_world \<Rightarrow> bool \<times> log_world" where
  "reopen env filename a w = (le_open env filename, upd_appender a (\<lambda>x. x\<lparr>ap_good := le_open env filename\<rparr>) w)"

definition FileLogAppender_new :: "log_env \<Rightarrow> string \<Rightarrow> log_world \<Rightarrow> nat \<times> log_world" where
  "FileLogAppender_new env filename w =
     (let a = length (lw_appenders w);
          w1 = w\<lparr>lw_appenders := lw_appenders w @ [\<lparr>ap_class = FileLogAppender filename, ap_level = DEBUG, ap_hasFormatter = False,
                   ap_formatter = None, ap_good = True, ap_lastTime = 0\<rparr>]\<rparr>
      in (a, snd (reopen env filename a w1)))"

definition event_text :: "log_env \<Rightarrow> Level \<Rightarrow> LogEvent \<Rightarrow> LogFormatter \<Rightarrow> log_world \<Rightarrow> string" where
  "event_text env level e f w = LogFormatter_format (le_strftime env) (lg_name (lw_loggers w ! e_logger e)) level e f"

definition StdoutLogAppender_log :: "log_env \<Rightarrow> Level \<Rightarrow> LogEvent \<Rightarrow> nat \<Rightarrow> log_world \<Rightarrow> log_error + log_world" where
  "StdoutLogAppender_log env level e a w =
     (if ap_level (lw_appenders w ! a) \<le> level
      then case ap_formatter (lw_appenders w ! a) of
             None \<Rightarrow> Inl NullFormatter
           | Some f \<Rightarrow> Inr (cout (event_text env level e f w) w)
      else Inr w)"

definition FileLogAppender_log :: "log_env \<Rightarrow> string \<Rightarrow> Level \<Rightarrow> LogEvent \<Rightarrow> nat \<Rightarrow> log_world \<Rightarrow> log_error + log_world" where
  "FileLogAppender_log env filename level e a w =
     (if ap_level (lw_appenders w ! a) \<le> level
      then let w1 = (if ap_lastTime (lw_appenders w ! a) + 3 \<le> e_time e
                     then upd_appender a (\<lambda>x. x\<lparr>ap_lastTime := e_time e\<rparr>) (snd (reopen env filename a w)) else w)
           in case ap_formatter (lw_appenders w1 ! a) of
                None \<Rightarrow> Inl NullFormatter
              | Some f \<Rightarrow>
                  if ap_good (lw_appenders w1 ! a)
                  then Inr (w1\<lparr>lw_files := (lw_files w1)(filename := lw_files w1 filename @ event_text env level e f w1)\<rparr>)
                  else Inr (cout (''error'' @ endl) w1)
      else Inr w)"

definition appender_log :: "log_env \<Rightarrow> Level \<Rightarrow> LogEvent \<Rightarrow> nat \<Rightarrow> log_world \<Rightarrow> log_error + log_world" where
  "appender_log env level e a w =
     (case ap_class (lw_appenders w ! a) of
        StdoutLogAppender \<Rightarrow> StdoutLogAppender_log env level e a w
      | FileLogAppender filename \<Rightarrow> FileLogAppender_log env filename level e a w)"

section \<open>Loggers\<close>

definition default_pattern :: string where
  "default_pattern = ''%d{%Y-%m-%d %H:%M:%S}%T%t%T%N%T%F%T[%p]%T[%c]%T%f:%l%T%m%n''"

definition Logger_new :: "string \<Rightarrow> log_world \<Rightarrow> nat \<times> log_world" where
  "Logger_new name w =
     (length (lw_loggers w),
      w\<lparr>lw_loggers := lw_loggers w @ [\<lparr>lg_name = name, lg_level = ERROR, lg_appenders = [],
           lg_formatter = Some (LogFormatter_new default_pattern), lg_root = None\<rparr>]\<rparr>)"

definition logger_setLevel :: "Level \<Rightarrow> nat \<Rightarrow> log_world \<Rightarrow> log_world" where
  "logger_setLevel level l w = upd_logger l (\<lambda>g. g\<lparr>lg_level := level\<rparr>) w"

definition setRoot :: "nat option \<Rightarrow> nat \<Rightarrow> log_world \<Rightarrow> log_world" where
  "setRoot root l w = upd_logger l (\<lambda>g. g\<lparr>lg_root := root\<rparr>) w"

definition addAppender :: "nat \<Rightarrow> nat \<Rightarrow> log_world \<Rightarrow> log_world" where
  "addAppender a l w =
     (let w1 = (if hasFormatter a w then w else appender_setFormatter (lg_formatter (lw_loggers w ! l)) a w)
      in upd_logger l (\<lambda>g. g\<lparr>lg_appenders := lg_appenders g @ [a]\<rparr>) w1)"

definition delAppender :: "nat \<Rightarrow> nat \<Rightarrow> log_world \<Rightarrow> log_world" where
  "delAppender a l w = upd_logger l (\<lambda>g. g\<lparr>lg_appenders := remove1 a (lg_appenders g)\<rparr>) w"

definition clearAppender :: "nat \<Rightarrow> log_world \<Rightarrow> log_world" where
  "clearAppender l w = upd_logger l (\<lambda>g. g\<lparr>lg_appenders := []\<rparr>) w"

definition logger_setFormatter :: "LogFormatter option \<Rightarrow> nat \<Rightarrow> log_world \<Rightarrow> log_world" where
  "logger_setFormatter val l w =
     fold (appender_setFormatter val) (lg_appenders (lw_loggers w ! l)) (upd_logger l (\<lambda>g. g\<lparr>lg_formatter := val\<rparr>) w)"

definition logger_setFormatter_str :: "string \<Rightarrow> nat \<Rightarrow> log_world \<Rightarrow> log_world" where
  "logger_setFormatter_str val l w =
     (let w1 = cout (''---'' @ val @ endl) w; new_val = LogFormatter_new val
      in if lf_error new_val
         then cout (''Logger setFormatter name='' @ lg_name (lw_loggers w ! l) @ '' value='' @ val @ '' invalid formatter'' @ endl) w1
         else logger_setFormatter (Some new_val) l w1)"

fun log_all :: "log_env \<Rightarrow> Level \<Rightarrow> LogEvent \<Rightarrow> nat list \<Rightarrow> log_world \<Rightarrow> log_error + log_world" where
  "log_all env level e [] w = Inr w"
| "log_all env level e (a # as) w = bindE (appender_log env level e a w) (log_all env level e as)"

partial_function (option) Logger_log :: "log_env \<Rightarrow> Level \<Rightarrow> LogEvent \<Rightarrow> nat \<Rightarrow> log_world \<Rightarrow> (log_error + log_world) option" where
  "Logger_log env level e l w =
     (let g = lw_loggers w ! l in
      if lg_level g \<le> level
      then if lg_appenders g \<noteq> [] then Some (log_all env level e (lg_appenders g) w)
           else case lg_root g of
                  Some r \<Rightarrow> Logger_log env level e r w
                | None \<Rightarrow> Some (Inr (cout (''There is not any appender in logger:'' @ lg_name g @ endl) w))
      else Some (Inr w))"

definition LogEventWrap_destroy :: "log_env \<Rightarrow> LogEvent \<Rightarrow> log_world \<Rightarrow> (log_error + log_world) option" where
  "LogEventWrap_destroy env e w = Logger_log env (e_level e) e (e_logger e) w"

definition Logger_debug :: "log_env \<Rightarrow> LogEvent \<Rightarrow> nat \<Rightarrow> log_world \<Rightarrow> (log_error + log_world) option" where
  "Logger_debug env e l w = Logger_log env DEBUG e l w"

definition Logger_error :: "log_env \<Rightarrow> LogEvent \<Rightarrow> nat \<Rightarrow> log_world \<Rightarrow> (log_error + log_world) option" where
  "Logger_error env e l w = Logger_log env ERROR e l w"

definition Logger_info :: "log_env \<Rightarrow> LogEvent \<Rightarrow> nat \<Rightarrow> log_world \<Rightarrow> (log_error + log_world) option" where
  "Logger_info env e l w = Logger_log env INFO e l w"

definition Logger_warn :: "log_env \<Rightarrow> LogEvent \<Rightarrow> nat \<Rightarrow> log_world \<Rightarrow> (log_error + log_world) option" where
  "Logger_warn env e l w = Logger_log env WARN e l w"

definition Logger_fatal :: "log_env \<Rightarrow> LogEvent \<Rightarrow> nat \<Rightarrow> log_world \<Rightarrow> (log_error + log_world) option" where
  "Logger_fatal env e l w = Logger_log env FATAL e l w"

text \<open>The logging macros test the level of the logger before they make an event.\<close>

definition SYLAR_LOG_LEVEL :: "log_env \<Rightarrow> LogEvent \<Rightarrow> log_world \<Rightarrow> (log_error + log_world) option" where
  "SYLAR_LOG_LEVEL env e w =
     (if lg_level (lw_loggers w ! e_logger e) \<le> e_level e then LogEventWrap_destroy env e w else Some (Inr w))"

section \<open>The manager\<close>

definition empty_world :: log_world where
  "empty_world = \<lparr>lw_loggers = [], lw_appenders = [], lw_named = [], lw_root = 0, lw_stdout = '''', lw_files = (\<lambda>_. '''')\<rparr>"

definition LoggerManager :: "log_env \<Rightarrow> log_world" where
  "LoggerManager env =
     (let (r, w) = Logger_new ''root'' empty_world;
          (a, w1) = FileLogAppender_new env ''root.txt'' w;
          w2 = addAppender a r w1
      in w2\<lparr>lw_root := r, lw_named := cmap_assign string_less (lg_name (lw_loggers w2 ! r)) r (lw_named w2)\<rparr>)"

definition getLogger :: "string \<Rightarrow> log_world \<Rightarrow> nat \<times> log_world" where
  "getLogger name w =
     (case cmap_find string_less name (lw_named w) of
        Some l \<Rightarrow> (l, w)
      | None \<Rightarrow>
          let (l, w1) = Logger_new name w; w2 = setRoot (Some (lw_root w1)) l w1
          in (l, w2\<lparr>lw_named := cmap_assign string_less name l (lw_named w2)\<rparr>))"

section \<open>Printing as YAML\<close>

text \<open>The keys of a node in the order of the assignments; \<open>emit\<close> prints and \<open>yload\<close> reads a document.\<close>

definition level_entry :: "Level \<Rightarrow> (string \<times> yaml) list" where
  "level_entry level = (if level \<noteq> UNKNOWN then [(''level'', YScalar (LogLevel_ToString level))] else [])"

definition appender_toYamlString :: "(yaml \<Rightarrow> string) \<Rightarrow> appender \<Rightarrow> string" where
  "appender_toYamlString emit a =
     emit (YMap
       ((case ap_class a of
           StdoutLogAppender \<Rightarrow> [(''type'', YScalar ''StdoutLogAppender'')]
         | FileLogAppender f \<Rightarrow> [(''type'', YScalar ''FileLogAppender''), (''file'', YScalar f)])
        @ level_entry (ap_level a)
        @ (case ap_formatter a of Some f \<Rightarrow> if ap_hasFormatter a then [(''formatter'', YScalar (lf_pattern f))] else [] | None \<Rightarrow> [])))"

definition Logger_toYamlString :: "(string \<Rightarrow> yaml option) \<Rightarrow> (yaml \<Rightarrow> string) \<Rightarrow> nat \<Rightarrow> log_world \<Rightarrow> string option" where
  "Logger_toYamlString yload emit l w =
     (let g = lw_loggers w ! l in
      do {
        ns \<leftarrow> sequence_opt (map (\<lambda>a. yload (appender_toYamlString emit (lw_appenders w ! a))) (lg_appenders g));
        Some (emit (YMap ([(''name'', YScalar (lg_name g))] @ level_entry (lg_level g)
          @ (case lg_formatter g of Some f \<Rightarrow> [(''formatter'', YScalar (lf_pattern f))] | None \<Rightarrow> [])
          @ (if ns \<noteq> [] then [(''appenders'', YSequence ns)] else []))))
      })"

definition LoggerManager_toYamlString :: "(string \<Rightarrow> yaml option) \<Rightarrow> (yaml \<Rightarrow> string) \<Rightarrow> log_world \<Rightarrow> string option" where
  "LoggerManager_toYamlString yload emit w =
     do {
       ns \<leftarrow> sequence_opt (map (\<lambda>(k, l). Option.bind (Logger_toYamlString yload emit l w) yload) (lw_named w));
       Some (emit (if ns = [] then YNull else YSequence ns))
     }"

section \<open>Definitions of loggers\<close>

datatype AppenderType = UNKNOWN_TYPE | STDCOUTAPPENDER | FILEAPPENDER

record LogAppenderDefine =
  ad_type :: AppenderType
  ad_level :: Level
  ad_formatter :: string
  ad_file :: string

record LogDefine =
  ld_name :: string
  ld_level :: Level
  ld_formatter :: string
  ld_appenders :: "LogAppenderDefine list"

definition LogAppenderDefine_eq :: "LogAppenderDefine \<Rightarrow> LogAppenderDefine \<Rightarrow> bool" where
  "LogAppenderDefine_eq a b \<longleftrightarrow> ad_type a = ad_type b \<and> ad_level a = ad_level b \<and> ad_formatter a = ad_formatter b \<and> ad_file a = ad_file b"

definition LogDefine_eq :: "LogDefine \<Rightarrow> LogDefine \<Rightarrow> bool" where
  "LogDefine_eq a b \<longleftrightarrow> ld_name a = ld_name b \<and> ld_level a = ld_level b \<and> ld_formatter a = ld_formatter b"

definition LogDefine_less :: "LogDefine \<Rightarrow> LogDefine \<Rightarrow> bool" where
  "LogDefine_less a b \<longleftrightarrow> string_less (ld_name a) (ld_name b)"

definition LogDefine_isValid :: "LogDefine \<Rightarrow> bool" where
  "LogDefine_isValid d \<longleftrightarrow> ld_name d \<noteq> ''''"

text \<open>
  Reading a definition. \<open>get\<close> is \<^verbatim>\<open>operator[]\<close> with a name (outside nothing: an exception, inside nothing: not
  defined) and \<open>as_str\<close> the conversion of a node to a string. An inner nothing of \<open>appender_of_node\<close> is an appender
  that is skipped.
\<close>

type_synonym node_get = "yaml \<Rightarrow> string \<Rightarrow> yaml option option"
type_synonym node_str = "yaml \<Rightarrow> string option"

definition opt_str :: "node_get \<Rightarrow> node_str \<Rightarrow> yaml \<Rightarrow> string \<Rightarrow> string option option" where
  "opt_str get as_str n k =
     do { c \<leftarrow> get n k; case c of None \<Rightarrow> Some None | Some m \<Rightarrow> map_option Some (as_str m) }"

definition appender_of_node :: "node_get \<Rightarrow> node_str \<Rightarrow> yaml \<Rightarrow> LogAppenderDefine option option" where
  "appender_of_node get as_str a =
     do {
       t \<leftarrow> opt_str get as_str a ''type'';
       case t of
         None \<Rightarrow> Some None
       | Some type \<Rightarrow>
           if type = ''FileLogAppender'' then
             do {
               f \<leftarrow> opt_str get as_str a ''file'';
               case f of
                 None \<Rightarrow> Some None
               | Some file \<Rightarrow>
                   do {
                     fmt \<leftarrow> opt_str get as_str a ''formatter'';
                     Some (Some \<lparr>ad_type = FILEAPPENDER, ad_level = UNKNOWN, ad_formatter = (case fmt of None \<Rightarrow> '''' | Some s \<Rightarrow> s), ad_file = file\<rparr>)
                   }
             }
           else if type = ''StdoutLogAppender'' then
             do {
               fmt \<leftarrow> opt_str get as_str a ''formatter'';
               Some (Some \<lparr>ad_type = STDCOUTAPPENDER, ad_level = UNKNOWN, ad_formatter = (case fmt of None \<Rightarrow> '''' | Some s \<Rightarrow> s), ad_file = ''''\<rparr>)
             }
           else Some None
     }"

definition define_of_node :: "node_get \<Rightarrow> node_str \<Rightarrow> (yaml \<Rightarrow> nat \<Rightarrow> yaml) \<Rightarrow> yaml \<Rightarrow> LogDefine option" where
  "define_of_node get as_str key_at n =
     do {
       nm \<leftarrow> get n ''name'';
       nn \<leftarrow> nm;
       name \<leftarrow> as_str nn;
       level \<leftarrow> opt_str get as_str n ''level'';
       fmt \<leftarrow> opt_str get as_str n ''formatter'';
       as \<leftarrow> get n ''appenders'';
       ads \<leftarrow> (case as of
                None \<Rightarrow> Some []
              | Some an \<Rightarrow> sequence_opt (map (\<lambda>x. appender_of_node get as_str (node_at key_at an x)) [0..<node_size an]));
       Some \<lparr>ld_name = name, ld_level = LogLevel_FromString (case level of None \<Rightarrow> '''' | Some s \<Rightarrow> s),
             ld_formatter = (case fmt of None \<Rightarrow> '''' | Some s \<Rightarrow> s), ld_appenders = List.map_filter (\<lambda>x. x) ads\<rparr>
     }"

definition LogDefine_fromString ::
    "(string \<Rightarrow> yaml option) \<Rightarrow> node_get \<Rightarrow> node_str \<Rightarrow> (yaml \<Rightarrow> nat \<Rightarrow> yaml) \<Rightarrow> string \<Rightarrow> LogDefine option" where
  "LogDefine_fromString yload get as_str key_at v = Option.bind (yload v) (define_of_node get as_str key_at)"

text \<open>Printing a definition.\<close>

definition appender_define_node :: "LogAppenderDefine \<Rightarrow> yaml" where
  "appender_define_node a =
     (let kvs = (case ad_type a of
                   FILEAPPENDER \<Rightarrow> [(''type'', YScalar ''FileLogAppender''), (''file'', YScalar (ad_file a))]
                 | STDCOUTAPPENDER \<Rightarrow> [(''type'', YScalar ''StdoutLogAppender'')]
                 | UNKNOWN_TYPE \<Rightarrow> [])
               @ level_entry (ad_level a)
               @ (if ad_formatter a \<noteq> '''' then [(''formatter'', YScalar (ad_formatter a))] else [])
      in if kvs = [] then YNull else YMap kvs)"

definition define_node :: "LogDefine \<Rightarrow> yaml" where
  "define_node d =
     YMap ([(''name'', YScalar (ld_name d))] @ level_entry (ld_level d)
       @ (if ld_formatter d \<noteq> '''' then [(''formatter'', YScalar (ld_formatter d))] else [])
       @ (if ld_appenders d \<noteq> [] then [(''appenders'', YSequence (map appender_define_node (ld_appenders d)))] else []))"

definition LogDefine_toString :: "(yaml \<Rightarrow> string) \<Rightarrow> LogDefine \<Rightarrow> string" where
  "LogDefine_toString emit d = emit (define_node d)"

section \<open>Applying the configuration\<close>

fun type_num :: "AppenderType \<Rightarrow> string" where
  "type_num UNKNOWN_TYPE = ''0''"
| "type_num STDCOUTAPPENDER = ''1''"
| "type_num FILEAPPENDER = ''2''"

definition add_define :: "log_env \<Rightarrow> nat \<Rightarrow> string \<Rightarrow> LogAppenderDefine \<Rightarrow> log_world \<Rightarrow> log_error + log_world" where
  "add_define env l name ad w =
     (if ad_type ad = UNKNOWN_TYPE then Inl NullAppender
      else let (a, w1) = (if ad_type ad = FILEAPPENDER then FileLogAppender_new env (ad_file ad) w else StdoutLogAppender_new w);
               w2 = appender_setLevel (ad_level ad) a w1;
               fmt = LogFormatter_new (ad_formatter ad);
               w3 = (if ad_formatter ad = '''' then w2
                     else if \<not> lf_error fmt then appender_setFormatter (Some fmt) a w2
                     else cout (''log.name='' @ name @ '' appender type='' @ type_num (ad_type ad) @ '' formatter='' @ ad_formatter ad
                            @ '' is invalid'' @ endl) w2)
           in Inr (addAppender a l w3))"

definition resetLoggerAppender :: "log_env \<Rightarrow> nat \<Rightarrow> LogDefine \<Rightarrow> log_world \<Rightarrow> log_error + log_world" where
  "resetLoggerAppender env l d w = foldE (add_define env l (ld_name d)) (ld_appenders d) (clearAppender l w)"

definition find_define :: "LogDefine \<Rightarrow> LogDefine list \<Rightarrow> LogDefine option" where
  "find_define d ds = List.find (\<lambda>o'. \<not> LogDefine_less o' d \<and> \<not> LogDefine_less d o') ds"

definition apply_define :: "log_env \<Rightarrow> LogDefine \<Rightarrow> log_world \<Rightarrow> log_error + log_world" where
  "apply_define env d w =
     (let (l, w1) = getLogger (ld_name d) w;
          w2 = logger_setLevel (ld_level d) l w1;
          w3 = (if ld_formatter d \<noteq> '''' then cout (ld_formatter d @ endl) (logger_setFormatter_str (ld_formatter d) l w2) else w2)
      in resetLoggerAppender env l d w3)"

definition reset_one :: "log_env \<Rightarrow> LogDefine list \<Rightarrow> LogDefine \<Rightarrow> log_world \<Rightarrow> log_error + log_world" where
  "reset_one env oldValue d w =
     (case find_define d oldValue of
        None \<Rightarrow> apply_define env d w
      | Some o' \<Rightarrow> if \<not> LogDefine_eq d o' then apply_define env d w else Inr w)"

definition drop_one :: "LogDefine list \<Rightarrow> LogDefine \<Rightarrow> log_world \<Rightarrow> log_world" where
  "drop_one newValue d w =
     (if find_define d newValue = None
      then let (l, w1) = getLogger (ld_name d) w in clearAppender l (logger_setLevel UNKNOWN l w1)
      else w)"

text \<open>The listener of the configuration variable; \<open>ev\<close> is the event of its own message to the root logger.\<close>

definition resetLogger :: "log_env \<Rightarrow> LogEvent \<Rightarrow> LogDefine list \<Rightarrow> LogDefine list \<Rightarrow> log_world \<Rightarrow> (log_error + log_world) option" where
  "resetLogger env ev oldValue newValue w =
     map_option
       (\<lambda>r. bindE r (\<lambda>w1. bindE (foldE (reset_one env oldValue) newValue w1) (\<lambda>w2. Inr (fold (drop_one newValue) oldValue w2))))
       (SYLAR_LOG_LEVEL env (ev\<lparr>e_logger := lw_root w, e_level := INFO, e_ss := ''on_logger_conf_changed''\<rparr>) w)"

section \<open>The invariant\<close>

definition ready :: "log_world \<Rightarrow> nat \<Rightarrow> bool" where
  "ready w a \<longleftrightarrow> a < length (lw_appenders w) \<and> ap_formatter (lw_appenders w ! a) \<noteq> None"

definition flag_ok :: "appender \<Rightarrow> bool" where
  "flag_ok x \<longleftrightarrow> ap_hasFormatter x = (ap_formatter x \<noteq> None)"

definition logger_ok :: "log_world \<Rightarrow> logger \<Rightarrow> bool" where
  "logger_ok w g \<longleftrightarrow> lg_formatter g \<noteq> None \<and> (\<forall>a \<in> set (lg_appenders g). ready w a) \<and> (\<forall>r. lg_root g = Some r \<longrightarrow> r = lw_root w)"

definition named_ok :: "log_world \<Rightarrow> bool" where
  "named_ok w \<longleftrightarrow> sorted_wrt string_less (map fst (lw_named w))
     \<and> (\<forall>(k, l) \<in> set (lw_named w). l < length (lw_loggers w) \<and> lg_name (lw_loggers w ! l) = k)"

text \<open>Every appender in use has a formatter, every logger has one, root pointers lead to the root logger, which has none, and names lead to
  loggers of that name.\<close>

definition log_inv :: "log_world \<Rightarrow> bool" where
  "log_inv w \<longleftrightarrow> (\<forall>x \<in> set (lw_appenders w). flag_ok x) \<and> (\<forall>g \<in> set (lw_loggers w). logger_ok w g)
     \<and> lw_root w < length (lw_loggers w) \<and> lg_root (lw_loggers w ! lw_root w) = None \<and> named_ok w"

lemma set_update_cases: "x \<in> set (xs[i := y]) \<Longrightarrow> x \<in> set xs \<or> (i < length xs \<and> x = y)"
  using set_update_subset_insert [of xs i y] by (cases "i < length xs") (auto simp: not_less list_update_beyond)

lemma nth_upd: "xs[i := y] ! j = (if i = j \<and> i < length xs then y else xs ! j)"
  by (cases "i < length xs") (auto simp: not_less list_update_beyond)

lemma ready_upd_appender:
  assumes "ready w b" "\<And>x. ap_formatter x \<noteq> None \<Longrightarrow> ap_formatter (f x) \<noteq> None"
  shows "ready (upd_appender a f w) b"
  using assms(1) assms(2) [of "lw_appenders w ! b"] by (simp add: ready_def upd_appender_def nth_upd)

lemma log_inv_upd_appender:
  assumes "log_inv w" "\<And>x. flag_ok x \<Longrightarrow> flag_ok (f x)" "\<And>x. ap_formatter x \<noteq> None \<Longrightarrow> ap_formatter (f x) \<noteq> None"
  shows "log_inv (upd_appender a f w)"
proof -
  have same: "lw_loggers (upd_appender a f w) = lw_loggers w" "lw_root (upd_appender a f w) = lw_root w" "lw_named (upd_appender a f w) = lw_named w"
    by (simp_all add: upd_appender_def)
  have "\<forall>x \<in> set (lw_appenders (upd_appender a f w)). flag_ok x"
    using assms(1, 2) nth_mem [of a "lw_appenders w"] by (auto simp: upd_appender_def log_inv_def dest!: set_update_cases)
  moreover have "logger_ok (upd_appender a f w) g" if "g \<in> set (lw_loggers w)" for g
    using assms(1) that ready_upd_appender [OF _ assms(3)] same by (auto simp: log_inv_def logger_ok_def)
  ultimately show ?thesis using assms(1) same by (simp add: log_inv_def named_ok_def)
qed

lemma log_inv_upd_logger:
  assumes "log_inv w" "\<And>g. g \<in> set (lw_loggers w) \<Longrightarrow> logger_ok w g \<Longrightarrow> logger_ok w (f g)" "\<And>g. lg_name (f g) = lg_name g" "\<And>g. lg_root (f g) = lg_root g"
  shows "log_inv (upd_logger l f w)"
proof -
  let ?w = "upd_logger l f w"
  have same: "lw_appenders ?w = lw_appenders w" "lw_root ?w = lw_root w" "lw_named ?w = lw_named w" "length (lw_loggers ?w) = length (lw_loggers w)"
    by (simp_all add: upd_logger_def)
  have ok: "logger_ok ?w = logger_ok w" by (simp add: logger_ok_def ready_def same fun_eq_iff)
  have nth: "lg_name (lw_loggers ?w ! i) = lg_name (lw_loggers w ! i)" "lg_root (lw_loggers ?w ! i) = lg_root (lw_loggers w ! i)"
    if "i < length (lw_loggers w)" for i
    using assms(3, 4) by (simp_all add: upd_logger_def nth_upd)
  have "logger_ok w g" if "g \<in> set (lw_loggers ?w)" for g
    using set_update_cases [OF that [unfolded upd_logger_def, simplified]] assms(1, 2) nth_mem [of l "lw_loggers w"] by (auto simp: log_inv_def)
  moreover have "named_ok ?w" using assms(1) nth by (fastforce simp: log_inv_def named_ok_def same)
  ultimately show ?thesis using assms(1) nth ok by (simp add: log_inv_def same)
qed

lemma log_inv_frame:
  assumes "log_inv w" "lw_loggers w' = lw_loggers w" "lw_appenders w' = lw_appenders w" "lw_root w' = lw_root w" "lw_named w' = lw_named w"
  shows "log_inv w'"
  using assms by (simp add: log_inv_def logger_ok_def ready_def named_ok_def)

lemma log_inv_cout: "log_inv w \<Longrightarrow> log_inv (cout s w)"
  by (erule log_inv_frame) (simp_all add: cout_def)

lemma log_inv_new_appender:
  assumes "log_inv w" "flag_ok x" shows "log_inv (w\<lparr>lw_appenders := lw_appenders w @ [x]\<rparr>)"
proof -
  have "ready (w\<lparr>lw_appenders := lw_appenders w @ [x]\<rparr>) a" if "ready w a" for a using that by (auto simp: ready_def nth_append)
  then show ?thesis using assms by (auto simp: log_inv_def logger_ok_def named_ok_def)
qed

lemma log_inv_levels:
  "log_inv w \<Longrightarrow> log_inv (appender_setLevel v a w)" "log_inv w \<Longrightarrow> log_inv (logger_setLevel v a w)"
  "log_inv w \<Longrightarrow> log_inv (appender_setFormatter (Some f) a w)" "log_inv w \<Longrightarrow> log_inv (clearAppender l w)"
  unfolding appender_setLevel_def logger_setLevel_def appender_setFormatter_def clearAppender_def
  by (auto intro!: log_inv_upd_appender log_inv_upd_logger simp: flag_ok_def logger_ok_def)

lemma log_inv_delAppender: "log_inv w \<Longrightarrow> log_inv (delAppender a l w)"
  unfolding delAppender_def
proof (erule log_inv_upd_logger)
  fix g
  assume "logger_ok w g"
  then show "logger_ok w (g\<lparr>lg_appenders := remove1 a (lg_appenders g)\<rparr>)" using set_remove1_subset [of a "lg_appenders g"] by (auto simp: logger_ok_def)
qed simp_all

lemma log_inv_fold_setFormatter: "log_inv w \<Longrightarrow> log_inv (fold (appender_setFormatter (Some f)) as w)"
  by (induction as arbitrary: w) (simp_all add: log_inv_levels)

lemma log_inv_setFormatter: "log_inv w \<Longrightarrow> log_inv (logger_setFormatter (Some f) l w)"
  unfolding logger_setFormatter_def
  by (intro log_inv_fold_setFormatter log_inv_upd_logger) (auto simp: logger_ok_def)

lemma log_inv_setFormatter_str: "log_inv w \<Longrightarrow> log_inv (logger_setFormatter_str s l w)"
  by (simp add: logger_setFormatter_str_def Let_def log_inv_cout log_inv_setFormatter)

lemma log_inv_new:
  assumes "log_inv w" shows "log_inv (snd (StdoutLogAppender_new w))" "log_inv (snd (FileLogAppender_new env f w))"
  using assms unfolding StdoutLogAppender_new_def FileLogAppender_new_def reopen_def Let_def snd_conv
  by (auto intro!: log_inv_new_appender log_inv_upd_appender simp: flag_ok_def)

lemma log_inv_addAppender:
  assumes "log_inv w" "a < length (lw_appenders w)" "l < length (lw_loggers w)"
  shows "log_inv (addAppender a l w)"
proof -
  let ?w = "if hasFormatter a w then w else appender_setFormatter (lg_formatter (lw_loggers w ! l)) a w"
  have "logger_ok w (lw_loggers w ! l)" using assms(1, 3) by (simp add: log_inv_def)
  then obtain f where f: "lg_formatter (lw_loggers w ! l) = Some f" by (auto simp: logger_ok_def)
  then have inv: "log_inv ?w" using assms(1) by (simp add: log_inv_levels)
  have "flag_ok (lw_appenders w ! a)" using assms(1, 2) by (simp add: log_inv_def)
  then have "ready ?w a" using assms(2) f by (auto simp: ready_def hasFormatter_def flag_ok_def appender_setFormatter_def upd_appender_def)
  then show ?thesis unfolding addAppender_def Let_def using inv by (intro log_inv_upd_logger) (auto simp: logger_ok_def)
qed

lemma log_inv_getLogger:
  assumes "log_inv w" shows "log_inv (snd (getLogger name w))" "fst (getLogger name w) < length (lw_loggers (snd (getLogger name w)))"
proof -
  have s: "sorted_wrt string_less (map fst (lw_named w))" using assms by (simp add: log_inv_def named_ok_def)
  have "log_inv (snd (getLogger name w)) \<and> fst (getLogger name w) < length (lw_loggers (snd (getLogger name w)))"
  proof (cases "cmap_find string_less name (lw_named w)")
    case None
    let ?g = "\<lparr>lg_name = name, lg_level = ERROR, lg_appenders = [], lg_formatter = Some (LogFormatter_new default_pattern), lg_root = Some (lw_root w)\<rparr>"
    have eq: "getLogger name w = (length (lw_loggers w), w\<lparr>lw_loggers := lw_loggers w @ [?g], lw_named := cmap_assign string_less name (length (lw_loggers w)) (lw_named w)\<rparr>)"
      using None by (simp add: getLogger_def Logger_new_def setRoot_def upd_logger_def)
    have "named_ok (snd (getLogger name w))"
      using assms set_assign [of name "length (lw_loggers w)" "lw_named w"] names.keys_ordered_assign [OF s, of name "length (lw_loggers w)"]
      unfolding eq by (fastforce simp: log_inv_def named_ok_def nth_append)
    then show ?thesis using assms unfolding eq by (auto simp: log_inv_def logger_ok_def ready_def nth_append)
  next
    case (Some l)
    then have "(name, l) \<in> set (lw_named w)" using find_in_set [OF Some s] by simp
    then show ?thesis using assms Some by (auto simp: getLogger_def log_inv_def named_ok_def)
  qed
  then show "log_inv (snd (getLogger name w))" "fst (getLogger name w) < length (lw_loggers (snd (getLogger name w)))" by simp_all
qed

section \<open>Delivery\<close>

text \<open>What one appender adds to standard output and to a file, read off the world before the call.\<close>

definition stream_good :: "log_env \<Rightarrow> LogEvent \<Rightarrow> appender \<Rightarrow> bool" where
  "stream_good env e x =
     (case ap_class x of
        StdoutLogAppender \<Rightarrow> True
      | FileLogAppender n \<Rightarrow> if ap_lastTime x + 3 \<le> e_time e then le_open env n else ap_good x)"

definition stdout_part :: "log_env \<Rightarrow> Level \<Rightarrow> LogEvent \<Rightarrow> log_world \<Rightarrow> nat \<Rightarrow> string" where
  "stdout_part env level e w a =
     (let x = lw_appenders w ! a in
      if level < ap_level x then ''''
      else if ap_class x = StdoutLogAppender then event_text env level e (the (ap_formatter x)) w
      else if stream_good env e x then '''' else ''error'' @ endl)"

definition file_part :: "log_env \<Rightarrow> Level \<Rightarrow> LogEvent \<Rightarrow> log_world \<Rightarrow> string \<Rightarrow> nat \<Rightarrow> string" where
  "file_part env level e w n a =
     (let x = lw_appenders w ! a in
      if ap_level x \<le> level \<and> ap_class x = FileLogAppender n \<and> stream_good env e x
      then event_text env level e (the (ap_formatter x)) w else '''')"

definition same_sinks :: "log_env \<Rightarrow> LogEvent \<Rightarrow> log_world \<Rightarrow> log_world \<Rightarrow> bool" where
  "same_sinks env e w w' \<longleftrightarrow> lw_loggers w' = lw_loggers w \<and> lw_root w' = lw_root w \<and> lw_named w' = lw_named w
     \<and> length (lw_appenders w') = length (lw_appenders w)
     \<and> (\<forall>i < length (lw_appenders w). let x = lw_appenders w ! i; y = lw_appenders w' ! i in
          ap_class y = ap_class x \<and> ap_level y = ap_level x \<and> ap_formatter y = ap_formatter x \<and> ap_hasFormatter y = ap_hasFormatter x
          \<and> stream_good env e y = stream_good env e x)"

lemma same_sinks_trans: "same_sinks env e w w1 \<Longrightarrow> same_sinks env e w1 w2 \<Longrightarrow> same_sinks env e w w2"
  by (simp add: same_sinks_def Let_def)

lemma same_sinks_parts:
  assumes "same_sinks env e w w'" "ready w a"
  shows "ready w' a" "stdout_part env level e w' a = stdout_part env level e w a" "file_part env level e w' n a = file_part env level e w n a"
  using assms by (simp_all add: same_sinks_def ready_def stdout_part_def file_part_def event_text_def Let_def)

lemma same_sinks_inv: "same_sinks env e w w' \<Longrightarrow> log_inv w \<Longrightarrow> log_inv w'"
  by (simp add: log_inv_def same_sinks_def logger_ok_def ready_def flag_ok_def named_ok_def all_set_conv_all_nth [of "lw_appenders _"] Let_def)

lemma appender_log_spec:
  assumes "ready w a"
  shows "\<exists>w'. appender_log env level e a w = Inr w' \<and> same_sinks env e w w'
    \<and> lw_stdout w' = lw_stdout w @ stdout_part env level e w a \<and> (\<forall>n. lw_files w' n = lw_files w n @ file_part env level e w n a)"
proof -
  obtain f where f: "ap_formatter (lw_appenders w ! a) = Some f" and a: "a < length (lw_appenders w)" using assms by (auto simp: ready_def)
  show ?thesis
  proof (cases "ap_class (lw_appenders w ! a)")
    case StdoutLogAppender
    then show ?thesis using f
      by (auto simp: appender_log_def StdoutLogAppender_log_def stdout_part_def file_part_def cout_def same_sinks_def Let_def)
  next
    case (FileLogAppender n)
    let ?x = "lw_appenders w ! a"
    define w1 where "w1 = (if ap_lastTime ?x + 3 \<le> e_time e
      then upd_appender a (\<lambda>x. x\<lparr>ap_lastTime := e_time e\<rparr>) (snd (reopen env n a w)) else w)"
    have same: "same_sinks env e w w1"
    proof (cases "ap_lastTime ?x + 3 \<le> e_time e")
      case True
      let ?y = "?x\<lparr>ap_good := le_open env n, ap_lastTime := e_time e\<rparr>"
      have "lw_appenders w1 = (lw_appenders w)[a := ?y]" "lw_loggers w1 = lw_loggers w" "lw_root w1 = lw_root w" "lw_named w1 = lw_named w"
        using True a by (simp_all add: w1_def reopen_def upd_appender_def)
      moreover have "stream_good env e ?y = stream_good env e ?x" using True FileLogAppender by (simp add: stream_good_def)
      ultimately show ?thesis by (simp add: same_sinks_def nth_upd Let_def)
    next
      case False
      then show ?thesis by (simp add: w1_def same_sinks_def)
    qed
    have here: "ap_good (lw_appenders w1 ! a) = stream_good env e ?x" "ap_formatter (lw_appenders w1 ! a) = Some f"
      "lw_stdout w1 = lw_stdout w" "lw_files w1 = lw_files w"
      using FileLogAppender f a by (simp_all add: w1_def stream_good_def reopen_def upd_appender_def nth_upd)
    have txt_eq: "event_text env level e f w1 = event_text env level e f w" using same by (simp add: event_text_def same_sinks_def)
    have log: "appender_log env level e a w = (if ap_level ?x \<le> level then
        if stream_good env e ?x then Inr (w1\<lparr>lw_files := (lw_files w1)(n := lw_files w1 n @ event_text env level e f w)\<rparr>)
        else Inr (cout (''error'' @ endl) w1) else Inr w)"
      using FileLogAppender here txt_eq by (simp add: appender_log_def FileLogAppender_log_def w1_def [symmetric] Let_def)
    have out: "same_sinks env e w (w1\<lparr>lw_files := g\<rparr>)" "same_sinks env e w (cout s w1)" "same_sinks env e w w" for g s
      using same by (simp_all add: same_sinks_def cout_def Let_def)
    show ?thesis
    proof (cases "ap_level ?x \<le> level")
      case True
      then show ?thesis using log here out FileLogAppender f by (auto simp: stdout_part_def file_part_def cout_def Let_def)
    next
      case False
      then show ?thesis using log out FileLogAppender by (auto simp: stdout_part_def file_part_def Let_def)
    qed
  qed
qed

lemma log_all_spec:
  assumes "\<forall>a \<in> set as. ready w a"
  shows "\<exists>w'. log_all env level e as w = Inr w' \<and> same_sinks env e w w'
    \<and> lw_stdout w' = lw_stdout w @ concat (map (stdout_part env level e w) as)
    \<and> (\<forall>n. lw_files w' n = lw_files w n @ concat (map (file_part env level e w n) as))"
  using assms
proof (induction as arbitrary: w)
  case Nil
  then show ?case by (simp add: same_sinks_def)
next
  case (Cons a as)
  obtain w1 where w1: "appender_log env level e a w = Inr w1" "same_sinks env e w w1"
    "lw_stdout w1 = lw_stdout w @ stdout_part env level e w a" "\<forall>n. lw_files w1 n = lw_files w n @ file_part env level e w n a"
    using appender_log_spec [of w a env level e] Cons.prems by auto
  have r: "\<forall>b \<in> set as. ready w1 b" using same_sinks_parts(1) [OF w1(2)] Cons.prems by simp
  obtain w2 where w2: "log_all env level e as w1 = Inr w2" "same_sinks env e w1 w2"
    "lw_stdout w2 = lw_stdout w1 @ concat (map (stdout_part env level e w1) as)"
    "\<forall>n. lw_files w2 n = lw_files w1 n @ concat (map (file_part env level e w1 n) as)"
    using Cons.IH [OF r] by blast
  have "map (stdout_part env level e w1) as = map (stdout_part env level e w) as"
    "\<And>n. map (file_part env level e w1 n) as = map (file_part env level e w n) as"
    using same_sinks_parts(2, 3) [OF w1(2)] Cons.prems by simp_all
  then show ?case using w1 w2 same_sinks_trans [OF w1(2) w2(2)] by (simp del: map_eq_conv)
qed

text \<open>The appenders that an event reaches through a logger, and the complaint when there is none.\<close>

definition targets :: "Level \<Rightarrow> nat \<Rightarrow> log_world \<Rightarrow> nat list" where
  "targets level l w =
     (let g = lw_loggers w ! l in
      if level < lg_level g then []
      else if lg_appenders g \<noteq> [] then lg_appenders g
      else case lg_root g of
             None \<Rightarrow> []
           | Some r \<Rightarrow> if level < lg_level (lw_loggers w ! r) then [] else lg_appenders (lw_loggers w ! r))"

definition complaint :: "Level \<Rightarrow> nat \<Rightarrow> log_world \<Rightarrow> string" where
  "complaint level l w =
     (let g = lw_loggers w ! l; h = (case lg_root g of None \<Rightarrow> g | Some r \<Rightarrow> lw_loggers w ! r) in
      if level < lg_level g \<or> level < lg_level h \<or> lg_appenders g \<noteq> [] \<or> lg_appenders h \<noteq> [] then ''''
      else ''There is not any appender in logger:'' @ lg_name h @ endl)"

lemma Logger_log_leaf:
  assumes "\<forall>a \<in> set (lg_appenders (lw_loggers w ! l)). ready w a" "lg_root (lw_loggers w ! l) = None"
  shows "\<exists>w'. Logger_log env level e l w = Some (Inr w') \<and> same_sinks env e w w'
    \<and> lw_stdout w' = lw_stdout w @ concat (map (stdout_part env level e w) (targets level l w)) @ complaint level l w
    \<and> (\<forall>n. lw_files w' n = lw_files w n @ concat (map (file_part env level e w n) (targets level l w)))"
proof (cases "level < lg_level (lw_loggers w ! l) \<or> lg_appenders (lw_loggers w ! l) = []")
  case True
  then show ?thesis using assms(2)
    by (subst Logger_log.simps) (auto simp: same_sinks_def targets_def complaint_def cout_def Let_def)
next
  case False
  then have "targets level l w = lg_appenders (lw_loggers w ! l)" "complaint level l w = ''''"
    "Logger_log env level e l w = Some (log_all env level e (lg_appenders (lw_loggers w ! l)) w)"
    by (auto simp: targets_def complaint_def Logger_log.simps [of _ _ _ l] Let_def)
  then show ?thesis using log_all_spec [OF assms(1), of env level e] by simp
qed

lemma Logger_log_spec:
  assumes "log_inv w" "l < length (lw_loggers w)"
  shows "\<exists>w'. Logger_log env level e l w = Some (Inr w') \<and> same_sinks env e w w'
    \<and> lw_stdout w' = lw_stdout w @ concat (map (stdout_part env level e w) (targets level l w)) @ complaint level l w
    \<and> (\<forall>n. lw_files w' n = lw_files w n @ concat (map (file_part env level e w n) (targets level l w)))"
proof -
  let ?g = "lw_loggers w ! l"
  have ok: "logger_ok w ?g" "logger_ok w (lw_loggers w ! lw_root w)" "lg_root (lw_loggers w ! lw_root w) = None"
    using assms by (simp_all add: log_inv_def)
  show ?thesis
  proof (cases "lg_root ?g")
    case None
    then show ?thesis using Logger_log_leaf [of w l] ok by (simp add: logger_ok_def)
  next
    case (Some r)
    then have r: "r = lw_root w" using ok(1) by (simp add: logger_ok_def)
    show ?thesis
    proof (cases "level < lg_level ?g \<or> lg_appenders ?g \<noteq> []")
      case True
      then have "targets level l w = (if level < lg_level ?g then [] else lg_appenders ?g)" "complaint level l w = ''''"
        "Logger_log env level e l w = Some (log_all env level e (if level < lg_level ?g then [] else lg_appenders ?g) w)"
        by (auto simp: targets_def complaint_def Logger_log.simps [of _ _ _ l] Let_def)
      then show ?thesis using log_all_spec [of "if level < lg_level ?g then [] else lg_appenders ?g" w env level e] ok(1)
        by (simp add: logger_ok_def)
    next
      case False
      then have "Logger_log env level e l w = Logger_log env level e r w" "targets level l w = targets level r w" "complaint level l w = complaint level r w"
        using Some r ok(3) by (auto simp: targets_def complaint_def Logger_log.simps [of _ _ _ l] Let_def)
      then show ?thesis using Logger_log_leaf [of w r] ok(2, 3) r by (simp add: logger_ok_def)
    qed
  qed
qed

section \<open>The configured loggers\<close>

text \<open>A logger by its name: its level, its appenders by class and level, and its formatter.\<close>

definition sig :: "appender \<Rightarrow> appender_class \<times> Level" where
  "sig x = (ap_class x, ap_level x)"

definition logger_view :: "log_world \<Rightarrow> logger \<Rightarrow> Level \<times> (appender_class \<times> Level) list \<times> LogFormatter option" where
  "logger_view w g = (lg_level g, map (\<lambda>a. sig (lw_appenders w ! a)) (lg_appenders g), lg_formatter g)"

definition view :: "log_world \<Rightarrow> string \<Rightarrow> (Level \<times> (appender_class \<times> Level) list \<times> LogFormatter option) option" where
  "view w name = map_option (\<lambda>l. logger_view w (lw_loggers w ! l)) (cmap_find string_less name (lw_named w))"

fun define_sig :: "LogAppenderDefine \<Rightarrow> appender_class \<times> Level" where
  "define_sig ad = (if ad_type ad = FILEAPPENDER then FileLogAppender (ad_file ad) else StdoutLogAppender, ad_level ad)"

definition configured ::
    "LogDefine \<Rightarrow> (Level \<times> (appender_class \<times> Level) list \<times> LogFormatter option) option \<Rightarrow> Level \<times> (appender_class \<times> Level) list \<times> LogFormatter option" where
  "configured d v =
     (ld_level d, map define_sig (ld_appenders d),
      if ld_formatter d \<noteq> '''' \<and> \<not> lf_error (LogFormatter_new (ld_formatter d)) then Some (LogFormatter_new (ld_formatter d))
      else case v of None \<Rightarrow> Some (LogFormatter_new default_pattern) | Some (_, _, f) \<Rightarrow> f)"

definition define_ok :: "LogDefine \<Rightarrow> bool" where
  "define_ok d \<longleftrightarrow> (\<forall>ad \<in> set (ld_appenders d). ad_type ad \<noteq> UNKNOWN_TYPE)"

text \<open>Changes to one logger only, where other appenders keep their class and level.\<close>

definition only_logger :: "nat \<Rightarrow> log_world \<Rightarrow> log_world \<Rightarrow> bool" where
  "only_logger l w w' \<longleftrightarrow> lw_named w' = lw_named w \<and> length (lw_loggers w') = length (lw_loggers w)
     \<and> (\<forall>i. i \<noteq> l \<longrightarrow> lw_loggers w' ! i = lw_loggers w ! i)
     \<and> (\<exists>new. map sig (lw_appenders w') = map sig (lw_appenders w) @ new)"

lemma only_logger_refl [simp]: "only_logger l w w"
  by (simp add: only_logger_def)

lemma only_logger_trans: "only_logger l w w1 \<Longrightarrow> only_logger l w1 w2 \<Longrightarrow> only_logger l w w2"
  by (auto simp: only_logger_def)

lemma only_logger_sig: "only_logger l w w' \<Longrightarrow> a < length (lw_appenders w) \<Longrightarrow> sig (lw_appenders w' ! a) = sig (lw_appenders w ! a)"
proof -
  assume "only_logger l w w'" and a: "a < length (lw_appenders w)"
  then obtain new where "map sig (lw_appenders w') = map sig (lw_appenders w) @ new" by (auto simp: only_logger_def)
  then have "length (lw_appenders w') = length (lw_appenders w) + length new" "map sig (lw_appenders w') ! a = (map sig (lw_appenders w) @ new) ! a"
    by (metis length_append length_map, simp)
  then show ?thesis using a by (simp add: nth_append)
qed

lemma only_logger_steps:
  "only_logger l w (upd_logger l f w)" "only_logger l w (cout s w)" "only_logger l w (appender_setFormatter v a w)"
  by (auto simp: only_logger_def upd_logger_def cout_def appender_setFormatter_def upd_appender_def nth_upd sig_def map_update list_update_id
      intro!: nth_equalityI)

lemma only_logger_fold: "only_logger l w (fold (appender_setFormatter v) as w)"
proof (induction as arbitrary: w)
  case (Cons a as)
  show ?case using only_logger_trans [OF only_logger_steps(3) Cons.IH] by simp
qed (simp add: only_logger_def)

lemma only_logger_view:
  assumes "only_logger l w w'" "\<forall>a \<in> set (lg_appenders (lw_loggers w ! i)). a < length (lw_appenders w)" "i \<noteq> l"
  shows "logger_view w' (lw_loggers w' ! i) = logger_view w (lw_loggers w ! i)"
  using assms only_logger_sig [OF assms(1)] by (auto simp: logger_view_def only_logger_def)

lemma add_define_spec:
  assumes "log_inv w" "l < length (lw_loggers w)" "ad_type ad \<noteq> UNKNOWN_TYPE"
  shows "\<exists>w' f x. add_define env l name ad w = Inr w' \<and> log_inv w'
    \<and> lw_loggers w' = (lw_loggers w)[l := (lw_loggers w ! l)\<lparr>lg_appenders := lg_appenders (lw_loggers w ! l) @ [length (lw_appenders w)]\<rparr>]
    \<and> map sig (lw_appenders w') = map sig (lw_appenders w) @ [define_sig ad] \<and> lw_named w' = lw_named w"
proof -
  let ?a = "length (lw_appenders w)" and ?fmt = "LogFormatter_new (ad_formatter ad)"
  define w1 where "w1 = snd (if ad_type ad = FILEAPPENDER then FileLogAppender_new env (ad_file ad) w else StdoutLogAppender_new w)"
  define w2 where "w2 = appender_setLevel (ad_level ad) ?a w1"
  define w3 where "w3 = (if ad_formatter ad = '''' then w2 else if \<not> lf_error ?fmt then appender_setFormatter (Some ?fmt) ?a w2
    else cout (''log.name='' @ name @ '' appender type='' @ type_num (ad_type ad) @ '' formatter='' @ ad_formatter ad @ '' is invalid'' @ endl) w2)"
  have eq: "add_define env l name ad w = Inr (addAppender ?a l w3)"
    using assms(3) by (simp add: add_define_def w1_def w2_def w3_def FileLogAppender_new_def StdoutLogAppender_new_def Let_def)
  have w1: "log_inv w1" "lw_loggers w1 = lw_loggers w" "lw_named w1 = lw_named w"
    "\<exists>x. lw_appenders w1 = lw_appenders w @ [x] \<and> ap_class x = fst (define_sig ad)"
    using log_inv_new [OF assms(1)] by (auto simp: w1_def FileLogAppender_new_def StdoutLogAppender_new_def reopen_def upd_appender_def Let_def)
  have w2: "log_inv w2" "lw_loggers w2 = lw_loggers w" "lw_named w2 = lw_named w"
    "\<exists>x. lw_appenders w2 = lw_appenders w @ [x] \<and> sig x = define_sig ad"
    using w1 log_inv_levels(1) [OF w1(1)] by (auto simp: w2_def appender_setLevel_def upd_appender_def sig_def)
  have w3: "log_inv w3" "lw_loggers w3 = lw_loggers w" "lw_named w3 = lw_named w"
    "\<exists>x. lw_appenders w3 = lw_appenders w @ [x] \<and> sig x = define_sig ad"
    using w2 log_inv_levels(3) [OF w2(1)] log_inv_cout [OF w2(1)]
    by (auto simp: w3_def appender_setFormatter_def upd_appender_def sig_def cout_def)
  have inv: "log_inv (addAppender ?a l w3)" by (rule log_inv_addAppender) (use w3 assms(2) in auto)
  have "map sig (lw_appenders (addAppender ?a l w3)) = map sig (lw_appenders w) @ [define_sig ad]"
    using w3(4) by (auto simp: addAppender_def appender_setFormatter_def upd_appender_def upd_logger_def sig_def Let_def)
  moreover have "lw_loggers (addAppender ?a l w3) = (lw_loggers w)[l := (lw_loggers w ! l)\<lparr>lg_appenders := lg_appenders (lw_loggers w ! l) @ [?a]\<rparr>]"
    "lw_named (addAppender ?a l w3) = lw_named w"
    using w3 by (simp_all add: addAppender_def appender_setFormatter_def upd_appender_def upd_logger_def Let_def)
  ultimately show ?thesis using eq inv by blast
qed

lemma add_defines_spec:
  assumes "log_inv w" "l < length (lw_loggers w)" "\<forall>ad \<in> set ads. ad_type ad \<noteq> UNKNOWN_TYPE"
  shows "\<exists>w'. foldE (add_define env l name) ads w = Inr w' \<and> log_inv w' \<and> only_logger l w w'
    \<and> lg_level (lw_loggers w' ! l) = lg_level (lw_loggers w ! l) \<and> lg_formatter (lw_loggers w' ! l) = lg_formatter (lw_loggers w ! l)
    \<and> map (\<lambda>a. sig (lw_appenders w' ! a)) (lg_appenders (lw_loggers w' ! l)) = map (\<lambda>a. sig (lw_appenders w ! a)) (lg_appenders (lw_loggers w ! l)) @ map define_sig ads"
  using assms
proof (induction ads arbitrary: w)
  case Nil
  then show ?case by (simp add: only_logger_def)
next
  case (Cons ad ads)
  let ?g = "lw_loggers w ! l"
  obtain w1 where w1: "add_define env l name ad w = Inr w1" "log_inv w1"
    "lw_loggers w1 = (lw_loggers w)[l := ?g\<lparr>lg_appenders := lg_appenders ?g @ [length (lw_appenders w)]\<rparr>]"
    "map sig (lw_appenders w1) = map sig (lw_appenders w) @ [define_sig ad]" "lw_named w1 = lw_named w"
    using add_define_spec [OF Cons.prems(1, 2), of ad env name] Cons.prems(3) by auto
  have only: "only_logger l w w1" using w1 by (simp add: only_logger_def nth_upd)
  obtain w2 where w2: "foldE (add_define env l name) ads w1 = Inr w2" "log_inv w2" "only_logger l w1 w2"
    "lg_level (lw_loggers w2 ! l) = lg_level (lw_loggers w1 ! l)" "lg_formatter (lw_loggers w2 ! l) = lg_formatter (lw_loggers w1 ! l)"
    "map (\<lambda>a. sig (lw_appenders w2 ! a)) (lg_appenders (lw_loggers w2 ! l)) = map (\<lambda>a. sig (lw_appenders w1 ! a)) (lg_appenders (lw_loggers w1 ! l)) @ map define_sig ads"
    using Cons.IH [OF w1(2)] Cons.prems w1(3) by auto
  have len: "length (lw_appenders w1) = Suc (length (lw_appenders w))" using arg_cong [OF w1(4), of length] by simp
  have "map sig (lw_appenders w1) ! length (lw_appenders w) = define_sig ad" using w1(4) by (simp add: nth_append)
  then have "sig (lw_appenders w1 ! length (lw_appenders w)) = define_sig ad" using len by simp
  moreover have "\<forall>a \<in> set (lg_appenders ?g). a < length (lw_appenders w)"
    using Cons.prems(1, 2) nth_mem [of l "lw_loggers w"] by (auto simp: log_inv_def logger_ok_def ready_def)
  then have "map (\<lambda>a. sig (lw_appenders w1 ! a)) (lg_appenders ?g) = map (\<lambda>a. sig (lw_appenders w ! a)) (lg_appenders ?g)"
    using only_logger_sig [OF only] by simp
  ultimately show ?case using w1 w2 Cons.prems(2) only_logger_trans [OF only w2(3)] by simp
qed

lemma view_named:
  assumes "log_inv w" "cmap_find string_less name (lw_named w) = Some l"
  shows "l < length (lw_loggers w)" "lg_name (lw_loggers w ! l) = name"
proof -
  have "(name, l) \<in> set (lw_named w)" using find_in_set [OF assms(2)] assms(1) by (simp add: log_inv_def named_ok_def)
  then show "l < length (lw_loggers w)" "lg_name (lw_loggers w ! l) = name" using assms(1) by (auto simp: log_inv_def named_ok_def)
qed

lemma logger_appenders_bound:
  assumes "log_inv w" "l < length (lw_loggers w)" shows "\<forall>a \<in> set (lg_appenders (lw_loggers w ! l)). a < length (lw_appenders w)"
  using assms nth_mem [of l "lw_loggers w"] by (auto simp: log_inv_def logger_ok_def ready_def)

lemma view_other:
  assumes "log_inv w" "only_logger l w w'" "cmap_find string_less name (lw_named w) = Some l" "n \<noteq> name"
  shows "view w' n = view w n"
proof (cases "cmap_find string_less n (lw_named w)")
  case (Some i)
  have "i \<noteq> l" using view_named(2) [OF assms(1)] Some assms(3, 4) by metis
  then show ?thesis
    using only_logger_view [OF assms(2) logger_appenders_bound [OF assms(1) view_named(1) [OF assms(1) Some]]] Some assms(2)
    by (simp add: view_def only_logger_def)
qed (use assms(2) in \<open>simp add: view_def only_logger_def\<close>)

lemma getLogger_view:
  assumes "log_inv w"
  shows "cmap_find string_less name (lw_named (snd (getLogger name w))) = Some (fst (getLogger name w))"
    "n \<noteq> name \<Longrightarrow> view (snd (getLogger name w)) n = view w n"
    "view (snd (getLogger name w)) name = Some (case view w name of None \<Rightarrow> (ERROR, [], Some (LogFormatter_new default_pattern)) | Some v \<Rightarrow> v)"
proof -
  have s: "sorted_wrt string_less (map fst (lw_named w))" using assms by (simp add: log_inv_def named_ok_def)
  have find: "cmap_find string_less k (cmap_assign string_less name l (lw_named w)) = (if k = name then Some l else cmap_find string_less k (lw_named w))" for k l
    using names.find_assign [OF s, of k name l] by simp
  let ?P = "cmap_find string_less name (lw_named (snd (getLogger name w))) = Some (fst (getLogger name w))
    \<and> (n \<noteq> name \<longrightarrow> view (snd (getLogger name w)) n = view w n)
    \<and> view (snd (getLogger name w)) name = Some (case view w name of None \<Rightarrow> (ERROR, [], Some (LogFormatter_new default_pattern)) | Some v \<Rightarrow> v)"
  have ?P
  proof (cases "cmap_find string_less name (lw_named w)")
    case None
    let ?g = "\<lparr>lg_name = name, lg_level = ERROR, lg_appenders = [], lg_formatter = Some (LogFormatter_new default_pattern), lg_root = Some (lw_root w)\<rparr>"
    have eq: "getLogger name w = (length (lw_loggers w), w\<lparr>lw_loggers := lw_loggers w @ [?g], lw_named := cmap_assign string_less name (length (lw_loggers w)) (lw_named w)\<rparr>)"
      using None by (simp add: getLogger_def Logger_new_def setRoot_def upd_logger_def)
    have "view (snd (getLogger name w)) n = view w n" if "n \<noteq> name"
      using view_named(1) [OF assms, of n] that find unfolding eq
      by (cases "cmap_find string_less n (lw_named w)") (auto simp: view_def logger_view_def nth_append)
    then show ?thesis using find None unfolding eq by (simp add: view_def logger_view_def)
  next
    case (Some l)
    then show ?thesis by (simp add: getLogger_def view_def)
  qed
  then show "cmap_find string_less name (lw_named (snd (getLogger name w))) = Some (fst (getLogger name w))"
    "n \<noteq> name \<Longrightarrow> view (snd (getLogger name w)) n = view w n"
    "view (snd (getLogger name w)) name = Some (case view w name of None \<Rightarrow> (ERROR, [], Some (LogFormatter_new default_pattern)) | Some v \<Rightarrow> v)"
    by blast+
qed

lemma setFormatter_str_spec:
  assumes "l < length (lw_loggers w)"
  shows "only_logger l w (logger_setFormatter_str s l w)" "lg_level (lw_loggers (logger_setFormatter_str s l w) ! l) = lg_level (lw_loggers w ! l)"
    "lg_formatter (lw_loggers (logger_setFormatter_str s l w) ! l)
      = (if lf_error (LogFormatter_new s) then lg_formatter (lw_loggers w ! l) else Some (LogFormatter_new s))"
proof -
  have fold: "lw_loggers (fold (appender_setFormatter v) as w) = lw_loggers w" for v as and w
    by (induction as arbitrary: w) (simp_all add: appender_setFormatter_def upd_appender_def)
  have "only_logger l w (logger_setFormatter v l (cout t w))" for t v
    unfolding logger_setFormatter_def by (rule only_logger_trans [OF only_logger_steps(2) only_logger_trans [OF only_logger_steps(1) only_logger_fold]])
  moreover have "only_logger l w (cout u (cout t w))" for t u by (rule only_logger_trans [OF only_logger_steps(2) only_logger_steps(2)])
  ultimately show "only_logger l w (logger_setFormatter_str s l w)"
    by (simp add: logger_setFormatter_str_def Let_def)
  show "lg_level (lw_loggers (logger_setFormatter_str s l w) ! l) = lg_level (lw_loggers w ! l)"
    "lg_formatter (lw_loggers (logger_setFormatter_str s l w) ! l)
      = (if lf_error (LogFormatter_new s) then lg_formatter (lw_loggers w ! l) else Some (LogFormatter_new s))"
    using assms by (simp_all add: logger_setFormatter_str_def logger_setFormatter_def fold cout_def upd_logger_def Let_def)
qed

lemma apply_define_spec:
  assumes "log_inv w" "define_ok d"
  shows "\<exists>w'. apply_define env d w = Inr w' \<and> log_inv w' \<and> view w' (ld_name d) = Some (configured d (view w (ld_name d)))
    \<and> (\<forall>n. n \<noteq> ld_name d \<longrightarrow> view w' n = view w n)"
proof -
  obtain l w1 where g: "getLogger (ld_name d) w = (l, w1)" by fastforce
  have w1: "log_inv w1" "l < length (lw_loggers w1)" "cmap_find string_less (ld_name d) (lw_named w1) = Some l"
    using log_inv_getLogger [OF assms(1), of "ld_name d"] getLogger_view(1) [OF assms(1), of "ld_name d"] g by simp_all
  have v1: "n \<noteq> ld_name d \<Longrightarrow> view w1 n = view w n"
    "view w1 (ld_name d) = Some (case view w (ld_name d) of None \<Rightarrow> (ERROR, [], Some (LogFormatter_new default_pattern)) | Some v \<Rightarrow> v)" for n
    using getLogger_view(2, 3) [OF assms(1), where name = "ld_name d"] g by simp_all
  define w2 where "w2 = logger_setLevel (ld_level d) l w1"
  define w3 where "w3 = (if ld_formatter d \<noteq> '''' then cout (ld_formatter d @ endl) (logger_setFormatter_str (ld_formatter d) l w2) else w2)"
  define w4 where "w4 = clearAppender l w3"
  have w2: "log_inv w2" "only_logger l w1 w2" "lg_level (lw_loggers w2 ! l) = ld_level d" "lg_formatter (lw_loggers w2 ! l) = lg_formatter (lw_loggers w1 ! l)"
    "l < length (lw_loggers w2)"
    using log_inv_levels(2) [OF w1(1)] w1(2) only_logger_steps(1) by (simp_all add: w2_def logger_setLevel_def upd_logger_def)
  note sf = setFormatter_str_spec [OF w2(5), of "ld_formatter d"]
  have i3: "log_inv w3" using log_inv_setFormatter_str [OF w2(1)] w2(1) by (simp add: w3_def log_inv_cout)
  have o3: "only_logger l w2 w3" using only_logger_trans [OF sf(1) only_logger_steps(2)] by (simp add: w3_def)
  have w3: "lg_level (lw_loggers w3 ! l) = ld_level d" "l < length (lw_loggers w3)"
    "lg_formatter (lw_loggers w3 ! l) = (if ld_formatter d \<noteq> '''' \<and> \<not> lf_error (LogFormatter_new (ld_formatter d))
       then Some (LogFormatter_new (ld_formatter d)) else lg_formatter (lw_loggers w1 ! l))"
    using sf w2 by (auto simp: w3_def cout_def only_logger_def)
  have w4: "log_inv w4" "only_logger l w3 w4" "lg_level (lw_loggers w4 ! l) = ld_level d" "lg_appenders (lw_loggers w4 ! l) = []"
    "lg_formatter (lw_loggers w4 ! l) = lg_formatter (lw_loggers w3 ! l)" "l < length (lw_loggers w4)"
    using log_inv_levels(4) [OF i3] w3 only_logger_steps(1) by (simp_all add: w4_def clearAppender_def upd_logger_def)
  obtain w5 where w5: "foldE (add_define env l (ld_name d)) (ld_appenders d) w4 = Inr w5" "log_inv w5" "only_logger l w4 w5"
    "lg_level (lw_loggers w5 ! l) = ld_level d" "lg_formatter (lw_loggers w5 ! l) = lg_formatter (lw_loggers w3 ! l)"
    "map (\<lambda>a. sig (lw_appenders w5 ! a)) (lg_appenders (lw_loggers w5 ! l)) = map define_sig (ld_appenders d)"
    using add_defines_spec [OF w4(1, 6), of "ld_appenders d" env "ld_name d"] assms(2) w4 by (auto simp: define_ok_def)
  have only: "only_logger l w1 w5" using w2(2) o3 w4(2) w5(3) only_logger_trans by blast
  have "apply_define env d w = Inr w5"
    unfolding apply_define_def g resetLoggerAppender_def Let_def prod.case w2_def [symmetric] w3_def [symmetric] w4_def [symmetric] by (rule w5(1))
  moreover have "view w5 n = view w n" if "n \<noteq> ld_name d" for n
    using view_other [OF w1(1) only w1(3) that] v1(1) [OF that] by simp
  moreover have "view w5 (ld_name d) = Some (configured d (view w (ld_name d)))"
  proof -
    have "view w5 (ld_name d) = Some (logger_view w5 (lw_loggers w5 ! l))" using only w1(3) by (simp add: view_def only_logger_def)
    moreover have "lg_formatter (lw_loggers w1 ! l) = (case view w (ld_name d) of None \<Rightarrow> Some (LogFormatter_new default_pattern) | Some (_, _, f) \<Rightarrow> f)"
      using v1(2) w1(3) by (auto simp: view_def [of w1] logger_view_def split: option.splits)
    ultimately show ?thesis using w5 w3 by (simp add: logger_view_def configured_def)
  qed
  ultimately show ?thesis using w5(2) by blast
qed

section \<open>The whole configuration\<close>

lemma find_define_name: "find_define d ds = Some o' \<Longrightarrow> o' \<in> set ds \<and> ld_name o' = ld_name d"
  using names.eqv_eq by (auto simp: find_define_def find_Some_iff LogDefine_less_def in_set_conv_nth)

lemma find_define_None: "find_define d ds = None \<longleftrightarrow> ld_name d \<notin> ld_name ` set ds"
  using names.eqv_eq names.irrefl by (fastforce simp: find_define_def find_None_iff LogDefine_less_def)

definition changed :: "LogDefine list \<Rightarrow> LogDefine \<Rightarrow> bool" where
  "changed oldValue d \<longleftrightarrow> \<not> (\<exists>o' \<in> set oldValue. LogDefine_eq d o')"

lemma reset_one_eq:
  assumes "distinct (map ld_name oldValue)"
  shows "reset_one env oldValue d w = (if changed oldValue d then apply_define env d w else Inr w)"
proof (cases "find_define d oldValue")
  case None
  then have "changed oldValue d" by (metis LogDefine_eq_def changed_def find_define_None image_eqI)
  then show ?thesis using None by (simp add: reset_one_def)
next
  case (Some o')
  then have "o'' = o'" if "o'' \<in> set oldValue" "LogDefine_eq d o''" for o''
    using find_define_name [OF Some] that assms by (auto simp: LogDefine_eq_def distinct_map dest: inj_onD)
  then show ?thesis using Some find_define_name [OF Some] by (auto simp: reset_one_def changed_def)
qed

lemma reset_all_spec:
  assumes "log_inv w" "distinct (map ld_name oldValue)" "distinct (map ld_name ds)" "\<forall>d \<in> set ds. define_ok d"
  shows "\<exists>w'. foldE (reset_one env oldValue) ds w = Inr w' \<and> log_inv w' \<and> (\<forall>n. n \<notin> ld_name ` set ds \<longrightarrow> view w' n = view w n)
    \<and> (\<forall>d \<in> set ds. view w' (ld_name d) = (if changed oldValue d then Some (configured d (view w (ld_name d))) else view w (ld_name d)))"
  using assms
proof (induction ds arbitrary: w)
  case (Cons d ds)
  obtain w1 where w1: "reset_one env oldValue d w = Inr w1" "log_inv w1"
    "view w1 (ld_name d) = (if changed oldValue d then Some (configured d (view w (ld_name d))) else view w (ld_name d))"
    "\<forall>n. n \<noteq> ld_name d \<longrightarrow> view w1 n = view w n"
    using apply_define_spec [OF Cons.prems(1), of d env] reset_one_eq [OF Cons.prems(2), of env d w] Cons.prems by (cases "changed oldValue d") auto
  obtain w2 where w2: "foldE (reset_one env oldValue) ds w1 = Inr w2" "log_inv w2" "\<forall>n. n \<notin> ld_name ` set ds \<longrightarrow> view w2 n = view w1 n"
    "\<forall>d \<in> set ds. view w2 (ld_name d) = (if changed oldValue d then Some (configured d (view w1 (ld_name d))) else view w1 (ld_name d))"
    using Cons.IH [OF w1(2) Cons.prems(2)] Cons.prems(3, 4) by (metis distinct.simps(2) list.set_intros(2) list.simps(9))
  have "ld_name d \<notin> ld_name ` set ds" using Cons.prems(3) by simp
  then have other: "view w1 (ld_name d') = view w (ld_name d')" if "d' \<in> set ds" for d' using w1(4) that by (metis image_eqI)
  have d: "view w2 (ld_name d) = view w1 (ld_name d)" using w2(3) Cons.prems(3) by simp
  have "\<forall>n. n \<notin> ld_name ` set (d # ds) \<longrightarrow> view w2 n = view w n" using w1(4) w2(3) by simp
  moreover have "\<forall>d \<in> set (d # ds). view w2 (ld_name d) = (if changed oldValue d then Some (configured d (view w (ld_name d))) else view w (ld_name d))"
    using w1(3) d w2(4) other by simp
  ultimately show ?case using w1(1) w2(1, 2) by simp
qed simp

lemma drop_one_spec:
  assumes "log_inv w"
  shows "log_inv (drop_one newValue d w)" "n \<noteq> ld_name d \<Longrightarrow> view (drop_one newValue d w) n = view w n"
    "ld_name d \<in> ld_name ` set newValue \<Longrightarrow> drop_one newValue d w = w"
    "ld_name d \<notin> ld_name ` set newValue \<Longrightarrow> \<exists>f. view (drop_one newValue d w) (ld_name d) = Some (UNKNOWN, [], f)"
proof -
  obtain l w1 where g: "getLogger (ld_name d) w = (l, w1)" by fastforce
  have w1: "log_inv w1" "l < length (lw_loggers w1)" "cmap_find string_less (ld_name d) (lw_named w1) = Some l"
    using log_inv_getLogger [OF assms, of "ld_name d"] getLogger_view(1) [OF assms, of "ld_name d"] g by simp_all
  let ?w = "clearAppender l (logger_setLevel UNKNOWN l w1)"
  have only: "only_logger l w1 ?w" unfolding clearAppender_def logger_setLevel_def
    by (rule only_logger_trans [OF only_logger_steps(1) only_logger_steps(1)])
  have eq: "drop_one newValue d w = (if ld_name d \<in> ld_name ` set newValue then w else ?w)" by (simp add: drop_one_def g find_define_None)
  show "log_inv (drop_one newValue d w)" using log_inv_levels(4) [OF log_inv_levels(2) [OF w1(1)]] assms by (simp add: eq)
  show "view (drop_one newValue d w) n = view w n" if "n \<noteq> ld_name d"
    using view_other [OF w1(1) only w1(3) that] getLogger_view(2) [OF assms that] g by (simp add: eq)
  show "drop_one newValue d w = w" if "ld_name d \<in> ld_name ` set newValue" using that by (simp add: eq)
  show "\<exists>f. view (drop_one newValue d w) (ld_name d) = Some (UNKNOWN, [], f)" if "ld_name d \<notin> ld_name ` set newValue"
    using that w1 by (simp add: eq view_def logger_view_def clearAppender_def logger_setLevel_def upd_logger_def)
qed

lemma drop_all_spec:
  assumes "log_inv w" "distinct (map ld_name ds)"
  shows "log_inv (fold (drop_one newValue) ds w)
    \<and> (\<forall>n. n \<notin> ld_name ` set ds - ld_name ` set newValue \<longrightarrow> view (fold (drop_one newValue) ds w) n = view w n)
    \<and> (\<forall>d \<in> set ds. ld_name d \<notin> ld_name ` set newValue \<longrightarrow> (\<exists>f. view (fold (drop_one newValue) ds w) (ld_name d) = Some (UNKNOWN, [], f)))"
  using assms
proof (induction ds arbitrary: w)
  case (Cons d ds)
  let ?w1 = "drop_one newValue d w"
  note ih = Cons.IH [OF drop_one_spec(1) [OF Cons.prems(1), of newValue d]]
  have d: "ld_name d \<notin> ld_name ` set ds" "distinct (map ld_name ds)" using Cons.prems(2) by auto
  have keep: "view ?w1 n = view w n" if "n \<notin> {ld_name d} - ld_name ` set newValue" for n
    using drop_one_spec(2, 3) [OF Cons.prems(1)] that by (cases "n = ld_name d") auto
  have "view (fold (drop_one newValue) ds ?w1) n = view w n" if "n \<notin> ld_name ` set (d # ds) - ld_name ` set newValue" for n
  proof -
    have "n \<notin> ld_name ` set ds - ld_name ` set newValue" "n \<notin> {ld_name d} - ld_name ` set newValue" using that by auto
    then show ?thesis using ih [OF d(2)] keep [of n] by metis
  qed
  moreover have "\<exists>f. view (fold (drop_one newValue) ds ?w1) (ld_name d) = Some (UNKNOWN, [], f)" if "ld_name d \<notin> ld_name ` set newValue"
    using ih [OF d(2)] drop_one_spec(4) [OF Cons.prems(1) that] d(1) by simp
  ultimately show ?case using ih [OF d(2)] by simp
qed simp

lemma same_sinks_view:
  assumes "same_sinks env e w w'" "log_inv w" shows "view w' = view w"
proof
  fix name
  show "view w' name = view w name"
  proof (cases "cmap_find string_less name (lw_named w)")
    case (Some l)
    have b: "\<forall>a \<in> set (lg_appenders (lw_loggers w ! l)). a < length (lw_appenders w)"
      by (rule logger_appenders_bound [OF assms(2) view_named(1) [OF assms(2) Some]])
    have "sig (lw_appenders w' ! a) = sig (lw_appenders w ! a)" if "a < length (lw_appenders w)" for a
      using assms(1) that by (simp add: same_sinks_def sig_def Let_def)
    then show ?thesis using Some b assms(1) by (simp add: view_def logger_view_def same_sinks_def)
  qed (use assms(1) in \<open>simp add: view_def same_sinks_def\<close>)
qed

lemma SYLAR_LOG_LEVEL_spec:
  assumes "log_inv w" "e_logger e < length (lw_loggers w)"
  shows "\<exists>w'. SYLAR_LOG_LEVEL env e w = Some (Inr w') \<and> same_sinks env e w w'"
proof (cases "lg_level (lw_loggers w ! e_logger e) \<le> e_level e")
  case True
  then show ?thesis using Logger_log_spec [OF assms, of env "e_level e" e] by (auto simp: SYLAR_LOG_LEVEL_def LogEventWrap_destroy_def)
next
  case False
  then show ?thesis by (simp add: SYLAR_LOG_LEVEL_def same_sinks_def)
qed

lemma resetLogger_spec:
  assumes "log_inv w" "distinct (map ld_name oldValue)" "distinct (map ld_name newValue)" "\<forall>d \<in> set newValue. define_ok d"
  shows "\<exists>w'. resetLogger env ev oldValue newValue w = Some (Inr w') \<and> log_inv w'
    \<and> (\<forall>d \<in> set newValue. view w' (ld_name d) = (if changed oldValue d then Some (configured d (view w (ld_name d))) else view w (ld_name d)))
    \<and> (\<forall>d \<in> set oldValue. ld_name d \<notin> ld_name ` set newValue \<longrightarrow> (\<exists>f. view w' (ld_name d) = Some (UNKNOWN, [], f)))
    \<and> (\<forall>n. n \<notin> ld_name ` (set oldValue \<union> set newValue) \<longrightarrow> view w' n = view w n)"
proof -
  let ?e = "ev\<lparr>e_logger := lw_root w, e_level := INFO, e_ss := ''on_logger_conf_changed''\<rparr>"
  obtain w1 where w1: "SYLAR_LOG_LEVEL env ?e w = Some (Inr w1)" "same_sinks env ?e w w1"
    using SYLAR_LOG_LEVEL_spec [OF assms(1), of ?e env] assms(1) by (auto simp: log_inv_def)
  have v: "view w1 = view w" "log_inv w1" using same_sinks_view [OF w1(2) assms(1)] same_sinks_inv [OF w1(2) assms(1)] by simp_all
  obtain w2 where w2: "foldE (reset_one env oldValue) newValue w1 = Inr w2" "log_inv w2" "\<forall>n. n \<notin> ld_name ` set newValue \<longrightarrow> view w2 n = view w n"
    "\<forall>d \<in> set newValue. view w2 (ld_name d) = (if changed oldValue d then Some (configured d (view w (ld_name d))) else view w (ld_name d))"
    using reset_all_spec [OF v(2) assms(2-4), of env] v(1) by auto
  note d = drop_all_spec [OF w2(2) assms(2), of newValue]
  let ?w = "fold (drop_one newValue) oldValue w2"
  have "resetLogger env ev oldValue newValue w = Some (Inr ?w)" using w1(1) w2(1) by (simp add: resetLogger_def)
  moreover have "view ?w (ld_name d) = (if changed oldValue d then Some (configured d (view w (ld_name d))) else view w (ld_name d))" if "d \<in> set newValue" for d
    using d w2(4) that by (metis DiffD2 image_eqI)
  moreover have "view ?w n = view w n" if "n \<notin> ld_name ` (set oldValue \<union> set newValue)" for n
    using d w2(3) that by (metis DiffD1 UnCI image_Un)
  ultimately show ?thesis using d by blast
qed

section \<open>Reachable worlds\<close>

inductive log_step :: "log_env \<Rightarrow> log_world \<Rightarrow> log_world \<Rightarrow> bool" for env where
  ls_get: "log_step env w (snd (getLogger name w))"
| ls_stdout: "log_step env w (snd (StdoutLogAppender_new w))"
| ls_file: "log_step env w (snd (FileLogAppender_new env name w))"
| ls_add: "a < length (lw_appenders w) \<Longrightarrow> l < length (lw_loggers w) \<Longrightarrow> log_step env w (addAppender a l w)"
| ls_del: "log_step env w (delAppender a l w)"
| ls_clear: "log_step env w (clearAppender l w)"
| ls_formatter: "log_step env w (logger_setFormatter (Some f) l w)"
| ls_pattern: "log_step env w (logger_setFormatter_str s l w)"
| ls_level: "log_step env w (logger_setLevel v l w)"
| ls_appender_level: "log_step env w (appender_setLevel v a w)"
| ls_appender_formatter: "log_step env w (appender_setFormatter (Some f) a w)"
| ls_log: "l < length (lw_loggers w) \<Longrightarrow> Logger_log env level e l w = Some (Inr w') \<Longrightarrow> log_step env w w'"
| ls_reset: "distinct (map ld_name oldValue) \<Longrightarrow> distinct (map ld_name newValue) \<Longrightarrow> \<forall>d \<in> set newValue. define_ok d
    \<Longrightarrow> resetLogger env ev oldValue newValue w = Some (Inr w') \<Longrightarrow> log_step env w w'"

inductive log_reachable :: "log_env \<Rightarrow> log_world \<Rightarrow> bool" for env where
  lr_init: "log_reachable env (LoggerManager env)"
| lr_step: "log_reachable env w \<Longrightarrow> log_step env w w' \<Longrightarrow> log_reachable env w'"

lemma log_step_inv: "log_step env w w' \<Longrightarrow> log_inv w \<Longrightarrow> log_inv w'"
proof (induction rule: log_step.induct)
  case (ls_log l w level e w')
  then show ?case using Logger_log_spec [of w l env level e] same_sinks_inv [of env e w w'] by auto
next
  case (ls_reset oldValue newValue ev w w')
  then show ?case using resetLogger_spec [of w oldValue newValue env ev] by auto
qed (simp_all add: log_inv_getLogger log_inv_new log_inv_addAppender log_inv_delAppender log_inv_levels log_inv_setFormatter log_inv_setFormatter_str)

lemma log_inv_init: "log_inv (LoggerManager env)"
  by (simp add: LoggerManager_def Logger_new_def FileLogAppender_new_def reopen_def addAppender_def appender_setFormatter_def hasFormatter_def
      upd_appender_def upd_logger_def empty_world_def log_inv_def logger_ok_def ready_def flag_ok_def named_ok_def Let_def)

lemma log_reachable_inv: "log_reachable env w \<Longrightarrow> log_inv w"
proof (induction rule: log_reachable.induct)
  case lr_init
  show ?case by (rule log_inv_init)
next
  case (lr_step w w')
  then show ?case using log_step_inv by blast
qed

section \<open>Reading back a printed definition\<close>

text \<open>What the reader relies on of the YAML library: keys of a mapping are found, a null node has none, a scalar is its text.\<close>

locale yaml_reader =
  fixes get :: node_get and as_str :: node_str
  assumes get_map: "get (YMap kvs) k = Some (map_of kvs k)"
    and get_null: "get YNull k = Some None"
    and as_str_scalar: "as_str (YScalar s) = Some s"
begin

lemma opt_str_map: "opt_str get as_str (YMap kvs) k = (case map_of kvs k of None \<Rightarrow> Some None | Some m \<Rightarrow> map_option Some (as_str m))"
  by (simp add: opt_str_def get_map)

lemma opt_str_null: "opt_str get as_str YNull k = Some None"
  by (simp add: opt_str_def get_null)

lemmas reads = opt_str_map opt_str_null get_map as_str_scalar

end

text \<open>What survives: the level of an appender is printed but not read, and an appender without a type is skipped.\<close>

definition read_back_appender :: "LogAppenderDefine \<Rightarrow> LogAppenderDefine" where
  "read_back_appender a = a\<lparr>ad_level := UNKNOWN, ad_file := (if ad_type a = FILEAPPENDER then ad_file a else '''')\<rparr>"

definition read_back :: "LogDefine \<Rightarrow> LogDefine" where
  "read_back d = d\<lparr>ld_appenders := map read_back_appender (filter (\<lambda>a. ad_type a \<noteq> UNKNOWN_TYPE) (ld_appenders d))\<rparr>"

context yaml_reader
begin

lemma appender_read_back:
  "appender_of_node get as_str (appender_define_node a) = Some (if ad_type a = UNKNOWN_TYPE then None else Some (read_back_appender a))"
  by (cases "ad_type a"; cases "ad_level a = UNKNOWN"; cases "ad_formatter a = ''''")
    (simp_all add: appender_define_node_def appender_of_node_def level_entry_def reads read_back_appender_def Let_def)

lemma level_read_back: "LogLevel_FromString (LogLevel_ToString level) = level" "LogLevel_FromString '''' = UNKNOWN"
  by (cases level; simp add: LogLevel_FromString_def) (simp add: LogLevel_FromString_def)

lemma appenders_read_back:
  "sequence_opt (map (\<lambda>x. appender_of_node get as_str (map appender_define_node as ! x)) [0..<length as])
     = Some (map (\<lambda>a. if ad_type a = UNKNOWN_TYPE then None else Some (read_back_appender a)) as)"
proof -
  have "map (\<lambda>x. appender_of_node get as_str (map appender_define_node as ! x)) [0..<length as]
      = map Some (map (\<lambda>a. if ad_type a = UNKNOWN_TYPE then None else Some (read_back_appender a)) as)"
    by (intro nth_equalityI) (simp_all add: appender_read_back)
  then show ?thesis by (simp only: sequence_opt_Some)
qed

lemma map_filter_read_back:
  "List.map_filter (\<lambda>x. x) (map (\<lambda>a. if ad_type a = UNKNOWN_TYPE then None else Some (read_back_appender a)) as)
     = map read_back_appender (filter (\<lambda>a. ad_type a \<noteq> UNKNOWN_TYPE) as)"
  by (induction as) (simp_all add: List.map_filter_simps)

lemma define_read_back: "define_of_node get as_str key_at (define_node d) = Some (read_back d)"
  by (cases d; cases "ld_level d = UNKNOWN"; cases "ld_formatter d = ''''"; cases "ld_appenders d = []")
    (simp_all add: define_of_node_def define_node_def level_entry_def reads appenders_read_back map_filter_read_back level_read_back read_back_def
      List.map_filter_simps)

end

fun yaml_get :: node_get where
  "yaml_get (YMap kvs) k = Some (map_of kvs k)"
| "yaml_get (YScalar s) k = None"
| "yaml_get n k = Some None"

fun yaml_str :: node_str where
  "yaml_str (YScalar s) = Some s"
| "yaml_str n = None"

interpretation yaml_nodes: yaml_reader yaml_get yaml_str
  by unfold_locales simp_all

section \<open>Properties\<close>


definition demo_env :: log_env where
  "demo_env = \<lparr>le_strftime = (\<lambda>f t. ''noon''), le_open = (\<lambda>f. True)\<rparr>"




text \<open>A definition printed to YAML and read back has the same name, level and pattern and the same appenders with their files and patterns, given a
  YAML library that reads back the printed document; but the level of an appender is lost (it is printed and never
  read), as is a file name on an appender of standard output and an appender of unknown type.\<close>

theorem log_define_read_back:
  assumes "yaml_reader get as_str" "yload (emit (define_node d)) = Some (define_node d)"
  shows "LogDefine_fromString yload get as_str key_at (LogDefine_toString emit d) = Some (read_back d)
    \<and> LogDefine_eq (read_back d) d
    \<and> (define_ok d \<longrightarrow> map ad_type (ld_appenders (read_back d)) = map ad_type (ld_appenders d)
         \<and> map ad_formatter (ld_appenders (read_back d)) = map ad_formatter (ld_appenders d)
         \<and> (\<forall>a \<in> set (ld_appenders (read_back d)). ad_level a = UNKNOWN))"
proof -
  have "define_ok d \<longrightarrow> filter (\<lambda>a. ad_type a \<noteq> UNKNOWN_TYPE) (ld_appenders d) = ld_appenders d" by (simp add: define_ok_def filter_id_conv)
  then show ?thesis
    using assms(2) yaml_reader.define_read_back [OF assms(1), of key_at d]
    by (auto simp: LogDefine_fromString_def LogDefine_toString_def LogDefine_eq_def read_back_def read_back_appender_def)
qed

theorem log_define_read_back_witness:
  "LogDefine_fromString (\<lambda>s. Some (define_node \<lparr>ld_name = ''a'', ld_level = INFO, ld_formatter = '''', ld_appenders = []\<rparr>)) yaml_get yaml_str (\<lambda>n i. YNull) (LogDefine_toString (\<lambda>n. ''doc'') \<lparr>ld_name = ''a'', ld_level = INFO, ld_formatter = '''', ld_appenders = []\<rparr>)
     = Some (read_back \<lparr>ld_name = ''a'', ld_level = INFO, ld_formatter = '''', ld_appenders = []\<rparr>)"
  using log_define_read_back [OF yaml_nodes.yaml_reader_axioms, of "\<lambda>s. Some (define_node \<lparr>ld_name = ''a'', ld_level = INFO, ld_formatter = '''', ld_appenders = []\<rparr>)"
      "\<lambda>n. ''doc''" "\<lparr>ld_name = ''a'', ld_level = INFO, ld_formatter = '''', ld_appenders = []\<rparr>" "\<lambda>n i. YNull"] by simp

end
