(* ===== verification/Sylar_Tcp.thy ===== *)
theory Sylar_Tcp
  imports Sylar_Socket
begin

text \<open>
  The TCP server (\<^verbatim>\<open>src/sylar/tcpserver.cpp\<close>). Socket objects are shared between the server and the tasks it schedules,
  so they live under addresses; the queues of the two workers are lists of tasks, and the accept loops that run are
  a list of their sockets. A socket object is destroyed, and so closed, when neither the server nor a task nor a loop refers to it.
  One round of \<^verbatim>\<open>startAccept\<close> is one step, so that it interleaves with \<^verbatim>\<open>start\<close>, \<^verbatim>\<open>stop\<close> and the other loops.
\<close>

section \<open>State\<close>

datatype task = StartAccept nat | StopServer

datatype tcp_error = NullSocket

record 'os tcp_server =
  ts_heap :: "sock list"
  ts_socks :: "nat list"
  ts_recvTimeout :: u64
  ts_name :: string
  ts_type :: string
  ts_isStop :: bool
  ts_ssl :: bool
  ts_accept :: "task list"
  ts_loops :: "nat list"
  ts_io :: "nat list"
  ts_os :: 'os

definition TcpServer :: "u64 \<Rightarrow> 'os \<Rightarrow> 'os tcp_server" where
  "TcpServer recvTimeout s =
     \<lparr>ts_heap = [], ts_socks = [], ts_recvTimeout = recvTimeout, ts_name = ''sylar/1.0.0'', ts_type = ''tcp'', ts_isStop = True, ts_ssl = False,
      ts_accept = [], ts_loops = [], ts_io = [], ts_os = s\<rparr>"

definition close_at :: "('os, 'b) sys_calls \<Rightarrow> nat \<Rightarrow> 'os tcp_server \<Rightarrow> 'os tcp_server" where
  "close_at sys a w = (let (_, k, s) = Socket_close sys (ts_heap w ! a, ts_os w) in w\<lparr>ts_heap := (ts_heap w)[a := k], ts_os := s\<rparr>)"

definition referenced :: "nat \<Rightarrow> 'os tcp_server \<Rightarrow> bool" where
  "referenced a w \<longleftrightarrow> a \<in> set (ts_socks w) \<or> StartAccept a \<in> set (ts_accept w) \<or> a \<in> set (ts_loops w)"

text \<open>The end of one reference: the destructor of \<^verbatim>\<open>Socket\<close> closes.\<close>

definition release :: "('os, 'b) sys_calls \<Rightarrow> nat \<Rightarrow> 'os tcp_server \<Rightarrow> 'os tcp_server" where
  "release sys a w = (if referenced a w then w else close_at sys a w)"

definition clear_socks :: "('os, 'b) sys_calls \<Rightarrow> 'os tcp_server \<Rightarrow> 'os tcp_server" where
  "clear_socks sys w = fold (release sys) (ts_socks w) (w\<lparr>ts_socks := []\<rparr>)"

section \<open>Operations\<close>

text \<open>The cast of an address family to a domain; other families fit none.\<close>

definition domain_of :: "int \<Rightarrow> Domain option" where
  "domain_of n = (if n = 2 then Some IPv4 else if n = 10 then Some IPv6 else if n = 1 then Some UNIX else None)"

abbreviation SOMAXCONN :: int where "SOMAXCONN \<equiv> 128"

definition listen_one ::
    "('os, 'b) sys_calls \<Rightarrow> Address \<Rightarrow> Address list \<times> 'os tcp_server \<Rightarrow> tcp_error + Address list \<times> 'os tcp_server" where
  "listen_one sys addr fw =
     (case fw of (fails, w) \<Rightarrow>
      case Option.bind (domain_of (uint (getFamily addr))) CreateTCPSocket of
        None \<Rightarrow> Inl NullSocket
      | Some k \<Rightarrow>
          let a = length (ts_heap w);
              (ok, k1, s1) = Socket_listen sys addr SOMAXCONN (k, ts_os w);
              w1 = w\<lparr>ts_heap := ts_heap w @ [k1], ts_os := s1\<rparr>
          in if \<not> ok then Inr (fails @ [addr], close_at sys a w1)
             else Inr (fails, w1\<lparr>ts_socks := ts_socks w1 @ [a]\<rparr>))"

definition tcp_listen ::
    "('os, 'b) sys_calls \<Rightarrow> Address list \<Rightarrow> Address list \<Rightarrow> bool \<Rightarrow> 'os tcp_server \<Rightarrow> tcp_error + bool \<times> Address list \<times> 'os tcp_server" where
  "tcp_listen sys addrs fails ssl w =
     bindE (foldE (listen_one sys) addrs (fails, w\<lparr>ts_ssl := ssl\<rparr>))
       (\<lambda>(fails', w1). if fails' \<noteq> [] then Inr (False, fails', clear_socks sys w1) else Inr (True, fails', w1))"

definition tcp_listen_addr :: "('os, 'b) sys_calls \<Rightarrow> Address \<Rightarrow> bool \<Rightarrow> 'os tcp_server \<Rightarrow> tcp_error + bool \<times> 'os tcp_server" where
  "tcp_listen_addr sys addr ssl w = bindE (tcp_listen sys [addr] [] ssl w) (\<lambda>(ok, _, w1). Inr (ok, w1))"

definition tcp_start :: "'os tcp_server \<Rightarrow> bool \<times> 'os tcp_server" where
  "tcp_start w =
     (if \<not> ts_isStop w then (True, w)
      else (True, w\<lparr>ts_isStop := False, ts_accept := ts_accept w @ map StartAccept (ts_socks w)\<rparr>))"

text \<open>A round of the loop of \<^verbatim>\<open>startAccept\<close> on a socket; when the server is stopped the loop ends and lets go of the socket.\<close>

definition startAccept_round :: "('os, 'b) sys_calls \<Rightarrow> nat \<Rightarrow> 'os tcp_server \<Rightarrow> 'os tcp_server" where
  "startAccept_round sys a w =
     (if ts_isStop w then release sys a (w\<lparr>ts_loops := remove1 a (ts_loops w)\<rparr>)
      else case Socket_accept sys (ts_heap w ! a, ts_os w) of
             (None, s) \<Rightarrow> w\<lparr>ts_os := s\<rparr>
           | (Some client, s) \<Rightarrow>
               w\<lparr>ts_heap := ts_heap w @ [client], ts_io := ts_io w @ [length (ts_heap w)], ts_os := Socket_setRecvTimeout sys (sint (ts_recvTimeout w)) (client, s)\<rparr>)"

text \<open>Printing: \<open>worker\<close> and \<open>accept\<close> are the names of the workers, empty without one.\<close>

definition tcp_toString :: "string \<Rightarrow> string \<Rightarrow> string \<Rightarrow> 'os tcp_server \<Rightarrow> string" where
  "tcp_toString worker accept prefix w =
     (let pfx = (if prefix = [] then ''    '' else prefix) in
      prefix @ ''[type='' @ ts_type w @ '' name='' @ ts_name w @ '' ssl='' @ (if ts_ssl w then ''1'' else ''0'') @ '' worker='' @ worker
      @ '' accept='' @ accept @ '' recv_timeout='' @ show_nat (unat (ts_recvTimeout w)) @ '']'' @ [char_of (10 :: nat)]
      @ concat (map (\<lambda>a. pfx @ pfx @ Socket_dump (ts_heap w ! a) @ [char_of (10 :: nat)]) (ts_socks w)))"

definition tcp_stop :: "'os tcp_server \<Rightarrow> 'os tcp_server" where
  "tcp_stop w = w\<lparr>ts_isStop := True, ts_accept := ts_accept w @ [StopServer]\<rparr>"

text \<open>The task that \<^verbatim>\<open>stop\<close> schedules; \<open>cancel\<close> is \<^verbatim>\<open>IOManager::cancelAll\<close> of a descriptor.\<close>

definition stop_task :: "('os, 'b) sys_calls \<Rightarrow> ('os \<Rightarrow> int \<Rightarrow> 'os) \<Rightarrow> 'os tcp_server \<Rightarrow> 'os tcp_server" where
  "stop_task sys cancel w =
     clear_socks sys
       (fold (\<lambda>a w. close_at sys a (w\<lparr>ts_os := cancel (ts_os w) (m_sock (ts_heap w ! a))\<rparr>)) (ts_socks w) w)"

text \<open>The accept worker takes any of its tasks.\<close>

definition run_task :: "('os, 'b) sys_calls \<Rightarrow> ('os \<Rightarrow> int \<Rightarrow> 'os) \<Rightarrow> task \<Rightarrow> 'os tcp_server \<Rightarrow> 'os tcp_server" where
  "run_task sys cancel t w =
     (let w1 = w\<lparr>ts_accept := remove1 t (ts_accept w)\<rparr> in
      case t of StartAccept a \<Rightarrow> w1\<lparr>ts_loops := a # ts_loops w1\<rparr> | StopServer \<Rightarrow> stop_task sys cancel w1)"

definition TcpServer_destroy :: "('os, 'b) sys_calls \<Rightarrow> 'os tcp_server \<Rightarrow> 'os tcp_server" where
  "TcpServer_destroy sys w = (fold (close_at sys) (ts_socks w) w)\<lparr>ts_socks := []\<rparr>"

section \<open>The invariant\<close>

definition tcp_inv :: "'os tcp_server \<Rightarrow> bool" where
  "tcp_inv w \<longleftrightarrow> distinct (ts_socks w) \<and> (\<forall>a \<in> set (ts_socks w). a < length (ts_heap w) \<and> isValid (ts_heap w ! a))
     \<and> (\<forall>k \<in> set (ts_heap w). sock_ok k) \<and> (\<forall>a. referenced a w \<longrightarrow> a < length (ts_heap w) \<and> a \<notin> set (ts_io w))
     \<and> distinct (ts_io w) \<and> (\<forall>a \<in> set (ts_io w). a < length (ts_heap w) \<and> m_isConnected (ts_heap w ! a))"

lemma close_at_fields [simp]:
  "ts_socks (close_at sys a w) = ts_socks w" "ts_accept (close_at sys a w) = ts_accept w" "ts_loops (close_at sys a w) = ts_loops w"
  "ts_io (close_at sys a w) = ts_io w" "ts_isStop (close_at sys a w) = ts_isStop w" "length (ts_heap (close_at sys a w)) = length (ts_heap w)"
  by (simp_all add: close_at_def case_prod_beta Let_def)

lemma close_at_heap:
  assumes "a < length (ts_heap w)" "\<forall>k \<in> set (ts_heap w). sock_ok k"
  shows "\<not> isValid (ts_heap (close_at sys a w) ! a)" "i \<noteq> a \<Longrightarrow> ts_heap (close_at sys a w) ! i = ts_heap w ! i"
    "\<not> isValid (ts_heap w ! i) \<Longrightarrow> \<not> isValid (ts_heap (close_at sys a w) ! i)" "\<forall>k \<in> set (ts_heap (close_at sys a w)). sock_ok k"
proof -
  obtain b k s where c: "Socket_close sys (ts_heap w ! a, ts_os w) = (b, k, s)" by (metis prod_cases3)
  note r = close_result [OF c, of]
  have ok: "sock_ok (ts_heap w ! a)" using assms by simp
  have heap: "ts_heap (close_at sys a w) = (ts_heap w)[a := k]" by (simp add: close_at_def c)
  show "\<not> isValid (ts_heap (close_at sys a w) ! a)" "i \<noteq> a \<Longrightarrow> ts_heap (close_at sys a w) ! i = ts_heap w ! i"
    using r [OF ok] assms(1) by (simp_all add: heap)
  then show "\<not> isValid (ts_heap w ! i) \<Longrightarrow> \<not> isValid (ts_heap (close_at sys a w) ! i)" by (cases "i = a") simp_all
  have "sock_ok k" using r [OF ok] by (simp add: sock_ok_def)
  then show "\<forall>k \<in> set (ts_heap (close_at sys a w)). sock_ok k"
    using assms(2) set_update_subset_insert [of "ts_heap w" a k] unfolding heap by blast
qed

lemma referenced_close_at [simp]: "referenced i (close_at sys a w) = referenced i w"
  by (simp add: referenced_def)

lemma release_fields [simp]:
  "ts_socks (release sys a w) = ts_socks w" "ts_accept (release sys a w) = ts_accept w" "ts_loops (release sys a w) = ts_loops w"
  "ts_io (release sys a w) = ts_io w" "ts_isStop (release sys a w) = ts_isStop w" "length (ts_heap (release sys a w)) = length (ts_heap w)"
  "referenced i (release sys a w) = referenced i w"
  by (simp_all add: release_def)

lemma release_fold:
  assumes "\<forall>a \<in> set as. a < length (ts_heap w)" "\<forall>k \<in> set (ts_heap w). sock_ok k"
  shows "(let w' = fold (release sys) as w in
      ts_socks w' = ts_socks w \<and> ts_accept w' = ts_accept w \<and> ts_loops w' = ts_loops w \<and> ts_io w' = ts_io w \<and> ts_isStop w' = ts_isStop w
      \<and> length (ts_heap w') = length (ts_heap w) \<and> (\<forall>k \<in> set (ts_heap w'). sock_ok k)
      \<and> (\<forall>i. i \<notin> set as \<or> referenced i w \<longrightarrow> ts_heap w' ! i = ts_heap w ! i)
      \<and> (\<forall>i. \<not> isValid (ts_heap w ! i) \<longrightarrow> \<not> isValid (ts_heap w' ! i))
      \<and> (\<forall>i \<in> set as. \<not> referenced i w \<longrightarrow> \<not> isValid (ts_heap w' ! i)))"
  using assms
proof (induction as arbitrary: w)
  case (Cons a as)
  let ?w = "release sys a w"
  have ok: "\<forall>k \<in> set (ts_heap ?w). sock_ok k" using close_at_heap(4) [where a = a and w = w and sys = sys] Cons.prems by (simp add: release_def)
  have a: "\<forall>i. i \<noteq> a \<or> referenced i w \<longrightarrow> ts_heap ?w ! i = ts_heap w ! i" "\<not> referenced a w \<longrightarrow> \<not> isValid (ts_heap ?w ! a)"
    "\<forall>i. \<not> isValid (ts_heap w ! i) \<longrightarrow> \<not> isValid (ts_heap ?w ! i)"
    using close_at_heap(1-3) [where a = a and w = w and sys = sys] Cons.prems by (auto simp: release_def)
  have ih: "let w' = fold (release sys) as ?w in
      ts_socks w' = ts_socks w \<and> ts_accept w' = ts_accept w \<and> ts_loops w' = ts_loops w \<and> ts_io w' = ts_io w \<and> ts_isStop w' = ts_isStop w
      \<and> length (ts_heap w') = length (ts_heap w) \<and> (\<forall>k \<in> set (ts_heap w'). sock_ok k)
      \<and> (\<forall>i. i \<notin> set as \<or> referenced i w \<longrightarrow> ts_heap w' ! i = ts_heap ?w ! i)
      \<and> (\<forall>i. \<not> isValid (ts_heap ?w ! i) \<longrightarrow> \<not> isValid (ts_heap w' ! i))
      \<and> (\<forall>i \<in> set as. \<not> referenced i w \<longrightarrow> \<not> isValid (ts_heap w' ! i))"
    using Cons.IH [of ?w] Cons.prems(1) ok by simp
  then show ?case using a unfolding Let_def fold_simps by (intro conjI) (simp_all, metis+)
qed simp

lemma clear_socks_spec:
  assumes "\<forall>a \<in> set (ts_socks w). a < length (ts_heap w)" "\<forall>k \<in> set (ts_heap w). sock_ok k"
  shows "(let w' = clear_socks sys w in
      ts_socks w' = [] \<and> ts_accept w' = ts_accept w \<and> ts_loops w' = ts_loops w \<and> ts_io w' = ts_io w \<and> ts_isStop w' = ts_isStop w
      \<and> length (ts_heap w') = length (ts_heap w) \<and> (\<forall>k \<in> set (ts_heap w'). sock_ok k)
      \<and> (\<forall>i. i \<notin> set (ts_socks w) \<longrightarrow> ts_heap w' ! i = ts_heap w ! i)
      \<and> (\<forall>i. \<not> isValid (ts_heap w ! i) \<longrightarrow> \<not> isValid (ts_heap w' ! i))
      \<and> (\<forall>i \<in> set (ts_socks w). StartAccept i \<notin> set (ts_accept w) \<and> i \<notin> set (ts_loops w) \<longrightarrow> \<not> isValid (ts_heap w' ! i)))"
  using release_fold [of "ts_socks w" "w\<lparr>ts_socks := []\<rparr>" sys] assms by (auto simp: clear_socks_def referenced_def Let_def)

lemma clear_socks_inv: "tcp_inv w \<Longrightarrow> tcp_inv (clear_socks sys w)"
proof -
  assume inv: "tcp_inv w"
  let ?w = "clear_socks sys w"
  have c: "ts_socks ?w = []" "ts_accept ?w = ts_accept w" "ts_loops ?w = ts_loops w" "ts_io ?w = ts_io w" "length (ts_heap ?w) = length (ts_heap w)"
    "\<forall>k \<in> set (ts_heap ?w). sock_ok k" "\<forall>i. i \<notin> set (ts_socks w) \<longrightarrow> ts_heap ?w ! i = ts_heap w ! i"
    using clear_socks_spec [of w sys] inv by (auto simp: tcp_inv_def Let_def)
  have "a \<notin> set (ts_socks w)" if "a \<in> set (ts_io w)" for a using inv that by (auto simp: tcp_inv_def referenced_def)
  moreover have "referenced a w" if "referenced a ?w" for a using that c by (auto simp: referenced_def)
  ultimately show ?thesis using inv c by (auto simp: tcp_inv_def)
qed

lemma listen_valid:
  assumes "Socket_listen sys addr backlog (k, s) = (ok, k1, s1)" "ok"
  shows "isValid k1"
proof -
  obtain k0 s0 where i: "(if \<not> isValid k then snd (Socket_init sys True (k, s)) else (k, s)) = (k0, s0)" by fastforce
  obtain b k2 s2 where bd: "Socket_bind sys addr (k0, s0) = (b, k2, s2)" by (metis prod_cases3)
  have "isValid k0 \<and> k1 = k2" using assms i bd by (auto simp: Socket_listen_def split: if_splits prod.splits)
  moreover have "m_sock k2 = m_sock k0" using bd getLocal_fields(1)
    by (auto simp: Socket_bind_def split: if_splits prod.splits)
  ultimately show ?thesis by (simp add: isValid_def)
qed

lemma listen_one_spec:
  assumes "listen_one sys addr (fails, w) = Inr (fails', w')"
  shows "\<exists>k good. ts_heap w' = ts_heap w @ [k] \<and> sock_ok k \<and> good = isValid k
    \<and> ts_socks w' = ts_socks w @ (if good then [length (ts_heap w)] else []) \<and> fails' = fails @ (if good then [] else [addr])
    \<and> ts_accept w' = ts_accept w \<and> ts_loops w' = ts_loops w \<and> ts_io w' = ts_io w \<and> ts_isStop w' = ts_isStop w"
proof -
  obtain d k where k: "domain_of (uint (getFamily addr)) = Some d" "CreateTCPSocket d = Some k"
    using assms by (auto simp: listen_one_def bind_eq_Some_conv split: option.splits)
  obtain ok k1 s1 where l: "Socket_listen sys addr SOMAXCONN (k, ts_os w) = (ok, k1, s1)" by (metis prod_cases3)
  let ?w = "w\<lparr>ts_heap := ts_heap w @ [k1], ts_os := s1\<rparr>"
  have k0: "sock_ok k" using k(2) by (auto simp: CreateTCPSocket_def Socket_def sock_ok_def split: if_splits)
  have ok1: "sock_ok k1" by (rule listen_ok [OF l k0])
  have eq: "listen_one sys addr (fails, w) = (if ok then Inr (fails, ?w\<lparr>ts_socks := ts_socks w @ [length (ts_heap w)]\<rparr>)
      else Inr (fails @ [addr], close_at sys (length (ts_heap w)) ?w))"
    by (simp add: listen_one_def k l Let_def)
  show ?thesis
  proof (cases ok)
    case True
    have "isValid k1" by (rule listen_valid [OF l True])
    then show ?thesis using assms eq True ok1 by auto
  next
    case False
    obtain b k2 s2 where c: "Socket_close sys (k1, s1) = (b, k2, s2)" by (metis prod_cases3)
    have "close_at sys (length (ts_heap w)) ?w = w\<lparr>ts_heap := ts_heap w @ [k2], ts_os := s2\<rparr>" by (simp add: close_at_def c)
    moreover have "\<not> isValid k2" "sock_ok k2" using close_result [OF c ok1] by (simp_all add: sock_ok_def)
    moreover have "w' = close_at sys (length (ts_heap w)) ?w" "fails' = fails @ [addr]" using assms eq False by simp_all
    ultimately show ?thesis by (intro exI [of _ k2] exI [of _ False]) simp
  qed
qed

lemma listen_all_spec:
  assumes "foldE (listen_one sys) addrs (fails, w) = Inr (fails', w')"
  shows "\<exists>new good fs. ts_heap w' = ts_heap w @ new \<and> length new = length addrs \<and> (\<forall>k \<in> set new. sock_ok k)
    \<and> good = filter (\<lambda>a. isValid ((ts_heap w @ new) ! a)) [length (ts_heap w)..<length (ts_heap w) + length addrs]
    \<and> ts_socks w' = ts_socks w @ good \<and> fails' = fails @ fs \<and> set fs \<subseteq> set addrs \<and> length good + length fs = length addrs
    \<and> ts_accept w' = ts_accept w \<and> ts_loops w' = ts_loops w \<and> ts_io w' = ts_io w \<and> ts_isStop w' = ts_isStop w"
  using assms
proof (induction addrs arbitrary: fails w)
  case (Cons addr addrs)
  obtain f1 w1 where o: "listen_one sys addr (fails, w) = Inr (f1, w1)" "foldE (listen_one sys) addrs (f1, w1) = Inr (fails', w')"
    using Cons.prems by (auto simp: bindE_eq_Inr)
  obtain k where k: "ts_heap w1 = ts_heap w @ [k]" "sock_ok k"
    "ts_socks w1 = ts_socks w @ (if isValid k then [length (ts_heap w)] else [])" "f1 = fails @ (if isValid k then [] else [addr])"
    "ts_accept w1 = ts_accept w" "ts_loops w1 = ts_loops w" "ts_io w1 = ts_io w" "ts_isStop w1 = ts_isStop w"
    using listen_one_spec [OF o(1)] by auto
  obtain new good fs where ih: "ts_heap w' = ts_heap w1 @ new" "length new = length addrs" "\<forall>k \<in> set new. sock_ok k"
    "good = filter (\<lambda>a. isValid ((ts_heap w1 @ new) ! a)) [length (ts_heap w1)..<length (ts_heap w1) + length addrs]"
    "ts_socks w' = ts_socks w1 @ good" "fails' = f1 @ fs" "set fs \<subseteq> set addrs" "length good + length fs = length addrs"
    "ts_accept w' = ts_accept w1" "ts_loops w' = ts_loops w1" "ts_io w' = ts_io w1" "ts_isStop w' = ts_isStop w1"
    using Cons.IH [OF o(2)] by blast
  let ?n = "length (ts_heap w)"
  have up: "[?n..<?n + length (addr # addrs)] = ?n # [Suc ?n..<Suc ?n + length addrs]" by (simp add: upt_rec)
  have "filter (\<lambda>a. isValid ((ts_heap w @ k # new) ! a)) [?n..<?n + length (addr # addrs)] = (if isValid k then [?n] else []) @ good"
    unfolding up ih(4) k(1) by simp
  moreover have "length ((if isValid k then [?n] else []) @ good) + length ((if isValid k then [] else [addr]) @ fs) = length (addr # addrs)"
    using ih(8) by simp
  ultimately show ?case using ih k
    by (intro exI [of _ "k # new"] exI [of _ "(if isValid k then [?n] else []) @ good"] exI [of _ "(if isValid k then [] else [addr]) @ fs"]) auto
qed simp

lemma listen_all_inv:
  assumes "tcp_inv w" "foldE (listen_one sys) addrs (fails, w) = Inr (fails', w')"
  shows "tcp_inv w'"
proof -
  obtain new good fs where l: "ts_heap w' = ts_heap w @ new" "length new = length addrs" "\<forall>k \<in> set new. sock_ok k"
    "good = filter (\<lambda>a. isValid ((ts_heap w @ new) ! a)) [length (ts_heap w)..<length (ts_heap w) + length addrs]"
    "ts_socks w' = ts_socks w @ good" "ts_accept w' = ts_accept w" "ts_loops w' = ts_loops w" "ts_io w' = ts_io w"
    using listen_all_spec [OF assms(2)] by blast
  have good: "\<forall>a \<in> set good. length (ts_heap w) \<le> a \<and> a < length (ts_heap w') \<and> isValid (ts_heap w' ! a)" "distinct good"
    using l(1, 2, 4) by auto
  have old: "ts_heap w' ! a = ts_heap w ! a" if "a < length (ts_heap w)" for a using that l(1) by (simp add: nth_append)
  have socks: "\<forall>a \<in> set (ts_socks w'). a < length (ts_heap w') \<and> isValid (ts_heap w' ! a)"
    using assms(1) good old l(1, 5) by (auto simp: tcp_inv_def)
  have "distinct (ts_socks w')" using assms(1) good l(5) by (force simp: tcp_inv_def)
  moreover have "\<forall>k \<in> set (ts_heap w'). sock_ok k" using assms(1) l(1, 3) by (auto simp: tcp_inv_def)
  moreover have "\<forall>a \<in> set (ts_io w'). a < length (ts_heap w') \<and> m_isConnected (ts_heap w' ! a)" using assms(1) old l(1, 8) by (auto simp: tcp_inv_def)
  moreover have "a < length (ts_heap w') \<and> a \<notin> set (ts_io w')" if "referenced a w'" for a
  proof (cases "a \<in> set good")
    case True
    then have "length (ts_heap w) \<le> a" "a < length (ts_heap w')" using good by auto
    then show ?thesis using assms(1) l(8) by (auto simp: tcp_inv_def)
  next
    case False
    then have "referenced a w" using that l(5-7) by (auto simp: referenced_def)
    then show ?thesis using assms(1) l(1, 8) by (auto simp: tcp_inv_def)
  qed
  ultimately show ?thesis using socks assms(1) l(8) by (auto simp: tcp_inv_def)
qed

lemma listen_error:
  "(\<exists>e. foldE (listen_one sys) addrs fw = Inl e) \<longleftrightarrow> (\<exists>addr \<in> set addrs. uint (getFamily addr) \<noteq> 2 \<and> uint (getFamily addr) \<noteq> 10)"
proof (induction addrs arbitrary: fw)
  case (Cons addr addrs)
  have one: "isOk (listen_one sys addr fw) \<longleftrightarrow> uint (getFamily addr) = 2 \<or> uint (getFamily addr) = 10"
    by (cases fw) (auto simp: listen_one_def domain_of_def CreateTCPSocket_def Let_def case_prod_beta)
  show ?case
  proof (cases "listen_one sys addr fw")
    case (Inr fw1)
    then show ?thesis using one Cons.IH [of fw1] by auto
  qed (use one in auto)
qed simp

section \<open>Reachable servers\<close>

inductive tcp_step :: "('os, 'b) sys_calls \<Rightarrow> ('os \<Rightarrow> int \<Rightarrow> 'os) \<Rightarrow> 'os tcp_server \<Rightarrow> 'os tcp_server \<Rightarrow> bool" for sys cancel where
  tc_listen: "tcp_listen sys addrs fails ssl w = Inr (ok, fails', w') \<Longrightarrow> tcp_step sys cancel w w'"
| tc_start: "tcp_start w = (ok, w') \<Longrightarrow> tcp_step sys cancel w w'"
| tc_stop: "tcp_step sys cancel w (tcp_stop w)"
| tc_task: "t \<in> set (ts_accept w) \<Longrightarrow> tcp_step sys cancel w (run_task sys cancel t w)"
| tc_accept: "a \<in> set (ts_loops w) \<Longrightarrow> tcp_step sys cancel w (startAccept_round sys a w)"
| tc_serve: "a \<in> set (ts_io w) \<Longrightarrow> sock_ok k \<Longrightarrow> tcp_step sys cancel w (w\<lparr>ts_io := remove1 a (ts_io w), ts_heap := (ts_heap w)[a := k], ts_os := s\<rparr>)"

inductive tcp_reachable :: "('os, 'b) sys_calls \<Rightarrow> ('os \<Rightarrow> int \<Rightarrow> 'os) \<Rightarrow> 'os tcp_server \<Rightarrow> bool" for sys cancel where
  tr_init: "tcp_reachable sys cancel (TcpServer recvTimeout s)"
| tr_step: "tcp_reachable sys cancel w \<Longrightarrow> tcp_step sys cancel w w' \<Longrightarrow> tcp_reachable sys cancel w'"

lemma tcp_inv_frame:
  assumes "tcp_inv w" "ts_heap w' = ts_heap w" "ts_socks w' = ts_socks w" "ts_io w' = ts_io w" "\<forall>a. referenced a w' \<longrightarrow> referenced a w"
  shows "tcp_inv w'"
  using assms by (simp add: tcp_inv_def)

lemma release_inv:
  assumes "tcp_inv w" "a < length (ts_heap w)" "a \<notin> set (ts_io w)"
  shows "tcp_inv (release sys a w)"
proof (cases "referenced a w")
  case False
  then have a: "a \<notin> set (ts_socks w)" by (simp add: referenced_def)
  have ok: "\<forall>k \<in> set (ts_heap w). sock_ok k" using assms(1) by (simp add: tcp_inv_def)
  have "ts_heap (close_at sys a w) ! i = ts_heap w ! i" if "i \<in> set (ts_socks w) \<or> i \<in> set (ts_io w)" for i
    using close_at_heap(2) [OF assms(2) ok] a assms(3) that by metis
  then show ?thesis using assms(1) False close_at_heap(4) [OF assms(2) ok, of sys] by (simp add: release_def tcp_inv_def)
qed (use assms in \<open>simp add: release_def\<close>)

lemma stop_closes:
  assumes "\<forall>a \<in> set as. a < length (ts_heap w)" "\<forall>k \<in> set (ts_heap w). sock_ok k"
  shows "(let w' = fold (\<lambda>a w. close_at sys a (w\<lparr>ts_os := cancel (ts_os w) (m_sock (ts_heap w ! a))\<rparr>)) as w in
      ts_socks w' = ts_socks w \<and> ts_accept w' = ts_accept w \<and> ts_loops w' = ts_loops w \<and> ts_io w' = ts_io w \<and> ts_isStop w' = ts_isStop w
      \<and> length (ts_heap w') = length (ts_heap w) \<and> (\<forall>k \<in> set (ts_heap w'). sock_ok k) \<and> (\<forall>i. i \<notin> set as \<longrightarrow> ts_heap w' ! i = ts_heap w ! i)
      \<and> (\<forall>i. \<not> isValid (ts_heap w ! i) \<longrightarrow> \<not> isValid (ts_heap w' ! i)) \<and> (\<forall>i \<in> set as. \<not> isValid (ts_heap w' ! i)))"
  using assms
proof (induction as arbitrary: w)
  case (Cons a as)
  define w0 where "w0 = w\<lparr>ts_os := cancel (ts_os w) (m_sock (ts_heap w ! a))\<rparr>"
  define w1 where "w1 = close_at sys a w0"
  have w0: "ts_heap w0 = ts_heap w" "a < length (ts_heap w0)" "\<forall>k \<in> set (ts_heap w0). sock_ok k" using Cons.prems by (simp_all add: w0_def)
  note c = close_at_heap [OF w0(2, 3), where sys = sys, folded w1_def, unfolded w0(1)]
  have h: "\<not> isValid (ts_heap w1 ! a)" "\<forall>i. i \<noteq> a \<longrightarrow> ts_heap w1 ! i = ts_heap w ! i"
    "\<forall>i. \<not> isValid (ts_heap w ! i) \<longrightarrow> \<not> isValid (ts_heap w1 ! i)" "\<forall>k \<in> set (ts_heap w1). sock_ok k"
    using c by blast+
  have f: "ts_socks w1 = ts_socks w" "ts_accept w1 = ts_accept w" "ts_loops w1 = ts_loops w" "ts_io w1 = ts_io w" "ts_isStop w1 = ts_isStop w"
    "length (ts_heap w1) = length (ts_heap w)" by (simp_all add: w1_def w0_def)
  have p: "\<forall>a \<in> set as. a < length (ts_heap w1)" using Cons.prems(1) f(6) by simp
  note ih = Cons.IH [OF p h(4), unfolded Let_def f]
  show ?case unfolding Let_def fold_simps comp_def w0_def [symmetric] w1_def [symmetric] using ih h by (intro conjI) simp_all
qed simp

lemma stop_task_spec:
  assumes "tcp_inv w"
  shows "(let w' = stop_task sys cancel w in tcp_inv w' \<and> ts_socks w' = [] \<and> ts_loops w' = ts_loops w \<and> ts_isStop w' = ts_isStop w
      \<and> ts_io w' = ts_io w \<and> ts_accept w' = ts_accept w \<and> (\<forall>a \<in> set (ts_socks w). \<not> isValid (ts_heap w' ! a)))"
proof -
  define w1 where "w1 = fold (\<lambda>a w. close_at sys a (w\<lparr>ts_os := cancel (ts_os w) (m_sock (ts_heap w ! a))\<rparr>)) (ts_socks w) w"
  have "\<forall>a \<in> set (ts_socks w). a < length (ts_heap w)" "\<forall>k \<in> set (ts_heap w). sock_ok k" using assms by (simp_all add: tcp_inv_def)
  note s = stop_closes [OF this, of sys cancel, unfolded Let_def, folded w1_def]
  define w2 where "w2 = clear_socks sys w1"
  have b: "\<forall>a \<in> set (ts_socks w1). a < length (ts_heap w1)" "\<forall>k \<in> set (ts_heap w1). sock_ok k" using s assms by (simp_all add: tcp_inv_def)
  note c = clear_socks_spec [OF b, of sys, unfolded Let_def, folded w2_def]
  have eq: "stop_task sys cancel w = w2" by (simp add: stop_task_def w1_def w2_def)
  have io: "ts_heap w2 ! a = ts_heap w ! a" if "a \<in> set (ts_io w)" for a
  proof -
    have "a \<notin> set (ts_socks w)" using assms that by (auto simp: tcp_inv_def referenced_def)
    then show ?thesis using s c by metis
  qed
  have ref: "referenced a w" if "referenced a w2" for a using that s c by (simp add: referenced_def)
  have "tcp_inv w2" using assms io ref s c by (simp add: tcp_inv_def)
  moreover have "\<forall>a \<in> set (ts_socks w). \<not> isValid (ts_heap w2 ! a)" using s c by blast
  ultimately show ?thesis using s c by (simp add: eq Let_def)
qed

lemma run_task_inv:
  assumes "tcp_inv w" "t \<in> set (ts_accept w)" shows "tcp_inv (run_task sys cancel t w)"
proof (cases t)
  case (StartAccept a)
  have "\<forall>x. referenced x (run_task sys cancel t w) \<longrightarrow> referenced x w"
    using assms(2) StartAccept set_remove1_subset [of t "ts_accept w"] by (auto simp: run_task_def referenced_def Let_def)
  then show ?thesis by (rule tcp_inv_frame [OF assms(1), rotated 3]) (simp_all add: run_task_def StartAccept)
next
  case StopServer
  have "\<forall>x. referenced x (w\<lparr>ts_accept := remove1 t (ts_accept w)\<rparr>) \<longrightarrow> referenced x w"
    using set_remove1_subset [of t "ts_accept w"] by (auto simp: referenced_def)
  then have "tcp_inv (w\<lparr>ts_accept := remove1 t (ts_accept w)\<rparr>)" by (rule tcp_inv_frame [OF assms(1), rotated 3]) simp_all
  then show ?thesis using stop_task_spec [of "w\<lparr>ts_accept := remove1 t (ts_accept w)\<rparr>" sys cancel] StopServer by (simp add: run_task_def Let_def)
qed

lemma accept_round_inv:
  assumes "tcp_inv w" "a \<in> set (ts_loops w)" shows "tcp_inv (startAccept_round sys a w)"
proof (cases "ts_isStop w")
  case True
  let ?w = "w\<lparr>ts_loops := remove1 a (ts_loops w)\<rparr>"
  have "\<forall>x. referenced x ?w \<longrightarrow> referenced x w" using set_remove1_subset [of a "ts_loops w"] by (auto simp: referenced_def)
  then have inv: "tcp_inv ?w" by (rule tcp_inv_frame [OF assms(1), rotated 3]) simp_all
  have "a < length (ts_heap w)" "a \<notin> set (ts_io w)" using assms by (auto simp: tcp_inv_def referenced_def)
  then show ?thesis using release_inv [OF inv, of a sys] True by (simp add: startAccept_round_def)
next
  case False
  obtain c s where acc: "Socket_accept sys (ts_heap w ! a, ts_os w) = (c, s)" by fastforce
  show ?thesis
  proof (cases c)
    case None
    then show ?thesis using False acc by (auto simp: startAccept_round_def referenced_def intro!: tcp_inv_frame [OF assms(1)])
  next
    case (Some k)
    let ?w = "w\<lparr>ts_heap := ts_heap w @ [k], ts_io := ts_io w @ [length (ts_heap w)], ts_os := Socket_setRecvTimeout sys (sint (ts_recvTimeout w)) (k, s)\<rparr>"
    have eq: "startAccept_round sys a w = ?w" using False acc Some by (simp add: startAccept_round_def)
    have k: "sock_ok k" "m_isConnected k" using accept_ok [of sys "(ts_heap w ! a, ts_os w)" k s] acc Some by (simp_all add: sock_ok_def isValid_def)
    have ref: "referenced x ?w = referenced x w" for x by (simp add: referenced_def)
    have "\<forall>x \<in> set (ts_io ?w). x < length (ts_heap ?w) \<and> m_isConnected (ts_heap ?w ! x)" using assms(1) k(2) by (auto simp: tcp_inv_def nth_append)
    moreover have "distinct (ts_io ?w)" using assms(1) by (auto simp: tcp_inv_def)
    moreover have "\<forall>x \<in> set (ts_socks ?w). x < length (ts_heap ?w) \<and> isValid (ts_heap ?w ! x)" using assms(1) by (auto simp: tcp_inv_def nth_append)
    moreover have "x < length (ts_heap ?w) \<and> x \<notin> set (ts_io ?w)" if "referenced x w" for x using assms(1) that by (auto simp: tcp_inv_def)
    ultimately show ?thesis unfolding eq using assms(1) k(1) ref by (simp add: tcp_inv_def)
  qed
qed

lemma serve_inv:
  assumes "tcp_inv w" "a \<in> set (ts_io w)" "sock_ok k"
  shows "tcp_inv (w\<lparr>ts_io := remove1 a (ts_io w), ts_heap := (ts_heap w)[a := k], ts_os := s\<rparr>)"
proof -
  have d: "distinct (ts_io w)" "a \<notin> set (ts_socks w)" using assms(1, 2) by (auto simp: tcp_inv_def referenced_def)
  have io: "set (remove1 a (ts_io w)) = set (ts_io w) - {a}" using d(1) by (rule set_remove1_eq)
  have heap: "(ts_heap w)[a := k] ! x = ts_heap w ! x" if "x \<noteq> a" for x using that by simp
  have ok: "\<forall>j \<in> set ((ts_heap w)[a := k]). sock_ok j"
    using assms(1, 3) set_update_subset_insert [of "ts_heap w" a k] unfolding tcp_inv_def by blast
  have ref: "referenced x (w\<lparr>ts_io := remove1 a (ts_io w), ts_heap := (ts_heap w)[a := k], ts_os := s\<rparr>) = referenced x w" for x by (simp add: referenced_def)
  have "\<forall>x \<in> set (ts_socks w). x \<noteq> a" using d(2) by blast
  then show ?thesis using assms(1) ok d io heap ref by (auto simp: tcp_inv_def)
qed

lemma tcp_step_inv: "tcp_step sys cancel w w' \<Longrightarrow> tcp_inv w \<Longrightarrow> tcp_inv w'"
proof (induction rule: tcp_step.induct)
  case (tc_listen addrs fails ssl w ok fails' w')
  obtain f1 w1 where l: "foldE (listen_one sys) addrs (fails, w\<lparr>ts_ssl := ssl\<rparr>) = Inr (f1, w1)" "w' = (if f1 \<noteq> [] then clear_socks sys w1 else w1)"
    using tc_listen.hyps by (auto simp: tcp_listen_def bindE_eq_Inr split: if_splits)
  have "tcp_inv (w\<lparr>ts_ssl := ssl\<rparr>)" using tc_listen.prems by (rule tcp_inv_frame) (simp_all add: referenced_def)
  from listen_all_inv [OF this l(1)] show ?case using l(2) clear_socks_inv [of w1 sys] by simp
next
  case (tc_start w ok w')
  have "\<forall>a. referenced a w' \<longrightarrow> referenced a w" using tc_start.hyps by (auto simp: tcp_start_def referenced_def split: if_splits)
  then show ?case using tc_start by (intro tcp_inv_frame [OF tc_start.prems]) (auto simp: tcp_start_def split: if_splits)
next
  case (tc_stop w)
  then show ?case by (rule tcp_inv_frame) (auto simp: tcp_stop_def referenced_def)
next
  case (tc_task t w)
  then show ?case using run_task_inv by blast
next
  case (tc_accept a w)
  then show ?case using accept_round_inv by blast
next
  case (tc_serve a w k s)
  then show ?case using serve_inv [of w a k s] by simp
qed

lemma tcp_reachable_inv: "tcp_reachable sys cancel w \<Longrightarrow> tcp_inv w"
proof (induction rule: tcp_reachable.induct)
  case (tr_init recvTimeout s)
  show ?case by (simp add: tcp_inv_def TcpServer_def referenced_def)
next
  case (tr_step w w')
  then show ?case using tcp_step_inv by blast
qed

lemma tcp_listen_spec:
  assumes "tcp_inv w" "tcp_listen sys addrs [] ssl w = Inr (ok, fails, w')"
  shows "ok = (fails = [])" "set fails \<subseteq> set addrs" "ok \<Longrightarrow> ts_socks w' = ts_socks w @ [length (ts_heap w)..<length (ts_heap w) + length addrs]"
    "\<not> ok \<Longrightarrow> ts_socks w' = []"
    "\<not> ok \<Longrightarrow> length (ts_heap w) \<le> a \<Longrightarrow> a < length (ts_heap w') \<Longrightarrow> \<not> isValid (ts_heap w' ! a)"
proof -
  let ?n = "length (ts_heap w)" and ?w = "w\<lparr>ts_ssl := ssl\<rparr>"
  obtain w1 where l: "foldE (listen_one sys) addrs ([], ?w) = Inr (fails, w1)" "w' = (if fails \<noteq> [] then clear_socks sys w1 else w1)" "ok = (fails = [])"
    using assms(2) by (auto simp: tcp_listen_def bindE_eq_Inr split: if_splits)
  obtain new good where g: "ts_heap w1 = ts_heap w @ new" "length new = length addrs"
    "good = filter (\<lambda>a. isValid ((ts_heap w @ new) ! a)) [?n..<?n + length addrs]" "ts_socks w1 = ts_socks w @ good" "set fails \<subseteq> set addrs"
    "length good + length fails = length addrs" "ts_accept w1 = ts_accept w" "ts_loops w1 = ts_loops w"
    using listen_all_spec [OF l(1)] by auto
  show "ok = (fails = [])" "set fails \<subseteq> set addrs" using l(3) g(5) by simp_all
  show "ts_socks w' = ts_socks w @ [?n..<?n + length addrs]" if ok
  proof -
    have "length good = length [?n..<?n + length addrs]" using that l(3) g(6) by simp
    then have "good = [?n..<?n + length addrs]" unfolding g(3) by (metis filter_True length_filter_less less_irrefl)
    then show ?thesis using that l(2, 3) g(4) by simp
  qed
  have "tcp_inv ?w" using assms(1) by (rule tcp_inv_frame) (simp_all add: referenced_def)
  then have inv: "tcp_inv w1" using listen_all_inv l(1) by blast
  have b: "\<forall>a \<in> set (ts_socks w1). a < length (ts_heap w1)" "\<forall>k \<in> set (ts_heap w1). sock_ok k" using inv by (simp_all add: tcp_inv_def)
  note c = clear_socks_spec [OF b, of sys, unfolded Let_def]
  show "ts_socks w' = []" if "\<not> ok" using that l(2, 3) c by simp
  show "\<not> isValid (ts_heap w' ! a)" if "\<not> ok" "?n \<le> a" "a < length (ts_heap w')" for a
  proof (cases "isValid (ts_heap w1 ! a)")
    case True
    have w': "w' = clear_socks sys w1" using that l(2, 3) by simp
    then have "a < ?n + length addrs" using that(3) c g(1, 2) by simp
    then have "a \<in> set (ts_socks w1)" using True that(2) g(1, 3, 4) by simp
    moreover have "StartAccept a \<notin> set (ts_accept w1)" "a \<notin> set (ts_loops w1)" using assms(1) that(2) g(7, 8) by (auto simp: tcp_inv_def referenced_def)
    ultimately show ?thesis using c w' by blast
  next
    case False
    then show ?thesis using that l(2, 3) c by simp
  qed
qed

lemma accept_closed:
  assumes "\<not> ts_isStop w" "\<not> isValid (ts_heap w ! a)" "\<forall>s. sys_accept sys s (- 1) = (- 1, s)"
  shows "startAccept_round sys a w = w"
  using assms by (simp add: startAccept_round_def Socket_accept_def isValid_def)

section \<open>Properties\<close>

text \<open>C35. In every state a TCP server can reach, the sockets it listens on have open descriptors, and each accepted client is queued once with a connected
  socket of its own. Listening is all or nothing: it succeeds exactly when every address could be bound, and after a failure no socket
  that it made stays open; an address that is neither IPv4 nor IPv6 makes it call through a null pointer. The task that \<open>stop\<close> schedules closes every
  listening socket. When the server is started again before that task ran, the accept loops of the closed
  sockets keep failing and never end.\<close>

theorem tcp_server_lifecycle:
  assumes "tcp_reachable sys cancel w"
  shows "(\<forall>a \<in> set (ts_socks w). isValid (ts_heap w ! a)) \<and> distinct (ts_socks w)
    \<and> (\<forall>a \<in> set (ts_io w). m_isConnected (ts_heap w ! a)) \<and> distinct (ts_io w)
    \<and> (tcp_listen sys addrs [] ssl w = Inl NullSocket \<longleftrightarrow> (\<exists>addr \<in> set addrs. uint (getFamily addr) \<noteq> 2 \<and> uint (getFamily addr) \<noteq> 10))
    \<and> (\<forall>ok fails w'. tcp_listen sys addrs [] ssl w = Inr (ok, fails, w') \<longrightarrow>
         ok = (fails = []) \<and> set fails \<subseteq> set addrs
         \<and> (ok \<longrightarrow> ts_socks w' = ts_socks w @ [length (ts_heap w)..<length (ts_heap w) + length addrs])
         \<and> (\<not> ok \<longrightarrow> ts_socks w' = [] \<and> (\<forall>a. length (ts_heap w) \<le> a \<and> a < length (ts_heap w') \<longrightarrow> \<not> isValid (ts_heap w' ! a))))
    \<and> ts_socks (stop_task sys cancel w) = [] \<and> (\<forall>a \<in> set (ts_socks w). \<not> isValid (ts_heap (stop_task sys cancel w) ! a))
    \<and> (\<not> ts_isStop w \<and> (\<forall>s. sys_accept sys s (- 1) = (- 1, s)) \<longrightarrow>
         (\<forall>a \<in> set (ts_socks w) \<inter> set (ts_loops w). startAccept_round sys a (stop_task sys cancel w) = stop_task sys cancel w))"
proof -
  have inv: "tcp_inv w" by (rule tcp_reachable_inv [OF assms])
  note st = stop_task_spec [OF inv, of sys cancel, unfolded Let_def]
  have null: "tcp_listen sys addrs [] ssl w = Inl NullSocket \<longleftrightarrow> (\<exists>addr \<in> set addrs. uint (getFamily addr) \<noteq> 2 \<and> uint (getFamily addr) \<noteq> 10)"
  proof (cases "foldE (listen_one sys) addrs ([], w\<lparr>ts_ssl := ssl\<rparr>)")
    case (Inl e)
    then show ?thesis using listen_error [of sys addrs "([], w\<lparr>ts_ssl := ssl\<rparr>)"] by (cases e) (simp add: tcp_listen_def)
  next
    case (Inr fw)
    then show ?thesis using listen_error [of sys addrs "([], w\<lparr>ts_ssl := ssl\<rparr>)"] by (simp add: tcp_listen_def case_prod_beta)
  qed
  have loops: "\<not> ts_isStop w \<and> (\<forall>s. sys_accept sys s (- 1) = (- 1, s)) \<longrightarrow>
      (\<forall>a \<in> set (ts_socks w) \<inter> set (ts_loops w). startAccept_round sys a (stop_task sys cancel w) = stop_task sys cancel w)"
    using accept_closed [of "stop_task sys cancel w" _ sys] st by simp
  have listen: "\<forall>ok fails w'. tcp_listen sys addrs [] ssl w = Inr (ok, fails, w') \<longrightarrow> ok = (fails = []) \<and> set fails \<subseteq> set addrs
         \<and> (ok \<longrightarrow> ts_socks w' = ts_socks w @ [length (ts_heap w)..<length (ts_heap w) + length addrs])
         \<and> (\<not> ok \<longrightarrow> ts_socks w' = [] \<and> (\<forall>a. length (ts_heap w) \<le> a \<and> a < length (ts_heap w') \<longrightarrow> \<not> isValid (ts_heap w' ! a)))"
  proof (intro allI impI)
    fix ok fails w'
    assume "tcp_listen sys addrs [] ssl w = Inr (ok, fails, w')"
    note t = tcp_listen_spec [OF inv this]
    show "ok = (fails = []) \<and> set fails \<subseteq> set addrs
         \<and> (ok \<longrightarrow> ts_socks w' = ts_socks w @ [length (ts_heap w)..<length (ts_heap w) + length addrs])
         \<and> (\<not> ok \<longrightarrow> ts_socks w' = [] \<and> (\<forall>a. length (ts_heap w) \<le> a \<and> a < length (ts_heap w') \<longrightarrow> \<not> isValid (ts_heap w' ! a)))"
      using t(1, 2) t(3-5) by blast
  qed
  show ?thesis using inv null listen st loops unfolding tcp_inv_def by (intro conjI) blast+
qed

theorem tcp_server_lifecycle_witness:
  "tcp_listen net_sys [UnixAddress_default] [] False (TcpServer 1000 demo_net) = Inl NullSocket"
proof -
  have "uint (getFamily UnixAddress_default) = 1" by (simp add: UnixAddress_default_def getFamily_def AF_UNIX_def)
  then show ?thesis using tcp_server_lifecycle [OF tr_init [of net_sys "\<lambda>s fd. s" 1000 demo_net], of "[UnixAddress_default]" False] by simp
qed

end
