(* ===== verification/Sylar_Http11.thy ===== *)
theory Sylar_Http11
  imports Sylar_Session
begin

text \<open>
  The state machine of HTTP requests (\<^verbatim>\<open>src/sylar/http/http11_parser.cc\<close>). The labels of the goto code are definitions: \<open>h11_trN\<close>
  is the label \<^verbatim>\<open>trN\<close>, a sequence of actions and the state it jumps to, and \<open>h11_stN\<close> the tests of \<^verbatim>\<open>case N\<close> on the current
  character. The actions are those of the grammar; the callbacks are set, as \<^verbatim>\<open>HttpRequestParser\<close> sets all of them.
  Offsets are of type \<^verbatim>\<open>size_t\<close>, whose subtraction wraps around. A failed assertion is an error value.
\<close>

section \<open>The parser object\<close>

record http_parser =
  hp_cs :: nat
  hp_body_start :: nat
  hp_content_len :: int
  hp_nread :: nat
  hp_mark :: nat
  hp_field_start :: nat
  hp_field_len :: nat
  hp_query_start :: nat
  hp_xml_sent :: bool
  hp_json_sent :: bool
  hp_uri_relaxed :: bool

datatype machine_action =
    Mark | Start_field | Start_query | Write_field | Write_value | Query_cb | Element_cb Element | Set_xml | Set_json | Done nat

type_synonym jump = "machine_action list \<times> nat"

abbreviation goto :: "nat \<Rightarrow> jump" where
  "goto n \<equiv> ([], n)"

text \<open>\<open>parser\<close> holds what the constructor leaves behind; \<^verbatim>\<open>query_start\<close> and \<^verbatim>\<open>uri_relaxed\<close> are not set.\<close>

definition http_parser_init :: "http_parser \<Rightarrow> http_parser" where
  "http_parser_init parser = parser\<lparr>hp_cs := 1, hp_body_start := 0, hp_content_len := 0, hp_mark := 0, hp_nread := 0,
     hp_field_len := 0, hp_field_start := 0, hp_xml_sent := False, hp_json_sent := False\<rparr>"

section \<open>The labels\<close>

text \<open>The characters that are allowed in relaxed mode only are lifted out of the range of a \<^verbatim>\<open>char\<close>.\<close>

definition widened :: "bool \<Rightarrow> int \<Rightarrow> int" where
  "widened relaxed c = 128 + (c - (- 128)) + (if relaxed then 256 else 0)"

definition widec :: "bool \<Rightarrow> int \<Rightarrow> int" where
  "widec relaxed c =
     (if c < 123 then (if 94 \<le> c \<and> c \<le> 94 then widened relaxed c else c)
      else if c > 123 then (if 125 \<le> c \<and> c \<le> 125 then widened relaxed c else c)
      else widened relaxed c)"

definition h11_tr0 :: jump where "h11_tr0 = ([Mark], 2)"
definition h11_tr4 :: jump where "h11_tr4 = ([Element_cb request_method], 3)"
definition h11_tr6 :: jump where "h11_tr6 = ([Mark, Element_cb request_path, Element_cb request_uri], 4)"
definition h11_tr37 :: jump where "h11_tr37 = ([Element_cb request_path, Element_cb request_uri], 4)"
definition h11_tr44 :: jump where "h11_tr44 = ([Mark, Element_cb fragment], 4)"
definition h11_tr47 :: jump where "h11_tr47 = ([Element_cb fragment], 4)"
definition h11_tr54 :: jump where "h11_tr54 = ([Start_query, Query_cb, Element_cb request_uri], 4)"
definition h11_tr58 :: jump where "h11_tr58 = ([Query_cb, Element_cb request_uri], 4)"
definition h11_tr13 :: jump where "h11_tr13 = ([Mark], 5)"
definition h11_tr21 :: jump where "h11_tr21 = ([Element_cb http_version], 13)"
definition h11_tr30 :: jump where "h11_tr30 = ([Mark, Write_value], 13)"
definition h11_tr33 :: jump where "h11_tr33 = ([Write_value], 13)"
definition h11_tr23 :: jump where "h11_tr23 = ([Start_field], 14)"
definition h11_tr27 :: jump where "h11_tr27 = ([Write_field], 15)"
definition h11_tr29 :: jump where "h11_tr29 = ([Mark], 15)"
definition h11_tr28 :: jump where "h11_tr28 = ([Mark], 16)"
definition h11_tr22 :: jump where "h11_tr22 = ([Element_cb http_version], 17)"
definition h11_tr31 :: jump where "h11_tr31 = ([Mark, Write_value], 17)"
definition h11_tr34 :: jump where "h11_tr34 = ([Write_value], 17)"
definition h11_tr24 :: jump where "h11_tr24 = ([Start_field, Done 348], 348)"
definition h11_tr36 :: jump where "h11_tr36 = ([Done 348], 348)"
definition h11_tr25 :: jump where "h11_tr25 = ([Start_field], 18)"
definition h11_tr7 :: jump where "h11_tr7 = ([Mark], 19)"
definition h11_tr8 :: jump where "h11_tr8 = ([Mark, Element_cb request_path, Element_cb request_uri], 20)"
definition h11_tr39 :: jump where "h11_tr39 = ([Element_cb request_path, Element_cb request_uri], 20)"
definition h11_tr55 :: jump where "h11_tr55 = ([Start_query, Query_cb, Element_cb request_uri], 20)"
definition h11_tr59 :: jump where "h11_tr59 = ([Query_cb, Element_cb request_uri], 20)"
definition h11_tr43 :: jump where "h11_tr43 = ([Mark], 21)"
definition h11_tr45 :: jump where "h11_tr45 = ([Mark], 22)"
definition h11_tr9 :: jump where "h11_tr9 = ([Mark], 24)"
definition h11_tr203 :: jump where "h11_tr203 = ([Mark], 26)"
definition h11_tr204 :: jump where "h11_tr204 = ([Mark], 27)"
definition h11_tr11 :: jump where "h11_tr11 = ([Mark, Element_cb request_path], 29)"
definition h11_tr42 :: jump where "h11_tr42 = ([Element_cb request_path], 29)"
definition h11_tr53 :: jump where "h11_tr53 = ([Start_query], 30)"
definition h11_tr56 :: jump where "h11_tr56 = ([Start_query], 31)"
definition h11_tr10 :: jump where "h11_tr10 = ([Mark], 33)"
definition h11_tr12 :: jump where "h11_tr12 = ([Mark], 173)"
definition h11_tr2 :: jump where "h11_tr2 = ([Mark], 194)"
definition h11_tr224 :: jump where "h11_tr224 = ([Element_cb request_path], 196)"
definition h11_tr227 :: jump where "h11_tr227 = ([Set_xml, Done 349], 349)"
definition h11_tr235 :: jump where "h11_tr235 = ([Set_json, Done 349], 349)"
definition h11_tr3 :: jump where "h11_tr3 = ([Mark], 198)"
definition h11_tr228 :: jump where "h11_tr228 = ([Element_cb request_path], 199)"
definition h11_tr232 :: jump where "h11_tr232 = ([Mark], 200)"

definition h11_st1 :: "bool \<Rightarrow> int \<Rightarrow> jump" where
  "h11_st1 relaxed c =
     (if c = 60 then h11_tr2 else if c = 64 then h11_tr3 else if c > 57 then (if 65 \<le> c \<and> c \<le> 90 then h11_tr0 else goto 0)
      else if c \<ge> 48 then h11_tr0 else goto 0)"

definition h11_st2 :: "bool \<Rightarrow> int \<Rightarrow> jump" where
  "h11_st2 relaxed c =
     (if c = 32 then h11_tr4 else if c > 57 then (if 65 \<le> c \<and> c \<le> 90 then goto 175 else goto 0) else if c \<ge> 48 then goto 175
      else goto 0)"

definition h11_st3 :: "bool \<Rightarrow> int \<Rightarrow> jump" where
  "h11_st3 relaxed c =
     (let w = widec relaxed c in if w = 32 then h11_tr6 else if w = 33 then h11_tr7 else if w = 35 then h11_tr8 else if w = 37 then h11_tr9
      else if w = 47 then h11_tr10 else if w = 59 then h11_tr7 else if w = 61 then h11_tr7 else if w = 63 then h11_tr11
      else if w = 64 then h11_tr7 else if w = 95 then h11_tr7 else if w = 126 then h11_tr7 else if w = 606 then h11_tr7
      else if w = 635 then h11_tr7 else if w = 637 then h11_tr7 else if w < 65 then (if 36 \<le> w \<and> w \<le> 57 then h11_tr7 else goto 0)
      else if w > 90 then (if 97 \<le> w \<and> w \<le> 122 then h11_tr12 else goto 0) else h11_tr12)"

definition h11_st4 :: "bool \<Rightarrow> int \<Rightarrow> jump" where
  "h11_st4 relaxed c =
     (if c = 72 then h11_tr13 else goto 0)"

definition h11_st5 :: "bool \<Rightarrow> int \<Rightarrow> jump" where
  "h11_st5 relaxed c =
     (if c = 84 then goto 6 else goto 0)"

definition h11_st6 :: "bool \<Rightarrow> int \<Rightarrow> jump" where
  "h11_st6 relaxed c =
     (if c = 84 then goto 7 else goto 0)"

definition h11_st7 :: "bool \<Rightarrow> int \<Rightarrow> jump" where
  "h11_st7 relaxed c =
     (if c = 80 then goto 8 else goto 0)"

definition h11_st8 :: "bool \<Rightarrow> int \<Rightarrow> jump" where
  "h11_st8 relaxed c =
     (if c = 47 then goto 9 else goto 0)"

definition h11_st9 :: "bool \<Rightarrow> int \<Rightarrow> jump" where
  "h11_st9 relaxed c =
     (if c = 49 then goto 10 else goto 0)"

definition h11_st10 :: "bool \<Rightarrow> int \<Rightarrow> jump" where
  "h11_st10 relaxed c =
     (if c = 46 then goto 11 else goto 0)"

definition h11_st11 :: "bool \<Rightarrow> int \<Rightarrow> jump" where
  "h11_st11 relaxed c =
     (if 48 \<le> c \<and> c \<le> 49 then goto 12 else goto 0)"

definition h11_st12 :: "bool \<Rightarrow> int \<Rightarrow> jump" where
  "h11_st12 relaxed c =
     (if c = 10 then h11_tr21 else if c = 13 then h11_tr22 else goto 0)"

definition h11_st13 :: "bool \<Rightarrow> int \<Rightarrow> jump" where
  "h11_st13 relaxed c =
     (if c = 10 then h11_tr24 else if c = 13 then h11_tr25 else if c = 33 then h11_tr23 else if c = 124 then h11_tr23
      else if c = 126 then h11_tr23 else if c < 42 then (if c < 11 then (if 1 \<le> c \<and> c \<le> 8 then h11_tr23 else goto 0)
      else if c > 31 then (if 35 \<le> c \<and> c \<le> 39 then h11_tr23 else goto 0) else h11_tr23)
      else if c > 43 then (if c < 48 then (if 45 \<le> c \<and> c \<le> 46 then h11_tr23 else goto 0)
      else if c > 57 then (if c > 90 then (if 94 \<le> c \<and> c \<le> 122 then h11_tr23 else goto 0) else if c \<ge> 65 then h11_tr23
      else goto 0) else h11_tr23) else h11_tr23)"

definition h11_st14 :: "bool \<Rightarrow> int \<Rightarrow> jump" where
  "h11_st14 relaxed c =
     (if c = 33 then goto 14 else if c = 58 then h11_tr27 else if c = 124 then goto 14 else if c = 126 then goto 14
      else if c < 42 then (if c < 10 then (if 1 \<le> c \<and> c \<le> 8 then goto 14 else goto 0)
      else if c > 31 then (if 35 \<le> c \<and> c \<le> 39 then goto 14 else goto 0) else goto 14)
      else if c > 43 then (if c < 48 then (if 45 \<le> c \<and> c \<le> 46 then goto 14 else goto 0)
      else if c > 57 then (if c > 90 then (if 94 \<le> c \<and> c \<le> 122 then goto 14 else goto 0) else if c \<ge> 65 then goto 14
      else goto 0) else goto 14) else goto 14)"

definition h11_st15 :: "bool \<Rightarrow> int \<Rightarrow> jump" where
  "h11_st15 relaxed c =
     (if c = 0 then goto 0 else if c = 9 then h11_tr29 else if c = 10 then h11_tr30 else if c = 13 then h11_tr31 else if c = 32 then h11_tr29
      else if c = 127 then goto 0 else h11_tr28)"

definition h11_st16 :: "bool \<Rightarrow> int \<Rightarrow> jump" where
  "h11_st16 relaxed c =
     (if c = 0 then goto 0 else if c = 10 then h11_tr33 else if c = 13 then h11_tr34 else if c = 127 then goto 0 else goto 16)"

definition h11_st17 :: "bool \<Rightarrow> int \<Rightarrow> jump" where
  "h11_st17 relaxed c =
     (if c = 10 then goto 13 else goto 0)"

definition h11_st18 :: "bool \<Rightarrow> int \<Rightarrow> jump" where
  "h11_st18 relaxed c =
     (if c = 10 then h11_tr36 else if c = 33 then goto 14 else if c = 58 then h11_tr27 else if c = 124 then goto 14 else if c = 126 then goto 14
      else if c < 42 then (if c < 11 then (if 1 \<le> c \<and> c \<le> 8 then goto 14 else goto 0)
      else if c > 31 then (if 35 \<le> c \<and> c \<le> 39 then goto 14 else goto 0) else goto 14)
      else if c > 43 then (if c < 48 then (if 45 \<le> c \<and> c \<le> 46 then goto 14 else goto 0)
      else if c > 57 then (if c > 90 then (if 94 \<le> c \<and> c \<le> 122 then goto 14 else goto 0) else if c \<ge> 65 then goto 14
      else goto 0) else goto 14) else goto 14)"

definition h11_st19 :: "bool \<Rightarrow> int \<Rightarrow> jump" where
  "h11_st19 relaxed c =
     (let w = widec relaxed c in if w = 32 then h11_tr37 else if w = 33 then goto 19 else if w = 35 then h11_tr39 else if w = 37 then goto 24
      else if w = 47 then goto 26 else if w = 59 then goto 19 else if w = 61 then goto 19 else if w = 63 then h11_tr42
      else if w = 95 then goto 19 else if w = 126 then goto 19 else if w = 606 then goto 19 else if w = 635 then goto 19
      else if w = 637 then goto 19 else if w < 64 then (if 36 \<le> w \<and> w \<le> 57 then goto 19 else goto 0)
      else if w > 90 then (if 97 \<le> w \<and> w \<le> 122 then goto 19 else goto 0) else goto 19)"

definition h11_st20 :: "bool \<Rightarrow> int \<Rightarrow> jump" where
  "h11_st20 relaxed c =
     (let w = widec relaxed c in if w = 32 then h11_tr44 else if w = 33 then h11_tr43 else if w = 37 then h11_tr45 else if w = 61 then h11_tr43
      else if w = 95 then h11_tr43 else if w = 126 then h11_tr43 else if w = 606 then h11_tr43 else if w = 635 then h11_tr43
      else if w = 637 then h11_tr43 else if w < 36 then (if w \<le> (- 1) then h11_tr43 else goto 0)
      else if w > 59 then (if w > 90 then (if 97 \<le> w \<and> w \<le> 122 then h11_tr43 else goto 0) else if w \<ge> 63 then h11_tr43
      else goto 0) else h11_tr43)"

definition h11_st21 :: "bool \<Rightarrow> int \<Rightarrow> jump" where
  "h11_st21 relaxed c =
     (let w = widec relaxed c in if w = 32 then h11_tr47 else if w = 33 then goto 21 else if w = 37 then goto 22 else if w = 61 then goto 21
      else if w = 95 then goto 21 else if w = 126 then goto 21 else if w = 606 then goto 21 else if w = 635 then goto 21
      else if w = 637 then goto 21 else if w < 36 then (if w \<le> (- 1) then goto 21 else goto 0)
      else if w > 59 then (if w > 90 then (if 97 \<le> w \<and> w \<le> 122 then goto 21 else goto 0) else if w \<ge> 63 then goto 21
      else goto 0) else goto 21)"

definition h11_st22 :: "bool \<Rightarrow> int \<Rightarrow> jump" where
  "h11_st22 relaxed c =
     (if c < 65 then (if 48 \<le> c \<and> c \<le> 57 then goto 23 else goto 0)
      else if c > 70 then (if 97 \<le> c \<and> c \<le> 102 then goto 23 else goto 0) else goto 23)"

definition h11_st23 :: "bool \<Rightarrow> int \<Rightarrow> jump" where
  "h11_st23 relaxed c =
     (if c < 65 then (if 48 \<le> c \<and> c \<le> 57 then goto 21 else goto 0)
      else if c > 70 then (if 97 \<le> c \<and> c \<le> 102 then goto 21 else goto 0) else goto 21)"

definition h11_st24 :: "bool \<Rightarrow> int \<Rightarrow> jump" where
  "h11_st24 relaxed c =
     (if c < 65 then (if 48 \<le> c \<and> c \<le> 57 then goto 25 else goto 0)
      else if c > 70 then (if 97 \<le> c \<and> c \<le> 102 then goto 25 else goto 0) else goto 25)"

definition h11_st25 :: "bool \<Rightarrow> int \<Rightarrow> jump" where
  "h11_st25 relaxed c =
     (if c < 65 then (if 48 \<le> c \<and> c \<le> 57 then goto 19 else goto 0)
      else if c > 70 then (if 97 \<le> c \<and> c \<le> 102 then goto 19 else goto 0) else goto 19)"

definition h11_st26 :: "bool \<Rightarrow> int \<Rightarrow> jump" where
  "h11_st26 relaxed c =
     (let w = widec relaxed c in if w = 32 then h11_tr37 else if w = 33 then goto 26 else if w = 35 then h11_tr39 else if w = 37 then goto 27
      else if w = 61 then goto 26 else if w = 63 then h11_tr42 else if w = 95 then goto 26 else if w = 126 then goto 26
      else if w = 606 then goto 26 else if w = 635 then goto 26 else if w = 637 then goto 26 else if w < 36 then (if w \<le> (- 1) then goto 26
      else goto 0) else if w > 59 then (if w > 90 then (if 97 \<le> w \<and> w \<le> 122 then goto 26 else goto 0)
      else if w \<ge> 64 then goto 26 else goto 0) else goto 26)"

definition h11_st27 :: "bool \<Rightarrow> int \<Rightarrow> jump" where
  "h11_st27 relaxed c =
     (if c < 65 then (if 48 \<le> c \<and> c \<le> 57 then goto 28 else goto 0)
      else if c > 70 then (if 97 \<le> c \<and> c \<le> 102 then goto 28 else goto 0) else goto 28)"

definition h11_st28 :: "bool \<Rightarrow> int \<Rightarrow> jump" where
  "h11_st28 relaxed c =
     (if c < 65 then (if 48 \<le> c \<and> c \<le> 57 then goto 26 else goto 0)
      else if c > 70 then (if 97 \<le> c \<and> c \<le> 102 then goto 26 else goto 0) else goto 26)"

definition h11_st29 :: "bool \<Rightarrow> int \<Rightarrow> jump" where
  "h11_st29 relaxed c =
     (let w = widec relaxed c in if w = 32 then h11_tr54 else if w = 33 then h11_tr53 else if w = 35 then h11_tr55 else if w = 37 then h11_tr56
      else if w = 61 then h11_tr53 else if w = 95 then h11_tr53 else if w = 126 then h11_tr53 else if w = 606 then h11_tr53
      else if w = 635 then h11_tr53 else if w = 637 then h11_tr53 else if w < 36 then (if w \<le> (- 1) then h11_tr53 else goto 0)
      else if w > 59 then (if w > 90 then (if 97 \<le> w \<and> w \<le> 122 then h11_tr53 else goto 0) else if w \<ge> 63 then h11_tr53
      else goto 0) else h11_tr53)"

definition h11_st30 :: "bool \<Rightarrow> int \<Rightarrow> jump" where
  "h11_st30 relaxed c =
     (let w = widec relaxed c in if w = 32 then h11_tr58 else if w = 33 then goto 30 else if w = 35 then h11_tr59 else if w = 37 then goto 31
      else if w = 61 then goto 30 else if w = 95 then goto 30 else if w = 126 then goto 30 else if w = 606 then goto 30
      else if w = 635 then goto 30 else if w = 637 then goto 30 else if w < 36 then (if w \<le> (- 1) then goto 30 else goto 0)
      else if w > 59 then (if w > 90 then (if 97 \<le> w \<and> w \<le> 122 then goto 30 else goto 0) else if w \<ge> 63 then goto 30
      else goto 0) else goto 30)"

definition h11_st31 :: "bool \<Rightarrow> int \<Rightarrow> jump" where
  "h11_st31 relaxed c =
     (if c < 65 then (if 48 \<le> c \<and> c \<le> 57 then goto 32 else goto 0)
      else if c > 70 then (if 97 \<le> c \<and> c \<le> 102 then goto 32 else goto 0) else goto 32)"

definition h11_st32 :: "bool \<Rightarrow> int \<Rightarrow> jump" where
  "h11_st32 relaxed c =
     (if c < 65 then (if 48 \<le> c \<and> c \<le> 57 then goto 30 else goto 0)
      else if c > 70 then (if 97 \<le> c \<and> c \<le> 102 then goto 30 else goto 0) else goto 30)"

definition h11_st33 :: "bool \<Rightarrow> int \<Rightarrow> jump" where
  "h11_st33 relaxed c =
     (let w = widec relaxed c in if w = 32 then h11_tr37 else if w = 33 then goto 26 else if w = 35 then h11_tr39 else if w = 37 then goto 27
      else if w = 47 then goto 34 else if w = 61 then goto 26 else if w = 63 then h11_tr42 else if w = 95 then goto 26
      else if w = 126 then goto 26 else if w = 606 then goto 26 else if w = 635 then goto 26 else if w = 637 then goto 26
      else if w < 36 then (if w \<le> (- 1) then goto 26 else goto 0)
      else if w > 59 then (if w > 90 then (if 97 \<le> w \<and> w \<le> 122 then goto 26 else goto 0) else if w \<ge> 64 then goto 26
      else goto 0) else goto 26)"

definition h11_st34 :: "bool \<Rightarrow> int \<Rightarrow> jump" where
  "h11_st34 relaxed c =
     (let w = widec relaxed c in if w = 32 then h11_tr37 else if w = 33 then goto 35 else if w = 35 then h11_tr39 else if w = 37 then goto 36
      else if w = 47 then goto 26 else if w = 58 then goto 38 else if w = 61 then goto 35 else if w = 63 then h11_tr42
      else if w = 64 then goto 42 else if w = 91 then goto 47 else if w = 95 then goto 35 else if w = 126 then goto 35
      else if w = 606 then goto 35 else if w = 635 then goto 35 else if w = 637 then goto 35
      else if w < 65 then (if 36 \<le> w \<and> w \<le> 59 then goto 35 else goto 0)
      else if w > 90 then (if 97 \<le> w \<and> w \<le> 122 then goto 35 else goto 0) else goto 35)"

definition h11_st35 :: "bool \<Rightarrow> int \<Rightarrow> jump" where
  "h11_st35 relaxed c =
     (let w = widec relaxed c in if w = 32 then h11_tr37 else if w = 33 then goto 35 else if w = 35 then h11_tr39 else if w = 37 then goto 36
      else if w = 47 then goto 26 else if w = 58 then goto 38 else if w = 61 then goto 35 else if w = 63 then h11_tr42
      else if w = 64 then goto 42 else if w = 95 then goto 35 else if w = 126 then goto 35 else if w = 606 then goto 35
      else if w = 635 then goto 35 else if w = 637 then goto 35 else if w < 65 then (if 36 \<le> w \<and> w \<le> 59 then goto 35 else goto 0)
      else if w > 90 then (if 97 \<le> w \<and> w \<le> 122 then goto 35 else goto 0) else goto 35)"

definition h11_st36 :: "bool \<Rightarrow> int \<Rightarrow> jump" where
  "h11_st36 relaxed c =
     (if c < 65 then (if 48 \<le> c \<and> c \<le> 57 then goto 37 else goto 0)
      else if c > 70 then (if 97 \<le> c \<and> c \<le> 102 then goto 37 else goto 0) else goto 37)"

definition h11_st37 :: "bool \<Rightarrow> int \<Rightarrow> jump" where
  "h11_st37 relaxed c =
     (if c < 65 then (if 48 \<le> c \<and> c \<le> 57 then goto 35 else goto 0)
      else if c > 70 then (if 97 \<le> c \<and> c \<le> 102 then goto 35 else goto 0) else goto 35)"

definition h11_st38 :: "bool \<Rightarrow> int \<Rightarrow> jump" where
  "h11_st38 relaxed c =
     (let w = widec relaxed c in if w = 32 then h11_tr37 else if w = 33 then goto 39 else if w = 35 then h11_tr39 else if w = 37 then goto 40
      else if w = 47 then goto 26 else if w = 61 then goto 39 else if w = 63 then h11_tr42 else if w = 64 then goto 42
      else if w = 95 then goto 39 else if w = 126 then goto 39 else if w = 606 then goto 39 else if w = 635 then goto 39
      else if w = 637 then goto 39 else if w < 58 then (if w > 46 then (if 48 \<le> w \<and> w \<le> 57 then goto 38 else goto 0)
      else if w \<ge> 36 then goto 39 else goto 0) else if w > 59 then (if w > 90 then (if 97 \<le> w \<and> w \<le> 122 then goto 39
      else goto 0) else if w \<ge> 65 then goto 39 else goto 0) else goto 39)"

definition h11_st39 :: "bool \<Rightarrow> int \<Rightarrow> jump" where
  "h11_st39 relaxed c =
     (let w = widec relaxed c in if w = 33 then goto 39 else if w = 37 then goto 40 else if w = 61 then goto 39 else if w = 64 then goto 42
      else if w = 95 then goto 39 else if w = 126 then goto 39 else if w = 606 then goto 39 else if w = 635 then goto 39
      else if w = 637 then goto 39 else if w < 48 then (if 36 \<le> w \<and> w \<le> 46 then goto 39 else goto 0)
      else if w > 59 then (if w > 90 then (if 97 \<le> w \<and> w \<le> 122 then goto 39 else goto 0) else if w \<ge> 65 then goto 39
      else goto 0) else goto 39)"

definition h11_st40 :: "bool \<Rightarrow> int \<Rightarrow> jump" where
  "h11_st40 relaxed c =
     (if c < 65 then (if 48 \<le> c \<and> c \<le> 57 then goto 41 else goto 0)
      else if c > 70 then (if 97 \<le> c \<and> c \<le> 102 then goto 41 else goto 0) else goto 41)"

definition h11_st41 :: "bool \<Rightarrow> int \<Rightarrow> jump" where
  "h11_st41 relaxed c =
     (if c < 65 then (if 48 \<le> c \<and> c \<le> 57 then goto 39 else goto 0)
      else if c > 70 then (if 97 \<le> c \<and> c \<le> 102 then goto 39 else goto 0) else goto 39)"

definition h11_st42 :: "bool \<Rightarrow> int \<Rightarrow> jump" where
  "h11_st42 relaxed c =
     (let w = widec relaxed c in if w = 32 then h11_tr37 else if w = 33 then goto 43 else if w = 35 then h11_tr39 else if w = 37 then goto 44
      else if w = 47 then goto 26 else if w = 58 then goto 46 else if w = 61 then goto 43 else if w = 63 then h11_tr42
      else if w = 91 then goto 47 else if w = 95 then goto 43 else if w = 126 then goto 43 else if w = 606 then goto 43
      else if w = 635 then goto 43 else if w = 637 then goto 43 else if w < 65 then (if 36 \<le> w \<and> w \<le> 59 then goto 43 else goto 0)
      else if w > 90 then (if 97 \<le> w \<and> w \<le> 122 then goto 43 else goto 0) else goto 43)"

definition h11_st43 :: "bool \<Rightarrow> int \<Rightarrow> jump" where
  "h11_st43 relaxed c =
     (let w = widec relaxed c in if w = 32 then h11_tr37 else if w = 33 then goto 43 else if w = 35 then h11_tr39 else if w = 37 then goto 44
      else if w = 47 then goto 26 else if w = 58 then goto 46 else if w = 61 then goto 43 else if w = 63 then h11_tr42
      else if w = 95 then goto 43 else if w = 126 then goto 43 else if w = 606 then goto 43 else if w = 635 then goto 43
      else if w = 637 then goto 43 else if w < 65 then (if 36 \<le> w \<and> w \<le> 59 then goto 43 else goto 0)
      else if w > 90 then (if 97 \<le> w \<and> w \<le> 122 then goto 43 else goto 0) else goto 43)"

definition h11_st44 :: "bool \<Rightarrow> int \<Rightarrow> jump" where
  "h11_st44 relaxed c =
     (if c < 65 then (if 48 \<le> c \<and> c \<le> 57 then goto 45 else goto 0)
      else if c > 70 then (if 97 \<le> c \<and> c \<le> 102 then goto 45 else goto 0) else goto 45)"

definition h11_st45 :: "bool \<Rightarrow> int \<Rightarrow> jump" where
  "h11_st45 relaxed c =
     (if c < 65 then (if 48 \<le> c \<and> c \<le> 57 then goto 43 else goto 0)
      else if c > 70 then (if 97 \<le> c \<and> c \<le> 102 then goto 43 else goto 0) else goto 43)"

definition h11_st46 :: "bool \<Rightarrow> int \<Rightarrow> jump" where
  "h11_st46 relaxed c =
     (if c = 32 then h11_tr37 else if c = 35 then h11_tr39 else if c = 47 then goto 26 else if c = 63 then h11_tr42
      else if 48 \<le> c \<and> c \<le> 57 then goto 46 else goto 0)"

definition h11_st47 :: "bool \<Rightarrow> int \<Rightarrow> jump" where
  "h11_st47 relaxed c =
     (if c = 6 then goto 48 else if c = 58 then goto 167 else if c = 118 then goto 169
      else if c < 65 then (if 48 \<le> c \<and> c \<le> 57 then goto 91 else goto 0)
      else if c > 70 then (if 97 \<le> c \<and> c \<le> 102 then goto 91 else goto 0) else goto 91)"

definition h11_st48 :: "bool \<Rightarrow> int \<Rightarrow> jump" where
  "h11_st48 relaxed c =
     (if c < 65 then (if 48 \<le> c \<and> c \<le> 57 then goto 49 else goto 0)
      else if c > 70 then (if 97 \<le> c \<and> c \<le> 102 then goto 49 else goto 0) else goto 49)"

definition h11_st49 :: "bool \<Rightarrow> int \<Rightarrow> jump" where
  "h11_st49 relaxed c =
     (if c = 58 then goto 53 else if c < 65 then (if 48 \<le> c \<and> c \<le> 57 then goto 50 else goto 0)
      else if c > 70 then (if 97 \<le> c \<and> c \<le> 102 then goto 50 else goto 0) else goto 50)"

definition h11_st50 :: "bool \<Rightarrow> int \<Rightarrow> jump" where
  "h11_st50 relaxed c =
     (if c = 58 then goto 53 else if c < 65 then (if 48 \<le> c \<and> c \<le> 57 then goto 51 else goto 0)
      else if c > 70 then (if 97 \<le> c \<and> c \<le> 102 then goto 51 else goto 0) else goto 51)"

definition h11_st51 :: "bool \<Rightarrow> int \<Rightarrow> jump" where
  "h11_st51 relaxed c =
     (if c = 58 then goto 53 else if c < 65 then (if 48 \<le> c \<and> c \<le> 57 then goto 52 else goto 0)
      else if c > 70 then (if 97 \<le> c \<and> c \<le> 102 then goto 52 else goto 0) else goto 52)"

definition h11_st52 :: "bool \<Rightarrow> int \<Rightarrow> jump" where
  "h11_st52 relaxed c =
     (if c = 58 then goto 53 else goto 0)"

definition h11_st53 :: "bool \<Rightarrow> int \<Rightarrow> jump" where
  "h11_st53 relaxed c =
     (if c = 49 then goto 84 else if c = 50 then goto 87 else if c < 65 then (if 48 \<le> c \<and> c \<le> 57 then goto 54 else goto 0)
      else if c > 70 then (if 97 \<le> c \<and> c \<le> 102 then goto 90 else goto 0) else goto 90)"

definition h11_st54 :: "bool \<Rightarrow> int \<Rightarrow> jump" where
  "h11_st54 relaxed c =
     (if c = 46 then goto 55 else if c = 58 then goto 80 else if c < 65 then (if 48 \<le> c \<and> c \<le> 57 then goto 77 else goto 0)
      else if c > 70 then (if 97 \<le> c \<and> c \<le> 102 then goto 77 else goto 0) else goto 77)"

definition h11_st55 :: "bool \<Rightarrow> int \<Rightarrow> jump" where
  "h11_st55 relaxed c =
     (if c = 49 then goto 72 else if c = 50 then goto 74 else if 48 \<le> c \<and> c \<le> 57 then goto 56 else goto 0)"

definition h11_st56 :: "bool \<Rightarrow> int \<Rightarrow> jump" where
  "h11_st56 relaxed c =
     (if c = 46 then goto 57 else goto 0)"

definition h11_st57 :: "bool \<Rightarrow> int \<Rightarrow> jump" where
  "h11_st57 relaxed c =
     (if c = 49 then goto 67 else if c = 50 then goto 69 else if 48 \<le> c \<and> c \<le> 57 then goto 58 else goto 0)"

definition h11_st58 :: "bool \<Rightarrow> int \<Rightarrow> jump" where
  "h11_st58 relaxed c =
     (if c = 46 then goto 59 else goto 0)"

definition h11_st59 :: "bool \<Rightarrow> int \<Rightarrow> jump" where
  "h11_st59 relaxed c =
     (if c = 49 then goto 62 else if c = 50 then goto 64 else if 48 \<le> c \<and> c \<le> 57 then goto 60 else goto 0)"

definition h11_st60 :: "bool \<Rightarrow> int \<Rightarrow> jump" where
  "h11_st60 relaxed c =
     (if c = 93 then goto 61 else goto 0)"

definition h11_st61 :: "bool \<Rightarrow> int \<Rightarrow> jump" where
  "h11_st61 relaxed c =
     (if c = 32 then h11_tr37 else if c = 35 then h11_tr39 else if c = 47 then goto 26 else if c = 58 then goto 46 else if c = 63 then h11_tr42
      else goto 0)"

definition h11_st62 :: "bool \<Rightarrow> int \<Rightarrow> jump" where
  "h11_st62 relaxed c =
     (if c = 93 then goto 61 else if 48 \<le> c \<and> c \<le> 57 then goto 63 else goto 0)"

definition h11_st63 :: "bool \<Rightarrow> int \<Rightarrow> jump" where
  "h11_st63 relaxed c =
     (if c = 93 then goto 61 else if 48 \<le> c \<and> c \<le> 57 then goto 60 else goto 0)"

definition h11_st64 :: "bool \<Rightarrow> int \<Rightarrow> jump" where
  "h11_st64 relaxed c =
     (if c = 48 then goto 65 else if c = 53 then goto 66 else if c = 93 then goto 61 else goto 0)"

definition h11_st65 :: "bool \<Rightarrow> int \<Rightarrow> jump" where
  "h11_st65 relaxed c =
     (if 48 \<le> c \<and> c \<le> 57 then goto 60 else goto 0)"

definition h11_st66 :: "bool \<Rightarrow> int \<Rightarrow> jump" where
  "h11_st66 relaxed c =
     (if c = 48 then goto 60 else goto 0)"

definition h11_st67 :: "bool \<Rightarrow> int \<Rightarrow> jump" where
  "h11_st67 relaxed c =
     (if c = 46 then goto 59 else if 48 \<le> c \<and> c \<le> 57 then goto 68 else goto 0)"

definition h11_st68 :: "bool \<Rightarrow> int \<Rightarrow> jump" where
  "h11_st68 relaxed c =
     (if c = 46 then goto 59 else if 48 \<le> c \<and> c \<le> 57 then goto 58 else goto 0)"

definition h11_st69 :: "bool \<Rightarrow> int \<Rightarrow> jump" where
  "h11_st69 relaxed c =
     (if c = 46 then goto 59 else if c = 48 then goto 70 else if c = 53 then goto 71 else goto 0)"

definition h11_st70 :: "bool \<Rightarrow> int \<Rightarrow> jump" where
  "h11_st70 relaxed c =
     (if 48 \<le> c \<and> c \<le> 57 then goto 58 else goto 0)"

definition h11_st71 :: "bool \<Rightarrow> int \<Rightarrow> jump" where
  "h11_st71 relaxed c =
     (if c = 48 then goto 58 else goto 0)"

definition h11_st72 :: "bool \<Rightarrow> int \<Rightarrow> jump" where
  "h11_st72 relaxed c =
     (if c = 46 then goto 57 else if 48 \<le> c \<and> c \<le> 57 then goto 73 else goto 0)"

definition h11_st73 :: "bool \<Rightarrow> int \<Rightarrow> jump" where
  "h11_st73 relaxed c =
     (if c = 46 then goto 57 else if 48 \<le> c \<and> c \<le> 57 then goto 56 else goto 0)"

definition h11_st74 :: "bool \<Rightarrow> int \<Rightarrow> jump" where
  "h11_st74 relaxed c =
     (if c = 46 then goto 57 else if c = 48 then goto 75 else if c = 53 then goto 76 else goto 0)"

definition h11_st75 :: "bool \<Rightarrow> int \<Rightarrow> jump" where
  "h11_st75 relaxed c =
     (if 48 \<le> c \<and> c \<le> 57 then goto 56 else goto 0)"

definition h11_st76 :: "bool \<Rightarrow> int \<Rightarrow> jump" where
  "h11_st76 relaxed c =
     (if c = 48 then goto 56 else goto 0)"

definition h11_st77 :: "bool \<Rightarrow> int \<Rightarrow> jump" where
  "h11_st77 relaxed c =
     (if c = 58 then goto 80 else if c < 65 then (if 48 \<le> c \<and> c \<le> 57 then goto 78 else goto 0)
      else if c > 70 then (if 97 \<le> c \<and> c \<le> 102 then goto 78 else goto 0) else goto 78)"

definition h11_st78 :: "bool \<Rightarrow> int \<Rightarrow> jump" where
  "h11_st78 relaxed c =
     (if c = 58 then goto 80 else if c < 65 then (if 48 \<le> c \<and> c \<le> 57 then goto 79 else goto 0)
      else if c > 70 then (if 97 \<le> c \<and> c \<le> 102 then goto 79 else goto 0) else goto 79)"

definition h11_st79 :: "bool \<Rightarrow> int \<Rightarrow> jump" where
  "h11_st79 relaxed c =
     (if c = 58 then goto 80 else goto 0)"

definition h11_st80 :: "bool \<Rightarrow> int \<Rightarrow> jump" where
  "h11_st80 relaxed c =
     (if c < 65 then (if 48 \<le> c \<and> c \<le> 57 then goto 81 else goto 0)
      else if c > 70 then (if 97 \<le> c \<and> c \<le> 102 then goto 81 else goto 0) else goto 81)"

definition h11_st81 :: "bool \<Rightarrow> int \<Rightarrow> jump" where
  "h11_st81 relaxed c =
     (if c = 93 then goto 61 else if c < 65 then (if 48 \<le> c \<and> c \<le> 57 then goto 82 else goto 0)
      else if c > 70 then (if 97 \<le> c \<and> c \<le> 102 then goto 82 else goto 0) else goto 82)"

definition h11_st82 :: "bool \<Rightarrow> int \<Rightarrow> jump" where
  "h11_st82 relaxed c =
     (if c = 93 then goto 61 else if c < 65 then (if 48 \<le> c \<and> c \<le> 57 then goto 83 else goto 0)
      else if c > 70 then (if 97 \<le> c \<and> c \<le> 102 then goto 83 else goto 0) else goto 83)"

definition h11_st83 :: "bool \<Rightarrow> int \<Rightarrow> jump" where
  "h11_st83 relaxed c =
     (if c = 93 then goto 61 else if c < 65 then (if 48 \<le> c \<and> c \<le> 57 then goto 60 else goto 0)
      else if c > 70 then (if 97 \<le> c \<and> c \<le> 102 then goto 60 else goto 0) else goto 60)"

definition h11_st84 :: "bool \<Rightarrow> int \<Rightarrow> jump" where
  "h11_st84 relaxed c =
     (if c = 46 then goto 55 else if c = 58 then goto 80 else if c < 65 then (if 48 \<le> c \<and> c \<le> 57 then goto 85 else goto 0)
      else if c > 70 then (if 97 \<le> c \<and> c \<le> 102 then goto 77 else goto 0) else goto 77)"

definition h11_st85 :: "bool \<Rightarrow> int \<Rightarrow> jump" where
  "h11_st85 relaxed c =
     (if c = 46 then goto 55 else if c = 58 then goto 80 else if c < 65 then (if 48 \<le> c \<and> c \<le> 57 then goto 86 else goto 0)
      else if c > 70 then (if 97 \<le> c \<and> c \<le> 102 then goto 78 else goto 0) else goto 78)"

definition h11_st86 :: "bool \<Rightarrow> int \<Rightarrow> jump" where
  "h11_st86 relaxed c =
     (if c = 46 then goto 55 else if c = 58 then goto 80 else if c < 65 then (if 48 \<le> c \<and> c \<le> 57 then goto 79 else goto 0)
      else if c > 70 then (if 97 \<le> c \<and> c \<le> 102 then goto 79 else goto 0) else goto 79)"

definition h11_st87 :: "bool \<Rightarrow> int \<Rightarrow> jump" where
  "h11_st87 relaxed c =
     (if c = 46 then goto 55 else if c = 48 then goto 88 else if c = 53 then goto 89 else if c = 58 then goto 80
      else if c < 65 then (if 49 \<le> c \<and> c \<le> 57 then goto 77 else goto 0)
      else if c > 70 then (if 97 \<le> c \<and> c \<le> 102 then goto 77 else goto 0) else goto 77)"

definition h11_st88 :: "bool \<Rightarrow> int \<Rightarrow> jump" where
  "h11_st88 relaxed c =
     (if c = 58 then goto 80 else if c < 65 then (if 48 \<le> c \<and> c \<le> 57 then goto 86 else goto 0)
      else if c > 70 then (if 97 \<le> c \<and> c \<le> 102 then goto 78 else goto 0) else goto 78)"

definition h11_st89 :: "bool \<Rightarrow> int \<Rightarrow> jump" where
  "h11_st89 relaxed c =
     (if c = 48 then goto 86 else if c = 58 then goto 80 else if c < 65 then (if 49 \<le> c \<and> c \<le> 57 then goto 78 else goto 0)
      else if c > 70 then (if 97 \<le> c \<and> c \<le> 102 then goto 78 else goto 0) else goto 78)"

definition h11_st90 :: "bool \<Rightarrow> int \<Rightarrow> jump" where
  "h11_st90 relaxed c =
     (if c = 58 then goto 80 else if c < 65 then (if 48 \<le> c \<and> c \<le> 57 then goto 77 else goto 0)
      else if c > 70 then (if 97 \<le> c \<and> c \<le> 102 then goto 77 else goto 0) else goto 77)"

definition h11_st91 :: "bool \<Rightarrow> int \<Rightarrow> jump" where
  "h11_st91 relaxed c =
     (if c = 58 then goto 95 else if c < 65 then (if 48 \<le> c \<and> c \<le> 57 then goto 92 else goto 0)
      else if c > 70 then (if 97 \<le> c \<and> c \<le> 102 then goto 92 else goto 0) else goto 92)"

definition h11_st92 :: "bool \<Rightarrow> int \<Rightarrow> jump" where
  "h11_st92 relaxed c =
     (if c = 58 then goto 95 else if c < 65 then (if 48 \<le> c \<and> c \<le> 57 then goto 93 else goto 0)
      else if c > 70 then (if 97 \<le> c \<and> c \<le> 102 then goto 93 else goto 0) else goto 93)"

definition h11_st93 :: "bool \<Rightarrow> int \<Rightarrow> jump" where
  "h11_st93 relaxed c =
     (if c = 58 then goto 95 else if c < 65 then (if 48 \<le> c \<and> c \<le> 57 then goto 94 else goto 0)
      else if c > 70 then (if 97 \<le> c \<and> c \<le> 102 then goto 94 else goto 0) else goto 94)"

definition h11_st94 :: "bool \<Rightarrow> int \<Rightarrow> jump" where
  "h11_st94 relaxed c =
     (if c = 58 then goto 95 else goto 0)"

definition h11_st95 :: "bool \<Rightarrow> int \<Rightarrow> jump" where
  "h11_st95 relaxed c =
     (if c = 58 then goto 166 else if c < 65 then (if 48 \<le> c \<and> c \<le> 57 then goto 96 else goto 0)
      else if c > 70 then (if 97 \<le> c \<and> c \<le> 102 then goto 96 else goto 0) else goto 96)"

definition h11_st96 :: "bool \<Rightarrow> int \<Rightarrow> jump" where
  "h11_st96 relaxed c =
     (if c = 58 then goto 100 else if c < 65 then (if 48 \<le> c \<and> c \<le> 57 then goto 97 else goto 0)
      else if c > 70 then (if 97 \<le> c \<and> c \<le> 102 then goto 97 else goto 0) else goto 97)"

definition h11_st97 :: "bool \<Rightarrow> int \<Rightarrow> jump" where
  "h11_st97 relaxed c =
     (if c = 58 then goto 100 else if c < 65 then (if 48 \<le> c \<and> c \<le> 57 then goto 98 else goto 0)
      else if c > 70 then (if 97 \<le> c \<and> c \<le> 102 then goto 98 else goto 0) else goto 98)"

definition h11_st98 :: "bool \<Rightarrow> int \<Rightarrow> jump" where
  "h11_st98 relaxed c =
     (if c = 58 then goto 100 else if c < 65 then (if 48 \<le> c \<and> c \<le> 57 then goto 99 else goto 0)
      else if c > 70 then (if 97 \<le> c \<and> c \<le> 102 then goto 99 else goto 0) else goto 99)"

definition h11_st99 :: "bool \<Rightarrow> int \<Rightarrow> jump" where
  "h11_st99 relaxed c =
     (if c = 58 then goto 100 else goto 0)"

definition h11_st100 :: "bool \<Rightarrow> int \<Rightarrow> jump" where
  "h11_st100 relaxed c =
     (if c = 58 then goto 165 else if c < 65 then (if 48 \<le> c \<and> c \<le> 57 then goto 101 else goto 0)
      else if c > 70 then (if 97 \<le> c \<and> c \<le> 102 then goto 101 else goto 0) else goto 101)"

definition h11_st101 :: "bool \<Rightarrow> int \<Rightarrow> jump" where
  "h11_st101 relaxed c =
     (if c = 58 then goto 105 else if c < 65 then (if 48 \<le> c \<and> c \<le> 57 then goto 102 else goto 0)
      else if c > 70 then (if 97 \<le> c \<and> c \<le> 102 then goto 102 else goto 0) else goto 102)"

definition h11_st102 :: "bool \<Rightarrow> int \<Rightarrow> jump" where
  "h11_st102 relaxed c =
     (if c = 58 then goto 105 else if c < 65 then (if 48 \<le> c \<and> c \<le> 57 then goto 103 else goto 0)
      else if c > 70 then (if 97 \<le> c \<and> c \<le> 102 then goto 103 else goto 0) else goto 103)"

definition h11_st103 :: "bool \<Rightarrow> int \<Rightarrow> jump" where
  "h11_st103 relaxed c =
     (if c = 58 then goto 105 else if c < 65 then (if 48 \<le> c \<and> c \<le> 57 then goto 104 else goto 0)
      else if c > 70 then (if 97 \<le> c \<and> c \<le> 102 then goto 104 else goto 0) else goto 104)"

definition h11_st104 :: "bool \<Rightarrow> int \<Rightarrow> jump" where
  "h11_st104 relaxed c =
     (if c = 58 then goto 105 else goto 0)"

definition h11_st105 :: "bool \<Rightarrow> int \<Rightarrow> jump" where
  "h11_st105 relaxed c =
     (if c = 58 then goto 164 else if c < 65 then (if 48 \<le> c \<and> c \<le> 57 then goto 106 else goto 0)
      else if c > 70 then (if 97 \<le> c \<and> c \<le> 102 then goto 106 else goto 0) else goto 106)"

definition h11_st106 :: "bool \<Rightarrow> int \<Rightarrow> jump" where
  "h11_st106 relaxed c =
     (if c = 58 then goto 110 else if c < 65 then (if 48 \<le> c \<and> c \<le> 57 then goto 107 else goto 0)
      else if c > 70 then (if 97 \<le> c \<and> c \<le> 102 then goto 107 else goto 0) else goto 107)"

definition h11_st107 :: "bool \<Rightarrow> int \<Rightarrow> jump" where
  "h11_st107 relaxed c =
     (if c = 58 then goto 110 else if c < 65 then (if 48 \<le> c \<and> c \<le> 57 then goto 108 else goto 0)
      else if c > 70 then (if 97 \<le> c \<and> c \<le> 102 then goto 108 else goto 0) else goto 108)"

definition h11_st108 :: "bool \<Rightarrow> int \<Rightarrow> jump" where
  "h11_st108 relaxed c =
     (if c = 58 then goto 110 else if c < 65 then (if 48 \<le> c \<and> c \<le> 57 then goto 109 else goto 0)
      else if c > 70 then (if 97 \<le> c \<and> c \<le> 102 then goto 109 else goto 0) else goto 109)"

definition h11_st109 :: "bool \<Rightarrow> int \<Rightarrow> jump" where
  "h11_st109 relaxed c =
     (if c = 58 then goto 110 else goto 0)"

definition h11_st110 :: "bool \<Rightarrow> int \<Rightarrow> jump" where
  "h11_st110 relaxed c =
     (if c = 58 then goto 163 else if c < 65 then (if 48 \<le> c \<and> c \<le> 57 then goto 111 else goto 0)
      else if c > 70 then (if 97 \<le> c \<and> c \<le> 102 then goto 111 else goto 0) else goto 111)"

definition h11_st111 :: "bool \<Rightarrow> int \<Rightarrow> jump" where
  "h11_st111 relaxed c =
     (if c = 58 then goto 115 else if c < 65 then (if 48 \<le> c \<and> c \<le> 57 then goto 112 else goto 0)
      else if c > 70 then (if 97 \<le> c \<and> c \<le> 102 then goto 112 else goto 0) else goto 112)"

definition h11_st112 :: "bool \<Rightarrow> int \<Rightarrow> jump" where
  "h11_st112 relaxed c =
     (if c = 58 then goto 115 else if c < 65 then (if 48 \<le> c \<and> c \<le> 57 then goto 113 else goto 0)
      else if c > 70 then (if 97 \<le> c \<and> c \<le> 102 then goto 113 else goto 0) else goto 113)"

definition h11_st113 :: "bool \<Rightarrow> int \<Rightarrow> jump" where
  "h11_st113 relaxed c =
     (if c = 58 then goto 115 else if c < 65 then (if 48 \<le> c \<and> c \<le> 57 then goto 114 else goto 0)
      else if c > 70 then (if 97 \<le> c \<and> c \<le> 102 then goto 114 else goto 0) else goto 114)"

definition h11_st114 :: "bool \<Rightarrow> int \<Rightarrow> jump" where
  "h11_st114 relaxed c =
     (if c = 58 then goto 115 else goto 0)"

definition h11_st115 :: "bool \<Rightarrow> int \<Rightarrow> jump" where
  "h11_st115 relaxed c =
     (if c = 58 then goto 151 else if c < 65 then (if 48 \<le> c \<and> c \<le> 57 then goto 116 else goto 0)
      else if c > 70 then (if 97 \<le> c \<and> c \<le> 102 then goto 116 else goto 0) else goto 116)"

definition h11_st116 :: "bool \<Rightarrow> int \<Rightarrow> jump" where
  "h11_st116 relaxed c =
     (if c = 58 then goto 120 else if c < 65 then (if 48 \<le> c \<and> c \<le> 57 then goto 117 else goto 0)
      else if c > 70 then (if 97 \<le> c \<and> c \<le> 102 then goto 117 else goto 0) else goto 117)"

definition h11_st117 :: "bool \<Rightarrow> int \<Rightarrow> jump" where
  "h11_st117 relaxed c =
     (if c = 58 then goto 120 else if c < 65 then (if 48 \<le> c \<and> c \<le> 57 then goto 118 else goto 0)
      else if c > 70 then (if 97 \<le> c \<and> c \<le> 102 then goto 118 else goto 0) else goto 118)"

definition h11_st118 :: "bool \<Rightarrow> int \<Rightarrow> jump" where
  "h11_st118 relaxed c =
     (if c = 58 then goto 120 else if c < 65 then (if 48 \<le> c \<and> c \<le> 57 then goto 119 else goto 0)
      else if c > 70 then (if 97 \<le> c \<and> c \<le> 102 then goto 119 else goto 0) else goto 119)"

definition h11_st119 :: "bool \<Rightarrow> int \<Rightarrow> jump" where
  "h11_st119 relaxed c =
     (if c = 58 then goto 120 else goto 0)"

definition h11_st120 :: "bool \<Rightarrow> int \<Rightarrow> jump" where
  "h11_st120 relaxed c =
     (if c = 58 then goto 150 else if c < 65 then (if 48 \<le> c \<and> c \<le> 57 then goto 121 else goto 0)
      else if c > 70 then (if 97 \<le> c \<and> c \<le> 102 then goto 121 else goto 0) else goto 121)"

definition h11_st121 :: "bool \<Rightarrow> int \<Rightarrow> jump" where
  "h11_st121 relaxed c =
     (if c = 58 then goto 125 else if c < 65 then (if 48 \<le> c \<and> c \<le> 57 then goto 122 else goto 0)
      else if c > 70 then (if 97 \<le> c \<and> c \<le> 102 then goto 122 else goto 0) else goto 122)"

definition h11_st122 :: "bool \<Rightarrow> int \<Rightarrow> jump" where
  "h11_st122 relaxed c =
     (if c = 58 then goto 125 else if c < 65 then (if 48 \<le> c \<and> c \<le> 57 then goto 123 else goto 0)
      else if c > 70 then (if 97 \<le> c \<and> c \<le> 102 then goto 123 else goto 0) else goto 123)"

definition h11_st123 :: "bool \<Rightarrow> int \<Rightarrow> jump" where
  "h11_st123 relaxed c =
     (if c = 58 then goto 125 else if c < 65 then (if 48 \<le> c \<and> c \<le> 57 then goto 124 else goto 0)
      else if c > 70 then (if 97 \<le> c \<and> c \<le> 102 then goto 124 else goto 0) else goto 124)"

definition h11_st124 :: "bool \<Rightarrow> int \<Rightarrow> jump" where
  "h11_st124 relaxed c =
     (if c = 58 then goto 125 else goto 0)"

definition h11_st125 :: "bool \<Rightarrow> int \<Rightarrow> jump" where
  "h11_st125 relaxed c =
     (if c = 58 then goto 126 else if c < 65 then (if 48 \<le> c \<and> c \<le> 57 then goto 121 else goto 0)
      else if c > 70 then (if 97 \<le> c \<and> c \<le> 102 then goto 121 else goto 0) else goto 121)"

definition h11_st126 :: "bool \<Rightarrow> int \<Rightarrow> jump" where
  "h11_st126 relaxed c =
     (if c = 49 then goto 143 else if c = 50 then goto 146 else if c = 93 then goto 61
      else if c < 48 then (if 2 \<le> c \<and> c \<le> 3 then goto 48 else goto 0)
      else if c > 57 then (if c > 70 then (if 97 \<le> c \<and> c \<le> 102 then goto 149 else goto 0) else if c \<ge> 65 then goto 149
      else goto 0) else goto 127)"

definition h11_st127 :: "bool \<Rightarrow> int \<Rightarrow> jump" where
  "h11_st127 relaxed c =
     (if c = 46 then goto 55 else if c = 58 then goto 131 else if c = 93 then goto 61
      else if c < 65 then (if 48 \<le> c \<and> c \<le> 57 then goto 128 else goto 0)
      else if c > 70 then (if 97 \<le> c \<and> c \<le> 102 then goto 128 else goto 0) else goto 128)"

definition h11_st128 :: "bool \<Rightarrow> int \<Rightarrow> jump" where
  "h11_st128 relaxed c =
     (if c = 58 then goto 131 else if c = 93 then goto 61 else if c < 65 then (if 48 \<le> c \<and> c \<le> 57 then goto 129 else goto 0)
      else if c > 70 then (if 97 \<le> c \<and> c \<le> 102 then goto 129 else goto 0) else goto 129)"

definition h11_st129 :: "bool \<Rightarrow> int \<Rightarrow> jump" where
  "h11_st129 relaxed c =
     (if c = 58 then goto 131 else if c = 93 then goto 61 else if c < 65 then (if 48 \<le> c \<and> c \<le> 57 then goto 130 else goto 0)
      else if c > 70 then (if 97 \<le> c \<and> c \<le> 102 then goto 130 else goto 0) else goto 130)"

definition h11_st130 :: "bool \<Rightarrow> int \<Rightarrow> jump" where
  "h11_st130 relaxed c =
     (if c = 58 then goto 131 else if c = 93 then goto 61 else goto 0)"

definition h11_st131 :: "bool \<Rightarrow> int \<Rightarrow> jump" where
  "h11_st131 relaxed c =
     (if c = 49 then goto 136 else if c = 50 then goto 139 else if c < 65 then (if 48 \<le> c \<and> c \<le> 57 then goto 132 else goto 0)
      else if c > 70 then (if 97 \<le> c \<and> c \<le> 102 then goto 142 else goto 0) else goto 142)"

definition h11_st132 :: "bool \<Rightarrow> int \<Rightarrow> jump" where
  "h11_st132 relaxed c =
     (if c = 46 then goto 55 else if c = 58 then goto 80 else if c = 93 then goto 61
      else if c < 65 then (if 48 \<le> c \<and> c \<le> 57 then goto 133 else goto 0)
      else if c > 70 then (if 97 \<le> c \<and> c \<le> 102 then goto 133 else goto 0) else goto 133)"

definition h11_st133 :: "bool \<Rightarrow> int \<Rightarrow> jump" where
  "h11_st133 relaxed c =
     (if c = 58 then goto 80 else if c = 93 then goto 61 else if c < 65 then (if 48 \<le> c \<and> c \<le> 57 then goto 134 else goto 0)
      else if c > 70 then (if 97 \<le> c \<and> c \<le> 102 then goto 134 else goto 0) else goto 134)"

definition h11_st134 :: "bool \<Rightarrow> int \<Rightarrow> jump" where
  "h11_st134 relaxed c =
     (if c = 58 then goto 80 else if c = 93 then goto 61 else if c < 65 then (if 48 \<le> c \<and> c \<le> 57 then goto 135 else goto 0)
      else if c > 70 then (if 97 \<le> c \<and> c \<le> 102 then goto 135 else goto 0) else goto 135)"

definition h11_st135 :: "bool \<Rightarrow> int \<Rightarrow> jump" where
  "h11_st135 relaxed c =
     (if c = 58 then goto 80 else if c = 93 then goto 61 else goto 0)"

definition h11_st136 :: "bool \<Rightarrow> int \<Rightarrow> jump" where
  "h11_st136 relaxed c =
     (if c = 46 then goto 55 else if c = 58 then goto 80 else if c = 93 then goto 61
      else if c < 65 then (if 48 \<le> c \<and> c \<le> 57 then goto 137 else goto 0)
      else if c > 70 then (if 97 \<le> c \<and> c \<le> 102 then goto 133 else goto 0) else goto 133)"

definition h11_st137 :: "bool \<Rightarrow> int \<Rightarrow> jump" where
  "h11_st137 relaxed c =
     (if c = 46 then goto 55 else if c = 58 then goto 80 else if c = 93 then goto 61
      else if c < 65 then (if 48 \<le> c \<and> c \<le> 57 then goto 138 else goto 0)
      else if c > 70 then (if 97 \<le> c \<and> c \<le> 102 then goto 134 else goto 0) else goto 134)"

definition h11_st138 :: "bool \<Rightarrow> int \<Rightarrow> jump" where
  "h11_st138 relaxed c =
     (if c = 46 then goto 55 else if c = 58 then goto 80 else if c = 93 then goto 61
      else if c < 65 then (if 48 \<le> c \<and> c \<le> 57 then goto 135 else goto 0)
      else if c > 70 then (if 97 \<le> c \<and> c \<le> 102 then goto 135 else goto 0) else goto 135)"

definition h11_st139 :: "bool \<Rightarrow> int \<Rightarrow> jump" where
  "h11_st139 relaxed c =
     (if c = 46 then goto 55 else if c = 48 then goto 140 else if c = 53 then goto 141 else if c = 58 then goto 80 else if c = 93 then goto 61
      else if c < 65 then (if 49 \<le> c \<and> c \<le> 57 then goto 133 else goto 0)
      else if c > 70 then (if 97 \<le> c \<and> c \<le> 102 then goto 133 else goto 0) else goto 133)"

definition h11_st140 :: "bool \<Rightarrow> int \<Rightarrow> jump" where
  "h11_st140 relaxed c =
     (if c = 58 then goto 80 else if c = 93 then goto 61 else if c < 65 then (if 48 \<le> c \<and> c \<le> 57 then goto 138 else goto 0)
      else if c > 70 then (if 97 \<le> c \<and> c \<le> 102 then goto 134 else goto 0) else goto 134)"

definition h11_st141 :: "bool \<Rightarrow> int \<Rightarrow> jump" where
  "h11_st141 relaxed c =
     (if c = 48 then goto 138 else if c = 58 then goto 80 else if c = 93 then goto 61
      else if c < 65 then (if 49 \<le> c \<and> c \<le> 57 then goto 134 else goto 0)
      else if c > 70 then (if 97 \<le> c \<and> c \<le> 102 then goto 134 else goto 0) else goto 134)"

definition h11_st142 :: "bool \<Rightarrow> int \<Rightarrow> jump" where
  "h11_st142 relaxed c =
     (if c = 58 then goto 80 else if c = 93 then goto 61 else if c < 65 then (if 48 \<le> c \<and> c \<le> 57 then goto 133 else goto 0)
      else if c > 70 then (if 97 \<le> c \<and> c \<le> 102 then goto 133 else goto 0) else goto 133)"

definition h11_st143 :: "bool \<Rightarrow> int \<Rightarrow> jump" where
  "h11_st143 relaxed c =
     (if c = 46 then goto 55 else if c = 58 then goto 131 else if c = 93 then goto 61
      else if c < 65 then (if 48 \<le> c \<and> c \<le> 57 then goto 144 else goto 0)
      else if c > 70 then (if 97 \<le> c \<and> c \<le> 102 then goto 128 else goto 0) else goto 128)"

definition h11_st144 :: "bool \<Rightarrow> int \<Rightarrow> jump" where
  "h11_st144 relaxed c =
     (if c = 46 then goto 55 else if c = 58 then goto 131 else if c = 93 then goto 61
      else if c < 65 then (if 48 \<le> c \<and> c \<le> 57 then goto 145 else goto 0)
      else if c > 70 then (if 97 \<le> c \<and> c \<le> 102 then goto 129 else goto 0) else goto 129)"

definition h11_st145 :: "bool \<Rightarrow> int \<Rightarrow> jump" where
  "h11_st145 relaxed c =
     (if c = 46 then goto 55 else if c = 58 then goto 131 else if c = 93 then goto 61
      else if c < 65 then (if 48 \<le> c \<and> c \<le> 57 then goto 130 else goto 0)
      else if c > 70 then (if 97 \<le> c \<and> c \<le> 102 then goto 130 else goto 0) else goto 130)"

definition h11_st146 :: "bool \<Rightarrow> int \<Rightarrow> jump" where
  "h11_st146 relaxed c =
     (if c = 46 then goto 55 else if c = 48 then goto 147 else if c = 53 then goto 148 else if c = 58 then goto 131 else if c = 93 then goto 61
      else if c < 65 then (if 49 \<le> c \<and> c \<le> 57 then goto 128 else goto 0)
      else if c > 70 then (if 97 \<le> c \<and> c \<le> 102 then goto 128 else goto 0) else goto 128)"

definition h11_st147 :: "bool \<Rightarrow> int \<Rightarrow> jump" where
  "h11_st147 relaxed c =
     (if c = 58 then goto 131 else if c = 93 then goto 61 else if c < 65 then (if 48 \<le> c \<and> c \<le> 57 then goto 145 else goto 0)
      else if c > 70 then (if 97 \<le> c \<and> c \<le> 102 then goto 129 else goto 0) else goto 129)"

definition h11_st148 :: "bool \<Rightarrow> int \<Rightarrow> jump" where
  "h11_st148 relaxed c =
     (if c = 48 then goto 145 else if c = 58 then goto 131 else if c = 93 then goto 61
      else if c < 65 then (if 49 \<le> c \<and> c \<le> 57 then goto 129 else goto 0)
      else if c > 70 then (if 97 \<le> c \<and> c \<le> 102 then goto 129 else goto 0) else goto 129)"

definition h11_st149 :: "bool \<Rightarrow> int \<Rightarrow> jump" where
  "h11_st149 relaxed c =
     (if c = 58 then goto 131 else if c = 93 then goto 61 else if c < 65 then (if 48 \<le> c \<and> c \<le> 57 then goto 128 else goto 0)
      else if c > 70 then (if 97 \<le> c \<and> c \<le> 102 then goto 128 else goto 0) else goto 128)"

definition h11_st150 :: "bool \<Rightarrow> int \<Rightarrow> jump" where
  "h11_st150 relaxed c =
     (if c = 49 then goto 143 else if c = 50 then goto 146 else if c < 48 then (if 2 \<le> c \<and> c \<le> 3 then goto 48 else goto 0)
      else if c > 57 then (if c > 70 then (if 97 \<le> c \<and> c \<le> 102 then goto 149 else goto 0) else if c \<ge> 65 then goto 149
      else goto 0) else goto 127)"

definition h11_st151 :: "bool \<Rightarrow> int \<Rightarrow> jump" where
  "h11_st151 relaxed c =
     (if c = 49 then goto 156 else if c = 50 then goto 159 else if c < 48 then (if 2 \<le> c \<and> c \<le> 3 then goto 48 else goto 0)
      else if c > 57 then (if c > 70 then (if 97 \<le> c \<and> c \<le> 102 then goto 162 else goto 0) else if c \<ge> 65 then goto 162
      else goto 0) else goto 152)"

definition h11_st152 :: "bool \<Rightarrow> int \<Rightarrow> jump" where
  "h11_st152 relaxed c =
     (if c = 46 then goto 55 else if c = 58 then goto 131 else if c < 65 then (if 48 \<le> c \<and> c \<le> 57 then goto 153 else goto 0)
      else if c > 70 then (if 97 \<le> c \<and> c \<le> 102 then goto 153 else goto 0) else goto 153)"

definition h11_st153 :: "bool \<Rightarrow> int \<Rightarrow> jump" where
  "h11_st153 relaxed c =
     (if c = 58 then goto 131 else if c < 65 then (if 48 \<le> c \<and> c \<le> 57 then goto 154 else goto 0)
      else if c > 70 then (if 97 \<le> c \<and> c \<le> 102 then goto 154 else goto 0) else goto 154)"

definition h11_st154 :: "bool \<Rightarrow> int \<Rightarrow> jump" where
  "h11_st154 relaxed c =
     (if c = 58 then goto 131 else if c < 65 then (if 48 \<le> c \<and> c \<le> 57 then goto 155 else goto 0)
      else if c > 70 then (if 97 \<le> c \<and> c \<le> 102 then goto 155 else goto 0) else goto 155)"

definition h11_st155 :: "bool \<Rightarrow> int \<Rightarrow> jump" where
  "h11_st155 relaxed c =
     (if c = 58 then goto 131 else goto 0)"

definition h11_st156 :: "bool \<Rightarrow> int \<Rightarrow> jump" where
  "h11_st156 relaxed c =
     (if c = 46 then goto 55 else if c = 58 then goto 131 else if c < 65 then (if 48 \<le> c \<and> c \<le> 57 then goto 157 else goto 0)
      else if c > 70 then (if 97 \<le> c \<and> c \<le> 102 then goto 153 else goto 0) else goto 153)"

definition h11_st157 :: "bool \<Rightarrow> int \<Rightarrow> jump" where
  "h11_st157 relaxed c =
     (if c = 46 then goto 55 else if c = 58 then goto 131 else if c < 65 then (if 48 \<le> c \<and> c \<le> 57 then goto 158 else goto 0)
      else if c > 70 then (if 97 \<le> c \<and> c \<le> 102 then goto 154 else goto 0) else goto 154)"

definition h11_st158 :: "bool \<Rightarrow> int \<Rightarrow> jump" where
  "h11_st158 relaxed c =
     (if c = 46 then goto 55 else if c = 58 then goto 131 else if c < 65 then (if 48 \<le> c \<and> c \<le> 57 then goto 155 else goto 0)
      else if c > 70 then (if 97 \<le> c \<and> c \<le> 102 then goto 155 else goto 0) else goto 155)"

definition h11_st159 :: "bool \<Rightarrow> int \<Rightarrow> jump" where
  "h11_st159 relaxed c =
     (if c = 46 then goto 55 else if c = 48 then goto 160 else if c = 53 then goto 161 else if c = 58 then goto 131
      else if c < 65 then (if 49 \<le> c \<and> c \<le> 57 then goto 153 else goto 0)
      else if c > 70 then (if 97 \<le> c \<and> c \<le> 102 then goto 153 else goto 0) else goto 153)"

definition h11_st160 :: "bool \<Rightarrow> int \<Rightarrow> jump" where
  "h11_st160 relaxed c =
     (if c = 58 then goto 131 else if c < 65 then (if 48 \<le> c \<and> c \<le> 57 then goto 158 else goto 0)
      else if c > 70 then (if 97 \<le> c \<and> c \<le> 102 then goto 154 else goto 0) else goto 154)"

definition h11_st161 :: "bool \<Rightarrow> int \<Rightarrow> jump" where
  "h11_st161 relaxed c =
     (if c = 48 then goto 158 else if c = 58 then goto 131 else if c < 65 then (if 49 \<le> c \<and> c \<le> 57 then goto 154 else goto 0)
      else if c > 70 then (if 97 \<le> c \<and> c \<le> 102 then goto 154 else goto 0) else goto 154)"

definition h11_st162 :: "bool \<Rightarrow> int \<Rightarrow> jump" where
  "h11_st162 relaxed c =
     (if c = 58 then goto 131 else if c < 65 then (if 48 \<le> c \<and> c \<le> 57 then goto 153 else goto 0)
      else if c > 70 then (if 97 \<le> c \<and> c \<le> 102 then goto 153 else goto 0) else goto 153)"

definition h11_st163 :: "bool \<Rightarrow> int \<Rightarrow> jump" where
  "h11_st163 relaxed c =
     (if c < 48 then (if 2 \<le> c \<and> c \<le> 3 then goto 48 else goto 0)
      else if c > 57 then (if c > 70 then (if 97 \<le> c \<and> c \<le> 102 then goto 49 else goto 0) else if c \<ge> 65 then goto 49
      else goto 0) else goto 49)"

definition h11_st164 :: "bool \<Rightarrow> int \<Rightarrow> jump" where
  "h11_st164 relaxed c =
     (if 2 \<le> c \<and> c \<le> 3 then goto 48 else goto 0)"

definition h11_st165 :: "bool \<Rightarrow> int \<Rightarrow> jump" where
  "h11_st165 relaxed c =
     (if c = 3 then goto 48 else goto 0)"

definition h11_st166 :: "bool \<Rightarrow> int \<Rightarrow> jump" where
  "h11_st166 relaxed c =
     (if c = 4 then goto 48 else goto 0)"

definition h11_st167 :: "bool \<Rightarrow> int \<Rightarrow> jump" where
  "h11_st167 relaxed c =
     (if c = 58 then goto 168 else goto 0)"

definition h11_st168 :: "bool \<Rightarrow> int \<Rightarrow> jump" where
  "h11_st168 relaxed c =
     (if c = 49 then goto 143 else if c = 50 then goto 146 else if c = 93 then goto 61
      else if c < 48 then (if 2 \<le> c \<and> c \<le> 5 then goto 48 else goto 0)
      else if c > 57 then (if c > 70 then (if 97 \<le> c \<and> c \<le> 102 then goto 149 else goto 0) else if c \<ge> 65 then goto 149
      else goto 0) else goto 127)"

definition h11_st169 :: "bool \<Rightarrow> int \<Rightarrow> jump" where
  "h11_st169 relaxed c =
     (if c < 65 then (if 48 \<le> c \<and> c \<le> 57 then goto 170 else goto 0)
      else if c > 70 then (if 97 \<le> c \<and> c \<le> 102 then goto 170 else goto 0) else goto 170)"

definition h11_st170 :: "bool \<Rightarrow> int \<Rightarrow> jump" where
  "h11_st170 relaxed c =
     (if c = 46 then goto 171 else if c < 65 then (if 48 \<le> c \<and> c \<le> 57 then goto 170 else goto 0)
      else if c > 70 then (if 97 \<le> c \<and> c \<le> 102 then goto 170 else goto 0) else goto 170)"

definition h11_st171 :: "bool \<Rightarrow> int \<Rightarrow> jump" where
  "h11_st171 relaxed c =
     (let w = widec relaxed c in if w = 33 then goto 172 else if w = 36 then goto 172 else if w = 61 then goto 172 else if w = 95 then goto 172
      else if w = 126 then goto 172 else if w = 606 then goto 172 else if w = 635 then goto 172 else if w = 637 then goto 172
      else if w < 48 then (if 38 \<le> w \<and> w \<le> 46 then goto 172 else goto 0)
      else if w > 59 then (if w > 90 then (if 97 \<le> w \<and> w \<le> 122 then goto 172 else goto 0) else if w \<ge> 65 then goto 172
      else goto 0) else goto 172)"

definition h11_st172 :: "bool \<Rightarrow> int \<Rightarrow> jump" where
  "h11_st172 relaxed c =
     (let w = widec relaxed c in if w = 33 then goto 172 else if w = 36 then goto 172 else if w = 61 then goto 172 else if w = 93 then goto 61
      else if w = 95 then goto 172 else if w = 126 then goto 172 else if w = 606 then goto 172 else if w = 635 then goto 172
      else if w = 637 then goto 172 else if w < 48 then (if 38 \<le> w \<and> w \<le> 46 then goto 172 else goto 0)
      else if w > 59 then (if w > 90 then (if 97 \<le> w \<and> w \<le> 122 then goto 172 else goto 0) else if w \<ge> 65 then goto 172
      else goto 0) else goto 172)"

definition h11_st173 :: "bool \<Rightarrow> int \<Rightarrow> jump" where
  "h11_st173 relaxed c =
     (let w = widec relaxed c in if w = 32 then h11_tr37 else if w = 33 then goto 19 else if w = 35 then h11_tr39 else if w = 37 then goto 24
      else if w = 43 then goto 173 else if w = 47 then goto 26 else if w = 58 then goto 174 else if w = 59 then goto 19
      else if w = 61 then goto 19 else if w = 63 then h11_tr42 else if w = 64 then goto 19 else if w = 95 then goto 19
      else if w = 126 then goto 19 else if w = 606 then goto 19 else if w = 635 then goto 19 else if w = 637 then goto 19
      else if w < 45 then (if 36 \<le> w \<and> w \<le> 44 then goto 19 else goto 0)
      else if w > 57 then (if w > 90 then (if 97 \<le> w \<and> w \<le> 122 then goto 173 else goto 0) else if w \<ge> 65 then goto 173
      else goto 0) else goto 173)"

definition h11_st174 :: "bool \<Rightarrow> int \<Rightarrow> jump" where
  "h11_st174 relaxed c =
     (let w = widec relaxed c in if w = 32 then h11_tr6 else if w = 33 then h11_tr203 else if w = 35 then h11_tr8 else if w = 37 then h11_tr204
      else if w = 47 then h11_tr10 else if w = 61 then h11_tr203 else if w = 63 then h11_tr11 else if w = 95 then h11_tr203
      else if w = 126 then h11_tr203 else if w = 606 then h11_tr203 else if w = 635 then h11_tr203 else if w = 637 then h11_tr203
      else if w < 36 then (if w \<le> (- 1) then h11_tr203 else goto 0)
      else if w > 59 then (if w > 90 then (if 97 \<le> w \<and> w \<le> 122 then h11_tr203 else goto 0) else if w \<ge> 64 then h11_tr203
      else goto 0) else h11_tr203)"

definition h11_st175 :: "bool \<Rightarrow> int \<Rightarrow> jump" where
  "h11_st175 relaxed c =
     (if c = 32 then h11_tr4 else if c > 57 then (if 65 \<le> c \<and> c \<le> 90 then goto 176 else goto 0) else if c \<ge> 48 then goto 176
      else goto 0)"

definition h11_st176 :: "bool \<Rightarrow> int \<Rightarrow> jump" where
  "h11_st176 relaxed c =
     (if c = 32 then h11_tr4 else if c > 57 then (if 65 \<le> c \<and> c \<le> 90 then goto 177 else goto 0) else if c \<ge> 48 then goto 177
      else goto 0)"

definition h11_st177 :: "bool \<Rightarrow> int \<Rightarrow> jump" where
  "h11_st177 relaxed c =
     (if c = 32 then h11_tr4 else if c > 57 then (if 65 \<le> c \<and> c \<le> 90 then goto 178 else goto 0) else if c \<ge> 48 then goto 178
      else goto 0)"

definition h11_st178 :: "bool \<Rightarrow> int \<Rightarrow> jump" where
  "h11_st178 relaxed c =
     (if c = 32 then h11_tr4 else if c > 57 then (if 65 \<le> c \<and> c \<le> 90 then goto 179 else goto 0) else if c \<ge> 48 then goto 179
      else goto 0)"

definition h11_st179 :: "bool \<Rightarrow> int \<Rightarrow> jump" where
  "h11_st179 relaxed c =
     (if c = 32 then h11_tr4 else if c > 57 then (if 65 \<le> c \<and> c \<le> 90 then goto 180 else goto 0) else if c \<ge> 48 then goto 180
      else goto 0)"

definition h11_st180 :: "bool \<Rightarrow> int \<Rightarrow> jump" where
  "h11_st180 relaxed c =
     (if c = 32 then h11_tr4 else if c > 57 then (if 65 \<le> c \<and> c \<le> 90 then goto 181 else goto 0) else if c \<ge> 48 then goto 181
      else goto 0)"

definition h11_st181 :: "bool \<Rightarrow> int \<Rightarrow> jump" where
  "h11_st181 relaxed c =
     (if c = 32 then h11_tr4 else if c > 57 then (if 65 \<le> c \<and> c \<le> 90 then goto 182 else goto 0) else if c \<ge> 48 then goto 182
      else goto 0)"

definition h11_st182 :: "bool \<Rightarrow> int \<Rightarrow> jump" where
  "h11_st182 relaxed c =
     (if c = 32 then h11_tr4 else if c > 57 then (if 65 \<le> c \<and> c \<le> 90 then goto 183 else goto 0) else if c \<ge> 48 then goto 183
      else goto 0)"

definition h11_st183 :: "bool \<Rightarrow> int \<Rightarrow> jump" where
  "h11_st183 relaxed c =
     (if c = 32 then h11_tr4 else if c > 57 then (if 65 \<le> c \<and> c \<le> 90 then goto 184 else goto 0) else if c \<ge> 48 then goto 184
      else goto 0)"

definition h11_st184 :: "bool \<Rightarrow> int \<Rightarrow> jump" where
  "h11_st184 relaxed c =
     (if c = 32 then h11_tr4 else if c > 57 then (if 65 \<le> c \<and> c \<le> 90 then goto 185 else goto 0) else if c \<ge> 48 then goto 185
      else goto 0)"

definition h11_st185 :: "bool \<Rightarrow> int \<Rightarrow> jump" where
  "h11_st185 relaxed c =
     (if c = 32 then h11_tr4 else if c > 57 then (if 65 \<le> c \<and> c \<le> 90 then goto 186 else goto 0) else if c \<ge> 48 then goto 186
      else goto 0)"

definition h11_st186 :: "bool \<Rightarrow> int \<Rightarrow> jump" where
  "h11_st186 relaxed c =
     (if c = 32 then h11_tr4 else if c > 57 then (if 65 \<le> c \<and> c \<le> 90 then goto 187 else goto 0) else if c \<ge> 48 then goto 187
      else goto 0)"

definition h11_st187 :: "bool \<Rightarrow> int \<Rightarrow> jump" where
  "h11_st187 relaxed c =
     (if c = 32 then h11_tr4 else if c > 57 then (if 65 \<le> c \<and> c \<le> 90 then goto 188 else goto 0) else if c \<ge> 48 then goto 188
      else goto 0)"

definition h11_st188 :: "bool \<Rightarrow> int \<Rightarrow> jump" where
  "h11_st188 relaxed c =
     (if c = 32 then h11_tr4 else if c > 57 then (if 65 \<le> c \<and> c \<le> 90 then goto 189 else goto 0) else if c \<ge> 48 then goto 189
      else goto 0)"

definition h11_st189 :: "bool \<Rightarrow> int \<Rightarrow> jump" where
  "h11_st189 relaxed c =
     (if c = 32 then h11_tr4 else if c > 57 then (if 65 \<le> c \<and> c \<le> 90 then goto 190 else goto 0) else if c \<ge> 48 then goto 190
      else goto 0)"

definition h11_st190 :: "bool \<Rightarrow> int \<Rightarrow> jump" where
  "h11_st190 relaxed c =
     (if c = 32 then h11_tr4 else if c > 57 then (if 65 \<le> c \<and> c \<le> 90 then goto 191 else goto 0) else if c \<ge> 48 then goto 191
      else goto 0)"

definition h11_st191 :: "bool \<Rightarrow> int \<Rightarrow> jump" where
  "h11_st191 relaxed c =
     (if c = 32 then h11_tr4 else if c > 57 then (if 65 \<le> c \<and> c \<le> 90 then goto 192 else goto 0) else if c \<ge> 48 then goto 192
      else goto 0)"

definition h11_st192 :: "bool \<Rightarrow> int \<Rightarrow> jump" where
  "h11_st192 relaxed c =
     (if c = 32 then h11_tr4 else if c > 57 then (if 65 \<le> c \<and> c \<le> 90 then goto 193 else goto 0) else if c \<ge> 48 then goto 193
      else goto 0)"

definition h11_st193 :: "bool \<Rightarrow> int \<Rightarrow> jump" where
  "h11_st193 relaxed c =
     (if c = 32 then h11_tr4 else goto 0)"

definition h11_st194 :: "bool \<Rightarrow> int \<Rightarrow> jump" where
  "h11_st194 relaxed c =
     (if c < 48 then (if 45 \<le> c \<and> c \<le> 46 then goto 195 else goto 0)
      else if c > 57 then (if c > 90 then (if 97 \<le> c \<and> c \<le> 122 then goto 195 else goto 0) else if c \<ge> 65 then goto 195
      else goto 0) else goto 195)"

definition h11_st195 :: "bool \<Rightarrow> int \<Rightarrow> jump" where
  "h11_st195 relaxed c =
     (if c = 32 then h11_tr224 else if c = 47 then h11_tr224 else if c = 62 then h11_tr224
      else if c < 45 then (if 9 \<le> c \<and> c \<le> 13 then h11_tr224 else goto 0)
      else if c > 57 then (if c > 90 then (if 97 \<le> c \<and> c \<le> 122 then goto 195 else goto 0) else if c \<ge> 65 then goto 195
      else goto 0) else goto 195)"

definition h11_st196 :: "bool \<Rightarrow> int \<Rightarrow> jump" where
  "h11_st196 relaxed c =
     (if c = 62 then goto 197 else goto 196)"

definition h11_st197 :: "bool \<Rightarrow> int \<Rightarrow> jump" where
  "h11_st197 relaxed c =
     (if c = 0 then h11_tr227 else if c = 62 then goto 197 else goto 196)"

definition h11_st198 :: "bool \<Rightarrow> int \<Rightarrow> jump" where
  "h11_st198 relaxed c =
     (let w = widec relaxed c in if w = 32 then h11_tr228 else if w = 33 then goto 202 else if w = 37 then goto 203 else if w = 47 then goto 208
      else if w = 59 then goto 202 else if w = 61 then goto 202 else if w = 95 then goto 202 else if w = 126 then goto 202
      else if w = 606 then goto 202 else if w = 635 then goto 202 else if w = 637 then goto 202
      else if w < 64 then (if 36 \<le> w \<and> w \<le> 57 then goto 202 else goto 0)
      else if w > 90 then (if 97 \<le> w \<and> w \<le> 122 then goto 202 else goto 0) else goto 202)"

definition h11_st199 :: "bool \<Rightarrow> int \<Rightarrow> jump" where
  "h11_st199 relaxed c =
     (if c = 123 then h11_tr232 else goto 0)"

definition h11_st200 :: "bool \<Rightarrow> int \<Rightarrow> jump" where
  "h11_st200 relaxed c =
     (if c = 125 then goto 201 else goto 200)"

definition h11_st201 :: "bool \<Rightarrow> int \<Rightarrow> jump" where
  "h11_st201 relaxed c =
     (if c = 0 then h11_tr235 else if c = 125 then goto 201 else goto 200)"

definition h11_st202 :: "bool \<Rightarrow> int \<Rightarrow> jump" where
  "h11_st202 relaxed c =
     (let w = widec relaxed c in if w = 32 then h11_tr228 else if w = 33 then goto 202 else if w = 37 then goto 203 else if w = 47 then goto 205
      else if w = 59 then goto 202 else if w = 61 then goto 202 else if w = 95 then goto 202 else if w = 126 then goto 202
      else if w = 606 then goto 202 else if w = 635 then goto 202 else if w = 637 then goto 202
      else if w < 64 then (if 36 \<le> w \<and> w \<le> 57 then goto 202 else goto 0)
      else if w > 90 then (if 97 \<le> w \<and> w \<le> 122 then goto 202 else goto 0) else goto 202)"

definition h11_st203 :: "bool \<Rightarrow> int \<Rightarrow> jump" where
  "h11_st203 relaxed c =
     (if c < 65 then (if 48 \<le> c \<and> c \<le> 57 then goto 204 else goto 0)
      else if c > 70 then (if 97 \<le> c \<and> c \<le> 102 then goto 204 else goto 0) else goto 204)"

definition h11_st204 :: "bool \<Rightarrow> int \<Rightarrow> jump" where
  "h11_st204 relaxed c =
     (if c < 65 then (if 48 \<le> c \<and> c \<le> 57 then goto 202 else goto 0)
      else if c > 70 then (if 97 \<le> c \<and> c \<le> 102 then goto 202 else goto 0) else goto 202)"

definition h11_st205 :: "bool \<Rightarrow> int \<Rightarrow> jump" where
  "h11_st205 relaxed c =
     (let w = widec relaxed c in if w = 32 then h11_tr228 else if w = 33 then goto 205 else if w = 37 then goto 206 else if w = 61 then goto 205
      else if w = 95 then goto 205 else if w = 126 then goto 205 else if w = 606 then goto 205 else if w = 635 then goto 205
      else if w = 637 then goto 205 else if w < 36 then (if w \<le> (- 1) then goto 205 else goto 0)
      else if w > 59 then (if w > 90 then (if 97 \<le> w \<and> w \<le> 122 then goto 205 else goto 0) else if w \<ge> 64 then goto 205
      else goto 0) else goto 205)"

definition h11_st206 :: "bool \<Rightarrow> int \<Rightarrow> jump" where
  "h11_st206 relaxed c =
     (if c < 65 then (if 48 \<le> c \<and> c \<le> 57 then goto 207 else goto 0)
      else if c > 70 then (if 97 \<le> c \<and> c \<le> 102 then goto 207 else goto 0) else goto 207)"

definition h11_st207 :: "bool \<Rightarrow> int \<Rightarrow> jump" where
  "h11_st207 relaxed c =
     (if c < 65 then (if 48 \<le> c \<and> c \<le> 57 then goto 205 else goto 0)
      else if c > 70 then (if 97 \<le> c \<and> c \<le> 102 then goto 205 else goto 0) else goto 205)"

definition h11_st208 :: "bool \<Rightarrow> int \<Rightarrow> jump" where
  "h11_st208 relaxed c =
     (let w = widec relaxed c in if w = 32 then h11_tr228 else if w = 33 then goto 205 else if w = 37 then goto 206 else if w = 47 then goto 209
      else if w = 61 then goto 205 else if w = 95 then goto 205 else if w = 126 then goto 205 else if w = 606 then goto 205
      else if w = 635 then goto 205 else if w = 637 then goto 205 else if w < 36 then (if w \<le> (- 1) then goto 205 else goto 0)
      else if w > 59 then (if w > 90 then (if 97 \<le> w \<and> w \<le> 122 then goto 205 else goto 0) else if w \<ge> 64 then goto 205
      else goto 0) else goto 205)"

definition h11_st209 :: "bool \<Rightarrow> int \<Rightarrow> jump" where
  "h11_st209 relaxed c =
     (let w = widec relaxed c in if w = 32 then h11_tr228 else if w = 33 then goto 210 else if w = 37 then goto 211 else if w = 47 then goto 205
      else if w = 58 then goto 213 else if w = 61 then goto 210 else if w = 64 then goto 217 else if w = 91 then goto 222
      else if w = 95 then goto 210 else if w = 126 then goto 210 else if w = 606 then goto 210 else if w = 635 then goto 210
      else if w = 637 then goto 210 else if w < 65 then (if 36 \<le> w \<and> w \<le> 59 then goto 210 else goto 0)
      else if w > 90 then (if 97 \<le> w \<and> w \<le> 122 then goto 210 else goto 0) else goto 210)"

definition h11_st210 :: "bool \<Rightarrow> int \<Rightarrow> jump" where
  "h11_st210 relaxed c =
     (let w = widec relaxed c in if w = 32 then h11_tr228 else if w = 33 then goto 210 else if w = 37 then goto 211 else if w = 47 then goto 205
      else if w = 58 then goto 213 else if w = 61 then goto 210 else if w = 64 then goto 217 else if w = 95 then goto 210
      else if w = 126 then goto 210 else if w = 606 then goto 210 else if w = 635 then goto 210 else if w = 637 then goto 210
      else if w < 65 then (if 36 \<le> w \<and> w \<le> 59 then goto 210 else goto 0)
      else if w > 90 then (if 97 \<le> w \<and> w \<le> 122 then goto 210 else goto 0) else goto 210)"

definition h11_st211 :: "bool \<Rightarrow> int \<Rightarrow> jump" where
  "h11_st211 relaxed c =
     (if c < 65 then (if 48 \<le> c \<and> c \<le> 57 then goto 212 else goto 0)
      else if c > 70 then (if 97 \<le> c \<and> c \<le> 102 then goto 212 else goto 0) else goto 212)"

definition h11_st212 :: "bool \<Rightarrow> int \<Rightarrow> jump" where
  "h11_st212 relaxed c =
     (if c < 65 then (if 48 \<le> c \<and> c \<le> 57 then goto 210 else goto 0)
      else if c > 70 then (if 97 \<le> c \<and> c \<le> 102 then goto 210 else goto 0) else goto 210)"

definition h11_st213 :: "bool \<Rightarrow> int \<Rightarrow> jump" where
  "h11_st213 relaxed c =
     (let w = widec relaxed c in if w = 32 then h11_tr228 else if w = 33 then goto 214 else if w = 37 then goto 215 else if w = 47 then goto 205
      else if w = 61 then goto 214 else if w = 64 then goto 217 else if w = 95 then goto 214 else if w = 126 then goto 214
      else if w = 606 then goto 214 else if w = 635 then goto 214 else if w = 637 then goto 214
      else if w < 58 then (if w > 46 then (if 48 \<le> w \<and> w \<le> 57 then goto 213 else goto 0) else if w \<ge> 36 then goto 214
      else goto 0) else if w > 59 then (if w > 90 then (if 97 \<le> w \<and> w \<le> 122 then goto 214 else goto 0)
      else if w \<ge> 65 then goto 214 else goto 0) else goto 214)"

definition h11_st214 :: "bool \<Rightarrow> int \<Rightarrow> jump" where
  "h11_st214 relaxed c =
     (let w = widec relaxed c in if w = 33 then goto 214 else if w = 37 then goto 215 else if w = 61 then goto 214 else if w = 64 then goto 217
      else if w = 95 then goto 214 else if w = 126 then goto 214 else if w = 606 then goto 214 else if w = 635 then goto 214
      else if w = 637 then goto 214 else if w < 48 then (if 36 \<le> w \<and> w \<le> 46 then goto 214 else goto 0)
      else if w > 59 then (if w > 90 then (if 97 \<le> w \<and> w \<le> 122 then goto 214 else goto 0) else if w \<ge> 65 then goto 214
      else goto 0) else goto 214)"

definition h11_st215 :: "bool \<Rightarrow> int \<Rightarrow> jump" where
  "h11_st215 relaxed c =
     (if c < 65 then (if 48 \<le> c \<and> c \<le> 57 then goto 216 else goto 0)
      else if c > 70 then (if 97 \<le> c \<and> c \<le> 102 then goto 216 else goto 0) else goto 216)"

definition h11_st216 :: "bool \<Rightarrow> int \<Rightarrow> jump" where
  "h11_st216 relaxed c =
     (if c < 65 then (if 48 \<le> c \<and> c \<le> 57 then goto 214 else goto 0)
      else if c > 70 then (if 97 \<le> c \<and> c \<le> 102 then goto 214 else goto 0) else goto 214)"

definition h11_st217 :: "bool \<Rightarrow> int \<Rightarrow> jump" where
  "h11_st217 relaxed c =
     (let w = widec relaxed c in if w = 32 then h11_tr228 else if w = 33 then goto 218 else if w = 37 then goto 219 else if w = 47 then goto 205
      else if w = 58 then goto 221 else if w = 61 then goto 218 else if w = 91 then goto 222 else if w = 95 then goto 218
      else if w = 126 then goto 218 else if w = 606 then goto 218 else if w = 635 then goto 218 else if w = 637 then goto 218
      else if w < 65 then (if 36 \<le> w \<and> w \<le> 59 then goto 218 else goto 0)
      else if w > 90 then (if 97 \<le> w \<and> w \<le> 122 then goto 218 else goto 0) else goto 218)"

definition h11_st218 :: "bool \<Rightarrow> int \<Rightarrow> jump" where
  "h11_st218 relaxed c =
     (let w = widec relaxed c in if w = 32 then h11_tr228 else if w = 33 then goto 218 else if w = 37 then goto 219 else if w = 47 then goto 205
      else if w = 58 then goto 221 else if w = 61 then goto 218 else if w = 95 then goto 218 else if w = 126 then goto 218
      else if w = 606 then goto 218 else if w = 635 then goto 218 else if w = 637 then goto 218
      else if w < 65 then (if 36 \<le> w \<and> w \<le> 59 then goto 218 else goto 0)
      else if w > 90 then (if 97 \<le> w \<and> w \<le> 122 then goto 218 else goto 0) else goto 218)"

definition h11_st219 :: "bool \<Rightarrow> int \<Rightarrow> jump" where
  "h11_st219 relaxed c =
     (if c < 65 then (if 48 \<le> c \<and> c \<le> 57 then goto 220 else goto 0)
      else if c > 70 then (if 97 \<le> c \<and> c \<le> 102 then goto 220 else goto 0) else goto 220)"

definition h11_st220 :: "bool \<Rightarrow> int \<Rightarrow> jump" where
  "h11_st220 relaxed c =
     (if c < 65 then (if 48 \<le> c \<and> c \<le> 57 then goto 218 else goto 0)
      else if c > 70 then (if 97 \<le> c \<and> c \<le> 102 then goto 218 else goto 0) else goto 218)"

definition h11_st221 :: "bool \<Rightarrow> int \<Rightarrow> jump" where
  "h11_st221 relaxed c =
     (if c = 32 then h11_tr228 else if c = 47 then goto 205 else if 48 \<le> c \<and> c \<le> 57 then goto 221 else goto 0)"

definition h11_st222 :: "bool \<Rightarrow> int \<Rightarrow> jump" where
  "h11_st222 relaxed c =
     (if c = 6 then goto 223 else if c = 58 then goto 342 else if c = 118 then goto 344
      else if c < 65 then (if 48 \<le> c \<and> c \<le> 57 then goto 266 else goto 0)
      else if c > 70 then (if 97 \<le> c \<and> c \<le> 102 then goto 266 else goto 0) else goto 266)"

definition h11_st223 :: "bool \<Rightarrow> int \<Rightarrow> jump" where
  "h11_st223 relaxed c =
     (if c < 65 then (if 48 \<le> c \<and> c \<le> 57 then goto 224 else goto 0)
      else if c > 70 then (if 97 \<le> c \<and> c \<le> 102 then goto 224 else goto 0) else goto 224)"

definition h11_st224 :: "bool \<Rightarrow> int \<Rightarrow> jump" where
  "h11_st224 relaxed c =
     (if c = 58 then goto 228 else if c < 65 then (if 48 \<le> c \<and> c \<le> 57 then goto 225 else goto 0)
      else if c > 70 then (if 97 \<le> c \<and> c \<le> 102 then goto 225 else goto 0) else goto 225)"

definition h11_st225 :: "bool \<Rightarrow> int \<Rightarrow> jump" where
  "h11_st225 relaxed c =
     (if c = 58 then goto 228 else if c < 65 then (if 48 \<le> c \<and> c \<le> 57 then goto 226 else goto 0)
      else if c > 70 then (if 97 \<le> c \<and> c \<le> 102 then goto 226 else goto 0) else goto 226)"

definition h11_st226 :: "bool \<Rightarrow> int \<Rightarrow> jump" where
  "h11_st226 relaxed c =
     (if c = 58 then goto 228 else if c < 65 then (if 48 \<le> c \<and> c \<le> 57 then goto 227 else goto 0)
      else if c > 70 then (if 97 \<le> c \<and> c \<le> 102 then goto 227 else goto 0) else goto 227)"

definition h11_st227 :: "bool \<Rightarrow> int \<Rightarrow> jump" where
  "h11_st227 relaxed c =
     (if c = 58 then goto 228 else goto 0)"

definition h11_st228 :: "bool \<Rightarrow> int \<Rightarrow> jump" where
  "h11_st228 relaxed c =
     (if c = 49 then goto 259 else if c = 50 then goto 262 else if c < 65 then (if 48 \<le> c \<and> c \<le> 57 then goto 229 else goto 0)
      else if c > 70 then (if 97 \<le> c \<and> c \<le> 102 then goto 265 else goto 0) else goto 265)"

definition h11_st229 :: "bool \<Rightarrow> int \<Rightarrow> jump" where
  "h11_st229 relaxed c =
     (if c = 46 then goto 230 else if c = 58 then goto 255 else if c < 65 then (if 48 \<le> c \<and> c \<le> 57 then goto 252 else goto 0)
      else if c > 70 then (if 97 \<le> c \<and> c \<le> 102 then goto 252 else goto 0) else goto 252)"

definition h11_st230 :: "bool \<Rightarrow> int \<Rightarrow> jump" where
  "h11_st230 relaxed c =
     (if c = 49 then goto 247 else if c = 50 then goto 249 else if 48 \<le> c \<and> c \<le> 57 then goto 231 else goto 0)"

definition h11_st231 :: "bool \<Rightarrow> int \<Rightarrow> jump" where
  "h11_st231 relaxed c =
     (if c = 46 then goto 232 else goto 0)"

definition h11_st232 :: "bool \<Rightarrow> int \<Rightarrow> jump" where
  "h11_st232 relaxed c =
     (if c = 49 then goto 242 else if c = 50 then goto 244 else if 48 \<le> c \<and> c \<le> 57 then goto 233 else goto 0)"

definition h11_st233 :: "bool \<Rightarrow> int \<Rightarrow> jump" where
  "h11_st233 relaxed c =
     (if c = 46 then goto 234 else goto 0)"

definition h11_st234 :: "bool \<Rightarrow> int \<Rightarrow> jump" where
  "h11_st234 relaxed c =
     (if c = 49 then goto 237 else if c = 50 then goto 239 else if 48 \<le> c \<and> c \<le> 57 then goto 235 else goto 0)"

definition h11_st235 :: "bool \<Rightarrow> int \<Rightarrow> jump" where
  "h11_st235 relaxed c =
     (if c = 93 then goto 236 else goto 0)"

definition h11_st236 :: "bool \<Rightarrow> int \<Rightarrow> jump" where
  "h11_st236 relaxed c =
     (if c = 32 then h11_tr228 else if c = 47 then goto 205 else if c = 58 then goto 221 else goto 0)"

definition h11_st237 :: "bool \<Rightarrow> int \<Rightarrow> jump" where
  "h11_st237 relaxed c =
     (if c = 93 then goto 236 else if 48 \<le> c \<and> c \<le> 57 then goto 238 else goto 0)"

definition h11_st238 :: "bool \<Rightarrow> int \<Rightarrow> jump" where
  "h11_st238 relaxed c =
     (if c = 93 then goto 236 else if 48 \<le> c \<and> c \<le> 57 then goto 235 else goto 0)"

definition h11_st239 :: "bool \<Rightarrow> int \<Rightarrow> jump" where
  "h11_st239 relaxed c =
     (if c = 48 then goto 240 else if c = 53 then goto 241 else if c = 93 then goto 236 else goto 0)"

definition h11_st240 :: "bool \<Rightarrow> int \<Rightarrow> jump" where
  "h11_st240 relaxed c =
     (if 48 \<le> c \<and> c \<le> 57 then goto 235 else goto 0)"

definition h11_st241 :: "bool \<Rightarrow> int \<Rightarrow> jump" where
  "h11_st241 relaxed c =
     (if c = 48 then goto 235 else goto 0)"

definition h11_st242 :: "bool \<Rightarrow> int \<Rightarrow> jump" where
  "h11_st242 relaxed c =
     (if c = 46 then goto 234 else if 48 \<le> c \<and> c \<le> 57 then goto 243 else goto 0)"

definition h11_st243 :: "bool \<Rightarrow> int \<Rightarrow> jump" where
  "h11_st243 relaxed c =
     (if c = 46 then goto 234 else if 48 \<le> c \<and> c \<le> 57 then goto 233 else goto 0)"

definition h11_st244 :: "bool \<Rightarrow> int \<Rightarrow> jump" where
  "h11_st244 relaxed c =
     (if c = 46 then goto 234 else if c = 48 then goto 245 else if c = 53 then goto 246 else goto 0)"

definition h11_st245 :: "bool \<Rightarrow> int \<Rightarrow> jump" where
  "h11_st245 relaxed c =
     (if 48 \<le> c \<and> c \<le> 57 then goto 233 else goto 0)"

definition h11_st246 :: "bool \<Rightarrow> int \<Rightarrow> jump" where
  "h11_st246 relaxed c =
     (if c = 48 then goto 233 else goto 0)"

definition h11_st247 :: "bool \<Rightarrow> int \<Rightarrow> jump" where
  "h11_st247 relaxed c =
     (if c = 46 then goto 232 else if 48 \<le> c \<and> c \<le> 57 then goto 248 else goto 0)"

definition h11_st248 :: "bool \<Rightarrow> int \<Rightarrow> jump" where
  "h11_st248 relaxed c =
     (if c = 46 then goto 232 else if 48 \<le> c \<and> c \<le> 57 then goto 231 else goto 0)"

definition h11_st249 :: "bool \<Rightarrow> int \<Rightarrow> jump" where
  "h11_st249 relaxed c =
     (if c = 46 then goto 232 else if c = 48 then goto 250 else if c = 53 then goto 251 else goto 0)"

definition h11_st250 :: "bool \<Rightarrow> int \<Rightarrow> jump" where
  "h11_st250 relaxed c =
     (if 48 \<le> c \<and> c \<le> 57 then goto 231 else goto 0)"

definition h11_st251 :: "bool \<Rightarrow> int \<Rightarrow> jump" where
  "h11_st251 relaxed c =
     (if c = 48 then goto 231 else goto 0)"

definition h11_st252 :: "bool \<Rightarrow> int \<Rightarrow> jump" where
  "h11_st252 relaxed c =
     (if c = 58 then goto 255 else if c < 65 then (if 48 \<le> c \<and> c \<le> 57 then goto 253 else goto 0)
      else if c > 70 then (if 97 \<le> c \<and> c \<le> 102 then goto 253 else goto 0) else goto 253)"

definition h11_st253 :: "bool \<Rightarrow> int \<Rightarrow> jump" where
  "h11_st253 relaxed c =
     (if c = 58 then goto 255 else if c < 65 then (if 48 \<le> c \<and> c \<le> 57 then goto 254 else goto 0)
      else if c > 70 then (if 97 \<le> c \<and> c \<le> 102 then goto 254 else goto 0) else goto 254)"

definition h11_st254 :: "bool \<Rightarrow> int \<Rightarrow> jump" where
  "h11_st254 relaxed c =
     (if c = 58 then goto 255 else goto 0)"

definition h11_st255 :: "bool \<Rightarrow> int \<Rightarrow> jump" where
  "h11_st255 relaxed c =
     (if c < 65 then (if 48 \<le> c \<and> c \<le> 57 then goto 256 else goto 0)
      else if c > 70 then (if 97 \<le> c \<and> c \<le> 102 then goto 256 else goto 0) else goto 256)"

definition h11_st256 :: "bool \<Rightarrow> int \<Rightarrow> jump" where
  "h11_st256 relaxed c =
     (if c = 93 then goto 236 else if c < 65 then (if 48 \<le> c \<and> c \<le> 57 then goto 257 else goto 0)
      else if c > 70 then (if 97 \<le> c \<and> c \<le> 102 then goto 257 else goto 0) else goto 257)"

definition h11_st257 :: "bool \<Rightarrow> int \<Rightarrow> jump" where
  "h11_st257 relaxed c =
     (if c = 93 then goto 236 else if c < 65 then (if 48 \<le> c \<and> c \<le> 57 then goto 258 else goto 0)
      else if c > 70 then (if 97 \<le> c \<and> c \<le> 102 then goto 258 else goto 0) else goto 258)"

definition h11_st258 :: "bool \<Rightarrow> int \<Rightarrow> jump" where
  "h11_st258 relaxed c =
     (if c = 93 then goto 236 else if c < 65 then (if 48 \<le> c \<and> c \<le> 57 then goto 235 else goto 0)
      else if c > 70 then (if 97 \<le> c \<and> c \<le> 102 then goto 235 else goto 0) else goto 235)"

definition h11_st259 :: "bool \<Rightarrow> int \<Rightarrow> jump" where
  "h11_st259 relaxed c =
     (if c = 46 then goto 230 else if c = 58 then goto 255 else if c < 65 then (if 48 \<le> c \<and> c \<le> 57 then goto 260 else goto 0)
      else if c > 70 then (if 97 \<le> c \<and> c \<le> 102 then goto 252 else goto 0) else goto 252)"

definition h11_st260 :: "bool \<Rightarrow> int \<Rightarrow> jump" where
  "h11_st260 relaxed c =
     (if c = 46 then goto 230 else if c = 58 then goto 255 else if c < 65 then (if 48 \<le> c \<and> c \<le> 57 then goto 261 else goto 0)
      else if c > 70 then (if 97 \<le> c \<and> c \<le> 102 then goto 253 else goto 0) else goto 253)"

definition h11_st261 :: "bool \<Rightarrow> int \<Rightarrow> jump" where
  "h11_st261 relaxed c =
     (if c = 46 then goto 230 else if c = 58 then goto 255 else if c < 65 then (if 48 \<le> c \<and> c \<le> 57 then goto 254 else goto 0)
      else if c > 70 then (if 97 \<le> c \<and> c \<le> 102 then goto 254 else goto 0) else goto 254)"

definition h11_st262 :: "bool \<Rightarrow> int \<Rightarrow> jump" where
  "h11_st262 relaxed c =
     (if c = 46 then goto 230 else if c = 48 then goto 263 else if c = 53 then goto 264 else if c = 58 then goto 255
      else if c < 65 then (if 49 \<le> c \<and> c \<le> 57 then goto 252 else goto 0)
      else if c > 70 then (if 97 \<le> c \<and> c \<le> 102 then goto 252 else goto 0) else goto 252)"

definition h11_st263 :: "bool \<Rightarrow> int \<Rightarrow> jump" where
  "h11_st263 relaxed c =
     (if c = 58 then goto 255 else if c < 65 then (if 48 \<le> c \<and> c \<le> 57 then goto 261 else goto 0)
      else if c > 70 then (if 97 \<le> c \<and> c \<le> 102 then goto 253 else goto 0) else goto 253)"

definition h11_st264 :: "bool \<Rightarrow> int \<Rightarrow> jump" where
  "h11_st264 relaxed c =
     (if c = 48 then goto 261 else if c = 58 then goto 255 else if c < 65 then (if 49 \<le> c \<and> c \<le> 57 then goto 253 else goto 0)
      else if c > 70 then (if 97 \<le> c \<and> c \<le> 102 then goto 253 else goto 0) else goto 253)"

definition h11_st265 :: "bool \<Rightarrow> int \<Rightarrow> jump" where
  "h11_st265 relaxed c =
     (if c = 58 then goto 255 else if c < 65 then (if 48 \<le> c \<and> c \<le> 57 then goto 252 else goto 0)
      else if c > 70 then (if 97 \<le> c \<and> c \<le> 102 then goto 252 else goto 0) else goto 252)"

definition h11_st266 :: "bool \<Rightarrow> int \<Rightarrow> jump" where
  "h11_st266 relaxed c =
     (if c = 58 then goto 270 else if c < 65 then (if 48 \<le> c \<and> c \<le> 57 then goto 267 else goto 0)
      else if c > 70 then (if 97 \<le> c \<and> c \<le> 102 then goto 267 else goto 0) else goto 267)"

definition h11_st267 :: "bool \<Rightarrow> int \<Rightarrow> jump" where
  "h11_st267 relaxed c =
     (if c = 58 then goto 270 else if c < 65 then (if 48 \<le> c \<and> c \<le> 57 then goto 268 else goto 0)
      else if c > 70 then (if 97 \<le> c \<and> c \<le> 102 then goto 268 else goto 0) else goto 268)"

definition h11_st268 :: "bool \<Rightarrow> int \<Rightarrow> jump" where
  "h11_st268 relaxed c =
     (if c = 58 then goto 270 else if c < 65 then (if 48 \<le> c \<and> c \<le> 57 then goto 269 else goto 0)
      else if c > 70 then (if 97 \<le> c \<and> c \<le> 102 then goto 269 else goto 0) else goto 269)"

definition h11_st269 :: "bool \<Rightarrow> int \<Rightarrow> jump" where
  "h11_st269 relaxed c =
     (if c = 58 then goto 270 else goto 0)"

definition h11_st270 :: "bool \<Rightarrow> int \<Rightarrow> jump" where
  "h11_st270 relaxed c =
     (if c = 58 then goto 341 else if c < 65 then (if 48 \<le> c \<and> c \<le> 57 then goto 271 else goto 0)
      else if c > 70 then (if 97 \<le> c \<and> c \<le> 102 then goto 271 else goto 0) else goto 271)"

definition h11_st271 :: "bool \<Rightarrow> int \<Rightarrow> jump" where
  "h11_st271 relaxed c =
     (if c = 58 then goto 275 else if c < 65 then (if 48 \<le> c \<and> c \<le> 57 then goto 272 else goto 0)
      else if c > 70 then (if 97 \<le> c \<and> c \<le> 102 then goto 272 else goto 0) else goto 272)"

definition h11_st272 :: "bool \<Rightarrow> int \<Rightarrow> jump" where
  "h11_st272 relaxed c =
     (if c = 58 then goto 275 else if c < 65 then (if 48 \<le> c \<and> c \<le> 57 then goto 273 else goto 0)
      else if c > 70 then (if 97 \<le> c \<and> c \<le> 102 then goto 273 else goto 0) else goto 273)"

definition h11_st273 :: "bool \<Rightarrow> int \<Rightarrow> jump" where
  "h11_st273 relaxed c =
     (if c = 58 then goto 275 else if c < 65 then (if 48 \<le> c \<and> c \<le> 57 then goto 274 else goto 0)
      else if c > 70 then (if 97 \<le> c \<and> c \<le> 102 then goto 274 else goto 0) else goto 274)"

definition h11_st274 :: "bool \<Rightarrow> int \<Rightarrow> jump" where
  "h11_st274 relaxed c =
     (if c = 58 then goto 275 else goto 0)"

definition h11_st275 :: "bool \<Rightarrow> int \<Rightarrow> jump" where
  "h11_st275 relaxed c =
     (if c = 58 then goto 340 else if c < 65 then (if 48 \<le> c \<and> c \<le> 57 then goto 276 else goto 0)
      else if c > 70 then (if 97 \<le> c \<and> c \<le> 102 then goto 276 else goto 0) else goto 276)"

definition h11_st276 :: "bool \<Rightarrow> int \<Rightarrow> jump" where
  "h11_st276 relaxed c =
     (if c = 58 then goto 280 else if c < 65 then (if 48 \<le> c \<and> c \<le> 57 then goto 277 else goto 0)
      else if c > 70 then (if 97 \<le> c \<and> c \<le> 102 then goto 277 else goto 0) else goto 277)"

definition h11_st277 :: "bool \<Rightarrow> int \<Rightarrow> jump" where
  "h11_st277 relaxed c =
     (if c = 58 then goto 280 else if c < 65 then (if 48 \<le> c \<and> c \<le> 57 then goto 278 else goto 0)
      else if c > 70 then (if 97 \<le> c \<and> c \<le> 102 then goto 278 else goto 0) else goto 278)"

definition h11_st278 :: "bool \<Rightarrow> int \<Rightarrow> jump" where
  "h11_st278 relaxed c =
     (if c = 58 then goto 280 else if c < 65 then (if 48 \<le> c \<and> c \<le> 57 then goto 279 else goto 0)
      else if c > 70 then (if 97 \<le> c \<and> c \<le> 102 then goto 279 else goto 0) else goto 279)"

definition h11_st279 :: "bool \<Rightarrow> int \<Rightarrow> jump" where
  "h11_st279 relaxed c =
     (if c = 58 then goto 280 else goto 0)"

definition h11_st280 :: "bool \<Rightarrow> int \<Rightarrow> jump" where
  "h11_st280 relaxed c =
     (if c = 58 then goto 339 else if c < 65 then (if 48 \<le> c \<and> c \<le> 57 then goto 281 else goto 0)
      else if c > 70 then (if 97 \<le> c \<and> c \<le> 102 then goto 281 else goto 0) else goto 281)"

definition h11_st281 :: "bool \<Rightarrow> int \<Rightarrow> jump" where
  "h11_st281 relaxed c =
     (if c = 58 then goto 285 else if c < 65 then (if 48 \<le> c \<and> c \<le> 57 then goto 282 else goto 0)
      else if c > 70 then (if 97 \<le> c \<and> c \<le> 102 then goto 282 else goto 0) else goto 282)"

definition h11_st282 :: "bool \<Rightarrow> int \<Rightarrow> jump" where
  "h11_st282 relaxed c =
     (if c = 58 then goto 285 else if c < 65 then (if 48 \<le> c \<and> c \<le> 57 then goto 283 else goto 0)
      else if c > 70 then (if 97 \<le> c \<and> c \<le> 102 then goto 283 else goto 0) else goto 283)"

definition h11_st283 :: "bool \<Rightarrow> int \<Rightarrow> jump" where
  "h11_st283 relaxed c =
     (if c = 58 then goto 285 else if c < 65 then (if 48 \<le> c \<and> c \<le> 57 then goto 284 else goto 0)
      else if c > 70 then (if 97 \<le> c \<and> c \<le> 102 then goto 284 else goto 0) else goto 284)"

definition h11_st284 :: "bool \<Rightarrow> int \<Rightarrow> jump" where
  "h11_st284 relaxed c =
     (if c = 58 then goto 285 else goto 0)"

definition h11_st285 :: "bool \<Rightarrow> int \<Rightarrow> jump" where
  "h11_st285 relaxed c =
     (if c = 58 then goto 338 else if c < 65 then (if 48 \<le> c \<and> c \<le> 57 then goto 286 else goto 0)
      else if c > 70 then (if 97 \<le> c \<and> c \<le> 102 then goto 286 else goto 0) else goto 286)"

definition h11_st286 :: "bool \<Rightarrow> int \<Rightarrow> jump" where
  "h11_st286 relaxed c =
     (if c = 58 then goto 290 else if c < 65 then (if 48 \<le> c \<and> c \<le> 57 then goto 287 else goto 0)
      else if c > 70 then (if 97 \<le> c \<and> c \<le> 102 then goto 287 else goto 0) else goto 287)"

definition h11_st287 :: "bool \<Rightarrow> int \<Rightarrow> jump" where
  "h11_st287 relaxed c =
     (if c = 58 then goto 290 else if c < 65 then (if 48 \<le> c \<and> c \<le> 57 then goto 288 else goto 0)
      else if c > 70 then (if 97 \<le> c \<and> c \<le> 102 then goto 288 else goto 0) else goto 288)"

definition h11_st288 :: "bool \<Rightarrow> int \<Rightarrow> jump" where
  "h11_st288 relaxed c =
     (if c = 58 then goto 290 else if c < 65 then (if 48 \<le> c \<and> c \<le> 57 then goto 289 else goto 0)
      else if c > 70 then (if 97 \<le> c \<and> c \<le> 102 then goto 289 else goto 0) else goto 289)"

definition h11_st289 :: "bool \<Rightarrow> int \<Rightarrow> jump" where
  "h11_st289 relaxed c =
     (if c = 58 then goto 290 else goto 0)"

definition h11_st290 :: "bool \<Rightarrow> int \<Rightarrow> jump" where
  "h11_st290 relaxed c =
     (if c = 58 then goto 326 else if c < 65 then (if 48 \<le> c \<and> c \<le> 57 then goto 291 else goto 0)
      else if c > 70 then (if 97 \<le> c \<and> c \<le> 102 then goto 291 else goto 0) else goto 291)"

definition h11_st291 :: "bool \<Rightarrow> int \<Rightarrow> jump" where
  "h11_st291 relaxed c =
     (if c = 58 then goto 295 else if c < 65 then (if 48 \<le> c \<and> c \<le> 57 then goto 292 else goto 0)
      else if c > 70 then (if 97 \<le> c \<and> c \<le> 102 then goto 292 else goto 0) else goto 292)"

definition h11_st292 :: "bool \<Rightarrow> int \<Rightarrow> jump" where
  "h11_st292 relaxed c =
     (if c = 58 then goto 295 else if c < 65 then (if 48 \<le> c \<and> c \<le> 57 then goto 293 else goto 0)
      else if c > 70 then (if 97 \<le> c \<and> c \<le> 102 then goto 293 else goto 0) else goto 293)"

definition h11_st293 :: "bool \<Rightarrow> int \<Rightarrow> jump" where
  "h11_st293 relaxed c =
     (if c = 58 then goto 295 else if c < 65 then (if 48 \<le> c \<and> c \<le> 57 then goto 294 else goto 0)
      else if c > 70 then (if 97 \<le> c \<and> c \<le> 102 then goto 294 else goto 0) else goto 294)"

definition h11_st294 :: "bool \<Rightarrow> int \<Rightarrow> jump" where
  "h11_st294 relaxed c =
     (if c = 58 then goto 295 else goto 0)"

definition h11_st295 :: "bool \<Rightarrow> int \<Rightarrow> jump" where
  "h11_st295 relaxed c =
     (if c = 58 then goto 325 else if c < 65 then (if 48 \<le> c \<and> c \<le> 57 then goto 296 else goto 0)
      else if c > 70 then (if 97 \<le> c \<and> c \<le> 102 then goto 296 else goto 0) else goto 296)"

definition h11_st296 :: "bool \<Rightarrow> int \<Rightarrow> jump" where
  "h11_st296 relaxed c =
     (if c = 58 then goto 300 else if c < 65 then (if 48 \<le> c \<and> c \<le> 57 then goto 297 else goto 0)
      else if c > 70 then (if 97 \<le> c \<and> c \<le> 102 then goto 297 else goto 0) else goto 297)"

definition h11_st297 :: "bool \<Rightarrow> int \<Rightarrow> jump" where
  "h11_st297 relaxed c =
     (if c = 58 then goto 300 else if c < 65 then (if 48 \<le> c \<and> c \<le> 57 then goto 298 else goto 0)
      else if c > 70 then (if 97 \<le> c \<and> c \<le> 102 then goto 298 else goto 0) else goto 298)"

definition h11_st298 :: "bool \<Rightarrow> int \<Rightarrow> jump" where
  "h11_st298 relaxed c =
     (if c = 58 then goto 300 else if c < 65 then (if 48 \<le> c \<and> c \<le> 57 then goto 299 else goto 0)
      else if c > 70 then (if 97 \<le> c \<and> c \<le> 102 then goto 299 else goto 0) else goto 299)"

definition h11_st299 :: "bool \<Rightarrow> int \<Rightarrow> jump" where
  "h11_st299 relaxed c =
     (if c = 58 then goto 300 else goto 0)"

definition h11_st300 :: "bool \<Rightarrow> int \<Rightarrow> jump" where
  "h11_st300 relaxed c =
     (if c = 58 then goto 301 else if c < 65 then (if 48 \<le> c \<and> c \<le> 57 then goto 296 else goto 0)
      else if c > 70 then (if 97 \<le> c \<and> c \<le> 102 then goto 296 else goto 0) else goto 296)"

definition h11_st301 :: "bool \<Rightarrow> int \<Rightarrow> jump" where
  "h11_st301 relaxed c =
     (if c = 49 then goto 318 else if c = 50 then goto 321 else if c = 93 then goto 236
      else if c < 48 then (if 2 \<le> c \<and> c \<le> 3 then goto 223 else goto 0)
      else if c > 57 then (if c > 70 then (if 97 \<le> c \<and> c \<le> 102 then goto 324 else goto 0) else if c \<ge> 65 then goto 324
      else goto 0) else goto 302)"

definition h11_st302 :: "bool \<Rightarrow> int \<Rightarrow> jump" where
  "h11_st302 relaxed c =
     (if c = 46 then goto 230 else if c = 58 then goto 306 else if c = 93 then goto 236
      else if c < 65 then (if 48 \<le> c \<and> c \<le> 57 then goto 303 else goto 0)
      else if c > 70 then (if 97 \<le> c \<and> c \<le> 102 then goto 303 else goto 0) else goto 303)"

definition h11_st303 :: "bool \<Rightarrow> int \<Rightarrow> jump" where
  "h11_st303 relaxed c =
     (if c = 58 then goto 306 else if c = 93 then goto 236 else if c < 65 then (if 48 \<le> c \<and> c \<le> 57 then goto 304 else goto 0)
      else if c > 70 then (if 97 \<le> c \<and> c \<le> 102 then goto 304 else goto 0) else goto 304)"

definition h11_st304 :: "bool \<Rightarrow> int \<Rightarrow> jump" where
  "h11_st304 relaxed c =
     (if c = 58 then goto 306 else if c = 93 then goto 236 else if c < 65 then (if 48 \<le> c \<and> c \<le> 57 then goto 305 else goto 0)
      else if c > 70 then (if 97 \<le> c \<and> c \<le> 102 then goto 305 else goto 0) else goto 305)"

definition h11_st305 :: "bool \<Rightarrow> int \<Rightarrow> jump" where
  "h11_st305 relaxed c =
     (if c = 58 then goto 306 else if c = 93 then goto 236 else goto 0)"

definition h11_st306 :: "bool \<Rightarrow> int \<Rightarrow> jump" where
  "h11_st306 relaxed c =
     (if c = 49 then goto 311 else if c = 50 then goto 314 else if c < 65 then (if 48 \<le> c \<and> c \<le> 57 then goto 307 else goto 0)
      else if c > 70 then (if 97 \<le> c \<and> c \<le> 102 then goto 317 else goto 0) else goto 317)"

definition h11_st307 :: "bool \<Rightarrow> int \<Rightarrow> jump" where
  "h11_st307 relaxed c =
     (if c = 46 then goto 230 else if c = 58 then goto 255 else if c = 93 then goto 236
      else if c < 65 then (if 48 \<le> c \<and> c \<le> 57 then goto 308 else goto 0)
      else if c > 70 then (if 97 \<le> c \<and> c \<le> 102 then goto 308 else goto 0) else goto 308)"

definition h11_st308 :: "bool \<Rightarrow> int \<Rightarrow> jump" where
  "h11_st308 relaxed c =
     (if c = 58 then goto 255 else if c = 93 then goto 236 else if c < 65 then (if 48 \<le> c \<and> c \<le> 57 then goto 309 else goto 0)
      else if c > 70 then (if 97 \<le> c \<and> c \<le> 102 then goto 309 else goto 0) else goto 309)"

definition h11_st309 :: "bool \<Rightarrow> int \<Rightarrow> jump" where
  "h11_st309 relaxed c =
     (if c = 58 then goto 255 else if c = 93 then goto 236 else if c < 65 then (if 48 \<le> c \<and> c \<le> 57 then goto 310 else goto 0)
      else if c > 70 then (if 97 \<le> c \<and> c \<le> 102 then goto 310 else goto 0) else goto 310)"

definition h11_st310 :: "bool \<Rightarrow> int \<Rightarrow> jump" where
  "h11_st310 relaxed c =
     (if c = 58 then goto 255 else if c = 93 then goto 236 else goto 0)"

definition h11_st311 :: "bool \<Rightarrow> int \<Rightarrow> jump" where
  "h11_st311 relaxed c =
     (if c = 46 then goto 230 else if c = 58 then goto 255 else if c = 93 then goto 236
      else if c < 65 then (if 48 \<le> c \<and> c \<le> 57 then goto 312 else goto 0)
      else if c > 70 then (if 97 \<le> c \<and> c \<le> 102 then goto 308 else goto 0) else goto 308)"

definition h11_st312 :: "bool \<Rightarrow> int \<Rightarrow> jump" where
  "h11_st312 relaxed c =
     (if c = 46 then goto 230 else if c = 58 then goto 255 else if c = 93 then goto 236
      else if c < 65 then (if 48 \<le> c \<and> c \<le> 57 then goto 313 else goto 0)
      else if c > 70 then (if 97 \<le> c \<and> c \<le> 102 then goto 309 else goto 0) else goto 309)"

definition h11_st313 :: "bool \<Rightarrow> int \<Rightarrow> jump" where
  "h11_st313 relaxed c =
     (if c = 46 then goto 230 else if c = 58 then goto 255 else if c = 93 then goto 236
      else if c < 65 then (if 48 \<le> c \<and> c \<le> 57 then goto 310 else goto 0)
      else if c > 70 then (if 97 \<le> c \<and> c \<le> 102 then goto 310 else goto 0) else goto 310)"

definition h11_st314 :: "bool \<Rightarrow> int \<Rightarrow> jump" where
  "h11_st314 relaxed c =
     (if c = 46 then goto 230 else if c = 48 then goto 315 else if c = 53 then goto 316 else if c = 58 then goto 255 else if c = 93 then goto 236
      else if c < 65 then (if 49 \<le> c \<and> c \<le> 57 then goto 308 else goto 0)
      else if c > 70 then (if 97 \<le> c \<and> c \<le> 102 then goto 308 else goto 0) else goto 308)"

definition h11_st315 :: "bool \<Rightarrow> int \<Rightarrow> jump" where
  "h11_st315 relaxed c =
     (if c = 58 then goto 255 else if c = 93 then goto 236 else if c < 65 then (if 48 \<le> c \<and> c \<le> 57 then goto 313 else goto 0)
      else if c > 70 then (if 97 \<le> c \<and> c \<le> 102 then goto 309 else goto 0) else goto 309)"

definition h11_st316 :: "bool \<Rightarrow> int \<Rightarrow> jump" where
  "h11_st316 relaxed c =
     (if c = 48 then goto 313 else if c = 58 then goto 255 else if c = 93 then goto 236
      else if c < 65 then (if 49 \<le> c \<and> c \<le> 57 then goto 309 else goto 0)
      else if c > 70 then (if 97 \<le> c \<and> c \<le> 102 then goto 309 else goto 0) else goto 309)"

definition h11_st317 :: "bool \<Rightarrow> int \<Rightarrow> jump" where
  "h11_st317 relaxed c =
     (if c = 58 then goto 255 else if c = 93 then goto 236 else if c < 65 then (if 48 \<le> c \<and> c \<le> 57 then goto 308 else goto 0)
      else if c > 70 then (if 97 \<le> c \<and> c \<le> 102 then goto 308 else goto 0) else goto 308)"

definition h11_st318 :: "bool \<Rightarrow> int \<Rightarrow> jump" where
  "h11_st318 relaxed c =
     (if c = 46 then goto 230 else if c = 58 then goto 306 else if c = 93 then goto 236
      else if c < 65 then (if 48 \<le> c \<and> c \<le> 57 then goto 319 else goto 0)
      else if c > 70 then (if 97 \<le> c \<and> c \<le> 102 then goto 303 else goto 0) else goto 303)"

definition h11_st319 :: "bool \<Rightarrow> int \<Rightarrow> jump" where
  "h11_st319 relaxed c =
     (if c = 46 then goto 230 else if c = 58 then goto 306 else if c = 93 then goto 236
      else if c < 65 then (if 48 \<le> c \<and> c \<le> 57 then goto 320 else goto 0)
      else if c > 70 then (if 97 \<le> c \<and> c \<le> 102 then goto 304 else goto 0) else goto 304)"

definition h11_st320 :: "bool \<Rightarrow> int \<Rightarrow> jump" where
  "h11_st320 relaxed c =
     (if c = 46 then goto 230 else if c = 58 then goto 306 else if c = 93 then goto 236
      else if c < 65 then (if 48 \<le> c \<and> c \<le> 57 then goto 305 else goto 0)
      else if c > 70 then (if 97 \<le> c \<and> c \<le> 102 then goto 305 else goto 0) else goto 305)"

definition h11_st321 :: "bool \<Rightarrow> int \<Rightarrow> jump" where
  "h11_st321 relaxed c =
     (if c = 46 then goto 230 else if c = 48 then goto 322 else if c = 53 then goto 323 else if c = 58 then goto 306 else if c = 93 then goto 236
      else if c < 65 then (if 49 \<le> c \<and> c \<le> 57 then goto 303 else goto 0)
      else if c > 70 then (if 97 \<le> c \<and> c \<le> 102 then goto 303 else goto 0) else goto 303)"

definition h11_st322 :: "bool \<Rightarrow> int \<Rightarrow> jump" where
  "h11_st322 relaxed c =
     (if c = 58 then goto 306 else if c = 93 then goto 236 else if c < 65 then (if 48 \<le> c \<and> c \<le> 57 then goto 320 else goto 0)
      else if c > 70 then (if 97 \<le> c \<and> c \<le> 102 then goto 304 else goto 0) else goto 304)"

definition h11_st323 :: "bool \<Rightarrow> int \<Rightarrow> jump" where
  "h11_st323 relaxed c =
     (if c = 48 then goto 320 else if c = 58 then goto 306 else if c = 93 then goto 236
      else if c < 65 then (if 49 \<le> c \<and> c \<le> 57 then goto 304 else goto 0)
      else if c > 70 then (if 97 \<le> c \<and> c \<le> 102 then goto 304 else goto 0) else goto 304)"

definition h11_st324 :: "bool \<Rightarrow> int \<Rightarrow> jump" where
  "h11_st324 relaxed c =
     (if c = 58 then goto 306 else if c = 93 then goto 236 else if c < 65 then (if 48 \<le> c \<and> c \<le> 57 then goto 303 else goto 0)
      else if c > 70 then (if 97 \<le> c \<and> c \<le> 102 then goto 303 else goto 0) else goto 303)"

definition h11_st325 :: "bool \<Rightarrow> int \<Rightarrow> jump" where
  "h11_st325 relaxed c =
     (if c = 49 then goto 318 else if c = 50 then goto 321 else if c < 48 then (if 2 \<le> c \<and> c \<le> 3 then goto 223 else goto 0)
      else if c > 57 then (if c > 70 then (if 97 \<le> c \<and> c \<le> 102 then goto 324 else goto 0) else if c \<ge> 65 then goto 324
      else goto 0) else goto 302)"

definition h11_st326 :: "bool \<Rightarrow> int \<Rightarrow> jump" where
  "h11_st326 relaxed c =
     (if c = 49 then goto 331 else if c = 50 then goto 334 else if c < 48 then (if 2 \<le> c \<and> c \<le> 3 then goto 223 else goto 0)
      else if c > 57 then (if c > 70 then (if 97 \<le> c \<and> c \<le> 102 then goto 337 else goto 0) else if c \<ge> 65 then goto 337
      else goto 0) else goto 327)"

definition h11_st327 :: "bool \<Rightarrow> int \<Rightarrow> jump" where
  "h11_st327 relaxed c =
     (if c = 46 then goto 230 else if c = 58 then goto 306 else if c < 65 then (if 48 \<le> c \<and> c \<le> 57 then goto 328 else goto 0)
      else if c > 70 then (if 97 \<le> c \<and> c \<le> 102 then goto 328 else goto 0) else goto 328)"

definition h11_st328 :: "bool \<Rightarrow> int \<Rightarrow> jump" where
  "h11_st328 relaxed c =
     (if c = 58 then goto 306 else if c < 65 then (if 48 \<le> c \<and> c \<le> 57 then goto 329 else goto 0)
      else if c > 70 then (if 97 \<le> c \<and> c \<le> 102 then goto 329 else goto 0) else goto 329)"

definition h11_st329 :: "bool \<Rightarrow> int \<Rightarrow> jump" where
  "h11_st329 relaxed c =
     (if c = 58 then goto 306 else if c < 65 then (if 48 \<le> c \<and> c \<le> 57 then goto 330 else goto 0)
      else if c > 70 then (if 97 \<le> c \<and> c \<le> 102 then goto 330 else goto 0) else goto 330)"

definition h11_st330 :: "bool \<Rightarrow> int \<Rightarrow> jump" where
  "h11_st330 relaxed c =
     (if c = 58 then goto 306 else goto 0)"

definition h11_st331 :: "bool \<Rightarrow> int \<Rightarrow> jump" where
  "h11_st331 relaxed c =
     (if c = 46 then goto 230 else if c = 58 then goto 306 else if c < 65 then (if 48 \<le> c \<and> c \<le> 57 then goto 332 else goto 0)
      else if c > 70 then (if 97 \<le> c \<and> c \<le> 102 then goto 328 else goto 0) else goto 328)"

definition h11_st332 :: "bool \<Rightarrow> int \<Rightarrow> jump" where
  "h11_st332 relaxed c =
     (if c = 46 then goto 230 else if c = 58 then goto 306 else if c < 65 then (if 48 \<le> c \<and> c \<le> 57 then goto 333 else goto 0)
      else if c > 70 then (if 97 \<le> c \<and> c \<le> 102 then goto 329 else goto 0) else goto 329)"

definition h11_st333 :: "bool \<Rightarrow> int \<Rightarrow> jump" where
  "h11_st333 relaxed c =
     (if c = 46 then goto 230 else if c = 58 then goto 306 else if c < 65 then (if 48 \<le> c \<and> c \<le> 57 then goto 330 else goto 0)
      else if c > 70 then (if 97 \<le> c \<and> c \<le> 102 then goto 330 else goto 0) else goto 330)"

definition h11_st334 :: "bool \<Rightarrow> int \<Rightarrow> jump" where
  "h11_st334 relaxed c =
     (if c = 46 then goto 230 else if c = 48 then goto 335 else if c = 53 then goto 336 else if c = 58 then goto 306
      else if c < 65 then (if 49 \<le> c \<and> c \<le> 57 then goto 328 else goto 0)
      else if c > 70 then (if 97 \<le> c \<and> c \<le> 102 then goto 328 else goto 0) else goto 328)"

definition h11_st335 :: "bool \<Rightarrow> int \<Rightarrow> jump" where
  "h11_st335 relaxed c =
     (if c = 58 then goto 306 else if c < 65 then (if 48 \<le> c \<and> c \<le> 57 then goto 333 else goto 0)
      else if c > 70 then (if 97 \<le> c \<and> c \<le> 102 then goto 329 else goto 0) else goto 329)"

definition h11_st336 :: "bool \<Rightarrow> int \<Rightarrow> jump" where
  "h11_st336 relaxed c =
     (if c = 48 then goto 333 else if c = 58 then goto 306 else if c < 65 then (if 49 \<le> c \<and> c \<le> 57 then goto 329 else goto 0)
      else if c > 70 then (if 97 \<le> c \<and> c \<le> 102 then goto 329 else goto 0) else goto 329)"

definition h11_st337 :: "bool \<Rightarrow> int \<Rightarrow> jump" where
  "h11_st337 relaxed c =
     (if c = 58 then goto 306 else if c < 65 then (if 48 \<le> c \<and> c \<le> 57 then goto 328 else goto 0)
      else if c > 70 then (if 97 \<le> c \<and> c \<le> 102 then goto 328 else goto 0) else goto 328)"

definition h11_st338 :: "bool \<Rightarrow> int \<Rightarrow> jump" where
  "h11_st338 relaxed c =
     (if c < 48 then (if 2 \<le> c \<and> c \<le> 3 then goto 223 else goto 0)
      else if c > 57 then (if c > 70 then (if 97 \<le> c \<and> c \<le> 102 then goto 224 else goto 0) else if c \<ge> 65 then goto 224
      else goto 0) else goto 224)"

definition h11_st339 :: "bool \<Rightarrow> int \<Rightarrow> jump" where
  "h11_st339 relaxed c =
     (if 2 \<le> c \<and> c \<le> 3 then goto 223 else goto 0)"

definition h11_st340 :: "bool \<Rightarrow> int \<Rightarrow> jump" where
  "h11_st340 relaxed c =
     (if c = 3 then goto 223 else goto 0)"

definition h11_st341 :: "bool \<Rightarrow> int \<Rightarrow> jump" where
  "h11_st341 relaxed c =
     (if c = 4 then goto 223 else goto 0)"

definition h11_st342 :: "bool \<Rightarrow> int \<Rightarrow> jump" where
  "h11_st342 relaxed c =
     (if c = 58 then goto 343 else goto 0)"

definition h11_st343 :: "bool \<Rightarrow> int \<Rightarrow> jump" where
  "h11_st343 relaxed c =
     (if c = 49 then goto 318 else if c = 50 then goto 321 else if c = 93 then goto 236
      else if c < 48 then (if 2 \<le> c \<and> c \<le> 5 then goto 223 else goto 0)
      else if c > 57 then (if c > 70 then (if 97 \<le> c \<and> c \<le> 102 then goto 324 else goto 0) else if c \<ge> 65 then goto 324
      else goto 0) else goto 302)"

definition h11_st344 :: "bool \<Rightarrow> int \<Rightarrow> jump" where
  "h11_st344 relaxed c =
     (if c < 65 then (if 48 \<le> c \<and> c \<le> 57 then goto 345 else goto 0)
      else if c > 70 then (if 97 \<le> c \<and> c \<le> 102 then goto 345 else goto 0) else goto 345)"

definition h11_st345 :: "bool \<Rightarrow> int \<Rightarrow> jump" where
  "h11_st345 relaxed c =
     (if c = 46 then goto 346 else if c < 65 then (if 48 \<le> c \<and> c \<le> 57 then goto 345 else goto 0)
      else if c > 70 then (if 97 \<le> c \<and> c \<le> 102 then goto 345 else goto 0) else goto 345)"

definition h11_st346 :: "bool \<Rightarrow> int \<Rightarrow> jump" where
  "h11_st346 relaxed c =
     (let w = widec relaxed c in if w = 33 then goto 347 else if w = 36 then goto 347 else if w = 61 then goto 347 else if w = 95 then goto 347
      else if w = 126 then goto 347 else if w = 606 then goto 347 else if w = 635 then goto 347 else if w = 637 then goto 347
      else if w < 48 then (if 38 \<le> w \<and> w \<le> 46 then goto 347 else goto 0)
      else if w > 59 then (if w > 90 then (if 97 \<le> w \<and> w \<le> 122 then goto 347 else goto 0) else if w \<ge> 65 then goto 347
      else goto 0) else goto 347)"

definition h11_st347 :: "bool \<Rightarrow> int \<Rightarrow> jump" where
  "h11_st347 relaxed c =
     (let w = widec relaxed c in if w = 33 then goto 347 else if w = 36 then goto 347 else if w = 61 then goto 347 else if w = 93 then goto 236
      else if w = 95 then goto 347 else if w = 126 then goto 347 else if w = 606 then goto 347 else if w = 635 then goto 347
      else if w = 637 then goto 347 else if w < 48 then (if 38 \<le> w \<and> w \<le> 46 then goto 347 else goto 0)
      else if w > 59 then (if w > 90 then (if 97 \<le> w \<and> w \<le> 122 then goto 347 else goto 0) else if w \<ge> 65 then goto 347
      else goto 0) else goto 347)"

definition h11_st348 :: "bool \<Rightarrow> int \<Rightarrow> jump" where
  "h11_st348 relaxed c =
     (if c = 33 then goto 14 else if c = 58 then h11_tr27 else if c = 124 then goto 14 else if c = 126 then goto 14
      else if c < 42 then (if c < 10 then (if 1 \<le> c \<and> c \<le> 8 then goto 14 else goto 0)
      else if c > 31 then (if 35 \<le> c \<and> c \<le> 39 then goto 14 else goto 0) else goto 14)
      else if c > 43 then (if c < 48 then (if 45 \<le> c \<and> c \<le> 46 then goto 14 else goto 0)
      else if c > 57 then (if c > 90 then (if 94 \<le> c \<and> c \<le> 122 then goto 14 else goto 0) else if c \<ge> 65 then goto 14
      else goto 0) else goto 14) else goto 14)"

definition h11_st349 :: "bool \<Rightarrow> int \<Rightarrow> jump" where
  "h11_st349 relaxed c =
     (goto 0)"

definition h11_states :: "(bool \<Rightarrow> int \<Rightarrow> jump) list" where
  "h11_states = [h11_st1, h11_st2, h11_st3, h11_st4, h11_st5, h11_st6, h11_st7, h11_st8, h11_st9, h11_st10, h11_st11, h11_st12, h11_st13, 
     h11_st14, h11_st15, h11_st16, h11_st17, h11_st18, h11_st19, h11_st20, h11_st21, h11_st22, h11_st23, h11_st24, h11_st25, h11_st26, 
     h11_st27, h11_st28, h11_st29, h11_st30, h11_st31, h11_st32, h11_st33, h11_st34, h11_st35, h11_st36, h11_st37, h11_st38, h11_st39, 
     h11_st40, h11_st41, h11_st42, h11_st43, h11_st44, h11_st45, h11_st46, h11_st47, h11_st48, h11_st49, h11_st50, h11_st51, h11_st52, 
     h11_st53, h11_st54, h11_st55, h11_st56, h11_st57, h11_st58, h11_st59, h11_st60, h11_st61, h11_st62, h11_st63, h11_st64, h11_st65, 
     h11_st66, h11_st67, h11_st68, h11_st69, h11_st70, h11_st71, h11_st72, h11_st73, h11_st74, h11_st75, h11_st76, h11_st77, h11_st78, 
     h11_st79, h11_st80, h11_st81, h11_st82, h11_st83, h11_st84, h11_st85, h11_st86, h11_st87, h11_st88, h11_st89, h11_st90, h11_st91, 
     h11_st92, h11_st93, h11_st94, h11_st95, h11_st96, h11_st97, h11_st98, h11_st99, h11_st100, h11_st101, h11_st102, h11_st103, 
     h11_st104, h11_st105, h11_st106, h11_st107, h11_st108, h11_st109, h11_st110, h11_st111, h11_st112, h11_st113, h11_st114, 
     h11_st115, h11_st116, h11_st117, h11_st118, h11_st119, h11_st120, h11_st121, h11_st122, h11_st123, h11_st124, h11_st125, 
     h11_st126, h11_st127, h11_st128, h11_st129, h11_st130, h11_st131, h11_st132, h11_st133, h11_st134, h11_st135, h11_st136, 
     h11_st137, h11_st138, h11_st139, h11_st140, h11_st141, h11_st142, h11_st143, h11_st144, h11_st145, h11_st146, h11_st147, 
     h11_st148, h11_st149, h11_st150, h11_st151, h11_st152, h11_st153, h11_st154, h11_st155, h11_st156, h11_st157, h11_st158, 
     h11_st159, h11_st160, h11_st161, h11_st162, h11_st163, h11_st164, h11_st165, h11_st166, h11_st167, h11_st168, h11_st169, 
     h11_st170, h11_st171, h11_st172, h11_st173, h11_st174, h11_st175, h11_st176, h11_st177, h11_st178, h11_st179, h11_st180, 
     h11_st181, h11_st182, h11_st183, h11_st184, h11_st185, h11_st186, h11_st187, h11_st188, h11_st189, h11_st190, h11_st191, 
     h11_st192, h11_st193, h11_st194, h11_st195, h11_st196, h11_st197, h11_st198, h11_st199, h11_st200, h11_st201, h11_st202, 
     h11_st203, h11_st204, h11_st205, h11_st206, h11_st207, h11_st208, h11_st209, h11_st210, h11_st211, h11_st212, h11_st213, 
     h11_st214, h11_st215, h11_st216, h11_st217, h11_st218, h11_st219, h11_st220, h11_st221, h11_st222, h11_st223, h11_st224, 
     h11_st225, h11_st226, h11_st227, h11_st228, h11_st229, h11_st230, h11_st231, h11_st232, h11_st233, h11_st234, h11_st235, 
     h11_st236, h11_st237, h11_st238, h11_st239, h11_st240, h11_st241, h11_st242, h11_st243, h11_st244, h11_st245, h11_st246, 
     h11_st247, h11_st248, h11_st249, h11_st250, h11_st251, h11_st252, h11_st253, h11_st254, h11_st255, h11_st256, h11_st257, 
     h11_st258, h11_st259, h11_st260, h11_st261, h11_st262, h11_st263, h11_st264, h11_st265, h11_st266, h11_st267, h11_st268, 
     h11_st269, h11_st270, h11_st271, h11_st272, h11_st273, h11_st274, h11_st275, h11_st276, h11_st277, h11_st278, h11_st279, 
     h11_st280, h11_st281, h11_st282, h11_st283, h11_st284, h11_st285, h11_st286, h11_st287, h11_st288, h11_st289, h11_st290, 
     h11_st291, h11_st292, h11_st293, h11_st294, h11_st295, h11_st296, h11_st297, h11_st298, h11_st299, h11_st300, h11_st301, 
     h11_st302, h11_st303, h11_st304, h11_st305, h11_st306, h11_st307, h11_st308, h11_st309, h11_st310, h11_st311, h11_st312, 
     h11_st313, h11_st314, h11_st315, h11_st316, h11_st317, h11_st318, h11_st319, h11_st320, h11_st321, h11_st322, h11_st323, 
     h11_st324, h11_st325, h11_st326, h11_st327, h11_st328, h11_st329, h11_st330, h11_st331, h11_st332, h11_st333, h11_st334, 
     h11_st335, h11_st336, h11_st337, h11_st338, h11_st339, h11_st340, h11_st341, h11_st342, h11_st343, h11_st344, h11_st345, 
     h11_st346, h11_st347, h11_st348, h11_st349]"

section \<open>Execution\<close>

text \<open>A \<^verbatim>\<open>char\<close> is signed.\<close>

definition signed_char :: "char \<Rightarrow> int" where
  "signed_char ch = signed_take_bit 7 (of_char ch)"

text \<open>What an action does at the position \<open>p\<close> of the buffer; callbacks are collected.\<close>

fun do_action :: "string \<Rightarrow> nat \<Rightarrow> machine_action \<Rightarrow> http_parser \<times> Callback list \<Rightarrow> http_parser \<times> Callback list" where
  "do_action buffer p Mark (h, cbs) = (h\<lparr>hp_mark := p\<rparr>, cbs)"
| "do_action buffer p Start_field (h, cbs) = (h\<lparr>hp_field_start := p\<rparr>, cbs)"
| "do_action buffer p Start_query (h, cbs) = (h\<lparr>hp_query_start := p\<rparr>, cbs)"
| "do_action buffer p Write_field (h, cbs) = (h\<lparr>hp_field_len := size_sub p (hp_field_start h)\<rparr>, cbs)"
| "do_action buffer p Write_value (h, cbs) =
     (h, cbs @ [FieldCb (drop (hp_field_start h) buffer) (hp_field_len h) (drop (hp_mark h) buffer) (size_sub p (hp_mark h))])"
| "do_action buffer p Query_cb (h, cbs) =
     (h, cbs @ [ElementCb query_string (drop (hp_query_start h) buffer) (size_sub p (hp_query_start h))])"
| "do_action buffer p (Element_cb e) (h, cbs) =
     (h, cbs @ [ElementCb e (drop (hp_mark h) buffer) (size_sub p (hp_mark h))])"
| "do_action buffer p Set_xml (h, cbs) = (h\<lparr>hp_xml_sent := True\<rparr>, cbs)"
| "do_action buffer p Set_json (h, cbs) = (h\<lparr>hp_json_sent := True\<rparr>, cbs)"
| "do_action buffer p (Done k) (h, cbs) =
     (if hp_xml_sent h \<or> hp_json_sent h
      then (h\<lparr>hp_body_start := hp_mark h, hp_content_len := to_int32 (int p - int (hp_mark h) + 1)\<rparr>, cbs)
      else (h\<lparr>hp_body_start := p + 1\<rparr>,
            cbs @ [ElementCb header_done (drop (p + 1) buffer) (length buffer - p - 1)]))"

text \<open>The \<^verbatim>\<open>switch\<close> on the state; a state without a case falls through to the end.\<close>

definition h11_case :: "nat \<Rightarrow> (bool \<Rightarrow> int \<Rightarrow> jump) option" where
  "h11_case cs = (if cs = 0 \<or> length h11_states < cs then None else Some (h11_states ! (cs - 1)))"

definition is_done :: "machine_action \<Rightarrow> bool" where
  "is_done a \<longleftrightarrow> (case a of Done _ \<Rightarrow> True | _ \<Rightarrow> False)"

text \<open>
  The goto code from the position \<open>p\<close> on, where \<open>rest\<close> is what is left of the buffer. The jump to \<^verbatim>\<open>st0\<close> leaves with the position of
  the offending character; the action \<open>Done\<close> leaves with the next position.
\<close>

fun h11_run :: "string \<Rightarrow> nat \<Rightarrow> string \<Rightarrow> nat \<Rightarrow> http_parser \<times> Callback list \<Rightarrow> nat \<times> nat \<times> http_parser \<times> Callback list" where
  "h11_run buffer p [] cs s = (p, cs, s)"
| "h11_run buffer p (ch # rest) cs s =
     (case h11_case cs of
        None \<Rightarrow> (p, cs, s)
      | Some st \<Rightarrow>
          (let (acts, target) = st (hp_uri_relaxed (fst s)) (signed_char ch); s1 = fold (do_action buffer p) acts s in
           if target = 0 then (p, 0, s)
           else if list_ex is_done acts then (p + 1, target, s1)
           else h11_run buffer (p + 1) rest target s1))"

datatype h11_error = H11Assert

definition http_parser_has_error :: "http_parser \<Rightarrow> bool" where
  "http_parser_has_error h \<longleftrightarrow> hp_cs h = 0"

definition http_parser_is_finished :: "http_parser \<Rightarrow> bool" where
  "http_parser_is_finished h \<longleftrightarrow> 348 \<le> hp_cs h"

definition http_parser_finish :: "http_parser \<Rightarrow> int" where
  "http_parser_finish h = (if http_parser_has_error h then - 1 else if http_parser_is_finished h then 1 else 0)"

definition http_parser_execute :: "http_parser \<Rightarrow> string \<Rightarrow> nat \<Rightarrow> h11_error + nat \<times> Callback list \<times> http_parser" where
  "http_parser_execute h0 buffer off =
     (let len = length buffer in
      if len = 0 then Inr (0, [], h0)
      else let h = h0\<lparr>hp_nread := 0, hp_mark := 0, hp_field_len := 0, hp_field_start := 0\<rparr> in
      if len < off \<or> int (len - off) \<noteq> to_int32 (int len) - to_int32 (int off) then Inl H11Assert
      else let (p, cs, h1, cbs) = h11_run buffer off (drop off buffer) (hp_cs h) (h, []);
               h2 = (if \<not> http_parser_has_error h1 then h1\<lparr>hp_cs := cs\<rparr> else h1);
               h3 = h2\<lparr>hp_nread := hp_nread h2 + (p - off)\<rparr>
           in if p \<le> len \<and> hp_nread h3 \<le> len \<and> hp_body_start h3 \<le> len \<and> hp_mark h3 < len \<and> hp_field_len h3 \<le> len \<and> hp_field_start h3 < len
              then Inr (hp_nread h3, cbs, h3) else Inl H11Assert)"

text \<open>The machine as the parser objects use it.\<close>

definition http11 :: "http_parser \<Rightarrow> http_parser ragel" where
  "http11 blank =
     \<lparr>rg_init = http_parser_init blank,
      rg_execute = (\<lambda>h data. case http_parser_execute h data 0 of Inr r \<Rightarrow> r | Inl _ \<Rightarrow> (0, [], h)),
      rg_finish = http_parser_finish, rg_has_error = http_parser_has_error\<rparr>"

end
