(* ===== verification/Sylar_RequestParser.thy ===== *)
theory Sylar_RequestParser
  imports Sylar_Http11
begin

text \<open>
  What the request machine of \<^verbatim>\<open>Sylar_Http11\<close> does. One check of every label shows which marks are set when a callback
  is made, from which it follows that a call stays inside its buffer; the exception is the query, whose mark survives from
  one call to the next. A request that arrives in one piece is parsed into exactly its parts, and what
  \<^verbatim>\<open>HttpRequest::dump\<close> prints is read back.
\<close>

section \<open>What the labels keep\<close>

definition act_ok :: "bool \<Rightarrow> bool \<Rightarrow> machine_action \<Rightarrow> (bool \<times> bool) option" where
  "act_ok q f a =
     (case a of Start_query \<Rightarrow> Some (True, f)
      | Query_cb \<Rightarrow> if q then Some (q, f) else None
      | Start_field \<Rightarrow> Some (q, False)
      | Write_field \<Rightarrow> Some (q, True)
      | Write_value \<Rightarrow> if f then Some (q, f) else None
      | _ \<Rightarrow> Some (q, f))"

fun acts_ok :: "bool \<Rightarrow> bool \<Rightarrow> machine_action list \<Rightarrow> (bool \<times> bool) option" where
  "acts_ok q f [] = Some (q, f)"
| "acts_ok q f (a # as) = (case act_ok q f a of None \<Rightarrow> None | Some (q', f') \<Rightarrow> acts_ok q' f' as)"

definition in_query :: "nat \<Rightarrow> bool" where "in_query cs \<longleftrightarrow> cs = 30 \<or> cs = 31 \<or> cs = 32"
definition in_value :: "nat \<Rightarrow> bool" where "in_value cs \<longleftrightarrow> cs = 15 \<or> cs = 16"

definition jump_ok :: "nat \<Rightarrow> jump \<Rightarrow> bool" where
  "jump_ok cs j \<longleftrightarrow> snd j = 0 \<or>
     (case acts_ok (in_query cs) (in_value cs) (fst j) of None \<Rightarrow> False
      | Some (q, f) \<Rightarrow> (in_query (snd j) \<longrightarrow> q) \<and> (in_value (snd j) \<longrightarrow> f))
     \<and> snd j \<le> 349 \<and> (list_ex is_done (fst j) \<longleftrightarrow> 348 \<le> snd j)"

fun labels_ok :: "nat \<Rightarrow> (bool \<Rightarrow> int \<Rightarrow> jump) list \<Rightarrow> bool" where
  "labels_ok n [] \<longleftrightarrow> True"
| "labels_ok n (st # sts) \<longleftrightarrow> (\<forall>r c. jump_ok n (st r c)) \<and> labels_ok (n + 1) sts"

lemma jump_ok_if: "jump_ok cs x \<Longrightarrow> jump_ok cs y \<Longrightarrow> jump_ok cs (if b then x else y)"
  by simp

lemma jump_ok_let: "jump_ok cs (f w) \<Longrightarrow> jump_ok cs (Let w f)"
  by simp

lemma jump_ok_pair: "jump_ok cs (as, k) \<longleftrightarrow> k = 0 \<or>
     (case acts_ok (in_query cs) (in_value cs) as of None \<Rightarrow> False
      | Some (q, f) \<Rightarrow> (in_query k \<longrightarrow> q) \<and> (in_value k \<longrightarrow> f))
     \<and> k \<le> 349 \<and> (list_ex is_done as \<longleftrightarrow> 348 \<le> k)"
  by (simp only: jump_ok_def fst_conv snd_conv)

lemmas tr_defs = h11_tr0_def h11_tr4_def h11_tr6_def h11_tr37_def h11_tr44_def h11_tr47_def h11_tr54_def h11_tr58_def h11_tr13_def h11_tr21_def 
  h11_tr30_def h11_tr33_def h11_tr23_def h11_tr27_def h11_tr29_def h11_tr28_def h11_tr22_def h11_tr31_def h11_tr34_def 
  h11_tr24_def h11_tr36_def h11_tr25_def h11_tr7_def h11_tr8_def h11_tr39_def h11_tr55_def h11_tr59_def h11_tr43_def h11_tr45_def 
  h11_tr9_def h11_tr203_def h11_tr204_def h11_tr11_def h11_tr42_def h11_tr53_def h11_tr56_def h11_tr10_def h11_tr12_def 
  h11_tr2_def h11_tr224_def h11_tr227_def h11_tr235_def h11_tr3_def h11_tr228_def h11_tr232_def 
lemmas st_defs = h11_st1_def h11_st2_def h11_st3_def h11_st4_def h11_st5_def h11_st6_def h11_st7_def h11_st8_def h11_st9_def h11_st10_def 
  h11_st11_def h11_st12_def h11_st13_def h11_st14_def h11_st15_def h11_st16_def h11_st17_def h11_st18_def h11_st19_def 
  h11_st20_def h11_st21_def h11_st22_def h11_st23_def h11_st24_def h11_st25_def h11_st26_def h11_st27_def h11_st28_def 
  h11_st29_def h11_st30_def h11_st31_def h11_st32_def h11_st33_def h11_st34_def h11_st35_def h11_st36_def h11_st37_def 
  h11_st38_def h11_st39_def h11_st40_def h11_st41_def h11_st42_def h11_st43_def h11_st44_def h11_st45_def h11_st46_def 
  h11_st47_def h11_st48_def h11_st49_def h11_st50_def h11_st51_def h11_st52_def h11_st53_def h11_st54_def h11_st55_def 
  h11_st56_def h11_st57_def h11_st58_def h11_st59_def h11_st60_def h11_st61_def h11_st62_def h11_st63_def h11_st64_def 
  h11_st65_def h11_st66_def h11_st67_def h11_st68_def h11_st69_def h11_st70_def h11_st71_def h11_st72_def h11_st73_def 
  h11_st74_def h11_st75_def h11_st76_def h11_st77_def h11_st78_def h11_st79_def h11_st80_def h11_st81_def h11_st82_def 
  h11_st83_def h11_st84_def h11_st85_def h11_st86_def h11_st87_def h11_st88_def h11_st89_def h11_st90_def h11_st91_def 
  h11_st92_def h11_st93_def h11_st94_def h11_st95_def h11_st96_def h11_st97_def h11_st98_def h11_st99_def h11_st100_def 
  h11_st101_def h11_st102_def h11_st103_def h11_st104_def h11_st105_def h11_st106_def h11_st107_def h11_st108_def h11_st109_def 
  h11_st110_def h11_st111_def h11_st112_def h11_st113_def h11_st114_def h11_st115_def h11_st116_def h11_st117_def h11_st118_def 
  h11_st119_def h11_st120_def h11_st121_def h11_st122_def h11_st123_def h11_st124_def h11_st125_def h11_st126_def h11_st127_def 
  h11_st128_def h11_st129_def h11_st130_def h11_st131_def h11_st132_def h11_st133_def h11_st134_def h11_st135_def h11_st136_def 
  h11_st137_def h11_st138_def h11_st139_def h11_st140_def h11_st141_def h11_st142_def h11_st143_def h11_st144_def h11_st145_def 
  h11_st146_def h11_st147_def h11_st148_def h11_st149_def h11_st150_def h11_st151_def h11_st152_def h11_st153_def h11_st154_def 
  h11_st155_def h11_st156_def h11_st157_def h11_st158_def h11_st159_def h11_st160_def h11_st161_def h11_st162_def h11_st163_def 
  h11_st164_def h11_st165_def h11_st166_def h11_st167_def h11_st168_def h11_st169_def h11_st170_def h11_st171_def h11_st172_def 
  h11_st173_def h11_st174_def h11_st175_def h11_st176_def h11_st177_def h11_st178_def h11_st179_def h11_st180_def h11_st181_def 
  h11_st182_def h11_st183_def h11_st184_def h11_st185_def h11_st186_def h11_st187_def h11_st188_def h11_st189_def h11_st190_def 
  h11_st191_def h11_st192_def h11_st193_def h11_st194_def h11_st195_def h11_st196_def h11_st197_def h11_st198_def h11_st199_def 
  h11_st200_def h11_st201_def h11_st202_def h11_st203_def h11_st204_def h11_st205_def h11_st206_def h11_st207_def h11_st208_def 
  h11_st209_def h11_st210_def h11_st211_def h11_st212_def h11_st213_def h11_st214_def h11_st215_def h11_st216_def h11_st217_def 
  h11_st218_def h11_st219_def h11_st220_def h11_st221_def h11_st222_def h11_st223_def h11_st224_def h11_st225_def h11_st226_def 
  h11_st227_def h11_st228_def h11_st229_def h11_st230_def h11_st231_def h11_st232_def h11_st233_def h11_st234_def h11_st235_def 
  h11_st236_def h11_st237_def h11_st238_def h11_st239_def h11_st240_def h11_st241_def h11_st242_def h11_st243_def h11_st244_def 
  h11_st245_def h11_st246_def h11_st247_def h11_st248_def h11_st249_def h11_st250_def h11_st251_def h11_st252_def h11_st253_def 
  h11_st254_def h11_st255_def h11_st256_def h11_st257_def h11_st258_def h11_st259_def h11_st260_def h11_st261_def h11_st262_def 
  h11_st263_def h11_st264_def h11_st265_def h11_st266_def h11_st267_def h11_st268_def h11_st269_def h11_st270_def h11_st271_def 
  h11_st272_def h11_st273_def h11_st274_def h11_st275_def h11_st276_def h11_st277_def h11_st278_def h11_st279_def h11_st280_def 
  h11_st281_def h11_st282_def h11_st283_def h11_st284_def h11_st285_def h11_st286_def h11_st287_def h11_st288_def h11_st289_def 
  h11_st290_def h11_st291_def h11_st292_def h11_st293_def h11_st294_def h11_st295_def h11_st296_def h11_st297_def h11_st298_def 
  h11_st299_def h11_st300_def h11_st301_def h11_st302_def h11_st303_def h11_st304_def h11_st305_def h11_st306_def h11_st307_def 
  h11_st308_def h11_st309_def h11_st310_def h11_st311_def h11_st312_def h11_st313_def h11_st314_def h11_st315_def h11_st316_def 
  h11_st317_def h11_st318_def h11_st319_def h11_st320_def h11_st321_def h11_st322_def h11_st323_def h11_st324_def h11_st325_def 
  h11_st326_def h11_st327_def h11_st328_def h11_st329_def h11_st330_def h11_st331_def h11_st332_def h11_st333_def h11_st334_def 
  h11_st335_def h11_st336_def h11_st337_def h11_st338_def h11_st339_def h11_st340_def h11_st341_def h11_st342_def h11_st343_def 
  h11_st344_def h11_st345_def h11_st346_def h11_st347_def h11_st348_def h11_st349_def 

lemma states_ok: "labels_ok 1 h11_states"
  unfolding h11_states_def labels_ok.simps one_add_one numeral_plus_one add_num_simps st_defs
  by (intro conjI allI TrueI jump_ok_if jump_ok_let; simp add: tr_defs jump_ok_pair in_query_def in_value_def is_done_def act_ok_def)

lemma states_length: "length h11_states = 349"
  by (simp add: h11_states_def)

lemma labels_ok_nth: "labels_ok n sts \<Longrightarrow> i < length sts \<Longrightarrow> jump_ok (n + i) ((sts ! i) r c)"
proof (induction sts arbitrary: n i)
  case (Cons st sts)
  then show ?case using Cons.IH [of "n + 1" "i - 1"] by (cases i) auto
qed simp

lemma case_ok: "h11_case cs = Some st \<Longrightarrow> jump_ok cs (st r c)"
  using labels_ok_nth [OF states_ok, of "cs - 1" r c] by (auto simp: h11_case_def split: if_splits)

section \<open>Memory safety\<close>

fun cb_ok :: "bool \<Rightarrow> Callback \<Rightarrow> bool" where
  "cb_ok Q (ElementCb e at n) \<longleftrightarrow> n \<le> length at \<or> \<not> Q \<and> e = query_string"
| "cb_ok Q (FieldCb f n v m) \<longleftrightarrow> n \<le> length f \<and> m \<le> length v"

definition marks_ok :: "bool \<Rightarrow> string \<Rightarrow> nat \<Rightarrow> bool \<Rightarrow> bool \<Rightarrow> http_parser \<times> Callback list \<Rightarrow> bool" where
  "marks_ok Q buffer p q f s \<longleftrightarrow>
     (let h = fst s in hp_mark h \<le> p \<and> hp_mark h < length buffer \<and> hp_field_start h \<le> p \<and> hp_field_start h < length buffer
      \<and> hp_field_len h \<le> p \<and> (f \<longrightarrow> hp_field_start h + hp_field_len h \<le> p) \<and> (Q \<longrightarrow> q \<longrightarrow> hp_query_start h \<le> p)
      \<and> hp_body_start h \<le> length buffer \<and> (\<forall>cb \<in> set (snd s). cb_ok Q cb))"

lemma action_marks_ok:
  assumes "marks_ok Q buffer p q f s" "act_ok q f a = Some (q', f')" "p < length buffer"
  shows "marks_ok Q buffer p q' f' (do_action buffer p a s)"
proof (cases s)
  case (Pair h cbs)
  then show ?thesis using assms
    by (cases a) (auto simp: marks_ok_def act_ok_def Let_def split: if_splits)
qed

lemma actions_marks_ok:
  assumes "marks_ok Q buffer p q f s" "acts_ok q f as = Some (q', f')" "p < length buffer"
  shows "marks_ok Q buffer p q' f' (fold (do_action buffer p) as s)"
  using assms
proof (induction as arbitrary: q f s)
  case (Cons a as)
  then obtain q1 f1 where a: "act_ok q f a = Some (q1, f1)" "acts_ok q1 f1 as = Some (q', f')" by (auto split: option.splits)
  from Cons.IH [OF action_marks_ok [OF Cons.prems(1) a(1) Cons.prems(3)] a(2) Cons.prems(3)] show ?case by simp
qed simp

lemma action_keeps:
  "hp_cs (fst (do_action buffer p a s)) = hp_cs (fst s)" "hp_nread (fst (do_action buffer p a s)) = hp_nread (fst s)"
  "hp_uri_relaxed (fst (do_action buffer p a s)) = hp_uri_relaxed (fst s)"
  "\<not> is_done a \<Longrightarrow> hp_body_start (fst (do_action buffer p a s)) = hp_body_start (fst s)"
  by (cases s; cases a; simp add: is_done_def)+

lemma actions_keep:
  "hp_cs (fst (fold (do_action buffer p) as s)) = hp_cs (fst s)" "hp_nread (fst (fold (do_action buffer p) as s)) = hp_nread (fst s)"
  "hp_uri_relaxed (fst (fold (do_action buffer p) as s)) = hp_uri_relaxed (fst s)"
  "\<not> list_ex is_done as \<Longrightarrow> hp_body_start (fst (fold (do_action buffer p) as s)) = hp_body_start (fst s)"
  by (induction as arbitrary: s) (auto simp: action_keeps)

lemma marks_ok_mono:
  "marks_ok Q buffer p q f s \<Longrightarrow> p \<le> p' \<Longrightarrow> (q' \<longrightarrow> q) \<Longrightarrow> (f' \<longrightarrow> f) \<Longrightarrow> marks_ok Q buffer p' q' f' s"
  by (auto simp: marks_ok_def Let_def)

lemma run_ok:
  assumes "marks_ok Q buffer p (in_query cs) (in_value cs) s" "rest = drop p buffer" "p \<le> length buffer" "cs \<le> 349"
    "h11_run buffer p rest cs s = (p', cs', s')"
  shows "marks_ok Q buffer p' False False s' \<and> p \<le> p' \<and> p' \<le> length buffer \<and> cs' \<le> 349 \<and> hp_cs (fst s') = hp_cs (fst s)
    \<and> hp_nread (fst s') = hp_nread (fst s) \<and> (cs' < 348 \<longrightarrow> hp_body_start (fst s') = hp_body_start (fst s))"
  using assms
proof (induction rest arbitrary: p cs s)
  case Nil
  then show ?case by (auto intro: marks_ok_mono)
next
  case (Cons ch rest)
  have p: "p < length buffer" "rest = drop (p + 1) buffer" using Cons.prems(2) by (metis drop_all linorder_not_less list.distinct(1), metis drop_Suc drop_tl list.sel(3) Suc_eq_plus1)
  show ?case
  proof (cases "h11_case cs")
    case None
    then have "p' = p" "cs' = cs" "s' = s" using Cons.prems(5) by simp_all
    then show ?thesis using Cons.prems(1, 3, 4) by (auto intro: marks_ok_mono)
  next
    case (Some st)
    obtain acts t where j: "st (hp_uri_relaxed (fst s)) (signed_char ch) = (acts, t)" by fastforce
    have ok: "jump_ok cs (acts, t)" using case_ok [OF Some] j by metis
    let ?s = "fold (do_action buffer p) acts s"
    have run: "h11_run buffer p (ch # rest) cs s = (if t = 0 then (p, 0, s) else if list_ex is_done acts then (p + 1, t, ?s)
        else h11_run buffer (p + 1) rest t ?s)" using Some j by simp
    show ?thesis
    proof (cases "t = 0")
      case True
      then have "p' = p" "cs' = 0" "s' = s" using Cons.prems(5) run by simp_all
      then show ?thesis using Cons.prems(1, 3) by (auto intro: marks_ok_mono)
    next
      case False
      then obtain q f where a: "acts_ok (in_query cs) (in_value cs) acts = Some (q, f)" "in_query t \<longrightarrow> q" "in_value t \<longrightarrow> f" "t \<le> 349"
        "list_ex is_done acts \<longleftrightarrow> 348 \<le> t" using ok by (auto simp: jump_ok_pair split: option.splits)
      have m: "marks_ok Q buffer p q f ?s" by (rule actions_marks_ok [OF Cons.prems(1) a(1) p(1)])
      show ?thesis
      proof (cases "list_ex is_done acts")
        case True
        then have "p' = p + 1" "cs' = t" "s' = ?s" using run False Cons.prems(5) by simp_all
        moreover have "marks_ok Q buffer (p + 1) False False ?s" using marks_ok_mono [OF m] by simp
        ultimately show ?thesis using p(1) a(4, 5) True by (simp add: actions_keep)
      next
        case more: False
        have m': "marks_ok Q buffer (p + 1) (in_query t) (in_value t) ?s" using marks_ok_mono [OF m _ a(2, 3)] by simp
        have "h11_run buffer (p + 1) rest t ?s = (p', cs', s')" using run False more Cons.prems(5) by simp
        from Cons.IH [OF m' p(2) _ a(4) this] p(1) more show ?thesis by (auto simp: actions_keep)
      qed
    qed
  qed
qed

text \<open>An unfinished parser has not located a body yet.\<close>

definition parser_ok :: "http_parser \<Rightarrow> bool" where
  "parser_ok h \<longleftrightarrow> hp_cs h \<le> 349 \<and> (hp_cs h < 348 \<longrightarrow> hp_body_start h = 0)"

lemma init_parser_ok: "parser_ok (http_parser_init h)" "hp_cs (http_parser_init h) = 1"
  by (simp_all add: parser_ok_def http_parser_init_def)

lemma to_int32_length: "n < 2 ^ 31 \<Longrightarrow> to_int32 (int n) = int n \<and> to_int32 0 = 0"
  using to_int32_small [of "int n"] to_int32_small [of 0] by simp

lemma execute_safe:
  assumes "parser_ok h" "0 < hp_cs h" "hp_cs h < 348" "in_query (hp_cs h) \<longrightarrow> Q \<longrightarrow> hp_query_start h = 0" "length data < 2 ^ 31"
  shows "\<exists>n cbs h'. http_parser_execute h data 0 = Inr (n, cbs, h') \<and> n \<le> length data \<and> parser_ok h' \<and> (\<forall>cb \<in> set cbs. cb_ok Q cb)"
proof (cases "data = []")
  case True
  then show ?thesis using assms by (simp add: http_parser_execute_def)
next
  case False
  let ?h = "h\<lparr>hp_nread := 0, hp_mark := 0, hp_field_len := 0, hp_field_start := 0\<rparr>"
  obtain p cs h1 cbs where r: "h11_run data 0 (drop 0 data) (hp_cs ?h) (?h, []) = (p, cs, h1, cbs)" by (metis prod_cases4)
  have "marks_ok Q data 0 (in_query (hp_cs ?h)) (in_value (hp_cs ?h)) (?h, [])"
    using assms False by (auto simp: marks_ok_def parser_ok_def)
  from run_ok [OF this refl _ _ r] assms have
    k: "marks_ok Q data p False False (h1, cbs)" "p \<le> length data" "cs \<le> 349" "hp_cs h1 = hp_cs h" "hp_nread h1 = 0"
      "cs < 348 \<longrightarrow> hp_body_start h1 = 0"
    by (auto simp: parser_ok_def)
  then show ?thesis using r False assms(1-3) to_int32_length [OF assms(5)]
    by (auto simp: http_parser_execute_def Let_def marks_ok_def parser_ok_def http_parser_has_error_def)
qed

lemma http11_consumes: "fst (rg_execute (http11 blank) st data) \<le> length data"
  by (auto simp: http11_def http_parser_execute_def Let_def split: sum.splits prod.splits if_splits)

text \<open>The session's interface on the request machine.\<close>

interpretation h11_src: http_source "SocketStream_read net_sys" "stream_bytes (\<lambda>s fd. nt_in s)" "http11 blank" for blank
  by (intro http_source.intro net_rx.source http_source_axioms.intro http11_consumes)

section \<open>Well-formed requests\<close>

definition uri_char :: "char \<Rightarrow> bool" where
  "uri_char ch \<longleftrightarrow> (let k = signed_char ch in
     k < 0 \<or> k = 33 \<or> k = 36 \<or> 38 \<le> k \<and> k \<le> 59 \<or> k = 61 \<or> 64 \<le> k \<and> k \<le> 90 \<or> k = 95 \<or> 97 \<le> k \<and> k \<le> 122 \<or> k = 126)"

definition query_char :: "char \<Rightarrow> bool" where
  "query_char ch \<longleftrightarrow> uri_char ch \<or> ch = CHR ''?''"

definition hex_char :: "char \<Rightarrow> bool" where
  "hex_char ch \<longleftrightarrow> (let k = signed_char ch in 48 \<le> k \<and> k \<le> 57 \<or> 65 \<le> k \<and> k \<le> 70 \<or> 97 \<le> k \<and> k \<le> 102)"

fun pct_text :: "(char \<Rightarrow> bool) \<Rightarrow> string \<Rightarrow> bool" where
  "pct_text P [] \<longleftrightarrow> True"
| "pct_text P (x # xs) \<longleftrightarrow>
     (if x = CHR ''%'' then (case xs of a # b # ys \<Rightarrow> hex_char a \<and> hex_char b \<and> pct_text P ys | _ \<Rightarrow> False)
      else P x \<and> pct_text P xs)"

lemma signed_literals [simp]:
  "signed_char CHR '' '' = 32" "signed_char CHR ''%'' = 37" "signed_char CHR ''/'' = 47" "signed_char CHR ''?'' = 63" "signed_char CHR ''#'' = 35"
  "signed_char CHR ''H'' = 72" "signed_char CHR ''T'' = 84" "signed_char CHR ''P'' = 80" "signed_char CHR ''1'' = 49" "signed_char CHR ''.'' = 46"
  "signed_char CHR ''0'' = 48" "signed_char CHR '':'' = 58" "signed_char CR = 13" "signed_char (CHR 10) = 10"
  by (simp_all add: signed_char_def)

lemmas nth_numeral = nth_Cons_numeral numeral_eq_Suc nth_Cons_Suc nth_Cons_0 pred_numeral_simps diff_Suc_1 One_nat_def Let_def BitM.simps

lemma case_st:
  "h11_case 1 = Some h11_st1" "h11_case 2 = Some h11_st2" "h11_case 3 = Some h11_st3" "h11_case 4 = Some h11_st4"
  "h11_case 5 = Some h11_st5" "h11_case 6 = Some h11_st6" "h11_case 7 = Some h11_st7" "h11_case 8 = Some h11_st8"
  "h11_case 9 = Some h11_st9" "h11_case 10 = Some h11_st10" "h11_case 11 = Some h11_st11" "h11_case 12 = Some h11_st12"
  "h11_case 13 = Some h11_st13" "h11_case 14 = Some h11_st14" "h11_case 15 = Some h11_st15" "h11_case 16 = Some h11_st16"
  "h11_case 17 = Some h11_st17" "h11_case 18 = Some h11_st18" "h11_case 20 = Some h11_st20" "h11_case 21 = Some h11_st21"
  "h11_case 22 = Some h11_st22" "h11_case 23 = Some h11_st23" "h11_case 26 = Some h11_st26" "h11_case 27 = Some h11_st27"
  "h11_case 28 = Some h11_st28" "h11_case 29 = Some h11_st29" "h11_case 30 = Some h11_st30" "h11_case 31 = Some h11_st31"
  "h11_case 32 = Some h11_st32" "h11_case 33 = Some h11_st33" "h11_case 175 = Some h11_st175" "h11_case 176 = Some h11_st176"
  "h11_case 177 = Some h11_st177" "h11_case 178 = Some h11_st178" "h11_case 179 = Some h11_st179" "h11_case 180 = Some h11_st180"
  "h11_case 181 = Some h11_st181" "h11_case 182 = Some h11_st182" "h11_case 183 = Some h11_st183" "h11_case 184 = Some h11_st184"
  "h11_case 185 = Some h11_st185" "h11_case 186 = Some h11_st186" "h11_case 187 = Some h11_st187" "h11_case 188 = Some h11_st188"
  "h11_case 189 = Some h11_st189" "h11_case 190 = Some h11_st190" "h11_case 191 = Some h11_st191" "h11_case 192 = Some h11_st192"
  "h11_case 193 = Some h11_st193"
  by (simp only: h11_case_def states_length; simp; simp only: h11_states_def nth_numeral)+

lemma widec_plain: "k \<noteq> 94 \<Longrightarrow> k \<noteq> 123 \<Longrightarrow> k \<noteq> 125 \<Longrightarrow> widec r k = k"
  by (auto simp: widec_def)

section \<open>Steps of the machine\<close>

lemma run_step:
  assumes "h11_case cs = Some st" "st (hp_uri_relaxed h) (signed_char ch) = (acts, t)" "t \<noteq> 0" "\<not> list_ex is_done acts"
  shows "h11_run buffer p (ch # rest) cs (h, cbs) = h11_run buffer (p + 1) rest t (fold (do_action buffer p) acts (h, cbs))"
  using assms by simp

lemma run_loop:
  assumes "h11_case cs = Some st" "cs \<noteq> 0" "\<forall>ch \<in> set xs. st (hp_uri_relaxed h) (signed_char ch) = goto cs"
  shows "h11_run buffer p (xs @ ys) cs (h, cbs) = h11_run buffer (p + length xs) ys cs (h, cbs)"
  using assms(3) by (induction xs arbitrary: p) (simp_all add: assms(1, 2))

text \<open>The states of a text: the loop and the two digits behind a percent sign.\<close>

definition text_states :: "(char \<Rightarrow> bool) \<Rightarrow> nat \<Rightarrow> nat \<Rightarrow> nat \<Rightarrow> bool" where
  "text_states P cs c1 c2 \<longleftrightarrow> cs \<noteq> 0 \<and> c1 \<noteq> 0 \<and> c2 \<noteq> 0 \<and>
     (\<exists>st st1 st2. h11_case cs = Some st \<and> h11_case c1 = Some st1 \<and> h11_case c2 = Some st2
       \<and> (\<forall>r. st r 37 = goto c1 \<and> (\<forall>ch. P ch \<longrightarrow> st r (signed_char ch) = goto cs)
            \<and> (\<forall>ch. hex_char ch \<longrightarrow> st1 r (signed_char ch) = goto c2 \<and> st2 r (signed_char ch) = goto cs)))"

lemma run_text:
  assumes "text_states P cs c1 c2" "pct_text P xs"
  shows "h11_run buffer p (xs @ ys) cs (h, cbs) = h11_run buffer (p + length xs) ys cs (h, cbs)"
  using assms
proof (induction P xs arbitrary: p rule: pct_text.induct)
  case (2 P x xs)
  from 2(3) obtain st st1 st2 where st: "h11_case cs = Some st" "h11_case c1 = Some st1" "h11_case c2 = Some st2" "cs \<noteq> 0" "c1 \<noteq> 0" "c2 \<noteq> 0"
    "\<And>r. st r 37 = goto c1" "\<And>r ch. P ch \<Longrightarrow> st r (signed_char ch) = goto cs"
    "\<And>r ch. hex_char ch \<Longrightarrow> st1 r (signed_char ch) = goto c2" "\<And>r ch. hex_char ch \<Longrightarrow> st2 r (signed_char ch) = goto cs"
    unfolding text_states_def by blast
  show ?case
  proof (cases "x = CHR ''%''")
    case True
    with 2(4) obtain a b zs where xs: "xs = a # b # zs" "hex_char a" "hex_char b" "pct_text P zs" by (auto split: list.splits)
    have "h11_run buffer p ((x # xs) @ ys) cs (h, cbs) = h11_run buffer (p + 1 + 1 + 1) (zs @ ys) cs (h, cbs)"
      using st xs True by simp
    also have "\<dots> = h11_run buffer (p + 1 + 1 + 1 + length zs) ys cs (h, cbs)"
      using 2(1) [OF True xs(1) refl 2(3) xs(4)] by simp
    finally show ?thesis using xs(1) by (simp add: add.assoc)
  next
    case False
    then show ?thesis using 2(2) [OF False 2(3)] 2(4) st(1, 4, 8) by simp
  qed
qed simp

lemma run_text_from:
  assumes "text_states P cs c1 c2" "pct_text P xs" "xs \<noteq> []" "h11_case cs0 = Some st0" "\<And>r. st0 r 37 = (acts, c1)"
    "\<And>r. P (hd xs) \<Longrightarrow> st0 r (signed_char (hd xs)) = (acts, cs)" "\<not> list_ex is_done acts"
  shows "h11_run buffer p (xs @ ys) cs0 (h, cbs) = h11_run buffer (p + length xs) ys cs (fold (do_action buffer p) acts (h, cbs))"
proof -
  obtain x zs where xs: "xs = x # zs" using assms(3) by (cases xs) auto
  obtain h' cbs' where s: "fold (do_action buffer p) acts (h, cbs) = (h', cbs')" by fastforce
  from assms(1) obtain st where nz: "cs \<noteq> 0" "c1 \<noteq> 0" "h11_case cs = Some st" "\<And>r. st r 37 = goto c1" unfolding text_states_def by blast
  show ?thesis
  proof (cases "x = CHR ''%''")
    case False
    then have "h11_run buffer p (xs @ ys) cs0 (h, cbs) = h11_run buffer (p + 1) (zs @ ys) cs (h', cbs')"
      using assms(2, 4, 6, 7) xs nz(1) s by simp
    also have "\<dots> = h11_run buffer (p + 1 + length zs) ys cs (h', cbs')"
      using run_text [OF assms(1)] assms(2) xs False by simp
    finally show ?thesis using xs s by simp
  next
    case True
    have "h11_run buffer p (xs @ ys) cs0 (h, cbs) = h11_run buffer (p + 1) (zs @ ys) c1 (h', cbs')"
      using assms(4, 5, 7) xs nz(2) s True by simp
    also have "\<dots> = h11_run buffer p (xs @ ys) cs (h', cbs')" using nz xs True by simp
    also have "\<dots> = h11_run buffer (p + length xs) ys cs (h', cbs')" by (rule run_text [OF assms(1, 2)])
    finally show ?thesis using s by simp
  qed
qed

lemma uri_char_jumps:
  assumes "uri_char ch"
  shows "h11_st26 r (signed_char ch) = goto 26" "h11_st30 r (signed_char ch) = goto 30" "h11_st21 r (signed_char ch) = goto 21"
    "h11_st29 r (signed_char ch) = ([Start_query], 30)" "h11_st20 r (signed_char ch) = ([Mark], 21)"
    "signed_char ch \<noteq> 47 \<Longrightarrow> h11_st33 r (signed_char ch) = goto 26"
proof -
  show "h11_st26 r (signed_char ch) = goto 26"
    using assms unfolding uri_char_def Let_def h11_st26_def by (elim disjE conjE) (simp_all add: widec_plain split del: if_split)
  show "h11_st30 r (signed_char ch) = goto 30"
    using assms unfolding uri_char_def Let_def h11_st30_def by (elim disjE conjE) (simp_all add: widec_plain split del: if_split)
  show "h11_st21 r (signed_char ch) = goto 21"
    using assms unfolding uri_char_def Let_def h11_st21_def by (elim disjE conjE) (simp_all add: widec_plain split del: if_split)
  show "h11_st29 r (signed_char ch) = ([Start_query], 30)"
    using assms unfolding uri_char_def Let_def h11_st29_def by (elim disjE conjE) (simp_all add: widec_plain h11_tr53_def split del: if_split)
  show "h11_st20 r (signed_char ch) = ([Mark], 21)"
    using assms unfolding uri_char_def Let_def h11_st20_def by (elim disjE conjE) (simp_all add: widec_plain h11_tr43_def split del: if_split)
  show "h11_st33 r (signed_char ch) = goto 26" if "signed_char ch \<noteq> 47"
    using assms that unfolding uri_char_def Let_def h11_st33_def by (elim disjE conjE) (simp_all add: widec_plain split del: if_split)
qed

lemma hex_char_jumps:
  assumes "hex_char ch"
  shows "h11_st27 r (signed_char ch) = goto 28" "h11_st28 r (signed_char ch) = goto 26" "h11_st31 r (signed_char ch) = goto 32"
    "h11_st32 r (signed_char ch) = goto 30" "h11_st22 r (signed_char ch) = goto 23" "h11_st23 r (signed_char ch) = goto 21"
  using assms unfolding hex_char_def Let_def h11_st27_def h11_st28_def h11_st31_def h11_st32_def h11_st22_def h11_st23_def
  by (elim disjE conjE; simp split del: if_split)+

lemma signed_char_eq: "signed_char a = signed_char b \<longleftrightarrow> a = b"
proof
  assume "signed_char a = signed_char b"
  then have "take_bit 8 (of_char a :: int) = take_bit 8 (of_char b)"
    unfolding signed_char_def by (simp add: signed_take_bit_eq_iff_take_bit_eq)
  then have "of_char a = (of_char b :: int)" by (simp add: take_bit_eq_mod)
  then show "a = b" by simp
qed simp

lemma delimiter_jumps:
  "h11_st3 r 47 = ([Mark], 33)"
  "h11_st33 r 37 = goto 27" "h11_st26 r 37 = goto 27"
  "h11_st33 r 32 = ([Element_cb request_path, Element_cb request_uri], 4)" "h11_st26 r 32 = ([Element_cb request_path, Element_cb request_uri], 4)"
  "h11_st33 r 35 = ([Element_cb request_path, Element_cb request_uri], 20)" "h11_st26 r 35 = ([Element_cb request_path, Element_cb request_uri], 20)"
  "h11_st33 r 63 = ([Element_cb request_path], 29)" "h11_st26 r 63 = ([Element_cb request_path], 29)"
  "h11_st29 r 37 = ([Start_query], 31)" "h11_st30 r 37 = goto 31" "h11_st29 r 63 = ([Start_query], 30)" "h11_st30 r 63 = goto 30"
  "h11_st29 r 32 = ([Start_query, Query_cb, Element_cb request_uri], 4)" "h11_st30 r 32 = ([Query_cb, Element_cb request_uri], 4)"
  "h11_st29 r 35 = ([Start_query, Query_cb, Element_cb request_uri], 20)" "h11_st30 r 35 = ([Query_cb, Element_cb request_uri], 20)"
  "h11_st20 r 37 = ([Mark], 22)" "h11_st21 r 37 = goto 22" "h11_st20 r 63 = ([Mark], 21)" "h11_st21 r 63 = goto 21"
  "h11_st20 r 32 = ([Mark, Element_cb fragment], 4)" "h11_st21 r 32 = ([Element_cb fragment], 4)"
  by (simp_all add: h11_st3_def h11_st33_def h11_st26_def h11_st29_def h11_st30_def h11_st20_def h11_st21_def widec_plain
      h11_tr10_def h11_tr37_def h11_tr39_def h11_tr42_def h11_tr53_def h11_tr56_def h11_tr54_def h11_tr55_def h11_tr58_def h11_tr59_def
      h11_tr43_def h11_tr44_def h11_tr45_def h11_tr47_def)

lemma text_states_uri: "text_states uri_char 26 27 28"
  by (auto simp: text_states_def case_st uri_char_jumps hex_char_jumps delimiter_jumps)

lemma text_states_query: "text_states query_char 30 31 32" "text_states query_char 21 22 23"
  by (auto simp: text_states_def case_st query_char_def uri_char_jumps hex_char_jumps delimiter_jumps)

section \<open>The request line\<close>

definition path_ok :: "string \<Rightarrow> bool" where
  "path_ok path \<longleftrightarrow> (case path of [] \<Rightarrow> False
     | c # r \<Rightarrow> c = CHR ''/'' \<and> pct_text uri_char r \<and> (case r of [] \<Rightarrow> True | d # _ \<Rightarrow> d \<noteq> CHR ''/''))"

lemma run_path:
  assumes "path_ok path"
  shows "\<exists>cs. (cs = 33 \<or> cs = 26) \<and> h11_run buffer p (path @ ys) 3 (h, cbs) = h11_run buffer (p + length path) ys cs (h\<lparr>hp_mark := p\<rparr>, cbs)"
proof -
  obtain r where r: "path = CHR ''/'' # r" "pct_text uri_char r" "r \<noteq> [] \<Longrightarrow> hd r \<noteq> CHR ''/''"
    using assms by (auto simp: path_ok_def split: list.splits)
  have s: "h11_run buffer p (path @ ys) 3 (h, cbs) = h11_run buffer (p + 1) (r @ ys) 33 (h\<lparr>hp_mark := p\<rparr>, cbs)"
    using r(1) by (simp add: case_st delimiter_jumps is_done_def)
  show ?thesis
  proof (cases "r = []")
    case True
    then show ?thesis using s r(1) by auto
  next
    case False
    have "h11_run buffer (p + 1) (r @ ys) 33 (h\<lparr>hp_mark := p\<rparr>, cbs) = h11_run buffer (p + 1 + length r) ys 26
        (fold (do_action buffer (p + 1)) [] (h\<lparr>hp_mark := p\<rparr>, cbs))"
      using False r(3) signed_char_eq [of "hd r" "CHR ''/''"]
      by (intro run_text_from [OF text_states_uri r(2) False case_st(30)]) (auto simp: delimiter_jumps intro: uri_char_jumps)
    then show ?thesis using s r(1) by auto
  qed
qed

lemma run_path_end:
  assumes "path_ok path"
  shows "h11_run buffer p (path @ CHR '' '' # ys) 3 (h, cbs) = h11_run buffer (p + length path + 1) ys 4
      (h\<lparr>hp_mark := p\<rparr>, cbs @ [ElementCb request_path (drop p buffer) (length path), ElementCb request_uri (drop p buffer) (length path)])"
    "h11_run buffer p (path @ CHR ''#'' # ys) 3 (h, cbs) = h11_run buffer (p + length path + 1) ys 20
      (h\<lparr>hp_mark := p\<rparr>, cbs @ [ElementCb request_path (drop p buffer) (length path), ElementCb request_uri (drop p buffer) (length path)])"
    "h11_run buffer p (path @ CHR ''?'' # ys) 3 (h, cbs) = h11_run buffer (p + length path + 1) ys 29
      (h\<lparr>hp_mark := p\<rparr>, cbs @ [ElementCb request_path (drop p buffer) (length path)])"
  using run_path [OF assms, of buffer p "CHR '' '' # ys" h cbs] run_path [OF assms, of buffer p "CHR ''#'' # ys" h cbs]
    run_path [OF assms, of buffer p "CHR ''?'' # ys" h cbs]
  by (auto simp: case_st delimiter_jumps is_done_def)

lemma query_first:
  "query_char ch \<Longrightarrow> h11_st29 r (signed_char ch) = ([Start_query], 30)" "query_char ch \<Longrightarrow> h11_st20 r (signed_char ch) = ([Mark], 21)"
  by (auto simp: query_char_def uri_char_jumps delimiter_jumps)

lemma run_query:
  fixes buffer :: string and cbs :: "Callback list"
  assumes "pct_text query_char query" "hp_mark h \<le> p"
  defines "s \<equiv> (h\<lparr>hp_query_start := p\<rparr>, cbs @ [ElementCb query_string (drop p buffer) (length query),
      ElementCb request_uri (drop (hp_mark h) buffer) (p + length query - hp_mark h)])"
  shows "h11_run buffer p (query @ CHR '' '' # ys) 29 (h, cbs) = h11_run buffer (p + length query + 1) ys 4 s"
    "h11_run buffer p (query @ CHR ''#'' # ys) 29 (h, cbs) = h11_run buffer (p + length query + 1) ys 20 s"
proof -
  have "h11_run buffer p (query @ zs) 29 (h, cbs) = h11_run buffer (p + length query) zs 30 (h\<lparr>hp_query_start := p\<rparr>, cbs)"
    if "query \<noteq> []" for zs
    using run_text_from [OF text_states_query(1) assms(1) that case_st(26) delimiter_jumps(10) query_first(1), of buffer p zs h cbs]
    by (simp add: is_done_def)
  then show "h11_run buffer p (query @ CHR '' '' # ys) 29 (h, cbs) = h11_run buffer (p + length query + 1) ys 4 s"
    "h11_run buffer p (query @ CHR ''#'' # ys) 29 (h, cbs) = h11_run buffer (p + length query + 1) ys 20 s"
    using assms(2) by (cases "query = []"; simp add: s_def case_st delimiter_jumps is_done_def)+
qed

lemma run_fragment:
  assumes "pct_text query_char frag"
  shows "h11_run buffer p (frag @ CHR '' '' # ys) 20 (h, cbs) = h11_run buffer (p + length frag + 1) ys 4
    (h\<lparr>hp_mark := p\<rparr>, cbs @ [ElementCb fragment (drop p buffer) (length frag)])"
proof -
  have "h11_run buffer p (frag @ zs) 20 (h, cbs) = h11_run buffer (p + length frag) zs 21 (h\<lparr>hp_mark := p\<rparr>, cbs)"
    if "frag \<noteq> []" for zs
    using run_text_from [OF text_states_query(2) assms(1) that case_st(19) delimiter_jumps(18) query_first(2), of buffer p zs h cbs]
    by (simp add: is_done_def)
  then show ?thesis by (cases "frag = []"; simp add: case_st delimiter_jumps is_done_def)
qed

lemma run_version:
  assumes "d = CHR ''0'' \<or> d = CHR ''1''"
  shows "h11_run buffer p (''HTTP/1.'' @ d # crlf @ ys) 4 (h, cbs) = h11_run buffer (p + 10) ys 13
    (h\<lparr>hp_mark := p\<rparr>, cbs @ [ElementCb http_version (drop p buffer) 8])"
  using assms
  by (elim disjE; simp add: crlf_def case_st h11_st4_def h11_st5_def h11_st6_def h11_st7_def h11_st8_def h11_st9_def h11_st10_def h11_st11_def
      h11_st12_def h11_st17_def h11_tr13_def h11_tr22_def is_done_def; simp add: eval_nat_numeral)

definition method_char :: "char \<Rightarrow> bool" where
  "method_char ch \<longleftrightarrow> (let k = signed_char ch in 48 \<le> k \<and> k \<le> 57 \<or> 65 \<le> k \<and> k \<le> 90)"

definition method_ok :: "string \<Rightarrow> bool" where
  "method_ok m \<longleftrightarrow> m \<noteq> [] \<and> length m \<le> 20 \<and> (\<forall>ch \<in> set m. method_char ch)"

text \<open>The state behind \<open>i\<close> characters of a method.\<close>

definition method_state :: "nat \<Rightarrow> nat" where
  "method_state i = (if i = 1 then 2 else 173 + i)"

lemmas method_defs = h11_st2_def h11_st175_def h11_st176_def h11_st177_def h11_st178_def h11_st179_def h11_st180_def h11_st181_def h11_st182_def
  h11_st183_def h11_st184_def h11_st185_def h11_st186_def h11_st187_def h11_st188_def h11_st189_def h11_st190_def h11_st191_def h11_st192_def h11_st193_def

lemma method_jumps:
  assumes "0 < i" "i \<le> 20"
  shows "\<exists>st. h11_case (method_state i) = Some st \<and> (\<forall>r. st r 32 = ([Element_cb request_method], 3))
    \<and> (\<forall>r ch. i < 20 \<longrightarrow> method_char ch \<longrightarrow> st r (signed_char ch) = goto (method_state (i + 1)))"
proof -
  have "20 = i \<or> 19 = i \<or> 18 = i \<or> 17 = i \<or> 16 = i \<or> 15 = i \<or> 14 = i \<or> 13 = i \<or> 12 = i \<or> 11 = i \<or> 10 = i \<or> 9 = i \<or> 8 = i \<or> 7 = i \<or> 6 = i \<or> 5 = i \<or> 4 = i \<or> 3 = i \<or> 2 = i \<or> 1 = i" using assms by presburger
  then show ?thesis
    by (elim disjE) (simp_all add: method_state_def case_st, simp_all add: method_defs method_char_def Let_def h11_tr4_def)
qed

lemma run_method_rest:
  assumes "\<forall>ch \<in> set m. method_char ch" "0 < i" "i + length m \<le> 20" "hp_mark h = 0"
  shows "h11_run buffer p (m @ CHR '' '' # ys) (method_state i) (h, cbs) = h11_run buffer (p + length m + 1) ys 3
    (h, cbs @ [ElementCb request_method buffer (p + length m)])"
  using assms
proof (induction m arbitrary: i p)
  case Nil
  then obtain st where "h11_case (method_state i) = Some st" "\<forall>r. st r 32 = ([Element_cb request_method], 3)"
    using method_jumps [of i] by auto
  then show ?case using Nil by (simp add: is_done_def)
next
  case (Cons c m)
  obtain st where "h11_case (method_state i) = Some st" "\<forall>r. st r (signed_char c) = goto (method_state (i + 1))"
    using method_jumps [of i] Cons.prems by auto
  moreover have "method_state (i + 1) \<noteq> 0" by (simp add: method_state_def)
  ultimately show ?case using Cons.IH [of "i + 1" "p + 1"] Cons.prems by simp
qed

lemma run_method:
  assumes "method_ok m" "hp_mark h = 0"
  shows "h11_run buffer 0 (m @ CHR '' '' # ys) 1 (h, []) = h11_run buffer (length m + 1) ys 3
    (h, [ElementCb request_method buffer (length m)])"
proof -
  obtain c r where m: "m = c # r" "method_char c" "\<forall>ch \<in> set r. method_char ch" "length r < 20"
    using assms by (cases m) (auto simp: method_ok_def)
  have "h11_st1 x (signed_char c) = ([Mark], 2)" for x
    using m(2) by (auto simp: method_char_def Let_def h11_st1_def h11_tr0_def)
  then have "h11_run buffer 0 (m @ CHR '' '' # ys) 1 (h, []) = h11_run buffer 1 (r @ CHR '' '' # ys) (method_state 1) (h\<lparr>hp_mark := 0\<rparr>, [])"
    by (simp add: m(1) case_st(1) [unfolded One_nat_def] is_done_def method_state_def)
  also have "h\<lparr>hp_mark := 0\<rparr> = h" using assms(2) by simp
  also have "h11_run buffer 1 (r @ CHR '' '' # ys) (method_state 1) (h, []) = h11_run buffer (1 + length r + 1) ys 3
      (h, [] @ [ElementCb request_method buffer (1 + length r)])"
    using m(3, 4) assms(2) by (intro run_method_rest) auto
  finally show ?thesis using m(1) by simp
qed

section \<open>Header fields\<close>

definition token_char :: "char \<Rightarrow> bool" where
  "token_char ch \<longleftrightarrow> (let k = signed_char ch in k = 33 \<or> 35 \<le> k \<and> k \<le> 39 \<or> k = 42 \<or> k = 43 \<or> k = 45 \<or> k = 46 \<or> 48 \<le> k \<and> k \<le> 57
     \<or> 65 \<le> k \<and> k \<le> 90 \<or> 94 \<le> k \<and> k \<le> 122 \<or> k = 124 \<or> k = 126)"

definition value_char :: "char \<Rightarrow> bool" where
  "value_char ch \<longleftrightarrow> signed_char ch \<notin> {0, 10, 13, 127}"

definition blank_char :: "char \<Rightarrow> bool" where
  "blank_char ch \<longleftrightarrow> signed_char ch = 32 \<or> signed_char ch = 9"

definition field_ok :: "string \<times> string \<Rightarrow> bool" where
  "field_ok kv \<longleftrightarrow> fst kv \<noteq> [] \<and> (\<forall>ch \<in> set (fst kv). token_char ch) \<and> (\<forall>ch \<in> set (snd kv). value_char ch)"

lemma token_jumps:
  assumes "token_char ch"
  shows "h11_st13 r (signed_char ch) = ([Start_field], 14)" "h11_st14 r (signed_char ch) = goto 14"
  using assms unfolding token_char_def Let_def h11_st13_def h11_st14_def h11_tr23_def by (elim disjE conjE; simp split del: if_split)+

lemma value_jumps:
  "value_char ch \<Longrightarrow> \<not> blank_char ch \<Longrightarrow> h11_st15 r (signed_char ch) = ([Mark], 16)"
  "value_char ch \<Longrightarrow> h11_st16 r (signed_char ch) = goto 16"
  "blank_char ch \<Longrightarrow> h11_st15 r (signed_char ch) = ([Mark], 15)"
  by (auto simp: value_char_def blank_char_def h11_st15_def h11_st16_def h11_tr28_def h11_tr29_def)

lemma run_blanks:
  assumes "\<forall>ch \<in> set bs. blank_char ch"
  shows "\<exists>m. h11_run buffer p (bs @ ys) 15 (h, cbs) = h11_run buffer (p + length bs) ys 15 (h\<lparr>hp_mark := m\<rparr>, cbs)"
  using assms
proof (induction bs arbitrary: p h)
  case Nil
  then show ?case by (intro exI [of _ "hp_mark h"]) simp
next
  case (Cons b bs)
  from Cons.IH [of "p + 1" "h\<lparr>hp_mark := p\<rparr>"] Cons.prems show ?case by (auto simp: case_st value_jumps is_done_def)
qed

definition field_text :: "string \<times> string \<Rightarrow> string" where
  "field_text kv = fst kv @ '':'' @ snd kv @ crlf"

text \<open>The position of a field's value in a text that starts at \<open>p\<close>, and the callback for the field.\<close>

definition value_start :: "nat \<Rightarrow> string \<times> string \<Rightarrow> nat" where
  "value_start p kv = p + length (fst kv) + 1 + length (takeWhile blank_char (snd kv))"

definition field_cb :: "string \<Rightarrow> nat \<Rightarrow> string \<times> string \<Rightarrow> Callback" where
  "field_cb buffer p kv = FieldCb (drop p buffer) (length (fst kv)) (drop (value_start p kv) buffer) (length (dropWhile blank_char (snd kv)))"

lemma run_value:
  assumes "\<forall>ch \<in> set v. value_char ch"
  shows "h11_run buffer p (v @ crlf @ ys) 15 (h, cbs) = h11_run buffer (p + length v + 2) ys 13
    (h\<lparr>hp_mark := p + length (takeWhile blank_char v)\<rparr>, cbs @ [FieldCb (drop (hp_field_start h) buffer) (hp_field_len h)
       (drop (p + length (takeWhile blank_char v)) buffer) (length (dropWhile blank_char v))])"
proof -
  let ?b = "takeWhile blank_char v" and ?w = "dropWhile blank_char v"
  have v: "v = ?b @ ?w" by simp
  have len: "length ?b + length ?w = length v" using v by (metis length_append)
  obtain m where m: "h11_run buffer p (?b @ ?w @ crlf @ ys) 15 (h, cbs)
      = h11_run buffer (p + length ?b) (?w @ crlf @ ys) 15 (h\<lparr>hp_mark := m\<rparr>, cbs)"
    using run_blanks [of ?b buffer p "?w @ crlf @ ys" h cbs] set_takeWhileD by fastforce
  have start: "h11_run buffer p (v @ crlf @ ys) 15 (h, cbs) = h11_run buffer (p + length ?b) (?w @ crlf @ ys) 15 (h\<lparr>hp_mark := m\<rparr>, cbs)"
    using m by (metis append.assoc v)
  show ?thesis
  proof (cases ?w)
    case Nil
    then show ?thesis using start [unfolded Nil] len [unfolded Nil] unfolding Nil by (simp add: crlf_def case_st h11_st15_def h11_st17_def h11_tr31_def is_done_def)
  next
    case (Cons c w)
    have ok: "value_char c" "\<not> blank_char c" "\<forall>ch \<in> set w. value_char ch"
      using Cons assms v by (metis UnCI list.set_intros(1) set_append, metis hd_dropWhile list.distinct(1) list.sel(1),
        metis UnCI list.set_intros(2) set_append)
    have "h11_run buffer (p + length ?b) (?w @ crlf @ ys) 15 (h\<lparr>hp_mark := m\<rparr>, cbs)
        = h11_run buffer (p + length ?b + 1) (w @ crlf @ ys) 16 (h\<lparr>hp_mark := p + length ?b\<rparr>, cbs)"
      using Cons ok by (simp add: case_st value_jumps is_done_def)
    also have "\<dots> = h11_run buffer (p + length ?b + 1 + length w) (crlf @ ys) 16 (h\<lparr>hp_mark := p + length ?b\<rparr>, cbs)"
      using ok(3) by (intro run_loop [OF case_st(16)]) (auto simp: value_jumps)
    moreover have "length v = Suc (length ?b + length w)" using len Cons by simp
    ultimately show ?thesis using start Cons by (simp add: crlf_def case_st h11_st16_def h11_st17_def h11_tr34_def is_done_def add.assoc)
  qed
qed

lemma run_field:
  assumes "field_ok kv"
  shows "h11_run buffer p (field_text kv @ ys) 13 (h, cbs) = h11_run buffer (p + length (field_text kv)) ys 13
    (h\<lparr>hp_field_start := p, hp_field_len := length (fst kv), hp_mark := value_start p kv\<rparr>, cbs @ [field_cb buffer p kv])"
proof -
  obtain k v where kv: "kv = (k, v)" by fastforce
  obtain c r where k: "k = c # r" "token_char c" "\<forall>ch \<in> set r. token_char ch" "\<forall>ch \<in> set v. value_char ch"
    using assms kv by (cases k) (auto simp: field_ok_def)
  let ?h = "h\<lparr>hp_field_start := p\<rparr>"
  have "h11_run buffer p (field_text kv @ ys) 13 (h, cbs) = h11_run buffer (p + 1) (r @ '':'' @ v @ crlf @ ys) 14 (?h, cbs)"
    using k kv by (simp add: field_text_def case_st token_jumps is_done_def)
  also have "\<dots> = h11_run buffer (p + 1 + length r) ('':'' @ v @ crlf @ ys) 14 (?h, cbs)"
    using k(3) by (intro run_loop [OF case_st(14)]) (auto simp: token_jumps)
  also have "\<dots> = h11_run buffer (p + 1 + length r + 1) (v @ crlf @ ys) 15 (?h\<lparr>hp_field_len := 1 + length r\<rparr>, cbs)"
    by (simp add: case_st h11_st14_def h11_tr27_def is_done_def)
  finally show ?thesis using run_value [OF k(4), of buffer "p + 1 + length r + 1" ys "?h\<lparr>hp_field_len := 1 + length r\<rparr>" cbs] k(1) kv
    by (simp add: field_text_def field_cb_def value_start_def crlf_def add.assoc)
qed

text \<open>The callbacks for a list of fields.\<close>

fun field_cbs :: "string \<Rightarrow> nat \<Rightarrow> (string \<times> string) list \<Rightarrow> Callback list" where
  "field_cbs buffer p [] = []"
| "field_cbs buffer p (kv # kvs) = field_cb buffer p kv # field_cbs buffer (p + length (field_text kv)) kvs"

lemma run_fields:
  assumes "\<forall>kv \<in> set kvs. field_ok kv"
  shows "\<exists>fs fl m. h11_run buffer p (concat (map field_text kvs) @ ys) 13 (h, cbs)
    = h11_run buffer (p + length (concat (map field_text kvs))) ys 13
        (h\<lparr>hp_field_start := fs, hp_field_len := fl, hp_mark := m\<rparr>, cbs @ field_cbs buffer p kvs)"
  using assms
proof (induction kvs arbitrary: p h cbs)
  case Nil
  show ?case by (intro exI [of _ "hp_field_start h"] exI [of _ "hp_field_len h"] exI [of _ "hp_mark h"]) simp
next
  case (Cons kv kvs)
  let ?h = "h\<lparr>hp_field_start := p, hp_field_len := length (fst kv), hp_mark := value_start p kv\<rparr>"
  have "h11_run buffer p (field_text kv @ concat (map field_text kvs) @ ys) 13 (h, cbs)
      = h11_run buffer (p + length (field_text kv)) (concat (map field_text kvs) @ ys) 13 (?h, cbs @ [field_cb buffer p kv])"
    using Cons.prems by (intro run_field) simp
  with Cons.IH [of "p + length (field_text kv)" ?h "cbs @ [field_cb buffer p kv]"] Cons.prems show ?case
    by (auto simp: add.assoc)
qed

lemma run_end:
  assumes "\<not> hp_xml_sent h" "\<not> hp_json_sent h"
  shows "h11_run buffer p (crlf @ ys) 13 (h, cbs) = (p + 2, 348, h\<lparr>hp_field_start := p, hp_body_start := p + 2\<rparr>,
    cbs @ [ElementCb header_done (drop (p + 2) buffer) (length buffer - (p + 2))])"
  using assms by (simp add: crlf_def case_st h11_st13_def h11_st18_def h11_tr25_def h11_tr36_def is_done_def)

section \<open>Whole requests\<close>

fun cb_text :: "Callback \<Rightarrow> Element option \<times> string \<times> string" where
  "cb_text (ElementCb e at n) = (Some e, take n at, [])"
| "cb_text (FieldCb f n v m) = (None, take n f, take m v)"

definition part :: "char \<Rightarrow> string option \<Rightarrow> string" where
  "part c t = (case t of None \<Rightarrow> [] | Some s \<Rightarrow> c # s)"

definition target_cbs :: "string \<Rightarrow> string option \<Rightarrow> string option \<Rightarrow> (Element option \<times> string \<times> string) list" where
  "target_cbs path query frag =
     [(Some request_path, path, [])]
     @ (case query of None \<Rightarrow> [] | Some s \<Rightarrow> [(Some query_string, s, [])])
     @ [(Some request_uri, path @ part (CHR ''?'') query, [])]
     @ (case frag of None \<Rightarrow> [] | Some s \<Rightarrow> [(Some fragment, s, [])])"

lemma drop_shift: "drop p b = xs @ ys \<Longrightarrow> drop (p + length xs) b = ys"
  by (metis add.commute append_eq_conv_conj drop_drop)

lemma marks_commute: "h\<lparr>hp_query_start := q, hp_mark := m\<rparr> = h\<lparr>hp_mark := m, hp_query_start := q\<rparr>"
  by simp

lemma run_target:
  assumes "path_ok path" "\<forall>s. query = Some s \<longrightarrow> pct_text query_char s" "\<forall>s. frag = Some s \<longrightarrow> pct_text query_char s"
    "drop p buffer = path @ part (CHR ''?'') query @ part (CHR ''#'') frag @ CHR '' '' # ys"
  shows "\<exists>m q cbs'. h11_run buffer p (drop p buffer) 3 (h, cbs) = h11_run buffer
      (p + length path + length (part (CHR ''?'') query) + length (part (CHR ''#'') frag) + 1) ys 4
      (h\<lparr>hp_mark := m, hp_query_start := q\<rparr>, cbs @ cbs') \<and> map cb_text cbs' = target_cbs path query frag"
proof -
  let ?path = "ElementCb request_path (drop p buffer) (length path)" and ?i = "p + length path + 1"
  show ?thesis
  proof (cases query)
    case None
    let ?uri = "ElementCb request_uri (drop p buffer) (length path)"
    show ?thesis
    proof (cases frag)
      case frag: None
      have d: "drop p buffer = path @ CHR '' '' # ys" using assms(4) None frag by (simp add: part_def)
      show ?thesis
        by (intro exI [of _ p] exI [of _ "hp_query_start h"] exI [of _ "[?path, ?uri]"])
          (simp add: run_path_end(1) [OF assms(1)] d None frag part_def target_cbs_def)
    next
      case (Some s)
      have d: "drop p buffer = path @ CHR ''#'' # s @ CHR '' '' # ys" using assms(4) None Some by (simp add: part_def)
      have d2: "drop ?i buffer = s @ CHR '' '' # ys" using drop_shift [of p buffer "path @ ''#''"] d by simp
      show ?thesis using d2 Some assms(3)
        by (intro exI [of _ ?i] exI [of _ "hp_query_start h"] exI [of _ "[?path, ?uri, ElementCb fragment (drop ?i buffer) (length s)]"])
          (simp add: run_path_end(2) [OF assms(1)] run_fragment d None part_def target_cbs_def add.assoc)
    qed
  next
    case (Some q)
    let ?cbs = "[?path, ElementCb query_string (drop ?i buffer) (length q), ElementCb request_uri (drop p buffer) (?i + length q - p)]"
    let ?j = "?i + length q + 1"
    have pq: "pct_text query_char q" using assms(2) Some by simp
    show ?thesis
    proof (cases frag)
      case frag: None
      have d: "drop p buffer = path @ CHR ''?'' # q @ CHR '' '' # ys" using assms(4) Some frag by (simp add: part_def)
      have d2: "drop ?i buffer = q @ CHR '' '' # ys" using drop_shift [of p buffer "path @ ''?''"] d by simp
      show ?thesis using d2 Some pq
        by (intro exI [of _ p] exI [of _ ?i] exI [of _ ?cbs])
          (simp add: run_path_end(3) [OF assms(1)] run_query d frag part_def target_cbs_def add.assoc)
    next
      case frag: (Some s)
      have d: "drop p buffer = path @ CHR ''?'' # q @ CHR ''#'' # s @ CHR '' '' # ys" using assms(4) Some frag by (simp add: part_def)
      have d2: "drop ?i buffer = q @ CHR ''#'' # s @ CHR '' '' # ys" using drop_shift [of p buffer "path @ ''?''"] d by simp
      have d3: "drop ?j buffer = s @ CHR '' '' # ys" using drop_shift [of ?i buffer "q @ ''#''"] d2 by simp
      show ?thesis
        by (rule exI [of _ ?j], rule exI [of _ ?i], rule exI [of _ "?cbs @ [ElementCb fragment (drop ?j buffer) (length s)]"])
          (use d2 d3 Some frag pq assms(3) in \<open>simp add: run_path_end(3) [OF assms(1)] run_query run_fragment d part_def target_cbs_def add.assoc marks_commute\<close>)
    qed
  qed
qed

lemma field_cb_text:
  assumes "drop p buffer = field_text kv @ ys"
  shows "cb_text (field_cb buffer p kv) = (None, fst kv, dropWhile blank_char (snd kv))"
proof -
  let ?b = "takeWhile blank_char (snd kv)" and ?w = "dropWhile blank_char (snd kv)"
  have "field_text kv = (fst kv @ '':'' @ ?b) @ ?w @ crlf" by (simp add: field_text_def)
  then have "drop (p + length (fst kv @ '':'' @ ?b)) buffer = ?w @ crlf @ ys" using assms by (intro drop_shift) simp
  moreover have "p + length (fst kv @ '':'' @ ?b) = value_start p kv" by (simp add: value_start_def)
  ultimately have "drop (value_start p kv) buffer = ?w @ crlf @ ys" by simp
  then show ?thesis using assms by (simp add: field_cb_def field_text_def)
qed

lemma field_cbs_text:
  assumes "drop p buffer = concat (map field_text kvs) @ ys"
  shows "map cb_text (field_cbs buffer p kvs) = map (\<lambda>kv. (None, fst kv, dropWhile blank_char (snd kv))) kvs"
  using assms
proof (induction kvs arbitrary: p)
  case (Cons kv kvs)
  then have d: "drop p buffer = field_text kv @ concat (map field_text kvs) @ ys" by simp
  from Cons.IH [OF drop_shift [OF d]] field_cb_text [OF d] show ?case by simp
qed simp

definition request_text ::
    "string \<Rightarrow> string \<Rightarrow> string option \<Rightarrow> string option \<Rightarrow> char \<Rightarrow> (string \<times> string) list \<Rightarrow> string" where
  "request_text m path query frag d kvs =
     m @ '' '' @ path @ part (CHR ''?'') query @ part (CHR ''#'') frag @ '' HTTP/1.'' @ d # crlf @ concat (map field_text kvs) @ crlf"

definition wf_request :: "string \<Rightarrow> string \<Rightarrow> string option \<Rightarrow> string option \<Rightarrow> char \<Rightarrow> (string \<times> string) list \<Rightarrow> bool" where
  "wf_request m path query frag d kvs \<longleftrightarrow> method_ok m \<and> path_ok path \<and> (case query of None \<Rightarrow> True | Some s \<Rightarrow> pct_text query_char s)
     \<and> (case frag of None \<Rightarrow> True | Some s \<Rightarrow> pct_text query_char s) \<and> (d = CHR ''0'' \<or> d = CHR ''1'') \<and> (\<forall>kv \<in> set kvs. field_ok kv)"

lemma run_request:
  assumes "wf_request m path query frag d kvs" "\<not> hp_xml_sent h" "\<not> hp_json_sent h" "hp_mark h = 0"
    "buffer = request_text m path query frag d kvs @ body"
  shows "\<exists>h' cbs. h11_run buffer 0 buffer 1 (h, []) = (length (request_text m path query frag d kvs), 348, h', ElementCb request_method buffer (length m) # cbs)
    \<and> map cb_text cbs = target_cbs path query frag @ [(Some http_version, ''HTTP/1.'' @ [d], [])]
        @ map (\<lambda>kv. (None, fst kv, dropWhile blank_char (snd kv))) kvs @ [(Some header_done, body, [])]
    \<and> hp_body_start h' = length (request_text m path query frag d kvs)"
proof -
  have ok: "method_ok m" "path_ok path" "\<forall>s. query = Some s \<longrightarrow> pct_text query_char s" "\<forall>s. frag = Some s \<longrightarrow> pct_text query_char s"
    "d = CHR ''0'' \<or> d = CHR ''1''" "\<forall>kv \<in> set kvs. field_ok kv" using assms(1) by (auto simp: wf_request_def split: option.splits)
  let ?F = "concat (map field_text kvs)"
  define t3 where "t3 = ?F @ crlf @ body"
  define t2 where "t2 = ''HTTP/1.'' @ d # crlf @ t3"
  define t1 where "t1 = path @ part (CHR ''?'') query @ part (CHR ''#'') frag @ CHR '' '' # t2"
  define p1 where "p1 = length m + 1"
  define p2 where "p2 = p1 + length path + length (part (CHR ''?'') query) + length (part (CHR ''#'') frag) + 1"
  define p3 where "p3 = p2 + 10"
  have b: "buffer = m @ CHR '' '' # t1" by (simp add: assms(5) request_text_def t1_def t2_def t3_def)
  have d1: "drop p1 buffer = t1" by (simp add: b p1_def)
  have d2: "drop p2 buffer = t2" using drop_shift [of p1 buffer "path @ part (CHR ''?'') query @ part (CHR ''#'') frag @ '' ''" t2] d1
    by (simp add: t1_def p2_def add.assoc)
  have d3: "drop p3 buffer = ?F @ crlf @ body" using drop_shift [of p2 buffer "''HTTP/1.'' @ d # crlf" t3] d2
    by (simp add: t2_def t3_def p3_def crlf_def eval_nat_numeral)
  obtain mk q cbs1 where r1: "h11_run buffer p1 t1 3 (h, [ElementCb request_method buffer (length m)])
      = h11_run buffer p2 t2 4 (h\<lparr>hp_mark := mk, hp_query_start := q\<rparr>, [ElementCb request_method buffer (length m)] @ cbs1)"
    "map cb_text cbs1 = target_cbs path query frag"
    using run_target [OF ok(2-4), of p1 buffer t2 h "[ElementCb request_method buffer (length m)]"] d1 unfolding t1_def p2_def by auto
  let ?h = "h\<lparr>hp_mark := mk, hp_query_start := q\<rparr>" and ?c = "[ElementCb request_method buffer (length m)] @ cbs1"
  have r2: "h11_run buffer p2 t2 4 (?h, ?c) = h11_run buffer p3 (?F @ crlf @ body) 13
      (?h\<lparr>hp_mark := p2\<rparr>, ?c @ [ElementCb http_version (drop p2 buffer) 8])"
    unfolding t2_def p3_def t3_def by (rule run_version [OF ok(5)])
  obtain fs fl mk2 where r3: "h11_run buffer p3 (?F @ crlf @ body) 13 (?h\<lparr>hp_mark := p2\<rparr>, ?c @ [ElementCb http_version (drop p2 buffer) 8])
      = h11_run buffer (p3 + length ?F) (crlf @ body) 13 (?h\<lparr>hp_mark := p2, hp_field_start := fs, hp_field_len := fl, hp_mark := mk2\<rparr>,
          (?c @ [ElementCb http_version (drop p2 buffer) 8]) @ field_cbs buffer p3 kvs)"
    using run_fields [OF ok(6)] by blast
  have len: "p3 + length ?F + 2 = length (request_text m path query frag d kvs)"
    by (simp add: p3_def p2_def p1_def request_text_def crlf_def)
  then have d4: "drop (p3 + length ?F + 2) buffer = body" by (simp add: assms(5))
  have "h11_run buffer 0 buffer 1 (h, []) = h11_run buffer p1 t1 3 (h, [ElementCb request_method buffer (length m)])"
    unfolding p1_def using run_method [OF ok(1) assms(4), of buffer t1] b by simp
  also have "\<dots> = h11_run buffer (p3 + length ?F) (crlf @ body) 13 (?h\<lparr>hp_mark := p2, hp_field_start := fs, hp_field_len := fl, hp_mark := mk2\<rparr>,
      (?c @ [ElementCb http_version (drop p2 buffer) 8]) @ field_cbs buffer p3 kvs)"
    unfolding r1(1) r2 r3 ..
  finally have run: "h11_run buffer 0 buffer 1 (h, []) = \<dots>" .
  show ?thesis
    unfolding run using assms(2, 3) r1(2) field_cbs_text [OF d3] d2 d4 len
    by (subst run_end) (auto simp: t2_def)
qed

section \<open>From callbacks to the request\<close>

text \<open>What a callback does, from the text it denotes.\<close>

fun text_callback :: "Element option \<times> string \<times> string \<Rightarrow> 'p request_parser \<Rightarrow> 'p request_parser" where
  "text_callback (Some fragment, t, _) p = p\<lparr>rp_data := (rp_data p)\<lparr>q_fragment := t\<rparr>\<rparr>"
| "text_callback (Some request_path, t, _) p = p\<lparr>rp_data := (rp_data p)\<lparr>q_path := t\<rparr>\<rparr>"
| "text_callback (Some query_string, t, _) p = p\<lparr>rp_data := (rp_data p)\<lparr>q_query := t\<rparr>\<rparr>"
| "text_callback (Some http_version, t, _) p = on_request_version t (length t) p"
| "text_callback (None, k, v) p = (if k = [] then p else p\<lparr>rp_data := q_setHeader (rp_data p) k v\<rparr>)"
| "text_callback (Some _, _, _) p = p"

lemma strncmp_eq_take: "n \<le> length at \<Longrightarrow> strncmp_eq at lit n = strncmp_eq (take n at) lit (length (take n at))"
  by (induction at lit n rule: strncmp_eq.induct) auto

lemma request_callback_text:
  assumes "cb_ok True c" "\<And>at n. c \<noteq> ElementCb request_method at n"
  shows "request_callback c p = text_callback (cb_text c) p"
proof (cases c)
  case (ElementCb e at n)
  then show ?thesis using assms strncmp_eq_take [of n at]
    by (cases e) (auto simp: on_request_version_def parse_version_def)
next
  case (FieldCb f n v m)
  then show ?thesis using assms by (auto simp: on_request_http_field_def)
qed

lemma request_callbacks_text:
  assumes "\<forall>c \<in> set cbs. cb_ok True c" "\<forall>c \<in> set cbs. \<forall>at n. c \<noteq> ElementCb request_method at n"
  shows "fold request_callback cbs p = fold text_callback (map cb_text cbs) p"
  using assms by (induction cbs arbitrary: p) (simp_all add: request_callback_text)

lemma execute_request:
  assumes "wf_request m path query frag d kvs" "length (request_text m path query frag d kvs @ body) < 2 ^ 31"
  defines "text \<equiv> request_text m path query frag d kvs"
  shows "\<exists>cbs h'. http_parser_execute (http_parser_init blank) (text @ body) 0 = Inr (length text, ElementCb request_method (text @ body) (length m) # cbs, h')
    \<and> map cb_text cbs = target_cbs path query frag @ [(Some http_version, ''HTTP/1.'' @ [d], [])]
        @ map (\<lambda>kv. (None, fst kv, dropWhile blank_char (snd kv))) kvs @ [(Some header_done, body, [])]
    \<and> (\<forall>c \<in> set cbs. cb_ok True c) \<and> hp_cs h' = 348 \<and> hp_body_start h' = length text"
proof -
  let ?h = "(http_parser_init blank)\<lparr>hp_nread := 0, hp_mark := 0, hp_field_len := 0, hp_field_start := 0\<rparr>"
  obtain h1 cbs where r: "h11_run (text @ body) 0 (text @ body) 1 (?h, []) = (length text, 348, h1, ElementCb request_method (text @ body) (length m) # cbs)"
    "map cb_text cbs = target_cbs path query frag @ [(Some http_version, ''HTTP/1.'' @ [d], [])]
        @ map (\<lambda>kv. (None, fst kv, dropWhile blank_char (snd kv))) kvs @ [(Some header_done, body, [])]" "hp_body_start h1 = length text"
    using run_request [OF assms(1), of ?h "text @ body" body] unfolding text_def by (auto simp: http_parser_init_def)
  have ne: "text @ body \<noteq> []" by (simp add: text_def request_text_def)
  from execute_safe [OF init_parser_ok(1), of blank True "text @ body"] obtain n cs h' where
    s: "http_parser_execute (http_parser_init blank) (text @ body) 0 = Inr (n, cs, h')" "\<forall>cb \<in> set cs. cb_ok True cb"
    using assms(2) by (auto simp: init_parser_ok(2) in_query_def text_def)
  have h1: "hp_cs h1 = 1 \<and> hp_nread h1 = 0"
    using run_ok [OF _ _ _ _ r(1), of True] by (simp add: marks_ok_def http_parser_init_def in_query_def in_value_def request_text_def text_def)
  have "n = length text" "cs = ElementCb request_method (text @ body) (length m) # cbs" "hp_cs h' = 348" "hp_body_start h' = length text"
    using s(1) ne r(1, 3) h1 by (auto simp: http_parser_execute_def Let_def init_parser_ok(2) http_parser_has_error_def split: if_splits)
  then show ?thesis using s r(2) by auto
qed

section \<open>Printing and parsing\<close>

text \<open>The fields that \<^verbatim>\<open>HttpRequest::dump\<close> prints, with the blank behind the colon.\<close>

definition dump_fields :: "http_request \<Rightarrow> (string \<times> string) list" where
  "dump_fields q =
     (if q_websocket q then [] else [(''connection'', if q_close q then '' close'' else '' keep-alive'')])
     @ map (\<lambda>(k, v). (k, CHR '' '' # v)) (filter (\<lambda>(k, v). q_websocket q \<or> strcasecmp (c_str k) ''connection'' \<noteq> 0) (q_headers q))
     @ (if q_body q = '''' then [] else [(''content-length'', CHR '' '' # show_nat (length (q_body q)))])"

definition some_text :: "string \<Rightarrow> string option" where
  "some_text s = (if s = '''' then None else Some s)"

lemma dump_headers_fields:
  "dump_headers ws kvs = concat (map field_text (map (\<lambda>(k, v). (k, CHR '' '' # v)) (filter (\<lambda>(k, v). ws \<or> strcasecmp (c_str k) ''connection'' \<noteq> 0) kvs)))"
  by (induction kvs) (auto simp: dump_headers_def field_text_def)

lemma show_nat_small: "show_nat 0 = ''0''" "show_nat 1 = ''1''"
  by code_simp+

lemma dump_is_request_text:
  assumes "q_version q = 0x10 \<and> d = CHR ''0'' \<or> q_version q = 0x11 \<and> d = CHR ''1''"
  shows "q_dump q = request_text (HttpMethodToString (q_method q)) (q_path q) (some_text (q_query q)) (some_text (q_fragment q)) d (dump_fields q) @ q_body q"
proof -
  have "show_version (q_version q) = ''1.'' @ [d]"
    using assms show_nat_small by (elim disjE conjE) (simp_all add: show_version_def take_bit_eq_mod)
  then show ?thesis
    by (simp add: q_dump_def request_text_def dump_fields_def some_text_def part_def dump_headers_fields dump_connection_def dump_body_def field_text_def)
qed

lemma fold_text_fields:
  assumes "\<forall>kv \<in> set kvs. fst kv \<noteq> []"
  shows "fold text_callback (map (\<lambda>kv. (None, fst kv, dropWhile blank_char (snd kv))) kvs) p
    = p\<lparr>rp_data := fold (\<lambda>kv r. q_setHeader r (fst kv) (dropWhile blank_char (snd kv))) kvs (rp_data p)\<rparr>"
  using assms by (induction kvs arbitrary: p) simp_all

lemma signed_ascii:
  assumes "of_char ch < (128 :: nat)"
  shows "signed_char ch = int (of_char ch)"
proof -
  have eq: "(of_char ch :: int) = int (of_char ch)" by (rule of_nat_of_char [symmetric])
  show ?thesis unfolding signed_char_def eq using assms by (subst signed_take_bit_int_eq_self) simp_all
qed

lemma known_methods_upper:
  "list_all (\<lambda>e. fst e = MSEARCH \<or> snd e \<noteq> [] \<and> length (snd e) \<le> 20 \<and> list_all (\<lambda>ch. 65 \<le> (of_char ch :: nat) \<and> of_char ch \<le> (90 :: nat)) (snd e))
     HTTP_METHOD_MAP"
  by (simp add: HTTP_METHOD_MAP_def)

lemma known_method_ok:
  assumes "(m, name) \<in> set HTTP_METHOD_MAP" "m \<noteq> MSEARCH"
  shows "method_ok name"
proof -
  have "name \<noteq> []" "length name \<le> 20" "\<forall>ch \<in> set name. 65 \<le> (of_char ch :: nat) \<and> of_char ch \<le> (90 :: nat)"
    using assms known_methods_upper unfolding list_all_iff by fastforce+
  moreover have "method_char ch" if "65 \<le> (of_char ch :: nat)" "of_char ch \<le> (90 :: nat)" for ch
    using signed_ascii [of ch] that by (simp add: method_char_def)
  ultimately show ?thesis by (simp add: method_ok_def)
qed

lemma digit_value:
  assumes "48 \<le> (of_char ch :: nat)" "(of_char ch :: nat) \<le> 57"
  shows "value_char ch"
  using signed_ascii [of ch] assms unfolding value_char_def by simp

lemma field_ok_literals: "field_ok (''connection'', '' close'')" "field_ok (''connection'', '' keep-alive'')"
  "field_ok (''content-length'', CHR '' '' # show_nat n)" "field_ok (k, v) \<Longrightarrow> field_ok (k, CHR '' '' # v)"
proof -
  show "field_ok (''connection'', '' close'')" "field_ok (''connection'', '' keep-alive'')"
    by (simp_all add: field_ok_def token_char_def value_char_def signed_ascii)
  have "\<forall>ch \<in> set ''content-length''. token_char ch" "value_char CHR '' ''" by (simp_all add: token_char_def value_char_def signed_ascii)
  moreover have "\<forall>ch \<in> set (show_nat n). value_char ch" using show_nat_digits digit_value by blast
  ultimately show "field_ok (''content-length'', CHR '' '' # show_nat n)" "field_ok (k, v) \<Longrightarrow> field_ok (k, CHR '' '' # v)" 
    by (simp_all add: field_ok_def)
qed

lemma dump_fields_ok:
  assumes "\<forall>kv \<in> set (q_headers q). field_ok kv"
  shows "\<forall>kv \<in> set (dump_fields q). field_ok kv"
  using assms by (auto simp: dump_fields_def field_ok_literals)

lemma callbacks_of_request:
  assumes "\<forall>c \<in> set cbs. cb_ok True c" "map cb_text cbs = target_cbs path query frag @ [(Some http_version, ''HTTP/1.'' @ [d], [])]
      @ map (\<lambda>kv. (None, fst kv, dropWhile blank_char (snd kv))) kvs @ [(Some header_done, body, [])]"
    "\<forall>kv \<in> set kvs. fst kv \<noteq> []" "d = CHR ''0'' \<or> d = CHR ''1''"
  shows "fold request_callback cbs p =
    (let r = (rp_data p)\<lparr>q_path := path, q_query := (case query of None \<Rightarrow> q_query (rp_data p) | Some s \<Rightarrow> s),
           q_fragment := (case frag of None \<Rightarrow> q_fragment (rp_data p) | Some s \<Rightarrow> s), q_version := (if d = CHR ''1'' then 0x11 else 0x10)\<rparr>
     in p\<lparr>rp_data := fold (\<lambda>kv r. q_setHeader r (fst kv) (dropWhile blank_char (snd kv))) kvs r\<rparr>)"
proof -
  have "cb_text c \<noteq> (Some request_method, t, [])" if "c \<in> set cbs" for c t
  proof -
    have "cb_text c \<in> set (map cb_text cbs)" using that by simp
    then show ?thesis unfolding assms(2) by (auto simp: target_cbs_def split: option.splits)
  qed
  then have "\<forall>c \<in> set cbs. \<forall>at n. c \<noteq> ElementCb request_method at n" by fastforce
  then have "fold request_callback cbs p = fold text_callback (map cb_text cbs) p" using assms(1) by (intro request_callbacks_text)
  also have "\<dots> = (let r = (rp_data p)\<lparr>q_path := path, q_query := (case query of None \<Rightarrow> q_query (rp_data p) | Some s \<Rightarrow> s),
           q_fragment := (case frag of None \<Rightarrow> q_fragment (rp_data p) | Some s \<Rightarrow> s), q_version := (if d = CHR ''1'' then 0x11 else 0x10)\<rparr>
     in p\<lparr>rp_data := fold (\<lambda>kv r. q_setHeader r (fst kv) (dropWhile blank_char (snd kv))) kvs r\<rparr>)"
    unfolding assms(2) using assms(4)
    by (auto simp: target_cbs_def fold_text_fields [OF assms(3)] on_request_version_def parse_version_def split: option.splits)
  finally show ?thesis .
qed

lemma request_execute_text:
  assumes "wf_request m path query frag d kvs" "CharsToHttpMethod (request_text m path query frag d kvs @ body) = mt" "mt \<noteq> INVALID_METHOD"
    "length (request_text m path query frag d kvs @ body) < 2 ^ 31"
  shows "\<exists>p. request_execute (http11 blank) (request_text m path query frag d kvs @ body) (HttpRequestParser (http11 blank))
      = (length (request_text m path query frag d kvs), body, p)
    \<and> request_isFinished (http11 blank) p \<and> \<not> request_hasError (http11 blank) p
    \<and> rp_data p = fold (\<lambda>kv r. q_setHeader r (fst kv) (dropWhile blank_char (snd kv))) kvs
        ((HttpRequest (if d = CHR ''1'' then 0x11 else 0x10) True)\<lparr>q_method := mt, q_path := path,
            q_query := (case query of None \<Rightarrow> '''' | Some s \<Rightarrow> s), q_fragment := (case frag of None \<Rightarrow> '''' | Some s \<Rightarrow> s)\<rparr>)"
proof -
  let ?t = "request_text m path query frag d kvs" and ?p = "HttpRequestParser (http11 blank)"
  have ok: "\<forall>kv \<in> set kvs. fst kv \<noteq> []" "d = CHR ''0'' \<or> d = CHR ''1''" using assms(1) by (auto simp: wf_request_def field_ok_def)
  obtain cbs h' where e: "http_parser_execute (http_parser_init blank) (?t @ body) 0 = Inr (length ?t, ElementCb request_method (?t @ body) (length m) # cbs, h')"
    "map cb_text cbs = target_cbs path query frag @ [(Some http_version, ''HTTP/1.'' @ [d], [])]
        @ map (\<lambda>kv. (None, fst kv, dropWhile blank_char (snd kv))) kvs @ [(Some header_done, body, [])]"
    "\<forall>c \<in> set cbs. cb_ok True c" "hp_cs h' = 348"
    using execute_request [OF assms(1, 4), of blank] by blast
  let ?p1 = "?p\<lparr>rp_data := (rp_data ?p)\<lparr>q_method := mt\<rparr>\<rparr>"
  have "on_request_method (?t @ body) (length m) ?p = ?p1" using assms(2, 3) by (simp add: on_request_method_def)
  then have "request_execute (http11 blank) (?t @ body) ?p = (length ?t, body, (fold request_callback cbs ?p1)\<lparr>rp_parser := h'\<rparr>)"
    using e(1) by (simp add: request_execute_def http11_def HttpRequestParser_def Let_def)
  then show ?thesis
    unfolding callbacks_of_request [OF e(3, 2) ok]
    using e(4) by (auto simp: request_isFinished_def request_hasError_def http11_def HttpRequestParser_def HttpRequest_def Let_def
        http_parser_finish_def http_parser_has_error_def http_parser_is_finished_def split: option.splits)
qed

lemma request_dump_execute:
  assumes "(q_method q, name) \<in> set HTTP_METHOD_MAP" "q_method q \<noteq> MSEARCH" "q_version q = 0x10 \<or> q_version q = 0x11"
    "path_ok (q_path q)" "pct_text query_char (q_query q)" "pct_text query_char (q_fragment q)" "\<forall>kv \<in> set (q_headers q). field_ok kv" "length (q_dump q) < 2 ^ 31"
  shows "\<exists>p. request_execute (http11 blank) (q_dump q) (HttpRequestParser (http11 blank)) = (length (q_dump q) - length (q_body q), q_body q, p)
    \<and> request_isFinished (http11 blank) p \<and> \<not> request_hasError (http11 blank) p
    \<and> rp_data p = fold (\<lambda>kv r. q_setHeader r (fst kv) (dropWhile blank_char (snd kv))) (dump_fields q)
        ((HttpRequest (q_version q) True)\<lparr>q_method := q_method q, q_path := q_path q, q_query := q_query q, q_fragment := q_fragment q\<rparr>)"
proof -
  define d where "d = (if q_version q = 0x11 then CHR ''1'' else CHR ''0'')"
  let ?t = "request_text (HttpMethodToString (q_method q)) (q_path q) (some_text (q_query q)) (some_text (q_fragment q)) d (dump_fields q)"
  have m: "HttpMethodToString (q_method q) = name" "CharsToHttpMethod (name @ z) = q_method q" for z
    using method_names_recognised [OF assms(1)] by auto
  have v: "q_version q = 0x10 \<and> d = CHR ''0'' \<or> q_version q = 0x11 \<and> d = CHR ''1''" using assms(3) by (auto simp: d_def)
  have dump: "q_dump q = ?t @ q_body q" by (rule dump_is_request_text [OF v])
  have ok: "wf_request (HttpMethodToString (q_method q)) (q_path q) (some_text (q_query q)) (some_text (q_fragment q)) d (dump_fields q)"
    using assms(4-6) dump_fields_ok [OF assms(7)] known_method_ok [OF assms(1, 2)] v
    by (auto simp: wf_request_def some_text_def m(1))
  have "CharsToHttpMethod (?t @ q_body q) = q_method q" using m by (simp add: request_text_def)
  moreover have "q_method q \<noteq> INVALID_METHOD" using assms(1) by (auto simp: HTTP_METHOD_MAP_def)
  moreover have "(if d = CHR ''1'' then 0x11 else 0x10) = q_version q" using v by auto
  moreover have "(case some_text s of None \<Rightarrow> '''' | Some t \<Rightarrow> t) = s" for s by (simp add: some_text_def)
  ultimately show ?thesis using request_execute_text [OF ok, of "q_body q" "q_method q" blank] dump assms(8) by simp
qed

section \<open>Properties\<close>

text \<open>What \<^verbatim>\<open>HttpRequest::dump\<close> prints is read back by the parser when it arrives in one piece: for a request with a method of the table
  other than \<^verbatim>\<open>M-SEARCH\<close>, version 1.0 or 1.1, an absolute path, query and fragment of admitted characters and header fields
  of admitted characters, one call of \<^verbatim>\<open>execute\<close> finishes without error, leaves exactly the body in the buffer, and
  the parsed request has the method, version, path, query and fragment of the printed one and as headers the printed fields (blanks
  in front of a value are skipped).\<close>

theorem dump_parsed_back:
  assumes "(q_method q, name) \<in> set HTTP_METHOD_MAP" "q_method q \<noteq> MSEARCH" "q_version q = 0x10 \<or> q_version q = 0x11"
    "path_ok (q_path q)" "pct_text query_char (q_query q)" "pct_text query_char (q_fragment q)" "\<forall>kv \<in> set (q_headers q). field_ok kv" "length (q_dump q) < 2 ^ 31"
  shows "\<exists>p. request_execute (http11 blank) (q_dump q) (HttpRequestParser (http11 blank)) = (length (q_dump q) - length (q_body q), q_body q, p)
    \<and> request_isFinished (http11 blank) p \<and> \<not> request_hasError (http11 blank) p
    \<and> rp_data p = fold (\<lambda>kv r. q_setHeader r (fst kv) (dropWhile blank_char (snd kv))) (dump_fields q)
        ((HttpRequest (q_version q) True)\<lparr>q_method := q_method q, q_path := q_path q, q_query := q_query q, q_fragment := q_fragment q\<rparr>)"
  by (rule request_dump_execute [OF assms])

definition demo_blank :: http_parser where
  "demo_blank = \<lparr>hp_cs = 0, hp_body_start = 0, hp_content_len = 0, hp_nread = 0, hp_mark = 0, hp_field_start = 0, hp_field_len = 0,
     hp_query_start = 0, hp_xml_sent = False, hp_json_sent = False, hp_uri_relaxed = False\<rparr>"

definition demo_request :: http_request where
  "demo_request = (HttpRequest 0x11 False)\<lparr>q_method := POST, q_path := ''/a%20b/c'', q_query := ''x=1'', q_body := ''hi'', q_headers := [(''Host'', ''h'')]\<rparr>"

lemma demo_request_length: "length (q_dump demo_request) \<le> 1024" "0 < length (q_dump demo_request)"
  by (simp_all add: q_dump_def demo_request_def HttpRequest_def HttpMethodToString_def HttpMethod_index_def s_method_string_def HTTP_METHOD_MAP_def
      show_version_def show_nat.simps crlf_def dump_connection_def dump_headers_def dump_body_def)

theorem dump_parsed_back_witness:
  "\<exists>n p. request_execute (http11 demo_blank) (q_dump demo_request) (HttpRequestParser (http11 demo_blank)) = (n, ''hi'', p)
    \<and> request_isFinished (http11 demo_blank) p \<and> \<not> request_hasError (http11 demo_blank) p \<and> q_path (rp_data p) = ''/a%20b/c''"
proof -
  have keep: "q_path (fold (\<lambda>kv r. q_setHeader r (fst kv) (dropWhile blank_char (snd kv))) kvs r) = q_path r" for kvs r
    by (induction kvs arbitrary: r) (simp_all add: q_setHeader_def)
  have "\<exists>p. request_execute (http11 demo_blank) (q_dump demo_request) (HttpRequestParser (http11 demo_blank))
      = (length (q_dump demo_request) - length (q_body demo_request), q_body demo_request, p)
    \<and> request_isFinished (http11 demo_blank) p \<and> \<not> request_hasError (http11 demo_blank) p
    \<and> rp_data p = fold (\<lambda>kv r. q_setHeader r (fst kv) (dropWhile blank_char (snd kv))) (dump_fields demo_request)
        ((HttpRequest (q_version demo_request) True)\<lparr>q_method := q_method demo_request, q_path := q_path demo_request,
            q_query := q_query demo_request, q_fragment := q_fragment demo_request\<rparr>)"
    by (rule dump_parsed_back [of demo_request "''POST''"])
      (use demo_request_length(1) in \<open>simp_all add: demo_request_def HttpRequest_def HTTP_METHOD_MAP_def path_ok_def hex_char_def uri_char_def query_char_def field_ok_def
        token_char_def value_char_def signed_ascii\<close>)
  then obtain p where p: "request_execute (http11 demo_blank) (q_dump demo_request) (HttpRequestParser (http11 demo_blank))
      = (length (q_dump demo_request) - length (q_body demo_request), q_body demo_request, p)"
    "request_isFinished (http11 demo_blank) p" "\<not> request_hasError (http11 demo_blank) p"
    "rp_data p = fold (\<lambda>kv r. q_setHeader r (fst kv) (dropWhile blank_char (snd kv))) (dump_fields demo_request)
        ((HttpRequest (q_version demo_request) True)\<lparr>q_method := q_method demo_request, q_path := q_path demo_request,
            q_query := q_query demo_request, q_fragment := q_fragment demo_request\<rparr>)" by blast
  have "q_body demo_request = ''hi''" "q_path demo_request = ''/a%20b/c''" by (simp_all add: demo_request_def)
  then show ?thesis using p(1-3) keep [of "dump_fields demo_request"] p(4) by (intro exI [of _ p] exI) simp
qed

inductive h11_reachable :: "http_parser \<Rightarrow> bool" where
  created: "h11_reachable (http_parser_init blank)"
| executed: "h11_reachable h \<Longrightarrow> \<not> http_parser_has_error h \<Longrightarrow> \<not> http_parser_is_finished h \<Longrightarrow>
    length data < 2 ^ 31 \<Longrightarrow> http_parser_execute h data 0 = Inr (n, cbs, h') \<Longrightarrow> h11_reachable h'"

lemma h11_reachable_ok: "h11_reachable h \<Longrightarrow> parser_ok h"
proof (induction rule: h11_reachable.induct)
  case (executed h data n cbs h')
  then show ?case using execute_safe [of h False data] by (auto simp: http_parser_has_error_def http_parser_is_finished_def)
qed (rule init_parser_ok)

text \<open>C17. Memory safety of the request machine. However the bytes of a request are cut into calls, a parser that has neither failed
  nor finished takes the next buffer without violating an assertion, consumes at most what is there, and the pointers and
  lengths it hands to the callbacks lie inside the buffer. The one exception is the query: the mark of its start is
  not reset between calls, so its length is inside the buffer only in a call that does not begin within a query.\<close>

theorem parser_stays_in_buffer:
  assumes "h11_reachable h" "\<not> http_parser_has_error h" "\<not> http_parser_is_finished h" "length data < 2 ^ 31"
  shows "\<exists>n cbs h'. http_parser_execute h data 0 = Inr (n, cbs, h') \<and> n \<le> length data
    \<and> (\<forall>cb \<in> set cbs. cb_ok (\<not> in_query (hp_cs h) \<or> hp_query_start h = 0) cb)"
  using execute_safe [OF h11_reachable_ok [OF assms(1)], of "\<not> in_query (hp_cs h) \<or> hp_query_start h = 0" data] assms(2-4)
  by (fastforce simp: http_parser_has_error_def http_parser_is_finished_def)

theorem parser_stays_in_buffer_witness:
  "\<exists>n cbs h'. http_parser_execute (http_parser_init demo_blank) ''GET /x'' 0 = Inr (n, cbs, h') \<and> n \<le> 6 \<and> (\<forall>cb \<in> set cbs. cb_ok True cb)"
  using parser_stays_in_buffer [OF created [of demo_blank], of "''GET /x''"]
  by (auto simp: http_parser_has_error_def http_parser_is_finished_def init_parser_ok(2) in_query_def)

lemma run_appends: "\<exists>cbs'. snd (snd (snd (h11_run buffer p rest cs s))) = snd s @ cbs'"
proof (induction rest arbitrary: p cs s)
  case (Cons ch rest)
  have a1: "\<exists>cbs'. snd (do_action buffer q a s) = snd s @ cbs'" for q a and s :: "http_parser \<times> Callback list"
    by (cases s; cases a) auto
  have acts: "\<exists>cbs'. snd (fold (do_action buffer q) as s) = snd s @ cbs'" for q as and s :: "http_parser \<times> Callback list"
  proof (induction as arbitrary: s)
    case (Cons a as)
    obtain c1 c2 where "snd (do_action buffer q a s) = snd s @ c1"
      "snd (fold (do_action buffer q) as (do_action buffer q a s)) = snd (do_action buffer q a s) @ c2"
      using a1 [of q a s] Cons [of "do_action buffer q a s"] by blast
    then show ?case by simp
  qed simp
  show ?case
  proof (cases "h11_case cs")
    case (Some st)
    obtain as t where j: "st (hp_uri_relaxed (fst s)) (signed_char ch) = (as, t)" by fastforce
    obtain c1 c2 where "snd (fold (do_action buffer p) as s) = snd s @ c1"
      "snd (snd (snd (h11_run buffer (p + 1) rest t (fold (do_action buffer p) as s)))) = snd (fold (do_action buffer p) as s) @ c2"
      using acts [of p as s] Cons.IH [of "p + 1" t "fold (do_action buffer p) as s"] by blast
    then show ?thesis using Some j by (auto simp: Let_def)
  qed simp
qed simp

lemma execute_run:
  assumes "parser_ok h" "0 < hp_cs h" "hp_cs h < 348" "data \<noteq> []" "length data < 2 ^ 31"
    "h11_run data 0 data (hp_cs h) (h\<lparr>hp_nread := 0, hp_mark := 0, hp_field_len := 0, hp_field_start := 0\<rparr>, []) = (p, cs, h1, cbs)"
  shows "\<exists>h'. http_parser_execute h data 0 = Inr (p, cbs, h') \<and> hp_cs h' = cs \<and> hp_query_start h' = hp_query_start h1"
proof -
  let ?h = "h\<lparr>hp_nread := 0, hp_mark := 0, hp_field_len := 0, hp_field_start := 0\<rparr>"
  from execute_safe [OF assms(1-3) _ assms(5), of False] obtain n cbs' h' where
    e: "http_parser_execute h data 0 = Inr (n, cbs', h')" by auto
  have "marks_ok False data 0 (in_query (hp_cs h)) (in_value (hp_cs h)) (?h, [])"
    using assms(1, 3, 4) by (auto simp: marks_ok_def parser_ok_def)
  from run_ok [OF this _ _ _ assms(6)] assms(1) have "hp_cs h1 = hp_cs h" "hp_nread h1 = 0" by (auto simp: parser_ok_def)
  then show ?thesis using e assms(2, 4, 6)
    by (auto simp: http_parser_execute_def Let_def http_parser_has_error_def split: if_splits)
qed

lemma run_method_part:
  assumes "\<forall>ch \<in> set m. method_char ch" "0 < i" "i + length m \<le> 20"
  shows "h11_run buffer p m (method_state i) (h, cbs) = (p + length m, method_state (i + length m), h, cbs)"
  using assms
proof (induction m arbitrary: i p)
  case (Cons c m)
  obtain st where "h11_case (method_state i) = Some st" "\<forall>r. st r (signed_char c) = goto (method_state (i + 1))"
    using method_jumps [of i] Cons.prems by auto
  moreover have "method_state (i + 1) \<noteq> 0" by (simp add: method_state_def)
  ultimately show ?case using Cons.IH [of "i + 1" "p + 1"] Cons.prems by simp
qed simp

lemma split_method:
  assumes "method_ok (a @ b)" "a \<noteq> []" "b \<noteq> []" "length (b @ '' '' @ rest) < 2 ^ 31"
  shows "\<exists>h1. http_parser_execute (http_parser_init blank) a 0 = Inr (length a, [], h1)
    \<and> (\<exists>n cbs h2. http_parser_execute h1 (b @ '' '' @ rest) 0 = Inr (n, ElementCb request_method (b @ '' '' @ rest) (length b) # cbs, h2))"
proof -
  obtain c r where a: "a = c # r" using assms(2) by (cases a) auto
  have la: "length a < 2 ^ 31" using assms(1) by (simp add: method_ok_def)
  have ok: "method_char c" "\<forall>ch \<in> set r. method_char ch" "\<forall>ch \<in> set b. method_char ch" "1 + length r + length b \<le> 20" "1 + length r < 20"
    using assms a by (cases b; auto simp: method_ok_def Suc_le_eq)+
  let ?h = "(http_parser_init blank)\<lparr>hp_nread := 0, hp_mark := 0, hp_field_len := 0, hp_field_start := 0\<rparr>"
  have st1: "h11_st1 x (signed_char c) = ([Mark], 2)" for x
    using ok(1) by (auto simp: method_char_def Let_def h11_st1_def h11_tr0_def)
  have "h11_run a 0 a 1 (?h, []) = h11_run a 1 r (method_state 1) (?h\<lparr>hp_mark := 0\<rparr>, [])"
    by (simp add: a st1 case_st(1) [unfolded One_nat_def] is_done_def method_state_def)
  also have "\<dots> = (length a, method_state (1 + length r), ?h\<lparr>hp_mark := 0\<rparr>, [])"
    using run_method_part [OF ok(2), of 1] ok(4) a by simp
  finally obtain h1 where h1: "http_parser_execute (http_parser_init blank) a 0 = Inr (length a, [], h1)" "hp_cs h1 = method_state (1 + length r)"
    using execute_run [OF init_parser_ok(1), of blank a] assms(2) la by (auto simp: init_parser_ok(2))
  have st: "parser_ok h1" "0 < hp_cs h1" "hp_cs h1 < 348"
    using executed [OF created _ _ la h1(1)] h11_reachable_ok h1(2) ok(5)
    by (auto simp: http_parser_has_error_def http_parser_is_finished_def init_parser_ok method_state_def)
  let ?d = "b @ '' '' @ rest" and ?g = "h1\<lparr>hp_nread := 0, hp_mark := 0, hp_field_len := 0, hp_field_start := 0\<rparr>"
  have "h11_run ?d 0 ?d (hp_cs h1) (?g, []) = h11_run ?d (0 + length b + 1) rest 3 (?g, [] @ [ElementCb request_method ?d (0 + length b)])"
    unfolding h1(2) using run_method_rest [of b "1 + length r" ?g ?d 0 rest "[]"] ok(3, 4) by simp
  then obtain p cs g cbs where "h11_run ?d 0 ?d (hp_cs h1) (?g, []) = (p, cs, g, ElementCb request_method ?d (length b) # cbs)"
    using run_appends [of ?d "0 + length b + 1" rest 3 "(?g, [] @ [ElementCb request_method ?d (0 + length b)])"]
    by (metis (no_types, lifting) append_Cons append_Nil plus_nat.add_0 prod.collapse snd_conv)
  from execute_run [OF st _ assms(4) this] h1(1) show ?thesis by auto
qed

lemma split_query:
  assumes "parser_ok h" "hp_cs h = 30" "pct_text query_char s" "length s < hp_query_start h" "length (s @ '' '' @ rest) < 2 ^ 31"
  shows "\<exists>n cbs h'. http_parser_execute h (s @ '' '' @ rest) 0
    = Inr (n, ElementCb query_string (drop (hp_query_start h) (s @ '' '' @ rest)) (length s + 2 ^ 64 - hp_query_start h) # cbs, h')"
proof -
  let ?d = "s @ '' '' @ rest" and ?g = "h\<lparr>hp_nread := 0, hp_mark := 0, hp_field_len := 0, hp_field_start := 0\<rparr>"
  let ?cbs = "[ElementCb query_string (drop (hp_query_start h) ?d) (length s + 2 ^ 64 - hp_query_start h), ElementCb request_uri ?d (length s)]"
  have "h11_run ?d 0 (s @ CHR '' '' # rest) 30 (?g, []) = h11_run ?d (0 + length s) (CHR '' '' # rest) 30 (?g, [])"
    by (rule run_text [OF text_states_query(1) assms(3)])
  also have "\<dots> = h11_run ?d (length s + 1) rest 4 (?g, ?cbs)"
    using assms(4) by (simp add: case_st delimiter_jumps is_done_def size_sub_def)
  finally obtain p cs g cbs where "h11_run ?d 0 ?d (hp_cs h) (?g, []) = (p, cs, g, ?cbs @ cbs)"
    using run_appends [of ?d "length s + 1" rest 4 "(?g, ?cbs)"] assms(2) by (metis append_Cons append_Nil prod.collapse snd_conv)
  from execute_run [OF assms(1) _ _ _ assms(5) this] assms(2) show ?thesis by auto
qed

text \<open>A header line without a colon runs on over the line break.\<close>

lemma run_name_with_break:
  "h11_run buffer p (''X'' @ crlf @ ''Y: 1'' @ crlf @ rest) 13 (h, cbs) = h11_run buffer (p + 9) rest 13
    (h\<lparr>hp_field_start := p, hp_field_len := 4, hp_mark := p + 6\<rparr>, cbs @ [FieldCb (drop p buffer) 4 (drop (p + 6) buffer) 1])"
  by (simp add: crlf_def case_st h11_st13_def h11_st14_def h11_st15_def h11_st16_def h11_st17_def h11_tr23_def h11_tr27_def h11_tr29_def h11_tr28_def
      h11_tr34_def is_done_def signed_ascii; simp add: eval_nat_numeral)

lemma hyphen_refused: "length (''M-SEARCH'' @ rest) < 2 ^ 31 \<Longrightarrow> http_parser_execute (http_parser_init blank) (''M-SEARCH'' @ rest) 0 = Inr (1, [], (http_parser_init blank)\<lparr>hp_cs := 0, hp_nread := 1\<rparr>)"
  using to_int32_length [of "length (''M-SEARCH'' @ rest)"]
  by (simp add: http_parser_execute_def init_parser_ok(2) case_st case_st(1) [unfolded One_nat_def] h11_st1_def h11_st2_def h11_tr0_def is_done_def signed_ascii
      http_parser_has_error_def http_parser_init_def)

text \<open>C19. What goes wrong between the parser's calls and with line breaks. When the bytes of the method arrive in two reads, the
  first call consumes its part without a callback and the second reports only the rest as the method; when a query is cut, the
  second call reports a length that has wrapped around below zero; a header line without a colon is merged with the next one, because the
  grammar's set of control characters is written as a difference; and a request with the method \<^verbatim>\<open>M-SEARCH\<close> of the
  method table is refused.\<close>

theorem split_requests_misread:
  "(method_ok (a @ b) \<longrightarrow> a \<noteq> [] \<longrightarrow> b \<noteq> [] \<longrightarrow> length (b @ '' '' @ rest) < 2 ^ 31 \<longrightarrow> (\<exists>h1. http_parser_execute (http_parser_init blank) a 0 = Inr (length a, [], h1)
      \<and> (\<exists>n cbs h2. http_parser_execute h1 (b @ '' '' @ rest) 0 = Inr (n, ElementCb request_method (b @ '' '' @ rest) (length b) # cbs, h2))))
   \<and> (h11_reachable h \<longrightarrow> hp_cs h = 30 \<longrightarrow> pct_text query_char s \<longrightarrow> length s < hp_query_start h \<longrightarrow> length (s @ '' '' @ rest) < 2 ^ 31 \<longrightarrow>
      (\<exists>n cbs h'. http_parser_execute h (s @ '' '' @ rest) 0
        = Inr (n, ElementCb query_string (drop (hp_query_start h) (s @ '' '' @ rest)) (length s + 2 ^ 64 - hp_query_start h) # cbs, h')))
   \<and> h11_run buffer p (''X'' @ crlf @ ''Y: 1'' @ crlf @ rest) 13 (g, cbs) = h11_run buffer (p + 9) rest 13
      (g\<lparr>hp_field_start := p, hp_field_len := 4, hp_mark := p + 6\<rparr>, cbs @ [FieldCb (drop p buffer) 4 (drop (p + 6) buffer) 1])
   \<and> (length (''M-SEARCH'' @ rest) < 2 ^ 31 \<longrightarrow> (\<exists>h'. http_parser_execute (http_parser_init blank) (''M-SEARCH'' @ rest) 0 = Inr (1, [], h') \<and> http_parser_has_error h'))"
  using split_method [of a b rest blank] split_query [of h s rest] h11_reachable_ok [of h] run_name_with_break [of buffer p rest g cbs] hyphen_refused [of rest blank]
  by (auto simp: http_parser_has_error_def)

lemma demo_cut:
  "\<exists>cbs h. http_parser_execute (http_parser_init demo_blank) ''GET /p?q'' 0 = Inr (8, cbs, h) \<and> hp_cs h = 30 \<and> hp_query_start h = 7"
  using to_int32_length [of 8]
  by (simp add: http_parser_execute_def init_parser_ok(2) case_st case_st(1) [unfolded One_nat_def] h11_st1_def method_defs h11_tr0_def h11_tr4_def
      is_done_def signed_ascii delimiter_jumps h11_st33_def h11_st29_def widec_plain
      h11_tr53_def h11_tr42_def http_parser_has_error_def http_parser_init_def demo_blank_def)

theorem split_requests_misread_witness:
  "(\<exists>h1 n cbs h2. http_parser_execute (http_parser_init demo_blank) ''G'' 0 = Inr (1, [], h1)
      \<and> http_parser_execute h1 ''ET /'' 0 = Inr (n, ElementCb request_method ''ET /'' 2 # cbs, h2) \<and> CharsToHttpMethod ''ET /'' = INVALID_METHOD)
   \<and> (\<exists>cbs h1 n cbs' h2 at. http_parser_execute (http_parser_init demo_blank) ''GET /p?q'' 0 = Inr (8, cbs, h1)
      \<and> http_parser_execute h1 ''r '' 0 = Inr (n, ElementCb query_string at (2 ^ 64 - 6) # cbs', h2))"
proof -
  have ok: "method_ok (''G'' @ ''ET'')" by (simp add: method_ok_def method_char_def signed_ascii)
  have q: "pct_text query_char ''r''" by (simp add: query_char_def uri_char_def signed_ascii)
  obtain cbs h where h: "http_parser_execute (http_parser_init demo_blank) ''GET /p?q'' 0 = Inr (8, cbs, h)" "hp_cs h = 30" "hp_query_start h = 7"
    using demo_cut by blast
  have r: "h11_reachable h" using executed [OF created _ _ _ h(1)] by (simp add: http_parser_has_error_def http_parser_is_finished_def init_parser_ok(2))
  note t1 = split_requests_misread [of "''G''" "''ET''" "''/''" demo_blank h "''r''" buffer p g cbs, THEN conjunct1]
  note t2 = split_requests_misread [of "''G''" "''ET''" "''''" demo_blank h "''r''" buffer p g cbs, THEN conjunct2, THEN conjunct1]
  have "CharsToHttpMethod ''ET /'' = INVALID_METHOD" by (simp add: CharsToHttpMethod_def HTTP_METHOD_MAP_def)
  moreover have "(length ''r'' + 2 ^ 64 - 7 :: nat) = 2 ^ 64 - 6" by simp
  ultimately show ?thesis using t1 t2 ok q h r by auto
qed

end
