(* ===== verification/Sylar_Ragel.thy ===== *)
theory Sylar_Ragel
  imports Sylar_RequestParser
begin

text \<open>
  What the goto code that ragel generates for the response parser (\<^verbatim>\<open>src/sylar/http/httpclient_parser.cc\<close>) and for URIs
  (\<^verbatim>\<open>src/sylar/uri.cc\<close>) has in common: a switch on the state, tests on the current character that select a label, the actions
  of the label, and the step to the next character. A machine is given by its cases, its actions and the actions that leave the
  code; the lemmas on runs are proved once for all machines.
\<close>

fun ragel_run :: "(nat \<Rightarrow> (int \<Rightarrow> 'a list \<times> nat) option) \<Rightarrow> (nat \<Rightarrow> 'a \<Rightarrow> 's \<Rightarrow> 's) \<Rightarrow> ('a \<Rightarrow> bool) \<Rightarrow> nat \<Rightarrow> string \<Rightarrow> nat \<Rightarrow> 's \<Rightarrow> nat \<times> nat \<times> 's" where
  "ragel_run switch act leaves p [] cs s = (p, cs, s)"
| "ragel_run switch act leaves p (ch # rest) cs s =
     (case switch cs of
        None \<Rightarrow> (p, cs, s)
      | Some st \<Rightarrow>
          (let (acts, target) = st (signed_char ch); s1 = fold (act p) acts s in
           if target = 0 then (p, 0, s)
           else if list_ex leaves acts then (p + 1, target, s1)
           else ragel_run switch act leaves (p + 1) rest target s1))"

text \<open>The switch over a list of cases, the first of which is state 1.\<close>

definition case_of :: "'c list \<Rightarrow> nat \<Rightarrow> 'c option" where
  "case_of sts cs = (if cs = 0 \<or> length sts < cs then None else Some (sts ! (cs - 1)))"

lemma ragel_run_step:
  assumes "switch cs = Some st" "st (signed_char ch) = (acts, t)" "t \<noteq> 0" "\<not> list_ex leaves acts"
  shows "ragel_run switch act leaves p (ch # rest) cs s = ragel_run switch act leaves (p + 1) rest t (fold (act p) acts s)"
  using assms by simp

lemma ragel_run_loop:
  assumes "switch cs = Some st" "cs \<noteq> 0" "\<forall>ch \<in> set xs. st (signed_char ch) = ([], cs)"
  shows "ragel_run switch act leaves p (xs @ ys) cs s = ragel_run switch act leaves (p + length xs) ys cs s"
  using assms(3) by (induction xs arbitrary: p) (simp_all add: assms(1, 2))

text \<open>
  A machine with an invariant: \<open>inv p cs s\<close> holds in front of the character at \<open>p\<close> in state \<open>cs\<close>, and every label keeps it. \<open>final\<close>
  is what holds behind a label that leaves the code.
\<close>

locale ragel_machine =
  fixes switch :: "nat \<Rightarrow> (int \<Rightarrow> 'a list \<times> nat) option" and act :: "nat \<Rightarrow> 'a \<Rightarrow> 's \<Rightarrow> 's" and leaves :: "'a \<Rightarrow> bool"
    and inv :: "nat \<Rightarrow> nat \<Rightarrow> 's \<Rightarrow> bool" and final :: "nat \<Rightarrow> nat \<Rightarrow> 's \<Rightarrow> bool" and size :: nat
  assumes label_keeps: "inv p cs s \<Longrightarrow> p < size \<Longrightarrow> switch cs = Some st \<Longrightarrow> st c = (acts, t) \<Longrightarrow> t \<noteq> 0 \<Longrightarrow> \<not> list_ex leaves acts \<Longrightarrow>
      inv (p + 1) t (fold (act p) acts s)"
    and label_leaves: "inv p cs s \<Longrightarrow> p < size \<Longrightarrow> switch cs = Some st \<Longrightarrow> st c = (acts, t) \<Longrightarrow> t \<noteq> 0 \<Longrightarrow> list_ex leaves acts \<Longrightarrow>
      final (p + 1) t (fold (act p) acts s)"
    and error_final: "inv p cs s \<Longrightarrow> final p 0 s"
    and stop_final: "inv p cs s \<Longrightarrow> final p cs s"
begin

lemma run_final:
  assumes "inv p cs s" "p + length rest = size"
  shows "case ragel_run switch act leaves p rest cs s of (p', cs', s') \<Rightarrow> final p' cs' s' \<and> p \<le> p' \<and> p' \<le> size"
  using assms
proof (induction rest arbitrary: p cs s)
  case Nil
  then show ?case by (auto intro: stop_final)
next
  case (Cons ch rest)
  show ?case
  proof (cases "switch cs")
    case None
    then show ?thesis using Cons.prems by (auto intro: stop_final)
  next
    case (Some st)
    obtain acts t where j: "st (signed_char ch) = (acts, t)" by fastforce
    have p: "p < size" using Cons.prems(2) by simp
    consider "t = 0" | "t \<noteq> 0" "list_ex leaves acts" | "t \<noteq> 0" "\<not> list_ex leaves acts" by blast
    then show ?thesis
    proof cases
      case 1
      then show ?thesis using Some j Cons.prems p by (auto intro: error_final)
    next
      case 2
      then show ?thesis using Some j p label_leaves [OF Cons.prems(1) p Some j] by auto
    next
      case 3
      have "inv (p + 1) t (fold (act p) acts s)" by (rule label_keeps [OF Cons.prems(1) p Some j 3])
      from Cons.IH [OF this] Cons.prems(2) show ?thesis using Some j 3 by auto
    qed
  qed
qed

end

end
