(* ===== verification/Sylar_HttpClient.thy ===== *)
theory Sylar_HttpClient
  imports Sylar_Ragel
begin

text \<open>
  The state machine of HTTP responses and chunk headers (\<^verbatim>\<open>src/sylar/http/httpclient_parser.cc\<close>). As for requests, \<open>hc_trN\<close> is the
  label \<^verbatim>\<open>trN\<close> and \<open>hc_stN\<close> the tests of \<^verbatim>\<open>case N\<close>; the callbacks are those that \<^verbatim>\<open>HttpResponseParser\<close> sets. A failed assertion is
  an error value, a failed \<^verbatim>\<open>check\<close> the result -1. The buffer is followed by the null character that the code asserts.
\<close>

section \<open>Numbers in the buffer\<close>

text \<open>\<^verbatim>\<open>strtol\<close> and \<^verbatim>\<open>atoi\<close> read from a pointer up to the first character that is no digit, at the latest the null character behind the buffer.\<close>

definition is_space :: "char \<Rightarrow> bool" where
  "is_space ch \<longleftrightarrow> (let k = of_char ch :: nat in k = 32 \<or> 9 \<le> k \<and> k \<le> 13)"

definition digit_of :: "char \<Rightarrow> nat option" where
  "digit_of ch = (let k = of_char ch in
     if 48 \<le> k \<and> k \<le> 57 then Some (k - 48) else if 65 \<le> k \<and> k \<le> 90 then Some (k - 55)
     else if 97 \<le> k \<and> k \<le> 122 then Some (k - 87) else None)"

fun read_digits :: "nat \<Rightarrow> nat \<Rightarrow> string \<Rightarrow> nat" where
  "read_digits base acc [] = acc"
| "read_digits base acc (ch # rest) =
     (case digit_of ch of None \<Rightarrow> acc | Some d \<Rightarrow> if d < base then read_digits base (acc * base + d) rest else acc)"

fun strip_sign :: "string \<Rightarrow> bool \<times> string" where
  "strip_sign (ch # rest) = (if ch = CHR ''-'' then (True, rest) else if ch = CHR ''+'' then (False, rest) else (False, ch # rest))"
| "strip_sign [] = (False, [])"

fun strip_prefix :: "nat \<Rightarrow> string \<Rightarrow> string" where
  "strip_prefix base (a # b # rest) =
     (if base = 16 \<and> a = CHR ''0'' \<and> (b = CHR ''x'' \<or> b = CHR ''X'') then rest else a # b # rest)"
| "strip_prefix base s = s"

definition strtol :: "string \<Rightarrow> nat \<Rightarrow> int" where
  "strtol s base =
     (let (neg, digits) = strip_sign (dropWhile is_space s); v = int (read_digits base 0 (strip_prefix base digits))
      in max (- (2 ^ 63)) (min (2 ^ 63 - 1) (if neg then - v else v)))"

definition atoi :: "string \<Rightarrow> int" where
  "atoi s = to_int32 (strtol s 10)"

section \<open>The parser object\<close>

record httpclient_parser =
  hc_cs :: nat
  hc_body_start :: nat
  hc_content_len :: int
  hc_status :: int
  hc_chunked :: bool
  hc_chunks_done :: bool
  hc_close :: bool
  hc_nread :: nat
  hc_mark :: nat
  hc_field_start :: nat
  hc_field_len :: nat

datatype hc_act =
    HC_Mark | HC_Start_field | HC_Write_field | HC_Write_value | HC_Reason | HC_Version | HC_Status | HC_Content_len | HC_Close
  | HC_Chunked | HC_Chunk_size | HC_Done

type_synonym hc_jump = "hc_act list \<times> nat"

abbreviation hc_goto :: "nat \<Rightarrow> hc_jump" where
  "hc_goto n \<equiv> ([], n)"

text \<open>\<open>parser\<close> is the object before the call; \<^verbatim>\<open>status\<close> is not set.\<close>

definition httpclient_parser_init :: "httpclient_parser \<Rightarrow> httpclient_parser" where
  "httpclient_parser_init parser = parser\<lparr>hc_cs := 1, hc_body_start := 0, hc_content_len := - 1, hc_chunked := False,
     hc_chunks_done := False, hc_mark := 0, hc_nread := 0, hc_field_len := 0, hc_field_start := 0, hc_close := False\<rparr>"

section \<open>The labels\<close>

definition hc_tr0 :: hc_jump where "hc_tr0 = ([HC_Mark], 2)"
definition hc_tr3 :: hc_jump where "hc_tr3 = ([HC_Chunk_size, HC_Done], 120)"
definition hc_tr7 :: hc_jump where "hc_tr7 = ([HC_Done], 120)"
definition hc_tr9 :: hc_jump where "hc_tr9 = ([HC_Write_field, HC_Mark, HC_Write_value, HC_Done], 120)"
definition hc_tr15 :: hc_jump where "hc_tr15 = ([HC_Write_value, HC_Done], 120)"
definition hc_tr74 :: hc_jump where "hc_tr74 = ([HC_Close, HC_Done], 120)"
definition hc_tr4 :: hc_jump where "hc_tr4 = ([HC_Chunk_size], 3)"
definition hc_tr10 :: hc_jump where "hc_tr10 = ([HC_Write_field, HC_Mark, HC_Write_value], 3)"
definition hc_tr16 :: hc_jump where "hc_tr16 = ([HC_Write_value], 3)"
definition hc_tr75 :: hc_jump where "hc_tr75 = ([HC_Close], 3)"
definition hc_tr6 :: hc_jump where "hc_tr6 = ([HC_Chunk_size], 4)"
definition hc_tr12 :: hc_jump where "hc_tr12 = ([HC_Write_field, HC_Mark, HC_Write_value], 4)"
definition hc_tr18 :: hc_jump where "hc_tr18 = ([HC_Write_value], 4)"
definition hc_tr8 :: hc_jump where "hc_tr8 = ([HC_Start_field], 5)"
definition hc_tr13 :: hc_jump where "hc_tr13 = ([HC_Write_field, HC_Mark], 6)"
definition hc_tr14 :: hc_jump where "hc_tr14 = ([HC_Mark], 7)"
definition hc_tr2 :: hc_jump where "hc_tr2 = ([HC_Mark], 8)"
definition hc_tr26 :: hc_jump where "hc_tr26 = ([HC_Version], 16)"
definition hc_tr27 :: hc_jump where "hc_tr27 = ([HC_Mark], 17)"
definition hc_tr28 :: hc_jump where "hc_tr28 = ([HC_Status], 18)"
definition hc_tr30 :: hc_jump where "hc_tr30 = ([HC_Mark], 19)"
definition hc_tr45 :: hc_jump where "hc_tr45 = ([HC_Write_value], 20)"
definition hc_tr32 :: hc_jump where "hc_tr32 = ([HC_Reason], 20)"
definition hc_tr42 :: hc_jump where "hc_tr42 = ([HC_Mark, HC_Write_value], 20)"
definition hc_tr111 :: hc_jump where "hc_tr111 = ([HC_Write_value, HC_Chunked], 20)"
definition hc_tr113 :: hc_jump where "hc_tr113 = ([HC_Chunked], 20)"
definition hc_tr158 :: hc_jump where "hc_tr158 = ([HC_Content_len, HC_Write_value], 20)"
definition hc_tr35 :: hc_jump where "hc_tr35 = ([HC_Start_field], 21)"
definition hc_tr76 :: hc_jump where "hc_tr76 = ([HC_Close, HC_Start_field], 21)"
definition hc_tr41 :: hc_jump where "hc_tr41 = ([HC_Mark], 22)"
definition hc_tr39 :: hc_jump where "hc_tr39 = ([HC_Write_field], 22)"
definition hc_tr40 :: hc_jump where "hc_tr40 = ([HC_Mark], 23)"
definition hc_tr46 :: hc_jump where "hc_tr46 = ([HC_Write_value], 24)"
definition hc_tr33 :: hc_jump where "hc_tr33 = ([HC_Reason], 24)"
definition hc_tr43 :: hc_jump where "hc_tr43 = ([HC_Mark, HC_Write_value], 24)"
definition hc_tr159 :: hc_jump where "hc_tr159 = ([HC_Content_len, HC_Write_value], 24)"
definition hc_tr36 :: hc_jump where "hc_tr36 = ([HC_Start_field], 25)"
definition hc_tr77 :: hc_jump where "hc_tr77 = ([HC_Close, HC_Start_field], 25)"
definition hc_tr59 :: hc_jump where "hc_tr59 = ([HC_Mark], 35)"
definition hc_tr58 :: hc_jump where "hc_tr58 = ([HC_Write_field], 35)"
definition hc_tr60 :: hc_jump where "hc_tr60 = ([HC_Mark, HC_Write_value], 36)"
definition hc_tr136 :: hc_jump where "hc_tr136 = ([HC_Write_value], 43)"
definition hc_tr37 :: hc_jump where "hc_tr37 = ([HC_Start_field], 44)"
definition hc_tr78 :: hc_jump where "hc_tr78 = ([HC_Close, HC_Start_field], 44)"
definition hc_tr96 :: hc_jump where "hc_tr96 = ([HC_Mark], 61)"
definition hc_tr95 :: hc_jump where "hc_tr95 = ([HC_Write_field], 61)"
definition hc_tr97 :: hc_jump where "hc_tr97 = ([HC_Mark, HC_Write_value], 62)"
definition hc_tr104 :: hc_jump where "hc_tr104 = ([HC_Mark], 64)"
definition hc_tr112 :: hc_jump where "hc_tr112 = ([HC_Write_value], 71)"
definition hc_tr101 :: hc_jump where "hc_tr101 = ([HC_Done], 121)"
definition hc_tr103 :: hc_jump where "hc_tr103 = ([HC_Mark, HC_Start_field], 73)"
definition hc_tr98 :: hc_jump where "hc_tr98 = ([HC_Mark, HC_Write_value], 80)"
definition hc_tr99 :: hc_jump where "hc_tr99 = ([HC_Mark], 81)"
definition hc_tr137 :: hc_jump where "hc_tr137 = ([HC_Write_value], 88)"
definition hc_tr64 :: hc_jump where "hc_tr64 = ([HC_Done], 122)"
definition hc_tr66 :: hc_jump where "hc_tr66 = ([HC_Start_field], 90)"
definition hc_tr61 :: hc_jump where "hc_tr61 = ([HC_Mark, HC_Write_value], 95)"
definition hc_tr62 :: hc_jump where "hc_tr62 = ([HC_Mark], 96)"
definition hc_tr149 :: hc_jump where "hc_tr149 = ([HC_Mark], 112)"
definition hc_tr148 :: hc_jump where "hc_tr148 = ([HC_Write_field], 112)"
definition hc_tr150 :: hc_jump where "hc_tr150 = ([HC_Mark, HC_Write_value], 113)"
definition hc_tr157 :: hc_jump where "hc_tr157 = ([HC_Mark], 115)"
definition hc_tr154 :: hc_jump where "hc_tr154 = ([HC_Done], 123)"
definition hc_tr156 :: hc_jump where "hc_tr156 = ([HC_Mark, HC_Start_field], 117)"
definition hc_tr151 :: hc_jump where "hc_tr151 = ([HC_Mark, HC_Write_value], 118)"
definition hc_tr152 :: hc_jump where "hc_tr152 = ([HC_Mark], 119)"

definition hc_st1 :: "int \<Rightarrow> hc_jump" where
  "hc_st1 c =
     (if c = 72 then hc_tr2 else if c < 65 then (if 48 \<le> c \<and> c \<le> 57 then hc_tr0 else hc_goto 0)
      else if c > 70 then (if 97 \<le> c \<and> c \<le> 102 then hc_tr0 else hc_goto 0) else hc_tr0)"

definition hc_st2 :: "int \<Rightarrow> hc_jump" where
  "hc_st2 c =
     (if c = 10 then hc_tr3 else if c = 13 then hc_tr4 else if c = 59 then hc_tr6
      else if c < 65 then (if 48 \<le> c \<and> c \<le> 57 then hc_goto 2 else hc_goto 0)
      else if c > 70 then (if 97 \<le> c \<and> c \<le> 102 then hc_goto 2 else hc_goto 0) else hc_goto 2)"

definition hc_st3 :: "int \<Rightarrow> hc_jump" where
  "hc_st3 c =
     (if c = 10 then hc_tr7 else hc_goto 0)"

definition hc_st4 :: "int \<Rightarrow> hc_jump" where
  "hc_st4 c =
     (if c = 33 then hc_tr8 else if c = 124 then hc_tr8 else if c = 126 then hc_tr8
      else if c < 45 then (if c > 39 then (if 42 \<le> c \<and> c \<le> 43 then hc_tr8 else hc_goto 0) else if c \<ge> 35 then hc_tr8
      else hc_goto 0) else if c > 46 then (if c < 65 then (if 48 \<le> c \<and> c \<le> 57 then hc_tr8 else hc_goto 0)
      else if c > 90 then (if 94 \<le> c \<and> c \<le> 122 then hc_tr8 else hc_goto 0) else hc_tr8) else hc_tr8)"

definition hc_st5 :: "int \<Rightarrow> hc_jump" where
  "hc_st5 c =
     (if c = 10 then hc_tr9 else if c = 13 then hc_tr10 else if c = 33 then hc_goto 5 else if c = 59 then hc_tr12 else if c = 61 then hc_tr13
      else if c = 124 then hc_goto 5 else if c = 126 then hc_goto 5
      else if c < 45 then (if c > 39 then (if 42 \<le> c \<and> c \<le> 43 then hc_goto 5 else hc_goto 0) else if c \<ge> 35 then hc_goto 5
      else hc_goto 0) else if c > 46 then (if c < 65 then (if 48 \<le> c \<and> c \<le> 57 then hc_goto 5 else hc_goto 0)
      else if c > 90 then (if 94 \<le> c \<and> c \<le> 122 then hc_goto 5 else hc_goto 0) else hc_goto 5) else hc_goto 5)"

definition hc_st6 :: "int \<Rightarrow> hc_jump" where
  "hc_st6 c =
     (if c = 33 then hc_tr14 else if c = 124 then hc_tr14 else if c = 126 then hc_tr14
      else if c < 45 then (if c > 39 then (if 42 \<le> c \<and> c \<le> 43 then hc_tr14 else hc_goto 0) else if c \<ge> 35 then hc_tr14
      else hc_goto 0) else if c > 46 then (if c < 65 then (if 48 \<le> c \<and> c \<le> 57 then hc_tr14 else hc_goto 0)
      else if c > 90 then (if 94 \<le> c \<and> c \<le> 122 then hc_tr14 else hc_goto 0) else hc_tr14) else hc_tr14)"

definition hc_st7 :: "int \<Rightarrow> hc_jump" where
  "hc_st7 c =
     (if c = 10 then hc_tr15 else if c = 13 then hc_tr16 else if c = 33 then hc_goto 7 else if c = 59 then hc_tr18 else if c = 124 then hc_goto 7
      else if c = 126 then hc_goto 7 else if c < 45 then (if c > 39 then (if 42 \<le> c \<and> c \<le> 43 then hc_goto 7 else hc_goto 0)
      else if c \<ge> 35 then hc_goto 7 else hc_goto 0) else if c > 46 then (if c < 65 then (if 48 \<le> c \<and> c \<le> 57 then hc_goto 7
      else hc_goto 0) else if c > 90 then (if 94 \<le> c \<and> c \<le> 122 then hc_goto 7 else hc_goto 0) else hc_goto 7) else hc_goto 7)"

definition hc_st8 :: "int \<Rightarrow> hc_jump" where
  "hc_st8 c =
     (if c = 84 then hc_goto 9 else hc_goto 0)"

definition hc_st9 :: "int \<Rightarrow> hc_jump" where
  "hc_st9 c =
     (if c = 84 then hc_goto 10 else hc_goto 0)"

definition hc_st10 :: "int \<Rightarrow> hc_jump" where
  "hc_st10 c =
     (if c = 80 then hc_goto 11 else hc_goto 0)"

definition hc_st11 :: "int \<Rightarrow> hc_jump" where
  "hc_st11 c =
     (if c = 47 then hc_goto 12 else hc_goto 0)"

definition hc_st12 :: "int \<Rightarrow> hc_jump" where
  "hc_st12 c =
     (if 48 \<le> c \<and> c \<le> 57 then hc_goto 13 else hc_goto 0)"

definition hc_st13 :: "int \<Rightarrow> hc_jump" where
  "hc_st13 c =
     (if c = 46 then hc_goto 14 else if 48 \<le> c \<and> c \<le> 57 then hc_goto 13 else hc_goto 0)"

definition hc_st14 :: "int \<Rightarrow> hc_jump" where
  "hc_st14 c =
     (if 48 \<le> c \<and> c \<le> 57 then hc_goto 15 else hc_goto 0)"

definition hc_st15 :: "int \<Rightarrow> hc_jump" where
  "hc_st15 c =
     (if c = 32 then hc_tr26 else if 48 \<le> c \<and> c \<le> 57 then hc_goto 15 else hc_goto 0)"

definition hc_st16 :: "int \<Rightarrow> hc_jump" where
  "hc_st16 c =
     (if 48 \<le> c \<and> c \<le> 57 then hc_tr27 else hc_goto 0)"

definition hc_st17 :: "int \<Rightarrow> hc_jump" where
  "hc_st17 c =
     (if c = 32 then hc_tr28 else if 48 \<le> c \<and> c \<le> 57 then hc_goto 17 else hc_goto 0)"

definition hc_st18 :: "int \<Rightarrow> hc_jump" where
  "hc_st18 c =
     (if c = 10 then hc_goto 0 else hc_tr30)"

definition hc_st19 :: "int \<Rightarrow> hc_jump" where
  "hc_st19 c =
     (if c = 10 then hc_tr32 else if c = 13 then hc_tr33 else hc_goto 19)"

definition hc_st20 :: "int \<Rightarrow> hc_jump" where
  "hc_st20 c =
     (if c = 10 then hc_tr7 else if c = 13 then hc_goto 3 else if c = 33 then hc_tr35 else if c = 67 then hc_tr36 else if c = 84 then hc_tr37
      else if c = 99 then hc_tr36 else if c = 116 then hc_tr37 else if c = 124 then hc_tr35 else if c = 126 then hc_tr35
      else if c < 45 then (if c > 39 then (if 42 \<le> c \<and> c \<le> 43 then hc_tr35 else hc_goto 0) else if c \<ge> 35 then hc_tr35
      else hc_goto 0) else if c > 46 then (if c < 65 then (if 48 \<le> c \<and> c \<le> 57 then hc_tr35 else hc_goto 0)
      else if c > 90 then (if 94 \<le> c \<and> c \<le> 122 then hc_tr35 else hc_goto 0) else hc_tr35) else hc_tr35)"

definition hc_st21 :: "int \<Rightarrow> hc_jump" where
  "hc_st21 c =
     (if c = 33 then hc_goto 21 else if c = 58 then hc_tr39 else if c = 124 then hc_goto 21 else if c = 126 then hc_goto 21
      else if c < 45 then (if c > 39 then (if 42 \<le> c \<and> c \<le> 43 then hc_goto 21 else hc_goto 0) else if c \<ge> 35 then hc_goto 21
      else hc_goto 0) else if c > 46 then (if c < 65 then (if 48 \<le> c \<and> c \<le> 57 then hc_goto 21 else hc_goto 0)
      else if c > 90 then (if 94 \<le> c \<and> c \<le> 122 then hc_goto 21 else hc_goto 0) else hc_goto 21) else hc_goto 21)"

definition hc_st22 :: "int \<Rightarrow> hc_jump" where
  "hc_st22 c =
     (if c = 10 then hc_tr42 else if c = 13 then hc_tr43 else if c = 32 then hc_tr41 else if 9 \<le> c \<and> c \<le> 12 then hc_tr41
      else hc_tr40)"

definition hc_st23 :: "int \<Rightarrow> hc_jump" where
  "hc_st23 c =
     (if c = 10 then hc_tr45 else if c = 13 then hc_tr46 else hc_goto 23)"

definition hc_st24 :: "int \<Rightarrow> hc_jump" where
  "hc_st24 c =
     (if c = 10 then hc_goto 20 else hc_goto 0)"

definition hc_st25 :: "int \<Rightarrow> hc_jump" where
  "hc_st25 c =
     (if c = 33 then hc_goto 21 else if c = 58 then hc_tr39 else if c = 79 then hc_goto 26 else if c = 111 then hc_goto 26
      else if c = 124 then hc_goto 21 else if c = 126 then hc_goto 21
      else if c < 45 then (if c > 39 then (if 42 \<le> c \<and> c \<le> 43 then hc_goto 21 else hc_goto 0) else if c \<ge> 35 then hc_goto 21
      else hc_goto 0) else if c > 46 then (if c < 65 then (if 48 \<le> c \<and> c \<le> 57 then hc_goto 21 else hc_goto 0)
      else if c > 90 then (if 94 \<le> c \<and> c \<le> 122 then hc_goto 21 else hc_goto 0) else hc_goto 21) else hc_goto 21)"

definition hc_st26 :: "int \<Rightarrow> hc_jump" where
  "hc_st26 c =
     (if c = 33 then hc_goto 21 else if c = 58 then hc_tr39 else if c = 78 then hc_goto 27 else if c = 110 then hc_goto 27
      else if c = 124 then hc_goto 21 else if c = 126 then hc_goto 21
      else if c < 45 then (if c > 39 then (if 42 \<le> c \<and> c \<le> 43 then hc_goto 21 else hc_goto 0) else if c \<ge> 35 then hc_goto 21
      else hc_goto 0) else if c > 46 then (if c < 65 then (if 48 \<le> c \<and> c \<le> 57 then hc_goto 21 else hc_goto 0)
      else if c > 90 then (if 94 \<le> c \<and> c \<le> 122 then hc_goto 21 else hc_goto 0) else hc_goto 21) else hc_goto 21)"

definition hc_st27 :: "int \<Rightarrow> hc_jump" where
  "hc_st27 c =
     (if c = 33 then hc_goto 21 else if c = 58 then hc_tr39 else if c = 78 then hc_goto 28 else if c = 84 then hc_goto 101
      else if c = 110 then hc_goto 28 else if c = 116 then hc_goto 101 else if c = 124 then hc_goto 21 else if c = 126 then hc_goto 21
      else if c < 45 then (if c > 39 then (if 42 \<le> c \<and> c \<le> 43 then hc_goto 21 else hc_goto 0) else if c \<ge> 35 then hc_goto 21
      else hc_goto 0) else if c > 46 then (if c < 65 then (if 48 \<le> c \<and> c \<le> 57 then hc_goto 21 else hc_goto 0)
      else if c > 90 then (if 94 \<le> c \<and> c \<le> 122 then hc_goto 21 else hc_goto 0) else hc_goto 21) else hc_goto 21)"

definition hc_st28 :: "int \<Rightarrow> hc_jump" where
  "hc_st28 c =
     (if c = 33 then hc_goto 21 else if c = 58 then hc_tr39 else if c = 69 then hc_goto 29 else if c = 101 then hc_goto 29
      else if c = 124 then hc_goto 21 else if c = 126 then hc_goto 21
      else if c < 45 then (if c > 39 then (if 42 \<le> c \<and> c \<le> 43 then hc_goto 21 else hc_goto 0) else if c \<ge> 35 then hc_goto 21
      else hc_goto 0) else if c > 46 then (if c < 65 then (if 48 \<le> c \<and> c \<le> 57 then hc_goto 21 else hc_goto 0)
      else if c > 90 then (if 94 \<le> c \<and> c \<le> 122 then hc_goto 21 else hc_goto 0) else hc_goto 21) else hc_goto 21)"

definition hc_st29 :: "int \<Rightarrow> hc_jump" where
  "hc_st29 c =
     (if c = 33 then hc_goto 21 else if c = 58 then hc_tr39 else if c = 67 then hc_goto 30 else if c = 99 then hc_goto 30
      else if c = 124 then hc_goto 21 else if c = 126 then hc_goto 21
      else if c < 45 then (if c > 39 then (if 42 \<le> c \<and> c \<le> 43 then hc_goto 21 else hc_goto 0) else if c \<ge> 35 then hc_goto 21
      else hc_goto 0) else if c > 46 then (if c < 65 then (if 48 \<le> c \<and> c \<le> 57 then hc_goto 21 else hc_goto 0)
      else if c > 90 then (if 94 \<le> c \<and> c \<le> 122 then hc_goto 21 else hc_goto 0) else hc_goto 21) else hc_goto 21)"

definition hc_st30 :: "int \<Rightarrow> hc_jump" where
  "hc_st30 c =
     (if c = 33 then hc_goto 21 else if c = 58 then hc_tr39 else if c = 84 then hc_goto 31 else if c = 116 then hc_goto 31
      else if c = 124 then hc_goto 21 else if c = 126 then hc_goto 21
      else if c < 45 then (if c > 39 then (if 42 \<le> c \<and> c \<le> 43 then hc_goto 21 else hc_goto 0) else if c \<ge> 35 then hc_goto 21
      else hc_goto 0) else if c > 46 then (if c < 65 then (if 48 \<le> c \<and> c \<le> 57 then hc_goto 21 else hc_goto 0)
      else if c > 90 then (if 94 \<le> c \<and> c \<le> 122 then hc_goto 21 else hc_goto 0) else hc_goto 21) else hc_goto 21)"

definition hc_st31 :: "int \<Rightarrow> hc_jump" where
  "hc_st31 c =
     (if c = 33 then hc_goto 21 else if c = 58 then hc_tr39 else if c = 73 then hc_goto 32 else if c = 105 then hc_goto 32
      else if c = 124 then hc_goto 21 else if c = 126 then hc_goto 21
      else if c < 45 then (if c > 39 then (if 42 \<le> c \<and> c \<le> 43 then hc_goto 21 else hc_goto 0) else if c \<ge> 35 then hc_goto 21
      else hc_goto 0) else if c > 46 then (if c < 65 then (if 48 \<le> c \<and> c \<le> 57 then hc_goto 21 else hc_goto 0)
      else if c > 90 then (if 94 \<le> c \<and> c \<le> 122 then hc_goto 21 else hc_goto 0) else hc_goto 21) else hc_goto 21)"

definition hc_st32 :: "int \<Rightarrow> hc_jump" where
  "hc_st32 c =
     (if c = 33 then hc_goto 21 else if c = 58 then hc_tr39 else if c = 79 then hc_goto 33 else if c = 111 then hc_goto 33
      else if c = 124 then hc_goto 21 else if c = 126 then hc_goto 21
      else if c < 45 then (if c > 39 then (if 42 \<le> c \<and> c \<le> 43 then hc_goto 21 else hc_goto 0) else if c \<ge> 35 then hc_goto 21
      else hc_goto 0) else if c > 46 then (if c < 65 then (if 48 \<le> c \<and> c \<le> 57 then hc_goto 21 else hc_goto 0)
      else if c > 90 then (if 94 \<le> c \<and> c \<le> 122 then hc_goto 21 else hc_goto 0) else hc_goto 21) else hc_goto 21)"

definition hc_st33 :: "int \<Rightarrow> hc_jump" where
  "hc_st33 c =
     (if c = 33 then hc_goto 21 else if c = 58 then hc_tr39 else if c = 78 then hc_goto 34 else if c = 110 then hc_goto 34
      else if c = 124 then hc_goto 21 else if c = 126 then hc_goto 21
      else if c < 45 then (if c > 39 then (if 42 \<le> c \<and> c \<le> 43 then hc_goto 21 else hc_goto 0) else if c \<ge> 35 then hc_goto 21
      else hc_goto 0) else if c > 46 then (if c < 65 then (if 48 \<le> c \<and> c \<le> 57 then hc_goto 21 else hc_goto 0)
      else if c > 90 then (if 94 \<le> c \<and> c \<le> 122 then hc_goto 21 else hc_goto 0) else hc_goto 21) else hc_goto 21)"

definition hc_st34 :: "int \<Rightarrow> hc_jump" where
  "hc_st34 c =
     (if c = 33 then hc_goto 21 else if c = 58 then hc_tr58 else if c = 124 then hc_goto 21 else if c = 126 then hc_goto 21
      else if c < 45 then (if c > 39 then (if 42 \<le> c \<and> c \<le> 43 then hc_goto 21 else hc_goto 0) else if c \<ge> 35 then hc_goto 21
      else hc_goto 0) else if c > 46 then (if c < 65 then (if 48 \<le> c \<and> c \<le> 57 then hc_goto 21 else hc_goto 0)
      else if c > 90 then (if 94 \<le> c \<and> c \<le> 122 then hc_goto 21 else hc_goto 0) else hc_goto 21) else hc_goto 21)"

definition hc_st35 :: "int \<Rightarrow> hc_jump" where
  "hc_st35 c =
     (if c = 10 then hc_tr60 else if c = 13 then hc_tr61 else if c = 32 then hc_tr59 else if c = 67 then hc_tr62 else if c = 99 then hc_tr62
      else if 9 \<le> c \<and> c \<le> 12 then hc_tr59 else hc_tr40)"

definition hc_st36 :: "int \<Rightarrow> hc_jump" where
  "hc_st36 c =
     (if c = 10 then hc_tr64 else if c = 13 then hc_goto 89 else if c = 32 then hc_goto 37 else if c = 33 then hc_tr35
      else if c = 67 then hc_tr66 else if c = 84 then hc_tr37 else if c = 99 then hc_tr66 else if c = 116 then hc_tr37
      else if c = 124 then hc_tr35 else if c = 126 then hc_tr35
      else if c < 45 then (if c < 35 then (if 9 \<le> c \<and> c \<le> 12 then hc_goto 37 else hc_goto 0)
      else if c > 39 then (if 42 \<le> c \<and> c \<le> 43 then hc_tr35 else hc_goto 0) else hc_tr35)
      else if c > 46 then (if c < 65 then (if 48 \<le> c \<and> c \<le> 57 then hc_tr35 else hc_goto 0)
      else if c > 90 then (if 94 \<le> c \<and> c \<le> 122 then hc_tr35 else hc_goto 0) else hc_tr35) else hc_tr35)"

definition hc_st37 :: "int \<Rightarrow> hc_jump" where
  "hc_st37 c =
     (if c = 32 then hc_goto 37 else if c = 67 then hc_goto 38 else if c = 99 then hc_goto 38 else if 9 \<le> c \<and> c \<le> 13 then hc_goto 37
      else hc_goto 0)"

definition hc_st38 :: "int \<Rightarrow> hc_jump" where
  "hc_st38 c =
     (if c = 76 then hc_goto 39 else if c = 108 then hc_goto 39 else hc_goto 0)"

definition hc_st39 :: "int \<Rightarrow> hc_jump" where
  "hc_st39 c =
     (if c = 79 then hc_goto 40 else if c = 111 then hc_goto 40 else hc_goto 0)"

definition hc_st40 :: "int \<Rightarrow> hc_jump" where
  "hc_st40 c =
     (if c = 83 then hc_goto 41 else if c = 115 then hc_goto 41 else hc_goto 0)"

definition hc_st41 :: "int \<Rightarrow> hc_jump" where
  "hc_st41 c =
     (if c = 69 then hc_goto 42 else if c = 101 then hc_goto 42 else hc_goto 0)"

definition hc_st42 :: "int \<Rightarrow> hc_jump" where
  "hc_st42 c =
     (if c = 10 then hc_goto 43 else if c = 13 then hc_goto 88 else hc_goto 0)"

definition hc_st43 :: "int \<Rightarrow> hc_jump" where
  "hc_st43 c =
     (if c = 10 then hc_tr74 else if c = 13 then hc_tr75 else if c = 33 then hc_tr76 else if c = 67 then hc_tr77 else if c = 84 then hc_tr78
      else if c = 99 then hc_tr77 else if c = 116 then hc_tr78 else if c = 124 then hc_tr76 else if c = 126 then hc_tr76
      else if c < 45 then (if c > 39 then (if 42 \<le> c \<and> c \<le> 43 then hc_tr76 else hc_goto 0) else if c \<ge> 35 then hc_tr76
      else hc_goto 0) else if c > 46 then (if c < 65 then (if 48 \<le> c \<and> c \<le> 57 then hc_tr76 else hc_goto 0)
      else if c > 90 then (if 94 \<le> c \<and> c \<le> 122 then hc_tr76 else hc_goto 0) else hc_tr76) else hc_tr76)"

definition hc_st44 :: "int \<Rightarrow> hc_jump" where
  "hc_st44 c =
     (if c = 33 then hc_goto 21 else if c = 58 then hc_tr39 else if c = 82 then hc_goto 45 else if c = 114 then hc_goto 45
      else if c = 124 then hc_goto 21 else if c = 126 then hc_goto 21
      else if c < 45 then (if c > 39 then (if 42 \<le> c \<and> c \<le> 43 then hc_goto 21 else hc_goto 0) else if c \<ge> 35 then hc_goto 21
      else hc_goto 0) else if c > 46 then (if c < 65 then (if 48 \<le> c \<and> c \<le> 57 then hc_goto 21 else hc_goto 0)
      else if c > 90 then (if 94 \<le> c \<and> c \<le> 122 then hc_goto 21 else hc_goto 0) else hc_goto 21) else hc_goto 21)"

definition hc_st45 :: "int \<Rightarrow> hc_jump" where
  "hc_st45 c =
     (if c = 33 then hc_goto 21 else if c = 58 then hc_tr39 else if c = 65 then hc_goto 46 else if c = 97 then hc_goto 46
      else if c = 124 then hc_goto 21 else if c = 126 then hc_goto 21
      else if c < 45 then (if c > 39 then (if 42 \<le> c \<and> c \<le> 43 then hc_goto 21 else hc_goto 0) else if c \<ge> 35 then hc_goto 21
      else hc_goto 0) else if c > 46 then (if c < 66 then (if 48 \<le> c \<and> c \<le> 57 then hc_goto 21 else hc_goto 0)
      else if c > 90 then (if 94 \<le> c \<and> c \<le> 122 then hc_goto 21 else hc_goto 0) else hc_goto 21) else hc_goto 21)"

definition hc_st46 :: "int \<Rightarrow> hc_jump" where
  "hc_st46 c =
     (if c = 33 then hc_goto 21 else if c = 58 then hc_tr39 else if c = 78 then hc_goto 47 else if c = 110 then hc_goto 47
      else if c = 124 then hc_goto 21 else if c = 126 then hc_goto 21
      else if c < 45 then (if c > 39 then (if 42 \<le> c \<and> c \<le> 43 then hc_goto 21 else hc_goto 0) else if c \<ge> 35 then hc_goto 21
      else hc_goto 0) else if c > 46 then (if c < 65 then (if 48 \<le> c \<and> c \<le> 57 then hc_goto 21 else hc_goto 0)
      else if c > 90 then (if 94 \<le> c \<and> c \<le> 122 then hc_goto 21 else hc_goto 0) else hc_goto 21) else hc_goto 21)"

definition hc_st47 :: "int \<Rightarrow> hc_jump" where
  "hc_st47 c =
     (if c = 33 then hc_goto 21 else if c = 58 then hc_tr39 else if c = 83 then hc_goto 48 else if c = 115 then hc_goto 48
      else if c = 124 then hc_goto 21 else if c = 126 then hc_goto 21
      else if c < 45 then (if c > 39 then (if 42 \<le> c \<and> c \<le> 43 then hc_goto 21 else hc_goto 0) else if c \<ge> 35 then hc_goto 21
      else hc_goto 0) else if c > 46 then (if c < 65 then (if 48 \<le> c \<and> c \<le> 57 then hc_goto 21 else hc_goto 0)
      else if c > 90 then (if 94 \<le> c \<and> c \<le> 122 then hc_goto 21 else hc_goto 0) else hc_goto 21) else hc_goto 21)"

definition hc_st48 :: "int \<Rightarrow> hc_jump" where
  "hc_st48 c =
     (if c = 33 then hc_goto 21 else if c = 58 then hc_tr39 else if c = 70 then hc_goto 49 else if c = 102 then hc_goto 49
      else if c = 124 then hc_goto 21 else if c = 126 then hc_goto 21
      else if c < 45 then (if c > 39 then (if 42 \<le> c \<and> c \<le> 43 then hc_goto 21 else hc_goto 0) else if c \<ge> 35 then hc_goto 21
      else hc_goto 0) else if c > 46 then (if c < 65 then (if 48 \<le> c \<and> c \<le> 57 then hc_goto 21 else hc_goto 0)
      else if c > 90 then (if 94 \<le> c \<and> c \<le> 122 then hc_goto 21 else hc_goto 0) else hc_goto 21) else hc_goto 21)"

definition hc_st49 :: "int \<Rightarrow> hc_jump" where
  "hc_st49 c =
     (if c = 33 then hc_goto 21 else if c = 58 then hc_tr39 else if c = 69 then hc_goto 50 else if c = 101 then hc_goto 50
      else if c = 124 then hc_goto 21 else if c = 126 then hc_goto 21
      else if c < 45 then (if c > 39 then (if 42 \<le> c \<and> c \<le> 43 then hc_goto 21 else hc_goto 0) else if c \<ge> 35 then hc_goto 21
      else hc_goto 0) else if c > 46 then (if c < 65 then (if 48 \<le> c \<and> c \<le> 57 then hc_goto 21 else hc_goto 0)
      else if c > 90 then (if 94 \<le> c \<and> c \<le> 122 then hc_goto 21 else hc_goto 0) else hc_goto 21) else hc_goto 21)"

definition hc_st50 :: "int \<Rightarrow> hc_jump" where
  "hc_st50 c =
     (if c = 33 then hc_goto 21 else if c = 58 then hc_tr39 else if c = 82 then hc_goto 51 else if c = 114 then hc_goto 51
      else if c = 124 then hc_goto 21 else if c = 126 then hc_goto 21
      else if c < 45 then (if c > 39 then (if 42 \<le> c \<and> c \<le> 43 then hc_goto 21 else hc_goto 0) else if c \<ge> 35 then hc_goto 21
      else hc_goto 0) else if c > 46 then (if c < 65 then (if 48 \<le> c \<and> c \<le> 57 then hc_goto 21 else hc_goto 0)
      else if c > 90 then (if 94 \<le> c \<and> c \<le> 122 then hc_goto 21 else hc_goto 0) else hc_goto 21) else hc_goto 21)"

definition hc_st51 :: "int \<Rightarrow> hc_jump" where
  "hc_st51 c =
     (if c = 33 then hc_goto 21 else if c = 45 then hc_goto 52 else if c = 46 then hc_goto 21 else if c = 58 then hc_tr39
      else if c = 124 then hc_goto 21 else if c = 126 then hc_goto 21
      else if c < 48 then (if c > 39 then (if 42 \<le> c \<and> c \<le> 43 then hc_goto 21 else hc_goto 0) else if c \<ge> 35 then hc_goto 21
      else hc_goto 0) else if c > 57 then (if c > 90 then (if 94 \<le> c \<and> c \<le> 122 then hc_goto 21 else hc_goto 0)
      else if c \<ge> 65 then hc_goto 21 else hc_goto 0) else hc_goto 21)"

definition hc_st52 :: "int \<Rightarrow> hc_jump" where
  "hc_st52 c =
     (if c = 33 then hc_goto 21 else if c = 58 then hc_tr39 else if c = 69 then hc_goto 53 else if c = 101 then hc_goto 53
      else if c = 124 then hc_goto 21 else if c = 126 then hc_goto 21
      else if c < 45 then (if c > 39 then (if 42 \<le> c \<and> c \<le> 43 then hc_goto 21 else hc_goto 0) else if c \<ge> 35 then hc_goto 21
      else hc_goto 0) else if c > 46 then (if c < 65 then (if 48 \<le> c \<and> c \<le> 57 then hc_goto 21 else hc_goto 0)
      else if c > 90 then (if 94 \<le> c \<and> c \<le> 122 then hc_goto 21 else hc_goto 0) else hc_goto 21) else hc_goto 21)"

definition hc_st53 :: "int \<Rightarrow> hc_jump" where
  "hc_st53 c =
     (if c = 33 then hc_goto 21 else if c = 58 then hc_tr39 else if c = 78 then hc_goto 54 else if c = 110 then hc_goto 54
      else if c = 124 then hc_goto 21 else if c = 126 then hc_goto 21
      else if c < 45 then (if c > 39 then (if 42 \<le> c \<and> c \<le> 43 then hc_goto 21 else hc_goto 0) else if c \<ge> 35 then hc_goto 21
      else hc_goto 0) else if c > 46 then (if c < 65 then (if 48 \<le> c \<and> c \<le> 57 then hc_goto 21 else hc_goto 0)
      else if c > 90 then (if 94 \<le> c \<and> c \<le> 122 then hc_goto 21 else hc_goto 0) else hc_goto 21) else hc_goto 21)"

definition hc_st54 :: "int \<Rightarrow> hc_jump" where
  "hc_st54 c =
     (if c = 33 then hc_goto 21 else if c = 58 then hc_tr39 else if c = 67 then hc_goto 55 else if c = 99 then hc_goto 55
      else if c = 124 then hc_goto 21 else if c = 126 then hc_goto 21
      else if c < 45 then (if c > 39 then (if 42 \<le> c \<and> c \<le> 43 then hc_goto 21 else hc_goto 0) else if c \<ge> 35 then hc_goto 21
      else hc_goto 0) else if c > 46 then (if c < 65 then (if 48 \<le> c \<and> c \<le> 57 then hc_goto 21 else hc_goto 0)
      else if c > 90 then (if 94 \<le> c \<and> c \<le> 122 then hc_goto 21 else hc_goto 0) else hc_goto 21) else hc_goto 21)"

definition hc_st55 :: "int \<Rightarrow> hc_jump" where
  "hc_st55 c =
     (if c = 33 then hc_goto 21 else if c = 58 then hc_tr39 else if c = 79 then hc_goto 56 else if c = 111 then hc_goto 56
      else if c = 124 then hc_goto 21 else if c = 126 then hc_goto 21
      else if c < 45 then (if c > 39 then (if 42 \<le> c \<and> c \<le> 43 then hc_goto 21 else hc_goto 0) else if c \<ge> 35 then hc_goto 21
      else hc_goto 0) else if c > 46 then (if c < 65 then (if 48 \<le> c \<and> c \<le> 57 then hc_goto 21 else hc_goto 0)
      else if c > 90 then (if 94 \<le> c \<and> c \<le> 122 then hc_goto 21 else hc_goto 0) else hc_goto 21) else hc_goto 21)"

definition hc_st56 :: "int \<Rightarrow> hc_jump" where
  "hc_st56 c =
     (if c = 33 then hc_goto 21 else if c = 58 then hc_tr39 else if c = 68 then hc_goto 57 else if c = 100 then hc_goto 57
      else if c = 124 then hc_goto 21 else if c = 126 then hc_goto 21
      else if c < 45 then (if c > 39 then (if 42 \<le> c \<and> c \<le> 43 then hc_goto 21 else hc_goto 0) else if c \<ge> 35 then hc_goto 21
      else hc_goto 0) else if c > 46 then (if c < 65 then (if 48 \<le> c \<and> c \<le> 57 then hc_goto 21 else hc_goto 0)
      else if c > 90 then (if 94 \<le> c \<and> c \<le> 122 then hc_goto 21 else hc_goto 0) else hc_goto 21) else hc_goto 21)"

definition hc_st57 :: "int \<Rightarrow> hc_jump" where
  "hc_st57 c =
     (if c = 33 then hc_goto 21 else if c = 58 then hc_tr39 else if c = 73 then hc_goto 58 else if c = 105 then hc_goto 58
      else if c = 124 then hc_goto 21 else if c = 126 then hc_goto 21
      else if c < 45 then (if c > 39 then (if 42 \<le> c \<and> c \<le> 43 then hc_goto 21 else hc_goto 0) else if c \<ge> 35 then hc_goto 21
      else hc_goto 0) else if c > 46 then (if c < 65 then (if 48 \<le> c \<and> c \<le> 57 then hc_goto 21 else hc_goto 0)
      else if c > 90 then (if 94 \<le> c \<and> c \<le> 122 then hc_goto 21 else hc_goto 0) else hc_goto 21) else hc_goto 21)"

definition hc_st58 :: "int \<Rightarrow> hc_jump" where
  "hc_st58 c =
     (if c = 33 then hc_goto 21 else if c = 58 then hc_tr39 else if c = 78 then hc_goto 59 else if c = 110 then hc_goto 59
      else if c = 124 then hc_goto 21 else if c = 126 then hc_goto 21
      else if c < 45 then (if c > 39 then (if 42 \<le> c \<and> c \<le> 43 then hc_goto 21 else hc_goto 0) else if c \<ge> 35 then hc_goto 21
      else hc_goto 0) else if c > 46 then (if c < 65 then (if 48 \<le> c \<and> c \<le> 57 then hc_goto 21 else hc_goto 0)
      else if c > 90 then (if 94 \<le> c \<and> c \<le> 122 then hc_goto 21 else hc_goto 0) else hc_goto 21) else hc_goto 21)"

definition hc_st59 :: "int \<Rightarrow> hc_jump" where
  "hc_st59 c =
     (if c = 33 then hc_goto 21 else if c = 58 then hc_tr39 else if c = 71 then hc_goto 60 else if c = 103 then hc_goto 60
      else if c = 124 then hc_goto 21 else if c = 126 then hc_goto 21
      else if c < 45 then (if c > 39 then (if 42 \<le> c \<and> c \<le> 43 then hc_goto 21 else hc_goto 0) else if c \<ge> 35 then hc_goto 21
      else hc_goto 0) else if c > 46 then (if c < 65 then (if 48 \<le> c \<and> c \<le> 57 then hc_goto 21 else hc_goto 0)
      else if c > 90 then (if 94 \<le> c \<and> c \<le> 122 then hc_goto 21 else hc_goto 0) else hc_goto 21) else hc_goto 21)"

definition hc_st60 :: "int \<Rightarrow> hc_jump" where
  "hc_st60 c =
     (if c = 33 then hc_goto 21 else if c = 58 then hc_tr95 else if c = 124 then hc_goto 21 else if c = 126 then hc_goto 21
      else if c < 45 then (if c > 39 then (if 42 \<le> c \<and> c \<le> 43 then hc_goto 21 else hc_goto 0) else if c \<ge> 35 then hc_goto 21
      else hc_goto 0) else if c > 46 then (if c < 65 then (if 48 \<le> c \<and> c \<le> 57 then hc_goto 21 else hc_goto 0)
      else if c > 90 then (if 94 \<le> c \<and> c \<le> 122 then hc_goto 21 else hc_goto 0) else hc_goto 21) else hc_goto 21)"

definition hc_st61 :: "int \<Rightarrow> hc_jump" where
  "hc_st61 c =
     (if c = 10 then hc_tr97 else if c = 13 then hc_tr98 else if c = 32 then hc_tr96 else if c = 67 then hc_tr99 else if c = 99 then hc_tr99
      else if 9 \<le> c \<and> c \<le> 12 then hc_tr96 else hc_tr40)"

definition hc_st62 :: "int \<Rightarrow> hc_jump" where
  "hc_st62 c =
     (if c = 10 then hc_tr101 else if c = 13 then hc_goto 72 else if c = 32 then hc_goto 63 else if c = 33 then hc_tr35
      else if c = 67 then hc_tr103 else if c = 84 then hc_tr37 else if c = 99 then hc_tr103 else if c = 116 then hc_tr37
      else if c = 124 then hc_tr35 else if c = 126 then hc_tr35
      else if c < 45 then (if c < 35 then (if 9 \<le> c \<and> c \<le> 12 then hc_goto 63 else hc_goto 0)
      else if c > 39 then (if 42 \<le> c \<and> c \<le> 43 then hc_tr35 else hc_goto 0) else hc_tr35)
      else if c > 46 then (if c < 65 then (if 48 \<le> c \<and> c \<le> 57 then hc_tr35 else hc_goto 0)
      else if c > 90 then (if 94 \<le> c \<and> c \<le> 122 then hc_tr35 else hc_goto 0) else hc_tr35) else hc_tr35)"

definition hc_st63 :: "int \<Rightarrow> hc_jump" where
  "hc_st63 c =
     (if c = 32 then hc_goto 63 else if c = 67 then hc_tr104 else if c = 99 then hc_tr104 else if 9 \<le> c \<and> c \<le> 13 then hc_goto 63
      else hc_goto 0)"

definition hc_st64 :: "int \<Rightarrow> hc_jump" where
  "hc_st64 c =
     (if c = 72 then hc_goto 65 else if c = 104 then hc_goto 65 else hc_goto 0)"

definition hc_st65 :: "int \<Rightarrow> hc_jump" where
  "hc_st65 c =
     (if c = 85 then hc_goto 66 else if c = 117 then hc_goto 66 else hc_goto 0)"

definition hc_st66 :: "int \<Rightarrow> hc_jump" where
  "hc_st66 c =
     (if c = 78 then hc_goto 67 else if c = 110 then hc_goto 67 else hc_goto 0)"

definition hc_st67 :: "int \<Rightarrow> hc_jump" where
  "hc_st67 c =
     (if c = 75 then hc_goto 68 else if c = 107 then hc_goto 68 else hc_goto 0)"

definition hc_st68 :: "int \<Rightarrow> hc_jump" where
  "hc_st68 c =
     (if c = 69 then hc_goto 69 else if c = 101 then hc_goto 69 else hc_goto 0)"

definition hc_st69 :: "int \<Rightarrow> hc_jump" where
  "hc_st69 c =
     (if c = 68 then hc_goto 70 else if c = 100 then hc_goto 70 else hc_goto 0)"

definition hc_st70 :: "int \<Rightarrow> hc_jump" where
  "hc_st70 c =
     (if c = 10 then hc_tr111 else if c = 13 then hc_tr112 else hc_goto 0)"

definition hc_st71 :: "int \<Rightarrow> hc_jump" where
  "hc_st71 c =
     (if c = 10 then hc_tr113 else hc_goto 0)"

definition hc_st72 :: "int \<Rightarrow> hc_jump" where
  "hc_st72 c =
     (if c = 10 then hc_tr101 else if c = 32 then hc_goto 63 else if c = 67 then hc_tr104 else if c = 99 then hc_tr104
      else if 9 \<le> c \<and> c \<le> 13 then hc_goto 63 else hc_goto 0)"

definition hc_st73 :: "int \<Rightarrow> hc_jump" where
  "hc_st73 c =
     (if c = 33 then hc_goto 21 else if c = 58 then hc_tr39 else if c = 72 then hc_goto 74 else if c = 79 then hc_goto 26
      else if c = 104 then hc_goto 74 else if c = 111 then hc_goto 26 else if c = 124 then hc_goto 21 else if c = 126 then hc_goto 21
      else if c < 45 then (if c > 39 then (if 42 \<le> c \<and> c \<le> 43 then hc_goto 21 else hc_goto 0) else if c \<ge> 35 then hc_goto 21
      else hc_goto 0) else if c > 46 then (if c < 65 then (if 48 \<le> c \<and> c \<le> 57 then hc_goto 21 else hc_goto 0)
      else if c > 90 then (if 94 \<le> c \<and> c \<le> 122 then hc_goto 21 else hc_goto 0) else hc_goto 21) else hc_goto 21)"

definition hc_st74 :: "int \<Rightarrow> hc_jump" where
  "hc_st74 c =
     (if c = 33 then hc_goto 21 else if c = 58 then hc_tr39 else if c = 85 then hc_goto 75 else if c = 117 then hc_goto 75
      else if c = 124 then hc_goto 21 else if c = 126 then hc_goto 21
      else if c < 45 then (if c > 39 then (if 42 \<le> c \<and> c \<le> 43 then hc_goto 21 else hc_goto 0) else if c \<ge> 35 then hc_goto 21
      else hc_goto 0) else if c > 46 then (if c < 65 then (if 48 \<le> c \<and> c \<le> 57 then hc_goto 21 else hc_goto 0)
      else if c > 90 then (if 94 \<le> c \<and> c \<le> 122 then hc_goto 21 else hc_goto 0) else hc_goto 21) else hc_goto 21)"

definition hc_st75 :: "int \<Rightarrow> hc_jump" where
  "hc_st75 c =
     (if c = 33 then hc_goto 21 else if c = 58 then hc_tr39 else if c = 78 then hc_goto 76 else if c = 110 then hc_goto 76
      else if c = 124 then hc_goto 21 else if c = 126 then hc_goto 21
      else if c < 45 then (if c > 39 then (if 42 \<le> c \<and> c \<le> 43 then hc_goto 21 else hc_goto 0) else if c \<ge> 35 then hc_goto 21
      else hc_goto 0) else if c > 46 then (if c < 65 then (if 48 \<le> c \<and> c \<le> 57 then hc_goto 21 else hc_goto 0)
      else if c > 90 then (if 94 \<le> c \<and> c \<le> 122 then hc_goto 21 else hc_goto 0) else hc_goto 21) else hc_goto 21)"

definition hc_st76 :: "int \<Rightarrow> hc_jump" where
  "hc_st76 c =
     (if c = 33 then hc_goto 21 else if c = 58 then hc_tr39 else if c = 75 then hc_goto 77 else if c = 107 then hc_goto 77
      else if c = 124 then hc_goto 21 else if c = 126 then hc_goto 21
      else if c < 45 then (if c > 39 then (if 42 \<le> c \<and> c \<le> 43 then hc_goto 21 else hc_goto 0) else if c \<ge> 35 then hc_goto 21
      else hc_goto 0) else if c > 46 then (if c < 65 then (if 48 \<le> c \<and> c \<le> 57 then hc_goto 21 else hc_goto 0)
      else if c > 90 then (if 94 \<le> c \<and> c \<le> 122 then hc_goto 21 else hc_goto 0) else hc_goto 21) else hc_goto 21)"

definition hc_st77 :: "int \<Rightarrow> hc_jump" where
  "hc_st77 c =
     (if c = 33 then hc_goto 21 else if c = 58 then hc_tr39 else if c = 69 then hc_goto 78 else if c = 101 then hc_goto 78
      else if c = 124 then hc_goto 21 else if c = 126 then hc_goto 21
      else if c < 45 then (if c > 39 then (if 42 \<le> c \<and> c \<le> 43 then hc_goto 21 else hc_goto 0) else if c \<ge> 35 then hc_goto 21
      else hc_goto 0) else if c > 46 then (if c < 65 then (if 48 \<le> c \<and> c \<le> 57 then hc_goto 21 else hc_goto 0)
      else if c > 90 then (if 94 \<le> c \<and> c \<le> 122 then hc_goto 21 else hc_goto 0) else hc_goto 21) else hc_goto 21)"

definition hc_st78 :: "int \<Rightarrow> hc_jump" where
  "hc_st78 c =
     (if c = 33 then hc_goto 21 else if c = 58 then hc_tr39 else if c = 68 then hc_goto 79 else if c = 100 then hc_goto 79
      else if c = 124 then hc_goto 21 else if c = 126 then hc_goto 21
      else if c < 45 then (if c > 39 then (if 42 \<le> c \<and> c \<le> 43 then hc_goto 21 else hc_goto 0) else if c \<ge> 35 then hc_goto 21
      else hc_goto 0) else if c > 46 then (if c < 65 then (if 48 \<le> c \<and> c \<le> 57 then hc_goto 21 else hc_goto 0)
      else if c > 90 then (if 94 \<le> c \<and> c \<le> 122 then hc_goto 21 else hc_goto 0) else hc_goto 21) else hc_goto 21)"

definition hc_st79 :: "int \<Rightarrow> hc_jump" where
  "hc_st79 c =
     (if c = 10 then hc_tr111 else if c = 13 then hc_tr112 else if c = 33 then hc_goto 21 else if c = 58 then hc_tr39
      else if c = 124 then hc_goto 21 else if c = 126 then hc_goto 21
      else if c < 45 then (if c > 39 then (if 42 \<le> c \<and> c \<le> 43 then hc_goto 21 else hc_goto 0) else if c \<ge> 35 then hc_goto 21
      else hc_goto 0) else if c > 46 then (if c < 65 then (if 48 \<le> c \<and> c \<le> 57 then hc_goto 21 else hc_goto 0)
      else if c > 90 then (if 94 \<le> c \<and> c \<le> 122 then hc_goto 21 else hc_goto 0) else hc_goto 21) else hc_goto 21)"

definition hc_st80 :: "int \<Rightarrow> hc_jump" where
  "hc_st80 c =
     (if c = 10 then hc_goto 62 else if c = 32 then hc_goto 63 else if c = 67 then hc_tr104 else if c = 99 then hc_tr104
      else if 9 \<le> c \<and> c \<le> 13 then hc_goto 63 else hc_goto 0)"

definition hc_st81 :: "int \<Rightarrow> hc_jump" where
  "hc_st81 c =
     (if c = 10 then hc_tr45 else if c = 13 then hc_tr46 else if c = 72 then hc_goto 82 else if c = 104 then hc_goto 82 else hc_goto 23)"

definition hc_st82 :: "int \<Rightarrow> hc_jump" where
  "hc_st82 c =
     (if c = 10 then hc_tr45 else if c = 13 then hc_tr46 else if c = 85 then hc_goto 83 else if c = 117 then hc_goto 83 else hc_goto 23)"

definition hc_st83 :: "int \<Rightarrow> hc_jump" where
  "hc_st83 c =
     (if c = 10 then hc_tr45 else if c = 13 then hc_tr46 else if c = 78 then hc_goto 84 else if c = 110 then hc_goto 84 else hc_goto 23)"

definition hc_st84 :: "int \<Rightarrow> hc_jump" where
  "hc_st84 c =
     (if c = 10 then hc_tr45 else if c = 13 then hc_tr46 else if c = 75 then hc_goto 85 else if c = 107 then hc_goto 85 else hc_goto 23)"

definition hc_st85 :: "int \<Rightarrow> hc_jump" where
  "hc_st85 c =
     (if c = 10 then hc_tr45 else if c = 13 then hc_tr46 else if c = 69 then hc_goto 86 else if c = 101 then hc_goto 86 else hc_goto 23)"

definition hc_st86 :: "int \<Rightarrow> hc_jump" where
  "hc_st86 c =
     (if c = 10 then hc_tr45 else if c = 13 then hc_tr46 else if c = 68 then hc_goto 87 else if c = 100 then hc_goto 87 else hc_goto 23)"

definition hc_st87 :: "int \<Rightarrow> hc_jump" where
  "hc_st87 c =
     (if c = 10 then hc_tr111 else if c = 13 then hc_tr112 else hc_goto 23)"

definition hc_st88 :: "int \<Rightarrow> hc_jump" where
  "hc_st88 c =
     (if c = 10 then hc_goto 43 else hc_goto 0)"

definition hc_st89 :: "int \<Rightarrow> hc_jump" where
  "hc_st89 c =
     (if c = 10 then hc_tr64 else if c = 32 then hc_goto 37 else if c = 67 then hc_goto 38 else if c = 99 then hc_goto 38
      else if 9 \<le> c \<and> c \<le> 13 then hc_goto 37 else hc_goto 0)"

definition hc_st90 :: "int \<Rightarrow> hc_jump" where
  "hc_st90 c =
     (if c = 33 then hc_goto 21 else if c = 58 then hc_tr39 else if c = 76 then hc_goto 91 else if c = 79 then hc_goto 26
      else if c = 108 then hc_goto 91 else if c = 111 then hc_goto 26 else if c = 124 then hc_goto 21 else if c = 126 then hc_goto 21
      else if c < 45 then (if c > 39 then (if 42 \<le> c \<and> c \<le> 43 then hc_goto 21 else hc_goto 0) else if c \<ge> 35 then hc_goto 21
      else hc_goto 0) else if c > 46 then (if c < 65 then (if 48 \<le> c \<and> c \<le> 57 then hc_goto 21 else hc_goto 0)
      else if c > 90 then (if 94 \<le> c \<and> c \<le> 122 then hc_goto 21 else hc_goto 0) else hc_goto 21) else hc_goto 21)"

definition hc_st91 :: "int \<Rightarrow> hc_jump" where
  "hc_st91 c =
     (if c = 33 then hc_goto 21 else if c = 58 then hc_tr39 else if c = 79 then hc_goto 92 else if c = 111 then hc_goto 92
      else if c = 124 then hc_goto 21 else if c = 126 then hc_goto 21
      else if c < 45 then (if c > 39 then (if 42 \<le> c \<and> c \<le> 43 then hc_goto 21 else hc_goto 0) else if c \<ge> 35 then hc_goto 21
      else hc_goto 0) else if c > 46 then (if c < 65 then (if 48 \<le> c \<and> c \<le> 57 then hc_goto 21 else hc_goto 0)
      else if c > 90 then (if 94 \<le> c \<and> c \<le> 122 then hc_goto 21 else hc_goto 0) else hc_goto 21) else hc_goto 21)"

definition hc_st92 :: "int \<Rightarrow> hc_jump" where
  "hc_st92 c =
     (if c = 33 then hc_goto 21 else if c = 58 then hc_tr39 else if c = 83 then hc_goto 93 else if c = 115 then hc_goto 93
      else if c = 124 then hc_goto 21 else if c = 126 then hc_goto 21
      else if c < 45 then (if c > 39 then (if 42 \<le> c \<and> c \<le> 43 then hc_goto 21 else hc_goto 0) else if c \<ge> 35 then hc_goto 21
      else hc_goto 0) else if c > 46 then (if c < 65 then (if 48 \<le> c \<and> c \<le> 57 then hc_goto 21 else hc_goto 0)
      else if c > 90 then (if 94 \<le> c \<and> c \<le> 122 then hc_goto 21 else hc_goto 0) else hc_goto 21) else hc_goto 21)"

definition hc_st93 :: "int \<Rightarrow> hc_jump" where
  "hc_st93 c =
     (if c = 33 then hc_goto 21 else if c = 58 then hc_tr39 else if c = 69 then hc_goto 94 else if c = 101 then hc_goto 94
      else if c = 124 then hc_goto 21 else if c = 126 then hc_goto 21
      else if c < 45 then (if c > 39 then (if 42 \<le> c \<and> c \<le> 43 then hc_goto 21 else hc_goto 0) else if c \<ge> 35 then hc_goto 21
      else hc_goto 0) else if c > 46 then (if c < 65 then (if 48 \<le> c \<and> c \<le> 57 then hc_goto 21 else hc_goto 0)
      else if c > 90 then (if 94 \<le> c \<and> c \<le> 122 then hc_goto 21 else hc_goto 0) else hc_goto 21) else hc_goto 21)"

definition hc_st94 :: "int \<Rightarrow> hc_jump" where
  "hc_st94 c =
     (if c = 10 then hc_goto 43 else if c = 13 then hc_goto 88 else if c = 33 then hc_goto 21 else if c = 58 then hc_tr39
      else if c = 124 then hc_goto 21 else if c = 126 then hc_goto 21
      else if c < 45 then (if c > 39 then (if 42 \<le> c \<and> c \<le> 43 then hc_goto 21 else hc_goto 0) else if c \<ge> 35 then hc_goto 21
      else hc_goto 0) else if c > 46 then (if c < 65 then (if 48 \<le> c \<and> c \<le> 57 then hc_goto 21 else hc_goto 0)
      else if c > 90 then (if 94 \<le> c \<and> c \<le> 122 then hc_goto 21 else hc_goto 0) else hc_goto 21) else hc_goto 21)"

definition hc_st95 :: "int \<Rightarrow> hc_jump" where
  "hc_st95 c =
     (if c = 10 then hc_goto 36 else if c = 32 then hc_goto 37 else if c = 67 then hc_goto 38 else if c = 99 then hc_goto 38
      else if 9 \<le> c \<and> c \<le> 13 then hc_goto 37 else hc_goto 0)"

definition hc_st96 :: "int \<Rightarrow> hc_jump" where
  "hc_st96 c =
     (if c = 10 then hc_tr45 else if c = 13 then hc_tr46 else if c = 76 then hc_goto 97 else if c = 108 then hc_goto 97 else hc_goto 23)"

definition hc_st97 :: "int \<Rightarrow> hc_jump" where
  "hc_st97 c =
     (if c = 10 then hc_tr45 else if c = 13 then hc_tr46 else if c = 79 then hc_goto 98 else if c = 111 then hc_goto 98 else hc_goto 23)"

definition hc_st98 :: "int \<Rightarrow> hc_jump" where
  "hc_st98 c =
     (if c = 10 then hc_tr45 else if c = 13 then hc_tr46 else if c = 83 then hc_goto 99 else if c = 115 then hc_goto 99 else hc_goto 23)"

definition hc_st99 :: "int \<Rightarrow> hc_jump" where
  "hc_st99 c =
     (if c = 10 then hc_tr45 else if c = 13 then hc_tr46 else if c = 69 then hc_goto 100 else if c = 101 then hc_goto 100 else hc_goto 23)"

definition hc_st100 :: "int \<Rightarrow> hc_jump" where
  "hc_st100 c =
     (if c = 10 then hc_tr136 else if c = 13 then hc_tr137 else hc_goto 23)"

definition hc_st101 :: "int \<Rightarrow> hc_jump" where
  "hc_st101 c =
     (if c = 33 then hc_goto 21 else if c = 58 then hc_tr39 else if c = 69 then hc_goto 102 else if c = 101 then hc_goto 102
      else if c = 124 then hc_goto 21 else if c = 126 then hc_goto 21
      else if c < 45 then (if c > 39 then (if 42 \<le> c \<and> c \<le> 43 then hc_goto 21 else hc_goto 0) else if c \<ge> 35 then hc_goto 21
      else hc_goto 0) else if c > 46 then (if c < 65 then (if 48 \<le> c \<and> c \<le> 57 then hc_goto 21 else hc_goto 0)
      else if c > 90 then (if 94 \<le> c \<and> c \<le> 122 then hc_goto 21 else hc_goto 0) else hc_goto 21) else hc_goto 21)"

definition hc_st102 :: "int \<Rightarrow> hc_jump" where
  "hc_st102 c =
     (if c = 33 then hc_goto 21 else if c = 58 then hc_tr39 else if c = 78 then hc_goto 103 else if c = 110 then hc_goto 103
      else if c = 124 then hc_goto 21 else if c = 126 then hc_goto 21
      else if c < 45 then (if c > 39 then (if 42 \<le> c \<and> c \<le> 43 then hc_goto 21 else hc_goto 0) else if c \<ge> 35 then hc_goto 21
      else hc_goto 0) else if c > 46 then (if c < 65 then (if 48 \<le> c \<and> c \<le> 57 then hc_goto 21 else hc_goto 0)
      else if c > 90 then (if 94 \<le> c \<and> c \<le> 122 then hc_goto 21 else hc_goto 0) else hc_goto 21) else hc_goto 21)"

definition hc_st103 :: "int \<Rightarrow> hc_jump" where
  "hc_st103 c =
     (if c = 33 then hc_goto 21 else if c = 58 then hc_tr39 else if c = 84 then hc_goto 104 else if c = 116 then hc_goto 104
      else if c = 124 then hc_goto 21 else if c = 126 then hc_goto 21
      else if c < 45 then (if c > 39 then (if 42 \<le> c \<and> c \<le> 43 then hc_goto 21 else hc_goto 0) else if c \<ge> 35 then hc_goto 21
      else hc_goto 0) else if c > 46 then (if c < 65 then (if 48 \<le> c \<and> c \<le> 57 then hc_goto 21 else hc_goto 0)
      else if c > 90 then (if 94 \<le> c \<and> c \<le> 122 then hc_goto 21 else hc_goto 0) else hc_goto 21) else hc_goto 21)"

definition hc_st104 :: "int \<Rightarrow> hc_jump" where
  "hc_st104 c =
     (if c = 33 then hc_goto 21 else if c = 45 then hc_goto 105 else if c = 46 then hc_goto 21 else if c = 58 then hc_tr39
      else if c = 124 then hc_goto 21 else if c = 126 then hc_goto 21
      else if c < 48 then (if c > 39 then (if 42 \<le> c \<and> c \<le> 43 then hc_goto 21 else hc_goto 0) else if c \<ge> 35 then hc_goto 21
      else hc_goto 0) else if c > 57 then (if c > 90 then (if 94 \<le> c \<and> c \<le> 122 then hc_goto 21 else hc_goto 0)
      else if c \<ge> 65 then hc_goto 21 else hc_goto 0) else hc_goto 21)"

definition hc_st105 :: "int \<Rightarrow> hc_jump" where
  "hc_st105 c =
     (if c = 33 then hc_goto 21 else if c = 58 then hc_tr39 else if c = 76 then hc_goto 106 else if c = 108 then hc_goto 106
      else if c = 124 then hc_goto 21 else if c = 126 then hc_goto 21
      else if c < 45 then (if c > 39 then (if 42 \<le> c \<and> c \<le> 43 then hc_goto 21 else hc_goto 0) else if c \<ge> 35 then hc_goto 21
      else hc_goto 0) else if c > 46 then (if c < 65 then (if 48 \<le> c \<and> c \<le> 57 then hc_goto 21 else hc_goto 0)
      else if c > 90 then (if 94 \<le> c \<and> c \<le> 122 then hc_goto 21 else hc_goto 0) else hc_goto 21) else hc_goto 21)"

definition hc_st106 :: "int \<Rightarrow> hc_jump" where
  "hc_st106 c =
     (if c = 33 then hc_goto 21 else if c = 58 then hc_tr39 else if c = 69 then hc_goto 107 else if c = 101 then hc_goto 107
      else if c = 124 then hc_goto 21 else if c = 126 then hc_goto 21
      else if c < 45 then (if c > 39 then (if 42 \<le> c \<and> c \<le> 43 then hc_goto 21 else hc_goto 0) else if c \<ge> 35 then hc_goto 21
      else hc_goto 0) else if c > 46 then (if c < 65 then (if 48 \<le> c \<and> c \<le> 57 then hc_goto 21 else hc_goto 0)
      else if c > 90 then (if 94 \<le> c \<and> c \<le> 122 then hc_goto 21 else hc_goto 0) else hc_goto 21) else hc_goto 21)"

definition hc_st107 :: "int \<Rightarrow> hc_jump" where
  "hc_st107 c =
     (if c = 33 then hc_goto 21 else if c = 58 then hc_tr39 else if c = 78 then hc_goto 108 else if c = 110 then hc_goto 108
      else if c = 124 then hc_goto 21 else if c = 126 then hc_goto 21
      else if c < 45 then (if c > 39 then (if 42 \<le> c \<and> c \<le> 43 then hc_goto 21 else hc_goto 0) else if c \<ge> 35 then hc_goto 21
      else hc_goto 0) else if c > 46 then (if c < 65 then (if 48 \<le> c \<and> c \<le> 57 then hc_goto 21 else hc_goto 0)
      else if c > 90 then (if 94 \<le> c \<and> c \<le> 122 then hc_goto 21 else hc_goto 0) else hc_goto 21) else hc_goto 21)"

definition hc_st108 :: "int \<Rightarrow> hc_jump" where
  "hc_st108 c =
     (if c = 33 then hc_goto 21 else if c = 58 then hc_tr39 else if c = 71 then hc_goto 109 else if c = 103 then hc_goto 109
      else if c = 124 then hc_goto 21 else if c = 126 then hc_goto 21
      else if c < 45 then (if c > 39 then (if 42 \<le> c \<and> c \<le> 43 then hc_goto 21 else hc_goto 0) else if c \<ge> 35 then hc_goto 21
      else hc_goto 0) else if c > 46 then (if c < 65 then (if 48 \<le> c \<and> c \<le> 57 then hc_goto 21 else hc_goto 0)
      else if c > 90 then (if 94 \<le> c \<and> c \<le> 122 then hc_goto 21 else hc_goto 0) else hc_goto 21) else hc_goto 21)"

definition hc_st109 :: "int \<Rightarrow> hc_jump" where
  "hc_st109 c =
     (if c = 33 then hc_goto 21 else if c = 58 then hc_tr39 else if c = 84 then hc_goto 110 else if c = 116 then hc_goto 110
      else if c = 124 then hc_goto 21 else if c = 126 then hc_goto 21
      else if c < 45 then (if c > 39 then (if 42 \<le> c \<and> c \<le> 43 then hc_goto 21 else hc_goto 0) else if c \<ge> 35 then hc_goto 21
      else hc_goto 0) else if c > 46 then (if c < 65 then (if 48 \<le> c \<and> c \<le> 57 then hc_goto 21 else hc_goto 0)
      else if c > 90 then (if 94 \<le> c \<and> c \<le> 122 then hc_goto 21 else hc_goto 0) else hc_goto 21) else hc_goto 21)"

definition hc_st110 :: "int \<Rightarrow> hc_jump" where
  "hc_st110 c =
     (if c = 33 then hc_goto 21 else if c = 58 then hc_tr39 else if c = 72 then hc_goto 111 else if c = 104 then hc_goto 111
      else if c = 124 then hc_goto 21 else if c = 126 then hc_goto 21
      else if c < 45 then (if c > 39 then (if 42 \<le> c \<and> c \<le> 43 then hc_goto 21 else hc_goto 0) else if c \<ge> 35 then hc_goto 21
      else hc_goto 0) else if c > 46 then (if c < 65 then (if 48 \<le> c \<and> c \<le> 57 then hc_goto 21 else hc_goto 0)
      else if c > 90 then (if 94 \<le> c \<and> c \<le> 122 then hc_goto 21 else hc_goto 0) else hc_goto 21) else hc_goto 21)"

definition hc_st111 :: "int \<Rightarrow> hc_jump" where
  "hc_st111 c =
     (if c = 33 then hc_goto 21 else if c = 58 then hc_tr148 else if c = 124 then hc_goto 21 else if c = 126 then hc_goto 21
      else if c < 45 then (if c > 39 then (if 42 \<le> c \<and> c \<le> 43 then hc_goto 21 else hc_goto 0) else if c \<ge> 35 then hc_goto 21
      else hc_goto 0) else if c > 46 then (if c < 65 then (if 48 \<le> c \<and> c \<le> 57 then hc_goto 21 else hc_goto 0)
      else if c > 90 then (if 94 \<le> c \<and> c \<le> 122 then hc_goto 21 else hc_goto 0) else hc_goto 21) else hc_goto 21)"

definition hc_st112 :: "int \<Rightarrow> hc_jump" where
  "hc_st112 c =
     (if c = 10 then hc_tr150 else if c = 13 then hc_tr151 else if c = 32 then hc_tr149
      else if c > 12 then (if 48 \<le> c \<and> c \<le> 57 then hc_tr152 else hc_tr40) else if c \<ge> 9 then hc_tr149 else hc_tr40)"

definition hc_st113 :: "int \<Rightarrow> hc_jump" where
  "hc_st113 c =
     (if c = 10 then hc_tr154 else if c = 13 then hc_goto 116 else if c = 32 then hc_goto 114 else if c = 33 then hc_tr35
      else if c = 67 then hc_tr36 else if c = 84 then hc_tr37 else if c = 99 then hc_tr36 else if c = 116 then hc_tr37
      else if c = 124 then hc_tr35 else if c = 126 then hc_tr35
      else if c < 45 then (if c < 35 then (if 9 \<le> c \<and> c \<le> 12 then hc_goto 114 else hc_goto 0)
      else if c > 39 then (if 42 \<le> c \<and> c \<le> 43 then hc_tr35 else hc_goto 0) else hc_tr35)
      else if c > 46 then (if c < 65 then (if 48 \<le> c \<and> c \<le> 57 then hc_tr156 else hc_goto 0)
      else if c > 90 then (if 94 \<le> c \<and> c \<le> 122 then hc_tr35 else hc_goto 0) else hc_tr35) else hc_tr35)"

definition hc_st114 :: "int \<Rightarrow> hc_jump" where
  "hc_st114 c =
     (if c = 32 then hc_goto 114 else if c > 13 then (if 48 \<le> c \<and> c \<le> 57 then hc_tr157 else hc_goto 0)
      else if c \<ge> 9 then hc_goto 114 else hc_goto 0)"

definition hc_st115 :: "int \<Rightarrow> hc_jump" where
  "hc_st115 c =
     (if c = 10 then hc_tr158 else if c = 13 then hc_tr159 else if 48 \<le> c \<and> c \<le> 57 then hc_goto 115 else hc_goto 0)"

definition hc_st116 :: "int \<Rightarrow> hc_jump" where
  "hc_st116 c =
     (if c = 10 then hc_tr154 else if c = 32 then hc_goto 114 else if c > 13 then (if 48 \<le> c \<and> c \<le> 57 then hc_tr157 else hc_goto 0)
      else if c \<ge> 9 then hc_goto 114 else hc_goto 0)"

definition hc_st117 :: "int \<Rightarrow> hc_jump" where
  "hc_st117 c =
     (if c = 10 then hc_tr158 else if c = 13 then hc_tr159 else if c = 33 then hc_goto 21 else if c = 58 then hc_tr39
      else if c = 124 then hc_goto 21 else if c = 126 then hc_goto 21
      else if c < 45 then (if c > 39 then (if 42 \<le> c \<and> c \<le> 43 then hc_goto 21 else hc_goto 0) else if c \<ge> 35 then hc_goto 21
      else hc_goto 0) else if c > 46 then (if c < 65 then (if 48 \<le> c \<and> c \<le> 57 then hc_goto 117 else hc_goto 0)
      else if c > 90 then (if 94 \<le> c \<and> c \<le> 122 then hc_goto 21 else hc_goto 0) else hc_goto 21) else hc_goto 21)"

definition hc_st118 :: "int \<Rightarrow> hc_jump" where
  "hc_st118 c =
     (if c = 10 then hc_goto 113 else if c = 32 then hc_goto 114 else if c > 13 then (if 48 \<le> c \<and> c \<le> 57 then hc_tr157
      else hc_goto 0) else if c \<ge> 9 then hc_goto 114 else hc_goto 0)"

definition hc_st119 :: "int \<Rightarrow> hc_jump" where
  "hc_st119 c =
     (if c = 10 then hc_tr158 else if c = 13 then hc_tr159 else if 48 \<le> c \<and> c \<le> 57 then hc_goto 119 else hc_goto 23)"

definition hc_st120 :: "int \<Rightarrow> hc_jump" where
  "hc_st120 c =
     (hc_goto 0)"

definition hc_st121 :: "int \<Rightarrow> hc_jump" where
  "hc_st121 c =
     (if c = 32 then hc_goto 63 else if c = 67 then hc_tr104 else if c = 99 then hc_tr104 else if 9 \<le> c \<and> c \<le> 13 then hc_goto 63
      else hc_goto 0)"

definition hc_st122 :: "int \<Rightarrow> hc_jump" where
  "hc_st122 c =
     (if c = 32 then hc_goto 37 else if c = 67 then hc_goto 38 else if c = 99 then hc_goto 38 else if 9 \<le> c \<and> c \<le> 13 then hc_goto 37
      else hc_goto 0)"

definition hc_st123 :: "int \<Rightarrow> hc_jump" where
  "hc_st123 c =
     (if c = 32 then hc_goto 114 else if c > 13 then (if 48 \<le> c \<and> c \<le> 57 then hc_tr157 else hc_goto 0)
      else if c \<ge> 9 then hc_goto 114 else hc_goto 0)"

definition hc_states :: "(int \<Rightarrow> hc_jump) list" where
  "hc_states = [hc_st1, hc_st2, hc_st3, hc_st4, hc_st5, hc_st6, hc_st7, hc_st8, hc_st9, hc_st10, hc_st11, hc_st12, hc_st13, hc_st14, hc_st15, 
     hc_st16, hc_st17, hc_st18, hc_st19, hc_st20, hc_st21, hc_st22, hc_st23, hc_st24, hc_st25, hc_st26, hc_st27, hc_st28, hc_st29, 
     hc_st30, hc_st31, hc_st32, hc_st33, hc_st34, hc_st35, hc_st36, hc_st37, hc_st38, hc_st39, hc_st40, hc_st41, hc_st42, hc_st43, 
     hc_st44, hc_st45, hc_st46, hc_st47, hc_st48, hc_st49, hc_st50, hc_st51, hc_st52, hc_st53, hc_st54, hc_st55, hc_st56, hc_st57, 
     hc_st58, hc_st59, hc_st60, hc_st61, hc_st62, hc_st63, hc_st64, hc_st65, hc_st66, hc_st67, hc_st68, hc_st69, hc_st70, hc_st71, 
     hc_st72, hc_st73, hc_st74, hc_st75, hc_st76, hc_st77, hc_st78, hc_st79, hc_st80, hc_st81, hc_st82, hc_st83, hc_st84, hc_st85, 
     hc_st86, hc_st87, hc_st88, hc_st89, hc_st90, hc_st91, hc_st92, hc_st93, hc_st94, hc_st95, hc_st96, hc_st97, hc_st98, hc_st99, 
     hc_st100, hc_st101, hc_st102, hc_st103, hc_st104, hc_st105, hc_st106, hc_st107, hc_st108, hc_st109, hc_st110, hc_st111, hc_st112, 
     hc_st113, hc_st114, hc_st115, hc_st116, hc_st117, hc_st118, hc_st119, hc_st120, hc_st121, hc_st122, hc_st123]"

section \<open>Execution\<close>

fun hc_action :: "string \<Rightarrow> nat \<Rightarrow> hc_act \<Rightarrow> httpclient_parser \<times> Callback list \<Rightarrow> httpclient_parser \<times> Callback list" where
  "hc_action buffer p HC_Mark (h, cbs) = (h\<lparr>hc_mark := p\<rparr>, cbs)"
| "hc_action buffer p HC_Start_field (h, cbs) = (h\<lparr>hc_field_start := p\<rparr>, cbs)"
| "hc_action buffer p HC_Write_field (h, cbs) = (h\<lparr>hc_field_len := size_sub p (hc_field_start h)\<rparr>, cbs)"
| "hc_action buffer p HC_Content_len (h, cbs) = (h\<lparr>hc_content_len := to_int32 (strtol (drop (hc_mark h) buffer) 10)\<rparr>, cbs)"
| "hc_action buffer p HC_Close (h, cbs) = (h\<lparr>hc_close := True\<rparr>, cbs)"
| "hc_action buffer p HC_Write_value (h, cbs) =
     (h, cbs @ [FieldCb (drop (hc_field_start h) buffer) (hc_field_len h) (drop (hc_mark h) buffer) (size_sub p (hc_mark h))])"
| "hc_action buffer p HC_Reason (h, cbs) = (h, cbs @ [ElementCb reason_phrase (drop (hc_mark h) buffer) (size_sub p (hc_mark h))])"
| "hc_action buffer p HC_Status (h, cbs) =
     (h\<lparr>hc_status := to_int32 (strtol (drop (hc_mark h) buffer) 10)\<rparr>, cbs @ [ElementCb status_code (drop (hc_mark h) buffer) (size_sub p (hc_mark h))])"
| "hc_action buffer p HC_Version (h, cbs) = (h, cbs @ [ElementCb http_version (drop (hc_mark h) buffer) (size_sub p (hc_mark h))])"
| "hc_action buffer p HC_Chunk_size (h, cbs) =
     (let n = to_int32 (strtol (drop (hc_mark h) buffer) 16)
      in (h\<lparr>hc_chunked := True, hc_content_len := n, hc_chunks_done := n \<le> 0\<rparr>,
          cbs @ [ElementCb (if n \<le> 0 then last_chunk else chunk_size) (drop (hc_mark h) buffer) (size_sub p (hc_mark h))]))"
| "hc_action buffer p HC_Chunked (h, cbs) = (h\<lparr>hc_chunked := True\<rparr>, cbs)"
| "hc_action buffer p HC_Done (h, cbs) =
     (h\<lparr>hc_body_start := p + 1\<rparr>, cbs @ [ElementCb header_done (drop (p + 1) buffer) (length buffer - p - 1)])"

definition hc_case :: "nat \<Rightarrow> (int \<Rightarrow> hc_jump) option" where
  "hc_case = case_of hc_states"

definition hc_run :: "string \<Rightarrow> nat \<Rightarrow> string \<Rightarrow> nat \<Rightarrow> httpclient_parser \<times> Callback list \<Rightarrow> nat \<times> nat \<times> httpclient_parser \<times> Callback list" where
  "hc_run buffer = ragel_run hc_case (hc_action buffer) (\<lambda>a. a = HC_Done)"

datatype hc_error = HcAssert

definition httpclient_parser_has_error :: "httpclient_parser \<Rightarrow> bool" where
  "httpclient_parser_has_error h \<longleftrightarrow> hc_cs h = 0"

definition httpclient_parser_is_finished :: "httpclient_parser \<Rightarrow> bool" where
  "httpclient_parser_is_finished h \<longleftrightarrow> hc_cs h = 120"

definition httpclient_parser_finish :: "httpclient_parser \<Rightarrow> int" where
  "httpclient_parser_finish h = (if httpclient_parser_has_error h then - 1 else if httpclient_parser_is_finished h then 1 else 0)"

definition httpclient_parser_execute :: "httpclient_parser \<Rightarrow> string \<Rightarrow> nat \<Rightarrow> hc_error + int \<times> Callback list \<times> httpclient_parser" where
  "httpclient_parser_execute h0 buffer off =
     (let len = length buffer; h = h0\<lparr>hc_nread := 0, hc_mark := 0, hc_field_len := 0, hc_field_start := 0\<rparr> in
      if len < off \<or> int (len - off) \<noteq> to_int32 (int len) - to_int32 (int off) then Inl HcAssert
      else let (p, cs, h1, cbs) = hc_run buffer off (drop off buffer) (hc_cs h) (h, []);
               h2 = h1\<lparr>hc_cs := cs, hc_nread := hc_nread h1 + (p - off)\<rparr>
           in if \<not> (p \<le> len \<and> hc_nread h2 \<le> len \<and> hc_body_start h2 \<le> len) then Inl HcAssert
              else if hc_mark h2 < len \<and> hc_field_len h2 \<le> len \<and> hc_field_start h2 < len then Inr (to_int32 (int (hc_nread h2)), cbs, h2)
              else Inr (- 1, cbs, h2))"

end
