(* ===== verification/Sylar_ResponseParser.thy ===== *)
theory Sylar_ResponseParser
  imports Sylar_HttpClient
begin

text \<open>
  \<^verbatim>\<open>HttpResponseParser\<close> (\<^verbatim>\<open>src/sylar/http/http_parser.cpp\<close>) over the machine of \<^verbatim>\<open>Sylar_HttpClient\<close>: the callbacks that build the
  response, what the labels of the machine keep, and what a call does on chunk headers and on printed responses.
\<close>

section \<open>The parser object\<close>

record response_parser =
  sp_parser :: httpclient_parser
  sp_data :: http_response
  sp_error :: int

definition on_response_version :: "string \<Rightarrow> nat \<Rightarrow> response_parser \<Rightarrow> response_parser" where
  "on_response_version at n p =
     (case parse_version at n of
        None \<Rightarrow> p\<lparr>sp_error := 1001\<rparr>
      | Some v \<Rightarrow> p\<lparr>sp_data := (sp_data p)\<lparr>r_version := v\<rparr>\<rparr>)"

definition on_response_http_field :: "string \<Rightarrow> nat \<Rightarrow> string \<Rightarrow> nat \<Rightarrow> response_parser \<Rightarrow> response_parser" where
  "on_response_http_field field flen val vlen p =
     (if flen = 0 then p else p\<lparr>sp_data := r_setHeader (sp_data p) (take flen field) (take vlen val)\<rparr>)"

fun response_callback :: "Callback \<Rightarrow> response_parser \<Rightarrow> response_parser" where
  "response_callback (ElementCb reason_phrase at n) p = p\<lparr>sp_data := (sp_data p)\<lparr>r_reason := take n at\<rparr>\<rparr>"
| "response_callback (ElementCb status_code at n) p = p\<lparr>sp_data := (sp_data p)\<lparr>r_status := atoi at\<rparr>\<rparr>"
| "response_callback (ElementCb http_version at n) p = on_response_version at n p"
| "response_callback (FieldCb f n v m) p = on_response_http_field f n v m p"
| "response_callback (ElementCb _ at n) p = p"

definition HttpResponseParser :: "httpclient_parser \<Rightarrow> response_parser" where
  "HttpResponseParser blank = \<lparr>sp_parser = httpclient_parser_init blank, sp_data = HttpResponse 0x11 True, sp_error = 0\<rparr>"

text \<open>
  The result is the number of bytes consumed, and the rest of the buffer is moved to its front. The machine's result -1 becomes the
  largest \<^verbatim>\<open>size_t\<close>, with which \<^verbatim>\<open>memmove\<close> would leave the buffer.
\<close>

datatype response_error = MachineAssert | MoveOutside

definition response_execute :: "bool \<Rightarrow> string \<Rightarrow> response_parser \<Rightarrow> response_error + nat \<times> string \<times> response_parser" where
  "response_execute chunck data p =
     (let st0 = (if chunck then httpclient_parser_init (sp_parser p) else sp_parser p) in
      case httpclient_parser_execute st0 data 0 of
        Inl _ \<Rightarrow> Inl MachineAssert
      | Inr (r, cbs, st) \<Rightarrow>
          (let offset = nat (r mod 2 ^ 64) in
           if length data < offset then Inl MoveOutside
           else Inr (offset, drop offset data, (fold response_callback cbs p)\<lparr>sp_parser := st\<rparr>)))"

definition response_isFinished :: "response_parser \<Rightarrow> bool" where
  "response_isFinished p \<longleftrightarrow> httpclient_parser_finish (sp_parser p) \<noteq> 0"

definition response_hasError :: "response_parser \<Rightarrow> bool" where
  "response_hasError p \<longleftrightarrow> sp_error p \<noteq> 0 \<or> httpclient_parser_has_error (sp_parser p)"

definition response_getContentLength :: "(string \<Rightarrow> u64 option) \<Rightarrow> response_parser \<Rightarrow> u64" where
  "response_getContentLength lexical_cast p = getAs lexical_cast (r_headers (sp_data p)) ''content-length'' 0"

section \<open>What the labels keep\<close>

text \<open>A label marks the end of the header exactly when it leaves for one of the final states.\<close>

definition hc_jump_ok :: "hc_jump \<Rightarrow> bool" where
  "hc_jump_ok j \<longleftrightarrow> snd j \<le> 123 \<and> (HC_Done \<in> set (fst j) \<longleftrightarrow> 120 \<le> snd j) \<and> (120 \<le> snd j \<longrightarrow> last (fst j) = HC_Done)"

lemma hc_jump_ok_if: "hc_jump_ok x \<Longrightarrow> hc_jump_ok y \<Longrightarrow> hc_jump_ok (if b then x else y)"
  by simp

lemmas hc_tr_defs = hc_tr0_def hc_tr3_def hc_tr7_def hc_tr9_def hc_tr15_def hc_tr74_def hc_tr4_def hc_tr10_def hc_tr16_def hc_tr75_def
  hc_tr6_def hc_tr12_def hc_tr18_def hc_tr8_def hc_tr13_def hc_tr14_def hc_tr2_def hc_tr26_def hc_tr27_def hc_tr28_def
  hc_tr30_def hc_tr45_def hc_tr32_def hc_tr42_def hc_tr111_def hc_tr113_def hc_tr158_def hc_tr35_def hc_tr76_def
  hc_tr41_def hc_tr39_def hc_tr40_def hc_tr46_def hc_tr33_def hc_tr43_def hc_tr159_def hc_tr36_def hc_tr77_def
  hc_tr59_def hc_tr58_def hc_tr60_def hc_tr136_def hc_tr37_def hc_tr78_def hc_tr96_def hc_tr95_def hc_tr97_def
  hc_tr104_def hc_tr112_def hc_tr101_def hc_tr103_def hc_tr98_def hc_tr99_def hc_tr137_def hc_tr64_def hc_tr66_def
  hc_tr61_def hc_tr62_def hc_tr149_def hc_tr148_def hc_tr150_def hc_tr157_def hc_tr154_def hc_tr156_def hc_tr151_def
  hc_tr152_def
lemmas hc_st_defs = hc_st1_def hc_st2_def hc_st3_def hc_st4_def hc_st5_def hc_st6_def hc_st7_def hc_st8_def hc_st9_def hc_st10_def
  hc_st11_def hc_st12_def hc_st13_def hc_st14_def hc_st15_def hc_st16_def hc_st17_def hc_st18_def hc_st19_def hc_st20_def
  hc_st21_def hc_st22_def hc_st23_def hc_st24_def hc_st25_def hc_st26_def hc_st27_def hc_st28_def hc_st29_def hc_st30_def
  hc_st31_def hc_st32_def hc_st33_def hc_st34_def hc_st35_def hc_st36_def hc_st37_def hc_st38_def hc_st39_def hc_st40_def
  hc_st41_def hc_st42_def hc_st43_def hc_st44_def hc_st45_def hc_st46_def hc_st47_def hc_st48_def hc_st49_def hc_st50_def
  hc_st51_def hc_st52_def hc_st53_def hc_st54_def hc_st55_def hc_st56_def hc_st57_def hc_st58_def hc_st59_def hc_st60_def
  hc_st61_def hc_st62_def hc_st63_def hc_st64_def hc_st65_def hc_st66_def hc_st67_def hc_st68_def hc_st69_def hc_st70_def
  hc_st71_def hc_st72_def hc_st73_def hc_st74_def hc_st75_def hc_st76_def hc_st77_def hc_st78_def hc_st79_def hc_st80_def
  hc_st81_def hc_st82_def hc_st83_def hc_st84_def hc_st85_def hc_st86_def hc_st87_def hc_st88_def hc_st89_def hc_st90_def
  hc_st91_def hc_st92_def hc_st93_def hc_st94_def hc_st95_def hc_st96_def hc_st97_def hc_st98_def hc_st99_def
  hc_st100_def hc_st101_def hc_st102_def hc_st103_def hc_st104_def hc_st105_def hc_st106_def hc_st107_def hc_st108_def
  hc_st109_def hc_st110_def hc_st111_def hc_st112_def hc_st113_def hc_st114_def hc_st115_def hc_st116_def hc_st117_def
  hc_st118_def hc_st119_def hc_st120_def hc_st121_def hc_st122_def hc_st123_def

lemma hc_states_ok: "list_all (\<lambda>st. \<forall>c. hc_jump_ok (st c)) hc_states"
  unfolding hc_states_def list.pred_inject hc_st_defs
  by (intro conjI allI TrueI hc_jump_ok_if; simp add: hc_tr_defs hc_jump_ok_def)

lemma hc_states_length: "length hc_states = 123"
  by (simp add: hc_states_def)

lemma case_of_all: "list_all P sts \<Longrightarrow> case_of sts cs = Some st \<Longrightarrow> P st"
  by (auto simp: case_of_def list_all_length split: if_splits)

lemma hc_case_ok: "hc_case cs = Some st \<Longrightarrow> hc_jump_ok (st c)"
  using case_of_all [OF hc_states_ok] by (auto simp: hc_case_def)

section \<open>Memory safety\<close>

text \<open>Values and elements lie in the buffer. A field's name starts in the buffer and is no longer than it.\<close>

fun hc_cb_ok :: "nat \<Rightarrow> Callback \<Rightarrow> bool" where
  "hc_cb_ok N (ElementCb e at n) \<longleftrightarrow> n \<le> length at \<and> length at \<le> N"
| "hc_cb_ok N (FieldCb f n v m) \<longleftrightarrow> f \<noteq> [] \<and> n \<le> N \<and> m \<le> length v"

definition hc_marks :: "string \<Rightarrow> nat \<Rightarrow> httpclient_parser \<times> Callback list \<Rightarrow> bool" where
  "hc_marks buffer p s \<longleftrightarrow>
     (let h = fst s in hc_mark h \<le> p \<and> hc_mark h < length buffer \<and> hc_field_start h \<le> p \<and> hc_field_start h < length buffer
      \<and> hc_field_len h \<le> p \<and> hc_body_start h \<le> length buffer \<and> hc_nread h = 0 \<and> (\<forall>cb \<in> set (snd s). hc_cb_ok (length buffer) cb))"

lemma hc_action_marks:
  assumes "hc_marks buffer p s" "p < length buffer"
  shows "hc_marks buffer p (hc_action buffer p a s)"
proof (cases s)
  case (Pair h cbs)
  then show ?thesis using assms by (cases a) (auto simp: hc_marks_def Let_def)
qed

lemma hc_actions_marks:
  "hc_marks buffer p s \<Longrightarrow> p < length buffer \<Longrightarrow> hc_marks buffer p (fold (hc_action buffer p) as s)"
  by (induction as arbitrary: s) (auto simp: hc_action_marks)

lemma hc_actions_body:
  "HC_Done \<notin> set as \<Longrightarrow> hc_body_start (fst (fold (hc_action buffer p) as s)) = hc_body_start (fst s)"
proof (induction as arbitrary: s)
  case (Cons a as)
  then show ?case by (cases s; cases a) (auto simp: Let_def)
qed simp

definition hc_inv :: "string \<Rightarrow> nat \<Rightarrow> nat \<Rightarrow> httpclient_parser \<times> Callback list \<Rightarrow> bool" where
  "hc_inv buffer p cs s \<longleftrightarrow> hc_marks buffer p s \<and> cs < 120 \<and> hc_body_start (fst s) = 0"

definition hc_final :: "string \<Rightarrow> nat \<Rightarrow> nat \<Rightarrow> httpclient_parser \<times> Callback list \<Rightarrow> bool" where
  "hc_final buffer p cs s \<longleftrightarrow> hc_marks buffer p s \<and> cs \<le> 123 \<and> (if cs < 120 then hc_body_start (fst s) = 0 else hc_body_start (fst s) = p)"

lemma hc_marks_mono: "hc_marks buffer p s \<Longrightarrow> p \<le> q \<Longrightarrow> hc_marks buffer q s"
  by (auto simp: hc_marks_def Let_def)

interpretation hc: ragel_machine hc_case "hc_action buffer" "\<lambda>a. a = HC_Done" "hc_inv buffer" "hc_final buffer" "length buffer" for buffer
proof
  fix p cs s st c acts t
  assume a: "hc_inv buffer p cs s" "p < length buffer" "hc_case cs = Some st" "st c = (acts, t)" "t \<noteq> 0"
  have ok: "hc_jump_ok (acts, t)" using hc_case_ok [OF a(3), of c] a(4) by simp
  have m: "hc_marks buffer (p + 1) (fold (hc_action buffer p) acts s)"
    using a(1, 2) hc_actions_marks [of buffer p s acts] by (auto simp: hc_inv_def intro: hc_marks_mono)
  show "hc_inv buffer (p + 1) t (fold (hc_action buffer p) acts s)" if "\<not> list_ex (\<lambda>a. a = HC_Done) acts"
    using a(1) ok m that hc_actions_body [of acts buffer p s] by (auto simp: hc_inv_def hc_jump_ok_def list_ex_iff)
  show "hc_final buffer (p + 1) t (fold (hc_action buffer p) acts s)" if d: "list_ex (\<lambda>a. a = HC_Done) acts"
  proof -
    obtain as where as: "acts = as @ [HC_Done]"
    proof
      have "acts \<noteq> []" "last acts = HC_Done" using ok d by (auto simp: hc_jump_ok_def list_ex_iff)
      then show "acts = butlast acts @ [HC_Done]" using append_butlast_last_id [of acts] by simp
    qed
    have "hc_body_start (fst (fold (hc_action buffer p) acts s)) = p + 1" unfolding as by (cases "fold (hc_action buffer p) as s") simp
    then show ?thesis using ok m d by (auto simp: hc_final_def hc_jump_ok_def list_ex_iff)
  qed
qed (auto simp: hc_inv_def hc_final_def)

text \<open>An unfinished parser has not located a body yet.\<close>

definition hc_parser_ok :: "httpclient_parser \<Rightarrow> bool" where
  "hc_parser_ok h \<longleftrightarrow> hc_cs h < 120 \<and> hc_body_start h = 0"

lemma hc_init_ok: "hc_parser_ok (httpclient_parser_init h)" "hc_cs (httpclient_parser_init h) = 1"
  by (simp_all add: hc_parser_ok_def httpclient_parser_init_def)

lemma hc_execute_safe:
  assumes "hc_parser_ok h" "data \<noteq> []" "length data < 2 ^ 31"
  shows "\<exists>n cbs h'. httpclient_parser_execute h data 0 = Inr (int n, cbs, h') \<and> n \<le> length data \<and> (\<forall>cb \<in> set cbs. hc_cb_ok (length data) cb)
    \<and> (if hc_cs h' < 120 then hc_parser_ok h' else hc_cs h' \<le> 123 \<and> hc_body_start h' = n)"
proof -
  let ?h = "h\<lparr>hc_nread := 0, hc_mark := 0, hc_field_len := 0, hc_field_start := 0\<rparr>"
  obtain p cs h1 cbs where r: "hc_run data 0 data (hc_cs h) (?h, []) = (p, cs, h1, cbs)" by (metis prod_cases4)
  have "hc_inv data 0 (hc_cs h) (?h, [])" using assms(1, 2) by (auto simp: hc_inv_def hc_marks_def hc_parser_ok_def)
  from hc.run_final [OF this, of data] r have f: "hc_final data p cs (h1, cbs)" "p \<le> length data" by (auto simp: hc_run_def)
  have "to_int32 (int p) = int p" "to_int32 (int (length data)) = int (length data)" "to_int32 0 = 0"
    using f(2) assms(3) by (auto intro!: to_int32_small)
  then show ?thesis using r f assms(2)
    by (auto simp: httpclient_parser_execute_def hc_final_def hc_marks_def hc_parser_ok_def Let_def)
qed

section \<open>Steps of the machine\<close>

lemma hc_cases:
  "hc_case 1 = Some hc_st1" "hc_case 2 = Some hc_st2" "hc_case 3 = Some hc_st3" "hc_case 8 = Some hc_st8" "hc_case 9 = Some hc_st9"
  "hc_case 10 = Some hc_st10" "hc_case 11 = Some hc_st11" "hc_case 12 = Some hc_st12" "hc_case 13 = Some hc_st13" "hc_case 14 = Some hc_st14"
  "hc_case 15 = Some hc_st15" "hc_case 16 = Some hc_st16" "hc_case 17 = Some hc_st17" "hc_case 18 = Some hc_st18" "hc_case 19 = Some hc_st19"
  "hc_case 20 = Some hc_st20" "hc_case 21 = Some hc_st21" "hc_case 22 = Some hc_st22" "hc_case 23 = Some hc_st23" "hc_case 24 = Some hc_st24"
  "hc_case 25 = Some hc_st25" "hc_case 26 = Some hc_st26" "hc_case 27 = Some hc_st27" "hc_case 28 = Some hc_st28" "hc_case 29 = Some hc_st29"
  "hc_case 30 = Some hc_st30" "hc_case 31 = Some hc_st31" "hc_case 32 = Some hc_st32" "hc_case 33 = Some hc_st33" "hc_case 34 = Some hc_st34"
  "hc_case 35 = Some hc_st35" "hc_case 43 = Some hc_st43" "hc_case 44 = Some hc_st44" "hc_case 45 = Some hc_st45" "hc_case 46 = Some hc_st46"
  "hc_case 47 = Some hc_st47" "hc_case 48 = Some hc_st48" "hc_case 49 = Some hc_st49" "hc_case 50 = Some hc_st50" "hc_case 51 = Some hc_st51"
  "hc_case 52 = Some hc_st52" "hc_case 53 = Some hc_st53" "hc_case 54 = Some hc_st54" "hc_case 55 = Some hc_st55" "hc_case 56 = Some hc_st56"
  "hc_case 57 = Some hc_st57" "hc_case 58 = Some hc_st58" "hc_case 59 = Some hc_st59" "hc_case 60 = Some hc_st60" "hc_case 88 = Some hc_st88"
  "hc_case 96 = Some hc_st96" "hc_case 97 = Some hc_st97" "hc_case 98 = Some hc_st98" "hc_case 99 = Some hc_st99"
  "hc_case 100 = Some hc_st100" "hc_case 101 = Some hc_st101" "hc_case 102 = Some hc_st102" "hc_case 103 = Some hc_st103"
  "hc_case 104 = Some hc_st104" "hc_case 105 = Some hc_st105" "hc_case 106 = Some hc_st106" "hc_case 107 = Some hc_st107"
  "hc_case 108 = Some hc_st108" "hc_case 109 = Some hc_st109" "hc_case 110 = Some hc_st110" "hc_case 111 = Some hc_st111"
  "hc_case 112 = Some hc_st112" "hc_case 119 = Some hc_st119"
  by (simp only: hc_case_def case_of_def hc_states_length; simp; simp only: hc_states_def nth_numeral)+

text \<open>The states in which a name may still become that of a known field, with what has been read in lower case.\<close>

definition name_trie :: "(nat \<times> string) list" where
  "name_trie =
    [(25, ''c''), (26, ''co''), (27, ''con''), (28, ''conn''), (29, ''conne''),
     (30, ''connec''), (31, ''connect''), (32, ''connecti''), (33, ''connectio''), (34, ''connection''),
     (44, ''t''), (45, ''tr''), (46, ''tra''), (47, ''tran''), (48, ''trans''),
     (49, ''transf''), (50, ''transfe''), (51, ''transfer''), (52, ''transfer-''), (53, ''transfer-e''),
     (54, ''transfer-en''), (55, ''transfer-enc''), (56, ''transfer-enco''), (57, ''transfer-encod''), (58, ''transfer-encodi''),
     (59, ''transfer-encodin''), (60, ''transfer-encoding''), (101, ''cont''), (102, ''conte''), (103, ''conten''),
     (104, ''content''), (105, ''content-''), (106, ''content-l''), (107, ''content-le''), (108, ''content-len''),
     (109, ''content-leng''), (110, ''content-lengt''), (111, ''content-length'')]"

definition token_code :: "int \<Rightarrow> bool" where
  "token_code k \<longleftrightarrow> k = 33 \<or> 35 \<le> k \<and> k \<le> 39 \<or> k = 42 \<or> k = 43 \<or> k = 45 \<or> k = 46 \<or> 48 \<le> k \<and> k \<le> 57
     \<or> 65 \<le> k \<and> k \<le> 90 \<or> 94 \<le> k \<and> k \<le> 122 \<or> k = 124 \<or> k = 126"

lemma name_jumps:
  assumes "token_code k"
  shows
  "hc_st25 k = ([], if (k = 79 \<or> k = 111) then 26 else 21)"
  "hc_st26 k = ([], if (k = 78 \<or> k = 110) then 27 else 21)"
  "hc_st27 k = ([], if (k = 78 \<or> k = 110) then 28 else if (k = 84 \<or> k = 116) then 101 else 21)"
  "hc_st28 k = ([], if (k = 69 \<or> k = 101) then 29 else 21)"
  "hc_st29 k = ([], if (k = 67 \<or> k = 99) then 30 else 21)"
  "hc_st30 k = ([], if (k = 84 \<or> k = 116) then 31 else 21)"
  "hc_st31 k = ([], if (k = 73 \<or> k = 105) then 32 else 21)"
  "hc_st32 k = ([], if (k = 79 \<or> k = 111) then 33 else 21)"
  "hc_st33 k = ([], if (k = 78 \<or> k = 110) then 34 else 21)"
  "hc_st34 k = ([], 21)"
  "hc_st44 k = ([], if (k = 82 \<or> k = 114) then 45 else 21)"
  "hc_st45 k = ([], if (k = 65 \<or> k = 97) then 46 else 21)"
  "hc_st46 k = ([], if (k = 78 \<or> k = 110) then 47 else 21)"
  "hc_st47 k = ([], if (k = 83 \<or> k = 115) then 48 else 21)"
  "hc_st48 k = ([], if (k = 70 \<or> k = 102) then 49 else 21)"
  "hc_st49 k = ([], if (k = 69 \<or> k = 101) then 50 else 21)"
  "hc_st50 k = ([], if (k = 82 \<or> k = 114) then 51 else 21)"
  "hc_st51 k = ([], if k = 45 then 52 else 21)"
  "hc_st52 k = ([], if (k = 69 \<or> k = 101) then 53 else 21)"
  "hc_st53 k = ([], if (k = 78 \<or> k = 110) then 54 else 21)"
  "hc_st54 k = ([], if (k = 67 \<or> k = 99) then 55 else 21)"
  "hc_st55 k = ([], if (k = 79 \<or> k = 111) then 56 else 21)"
  "hc_st56 k = ([], if (k = 68 \<or> k = 100) then 57 else 21)"
  "hc_st57 k = ([], if (k = 73 \<or> k = 105) then 58 else 21)"
  "hc_st58 k = ([], if (k = 78 \<or> k = 110) then 59 else 21)"
  "hc_st59 k = ([], if (k = 71 \<or> k = 103) then 60 else 21)"
  "hc_st60 k = ([], 21)"
  "hc_st101 k = ([], if (k = 69 \<or> k = 101) then 102 else 21)"
  "hc_st102 k = ([], if (k = 78 \<or> k = 110) then 103 else 21)"
  "hc_st103 k = ([], if (k = 84 \<or> k = 116) then 104 else 21)"
  "hc_st104 k = ([], if k = 45 then 105 else 21)"
  "hc_st105 k = ([], if (k = 76 \<or> k = 108) then 106 else 21)"
  "hc_st106 k = ([], if (k = 69 \<or> k = 101) then 107 else 21)"
  "hc_st107 k = ([], if (k = 78 \<or> k = 110) then 108 else 21)"
  "hc_st108 k = ([], if (k = 71 \<or> k = 103) then 109 else 21)"
  "hc_st109 k = ([], if (k = 84 \<or> k = 116) then 110 else 21)"
  "hc_st110 k = ([], if (k = 72 \<or> k = 104) then 111 else 21)"
  "hc_st111 k = ([], 21)"
  "hc_st21 k = ([], 21)"
  using assms unfolding token_code_def hc_st25_def hc_st26_def hc_st27_def hc_st28_def hc_st29_def hc_st30_def hc_st31_def hc_st32_def hc_st33_def hc_st34_def hc_st44_def hc_st45_def hc_st46_def hc_st47_def hc_st48_def hc_st49_def hc_st50_def hc_st51_def hc_st52_def hc_st53_def hc_st54_def hc_st55_def hc_st56_def hc_st57_def hc_st58_def hc_st59_def hc_st60_def hc_st101_def hc_st102_def hc_st103_def hc_st104_def hc_st105_def hc_st106_def hc_st107_def hc_st108_def hc_st109_def hc_st110_def hc_st111_def hc_st21_def
  by (elim disjE conjE; auto)+

lemma token_char_code: "token_char ch \<longleftrightarrow> token_code (signed_char ch)"
  by (simp add: token_char_def token_code_def Let_def)

lemma letter_code: "(signed_char ch = int n) \<longleftrightarrow> ch = char_of n" if "n < 128"
  using that signed_ascii [of "char_of n"] signed_char_eq [of ch "char_of n"] by (simp add: of_char_of)

text \<open>The state behind a character of a name.\<close>

definition named :: "nat \<Rightarrow> string \<Rightarrow> bool" where
  "named s w \<longleftrightarrow> s = 21 \<or> (s, map tolower w) \<in> set name_trie"

lemma signed_char_nonneg: "0 \<le> signed_char ch \<Longrightarrow> of_char ch < (128 :: nat)"
proof (rule ccontr)
  assume "0 \<le> signed_char ch" "\<not> of_char ch < (128 :: nat)"
  then have "128 \<le> (of_char ch :: int)" using of_nat_of_char [of ch, where 'a = int] by simp
  moreover have "(of_char ch :: int) < 256"
    using nat_of_char_less_256 [of ch] unfolding of_nat_of_char [of ch, where 'a = int, symmetric] by linarith
  ultimately have "(of_char ch :: int) div 128 = 1" "(of_char ch :: int) < 256" by auto
  then have "signed_char ch < 0" unfolding signed_char_def
    by (simp add: signed_take_bit_eq_take_bit_minus bit_iff_odd take_bit_eq_mod)
  then show False using \<open>0 \<le> signed_char ch\<close> by simp
qed

lemma tolower_code:
  assumes "token_code (signed_char ch)"
  shows "(of_char (tolower ch) :: nat) = nat (if 65 \<le> signed_char ch \<and> signed_char ch \<le> 90 then signed_char ch + 32 else signed_char ch)"
proof -
  have "0 \<le> signed_char ch" using assms by (auto simp: token_code_def)
  then show ?thesis using signed_ascii [OF signed_char_nonneg, of ch] by (auto simp: tolower_def Let_def of_char_of)
qed

lemma tolower_eq:
  assumes "token_code (signed_char ch)" "signed_char ch = int (of_char l) - 32 \<or> signed_char ch = int (of_char l)" "97 \<le> (of_char l :: nat)" "of_char l \<le> (122 :: nat)"
  shows "tolower ch = l"
proof -
  have "(of_char (tolower ch) :: nat) = of_char l" using tolower_code [OF assms(1)] assms(2-4) by auto
  then show ?thesis by simp
qed

lemma name_step:
  assumes "named s w" "token_char ch"
  shows "\<exists>st t. hc_case s = Some st \<and> st (signed_char ch) = ([], t) \<and> t \<noteq> 0 \<and> named t (w @ [ch])"
proof -
  have c: "token_code (signed_char ch)" using assms(2) by (simp add: token_char_code)
  have dash: "tolower ch = CHR ''-''" if "signed_char ch = 45"
  proof -
    have "signed_char ch = signed_char CHR ''-''" using that by (simp add: signed_ascii)
    then show ?thesis by (simp add: signed_char_eq tolower_def)
  qed
  note low = tolower_eq [OF c] dash
  show ?thesis
  proof (cases "s = 21")
    case True
    then show ?thesis using name_jumps(39) [OF c] by (simp add: hc_cases named_def)
  next
    case False
    then have "(s, map tolower w) \<in> set name_trie" using assms(1) by (simp add: named_def)
    then show ?thesis unfolding name_trie_def list.set insert_iff empty_iff prod.inject
      by (elim disjE conjE) (simp_all add: hc_cases name_jumps [OF c] named_def name_trie_def low)
  qed
qed

lemma name_colon:
  assumes "named s w"
  shows "\<exists>st. hc_case s = Some st \<and> st 58 = ([HC_Write_field], if s = 34 then 35 else if s = 60 then 61 else if s = 111 then 112 else 22)"
proof (cases "s = 21")
  case True
  then show ?thesis by (simp add: hc_cases hc_st21_def hc_tr39_def)
next
  case False
  then have "(s, map tolower w) \<in> set name_trie" using assms by (simp add: named_def)
  then show ?thesis unfolding name_trie_def list.set insert_iff empty_iff prod.inject
    by (elim disjE conjE) (simp_all add: hc_cases hc_st_defs hc_tr39_def hc_tr58_def hc_tr95_def hc_tr148_def)
qed

lemma named_known: "named s w \<Longrightarrow> s = 60 \<Longrightarrow> map tolower w = ''transfer-encoding''"
  "named s w \<Longrightarrow> s = 34 \<Longrightarrow> map tolower w = ''connection''" "named s w \<Longrightarrow> s = 111 \<Longrightarrow> map tolower w = ''content-length''"
  by (auto simp: named_def name_trie_def)

text \<open>Names are read in front of a line; behind \<^verbatim>\<open>connection: close\<close> that is state 43.\<close>

lemma name_start:
  assumes "token_char ch" "cs = 20 \<or> cs = 43"
  shows "\<exists>st as t. hc_case cs = Some st \<and> st (signed_char ch) = (as @ [HC_Start_field], t) \<and> (as = [] \<or> as = [HC_Close]) \<and> t \<noteq> 0 \<and> named t [ch]"
proof -
  have c: "token_code (signed_char ch)" using assms(1) by (simp add: token_char_code)
  note low = tolower_eq [OF c]
  have "hc_st20 (signed_char ch) = ([HC_Start_field], if signed_char ch = 67 \<or> signed_char ch = 99 then 25
      else if signed_char ch = 84 \<or> signed_char ch = 116 then 44 else 21)"
    using c unfolding token_code_def hc_st20_def hc_tr35_def hc_tr36_def hc_tr37_def by (elim disjE conjE; auto)
  moreover have "hc_st43 (signed_char ch) = ([HC_Close, HC_Start_field], if signed_char ch = 67 \<or> signed_char ch = 99 then 25
      else if signed_char ch = 84 \<or> signed_char ch = 116 then 44 else 21)"
    using c unfolding token_code_def hc_st43_def hc_tr76_def hc_tr77_def hc_tr78_def by (elim disjE conjE; auto)
  moreover have "named (if signed_char ch = 67 \<or> signed_char ch = 99 then 25 else if signed_char ch = 84 \<or> signed_char ch = 116 then 44 else 21) [ch]"
    by (auto simp: named_def name_trie_def low)
  ultimately show ?thesis using assms(2) by (auto simp: hc_cases)
qed

definition line_char :: "char \<Rightarrow> bool" where
  "line_char ch \<longleftrightarrow> signed_char ch \<noteq> 10 \<and> signed_char ch \<noteq> 13"

definition value_blank :: "char \<Rightarrow> bool" where
  "value_blank ch \<longleftrightarrow> (let k = signed_char ch in k = 32 \<or> k = 9 \<or> k = 11 \<or> k = 12)"

definition value_states :: "nat list" where
  "value_states = [23, 96, 97, 98, 99, 100, 119]"

lemma signed_char_range: "- 128 \<le> signed_char ch" "signed_char ch < 128"
  using signed_take_bit_int_greater_eq_minus_exp [of 7 "of_char ch"] signed_take_bit_int_less_exp [of 7 "of_char ch"]
  by (simp_all add: signed_char_def)

lemma value_start_step:
  assumes "line_char ch" "cs = 22 \<or> cs = 35 \<or> cs = 112"
  shows "\<exists>st t. hc_case cs = Some st \<and> st (signed_char ch) = ([HC_Mark], t) \<and> t \<noteq> 0 \<and> (if value_blank ch then t = cs else t \<in> set value_states)"
proof -
  let ?k = "signed_char ch"
  have k: "?k \<noteq> 10" "?k \<noteq> 13" "- 128 \<le> ?k" "?k \<le> 127" using assms(1) signed_char_range [of ch] by (simp_all add: line_char_def)
  have "\<exists>t. hc_st22 ?k = ([HC_Mark], t) \<and> t \<noteq> 0 \<and> (if value_blank ch then t = 22 else t \<in> set value_states)"
    "\<exists>t. hc_st35 ?k = ([HC_Mark], t) \<and> t \<noteq> 0 \<and> (if value_blank ch then t = 35 else t \<in> set value_states)"
    "\<exists>t. hc_st112 ?k = ([HC_Mark], t) \<and> t \<noteq> 0 \<and> (if value_blank ch then t = 112 else t \<in> set value_states)"
    using k unfolding value_blank_def value_states_def hc_st22_def hc_st35_def hc_st112_def Let_def
    by (auto simp: hc_tr_defs)
  then show ?thesis using assms(2) by (elim disjE) (simp_all only: hc_cases option.inject simp_thms ex_simps)
qed

lemma value_step:
  assumes "line_char ch" "cs \<in> set value_states"
  shows "\<exists>st t. hc_case cs = Some st \<and> st (signed_char ch) = ([], t) \<and> t \<noteq> 0 \<and> t \<in> set value_states"
proof -
  let ?k = "signed_char ch"
  have k: "?k \<noteq> 10" "?k \<noteq> 13" using assms(1) by (simp_all add: line_char_def)
  have "cs = 23 \<or> cs = 96 \<or> cs = 97 \<or> cs = 98 \<or> cs = 99 \<or> cs = 100 \<or> cs = 119" using assms(2) by (auto simp: value_states_def)
  then show ?thesis
    by (elim disjE) (simp_all add: hc_cases k value_states_def hc_st23_def hc_st96_def hc_st97_def hc_st98_def hc_st99_def hc_st100_def hc_st119_def)
qed

lemma value_end:
  assumes "cs \<in> set value_states"
  shows "\<exists>st as t. hc_case cs = Some st \<and> st 13 = (as @ [HC_Write_value], t) \<and> (as = [] \<or> as = [HC_Content_len]) \<and> (t = 24 \<or> t = 88)"
proof -
  have "cs = 23 \<or> cs = 96 \<or> cs = 97 \<or> cs = 98 \<or> cs = 99 \<or> cs = 100 \<or> cs = 119" using assms by (auto simp: value_states_def)
  then show ?thesis
    by (elim disjE) (simp_all add: hc_cases hc_st23_def hc_st96_def hc_st97_def hc_st98_def hc_st99_def hc_st100_def hc_st119_def hc_tr_defs)
qed

lemma hc_step:
  assumes "hc_case cs = Some st" "st (signed_char ch) = (acts, t)" "t \<noteq> 0" "HC_Done \<notin> set acts"
  shows "hc_run buffer p (ch # rest) cs s = hc_run buffer (p + 1) rest t (fold (hc_action buffer p) acts s)"
  using assms by (auto simp: hc_run_def list_ex_iff)

text \<open>What the fields of a header leave alone.\<close>

definition kept :: "httpclient_parser \<Rightarrow> httpclient_parser \<Rightarrow> bool" where
  "kept h h' \<longleftrightarrow> hc_cs h' = hc_cs h \<and> hc_nread h' = hc_nread h \<and> hc_body_start h' = hc_body_start h \<and> hc_chunked h' = hc_chunked h"

lemma kept_refl [simp]: "kept h h"
  by (simp add: kept_def)

lemma kept_trans: "kept h h1 \<Longrightarrow> kept h1 h2 \<Longrightarrow> kept h h2"
  by (simp add: kept_def)

lemma kept_marks [simp]:
  "kept h (h1\<lparr>hc_mark := m\<rparr>) \<longleftrightarrow> kept h h1" "kept h (h1\<lparr>hc_field_start := m\<rparr>) \<longleftrightarrow> kept h h1" "kept h (h1\<lparr>hc_field_len := m\<rparr>) \<longleftrightarrow> kept h h1"
  "kept h (h1\<lparr>hc_close := b\<rparr>) \<longleftrightarrow> kept h h1" "kept h (h1\<lparr>hc_content_len := i\<rparr>) \<longleftrightarrow> kept h h1" "kept h (h1\<lparr>hc_status := i\<rparr>) \<longleftrightarrow> kept h h1"
  by (simp_all add: kept_def)

lemma run_name_rest:
  assumes "\<forall>ch \<in> set r. token_char ch" "named s w"
  shows "\<exists>t. named t (w @ r) \<and> hc_run buffer p (r @ ys) s h = hc_run buffer (p + length r) ys t h"
  using assms
proof (induction r arbitrary: s w p)
  case Nil
  then show ?case by auto
next
  case (Cons c r)
  obtain st t where t: "hc_case s = Some st" "st (signed_char c) = ([], t)" "t \<noteq> 0" "named t (w @ [c])"
    using name_step [OF Cons.prems(2), of c] Cons.prems(1) by auto
  from Cons.IH [OF _ t(4), of "p + 1"] Cons.prems(1) hc_step [OF t(1-3)] show ?case by auto
qed

definition known_name :: "string \<Rightarrow> string \<Rightarrow> bool" where
  "known_name k w \<longleftrightarrow> map tolower k = w"

lemma run_name:
  assumes "k \<noteq> []" "\<forall>ch \<in> set k. token_char ch" "cs = 20 \<or> cs = 43" "\<not> known_name k ''transfer-encoding''"
  shows "\<exists>t h'. (t = 22 \<or> t = 35 \<and> known_name k ''connection'' \<or> t = 112 \<and> known_name k ''content-length'') \<and> kept h h'
    \<and> hc_field_start h' = p \<and> hc_field_len h' = length k
    \<and> hc_run buffer p (k @ CHR '':'' # ys) cs (h, cbs) = hc_run buffer (p + length k + 1) ys t (h', cbs)"
proof -
  obtain c r where k: "k = c # r" using assms(1) by (cases k) auto
  obtain st as s where st: "hc_case cs = Some st" "st (signed_char c) = (as @ [HC_Start_field], s)" "as = [] \<or> as = [HC_Close]" "s \<noteq> 0" "named s [c]"
    using name_start [OF _ assms(3), of c] assms(2) k by auto
  let ?h = "if as = [] then h\<lparr>hc_field_start := p\<rparr> else h\<lparr>hc_close := True, hc_field_start := p\<rparr>"
  have "hc_run buffer p (k @ CHR '':'' # ys) cs (h, cbs) = hc_run buffer (p + 1) (r @ CHR '':'' # ys) s (?h, cbs)"
    using hc_step [OF st(1, 2, 4)] st(3) k by auto
  moreover obtain t where t: "named t k" "hc_run buffer (p + 1) (r @ CHR '':'' # ys) s (?h, cbs) = hc_run buffer (p + 1 + length r) (CHR '':'' # ys) t (?h, cbs)"
    using run_name_rest [OF _ st(5), of r buffer "p + 1" "CHR '':'' # ys" "(?h, cbs)"] assms(2) k by (auto simp del: if_split)
  moreover obtain st' where st': "hc_case t = Some st'" "st' 58 = ([HC_Write_field], if t = 34 then 35 else if t = 60 then 61 else if t = 111 then 112 else 22)"
    using name_colon [OF t(1)] by auto
  moreover have "t \<noteq> 60" using named_known(1) [OF t(1)] assms(4) by (auto simp: known_name_def)
  ultimately show ?thesis
    using named_known(2, 3) [OF t(1)] k hc_step [OF st'(1), of "CHR '':''", unfolded signed_literals, OF st'(2), of buffer "p + 1 + length r" ys "(?h, cbs)"]
    by (intro exI [of _ "if t = 34 then 35 else if t = 111 then 112 else 22"] exI [of _ "?h\<lparr>hc_field_len := length k\<rparr>"])
      (auto simp: known_name_def)
qed

lemma run_value_rest:
  assumes "\<forall>ch \<in> set v. line_char ch" "s \<in> set value_states"
  shows "\<exists>t \<in> set value_states. hc_run buffer p (v @ ys) s h = hc_run buffer (p + length v) ys t h"
  using assms
proof (induction v arbitrary: s p)
  case (Cons c v)
  obtain st t where t: "hc_case s = Some st" "st (signed_char c) = ([], t)" "t \<noteq> 0" "t \<in> set value_states"
    using value_step [of c s] Cons.prems by auto
  from Cons.IH [OF _ t(4), of "p + 1"] Cons.prems(1) hc_step [OF t(1-3)] show ?case by auto
qed auto

lemma run_value_blanks:
  assumes "\<forall>ch \<in> set bs. value_blank ch" "cs = 22 \<or> cs = 35 \<or> cs = 112"
  shows "\<exists>m. hc_run buffer p (bs @ ys) cs (h, cbs) = hc_run buffer (p + length bs) ys cs (h\<lparr>hc_mark := m\<rparr>, cbs)"
  using assms(1)
proof (induction bs arbitrary: p h)
  case Nil
  then show ?case by (intro exI [of _ "hc_mark h"]) simp
next
  case (Cons b bs)
  have "line_char b" "value_blank b" using Cons.prems by (auto simp: line_char_def value_blank_def Let_def)
  then obtain st where st: "hc_case cs = Some st" "st (signed_char b) = ([HC_Mark], cs)" "cs \<noteq> 0" using value_start_step [OF _ assms(2), of b] by auto
  from Cons.IH [of "p + 1" "h\<lparr>hc_mark := p\<rparr>"] Cons.prems hc_step [OF st] show ?case by auto
qed

lemma run_line_end:
  assumes "t = 24 \<or> t = 88"
  shows "hc_run buffer p (CHR 10 # ys) t h = hc_run buffer (p + 1) ys (if t = 24 then 20 else 43) h"
  using assms by (auto simp: hc_run_def hc_cases hc_st24_def hc_st88_def)

lemma run_response_value:
  assumes "\<forall>ch \<in> set v. line_char ch" "cs = 22 \<or> (cs = 35 \<or> cs = 112) \<and> dropWhile value_blank v \<noteq> []"
  shows "\<exists>t h'. (t = 20 \<or> t = 43) \<and> kept h h' \<and> hc_run buffer p (v @ crlf @ ys) cs (h, cbs) = hc_run buffer (p + length v + 2) ys t
    (h', cbs @ [FieldCb (drop (hc_field_start h) buffer) (hc_field_len h)
       (drop (p + length (takeWhile value_blank v)) buffer) (length (dropWhile value_blank v))])"
proof -
  let ?b = "takeWhile value_blank v" and ?w = "dropWhile value_blank v"
  have v: "v = ?b @ ?w" by simp
  have len: "length ?b + length ?w = length v" using v by (metis length_append)
  obtain m where m: "hc_run buffer p (?b @ ?w @ crlf @ ys) cs (h, cbs) = hc_run buffer (p + length ?b) (?w @ crlf @ ys) cs (h\<lparr>hc_mark := m\<rparr>, cbs)"
    using run_value_blanks [of ?b cs buffer p "?w @ crlf @ ys" h cbs] assms(2) set_takeWhileD by fastforce
  have start: "hc_run buffer p (v @ crlf @ ys) cs (h, cbs) = hc_run buffer (p + length ?b) (?w @ crlf @ ys) cs (h\<lparr>hc_mark := m\<rparr>, cbs)"
    using m by (metis append.assoc v)
  show ?thesis
  proof (cases ?w)
    case Nil
    then have cs: "cs = 22" using assms(2) by simp
    have "hc_case 22 = Some hc_st22" "hc_st22 (signed_char CR) = ([HC_Mark, HC_Write_value], 24)"
      by (simp_all add: hc_cases hc_st22_def hc_tr_defs)
    from hc_step [OF this, of buffer "p + length ?b" "CHR 10 # ys" "(h\<lparr>hc_mark := m\<rparr>, cbs)"] show ?thesis
      using start [unfolded Nil] len [unfolded Nil] run_line_end [of 24 buffer "p + length ?b + 1" ys] unfolding Nil cs
      by (intro exI [of _ 20] exI [of _ "h\<lparr>hc_mark := p + length ?b\<rparr>"]) (simp add: crlf_def)
  next
    case (Cons c w)
    have ok: "line_char c" "\<not> value_blank c" "\<forall>ch \<in> set w. line_char ch"
      using Cons assms v by (metis UnCI list.set_intros(1) set_append, metis hd_dropWhile list.distinct(1) list.sel(1),
        metis UnCI list.set_intros(2) set_append)
    obtain st s where st: "hc_case cs = Some st" "st (signed_char c) = ([HC_Mark], s)" "s \<noteq> 0" "s \<in> set value_states"
      using value_start_step [OF ok(1), of cs] ok(2) assms(2) by auto
    let ?h = "h\<lparr>hc_mark := p + length ?b\<rparr>"
    have "hc_run buffer (p + length ?b) (?w @ crlf @ ys) cs (h\<lparr>hc_mark := m\<rparr>, cbs) = hc_run buffer (p + length ?b + 1) (w @ crlf @ ys) s (?h, cbs)"
      using Cons hc_step [OF st(1-3)] by simp
    moreover have q: "p + length ?b + 1 + length w = p + length v" using len Cons by simp
    moreover obtain s' where s': "s' \<in> set value_states"
      "hc_run buffer (p + length ?b + 1) (w @ crlf @ ys) s (?h, cbs) = hc_run buffer (p + length v) (crlf @ ys) s' (?h, cbs)"
      using run_value_rest [OF ok(3) st(4), of buffer "p + length ?b + 1"] unfolding q by blast
    moreover obtain st' as t where e: "hc_case s' = Some st'" "st' 13 = (as @ [HC_Write_value], t)" "as = [] \<or> as = [HC_Content_len]" "t = 24 \<or> t = 88"
      using value_end [OF s'(1)] by blast
    moreover obtain h' where h': "kept h h'" "fold (hc_action buffer (p + length v)) (as @ [HC_Write_value]) (?h, cbs)
        = (h', cbs @ [FieldCb (drop (hc_field_start h) buffer) (hc_field_len h) (drop (p + length ?b) buffer) (length ?w)])"
      using e(3) Cons q by auto
    moreover have "HC_Done \<notin> set (as @ [HC_Write_value])" "t \<noteq> 0" using e(3, 4) by auto
    ultimately have "hc_run buffer p (v @ crlf @ ys) cs (h, cbs) = hc_run buffer (p + length v + 1) (CHR 10 # ys) t
        (h', cbs @ [FieldCb (drop (hc_field_start h) buffer) (hc_field_len h) (drop (p + length ?b) buffer) (length ?w)])"
      using start hc_step [OF e(1), of CR "as @ [HC_Write_value]" t buffer "p + length v" "CHR 10 # ys" "(?h, cbs)"]
      by (simp add: crlf_def del: fold_append)
    then show ?thesis using run_line_end [OF e(4), of buffer "p + length v + 1" ys] h'(1)
      by (intro exI [of _ "if t = 24 then 20 else 43"] exI [of _ h']) simp
  qed
qed

section \<open>Whole responses\<close>

definition wf_field :: "string \<times> string \<Rightarrow> bool" where
  "wf_field kv \<longleftrightarrow> fst kv \<noteq> [] \<and> (\<forall>ch \<in> set (fst kv). token_char ch) \<and> (\<forall>ch \<in> set (snd kv). line_char ch)
     \<and> \<not> known_name (fst kv) ''transfer-encoding''
     \<and> (known_name (fst kv) ''connection'' \<or> known_name (fst kv) ''content-length'' \<longrightarrow> dropWhile value_blank (snd kv) \<noteq> [])"

definition response_field_cb :: "string \<Rightarrow> nat \<Rightarrow> string \<times> string \<Rightarrow> Callback" where
  "response_field_cb buffer p kv = FieldCb (drop p buffer) (length (fst kv))
     (drop (p + length (fst kv) + 1 + length (takeWhile value_blank (snd kv))) buffer) (length (dropWhile value_blank (snd kv)))"

fun response_field_cbs :: "string \<Rightarrow> nat \<Rightarrow> (string \<times> string) list \<Rightarrow> Callback list" where
  "response_field_cbs buffer p [] = []"
| "response_field_cbs buffer p (kv # kvs) = response_field_cb buffer p kv # response_field_cbs buffer (p + length (field_text kv)) kvs"

lemma run_response_field:
  assumes "wf_field kv" "cs = 20 \<or> cs = 43"
  shows "\<exists>t h'. (t = 20 \<or> t = 43) \<and> kept h h' \<and> hc_run buffer p (field_text kv @ ys) cs (h, cbs)
    = hc_run buffer (p + length (field_text kv)) ys t (h', cbs @ [response_field_cb buffer p kv])"
proof -
  obtain k v where kv: "kv = (k, v)" by fastforce
  obtain s h1 where s: "s = 22 \<or> s = 35 \<and> known_name k ''connection'' \<or> s = 112 \<and> known_name k ''content-length''" "kept h h1"
    "hc_field_start h1 = p" "hc_field_len h1 = length k"
    "hc_run buffer p (k @ CHR '':'' # v @ crlf @ ys) cs (h, cbs) = hc_run buffer (p + length k + 1) (v @ crlf @ ys) s (h1, cbs)"
    using run_name [OF _ _ assms(2), of k h p buffer "v @ crlf @ ys" cbs] assms(1) kv by (auto simp: wf_field_def)
  have "s = 22 \<or> (s = 35 \<or> s = 112) \<and> dropWhile value_blank v \<noteq> []" using s(1) assms(1) kv by (auto simp: wf_field_def)
  from run_response_value [OF _ this, of h1 buffer "p + length k + 1" ys cbs] assms(1) kv obtain t h' where
    t: "t = 20 \<or> t = 43" "kept h1 h'" "hc_run buffer (p + length k + 1) (v @ crlf @ ys) s (h1, cbs)
      = hc_run buffer (p + length k + 1 + length v + 2) ys t (h', cbs @ [response_field_cb buffer p kv])"
    by (auto simp: wf_field_def response_field_cb_def s(3, 4))
  have eq: "p + length (field_text kv) = p + length k + 1 + length v + 2" "field_text kv @ ys = k @ CHR '':'' # v @ crlf @ ys"
    by (simp_all add: field_text_def kv crlf_def)
  show ?thesis unfolding eq s(5) t(3) using t(1) kept_trans [OF s(2) t(2)] by blast
qed

lemma run_response_fields:
  assumes "\<forall>kv \<in> set kvs. wf_field kv" "cs = 20 \<or> cs = 43"
  shows "\<exists>t h'. (t = 20 \<or> t = 43) \<and> kept h h' \<and> hc_run buffer p (concat (map field_text kvs) @ ys) cs (h, cbs)
    = hc_run buffer (p + length (concat (map field_text kvs))) ys t (h', cbs @ response_field_cbs buffer p kvs)"
  using assms
proof (induction kvs arbitrary: p cs h cbs)
  case Nil
  then show ?case by (intro exI [of _ cs] exI [of _ h]) simp
next
  case (Cons kv kvs)
  let ?p = "p + length (field_text kv)" and ?c = "cbs @ [response_field_cb buffer p kv]"
  obtain s h1 where s: "s = 20 \<or> s = 43" "kept h h1" "hc_run buffer p (field_text kv @ concat (map field_text kvs) @ ys) cs (h, cbs)
      = hc_run buffer ?p (concat (map field_text kvs) @ ys) s (h1, ?c)"
    using run_response_field [OF _ Cons.prems(2), of kv h buffer p "concat (map field_text kvs) @ ys" cbs] Cons.prems(1) by auto
  obtain t h' where t: "t = 20 \<or> t = 43" "kept h1 h'" "hc_run buffer ?p (concat (map field_text kvs) @ ys) s (h1, ?c)
      = hc_run buffer (?p + length (concat (map field_text kvs))) ys t (h', ?c @ response_field_cbs buffer ?p kvs)"
    using Cons.IH [OF _ s(1), of h1 ?p ?c] Cons.prems(1) by auto
  show ?case using s t by (intro exI [of _ t] exI [of _ h']) (auto simp: add.assoc intro: kept_trans)
qed

lemma run_header_end:
  assumes "cs = 20 \<or> cs = 43"
  shows "\<exists>h'. hc_cs h' = hc_cs h \<and> hc_nread h' = hc_nread h \<and> hc_chunked h' = hc_chunked h
    \<and> hc_body_start h' = p + 2 \<and> hc_run buffer p (crlf @ ys) cs (h, cbs) = (p + 2, 120, h',
        cbs @ [ElementCb header_done (drop (p + 2) buffer) (length buffer - (p + 2))])"
  using assms by (elim disjE) (simp_all add: hc_run_def crlf_def hc_cases hc_st20_def hc_st43_def hc_st3_def hc_tr7_def hc_tr75_def)

definition digit_char :: "char \<Rightarrow> bool" where
  "digit_char ch \<longleftrightarrow> 48 \<le> signed_char ch \<and> signed_char ch \<le> 57"

definition response_text :: "char \<Rightarrow> string \<Rightarrow> string \<Rightarrow> (string \<times> string) list \<Rightarrow> string" where
  "response_text d status reason kvs = ''HTTP/1.'' @ d # '' '' @ status @ '' '' @ reason @ crlf @ concat (map field_text kvs) @ crlf"

definition wf_response :: "char \<Rightarrow> string \<Rightarrow> string \<Rightarrow> (string \<times> string) list \<Rightarrow> bool" where
  "wf_response d status reason kvs \<longleftrightarrow> digit_char d \<and> status \<noteq> [] \<and> (\<forall>ch \<in> set status. digit_char ch)
     \<and> reason \<noteq> [] \<and> (\<forall>ch \<in> set reason. line_char ch) \<and> (\<forall>kv \<in> set kvs. wf_field kv)"

lemma digit_jumps:
  assumes "digit_char ch"
  shows "hc_st14 (signed_char ch) = ([], 15)" "hc_st16 (signed_char ch) = ([HC_Mark], 17)" "hc_st17 (signed_char ch) = ([], 17)"
  using assms unfolding digit_char_def by (auto simp: hc_st14_def hc_st16_def hc_st17_def hc_tr27_def)

lemma line_jumps:
  assumes "line_char ch"
  shows "hc_st18 (signed_char ch) = ([HC_Mark], 19)" "hc_st19 (signed_char ch) = ([], 19)"
  using assms unfolding line_char_def by (auto simp: hc_st18_def hc_st19_def hc_tr30_def)

lemma hc_loop:
  assumes "hc_case cs = Some st" "cs \<noteq> 0" "\<forall>ch \<in> set xs. st (signed_char ch) = ([], cs)"
  shows "hc_run buffer p (xs @ ys) cs s = hc_run buffer (p + length xs) ys cs s"
  unfolding hc_run_def by (rule ragel_run_loop [of hc_case cs st xs, OF assms])

lemma run_version_part:
  assumes "digit_char d"
  shows "hc_run buffer 0 (''HTTP/1.'' @ d # CHR '' '' # ys) 1 (h, []) = hc_run buffer 9 ys 16 (h\<lparr>hc_mark := 0\<rparr>, [ElementCb http_version buffer 8])"
proof -
  have "hc_case (Suc 0) = Some hc_st1" using hc_cases(1) by simp
  then show ?thesis
    by (simp add: hc_run_def hc_cases digit_jumps [OF assms(1)] hc_st1_def hc_st8_def hc_st9_def hc_st10_def hc_st11_def hc_st12_def hc_st13_def
        hc_st15_def hc_tr2_def hc_tr26_def; simp add: eval_nat_numeral)
qed

lemma run_status_part:
  assumes "status \<noteq> []" "\<forall>ch \<in> set status. digit_char ch"
  shows "hc_run buffer p (status @ CHR '' '' # ys) 16 (h, cbs) = hc_run buffer (p + length status + 1) ys 18
    (h\<lparr>hc_mark := p, hc_status := atoi (drop p buffer)\<rparr>, cbs @ [ElementCb status_code (drop p buffer) (length status)])"
proof -
  obtain c r where c: "status = c # r" using assms(1) by (cases status) auto
  have "hc_run buffer (p + 1) (r @ CHR '' '' # ys) 17 (h\<lparr>hc_mark := p\<rparr>, cbs) = hc_run buffer (p + 1 + length r) (CHR '' '' # ys) 17 (h\<lparr>hc_mark := p\<rparr>, cbs)"
    using assms(2) c by (intro hc_loop [of 17 hc_st17]) (simp_all add: hc_cases digit_jumps)
  then show ?thesis using assms(2) c
    by (simp add: hc_step [of 16 hc_st16] hc_step [of 17 hc_st17] hc_cases digit_jumps hc_st17_def hc_tr28_def atoi_def)
qed

lemma run_reason_part:
  assumes "reason \<noteq> []" "\<forall>ch \<in> set reason. line_char ch"
  shows "hc_run buffer p (reason @ crlf @ ys) 18 (h, cbs) = hc_run buffer (p + length reason + 2) ys 20
    (h\<lparr>hc_mark := p\<rparr>, cbs @ [ElementCb reason_phrase (drop p buffer) (length reason)])"
proof -
  obtain c r where c: "reason = c # r" using assms(1) by (cases reason) auto
  have "hc_run buffer (p + 1) (r @ crlf @ ys) 19 (h\<lparr>hc_mark := p\<rparr>, cbs) = hc_run buffer (p + 1 + length r) (crlf @ ys) 19 (h\<lparr>hc_mark := p\<rparr>, cbs)"
    using assms(2) c by (intro hc_loop [of 19 hc_st19]) (simp_all add: hc_cases line_jumps)
  then show ?thesis using assms(2) c
    by (simp add: hc_step [of 18 hc_st18] hc_step [of 19 hc_st19] hc_step [of 24 hc_st24] hc_cases line_jumps hc_st19_def hc_st24_def hc_tr33_def crlf_def)
qed

lemma response_cbs_text:
  assumes "drop p buffer = concat (map field_text kvs) @ ys"
  shows "map cb_text (response_field_cbs buffer p kvs) = map (\<lambda>kv. (None, fst kv, dropWhile value_blank (snd kv))) kvs"
  using assms
proof (induction kvs arbitrary: p)
  case (Cons kv kvs)
  obtain k v where kv: "kv = (k, v)" by fastforce
  have d: "drop p buffer = k @ CHR '':'' # v @ crlf @ concat (map field_text kvs) @ ys" using Cons.prems kv by (simp add: field_text_def [of "(k, v)"])
  have "v = takeWhile value_blank v @ dropWhile value_blank v" by simp
  then have "drop p buffer = (k @ CHR '':'' # takeWhile value_blank v) @ dropWhile value_blank v @ crlf @ concat (map field_text kvs) @ ys"
    using d by (metis append.assoc append_Cons)
  from drop_shift [OF this] have "drop (p + length k + 1 + length (takeWhile value_blank v)) buffer
      = dropWhile value_blank v @ crlf @ concat (map field_text kvs) @ ys" by (simp add: add.assoc)
  moreover have "drop (p + length (field_text kv)) buffer = concat (map field_text kvs) @ ys"
    using drop_shift [of p buffer "field_text kv"] Cons.prems by simp
  ultimately show ?case using Cons.IH d by (simp add: kv response_field_cb_def)
qed simp

lemma run_response:
  assumes "wf_response d status reason kvs" "buffer = response_text d status reason kvs @ body"
  shows "\<exists>h' cbs. hc_run buffer 0 buffer 1 (h, []) = (length (response_text d status reason kvs), 120, h',
      ElementCb http_version buffer 8 # ElementCb status_code (status @ '' '' @ reason @ crlf @ concat (map field_text kvs) @ crlf @ body) (length status) # cbs)
    \<and> map cb_text cbs = (Some reason_phrase, reason, []) # map (\<lambda>kv. (None, fst kv, dropWhile value_blank (snd kv))) kvs @ [(Some header_done, body, [])]
    \<and> hc_chunked h' = hc_chunked h \<and> hc_nread h' = hc_nread h \<and> hc_body_start h' = length (response_text d status reason kvs)"
proof -
  let ?F = "concat (map field_text kvs)"
  define t1 where "t1 = status @ CHR '' '' # reason @ crlf @ ?F @ crlf @ body"
  define t2 where "t2 = reason @ crlf @ ?F @ crlf @ body"
  define t3 where "t3 = ?F @ crlf @ body"
  define p2 where "p2 = 9 + length status + 1"
  define p3 where "p3 = 9 + length status + 1 + length reason + 2"
  note ok = assms(1) [unfolded wf_response_def]
  have b: "buffer = ''HTTP/1.'' @ d # CHR '' '' # t1" by (simp add: assms(2) response_text_def t1_def)
  have d1: "drop 9 buffer = t1" by (simp add: b)
  have d2: "drop p2 buffer = t2" using drop_shift [of 9 buffer "status @ '' ''" t2] d1 by (simp add: t1_def t2_def p2_def)
  have d3: "drop p3 buffer = t3" using drop_shift [of p2 buffer "reason @ crlf" t3] d2 by (simp add: t2_def t3_def p2_def p3_def crlf_def add.assoc)
  let ?c = "[ElementCb http_version buffer 8, ElementCb status_code t1 (length status), ElementCb reason_phrase t2 (length reason)]"
  obtain h1 where h1: "kept h h1" "hc_run buffer 0 buffer 1 (h, []) = hc_run buffer p3 t3 20 (h1, ?c)"
  proof
    have "hc_run buffer 0 buffer 1 (h, []) = hc_run buffer 9 t1 16 (h\<lparr>hc_mark := 0\<rparr>, [ElementCb http_version buffer 8])"
      using run_version_part [of d buffer t1 h] ok b by simp
    also have "\<dots> = hc_run buffer p2 t2 18 (h\<lparr>hc_mark := 9, hc_status := atoi t1\<rparr>, [ElementCb http_version buffer 8, ElementCb status_code t1 (length status)])"
      using run_status_part [of status buffer 9 t2] ok d1 unfolding t1_def t2_def p2_def by simp
    also have "\<dots> = hc_run buffer p3 t3 20 (h\<lparr>hc_mark := 9, hc_status := atoi t1, hc_mark := p2\<rparr>, ?c)"
      using run_reason_part [of reason buffer p2 t3] ok d2 unfolding t2_def t3_def p2_def p3_def by simp
    finally show "hc_run buffer 0 buffer 1 (h, []) = hc_run buffer p3 t3 20 (h\<lparr>hc_mark := 9, hc_status := atoi t1, hc_mark := p2\<rparr>, ?c)" .
  qed simp
  obtain s h2 where h2: "s = 20 \<or> s = 43" "kept h1 h2"
    "hc_run buffer p3 t3 20 (h1, ?c) = hc_run buffer (p3 + length ?F) (crlf @ body) s (h2, ?c @ response_field_cbs buffer p3 kvs)"
    using run_response_fields [of kvs 20 h1 buffer p3 "crlf @ body" ?c] ok unfolding t3_def by auto
  have len: "p3 + length ?F + 2 = length (response_text d status reason kvs)" by (simp add: p3_def response_text_def crlf_def)
  then have d4: "drop (p3 + length ?F + 2) buffer = body" by (simp add: assms(2))
  obtain h3 where h3: "hc_nread h3 = hc_nread h2" "hc_chunked h3 = hc_chunked h2" "hc_body_start h3 = p3 + length ?F + 2"
    "hc_run buffer (p3 + length ?F) (crlf @ body) s (h2, ?c @ response_field_cbs buffer p3 kvs) = (p3 + length ?F + 2, 120, h3,
      (?c @ response_field_cbs buffer p3 kvs) @ [ElementCb header_done (drop (p3 + length ?F + 2) buffer) (length buffer - (p3 + length ?F + 2))])"
    using run_header_end [OF h2(1)] by blast
  have "hc_run buffer 0 buffer 1 (h, []) = (p3 + length ?F + 2, 120, h3,
      (?c @ response_field_cbs buffer p3 kvs) @ [ElementCb header_done (drop (p3 + length ?F + 2) buffer) (length buffer - (p3 + length ?F + 2))])"
    unfolding h1(2) h2(3) h3(4) ..
  then show ?thesis using response_cbs_text [OF d3 [unfolded t3_def]] h1(1) h2(2) h3(1-3) d4 len
    by (auto simp: kept_def t1_def t2_def assms(2))
qed

section \<open>From callbacks to the response\<close>

fun response_text_callback :: "Element option \<times> string \<times> string \<Rightarrow> response_parser \<Rightarrow> response_parser" where
  "response_text_callback (Some reason_phrase, t, _) p = p\<lparr>sp_data := (sp_data p)\<lparr>r_reason := t\<rparr>\<rparr>"
| "response_text_callback (None, k, v) p = (if k = [] then p else p\<lparr>sp_data := r_setHeader (sp_data p) k v\<rparr>)"
| "response_text_callback (Some _, _, _) p = p"

lemma response_callback_text:
  assumes "fst (cb_text c) \<noteq> Some http_version" "fst (cb_text c) \<noteq> Some status_code" "hc_cb_ok N c"
  shows "response_callback c p = response_text_callback (cb_text c) p"
proof (cases c)
  case (ElementCb e at n)
  then show ?thesis using assms by (cases e) auto
next
  case (FieldCb f n v m)
  then show ?thesis using assms by (auto simp: on_response_http_field_def)
qed

lemma response_callbacks_text:
  assumes "\<forall>c \<in> set cbs. fst (cb_text c) \<noteq> Some http_version \<and> fst (cb_text c) \<noteq> Some status_code \<and> hc_cb_ok N c"
  shows "fold response_callback cbs p = fold response_text_callback (map cb_text cbs) p"
  using assms by (induction cbs arbitrary: p) (simp_all add: response_callback_text [of _ N])

lemma fold_response_fields:
  assumes "\<forall>kv \<in> set kvs. fst kv \<noteq> []"
  shows "fold response_text_callback (map (\<lambda>kv. (None, fst kv, dropWhile value_blank (snd kv))) kvs) p
    = p\<lparr>sp_data := fold (\<lambda>kv r. r_setHeader r (fst kv) (dropWhile value_blank (snd kv))) kvs (sp_data p)\<rparr>"
  using assms by (induction kvs arbitrary: p) simp_all

lemma execute_response:
  assumes "wf_response d status reason kvs" "length (response_text d status reason kvs @ body) < 2 ^ 31"
  defines "text \<equiv> response_text d status reason kvs"
  shows "\<exists>cbs h'. httpclient_parser_execute (httpclient_parser_init blank) (text @ body) 0 = Inr (int (length text),
      ElementCb http_version (text @ body) 8 # ElementCb status_code (status @ '' '' @ reason @ crlf @ concat (map field_text kvs) @ crlf @ body) (length status) # cbs, h')
    \<and> map cb_text cbs = (Some reason_phrase, reason, []) # map (\<lambda>kv. (None, fst kv, dropWhile value_blank (snd kv))) kvs @ [(Some header_done, body, [])]
    \<and> (\<forall>c \<in> set cbs. hc_cb_ok (length (text @ body)) c) \<and> hc_cs h' = 120 \<and> \<not> hc_chunked h'"
proof -
  let ?h = "(httpclient_parser_init blank)\<lparr>hc_nread := 0, hc_mark := 0, hc_field_len := 0, hc_field_start := 0\<rparr>"
  obtain h1 cbs where r: "hc_run (text @ body) 0 (text @ body) 1 (?h, []) = (length text, 120, h1, ElementCb http_version (text @ body) 8
      # ElementCb status_code (status @ '' '' @ reason @ crlf @ concat (map field_text kvs) @ crlf @ body) (length status) # cbs)"
    "map cb_text cbs = (Some reason_phrase, reason, []) # map (\<lambda>kv. (None, fst kv, dropWhile value_blank (snd kv))) kvs @ [(Some header_done, body, [])]"
    "\<not> hc_chunked h1" "hc_nread h1 = 0"
    using run_response [OF assms(1), of "text @ body" body ?h] unfolding text_def by (auto simp: httpclient_parser_init_def)
  have ne: "text @ body \<noteq> []" by (simp add: text_def response_text_def)
  obtain n cs h' where s: "httpclient_parser_execute (httpclient_parser_init blank) (text @ body) 0 = Inr (int n, cs, h')"
    "\<forall>cb \<in> set cs. hc_cb_ok (length (text @ body)) cb"
    "if hc_cs h' < 120 then hc_parser_ok h' else hc_cs h' \<le> 123 \<and> hc_body_start h' = n"
    using hc_execute_safe [OF hc_init_ok(1) ne] assms(2) unfolding text_def by blast
  have "cs = ElementCb http_version (text @ body) 8 # ElementCb status_code (status @ '' '' @ reason @ crlf @ concat (map field_text kvs) @ crlf @ body) (length status) # cbs
    \<and> hc_cs h' = 120 \<and> \<not> hc_chunked h' \<and> int n = int (length text)"
    using s(1) r(1, 3, 4) assms(2) to_int32_small [of "int (length text)"] unfolding text_def [symmetric] by (auto simp: httpclient_parser_execute_def Let_def hc_init_ok(2) split: if_splits)
  then show ?thesis using s r(2) by auto
qed

lemma response_execute_text:
  assumes "wf_response d status reason kvs" "length (response_text d status reason kvs @ body) < 2 ^ 31" "d = CHR ''0'' \<or> d = CHR ''1''"
  defines "text \<equiv> response_text d status reason kvs"
  shows "\<exists>p. response_execute False (text @ body) (HttpResponseParser blank) = Inr (length text, body, p)
    \<and> response_isFinished p \<and> \<not> response_hasError p \<and> \<not> hc_chunked (sp_parser p)
    \<and> sp_data p = fold (\<lambda>kv r. r_setHeader r (fst kv) (dropWhile value_blank (snd kv))) kvs
        ((HttpResponse (if d = CHR ''1'' then 0x11 else 0x10) True)\<lparr>r_status := atoi (status @ '' '' @ reason @ crlf @ concat (map field_text kvs) @ crlf @ body), r_reason := reason\<rparr>)"
proof -
  let ?p = "HttpResponseParser blank" and ?S = "status @ '' '' @ reason @ crlf @ concat (map field_text kvs) @ crlf @ body"
  obtain cbs h' where e: "httpclient_parser_execute (httpclient_parser_init blank) (text @ body) 0 = Inr (int (length text),
      ElementCb http_version (text @ body) 8 # ElementCb status_code ?S (length status) # cbs, h')"
    "map cb_text cbs = (Some reason_phrase, reason, []) # map (\<lambda>kv. (None, fst kv, dropWhile value_blank (snd kv))) kvs @ [(Some header_done, body, [])]"
    "\<forall>c \<in> set cbs. hc_cb_ok (length (text @ body)) c" "hc_cs h' = 120" "\<not> hc_chunked h'"
    using execute_response [OF assms(1, 2), of blank, folded text_def] by (elim exE conjE) (rule that)
  let ?p1 = "?p\<lparr>sp_data := (HttpResponse (if d = CHR ''1'' then 0x11 else 0x10) True)\<lparr>r_status := atoi ?S\<rparr>\<rparr>"
  have "parse_version (text @ body) 8 = Some (if d = CHR ''1'' then 0x11 else 0x10)"
    using assms(3) by (auto simp: text_def response_text_def parse_version_def eval_nat_numeral)
  then have v: "fold response_callback (ElementCb http_version (text @ body) 8 # ElementCb status_code ?S (length status) # cbs) ?p = fold response_callback cbs ?p1"
    by (simp add: on_response_version_def HttpResponseParser_def HttpResponse_def)
  have "fst (cb_text c) \<noteq> Some http_version \<and> fst (cb_text c) \<noteq> Some status_code" if "c \<in> set cbs" for c
  proof -
    have "cb_text c \<in> set (map cb_text cbs)" using that by simp
    then show ?thesis unfolding e(2) by auto
  qed
  then have "fold response_callback cbs ?p1 = fold response_text_callback (map cb_text cbs) ?p1"
    using e(3) by (intro response_callbacks_text [of cbs "length (text @ body)"]) blast
  also have "\<dots> = ?p1\<lparr>sp_data := fold (\<lambda>kv r. r_setHeader r (fst kv) (dropWhile value_blank (snd kv))) kvs
      ((sp_data ?p1)\<lparr>r_reason := reason\<rparr>)\<rparr>"
    unfolding e(2) using assms(1) by (simp add: fold_response_fields wf_response_def wf_field_def)
  finally have f: "fold response_callback cbs ?p1 = \<dots>" .
  have "int (length text) mod 2 ^ 64 = int (length text)" using assms(2) unfolding text_def [symmetric] by simp
  then have "response_execute False (text @ body) ?p = Inr (length text, body, (fold response_callback cbs ?p1)\<lparr>sp_parser := h'\<rparr>)"
    using e(1) v by (simp add: response_execute_def HttpResponseParser_def Let_def)
  then show ?thesis unfolding f using e(4, 5)
    by (simp add: response_isFinished_def response_hasError_def httpclient_parser_finish_def httpclient_parser_has_error_def
        httpclient_parser_is_finished_def HttpResponseParser_def)
qed

section \<open>Printed numbers\<close>

lemma read_digits_append:
  assumes "\<forall>ch \<in> set xs. \<exists>d < base. digit_of ch = Some d"
  shows "read_digits base acc (xs @ ys) = read_digits base (read_digits base acc xs) ys"
  using assms by (induction xs arbitrary: acc) auto

lemma decimal_digit: "n < 10 \<Longrightarrow> digit_of (char_of (48 + n)) = Some n"
  by (simp add: digit_of_def Let_def of_char_of)

lemma show_nat_decimal: "\<forall>ch \<in> set (show_nat n). \<exists>d < 10. digit_of ch = Some d"
proof
  fix ch assume "ch \<in> set (show_nat n)"
  then have "48 \<le> (of_char ch :: nat)" "(of_char ch :: nat) \<le> 57" using show_nat_digits by auto
  then show "\<exists>d < 10. digit_of ch = Some d" by (simp add: digit_of_def Let_def)
qed

lemma read_show_nat: "read_digits 10 0 (show_nat n) = n"
proof (induction n rule: show_nat.induct)
  case (1 n)
  show ?case
  proof (cases "n < 10")
    case True
    then show ?thesis by (subst show_nat.simps) (simp add: decimal_digit)
  next
    case False
    have "read_digits 10 0 (show_nat n) = read_digits 10 (read_digits 10 0 (show_nat (n div 10))) [char_of (48 + n mod 10)]"
      using False by (subst show_nat.simps) (simp only: if_False read_digits_append [OF show_nat_decimal])
    then show ?thesis using 1 [OF False] decimal_digit [of "n mod 10"] by simp
  qed
qed

text \<open>A text of digits is neither blank nor signed nor prefixed.\<close>

lemma strtol_digits:
  assumes "xs \<noteq> []" "\<forall>ch \<in> set xs. \<exists>d < base. digit_of ch = Some d" "digit_of c = None" "base = 10 \<or> base = 16" "c \<noteq> CHR ''x''" "c \<noteq> CHR ''X''"
    "int (read_digits base 0 xs) < 2 ^ 63"
  shows "strtol (xs @ c # ys) base = int (read_digits base 0 xs)"
proof -
  obtain x r where x: "xs = x # r" using assms(1) by (cases xs) auto
  obtain e where e: "digit_of x = Some e" "e < base" using assms(2) x by auto
  then have "48 \<le> (of_char x :: nat)" by (auto simp: digit_of_def Let_def split: if_splits)
  then have ns: "\<not> is_space x" "x \<noteq> CHR ''-''" "x \<noteq> CHR ''+''" by (auto simp: is_space_def Let_def)
  have "strip_prefix base (xs @ c # ys) = xs @ c # ys"
  proof (cases r)
    case Nil
    then show ?thesis using x assms(5, 6) by simp
  next
    case (Cons y r')
    then obtain d where "digit_of y = Some d" "d < base" using assms(2) x by auto
    then have "y \<noteq> CHR ''x''" "y \<noteq> CHR ''X''" using assms(4) by (auto simp: digit_of_def)
    then show ?thesis using x Cons by simp
  qed
  moreover have "read_digits base 0 (xs @ c # ys) = read_digits base 0 xs" using assms(3) by (simp add: read_digits_append [OF assms(2)])
  ultimately show ?thesis using assms(7) ns x by (simp add: strtol_def)
qed

lemma atoi_show_nat:
  assumes "n < 2 ^ 31" "digit_of c = None"
  shows "atoi (show_nat n @ c # ys) = int n"
proof -
  have "c \<noteq> CHR ''x''" "c \<noteq> CHR ''X''" using assms(2) by (auto simp: digit_of_def)
  moreover have "show_nat n \<noteq> []" by (subst show_nat.simps) simp
  ultimately have "strtol (show_nat n @ c # ys) 10 = int n"
    using strtol_digits [of "show_nat n" 10 c ys] show_nat_decimal [of n] assms by (simp add: read_show_nat)
  then show ?thesis using assms(1) by (simp add: atoi_def to_int32_small)
qed

section \<open>Chunk headers\<close>

lemma hex_digit:
  assumes "hex_char ch"
  shows "\<exists>d < 16. digit_of ch = Some d" "hc_st1 (signed_char ch) = ([HC_Mark], 2)" "hc_st2 (signed_char ch) = ([], 2)"
proof -
  have "token_code (signed_char ch)" using assms by (auto simp: hex_char_def token_code_def Let_def)
  then have "0 \<le> signed_char ch" by (auto simp: token_code_def)
  then have "signed_char ch = int (of_char ch)" by (intro signed_ascii signed_char_nonneg)
  then show "\<exists>d < 16. digit_of ch = Some d" using assms by (auto simp: hex_char_def digit_of_def Let_def)
  show "hc_st1 (signed_char ch) = ([HC_Mark], 2)" "hc_st2 (signed_char ch) = ([], 2)"
    using assms unfolding hex_char_def Let_def by (auto simp: hc_st1_def hc_st2_def hc_tr0_def)
qed

lemma crlf_length: "length crlf = 2"
  by (simp add: crlf_def)

lemma run_chunk_header:
  fixes rest :: string
  assumes "hs \<noteq> []" "\<forall>ch \<in> set hs. hex_char ch" "int (read_digits 16 0 hs) < 2 ^ 63"
  defines "b \<equiv> hs @ crlf @ rest" and "n \<equiv> to_int32 (int (read_digits 16 0 hs))"
  shows "hc_run b 0 b 1 (h, []) = (length hs + 2, 120, h\<lparr>hc_mark := 0, hc_chunked := True, hc_content_len := n, hc_chunks_done := n \<le> 0, hc_body_start := length hs + 2\<rparr>,
      [ElementCb (if n \<le> 0 then last_chunk else chunk_size) b (length hs), ElementCb header_done rest (length rest)])"
proof -
  let ?h = "h\<lparr>hc_mark := 0\<rparr>"
  obtain c r where c: "hs = c # r" using assms(1) by (cases hs) auto
  have "strtol (hs @ CR # CHR 10 # rest) 16 = int (read_digits 16 0 hs)"
    using assms(1-3) hex_digit(1) by (intro strtol_digits) (auto simp: digit_of_def)
  then have n: "to_int32 (strtol b 16) = n" by (simp add: b_def n_def crlf_def)
  have "hc_run b 0 b 1 (h, []) = hc_run b 1 (r @ crlf @ rest) 2 (?h, [])"
    using hc_step [OF hc_cases(1) hex_digit(2) [of c], of b 0 "r @ crlf @ rest" "(h, [])"] assms(2) c by (simp add: b_def)
  also have "\<dots> = hc_run b (1 + length r) (crlf @ rest) 2 (?h, [])"
    using assms(2) c by (intro hc_loop [of 2 hc_st2]) (simp_all add: hc_cases hex_digit)
  finally show ?thesis using n c by (simp add: b_def hc_run_def crlf_def hc_cases hc_st2_def hc_tr4_def hc_st3_def hc_tr7_def Let_def)
qed

lemma execute_chunk_header:
  assumes "hs \<noteq> []" "\<forall>ch \<in> set hs. hex_char ch" "int (read_digits 16 0 hs) < 2 ^ 63" "length (hs @ crlf @ rest) < 2 ^ 31"
  shows "\<exists>cbs h'. httpclient_parser_execute (httpclient_parser_init h) (hs @ crlf @ rest) 0 = Inr (int (length hs + 2), cbs, h')
    \<and> hc_cs h' = 120 \<and> hc_content_len h' = to_int32 (int (read_digits 16 0 hs)) \<and> (hc_chunks_done h' \<longleftrightarrow> to_int32 (int (read_digits 16 0 hs)) \<le> 0)
    \<and> (\<forall>p. fold response_callback cbs p = p)"
  using assms(4) to_int32_small [of "int (length (hs @ crlf @ rest))"] to_int32_small [of "int (length hs + 2)"] to_int32_small [of 0]
  by (simp add: httpclient_parser_execute_def hc_init_ok(2) run_chunk_header [OF assms(1-3), unfolded One_nat_def] Let_def crlf_length)

section \<open>Printing and parsing\<close>

text \<open>The fields that \<^verbatim>\<open>HttpResponse::dump\<close> prints, and the reason.\<close>

definition dumped_fields :: "http_response \<Rightarrow> (string \<times> string) list" where
  "dumped_fields r =
     map (\<lambda>(k, v). (k, CHR '' '' # v)) (filter (\<lambda>(k, v). r_websocket r \<or> strcasecmp (c_str k) ''connection'' \<noteq> 0) (r_headers r))
     @ map (\<lambda>c. (''Set-Cookie'', CHR '' '' # c)) (r_cookies r)
     @ (if r_websocket r then [] else [(''connection'', if r_close r then '' close'' else '' keep-alive'')])
     @ (if r_body r = '''' then [] else [(''content-length'', CHR '' '' # show_nat (length (r_body r)))])"

definition dumped_reason :: "http_response \<Rightarrow> string" where
  "dumped_reason r = (if r_reason r = '''' then HttpStatusToString (r_status r) else r_reason r)"

lemma dump_is_response_text:
  assumes "r_version r = 0x10 \<and> d = CHR ''0'' \<or> r_version r = 0x11 \<and> d = CHR ''1''"
  shows "r_dump r = response_text d (show_status (r_status r)) (dumped_reason r) (dumped_fields r) @ r_body r"
proof -
  have "show_version (r_version r) = ''1.'' @ [d]"
    using assms show_nat_small by (elim disjE conjE) (simp_all add: show_version_def take_bit_eq_mod)
  moreover have "concat (map (\<lambda>c. ''Set-Cookie: '' @ c @ crlf) cs) = concat (map field_text (map (\<lambda>c. (''Set-Cookie'', CHR '' '' # c)) cs))" for cs
    by (induction cs) (simp_all add: field_text_def)
  ultimately show ?thesis
    by (simp add: r_dump_def response_text_def dumped_fields_def dumped_reason_def dump_headers_fields dump_connection_def dump_body_def field_text_def)
qed

text \<open>What a response must be like to be printed in a form that the grammar reads.\<close>

definition printable :: "http_response \<Rightarrow> bool" where
  "printable r \<longleftrightarrow> (r_version r = 0x10 \<or> r_version r = 0x11) \<and> 0 \<le> r_status r \<and> r_status r < 2 ^ 31 \<and> (\<forall>ch \<in> set (r_reason r). line_char ch)
     \<and> (\<forall>(k, v) \<in> set (r_headers r). wf_field (k, CHR '' '' # v)) \<and> (\<forall>c \<in> set (r_cookies r). \<forall>ch \<in> set c. line_char ch)"

lemma literal_fields: "wf_field (''connection'', '' close'')" "wf_field (''connection'', '' keep-alive'')"
  "wf_field (''content-length'', CHR '' '' # show_nat n)" "\<forall>ch \<in> set c. line_char ch \<Longrightarrow> wf_field (''Set-Cookie'', CHR '' '' # c)"
proof -
  have d: "digit_char ch" "line_char ch" if "ch \<in> set (show_nat n)" for ch
  proof -
    have "48 \<le> (of_char ch :: nat)" "(of_char ch :: nat) \<le> 57" using show_nat_digits that by auto
    then show "digit_char ch" "line_char ch" using signed_ascii [of ch] by (auto simp: digit_char_def line_char_def)
  qed
  show "wf_field (''connection'', '' close'')" "wf_field (''connection'', '' keep-alive'')" "\<forall>ch \<in> set c. line_char ch \<Longrightarrow> wf_field (''Set-Cookie'', CHR '' '' # c)"
    by (simp_all add: wf_field_def token_char_def line_char_def value_blank_def known_name_def tolower_def signed_ascii)
  obtain c cs where c: "show_nat n = c # cs" by (cases "show_nat n") (auto simp: show_nat.simps [of n] split: if_splits)
  have "\<not> value_blank c" using d(1) [of c] c by (auto simp: digit_char_def value_blank_def Let_def)
  then show "wf_field (''content-length'', CHR '' '' # show_nat n)" using d(2) c
    by (simp add: wf_field_def token_char_def line_char_def value_blank_def known_name_def tolower_def signed_ascii)
qed

lemma status_digits:
  assumes "0 \<le> s" "s < 2 ^ 31"
  shows "show_status s \<noteq> []" "\<forall>ch \<in> set (show_status s). digit_char ch" "atoi (show_status s @ CHR '' '' # ys) = s"
proof -
  have s: "show_status s = show_nat (nat s)" using assms by (simp add: show_status_def)
  show "show_status s \<noteq> []" unfolding s by (subst show_nat.simps) simp
  show "\<forall>ch \<in> set (show_status s). digit_char ch"
  proof
    fix ch assume "ch \<in> set (show_status s)"
    then have "48 \<le> (of_char ch :: nat)" "(of_char ch :: nat) \<le> 57" unfolding s using show_nat_digits by auto
    then show "digit_char ch" using signed_ascii [of ch] by (auto simp: digit_char_def)
  qed
  show "atoi (show_status s @ CHR '' '' # ys) = s" unfolding s using assms atoi_show_nat [of "nat s" "CHR '' ''" ys] by (simp add: digit_of_def)
qed

lemma status_texts:
  "list_all (\<lambda>e. snd e \<noteq> [] \<and> list_all (\<lambda>ch. 32 \<le> (of_char ch :: nat) \<and> of_char ch < (128 :: nat)) (snd e)) HTTP_STATUS_MAP"
  by (simp add: HTTP_STATUS_MAP_def)

lemma dumped_reason_ok:
  assumes "\<forall>ch \<in> set (r_reason r). line_char ch"
  shows "dumped_reason r \<noteq> []" "\<forall>ch \<in> set (dumped_reason r). line_char ch"
proof -
  have p: "line_char ch" if "32 \<le> (of_char ch :: nat)" "of_char ch < (128 :: nat)" for ch
    using signed_ascii [of ch] that by (auto simp: line_char_def)
  have "HttpStatusToString s \<noteq> [] \<and> (\<forall>ch \<in> set (HttpStatusToString s). line_char ch)" for s
  proof (cases "map_of HTTP_STATUS_MAP s")
    case None
    then show ?thesis using p by (simp add: HttpStatusToString_def)
  next
    case (Some t)
    then have "(s, t) \<in> set HTTP_STATUS_MAP" by (rule map_of_SomeD)
    then show ?thesis using status_texts Some p by (fastforce simp: list_all_iff HttpStatusToString_def)
  qed
  then show "dumped_reason r \<noteq> []" "\<forall>ch \<in> set (dumped_reason r). line_char ch" using assms by (auto simp: dumped_reason_def)
qed

lemma printed_response_execute:
  assumes "printable r" "length (r_dump r) < 2 ^ 31"
  shows "\<exists>p. response_execute False (r_dump r) (HttpResponseParser blank) = Inr (length (r_dump r) - length (r_body r), r_body r, p)
    \<and> response_isFinished p \<and> \<not> response_hasError p \<and> \<not> hc_chunked (sp_parser p)
    \<and> sp_data p = fold (\<lambda>kv r. r_setHeader r (fst kv) (dropWhile value_blank (snd kv))) (dumped_fields r)
        ((HttpResponse (r_version r) True)\<lparr>r_status := r_status r, r_reason := dumped_reason r\<rparr>)"
proof -
  obtain d where d: "r_version r = 0x10 \<and> d = CHR ''0'' \<or> r_version r = 0x11 \<and> d = CHR ''1''" using assms(1) by (auto simp: printable_def)
  let ?s = "show_status (r_status r)" and ?F = "dumped_fields r"
  note t = dump_is_response_text [OF d]
  have "\<forall>kv \<in> set ?F. wf_field kv" using assms(1) by (auto simp: dumped_fields_def printable_def literal_fields)
  then have wf: "wf_response d ?s (dumped_reason r) ?F"
    using d assms(1) status_digits [of "r_status r"] dumped_reason_ok [of r] by (auto simp: wf_response_def printable_def digit_char_def)
  have "atoi (?s @ '' '' @ dumped_reason r @ crlf @ concat (map field_text ?F) @ crlf @ r_body r) = r_status r"
    using assms(1) status_digits(3) [of "r_status r"] by (simp add: printable_def)
  then show ?thesis using response_execute_text [OF wf, of "r_body r" blank] assms(2) d unfolding t by (elim disjE conjE) simp_all
qed

section \<open>Properties\<close>

inductive hc_reachable :: "httpclient_parser \<Rightarrow> bool" where
  hc_created: "hc_reachable (httpclient_parser_init blank)"
| hc_executed: "hc_reachable h \<Longrightarrow> hc_cs h < 120 \<Longrightarrow> data \<noteq> [] \<Longrightarrow> length data < 2 ^ 31 \<Longrightarrow>
    httpclient_parser_execute h data 0 = Inr (n, cbs, h') \<Longrightarrow> hc_reachable h'"

lemma hc_reachable_ok: "hc_reachable h \<Longrightarrow> hc_cs h < 120 \<Longrightarrow> hc_parser_ok h"
proof (induction rule: hc_reachable.induct)
  case (hc_executed h data n cbs h')
  then show ?case using hc_execute_safe [of h data] by auto
qed (rule hc_init_ok)


definition demo_client :: httpclient_parser where
  "demo_client = \<lparr>hc_cs = 0, hc_body_start = 0, hc_content_len = 0, hc_status = 0, hc_chunked = False, hc_chunks_done = False, hc_close = False,
     hc_nread = 0, hc_mark = 0, hc_field_start = 0, hc_field_len = 0\<rparr>"


lemma hex_cut: "httpclient_parser_execute (httpclient_parser_init h) ''1'' 0 = Inr (1, [], (httpclient_parser_init h)\<lparr>hc_cs := 2, hc_nread := 1\<rparr>)"
  using hc_cases(1) to_int32_length [of 1]
  by (simp add: httpclient_parser_execute_def hc_init_ok(2) hc_run_def hc_st1_def hc_tr0_def httpclient_parser_init_def)

lemma empty_length_cases:
  "hc_case 112 = Some hc_st112" "hc_case 113 = Some hc_st113" "hc_case 116 = Some hc_st116" "hc_case 117 = Some hc_st117" "hc_case 118 = Some hc_st118" "hc_case 123 = Some hc_st123"
  by (simp only: hc_case_def case_of_def hc_states_length; simp; simp only: hc_states_def nth_numeral)+

text \<open>The end of a header whose last field is \<^verbatim>\<open>Content-Length\<close> without a value.\<close>

lemma empty_length_end:
  "\<exists>h' cbs'. hc_run buffer p (crlf @ crlf @ rest) 112 (h, cbs) = (p + 4, 123, h', cbs') \<and> hc_body_start h' = p + 4"
  by (simp add: hc_run_def crlf_def empty_length_cases hc_st112_def hc_st113_def hc_st116_def hc_st118_def hc_tr150_def hc_tr151_def hc_tr154_def)

lemma length_name_run:
  "hc_run buffer p (''content-length:'' @ ys) 20 (h, cbs) = hc_run buffer (p + 15) ys 112 (h\<lparr>hc_field_start := p, hc_field_len := 14\<rparr>, cbs)"
  by (simp add: hc_run_def hc_cases hc_st20_def name_jumps token_code_def signed_ascii hc_st111_def hc_tr36_def hc_tr148_def; simp add: eval_nat_numeral)

definition empty_length_response :: string where
  "empty_length_response = ''HTTP/1.1 200 OK'' @ crlf @ ''content-length:'' @ crlf @ crlf"

lemma empty_length_run:
  "\<exists>cbs h1. httpclient_parser_execute (httpclient_parser_init h) empty_length_response 0 = Inr (36, cbs, h1) \<and> hc_cs h1 = 123 \<and> hc_body_start h1 = 36"
proof -
  let ?b = "empty_length_response" and ?h = "(httpclient_parser_init h)\<lparr>hc_nread := 0, hc_mark := 0, hc_field_len := 0, hc_field_start := 0\<rparr>"
  have d: "digit_char CHR ''1''" "\<forall>ch \<in> set ''200''. digit_char ch" "\<forall>ch \<in> set ''OK''. line_char ch"
    by (simp_all add: digit_char_def line_char_def signed_ascii)
  have "?b = ''HTTP/1.'' @ CHR ''1'' # CHR '' '' # (''200'' @ CHR '' '' # (''OK'' @ crlf @ (''content-length:'' @ crlf @ crlf)))"
    by (simp add: empty_length_response_def)
  then have "\<exists>h1 cbs. hc_run ?b 0 ?b 1 (?h, []) = hc_run ?b 17 (''content-length:'' @ crlf @ crlf) 20 (h1, cbs)"
    using run_version_part [OF d(1), of ?b "''200'' @ CHR '' '' # (''OK'' @ crlf @ (''content-length:'' @ crlf @ crlf))" ?h]
      run_status_part [OF _ d(2), of ?b 9 "''OK'' @ crlf @ (''content-length:'' @ crlf @ crlf)"]
      run_reason_part [OF _ d(3), of ?b 13 "''content-length:'' @ crlf @ crlf"] by auto
  then obtain h1 cbs where h1: "hc_run ?b 0 ?b 1 (?h, []) = hc_run ?b 17 (''content-length:'' @ crlf @ crlf) 20 (h1, cbs)" by blast
  obtain h2 cbs2 where h2: "hc_run ?b 32 (crlf @ crlf @ []) 112 (h1\<lparr>hc_field_start := 17, hc_field_len := 14\<rparr>, cbs) = (32 + 4, 123, h2, cbs2)" "hc_body_start h2 = 32 + 4"
    using empty_length_end by blast
  have r: "hc_run ?b 0 ?b 1 (?h, []) = (36, 123, h2, cbs2)" unfolding h1 using h2 length_name_run [of ?b 17 "crlf @ crlf" h1 cbs] by simp
  have len: "length ?b = 36" by (simp add: empty_length_response_def crlf_def)
  have ne: "?b \<noteq> []" "length ?b < 2 ^ 31" using len by auto
  from hc_execute_safe [OF hc_init_ok(1) ne, of h] r len h2(2) show ?thesis
    by (auto simp: httpclient_parser_execute_def Let_def hc_init_ok(2) to_int32_small split: if_splits)
qed

lemma final_state_aborts:
  assumes "hc_cs h = 123" "1 < hc_body_start h"
  shows "httpclient_parser_finish h = 0" "httpclient_parser_execute h ''5'' 0 = Inl HcAssert"
  using assms to_int32_length [of 1]
  by (simp_all add: httpclient_parser_finish_def httpclient_parser_has_error_def httpclient_parser_is_finished_def httpclient_parser_execute_def
      hc_run_def empty_length_cases hc_st123_def hc_tr157_def signed_ascii)

text \<open>A value on the line behind the name is taken for a field of its own, with the length of the old name.\<close>

lemma stale_name_run:
  "\<exists>h'. hc_run buffer p (crlf @ ''5'' @ crlf @ ys) 112 (h, cbs) = hc_run buffer (p + 5) ys 20
    (h', cbs @ [FieldCb (drop (hc_field_start h) buffer) (hc_field_len h) (drop p buffer) 0,
                FieldCb (drop (p + 2) buffer) (hc_field_len h) (drop (p + 2) buffer) 1])"
  by (rule exI [of _ "h\<lparr>hc_mark := p + 2, hc_field_start := p + 2, hc_content_len := to_int32 (strtol (drop (p + 2) buffer) 10)\<rparr>"])
    (simp add: hc_run_def crlf_def hc_cases empty_length_cases hc_st112_def hc_st113_def hc_st118_def hc_st117_def hc_st24_def hc_tr_defs signed_ascii; simp add: eval_nat_numeral)

lemma to_int32_wraps: "2 ^ 31 \<le> n \<Longrightarrow> n < 2 ^ 32 \<Longrightarrow> to_int32 n = n - 2 ^ 32"
proof -
  assume n: "2 ^ 31 \<le> n" "n < 2 ^ 32"
  have "(n + 2 ^ 31) mod 2 ^ 32 = ((n - 2 ^ 31) + 2 ^ 32) mod 2 ^ 32" by (simp add: algebra_simps)
  also have "\<dots> = n - 2 ^ 31" using n by (simp only: mod_add_self2) simp
  finally show ?thesis by (simp add: to_int32_def signed_take_bit_eq_take_bit_shift take_bit_eq_mod)
qed

text \<open>C21. Where the response machine and its client go wrong. A header that ends with a \<^verbatim>\<open>content-length\<close> field without a value is consumed to its end, but
  the parser's state is not the one that counts as finished, and the next bytes violate an assertion. A value that stands on the
  line behind such a name is reported as a field of its own, whose name has the length of the old name and so reaches
  behind the received bytes. A chunk size of 2^31 or more becomes negative and is taken for the last chunk. And a
  chunk size that is cut by the end of a read loses the digits in front of the cut, because every call starts anew.\<close>

theorem response_machine_gaps:
  "(\<exists>cbs h1. httpclient_parser_execute (httpclient_parser_init h) empty_length_response 0 = Inr (int (length empty_length_response), cbs, h1)
      \<and> httpclient_parser_finish h1 = 0 \<and> httpclient_parser_execute h1 ''5'' 0 = Inl HcAssert)
   \<and> (\<exists>g'. hc_run buffer p (crlf @ ''5'' @ crlf @ ys) 112 (g, cbs) = hc_run buffer (p + 5) ys 20
      (g', cbs @ [FieldCb (drop (hc_field_start g) buffer) (hc_field_len g) (drop p buffer) 0,
                  FieldCb (drop (p + 2) buffer) (hc_field_len g) (drop (p + 2) buffer) 1]))
   \<and> (hs \<noteq> [] \<longrightarrow> (\<forall>ch \<in> set hs. hex_char ch) \<longrightarrow> 2 ^ 31 \<le> int (read_digits 16 0 hs) \<longrightarrow> int (read_digits 16 0 hs) < 2 ^ 32 \<longrightarrow> length (hs @ crlf @ rest) < 2 ^ 31 \<longrightarrow>
      (\<exists>cbs h1. httpclient_parser_execute (httpclient_parser_init h) (hs @ crlf @ rest) 0 = Inr (int (length hs + 2), cbs, h1)
        \<and> hc_content_len h1 = int (read_digits 16 0 hs) - 2 ^ 32 \<and> hc_chunks_done h1))
   \<and> (\<exists>h1 h2 cbs. httpclient_parser_execute (httpclient_parser_init h) ''1'' 0 = Inr (1, [], h1) \<and> httpclient_parser_finish h1 = 0
      \<and> httpclient_parser_execute (httpclient_parser_init h1) (''0'' @ crlf) 0 = Inr (3, cbs, h2) \<and> hc_content_len h2 = 0 \<and> hc_chunks_done h2)"
proof (intro conjI impI)
  obtain cbs h1 where h1: "httpclient_parser_execute (httpclient_parser_init h) empty_length_response 0 = Inr (36, cbs, h1)" "hc_cs h1 = 123" "hc_body_start h1 = 36"
    using empty_length_run by blast
  have len: "int (length empty_length_response) = 36" by (simp add: empty_length_response_def crlf_def)
  show "\<exists>cbs h1. httpclient_parser_execute (httpclient_parser_init h) empty_length_response 0 = Inr (int (length empty_length_response), cbs, h1)
      \<and> httpclient_parser_finish h1 = 0 \<and> httpclient_parser_execute h1 ''5'' 0 = Inl HcAssert"
    unfolding len using h1 final_state_aborts [of h1] by auto
  show "\<exists>cbs h1. httpclient_parser_execute (httpclient_parser_init h) (hs @ crlf @ rest) 0 = Inr (int (length hs + 2), cbs, h1)
      \<and> hc_content_len h1 = int (read_digits 16 0 hs) - 2 ^ 32 \<and> hc_chunks_done h1"
    if "hs \<noteq> []" "\<forall>ch \<in> set hs. hex_char ch" "2 ^ 31 \<le> int (read_digits 16 0 hs)" "int (read_digits 16 0 hs) < 2 ^ 32" "length (hs @ crlf @ rest) < 2 ^ 31"
    using execute_chunk_header [OF that(1, 2) _ that(5), of h] to_int32_wraps [OF that(3, 4)] that(4) by auto
  have "\<forall>ch \<in> set ''0''. hex_char ch" "read_digits 16 0 ''0'' = 0" by (simp_all add: hex_char_def signed_ascii digit_of_def)
  then show "\<exists>h1 h2 cbs. httpclient_parser_execute (httpclient_parser_init h) ''1'' 0 = Inr (1, [], h1) \<and> httpclient_parser_finish h1 = 0
      \<and> httpclient_parser_execute (httpclient_parser_init h1) (''0'' @ crlf) 0 = Inr (3, cbs, h2) \<and> hc_content_len h2 = 0 \<and> hc_chunks_done h2"
    using hex_cut [of h] execute_chunk_header [of "''0''" "[]" "(httpclient_parser_init h)\<lparr>hc_cs := 2, hc_nread := 1\<rparr>"] to_int32_length [of 0]
    by (auto simp: crlf_def httpclient_parser_finish_def httpclient_parser_has_error_def httpclient_parser_is_finished_def)
qed (rule stale_name_run)

theorem response_machine_gaps_witness:
  "\<exists>cbs h1. httpclient_parser_execute (httpclient_parser_init demo_client) (''80000000'' @ crlf) 0 = Inr (10, cbs, h1) \<and> hc_content_len h1 = - (2 ^ 31) \<and> hc_chunks_done h1"
proof -
  have h: "\<forall>ch \<in> set ''80000000''. hex_char ch" "read_digits 16 0 ''80000000'' = 2 ^ 31" by (simp_all add: hex_char_def signed_ascii digit_of_def)
  have "length (''80000000'' @ crlf @ []) < 2 ^ 31" by (simp add: crlf_def)
  then show ?thesis
    using response_machine_gaps [of demo_client buffer p ys g cbs "''80000000''" "[]", THEN conjunct2, THEN conjunct2, THEN conjunct1] h by auto
qed

end
