(* ===== verification/Sylar_Uri.thy ===== *)
theory Sylar_Uri
  imports Sylar_UriMachine Sylar_ResponseParser
begin


text \<open>
  Uris (\<^verbatim>\<open>src/sylar/uri.cc\<close>, \<^verbatim>\<open>uri.h\<close>): the actions of the machine of \<^verbatim>\<open>Sylar_UriMachine\<close> on the object that is built, \<^verbatim>\<open>Uri::Create\<close>,
  printing, default ports and the address of a uri. The mark is a pointer that may be null; a string made from the null
  pointer is an exception, \<^verbatim>\<open>atoi\<close> of the null pointer a crash.
\<close>

section \<open>The class\<close>

record uri =
  u_scheme :: string
  u_userinfo :: string
  u_host :: string
  u_path :: string
  u_query :: string
  u_fragment :: string
  u_port :: int

datatype uri_error = NullString | NullAtoi

type_synonym uri_state = "uri_error + uri \<times> nat option"

definition Uri :: uri where
  "Uri = \<lparr>u_scheme = '''', u_userinfo = '''', u_host = '''', u_path = '''', u_query = '''', u_fragment = '''', u_port = 0\<rparr>"

text \<open>\<^verbatim>\<open>std::string(mark, p - mark)\<close>, handed to a setter.\<close>

definition from_mark :: "string \<Rightarrow> nat \<Rightarrow> nat option \<Rightarrow> (string \<Rightarrow> uri) \<Rightarrow> uri_state" where
  "from_mark str p mark setter = (case mark of None \<Rightarrow> Inl NullString | Some m \<Rightarrow> Inr (setter (take (p - m) (drop m str)), None))"

fun uri_action :: "string \<Rightarrow> nat \<Rightarrow> uri_act \<Rightarrow> uri_state \<Rightarrow> uri_state" where
  "uri_action str p a (Inl e) = Inl e"
| "uri_action str p U_Mark (Inr (u, mark)) = Inr (u, Some p)"
| "uri_action str p U_Scheme (Inr (u, mark)) = from_mark str p mark (\<lambda>s. u\<lparr>u_scheme := s\<rparr>)"
| "uri_action str p U_Port (Inr (u, mark)) =
     (if mark \<noteq> Some p
      then (case mark of None \<Rightarrow> Inl NullAtoi | Some m \<Rightarrow> Inr (u\<lparr>u_port := atoi (drop m str)\<rparr>, None))
      else Inr (u, None))"
| "uri_action str p U_Userinfo (Inr (u, mark)) =
     Inr ((case mark of None \<Rightarrow> u | Some m \<Rightarrow> u\<lparr>u_userinfo := take (p - m) (drop m str)\<rparr>), None)"
| "uri_action str p U_Host (Inr (u, mark)) =
     Inr ((case mark of None \<Rightarrow> u | Some m \<Rightarrow> u\<lparr>u_host := take (p - m) (drop m str)\<rparr>), mark)"
| "uri_action str p U_Path (Inr (u, mark)) = from_mark str p mark (\<lambda>s. u\<lparr>u_path := s\<rparr>)"
| "uri_action str p U_Query (Inr (u, mark)) = from_mark str p mark (\<lambda>s. u\<lparr>u_query := s\<rparr>)"
| "uri_action str p U_Fragment (Inr (u, mark)) = from_mark str p mark (\<lambda>s. u\<lparr>u_fragment := s\<rparr>)"

definition uri_case :: "nat \<Rightarrow> (int \<Rightarrow> uri_jump) option" where
  "uri_case = case_of uri_states"

definition uri_run :: "string \<Rightarrow> nat \<Rightarrow> string \<Rightarrow> nat \<Rightarrow> uri_state \<Rightarrow> nat \<times> nat \<times> uri_state" where
  "uri_run str = ragel_run uri_case (uri_action str) (\<lambda>a. False)"

text \<open>The actions at the end of the text are skipped when the machine has stopped in its error state.\<close>

definition uri_finish :: "string \<Rightarrow> nat \<times> nat \<times> uri_state \<Rightarrow> uri_error + uri option" where
  "uri_finish str r =
     (case r of (p, cs, s) \<Rightarrow>
        case (if cs \<noteq> 0 then fold (uri_action str p) (uri_eof cs) s else s) of
          Inl e \<Rightarrow> Inl e
        | Inr (u, mark) \<Rightarrow> Inr (if cs = 0 then None else if 451 \<le> cs then Some u else None))"

definition Uri_Create :: "string \<Rightarrow> uri_error + uri option" where
  "Uri_Create uristr = uri_finish uristr (uri_run uristr 0 uristr 451 (Inr (Uri, None)))"

definition isDefaultPort :: "uri \<Rightarrow> bool" where
  "isDefaultPort u \<longleftrightarrow>
     (if u_port u = 0 then True
      else if u_scheme u = ''http'' \<or> u_scheme u = ''ws'' then u_port u = 80
      else if u_scheme u = ''https'' \<or> u_scheme u = ''wss'' then u_port u = 443
      else False)"

definition uri_getPath :: "uri \<Rightarrow> string" where
  "uri_getPath u = (if u_path u = '''' then ''/'' else u_path u)"

definition uri_getPort :: "uri \<Rightarrow> int" where
  "uri_getPort u =
     (if u_port u \<noteq> 0 then u_port u
      else if u_scheme u = ''http'' \<or> u_scheme u = ''ws'' then 80
      else if u_scheme u = ''https'' \<or> u_scheme u = ''wss'' then 443
      else u_port u)"

definition uri_dump :: "uri \<Rightarrow> string" where
  "uri_dump u =
     u_scheme u @ ''://'' @ u_userinfo u @ (if u_userinfo u = '''' then '''' else ''@'') @ u_host u
     @ (if isDefaultPort u then '''' else CHR '':'' # show_int (u_port u)) @ uri_getPath u
     @ (if u_query u = '''' then '''' else ''?'') @ u_query u
     @ (if u_fragment u = '''' then '''' else ''#'') @ u_fragment u"

text \<open>\<^verbatim>\<open>getaddrinfo\<close> is a parameter; the port is converted to 16 bits by \<^verbatim>\<open>setPort\<close>.\<close>

definition set_port :: "Address \<Rightarrow> u16 \<Rightarrow> Address" where
  "set_port a v = (case a of IPv4Address x \<Rightarrow> IPv4Address (IPv4_setPort x v) | IPv6Address x \<Rightarrow> IPv6Address (IPv6_setPort x v) | _ \<Rightarrow> a)"

definition createAddress :: "(string \<Rightarrow> string option \<Rightarrow> sockaddr list option) \<Rightarrow> uri \<Rightarrow> Address option" where
  "createAddress getaddrinfo u = map_option (\<lambda>a. set_port a (of_int (uri_getPort u))) (LookupAnyIPAddress getaddrinfo (u_host u))"

section \<open>Steps of the machine\<close>

lemma uri_states_length: "length uri_states = 560"
  by (simp add: uri_states_def)

lemma uri_cases:
  "uri_case 1 = Some uri_st1" "uri_case 2 = Some uri_st2" "uri_case 7 = Some uri_st7" "uri_case 8 = Some uri_st8" "uri_case 243 = Some uri_st243"
  "uri_case 244 = Some uri_st244" "uri_case 451 = Some uri_st451" "uri_case 453 = Some uri_st453" "uri_case 454 = Some uri_st454"
  "uri_case 456 = Some uri_st456" "uri_case 457 = Some uri_st457" "uri_case 508 = Some uri_st508" "uri_case 509 = Some uri_st509"
  "uri_case 510 = Some uri_st510" "uri_case 511 = Some uri_st511" "uri_case 513 = Some uri_st513" "uri_case 514 = Some uri_st514"
  "uri_case 515 = Some uri_st515" "uri_case 520 = Some uri_st520" "uri_case 521 = Some uri_st521" "uri_case 522 = Some uri_st522"
  "uri_case 523 = Some uri_st523" "uri_case 542 = Some uri_st542"
  by (simp only: uri_case_def case_of_def uri_states_length; simp; simp only: uri_states_def nth_numeral)+

lemma uri_step:
  assumes "uri_case cs = Some st" "st (signed_char ch) = (acts, t)" "t \<noteq> 0"
  shows "uri_run str p (ch # rest) cs s = uri_run str (p + 1) rest t (fold (uri_action str p) acts s)"
  using assms by (auto simp: uri_run_def list_ex_iff)

lemma uri_loop:
  assumes "uri_case cs = Some st" "cs \<noteq> 0" "\<forall>ch \<in> set xs. st (signed_char ch) = ([], cs)"
  shows "uri_run str p (xs @ ys) cs s = uri_run str (p + length xs) ys cs s"
  unfolding uri_run_def by (rule ragel_run_loop [of uri_case cs st xs, OF assms])

text \<open>A text with escapes: \<open>cs\<close> is its loop, \<open>c1\<close> and \<open>c2\<close> the states behind a percent sign.\<close>

definition uri_text_states :: "(char \<Rightarrow> bool) \<Rightarrow> nat \<Rightarrow> nat \<Rightarrow> nat \<Rightarrow> bool" where
  "uri_text_states P cs c1 c2 \<longleftrightarrow> cs \<noteq> 0 \<and> c1 \<noteq> 0 \<and> c2 \<noteq> 0 \<and>
     (\<exists>st st1 st2. uri_case cs = Some st \<and> uri_case c1 = Some st1 \<and> uri_case c2 = Some st2 \<and> st 37 = ([], c1)
       \<and> (\<forall>ch. P ch \<longrightarrow> st (signed_char ch) = ([], cs))
       \<and> (\<forall>ch. hex_char ch \<longrightarrow> st1 (signed_char ch) = ([], c2) \<and> st2 (signed_char ch) = ([], cs)))"

lemma uri_run_text:
  assumes "uri_text_states P cs c1 c2" "pct_text P xs"
  shows "uri_run str p (xs @ ys) cs s = uri_run str (p + length xs) ys cs s"
  using assms
proof (induction P xs arbitrary: p rule: pct_text.induct)
  case (2 P x xs)
  from 2(3) obtain st st1 st2 where st: "uri_case cs = Some st" "uri_case c1 = Some st1" "uri_case c2 = Some st2" "cs \<noteq> 0" "c1 \<noteq> 0" "c2 \<noteq> 0"
    "st (signed_char CHR ''%'') = ([], c1)" "\<And>ch. P ch \<Longrightarrow> st (signed_char ch) = ([], cs)"
    "\<And>ch. hex_char ch \<Longrightarrow> st1 (signed_char ch) = ([], c2)" "\<And>ch. hex_char ch \<Longrightarrow> st2 (signed_char ch) = ([], cs)"
    unfolding uri_text_states_def by auto
  show ?case
  proof (cases "x = CHR ''%''")
    case True
    with 2(4) obtain a b zs where xs: "xs = a # b # zs" "hex_char a" "hex_char b" "pct_text P zs" by (auto split: list.splits)
    have "uri_run str p ((x # xs) @ ys) cs s = uri_run str (p + 1 + 1 + 1) (zs @ ys) cs s"
      using uri_step [OF st(1, 7, 5)] uri_step [OF st(2) st(9) st(6), of a] uri_step [OF st(3) st(10) st(4), of b] xs True by simp
    also have "\<dots> = uri_run str (p + 1 + 1 + 1 + length zs) ys cs s" using 2(1) [OF True xs(1) refl 2(3) xs(4)] by simp
    finally show ?thesis using xs(1) by (simp add: add.assoc)
  next
    case False
    then show ?thesis using 2(2) [OF False 2(3)] 2(4) uri_step [OF st(1) st(8) st(4), of x] by simp
  qed
qed simp

text \<open>A text whose first character is read in another state, with the actions \<open>acts\<close>.\<close>

lemma uri_run_text_from:
  assumes "uri_text_states P cs c1 c2" "pct_text P xs" "xs \<noteq> []" "uri_case cs0 = Some st0" "st0 37 = (acts, c1)"
    "P (hd xs) \<Longrightarrow> st0 (signed_char (hd xs)) = (acts, cs)"
  shows "uri_run str p (xs @ ys) cs0 s = uri_run str (p + length xs) ys cs (fold (uri_action str p) acts s)"
proof -
  obtain x zs where xs: "xs = x # zs" using assms(3) by (cases xs) auto
  obtain st where st: "uri_case cs = Some st" "cs \<noteq> 0" "c1 \<noteq> 0" "st (signed_char CHR ''%'') = ([], c1)" "P x \<Longrightarrow> st (signed_char x) = ([], cs)"
    using assms(1) unfolding uri_text_states_def by auto
  let ?s = "fold (uri_action str p) acts s"
  have "uri_run str p (xs @ ys) cs0 s = uri_run str p (xs @ ys) cs ?s"
  proof (cases "x = CHR ''%''")
    case True
    then show ?thesis using uri_step [of cs0 st0 x acts c1 str p "zs @ ys" s] uri_step [OF st(1, 4, 3), of str p "zs @ ys" ?s] assms(4, 5) st(3) xs by simp
  next
    case False
    then have "P x" using assms(2) xs by simp
    then show ?thesis using uri_step [of cs0 st0 x acts cs str p "zs @ ys" s] uri_step [of cs st x "[]" cs str p "zs @ ys" ?s] assms(4, 6) st(1, 2, 5) xs by simp
  qed
  then show ?thesis using uri_run_text [OF assms(1, 2)] by simp
qed

section \<open>The parts of a uri\<close>

definition scheme_char :: "char \<Rightarrow> bool" where
  "scheme_char ch \<longleftrightarrow> (let k = signed_char ch in k = 43 \<or> k = 45 \<or> k = 46 \<or> 48 \<le> k \<and> k \<le> 57 \<or> 65 \<le> k \<and> k \<le> 90 \<or> 97 \<le> k \<and> k \<le> 122)"

definition letter_char :: "char \<Rightarrow> bool" where
  "letter_char ch \<longleftrightarrow> (let k = signed_char ch in 65 \<le> k \<and> k \<le> 90 \<or> 97 \<le> k \<and> k \<le> 122)"

definition name_char :: "char \<Rightarrow> bool" where
  "name_char ch \<longleftrightarrow> (let k = signed_char ch in k = 33 \<or> k = 36 \<or> 38 \<le> k \<and> k \<le> 46 \<or> k = 59 \<or> k = 61
     \<or> 65 \<le> k \<and> k \<le> 90 \<or> k = 95 \<or> 97 \<le> k \<and> k \<le> 122 \<or> k = 126)"

definition scheme_ok :: "string \<Rightarrow> bool" where
  "scheme_ok s \<longleftrightarrow> s \<noteq> [] \<and> letter_char (hd s) \<and> (\<forall>ch \<in> set s. scheme_char ch)"

definition name_ok :: "string \<Rightarrow> bool" where
  "name_ok s \<longleftrightarrow> s \<noteq> [] \<and> name_char (hd s) \<and> (\<forall>ch \<in> set s. name_char ch \<or> digit_char ch)"

lemma scheme_jumps:
  "letter_char ch \<Longrightarrow> uri_st451 (signed_char ch) = ([U_Mark], 508)" "scheme_char ch \<Longrightarrow> uri_st508 (signed_char ch) = ([], 508)"
proof -
  show "letter_char ch \<Longrightarrow> uri_st451 (signed_char ch) = ([U_Mark], 508)"
    unfolding letter_char_def Let_def uri_st451_def uri_tr461_def by (elim disjE conjE; simp)
  show "scheme_char ch \<Longrightarrow> uri_st508 (signed_char ch) = ([], 508)"
    unfolding scheme_char_def Let_def uri_st508_def by (elim disjE conjE; simp)
qed

lemma name_first:
  assumes "name_char ch"
  shows "uri_st511 (signed_char ch) = ([U_Mark], 520)" "uri_st522 (signed_char ch) = ([U_Mark], 523)"
  using assms unfolding name_char_def Let_def uri_st511_def uri_st522_def by (elim disjE conjE; simp add: uri_tr_defs)+

lemma name_rest:
  assumes "name_char ch \<or> digit_char ch"
  shows "uri_st520 (signed_char ch) = ([], 520)" "uri_st523 (signed_char ch) = ([], 523)"
  using assms unfolding name_char_def digit_char_def Let_def uri_st520_def uri_st523_def by (elim disjE conjE; simp)+

lemma port_jumps:
  assumes "digit_char ch"
  shows "uri_st521 (signed_char ch) = ([U_Mark], 542)" "uri_st514 (signed_char ch) = ([U_Mark], 515)"
    "uri_st542 (signed_char ch) = ([], 542)" "uri_st515 (signed_char ch) = ([], 515)"
  using assms unfolding digit_char_def uri_st521_def uri_st514_def uri_st542_def uri_st515_def by (simp_all add: uri_tr_defs)

lemma uri_delimiters:
  "uri_st508 58 = ([U_Scheme], 509)" "uri_st509 47 = ([], 510)" "uri_st510 47 = ([], 511)"
  "uri_st520 64 = ([U_Userinfo], 522)" "uri_st520 58 = ([U_Host], 521)" "uri_st523 58 = ([U_Host], 514)"
  "uri_st520 47 = ([U_Host, U_Mark], 513)" "uri_st523 47 = ([U_Host, U_Mark], 513)" "uri_st542 47 = ([U_Port, U_Mark], 513)" "uri_st515 47 = ([U_Port, U_Mark], 513)"
  "uri_st513 37 = ([], 243)" "uri_st513 63 = ([U_Path], 456)" "uri_st513 35 = ([U_Path], 453)"
  "uri_st456 37 = ([U_Mark], 7)" "uri_st457 37 = ([], 7)" "uri_st456 35 = ([U_Mark, U_Query], 453)" "uri_st457 35 = ([U_Query], 453)"
  "uri_st453 37 = ([U_Mark], 1)" "uri_st454 37 = ([], 1)"
  by (simp_all add: uri_st508_def uri_st509_def uri_st510_def uri_st513_def uri_st515_def uri_st520_def uri_st523_def uri_st542_def uri_st456_def uri_st457_def
      uri_st453_def uri_st454_def uri_tr_defs)

lemma uri_char_steps:
  assumes "uri_char ch"
  shows "uri_st513 (signed_char ch) = ([], 513)" "uri_st456 (signed_char ch) = ([U_Mark], 457)" "uri_st457 (signed_char ch) = ([], 457)"
    "uri_st453 (signed_char ch) = ([U_Mark], 454)" "uri_st454 (signed_char ch) = ([], 454)"
  using assms unfolding uri_char_def Let_def uri_st513_def uri_st456_def uri_st457_def uri_st453_def uri_st454_def
  by (elim disjE conjE; simp add: uri_tr_defs)+

lemma query_char_steps:
  assumes "query_char ch"
  shows "uri_st456 (signed_char ch) = ([U_Mark], 457)" "uri_st457 (signed_char ch) = ([], 457)"
    "uri_st453 (signed_char ch) = ([U_Mark], 454)" "uri_st454 (signed_char ch) = ([], 454)"
proof -
  have "uri_st456 63 = ([U_Mark], 457)" "uri_st457 63 = ([], 457)" "uri_st453 63 = ([U_Mark], 454)" "uri_st454 63 = ([], 454)"
    by (simp_all add: uri_st456_def uri_st457_def uri_st453_def uri_st454_def uri_tr_defs)
  then show "uri_st456 (signed_char ch) = ([U_Mark], 457)" "uri_st457 (signed_char ch) = ([], 457)"
    "uri_st453 (signed_char ch) = ([U_Mark], 454)" "uri_st454 (signed_char ch) = ([], 454)"
    using assms by (auto simp: query_char_def uri_char_steps)
qed

lemma hex_steps:
  assumes "hex_char ch"
  shows "uri_st243 (signed_char ch) = ([], 244)" "uri_st244 (signed_char ch) = ([], 513)" "uri_st7 (signed_char ch) = ([], 8)" "uri_st8 (signed_char ch) = ([], 457)"
    "uri_st1 (signed_char ch) = ([], 2)" "uri_st2 (signed_char ch) = ([], 454)"
  using assms unfolding hex_char_def Let_def uri_st243_def uri_st244_def uri_st7_def uri_st8_def uri_st1_def uri_st2_def by (elim disjE conjE; simp)+

lemma uri_texts: "uri_text_states uri_char 513 243 244" "uri_text_states query_char 457 7 8" "uri_text_states query_char 454 1 2"
  by (auto simp: uri_text_states_def uri_cases uri_cases(1) [unfolded One_nat_def] uri_delimiters uri_char_steps query_char_steps hex_steps)

lemma run_scheme:
  assumes "scheme_ok scheme"
  shows "uri_run str 0 (scheme @ ''://'' @ ys) 451 (Inr (u, mark)) = uri_run str (length scheme + 3) ys 511 (Inr (u\<lparr>u_scheme := take (length scheme) str\<rparr>, None))"
proof -
  obtain c r where s: "scheme = c # r" "letter_char c" "\<forall>ch \<in> set r. scheme_char ch" using assms by (cases scheme) (auto simp: scheme_ok_def)
  have "uri_run str 1 (r @ ''://'' @ ys) 508 (Inr (u, Some 0)) = uri_run str (1 + length r) (''://'' @ ys) 508 (Inr (u, Some 0))"
    using s(3) by (intro uri_loop [of 508 uri_st508]) (simp_all add: uri_cases scheme_jumps)
  then show ?thesis using s(1, 2)
    by (simp add: uri_step [of 451 uri_st451] uri_step [of 508 uri_st508] uri_step [of 509 uri_st509] uri_step [of 510 uri_st510] uri_cases scheme_jumps uri_delimiters
        from_mark_def; simp add: eval_nat_numeral)
qed

lemma run_uri_name:
  assumes "name_ok name" "cs = 511 \<and> t = 520 \<or> cs = 522 \<and> t = 523"
  shows "uri_run str p (name @ ys) cs (Inr (u, mark)) = uri_run str (p + length name) ys t (Inr (u, Some p))"
proof -
  obtain c r where s: "name = c # r" "name_char c" "\<forall>ch \<in> set r. name_char ch \<or> digit_char ch" using assms(1) by (cases name) (auto simp: name_ok_def)
  obtain st0 st where st: "uri_case cs = Some st0" "uri_case t = Some st" "t \<noteq> 0" "st0 (signed_char c) = ([U_Mark], t)"
    "\<forall>ch \<in> set r. st (signed_char ch) = ([], t)"
    using assms(2) s by (auto simp: uri_cases name_first name_rest)
  show ?thesis using uri_step [OF st(1, 4, 3), of str p "r @ ys"] uri_loop [OF st(2, 3, 5), of str "p + 1" ys "Inr (u, Some p)"] s(1) by simp
qed

lemma run_port:
  assumes "ds \<noteq> []" "\<forall>ch \<in> set ds. digit_char ch" "cs = 520 \<or> cs = 523"
  shows "uri_run str p (CHR '':'' # ds @ CHR ''/'' # ys) cs (Inr (u, Some m)) = uri_run str (p + length ds + 2) ys 513
    (Inr (u\<lparr>u_host := take (p - m) (drop m str), u_port := atoi (drop (p + 1) str)\<rparr>, Some (p + 1 + length ds)))"
proof -
  obtain c r where s: "ds = c # r" using assms(1) by (cases ds) auto
  obtain st c1 st1 c2 st2 where st: "uri_case cs = Some st" "st (signed_char CHR '':'') = ([U_Host], c1)" "c1 \<noteq> 0" "uri_case c1 = Some st1"
    "\<forall>ch \<in> set ds. st1 (signed_char ch) = ([U_Mark], c2)" "c2 \<noteq> 0" "uri_case c2 = Some st2" "\<forall>ch \<in> set ds. st2 (signed_char ch) = ([], c2)"
    "st2 (signed_char CHR ''/'') = ([U_Port, U_Mark], 513)"
  proof (cases "cs = 520")
    case True
    then show ?thesis using assms(2) by (intro that [of uri_st520 521 uri_st521 542 uri_st542]) (simp_all add: uri_cases uri_delimiters port_jumps)
  next
    case False
    then show ?thesis using assms(2, 3) by (intro that [of uri_st523 514 uri_st514 515 uri_st515]) (simp_all add: uri_cases uri_delimiters port_jumps)
  qed
  let ?u = "u\<lparr>u_host := take (p - m) (drop m str)\<rparr>"
  have "uri_run str p (CHR '':'' # ds @ CHR ''/'' # ys) cs (Inr (u, Some m)) = uri_run str (p + 1 + 1) (r @ CHR ''/'' # ys) c2 (Inr (?u, Some (p + 1)))"
    using uri_step [OF st(1-3), of str p "ds @ CHR ''/'' # ys"] uri_step [OF st(4) _ st(6), of c "[U_Mark]" str "p + 1"] st(5) s by simp
  also have "\<dots> = uri_run str (p + 1 + 1 + length r) (CHR ''/'' # ys) c2 (Inr (?u, Some (p + 1)))"
    using st(8) s by (intro uri_loop [OF st(7, 6)]) simp
  also have "\<dots> = uri_run str (p + 1 + 1 + length r + 1) ys 513 (Inr (?u\<lparr>u_port := atoi (drop (p + 1) str)\<rparr>, Some (p + 1 + 1 + length r)))"
    using uri_step [OF st(7, 9), of str "p + 1 + 1 + length r" ys] by simp
  finally show ?thesis using s by simp
qed

lemma eof_actions:
  "uri_eof 513 = [U_Path]" "uri_eof 457 = [U_Query]" "uri_eof 454 = [U_Fragment]" "uri_eof 456 = [U_Mark, U_Query]" "uri_eof 453 = [U_Mark, U_Fragment]"
  by (simp_all add: uri_eof_def)

lemma uri_run_end: "uri_run str p [] cs s = (p, cs, s)"
  by (simp add: uri_run_def)

lemma finish_fragment:
  assumes "pct_text query_char frag" "drop p str = frag"
  shows "uri_finish str (uri_run str p frag 453 (Inr (u, mark))) = Inr (Some (u\<lparr>u_fragment := frag\<rparr>))"
proof (cases "frag = []")
  case True
  then show ?thesis by (simp add: uri_run_end uri_finish_def eof_actions from_mark_def)
next
  case False
  have "uri_run str p (frag @ []) 453 (Inr (u, mark)) = uri_run str (p + length frag) [] 454 (fold (uri_action str p) [U_Mark] (Inr (u, mark)))"
    by (rule uri_run_text_from [OF uri_texts(3) assms(1) False uri_cases(8) uri_delimiters(18) query_char_steps(3)])
  then show ?thesis using assms(2) by (simp add: uri_run_end uri_finish_def eof_actions from_mark_def)
qed

lemma finish_query:
  assumes "pct_text query_char query" "pct_text query_char (case frag of None \<Rightarrow> [] | Some f \<Rightarrow> f)" "drop p str = query @ part (CHR ''#'') frag"
  shows "uri_finish str (uri_run str p (query @ part (CHR ''#'') frag) 456 (Inr (u, mark)))
    = Inr (Some (u\<lparr>u_query := query, u_fragment := (case frag of None \<Rightarrow> u_fragment u | Some f \<Rightarrow> f)\<rparr>))"
proof -
  have q: "uri_run str p (query @ ys) 456 (Inr (u, mark)) = uri_run str (p + length query) ys 457 (Inr (u, Some p))" if "query \<noteq> []" for ys
    using uri_run_text_from [OF uri_texts(2) assms(1) that uri_cases(10) uri_delimiters(14) query_char_steps(1), of str p ys "Inr (u, mark)"] by simp
  show ?thesis
  proof (cases frag)
    case None
    then show ?thesis using assms(3) q [of "[]"] by (cases "query = []") (simp_all add: part_def uri_run_end uri_finish_def eof_actions from_mark_def)
  next
    case (Some f)
    have d: "drop (p + length query + 1) str = f" using drop_shift [of p str "query @ ''#''" f] assms(3) Some by (simp add: part_def)
    have "uri_run str p (query @ CHR ''#'' # f) 456 (Inr (u, mark)) = uri_run str (p + length query + 1) f 453 (Inr (u\<lparr>u_query := query\<rparr>, None))"
      using q [of "CHR ''#'' # f"] assms(3)
      by (cases "query = []") (simp_all add: uri_step [of 456 uri_st456] uri_step [of 457 uri_st457] uri_cases uri_delimiters from_mark_def)
    then show ?thesis using finish_fragment [OF _ d] assms(2) Some by (simp add: part_def)
  qed
qed

lemma finish_path:
  assumes "pct_text uri_char r" "pct_text query_char (case query of None \<Rightarrow> [] | Some q \<Rightarrow> q)" "pct_text query_char (case frag of None \<Rightarrow> [] | Some f \<Rightarrow> f)"
    "drop m str = CHR ''/'' # r @ part (CHR ''?'') query @ part (CHR ''#'') frag"
  shows "uri_finish str (uri_run str (m + 1) (r @ part (CHR ''?'') query @ part (CHR ''#'') frag) 513 (Inr (u, Some m)))
    = Inr (Some (u\<lparr>u_path := CHR ''/'' # r, u_query := (case query of None \<Rightarrow> u_query u | Some q \<Rightarrow> q), u_fragment := (case frag of None \<Rightarrow> u_fragment u | Some f \<Rightarrow> f)\<rparr>))"
proof -
  let ?p = "m + 1 + length r"
  have d: "drop (m + 1 + length r) str = part (CHR ''?'') query @ part (CHR ''#'') frag" using drop_shift [of m str "CHR ''/'' # r"] assms(4) by simp
  note run = uri_run_text [OF uri_texts(1) assms(1)]
  show ?thesis
  proof (cases query)
    case (Some q)
    have "drop (?p + 1) str = q @ part (CHR ''#'') frag" using drop_shift [of ?p str "''?''"] d Some by (simp add: part_def [of "CHR ''?''"])
    from finish_query [OF _ assms(3) this] show ?thesis
      using run assms(2, 4) Some by (simp add: part_def [of "CHR ''?''"] uri_step [of 513 uri_st513] uri_cases uri_delimiters from_mark_def cong: option.case_cong)
  next
    case None
    show ?thesis
    proof (cases frag)
      case frag: None
      then show ?thesis using run [of str "m + 1" "[]"] assms(4) None by (simp add: part_def uri_run_end uri_finish_def eof_actions from_mark_def)
    next
      case frag: (Some f)
      have "drop (?p + 1) str = f" using drop_shift [of ?p str "''#''"] d None frag by (simp add: part_def)
      from finish_fragment [OF _ this] show ?thesis
        using run assms(3, 4) None frag by (simp add: part_def uri_step [of 513 uri_st513] uri_cases uri_delimiters from_mark_def)
    qed
  qed
qed

definition uri_text :: "string \<Rightarrow> string option \<Rightarrow> string \<Rightarrow> string option \<Rightarrow> string \<Rightarrow> string option \<Rightarrow> string option \<Rightarrow> string" where
  "uri_text scheme userinfo host port r query frag =
     scheme @ ''://'' @ (case userinfo of None \<Rightarrow> [] | Some i \<Rightarrow> i @ ''@'') @ host @ part (CHR '':'') port @ CHR ''/'' # r @ part (CHR ''?'') query @ part (CHR ''#'') frag"

definition wf_uri :: "string \<Rightarrow> string option \<Rightarrow> string \<Rightarrow> string option \<Rightarrow> string \<Rightarrow> string option \<Rightarrow> string option \<Rightarrow> bool" where
  "wf_uri scheme userinfo host port r query frag \<longleftrightarrow>
     scheme_ok scheme \<and> (\<forall>i. userinfo = Some i \<longrightarrow> name_ok i) \<and> name_ok host \<and> (\<forall>ds. port = Some ds \<longrightarrow> ds \<noteq> [] \<and> (\<forall>ch \<in> set ds. digit_char ch))
     \<and> pct_text uri_char r \<and> pct_text query_char (case query of None \<Rightarrow> [] | Some q \<Rightarrow> q) \<and> pct_text query_char (case frag of None \<Rightarrow> [] | Some f \<Rightarrow> f)"

lemma run_authority:
  assumes "\<forall>i. userinfo = Some i \<longrightarrow> name_ok i" "name_ok host" "drop p str = (case userinfo of None \<Rightarrow> [] | Some i \<Rightarrow> i @ ''@'') @ host @ ys"
  shows "\<exists>cs q. (cs = 520 \<or> cs = 523) \<and> drop q str = host @ ys \<and> uri_run str p (drop p str) 511 (Inr (u, None))
    = uri_run str (q + length host) ys cs (Inr ((case userinfo of None \<Rightarrow> u | Some i \<Rightarrow> u\<lparr>u_userinfo := i\<rparr>), Some q))"
proof (cases userinfo)
  case None
  then show ?thesis using assms(3) run_uri_name [OF assms(2), of 511 520 str p ys u None] by auto
next
  case (Some i)
  let ?q = "p + length i + 1"
  have d: "drop p str = i @ CHR ''@'' # host @ ys" "drop ?q str = host @ ys" "signed_char CHR ''@'' = 64"
    using assms(3) Some drop_shift [of p str "i @ ''@''"] by (simp_all add: signed_ascii)
  have "uri_run str p (i @ CHR ''@'' # host @ ys) 511 (Inr (u, None)) = uri_run str (p + length i) (CHR ''@'' # host @ ys) 520 (Inr (u, Some p))"
    using run_uri_name [of i 511 520 str p "CHR ''@'' # host @ ys" u None] assms(1) Some by simp
  also have "\<dots> = uri_run str ?q (host @ ys) 522 (Inr (u\<lparr>u_userinfo := i\<rparr>, None))"
    using d by (simp add: uri_step [of 520 uri_st520] uri_cases uri_delimiters)
  also have "\<dots> = uri_run str (?q + length host) ys 523 (Inr (u\<lparr>u_userinfo := i\<rparr>, Some ?q))"
    using run_uri_name [OF assms(2), of 522 523] by simp
  finally show ?thesis using d Some by (intro exI [of _ 523] exI [of _ ?q]) simp
qed

lemma create_text:
  assumes "wf_uri scheme userinfo host port r query frag"
  defines "str \<equiv> uri_text scheme userinfo host port r query frag"
  shows "Uri_Create str = Inr (Some \<lparr>u_scheme = scheme, u_userinfo = (case userinfo of None \<Rightarrow> [] | Some i \<Rightarrow> i), u_host = host, u_path = CHR ''/'' # r,
    u_query = (case query of None \<Rightarrow> [] | Some q \<Rightarrow> q), u_fragment = (case frag of None \<Rightarrow> [] | Some f \<Rightarrow> f),
    u_port = (case port of None \<Rightarrow> 0 | Some ds \<Rightarrow> atoi (ds @ CHR ''/'' # r @ part (CHR ''?'') query @ part (CHR ''#'') frag))\<rparr>)"
proof -
  note ok = assms(1) [unfolded wf_uri_def]
  let ?t = "CHR ''/'' # r @ part (CHR ''?'') query @ part (CHR ''#'') frag" and ?n = "length scheme + 3"
  let ?ui = "case userinfo of None \<Rightarrow> [] | Some i \<Rightarrow> i @ ''@''" and ?u = "Uri\<lparr>u_scheme := scheme\<rparr>"
  have s: "str = scheme @ ''://'' @ ?ui @ host @ part (CHR '':'') port @ ?t" by (simp add: str_def uri_text_def)
  have d: "drop ?n str = ?ui @ host @ part (CHR '':'') port @ ?t" using s by simp
  have a: "uri_run str 0 str 451 (Inr (Uri, None)) = uri_run str ?n (drop ?n str) 511 (Inr (?u, None))"
    using run_scheme [of scheme str "?ui @ host @ part (CHR '':'') port @ ?t" Uri None] ok s d by simp
  let ?v = "case userinfo of None \<Rightarrow> ?u | Some i \<Rightarrow> ?u\<lparr>u_userinfo := i\<rparr>"
  obtain cs q where q: "cs = 520 \<or> cs = 523" "drop q str = host @ part (CHR '':'') port @ ?t"
    "uri_run str ?n (drop ?n str) 511 (Inr (?u, None)) = uri_run str (q + length host) (part (CHR '':'') port @ ?t) cs (Inr (?v, Some q))"
    using run_authority [OF _ _ d, of ?u] ok by auto
  have h: "drop (q + length host) str = part (CHR '':'') port @ ?t" using drop_shift [OF q(2)] .
  show ?thesis
  proof (cases port)
    case None
    have "uri_run str (q + length host) ?t cs (Inr (?v, Some q)) = uri_run str (q + length host + 1) (r @ part (CHR ''?'') query @ part (CHR ''#'') frag) 513
        (Inr (?v\<lparr>u_host := host\<rparr>, Some (q + length host)))"
      using q(1, 2) by (elim disjE) (simp_all add: uri_step [of 520 uri_st520] uri_step [of 523 uri_st523] uri_cases uri_delimiters)
    then show ?thesis using a q(3) h None finish_path [of r query frag "q + length host" str "?v\<lparr>u_host := host\<rparr>"] ok
      by (auto simp: Uri_Create_def part_def [of "CHR '':''"] Uri_def split: option.splits)
  next
    case (Some ds)
    let ?m = "q + length host + 1 + length ds"
    have d2: "drop (q + length host + 1) str = ds @ ?t" "drop ?m str = ?t"
      using h Some drop_shift [of "q + length host" str "'':''" "ds @ ?t"] drop_shift [of "q + length host" str "CHR '':'' # ds" ?t] by (simp_all add: part_def [of "CHR '':''"])
    have "uri_run str (q + length host) (CHR '':'' # ds @ ?t) cs (Inr (?v, Some q)) = uri_run str (?m + 1) (r @ part (CHR ''?'') query @ part (CHR ''#'') frag) 513
        (Inr (?v\<lparr>u_host := host, u_port := atoi (ds @ ?t)\<rparr>, Some ?m))"
      using run_port [OF _ _ q(1), of ds str "q + length host"] ok Some q(2) d2(1) by simp
    then show ?thesis using a q(3) Some finish_path [OF _ _ _ d2(2), of "?v\<lparr>u_host := host, u_port := atoi (ds @ ?t)\<rparr>"] ok
      by (auto simp: Uri_Create_def part_def [of "CHR '':''"] Uri_def split: option.splits)
  qed
qed

section \<open>Printing and reading\<close>

definition printable_uri :: "uri \<Rightarrow> bool" where
  "printable_uri u \<longleftrightarrow>
     scheme_ok (u_scheme u) \<and> (u_userinfo u = '''' \<or> name_ok (u_userinfo u)) \<and> name_ok (u_host u)
     \<and> (u_path u = '''' \<or> hd (u_path u) = CHR ''/'' \<and> pct_text uri_char (tl (u_path u)))
     \<and> pct_text query_char (u_query u) \<and> pct_text query_char (u_fragment u) \<and> 0 \<le> u_port u \<and> u_port u < 2 ^ 31"

lemma show_nat_digit_char: "\<forall>ch \<in> set (show_nat n). digit_char ch"
proof
  fix ch assume "ch \<in> set (show_nat n)"
  then have "48 \<le> (of_char ch :: nat)" "(of_char ch :: nat) \<le> 57" using show_nat_digits [of n] by auto
  then show "digit_char ch" using signed_ascii [of ch] by (auto simp: digit_char_def)
qed

lemma uri_dump_text:
  assumes "printable_uri u"
  defines "port \<equiv> if isDefaultPort u then None else Some (show_nat (nat (u_port u)))"
  shows "uri_dump u = uri_text (u_scheme u) (some_text (u_userinfo u)) (u_host u) port (tl (uri_getPath u)) (some_text (u_query u)) (some_text (u_fragment u))"
    "wf_uri (u_scheme u) (some_text (u_userinfo u)) (u_host u) port (tl (uri_getPath u)) (some_text (u_query u)) (some_text (u_fragment u))"
    "CHR ''/'' # tl (uri_getPath u) = uri_getPath u"
proof -
  have "show_nat n \<noteq> []" for n by (subst show_nat.simps) simp
  then show "wf_uri (u_scheme u) (some_text (u_userinfo u)) (u_host u) port (tl (uri_getPath u)) (some_text (u_query u)) (some_text (u_fragment u))"
    using assms(1) show_nat_digit_char by (auto simp: wf_uri_def printable_uri_def port_def some_text_def uri_getPath_def)
  show p: "CHR ''/'' # tl (uri_getPath u) = uri_getPath u" using assms(1) by (cases "u_path u") (auto simp: printable_uri_def uri_getPath_def)
  show "uri_dump u = uri_text (u_scheme u) (some_text (u_userinfo u)) (u_host u) port (tl (uri_getPath u)) (some_text (u_query u)) (some_text (u_fragment u))"
    unfolding uri_text_def append_Cons [symmetric] p using assms(1)
    by (auto simp: uri_dump_def port_def some_text_def part_def show_int_def printable_uri_def)
qed

lemma create_dump:
  assumes "printable_uri u"
  shows "Uri_Create (uri_dump u) = Inr (Some (u\<lparr>u_path := uri_getPath u, u_port := if isDefaultPort u then 0 else u_port u\<rparr>))"
proof -
  note d = uri_dump_text [OF assms]
  have "digit_of CHR ''/'' = None" by (simp add: digit_of_def)
  moreover have "nat (u_port u) < 2 ^ 31" "0 \<le> u_port u" using assms by (auto simp: printable_uri_def)
  ultimately have a: "atoi (show_nat (nat (u_port u)) @ CHR ''/'' # r) = u_port u" for r using atoi_show_nat [of "nat (u_port u)"] by simp
  have "(case some_text s of None \<Rightarrow> [] | Some t \<Rightarrow> t) = s" for s by (simp add: some_text_def)
  then show ?thesis using create_text [OF d(2), folded d(1)] d(3) a by simp
qed

lemma reread_same:
  defines "v \<equiv> \<lambda>u. u\<lparr>u_path := uri_getPath u, u_port := if isDefaultPort u then 0 else u_port u\<rparr>"
  shows "uri_getPort (v u) = uri_getPort u" "uri_dump (v u) = uri_dump u"
proof -
  have port: "uri_getPort u = p" if d: "isDefaultPort u" "p = uri_getPort (u\<lparr>u_port := 0\<rparr>)" for p
  proof -
    have "''https'' \<noteq> ''http''" "''https'' \<noteq> ''ws''" "''wss'' \<noteq> ''http''" "''wss'' \<noteq> ''ws''" by simp_all
    then show ?thesis using d unfolding uri_getPort_def isDefaultPort_def by (simp only: uri.simps if_True if_False split: if_split_asm) auto
  qed
  have "uri_getPort (u\<lparr>u_path := q, u_port := n\<rparr>) = uri_getPort (u\<lparr>u_port := n\<rparr>)" "uri_getPort (u\<lparr>u_path := q\<rparr>) = uri_getPort u" for q n
    by (simp_all add: uri_getPort_def)
  then show "uri_getPort (v u) = uri_getPort u" using port by (cases "isDefaultPort u") (simp_all add: v_def)
  have "isDefaultPort (v u) = isDefaultPort u" "uri_getPath (v u) = uri_getPath u" by (simp_all add: v_def isDefaultPort_def uri_getPath_def)
  then show "uri_dump (v u) = uri_dump u" by (simp add: uri_dump_def v_def)
qed


definition demo_uri :: uri where
  "demo_uri = \<lparr>u_scheme = ''https'', u_userinfo = '''', u_host = ''sylar.top'', u_path = ''/a%20b'', u_query = ''k=v'', u_fragment = '''', u_port = 8443\<rparr>"


section \<open>An empty port\<close>

lemma run_empty_port:
  assumes "cs = 520 \<or> cs = 523"
  shows "uri_finish str (uri_run str p '':'' cs (Inr (u, Some m))) = Inl NullString"
    "uri_run str p ('':/'' @ ys) cs (Inr (u, Some m)) = uri_run str (p + 2) ys 513 (Inr (u\<lparr>u_host := take (p - m) (drop m str)\<rparr>, None))"
proof -
  have e: "uri_eof 514 = [U_Mark, U_Port, U_Path]" "uri_eof 521 = [U_Mark, U_Port, U_Path]" by (simp_all add: uri_eof_def)
  have j: "uri_st514 47 = ([U_Mark, U_Port], 513)" "uri_st521 47 = ([U_Mark, U_Port], 513)" by (simp_all add: uri_st514_def uri_st521_def uri_tr_defs)
  show "uri_finish str (uri_run str p '':'' cs (Inr (u, Some m))) = Inl NullString" using assms
    by (elim disjE) (simp_all add: uri_step [of 520 uri_st520] uri_step [of 523 uri_st523] uri_cases uri_delimiters uri_run_end uri_finish_def e from_mark_def)
  show "uri_run str p ('':/'' @ ys) cs (Inr (u, Some m)) = uri_run str (p + 2) ys 513 (Inr (u\<lparr>u_host := take (p - m) (drop m str)\<rparr>, None))" using assms
    by (elim disjE) (simp_all add: uri_step [of 520 uri_st520] uri_step [of 523 uri_st523] uri_step [of 514 uri_st514] uri_step [of 521 uri_st521] uri_cases uri_delimiters j)
qed

lemma run_raised: "\<exists>q c. uri_run str p xs cs (Inl e) = (q, c, Inl e)"
proof (induction xs arbitrary: p cs)
  case (Cons x xs)
  have "fold (uri_action str p) as (Inl e) = Inl e" for as by (induction as) simp_all
  then show ?case using Cons by (auto simp: uri_run_def Let_def split: option.splits prod.splits)
qed (simp add: uri_run_end)

lemma finish_raised: "uri_finish str (uri_run str p xs cs (Inl e)) = Inl e"
proof -
  obtain q c where "uri_run str p xs cs (Inl e) = (q, c, Inl e)" using run_raised by blast
  moreover have "fold (uri_action str q) as (Inl e) = Inl e" for as by (induction as) simp_all
  ultimately show ?thesis by (simp add: uri_finish_def)
qed

lemma finish_null_path:
  assumes "pct_text uri_char r"
  shows "uri_finish str (uri_run str p (r @ part (CHR ''?'') query @ part (CHR ''#'') frag) 513 (Inr (u, None))) = Inl NullString"
proof -
  note run = uri_run_text [OF uri_texts(1) assms]
  have e: "uri_finish str (uri_run str p (r @ []) 513 (Inr (u, None))) = Inl NullString"
    unfolding run by (simp add: uri_run_end uri_finish_def eof_actions from_mark_def)
  show ?thesis using e by (cases query; cases frag)
    (simp_all add: run part_def finish_raised from_mark_def uri_step [of 513 uri_st513] uri_cases uri_delimiters)
qed

lemma create_empty_port:
  assumes "wf_uri scheme userinfo host None r query frag"
  shows "Uri_Create (scheme @ ''://'' @ (case userinfo of None \<Rightarrow> [] | Some i \<Rightarrow> i @ ''@'') @ host @ '':'') = Inl NullString"
    "Uri_Create (uri_text scheme userinfo host (Some []) r query frag) = Inl NullString"
proof -
  let ?ui = "case userinfo of None \<Rightarrow> [] | Some i \<Rightarrow> i @ ''@''"
  note ok = assms [unfolded wf_uri_def]
  have run: "\<exists>cs q u. (cs = 520 \<or> cs = 523) \<and> Uri_Create (scheme @ ''://'' @ ?ui @ host @ ys)
    = uri_finish (scheme @ ''://'' @ ?ui @ host @ ys) (uri_run (scheme @ ''://'' @ ?ui @ host @ ys) (q + length host) ys cs (Inr (u, Some q)))" for ys
  proof -
    let ?str = "scheme @ ''://'' @ ?ui @ host @ ys" and ?u = "Uri\<lparr>u_scheme := scheme\<rparr>"
    have d: "drop (length scheme + 3) ?str = ?ui @ host @ ys" by simp
    have "uri_run ?str 0 ?str 451 (Inr (Uri, None)) = uri_run ?str (length scheme + 3) (drop (length scheme + 3) ?str) 511 (Inr (?u, None))"
      using run_scheme [of scheme ?str "?ui @ host @ ys" Uri None] ok d by simp
    then show ?thesis unfolding Uri_Create_def using run_authority [OF _ _ d, of ?u] ok by metis
  qed
  show "Uri_Create (scheme @ ''://'' @ ?ui @ host @ '':'') = Inl NullString"
    using run [of "'':''"] run_empty_port(1) by auto
  show "Uri_Create (uri_text scheme userinfo host (Some []) r query frag) = Inl NullString"
    using run [of "'':/'' @ r @ part (CHR ''?'') query @ part (CHR ''#'') frag"] run_empty_port(2) finish_null_path ok
    by (auto simp: uri_text_def part_def [of "CHR '':''"])
qed

end
