(* ===== verification/Sylar_UriMark.thy ===== *)
theory Sylar_UriMark
  imports Sylar_Uri
begin

text \<open>
  The mark of the uri machine: in which states it may be null, for every label of the machine what becomes of it, and therefore which
  texts make \<^verbatim>\<open>Uri::Create\<close> raise.
\<close>

section \<open>When the mark is null\<close>

definition may_null :: "nat \<Rightarrow> bool" where
  "may_null s \<longleftrightarrow> 3 \<le> s \<and> s \<le> 6 \<or> s = 243 \<or> s = 244 \<or> 451 \<le> s \<and> s \<le> 453 \<or> s = 455 \<or> s = 456 \<or> s = 458 \<or> s = 459 \<or> s = 469
     \<or> 509 \<le> s \<and> s \<le> 511 \<or> s = 513 \<or> s = 522"

definition path_state :: "nat \<Rightarrow> bool" where "path_state s \<longleftrightarrow> s = 243 \<or> s = 244 \<or> s = 513"
definition port_state :: "nat \<Rightarrow> bool" where "port_state s \<longleftrightarrow> s = 514 \<or> s = 521"
definition slash_state :: "nat \<Rightarrow> bool" where "slash_state s \<longleftrightarrow> s = 458 \<or> s = 510"
definition authority_state :: "nat \<Rightarrow> bool" where "authority_state s \<longleftrightarrow> 9 \<le> s \<and> s \<le> 450 \<or> 459 \<le> s \<and> s \<le> 507 \<or> 511 \<le> s"

fun mark_after :: "bool \<Rightarrow> uri_act list \<Rightarrow> bool option" where
  "mark_after v [] = Some v"
| "mark_after v (U_Mark # as) = mark_after True as"
| "mark_after v (U_Host # as) = mark_after v as"
| "mark_after v (U_Userinfo # as) = mark_after False as"
| "mark_after v (a # as) = (if v then mark_after False as else None)"

definition jump_fine :: "nat \<Rightarrow> int \<Rightarrow> uri_jump \<Rightarrow> bool" where
  "jump_fine cs c j \<longleftrightarrow> snd j = 0 \<or>
     (\<forall>v. v \<or> may_null cs \<longrightarrow>
        (case mark_after v (fst j) of
           None \<Rightarrow> port_state cs \<and> (c = 63 \<or> c = 35) \<or> path_state cs \<and> \<not> v
         | Some w \<Rightarrow> (w \<or> may_null (snd j)) \<and> (path_state (snd j) \<and> \<not> w \<longrightarrow> port_state cs \<and> c = 47 \<or> path_state cs \<and> \<not> v)))
     \<and> (authority_state (snd j) \<longrightarrow> authority_state cs \<or> slash_state cs \<and> c = 47)
     \<and> (port_state (snd j) \<longrightarrow> c = 58) \<and> (slash_state (snd j) \<longrightarrow> c = 47) \<and> snd j \<le> 560"

fun labels_fine :: "nat \<Rightarrow> (int \<Rightarrow> uri_jump) list \<Rightarrow> bool" where
  "labels_fine n [] \<longleftrightarrow> True"
| "labels_fine n (st # sts) \<longleftrightarrow> (\<forall>c. jump_fine n c (st c)) \<and> labels_fine (n + 1) sts"

lemma jump_fine_if: "(b \<Longrightarrow> jump_fine cs c x) \<Longrightarrow> jump_fine cs c y \<Longrightarrow> jump_fine cs c (if b then x else y)"
  by simp

lemma jump_fine_error: "jump_fine cs c ([], 0)"
  by (simp add: jump_fine_def)

lemma uri_states_fine: "labels_fine 1 uri_states"
  unfolding uri_states_def labels_fine.simps one_add_one numeral_plus_one add_num_simps uri_st_defs
  by (intro conjI allI TrueI jump_fine_error jump_fine_if; simp add: uri_tr_defs jump_fine_def all_bool_eq may_null_def path_state_def port_state_def slash_state_def authority_state_def)

lemma labels_fine_nth: "labels_fine n sts \<Longrightarrow> i < length sts \<Longrightarrow> jump_fine (n + i) c ((sts ! i) c)"
proof (induction sts arbitrary: n i)
  case (Cons st sts)
  then show ?case using Cons.IH [of "n + 1" "i - 1"] by (cases i) auto
qed simp

lemma uri_case_fine: "uri_case cs = Some st \<Longrightarrow> jump_fine cs c (st c)"
  using labels_fine_nth [OF uri_states_fine, of "cs - 1" c] by (auto simp: uri_case_def case_of_def split: if_splits)

text \<open>The authority, behind a double slash, has a colon with no port behind it; \<open>closed\<close> when the character that shows it has been read.\<close>

definition empty_port :: "bool \<Rightarrow> string \<Rightarrow> bool" where
  "empty_port closed s \<longleftrightarrow> (\<exists>x y b. s = x @ ''//'' @ y @ '':'' @ b \<and> (\<not> closed \<and> b = [] \<or> b \<noteq> [] \<and> hd b \<in> {CHR ''/'', CHR ''?'', CHR ''#''}))"

lemma empty_port_more: "empty_port True s \<Longrightarrow> empty_port c (s @ t)"
  unfolding empty_port_def by (elim exE conjE disjE; simp; metis append.assoc append_Cons hd_append2 Nil_is_append_conv)

definition uri_inv :: "string \<Rightarrow> nat \<Rightarrow> uri_state \<Rightarrow> bool" where
  "uri_inv pre cs s \<longleftrightarrow> 0 < cs \<and> cs \<le> 560
     \<and> (case s of Inl _ \<Rightarrow> empty_port True pre
        | Inr (u, mark) \<Rightarrow> (mark = None \<longrightarrow> may_null cs) \<and> (path_state cs \<and> mark = None \<longrightarrow> empty_port True pre))
     \<and> (authority_state cs \<longrightarrow> (\<exists>x y. pre = x @ ''//'' @ y)) \<and> (port_state cs \<longrightarrow> (\<exists>x y. pre = x @ ''//'' @ y @ '':''))
     \<and> (slash_state cs \<longrightarrow> (\<exists>x. pre = x @ ''/''))"

lemma fold_inl: "fold (uri_action str p) as (Inl e) = Inl e"
  by (induction as) simp_all

definition mark_view :: "uri_state \<Rightarrow> bool option" where
  "mark_view s = (case s of Inl _ \<Rightarrow> None | Inr (u, mark) \<Rightarrow> Some (mark \<noteq> None))"

lemma uri_actions_mark: "mark_view (fold (uri_action str p) as (Inr (u, mark))) = mark_after (mark \<noteq> None) as"
proof (induction as arbitrary: u mark)
  case (Cons a as)
  have none: "mark_view (Inl e) = None" for e by (simp add: mark_view_def)
  show ?case by (cases a; cases mark) (simp_all add: Cons from_mark_def fold_inl none)
qed (simp add: mark_view_def)

lemma uri_eof_fine: "v \<or> may_null cs \<Longrightarrow> mark_after v (uri_eof cs) = None \<Longrightarrow> port_state cs \<or> path_state cs \<and> \<not> v"
  by (auto simp: uri_eof_def may_null_def port_state_def path_state_def split: if_splits)

lemma uri_inv_parts:
  assumes "uri_inv pre cs s"
  shows "authority_state cs \<Longrightarrow> \<exists>x y. pre = x @ ''//'' @ y" "port_state cs \<Longrightarrow> \<exists>x y. pre = x @ ''//'' @ y @ '':''" "slash_state cs \<Longrightarrow> \<exists>x. pre = x @ ''/''"
    "0 < cs" "cs \<le> 560"
  using assms unfolding uri_inv_def by blast+

lemma jump_fine_parts:
  assumes "jump_fine cs c (acts, t)" "t \<noteq> 0"
  shows "v \<or> may_null cs \<Longrightarrow> (case mark_after v acts of
           None \<Rightarrow> port_state cs \<and> (c = 63 \<or> c = 35) \<or> path_state cs \<and> \<not> v
         | Some w \<Rightarrow> (w \<or> may_null t) \<and> (path_state t \<and> \<not> w \<longrightarrow> port_state cs \<and> c = 47 \<or> path_state cs \<and> \<not> v))"
    "authority_state t \<longrightarrow> authority_state cs \<or> slash_state cs \<and> c = 47"
    "port_state t \<longrightarrow> c = 58" "slash_state t \<longrightarrow> c = 47" "t \<le> 560"
  using assms unfolding jump_fine_def fst_conv snd_conv by blast+

lemma uri_inv_step:
  assumes "uri_inv pre cs s" "uri_case cs = Some st" "st (signed_char ch) = (acts, t)" "t \<noteq> 0"
  shows "uri_inv (pre @ [ch]) t (fold (uri_action str p) acts s)"
proof -
  let ?k = "signed_char ch" and ?s = "fold (uri_action str p) acts s"
  have "jump_fine cs ?k (acts, t)" using uri_case_fine [OF assms(2), of ?k] assms(3) by simp
  note parts = jump_fine_parts [OF this assms(4)]
  have ch: "?k = 47 \<Longrightarrow> ch = CHR ''/''" "?k = 63 \<Longrightarrow> ch = CHR ''?''" "?k = 35 \<Longrightarrow> ch = CHR ''#''" "?k = 58 \<Longrightarrow> ch = CHR '':''"
    using signed_char_eq [of ch "CHR ''/''"] signed_char_eq [of ch "CHR ''?''"] signed_char_eq [of ch "CHR ''#''"] signed_char_eq [of ch "CHR '':''"] by simp_all
  have auth: "\<exists>x y. pre @ [ch] = x @ ''//'' @ y" if "authority_state t"
  proof -
    have "authority_state cs \<or> slash_state cs \<and> ch = CHR ''/''" using parts(2) that ch(1) by blast
    then show ?thesis
    proof
      assume "authority_state cs"
      then obtain x y where "pre = x @ ''//'' @ y" using uri_inv_parts(1) [OF assms(1)] by blast
      then show ?thesis by (intro exI [of _ x] exI [of _ "y @ [ch]"]) simp
    next
      assume "slash_state cs \<and> ch = CHR ''/''"
      then obtain x where "pre = x @ ''/''" "ch = CHR ''/''" using uri_inv_parts(3) [OF assms(1)] by blast
      then show ?thesis by (intro exI [of _ x] exI [of _ "[]"]) simp
    qed
  qed
  have port: "\<exists>x y. pre @ [ch] = x @ ''//'' @ y @ '':''" if "port_state t"
  proof -
    have "authority_state t" using that by (auto simp: port_state_def authority_state_def)
    then have "ch = CHR '':''" "authority_state cs" using parts(2, 3) that ch(4) by auto
    then obtain x y where "pre = x @ ''//'' @ y" using uri_inv_parts(1) [OF assms(1)] by blast
    then show ?thesis using \<open>ch = CHR '':''\<close> by (intro exI [of _ x] exI [of _ y]) simp
  qed
  have shown: "empty_port True (pre @ [ch])" if d: "port_state cs" "?k = 47 \<or> ?k = 63 \<or> ?k = 35"
  proof -
    obtain x y where "pre = x @ ''//'' @ y @ '':''" using uri_inv_parts(2) [OF assms(1) d(1)] by blast
    then show ?thesis using d(2) ch unfolding empty_port_def by (intro exI [of _ x] exI [of _ y] exI [of _ "[ch]"]) auto
  qed
  have "case ?s of Inl _ \<Rightarrow> empty_port True (pre @ [ch])
      | Inr (u, mark) \<Rightarrow> (mark = None \<longrightarrow> may_null t) \<and> (path_state t \<and> mark = None \<longrightarrow> empty_port True (pre @ [ch]))"
  proof (cases s)
    case (Inl e)
    then show ?thesis using assms(1) empty_port_more [of pre True "[ch]"] by (simp add: fold_inl uri_inv_def)
  next
    case (Inr um)
    obtain u mark where um: "um = (u, mark)" by fastforce
    have i: "mark \<noteq> None \<or> may_null cs" "path_state cs \<and> mark = None \<longrightarrow> empty_port True (pre @ [ch])"
      using assms(1) Inr um empty_port_more [of pre True "[ch]"] by (auto simp: uri_inv_def)
    have v: "mark_view ?s = mark_after (mark \<noteq> None) acts" using uri_actions_mark Inr um by simp
    have f: "case mark_after (mark \<noteq> None) acts of
           None \<Rightarrow> port_state cs \<and> (?k = 63 \<or> ?k = 35) \<or> path_state cs \<and> mark = None
         | Some w \<Rightarrow> (w \<or> may_null t) \<and> (path_state t \<and> \<not> w \<longrightarrow> port_state cs \<and> ?k = 47 \<or> path_state cs \<and> mark = None)"
      using parts(1) [of "mark \<noteq> None"] i(1) by (auto split: option.splits)
    show ?thesis
    proof (cases ?s)
      case s1: (Inl e)
      then have "mark_after (mark \<noteq> None) acts = None" using v by (simp add: mark_view_def)
      then show ?thesis using f s1 shown i(2) by auto
    next
      case s1: (Inr um')
      obtain u' mark' where um': "um' = (u', mark')" by fastforce
      then have "mark_after (mark \<noteq> None) acts = Some (mark' \<noteq> None)" using v s1 by (simp add: mark_view_def)
      then show ?thesis using f s1 um' shown i(2) by auto
    qed
  qed
  then show ?thesis using auth port parts(4, 5) assms(4) ch(1) by (auto simp: uri_inv_def)
qed

lemma uri_run_inv:
  assumes "uri_inv pre cs s" "str = pre @ rest" "p = length pre" "uri_run str p rest cs s = (p', cs', s')"
  shows "if cs' = 0 then \<forall>e. s' = Inl e \<longrightarrow> empty_port False str else uri_inv str cs' s'"
  using assms
proof (induction rest arbitrary: pre cs s p)
  case Nil
  then show ?case using uri_inv_parts(4) [OF Nil.prems(1)] by (simp add: uri_run_def)
next
  case (Cons ch rest)
  have "uri_case cs \<noteq> None" using uri_inv_parts(4, 5) [OF Cons.prems(1)] by (simp add: uri_case_def case_of_def uri_states_length)
  then obtain st where st: "uri_case cs = Some st" by blast
  obtain acts t where j: "st (signed_char ch) = (acts, t)" by fastforce
  show ?case
  proof (cases "t = 0")
    case True
    then have "cs' = 0" "s' = s" using Cons.prems(4) st j by (simp_all add: uri_run_def)
    then show ?thesis using Cons.prems(1, 2) empty_port_more [of pre False "ch # rest"] by (auto simp: uri_inv_def)
  next
    case False
    have "uri_run str (p + 1) rest t (fold (uri_action str p) acts s) = (p', cs', s')" using Cons.prems(4) uri_step [OF st j] False by simp
    from Cons.IH [OF uri_inv_step [OF Cons.prems(1) st j False] _ _ this] Cons.prems(2, 3) show ?thesis by simp
  qed
qed

lemma uri_inv_start: "uri_inv [] 451 (Inr (Uri, None))"
  by (simp add: uri_inv_def may_null_def path_state_def authority_state_def port_state_def slash_state_def)

lemma create_raises:
  assumes "Uri_Create str = Inl e"
  shows "empty_port False str"
proof -
  obtain p cs s where r: "uri_run str 0 str 451 (Inr (Uri, None)) = (p, cs, s)" by (metis prod_cases3)
  have i: "if cs = 0 then \<forall>e. s = Inl e \<longrightarrow> empty_port False str else uri_inv str cs s"
    using uri_run_inv [OF uri_inv_start _ _ r] by simp
  show ?thesis
  proof (cases "cs = 0")
    case True
    then show ?thesis using i assms r by (auto simp: Uri_Create_def uri_finish_def split: sum.splits prod.splits)
  next
    case False
    then have inv: "uri_inv str cs s" using i by simp
    show ?thesis
    proof (cases s)
      case (Inl e)
      then show ?thesis using inv empty_port_more [of str False "[]"] by (simp add: uri_inv_def)
    next
      case (Inr um)
      obtain u mark where um: "um = (u, mark)" by fastforce
      let ?s = "fold (uri_action str p) (uri_eof cs) s"
      have "\<exists>e. ?s = Inl e" using assms r False by (auto simp: Uri_Create_def uri_finish_def split: sum.splits prod.splits)
      then have "mark_after (mark \<noteq> None) (uri_eof cs) = None"
        using uri_actions_mark [of str p "uri_eof cs" u mark] Inr um by (auto simp: mark_view_def)
      moreover have "mark \<noteq> None \<or> may_null cs" "path_state cs \<and> mark = None \<longrightarrow> empty_port True str" using inv Inr um by (auto simp: uri_inv_def)
      ultimately consider "port_state cs" | "empty_port True str" using uri_eof_fine [of "mark \<noteq> None" cs] by auto
      then show ?thesis
      proof cases
        case 1
        then show ?thesis using uri_inv_parts(2) [OF inv] unfolding empty_port_def by fastforce
      next
        case 2
        then show ?thesis using empty_port_more [of str False "[]"] by simp
      qed
    qed
  qed
qed

text \<open>
  C25. When \<^verbatim>\<open>Uri::Create\<close> raises. On every text without a colon that, behind a double slash, the end of the text or one of the characters that close an authority follows, it
  returns a uri or the null pointer, whatever the bytes. On a well-formed uri with a colon and no port it raises instead, at the end of the text as well as in front of a path: the
  actions are those of the end of the port and of the path, and the first has reset the mark that the second reads.
\<close>

theorem uri_raises_only_empty_port:
  assumes "wf_uri scheme userinfo host None r query frag"
  shows "((\<nexists>x y b. str = x @ ''//'' @ y @ '':'' @ b \<and> (b = [] \<or> hd b \<in> {CHR ''/'', CHR ''?'', CHR ''#''})) \<longrightarrow> (\<exists>result. Uri_Create str = Inr result))
    \<and> Uri_Create (scheme @ ''://'' @ (case userinfo of None \<Rightarrow> [] | Some i \<Rightarrow> i @ ''@'') @ host @ '':'') = Inl NullString
    \<and> Uri_Create (uri_text scheme userinfo host (Some []) r query frag) = Inl NullString"
proof -
  have "\<exists>result. Uri_Create str = Inr result" if "\<nexists>x y b. str = x @ ''//'' @ y @ '':'' @ b \<and> (b = [] \<or> hd b \<in> {CHR ''/'', CHR ''?'', CHR ''#''})"
    using create_raises [of str] that unfolding empty_port_def by (cases "Uri_Create str") blast+
  then show ?thesis using create_empty_port [OF assms] by simp
qed

lemma demo_no_colon: "CHR '':'' \<notin> set s \<Longrightarrow> s \<noteq> x @ ''//'' @ y @ '':'' @ b"
  by auto

theorem uri_raises_only_empty_port_witness:
  "(\<exists>result. Uri_Create ''//u@[bad'' = Inr result) \<and> Uri_Create ''http://a:'' = Inl NullString \<and> Uri_Create ''http://a:/b?c'' = Inl NullString"
proof -
  have "wf_uri ''http'' None ''a'' None ''b'' (Some ''c'') None"
    by (simp add: wf_uri_def scheme_ok_def name_ok_def letter_char_def scheme_char_def name_char_def uri_char_def query_char_def signed_ascii)
  from uri_raises_only_empty_port [OF this, of "''//u@[bad''"] show ?thesis
    using demo_no_colon [of "''//u@[bad''"] by (auto simp: uri_text_def part_def)
qed

end
