(* ===== verification/Sylar_Zlib.thy ===== *)
theory Sylar_Zlib
  imports Sylar_Serial
begin

text \<open>
  Compressed streams (\<^verbatim>\<open>src/sylar/zlib_stream.cpp\<close>, \<^verbatim>\<open>zlib_stream.h\<close>). The functions of zlib are parameters: a call of \<^verbatim>\<open>deflate\<close> or
  \<^verbatim>\<open>inflate\<close> gets the stream, the flush mode, the input at \<^verbatim>\<open>next_in\<close> and the room at \<^verbatim>\<open>next_out\<close>, and yields its result, the input it
  left, the output and the next stream. The loops that hand input over and collect output in a vector of blocks are the program's.
  A loop that does not end is \<^term>\<open>None\<close>.
\<close>

section \<open>The class\<close>

record ('z, 'b) zlib =
  z_deflateInit2 :: "int \<Rightarrow> int \<Rightarrow> int \<Rightarrow> int \<Rightarrow> int \<times> 'z"
  z_inflateInit2 :: "int \<Rightarrow> int \<times> 'z"
  z_deflate :: "'z \<Rightarrow> int \<Rightarrow> 'b list \<Rightarrow> nat \<Rightarrow> int \<times> 'b list \<times> 'b list \<times> 'z"
  z_inflate :: "'z \<Rightarrow> int \<Rightarrow> 'b list \<Rightarrow> nat \<Rightarrow> int \<times> 'b list \<times> 'b list \<times> 'z"
  z_deflateEnd :: "'z \<Rightarrow> 'z"
  z_inflateEnd :: "'z \<Rightarrow> 'z"

datatype zlib_type = ZLIB | DEFLATE | GZIP

datatype zlib_error = ZlibAssert | ZlibLogicError | ZlibByteArray ba_error

abbreviation Z_OK :: int where "Z_OK \<equiv> 0"
abbreviation Z_STREAM_ERROR :: int where "Z_STREAM_ERROR \<equiv> - 2"
abbreviation Z_NO_FLUSH :: int where "Z_NO_FLUSH \<equiv> 0"
abbreviation Z_FINISH :: int where "Z_FINISH \<equiv> 4"
abbreviation DEFAULT_COMPRESSION :: int where "DEFAULT_COMPRESSION \<equiv> - 1"

record ('z, 'b) zlib_stream =
  zs_zstream :: 'z
  zs_buffSize :: nat
  zs_encode :: bool
  zs_free :: bool
  zs_buffs :: "'b list list"

definition window :: "zlib_type \<Rightarrow> int \<Rightarrow> int" where
  "window type window_bits = (case type of DEFLATE \<Rightarrow> - window_bits | GZIP \<Rightarrow> window_bits + 16 | ZLIB \<Rightarrow> window_bits)"

definition zlib_init :: "('z, 'b) zlib \<Rightarrow> bool \<Rightarrow> zlib_type \<Rightarrow> int \<Rightarrow> int \<Rightarrow> int \<Rightarrow> int \<Rightarrow> zlib_error + int \<times> 'z" where
  "zlib_init z encode type level window_bits memlevel strategy =
     (if \<not> (0 \<le> level \<and> level \<le> 9 \<or> level = DEFAULT_COMPRESSION) then Inl ZlibAssert
      else if \<not> (8 \<le> window_bits \<and> window_bits \<le> 15) then Inl ZlibAssert
      else if \<not> (1 \<le> memlevel \<and> memlevel \<le> 9) then Inl ZlibAssert
      else Inr (if encode then z_deflateInit2 z level (window type window_bits) memlevel strategy
                else z_inflateInit2 z (window type window_bits)))"

definition zlib_Create :: "('z, 'b) zlib \<Rightarrow> bool \<Rightarrow> nat \<Rightarrow> zlib_type \<Rightarrow> int \<Rightarrow> int \<Rightarrow> int \<Rightarrow> int \<Rightarrow> zlib_error + ('z, 'b) zlib_stream option" where
  "zlib_Create z encode buff_size type level window_bits memlevel strategy =
     bindE (zlib_init z encode type level window_bits memlevel strategy) (\<lambda>(ret, zst).
       Inr (if ret = Z_OK then Some \<lparr>zs_zstream = zst, zs_buffSize = buff_size, zs_encode = encode, zs_free = True, zs_buffs = []\<rparr> else None))"

definition CreateGzip :: "('z, 'b) zlib \<Rightarrow> bool \<Rightarrow> nat \<Rightarrow> zlib_error + ('z, 'b) zlib_stream option" where
  "CreateGzip z encode buff_size = zlib_Create z encode buff_size GZIP DEFAULT_COMPRESSION 15 8 0"

definition CreateZlib :: "('z, 'b) zlib \<Rightarrow> bool \<Rightarrow> nat \<Rightarrow> zlib_error + ('z, 'b) zlib_stream option" where
  "CreateZlib z encode buff_size = zlib_Create z encode buff_size ZLIB DEFAULT_COMPRESSION 15 8 0"

definition CreateDeflate :: "('z, 'b) zlib \<Rightarrow> bool \<Rightarrow> nat \<Rightarrow> zlib_error + ('z, 'b) zlib_stream option" where
  "CreateDeflate z encode buff_size = zlib_Create z encode buff_size DEFLATE DEFAULT_COMPRESSION 15 8 0"

text \<open>The do-while loop over output blocks. A failed call leaves the length of the block as it was.\<close>

partial_function (option) zlib_fill ::
    "('z \<Rightarrow> int \<Rightarrow> 'b list \<Rightarrow> nat \<Rightarrow> int \<times> 'b list \<times> 'b list \<times> 'z) \<Rightarrow> nat \<Rightarrow> int \<Rightarrow> 'b list \<Rightarrow> 'b list list \<Rightarrow> 'z \<Rightarrow> (int \<times> 'b list list \<times> 'z) option" where
  "zlib_fill step buffSize flush input buffs z =
     (let buffs1 = (if buffs \<noteq> [] \<and> length (last buffs) \<noteq> buffSize then buffs else buffs @ [[]]);
          room = buffSize - length (last buffs1)
      in case step z flush input room of
           (ret, left, out, z1) \<Rightarrow>
             if ret = Z_STREAM_ERROR then Some (ret, buffs1, z1)
             else let buffs2 = butlast buffs1 @ [last buffs1 @ out]
                  in if length out = room then zlib_fill step buffSize flush left buffs2 z1 else Some (ret, buffs2, z1))"

text \<open>The loop over the vector of inputs; \<^verbatim>\<open>avail_in\<close> has 32 bits.\<close>

fun zlib_vec ::
    "('z \<Rightarrow> int \<Rightarrow> 'b list \<Rightarrow> nat \<Rightarrow> int \<times> 'b list \<times> 'b list \<times> 'z) \<Rightarrow> nat \<Rightarrow> bool \<Rightarrow> 'b list list \<Rightarrow> 'b list list \<Rightarrow> 'z \<Rightarrow> (int \<times> 'b list list \<times> 'z) option" where
  "zlib_vec step buffSize finish [] buffs z = Some (Z_OK, buffs, z)"
| "zlib_vec step buffSize finish (v # vs) buffs z =
     (case zlib_fill step buffSize (if finish \<and> vs = [] then Z_FINISH else Z_NO_FLUSH) (take (length v mod 2 ^ 32) v) buffs z of
        None \<Rightarrow> None
      | Some (ret, buffs1, z1) \<Rightarrow>
          if ret = Z_STREAM_ERROR then Some (ret, buffs1, z1) else zlib_vec step buffSize finish vs buffs1 z1)"

definition zlib_code ::
    "('z \<Rightarrow> int \<Rightarrow> 'b list \<Rightarrow> nat \<Rightarrow> int \<times> 'b list \<times> 'b list \<times> 'z) \<Rightarrow> ('z \<Rightarrow> 'z) \<Rightarrow> 'b list list \<Rightarrow> bool \<Rightarrow> ('z, 'b) zlib_stream \<Rightarrow> (int \<times> ('z, 'b) zlib_stream) option" where
  "zlib_code step finally_end v finish st =
     (case zlib_vec step (zs_buffSize st) finish v (zs_buffs st) (zs_zstream st) of
        None \<Rightarrow> None
      | Some (ret, buffs, z) \<Rightarrow>
          Some (ret, st\<lparr>zs_buffs := buffs, zs_zstream := (if ret = Z_OK \<and> finish \<and> v \<noteq> [] then finally_end z else z)\<rparr>))"

definition zlib_encode :: "('z, 'b) zlib \<Rightarrow> 'b list list \<Rightarrow> bool \<Rightarrow> ('z, 'b) zlib_stream \<Rightarrow> (int \<times> ('z, 'b) zlib_stream) option" where
  "zlib_encode z = zlib_code (z_deflate z) (z_deflateEnd z)"

definition zlib_decode :: "('z, 'b) zlib \<Rightarrow> 'b list list \<Rightarrow> bool \<Rightarrow> ('z, 'b) zlib_stream \<Rightarrow> (int \<times> ('z, 'b) zlib_stream) option" where
  "zlib_decode z = zlib_code (z_inflate z) (z_inflateEnd z)"

definition zlib_write :: "('z, 'b) zlib \<Rightarrow> 'b list \<Rightarrow> ('z, 'b) zlib_stream \<Rightarrow> (int \<times> ('z, 'b) zlib_stream) option" where
  "zlib_write z buffer st = (if zs_encode st then zlib_encode z [buffer] False st else zlib_decode z [buffer] False st)"

definition zlib_flush :: "('z, 'b) zlib \<Rightarrow> ('z, 'b) zlib_stream \<Rightarrow> (int \<times> ('z, 'b) zlib_stream) option" where
  "zlib_flush z st = (if zs_encode st then zlib_encode z [[]] True st else zlib_decode z [[]] True st)"

definition zlib_close :: "('z, 'b) zlib \<Rightarrow> ('z, 'b) zlib_stream \<Rightarrow> ('z, 'b) zlib_stream option" where
  "zlib_close z st = map_option snd (zlib_flush z st)"

definition zlib_read :: "nat \<Rightarrow> ('z, 'b) zlib_stream \<Rightarrow> zlib_error + int" where
  "zlib_read n st = Inl ZlibLogicError"

definition zlib_getResult :: "('z, 'b) zlib_stream \<Rightarrow> 'b list" where
  "zlib_getResult st = concat (zs_buffs st)"

text \<open>The destructor frees the blocks unless they were handed over, and ends the stream again.\<close>

definition zlib_destroy :: "('z, 'b) zlib \<Rightarrow> ('z, 'b) zlib_stream \<Rightarrow> 'b list list \<times> 'z" where
  "zlib_destroy z st = (if zs_free st then [] else zs_buffs st, (if zs_encode st then z_deflateEnd z else z_inflateEnd z) (zs_zstream st))"

text \<open>The overloads for byte arrays.\<close>

definition zlib_write_ba :: "('z, u8) zlib \<Rightarrow> bytearray \<Rightarrow> nat \<Rightarrow> ('z, u8) zlib_stream \<Rightarrow> (zlib_error + int \<times> ('z, u8) zlib_stream) option" where
  "zlib_write_ba z ba len st =
     (case getReadBuffers ba len of
        Inl e \<Rightarrow> Some (Inl (ZlibByteArray e))
      | Inr (_, vs) \<Rightarrow>
          map_option Inr (let buffers = map (\<lambda>v. iov_bytes (m_nodes ba) [v]) vs
                          in if zs_encode st then zlib_encode z buffers False st else zlib_decode z buffers False st))"

definition zlib_getByteArray :: "u8 \<Rightarrow> ('z, u8) zlib_stream \<Rightarrow> ba_error + bytearray" where
  "zlib_getByteArray fresh st = bindE (foldE (\<lambda>v ba. ba_write ba v) (zs_buffs st) (ByteArray 4096 fresh)) (\<lambda>ba. setPosition ba 0)"

declare zlib_fill.simps [code]

text \<open>All blocks but the last are full.\<close>

definition blocks_full :: "nat \<Rightarrow> 'b list list \<Rightarrow> bool" where
  "blocks_full n bs \<longleftrightarrow> (\<forall>b \<in> set (butlast bs). length b = n) \<and> (bs \<noteq> [] \<longrightarrow> length (last bs) \<le> n)"

section \<open>What the loops rely on of zlib\<close>

text \<open>
  The documented behaviour of a call on an open stream: the output fits into the room, input is taken from the front, a call returns
  with room left over only when the input is used up, and then, when it is the finishing one, the output is complete for the input. \<open>took\<close> and
  \<open>gave\<close> are the bytes that went in and came out so far, \<open>accepts z xs\<close> says that \<open>z\<close> is open and \<open>xs\<close> may follow, and \<open>still\<close> bounds what can come out.
\<close>

locale zlib_codec =
  fixes step :: "'z \<Rightarrow> int \<Rightarrow> 'b list \<Rightarrow> nat \<Rightarrow> int \<times> 'b list \<times> 'b list \<times> 'z"
    and accepts :: "'z \<Rightarrow> 'b list \<Rightarrow> bool" and took :: "'z \<Rightarrow> 'b list" and gave :: "'z \<Rightarrow> 'b list"
    and still :: "'z \<Rightarrow> int \<Rightarrow> 'b list \<Rightarrow> nat" and complete :: "'b list \<Rightarrow> 'b list \<Rightarrow> bool"
  assumes step_ok: "accepts z (input @ later) \<Longrightarrow> step z flush input room = (ret, left, out, z') \<Longrightarrow>
      ret \<noteq> Z_STREAM_ERROR \<and> length out \<le> room \<and> accepts z' (left @ later)"
    and step_moves: "accepts z (input @ later) \<Longrightarrow> step z flush input room = (ret, left, out, z') \<Longrightarrow>
      took z @ input = took z' @ left \<and> gave z' = gave z @ out"
    and step_drains: "accepts z (input @ later) \<Longrightarrow> step z flush input room = (ret, left, out, z') \<Longrightarrow> length out < room \<Longrightarrow> left = []"
    and step_bounded: "accepts z (input @ later) \<Longrightarrow> step z flush input room = (ret, left, out, z') \<Longrightarrow>
      length out + still z' flush left \<le> still z flush input"
    and step_completes: "accepts z (input @ later) \<Longrightarrow> step z Z_FINISH input room = (ret, left, out, z') \<Longrightarrow> length out < room \<Longrightarrow>
      complete (took z') (gave z')"
begin

lemma fill_spec:
  assumes "accepts z (input @ later)" "0 < n" "blocks_full n buffs"
  shows "\<exists>ret buffs' z' out. zlib_fill step n flush input buffs z = Some (ret, buffs', z') \<and> ret \<noteq> Z_STREAM_ERROR \<and> blocks_full n buffs'
    \<and> concat buffs' = concat buffs @ out \<and> gave z' = gave z @ out \<and> took z' = took z @ input \<and> accepts z' later
    \<and> (flush = Z_FINISH \<longrightarrow> complete (took z') (gave z'))"
  using assms
proof (induction "still z flush input" arbitrary: z input buffs rule: less_induct)
  case less
  define b1 where "b1 = (if buffs \<noteq> [] \<and> length (last buffs) \<noteq> n then buffs else buffs @ [[]])"
  define room where "room = n - length (last b1)"
  obtain ret left out z1 where s: "step z flush input room = (ret, left, out, z1)" by (metis prod_cases4)
  define b2 where "b2 = butlast b1 @ [last b1 @ out]"
  note facts = step_ok [OF less.prems(1) s] step_moves [OF less.prems(1) s] step_bounded [OF less.prems(1) s]
  have c1: "concat b1 = concat buffs" "b1 \<noteq> []" by (auto simp: b1_def)
  have "\<forall>b \<in> set (butlast b1). length b = n" "length (last b1) < n"
    using less.prems(2, 3) by (auto simp: b1_def blocks_full_def dest: in_set_butlastD)
       (metis append_butlast_last_id empty_iff empty_set in_set_conv_decomp last_ConsL last_appendR list.distinct(1) set_ConsD set_append Un_iff)+
  then have full: "blocks_full n b2" "0 < room" using facts(1) by (auto simp: b2_def blocks_full_def room_def)
  have "concat b1 = concat (butlast b1) @ last b1" using c1(2) by (metis append_butlast_last_id concat.simps concat_append append_Nil2)
  then have c2: "concat b2 = concat buffs @ out" using c1(1) by (simp add: b2_def)
  have eq: "zlib_fill step n flush input buffs z = (if length out = room then zlib_fill step n flush left b2 z1 else Some (ret, b2, z1))"
    by (subst zlib_fill.simps) (use s facts(1) in \<open>simp add: b1_def [symmetric] room_def [symmetric] b2_def [symmetric] Let_def\<close>)
  show ?case
  proof (cases "length out = room")
    case True
    have "still z1 flush left < still z flush input" using facts(3) True full(2) by linarith
    from less.hyps [OF this _ less.prems(2) full(1)] facts(1) obtain ret' b' z' out' where
      ih: "zlib_fill step n flush left b2 z1 = Some (ret', b', z')" "ret' \<noteq> Z_STREAM_ERROR" "blocks_full n b'" "concat b' = concat b2 @ out'"
        "gave z' = gave z1 @ out'" "took z' = took z1 @ left" "accepts z' later" "flush = Z_FINISH \<longrightarrow> complete (took z') (gave z')" by blast
    then show ?thesis using eq True c2 facts(2) by (intro exI [of _ ret'] exI [of _ b'] exI [of _ z'] exI [of _ "out @ out'"]) simp
  next
    case False
    then have l: "length out < room" using facts(1) by linarith
    then have left: "left = []" using step_drains [OF less.prems(1) s] by simp
    show ?thesis using eq False c2 facts(1, 2) full(1) left step_completes [of z input later room ret left out z1] less.prems(1) s l
      by (intro exI [of _ ret] exI [of _ b2] exI [of _ z1] exI [of _ out]) auto
  qed
qed

lemma vec_spec:
  assumes "accepts z (concat vs @ later)" "0 < n" "blocks_full n buffs" "\<forall>v \<in> set vs. length v < 2 ^ 32"
  shows "\<exists>buffs' z' out. zlib_vec step n finish vs buffs z = Some (Z_OK, buffs', z') \<and> blocks_full n buffs'
    \<and> concat buffs' = concat buffs @ out \<and> gave z' = gave z @ out \<and> took z' = took z @ concat vs \<and> accepts z' later
    \<and> (finish \<and> vs \<noteq> [] \<longrightarrow> complete (took z') (gave z'))"
  using assms
proof (induction vs arbitrary: z buffs)
  case (Cons v vs)
  let ?flush = "if finish \<and> vs = [] then Z_FINISH else Z_NO_FLUSH"
  have v: "take (length v mod 2 ^ 32) v = v" using Cons.prems(4) by simp
  have "accepts z (v @ (concat vs @ later))" using Cons.prems(1) by simp
  from fill_spec [OF this Cons.prems(2, 3), of ?flush] obtain ret b1 z1 o1 where
    f: "zlib_fill step n ?flush v buffs z = Some (ret, b1, z1)" "ret \<noteq> Z_STREAM_ERROR" "blocks_full n b1" "concat b1 = concat buffs @ o1"
      "gave z1 = gave z @ o1" "took z1 = took z @ v" "accepts z1 (concat vs @ later)" "?flush = Z_FINISH \<longrightarrow> complete (took z1) (gave z1)" by blast
  from Cons.IH [OF f(7) Cons.prems(2) f(3)] Cons.prems(4) obtain b2 z2 o2 where
    g: "zlib_vec step n finish vs b1 z1 = Some (Z_OK, b2, z2)" "blocks_full n b2" "concat b2 = concat b1 @ o2" "gave z2 = gave z1 @ o2"
      "took z2 = took z1 @ concat vs" "accepts z2 later" "finish \<and> vs \<noteq> [] \<longrightarrow> complete (took z2) (gave z2)" by auto
  have "complete (took z2) (gave z2)" if "finish" using f g that by (cases "vs = []") auto
  then show ?case using f(1-6) g v by (intro exI [of _ b2] exI [of _ z2] exI [of _ "o1 @ o2"]) simp
qed (auto intro: exI [of _ "[]"])

end

section \<open>A whole stream\<close>

text \<open>Several writes, each of which must succeed.\<close>

fun zlib_writes :: "('z, 'b) zlib \<Rightarrow> 'b list list \<Rightarrow> ('z, 'b) zlib_stream \<Rightarrow> ('z, 'b) zlib_stream option" where
  "zlib_writes z [] st = Some st"
| "zlib_writes z (p # ps) st =
     (case zlib_write z p st of None \<Rightarrow> None | Some (ret, st1) \<Rightarrow> if ret = Z_OK then zlib_writes z ps st1 else None)"

definition codec_step :: "('z, 'b) zlib \<Rightarrow> bool \<Rightarrow> 'z \<Rightarrow> int \<Rightarrow> 'b list \<Rightarrow> nat \<Rightarrow> int \<times> 'b list \<times> 'b list \<times> 'z" where
  "codec_step z encode = (if encode then z_deflate z else z_inflate z)"

lemma zlib_write_step:
  "zlib_write z p st = zlib_code (codec_step z (zs_encode st)) (if zs_encode st then z_deflateEnd z else z_inflateEnd z) [p] False st"
  "zlib_flush z st = zlib_code (codec_step z (zs_encode st)) (if zs_encode st then z_deflateEnd z else z_inflateEnd z) [[]] True st"
  by (simp_all add: zlib_write_def zlib_flush_def zlib_encode_def zlib_decode_def codec_step_def)

text \<open>A stream that has taken \<open>a\<close> and may take \<open>b\<close>.\<close>

definition stream_at :: "('z \<Rightarrow> 'b list \<Rightarrow> bool) \<Rightarrow> ('z \<Rightarrow> 'b list) \<Rightarrow> ('z \<Rightarrow> 'b list) \<Rightarrow> ('z, 'b) zlib_stream \<Rightarrow> 'b list \<Rightarrow> 'b list \<Rightarrow> bool" where
  "stream_at accepts took gave st a b \<longleftrightarrow>
     0 < zs_buffSize st \<and> blocks_full (zs_buffSize st) (zs_buffs st) \<and> took (zs_zstream st) = a \<and> gave (zs_zstream st) = zlib_getResult st
     \<and> accepts (zs_zstream st) b"

lemma write_stream_at:
  assumes "zlib_codec (codec_step z (zs_encode st)) accepts took gave still complete" "stream_at accepts took gave st a (p @ b)" "length p < 2 ^ 32"
  shows "\<exists>st'. zlib_write z p st = Some (Z_OK, st') \<and> stream_at accepts took gave st' (a @ p) b \<and> zs_encode st' = zs_encode st \<and> zs_buffSize st' = zs_buffSize st"
proof -
  from zlib_codec.vec_spec [OF assms(1), of "zs_zstream st" "[p]" b "zs_buffSize st" "zs_buffs st" False] assms(2, 3)
  obtain bs z' out where "zlib_vec (codec_step z (zs_encode st)) (zs_buffSize st) False [p] (zs_buffs st) (zs_zstream st) = Some (Z_OK, bs, z')"
    "blocks_full (zs_buffSize st) bs" "concat bs = concat (zs_buffs st) @ out" "gave z' = gave (zs_zstream st) @ out" "took z' = took (zs_zstream st) @ p" "accepts z' b"
    by (auto simp: stream_at_def)
  then show ?thesis using assms(2) by (simp add: zlib_write_step zlib_code_def stream_at_def zlib_getResult_def)
qed

lemma writes_stream_at:
  assumes "zlib_codec (codec_step z (zs_encode st)) accepts took gave still complete" "stream_at accepts took gave st a (concat ps @ b)" "\<forall>p \<in> set ps. length p < 2 ^ 32"
  shows "\<exists>st'. zlib_writes z ps st = Some st' \<and> stream_at accepts took gave st' (a @ concat ps) b \<and> zs_encode st' = zs_encode st \<and> zs_buffSize st' = zs_buffSize st"
  using assms
proof (induction ps arbitrary: st a)
  case (Cons p ps)
  from write_stream_at [of z st accepts took gave still complete a p "concat ps @ b"] Cons.prems obtain st1 where
    st1: "zlib_write z p st = Some (Z_OK, st1)" "stream_at accepts took gave st1 (a @ p) (concat ps @ b)" "zs_encode st1 = zs_encode st" "zs_buffSize st1 = zs_buffSize st" by auto
  from Cons.IH [of st1 "a @ p"] Cons.prems st1 show ?case by simp
qed simp

lemma flush_stream_at:
  assumes "zlib_codec (codec_step z (zs_encode st)) accepts took gave still complete" "stream_at accepts took gave st a []"
  shows "\<exists>st'. zlib_flush z st = Some (Z_OK, st') \<and> complete a (zlib_getResult st') \<and> blocks_full (zs_buffSize st) (zs_buffs st')"
proof -
  from zlib_codec.vec_spec [OF assms(1), of "zs_zstream st" "[[]]" "[]" "zs_buffSize st" "zs_buffs st" True] assms(2)
  obtain bs z' out where "zlib_vec (codec_step z (zs_encode st)) (zs_buffSize st) True [[]] (zs_buffs st) (zs_zstream st) = Some (Z_OK, bs, z')"
    "blocks_full (zs_buffSize st) bs" "concat bs = concat (zs_buffs st) @ out" "gave z' = gave (zs_zstream st) @ out" "took z' = took (zs_zstream st)"
    "complete (took z') (gave z')"
    by (auto simp: stream_at_def)
  then show ?thesis using assms(2) by (simp add: zlib_write_step zlib_code_def stream_at_def zlib_getResult_def)
qed

lemma stream_collects:
  assumes "zlib_codec (codec_step z encode) accepts took gave still complete"
    and "zlib_Create z encode buff_size type level window_bits memlevel strategy = Inr (Some st)"
    and "took (zs_zstream st) = []" "gave (zs_zstream st) = []" "accepts (zs_zstream st) (concat parts)" "0 < buff_size" "\<forall>p \<in> set parts. length p < 2 ^ 32"
  shows "\<exists>st1 st2. zlib_writes z parts st = Some st1 \<and> zlib_flush z st1 = Some (Z_OK, st2) \<and> complete (concat parts) (zlib_getResult st2)
    \<and> blocks_full buff_size (zs_buffs st2)"
proof -
  have st: "zs_encode st = encode" "zs_buffSize st = buff_size" "zs_buffs st = []"
    using assms(2) by (auto simp: zlib_Create_def bindE_eq_Inr split: if_splits)
  have "stream_at accepts took gave st [] (concat parts @ [])"
    using assms(3-6) st by (simp add: stream_at_def zlib_getResult_def blocks_full_def)
  from writes_stream_at [of z st accepts took gave still complete "[]" parts "[]"] this assms(1, 7) st(1) obtain st1 where
    st1: "zlib_writes z parts st = Some st1" "stream_at accepts took gave st1 (concat parts) []" "zs_encode st1 = encode" "zs_buffSize st1 = buff_size"
    using st(2) by auto
  then show ?thesis using flush_stream_at [of z st1 accepts took gave still complete "concat parts"] assms(1) by auto
qed

lemma getByteArray_contents:
  "\<exists>ba. zlib_getByteArray fresh st = Inr ba \<and> ba_inv ba \<and> contents ba = zlib_getResult st \<and> m_position ba = 0"
proof -
  have w: "\<exists>b'. foldE (\<lambda>v ba. ba_write ba v) vs b = Inr b' \<and> ba_inv b' \<and> contents b' = contents b @ concat vs \<and> m_position b' = m_size b'"
    if "ba_inv b" "m_position b = m_size b" for vs b
    using that
  proof (induction vs arbitrary: b)
    case (Cons v vs)
    obtain b1 where b1: "ba_write b v = Inr b1" "ba_inv b1" "contents b1 = blit (contents b) (m_position b) v" "m_position b1 = m_position b + length v"
      by (rule ba_write_ok [OF Cons.prems(1)])
    have l: "length (contents b) = m_size b" "length (contents b1) = m_size b1" using length_contents Cons.prems(1) b1(2) by auto
    then have "contents b1 = contents b @ v" "m_position b1 = m_size b1" using b1(3, 4) Cons.prems(2) by (auto simp: blit_def)
    then show ?case using Cons.IH [OF b1(2)] b1(1) by auto
  qed auto
  have i: "ba_inv (ByteArray 4096 fresh)" using ByteArray_inv [of 4096 fresh] by simp
  have "contents (ByteArray 4096 fresh) = []" by (simp add: contents_def ByteArray_def)
  with w [OF i, of "zs_buffs st"] obtain b where b: "foldE (\<lambda>v ba. ba_write ba v) (zs_buffs st) (ByteArray 4096 fresh) = Inr b" "ba_inv b" "contents b = concat (zs_buffs st)"
    by (auto simp: ByteArray_def)
  obtain b' where b': "setPosition b 0 = Inr b'" "ba_inv b'" "m_position b' = 0" "m_size b' = max (m_size b) 0" "m_nodes b' = m_nodes b"
    by (rule setPosition_ok [OF b(2), of 0]) auto
  then have "contents b' = contents b" by (simp add: contents_def)
  then show ?thesis using b b' by (simp add: zlib_getByteArray_def zlib_getResult_def)
qed

section \<open>A codec to try things on\<close>

text \<open>A codec that stores its input and gives out at most three bytes in a call, with the bytes taken, given and held back as its state.\<close>

definition stored_step :: "'b list \<times> 'b list \<times> 'b list \<Rightarrow> int \<Rightarrow> 'b list \<Rightarrow> nat \<Rightarrow> int \<times> 'b list \<times> 'b list \<times> ('b list \<times> 'b list \<times> 'b list)" where
  "stored_step z flush input room =
     (let (took, gave, held) = z; pending = held @ input; out = (if flush = Z_FINISH then take room pending else take (min 3 room) pending)
      in (Z_OK, [], out, (took @ input, gave @ out, drop (length out) pending)))"

definition stored :: "('b list \<times> 'b list \<times> 'b list, 'b) zlib" where
  "stored = \<lparr>z_deflateInit2 = (\<lambda>l w m s. (Z_OK, ([], [], []))), z_inflateInit2 = (\<lambda>w. (Z_OK, ([], [], []))),
     z_deflate = stored_step, z_inflate = stored_step, z_deflateEnd = id, z_inflateEnd = id\<rparr>"

lemma stored_step_facts:
  assumes "stored_step z flush input room = (ret, left, out, z')" "fst z = fst (snd z) @ snd (snd z)"
  shows "ret = Z_OK" "left = []" "length out \<le> room" "fst z' = fst z @ input" "fst (snd z') = fst (snd z) @ out" "fst z' = fst (snd z') @ snd (snd z')"
    "length out + length (snd (snd z')) = length (snd (snd z)) + length input" "flush = Z_FINISH \<Longrightarrow> length out < room \<Longrightarrow> snd (snd z') = []"
proof -
  obtain took gave held where z: "z = (took, gave, held)" by (metis prod_cases3)
  have e: "ret = Z_OK" "left = []" "z' = (took @ input, gave @ out, drop (length out) (held @ input))"
    "out = (if flush = Z_FINISH then take room (held @ input) else take (min 3 room) (held @ input))"
    using assms(1) by (auto simp: stored_step_def Let_def z)
  define k where "k = (if flush = Z_FINISH then room else min 3 room)"
  have k: "out = take k (held @ input)" "k \<le> room" "flush = Z_FINISH \<Longrightarrow> k = room" using e(4) by (auto simp: k_def)
  show "ret = Z_OK" "left = []" "length out \<le> room" "fst z' = fst z @ input" "fst (snd z') = fst (snd z) @ out" using e k by (auto simp: z)
  show "fst z' = fst (snd z') @ snd (snd z')" 
  proof -
    have "held @ input = out @ drop (length out) (held @ input)" using k(1) by (metis append_eq_conv_conj append_take_drop_id)
    then have "gave @ held @ input = gave @ out @ drop (length out) (held @ input)" by (rule arg_cong)
    then show ?thesis using e(3) assms(2) by (simp add: z)
  qed
  show "length out + length (snd (snd z')) = length (snd (snd z)) + length input" using e(3) k(1) by (simp add: z min_def)
  show "snd (snd z') = []" if "flush = Z_FINISH" "length out < room" using e(3) k(1, 3) that by (simp add: z min_def split: if_splits)
qed

interpretation stored: zlib_codec "codec_step stored encode" "\<lambda>z xs. fst z = fst (snd z) @ snd (snd z)" fst "fst \<circ> snd"
  "\<lambda>z flush input. length (snd (snd z)) + length input" "(=)" for encode
proof -
  have s: "codec_step stored encode = stored_step" by (simp add: codec_step_def stored_def)
  show "zlib_codec (codec_step stored encode) (\<lambda>z xs. fst z = fst (snd z) @ snd (snd z)) fst (fst \<circ> snd) (\<lambda>z flush input. length (snd (snd z)) + length input) (=)"
    unfolding s
  proof (unfold_locales, goal_cases)
    case (1 z input later flush room ret left out z')
    then show ?case using stored_step_facts(1, 3, 6) [OF 1(2, 1)] by simp
  next
    case (2 z input later flush room ret left out z')
    then show ?case using stored_step_facts(2, 4, 5) [OF 2(2, 1)] by simp
  next
    case (3 z input later flush room ret left out z')
    then show ?case using stored_step_facts(2) [OF 3(2, 1)] by simp
  next
    case (4 z input later flush room ret left out z')
    then show ?case using stored_step_facts(2, 7) [OF 4(2, 1)] by simp
  next
    case (5 z input later room ret left out z')
    then show ?case using stored_step_facts(6, 8) [OF 5(2, 1)] by simp
  qed
qed



end
