(* ===== verification/Sylar_HttpConnection.thy ===== *)
theory Sylar_HttpConnection
  imports Sylar_Uri Sylar_Zlib
begin

text \<open>
  The client side of HTTP (\<^verbatim>\<open>src/sylar/http/http_connection.cpp\<close>, \<^verbatim>\<open>http_connection.h\<close>): sending a request, receiving a response with its body, and
  the pool of connections. The stream is that of \<^verbatim>\<open>Sylar_Socket\<close>, the parser that of \<^verbatim>\<open>Sylar_ResponseParser\<close>, the decompression that of
  \<^verbatim>\<open>Sylar_Zlib\<close>. \<^verbatim>\<open>Socket::CreateTCP\<close> and the class \<^verbatim>\<open>SSLSocket\<close>, which the code calls, are not part of the repository and are parameters.
  A loop that does not return is \<^term>\<open>None\<close>; an aborted call or an exception is an error value.
\<close>

section \<open>Receiving a response\<close>

datatype conn_error = ParserFailed response_error | SignedOverflow | LengthError | NullStream | ZlibAborted zlib_error | UriRaised uri_error | NullUri

text \<open>
  The first loop of \<^verbatim>\<open>recvResponse\<close>: \<open>buf\<close> holds the first \<^verbatim>\<open>offset\<close> bytes of the buffer. The result is the parser and the bytes behind the header, or
  nothing when the connection has to be closed.
\<close>

partial_function (option) header_loop ::
    "('s, char) reader \<Rightarrow> nat \<Rightarrow> 's \<Rightarrow> response_parser \<Rightarrow> string \<Rightarrow> (conn_error + (response_parser \<times> string) option \<times> 's) option" where
  "header_loop rd buff_size s p buf =
     (case rd s (buff_size - length buf) of
        (len, bs, s1) \<Rightarrow>
          if len \<le> 0 then Some (Inr (None, s1))
          else (case response_execute False (buf @ bs) p of
                  Inl e \<Rightarrow> Some (Inl (ParserFailed e))
                | Inr (nparse, rest, p1) \<Rightarrow>
                    if response_hasError p1 then Some (Inr (None, s1))
                    else if int (length (buf @ bs)) - int nparse = to_int32 (int buff_size) then Some (Inr (None, s1))
                    else if response_isFinished p1 then Some (Inr (Some (p1, rest), s1))
                    else header_loop rd buff_size s1 p1 rest))"

text \<open>The inner loop over the header of a chunk. \<open>begin\<close> is true in the first round, which reads only when the buffer is empty.\<close>

definition refill :: "('s, char) reader \<Rightarrow> nat \<Rightarrow> 's \<Rightarrow> string \<Rightarrow> bool \<Rightarrow> string option \<times> 's" where
  "refill rd buff_size s buf first =
     (if \<not> first \<or> buf = []
      then (case rd s (buff_size - length buf) of (rt, bs, s1) \<Rightarrow> if rt \<le> 0 then (None, s1) else (Some (buf @ bs), s1))
      else (Some buf, s))"

partial_function (option) chunk_header_loop ::
    "('s, char) reader \<Rightarrow> nat \<Rightarrow> 's \<Rightarrow> response_parser \<Rightarrow> string \<Rightarrow> bool \<Rightarrow> (conn_error + (response_parser \<times> string) option \<times> 's) option" where
  "chunk_header_loop rd buff_size s p buf first =
     (case refill rd buff_size s buf first of
        (None, s1) \<Rightarrow> Some (Inr (None, s1))
      | (Some data, s1) \<Rightarrow>
          (case response_execute True data p of
             Inl e \<Rightarrow> Some (Inl (ParserFailed e))
           | Inr (nparse, rest, p1) \<Rightarrow>
               if response_hasError p1 then Some (Inr (None, s1))
               else if int (length data) - int nparse = to_int32 (int buff_size) then Some (Inr (None, s1))
               else if response_isFinished p1 then Some (Inr (Some (p1, rest), s1))
               else chunk_header_loop rd buff_size s1 p1 rest False))"

text \<open>The bytes of a chunk that have not arrived yet.\<close>

function chunk_rest :: "('s, char) reader \<Rightarrow> nat \<Rightarrow> 's \<Rightarrow> string \<Rightarrow> int \<Rightarrow> string option \<times> 's" where
  "chunk_rest rd buff_size s body left =
     (if left > 0
      then (case rd s (if left > to_int32 (int buff_size) then nat (to_int32 (int buff_size)) else nat left) of
              (rt, bs, s1) \<Rightarrow> if rt \<le> 0 then (None, s1) else chunk_rest rd buff_size s1 (body @ bs) (left - rt))
      else (Some body, s))"
  by pat_completeness auto

termination
  by (relation "measure (\<lambda>(rd, n, s, body, left). nat left)") auto

declare chunk_rest.simps [simp del]

text \<open>
  The data of a chunk and the line break behind it. \<open>content_len\<close> is the \<^verbatim>\<open>int\<close> of the parser; a negative one becomes a huge \<^verbatim>\<open>size_t\<close> in
  \<^verbatim>\<open>append\<close>, and so does a size less than two in \<^verbatim>\<open>resize\<close>.
\<close>

definition chunk_data :: "('s, char) reader \<Rightarrow> nat \<Rightarrow> int \<Rightarrow> string \<Rightarrow> string \<Rightarrow> 's \<Rightarrow> conn_error + (string \<times> string) option \<times> 's" where
  "chunk_data rd buff_size content_len body data s =
     (let len = int (length data) in
      if content_len + 2 \<ge> 2 ^ 31 then Inl SignedOverflow
      else if content_len + 2 \<le> len
      then (if content_len < 0 then Inl LengthError
            else Inr (Some (body @ take (nat content_len) data, drop (nat content_len + 2) data), s))
      else (case chunk_rest rd buff_size s (body @ data) (content_len - len + 2) of
              (None, s1) \<Rightarrow> Inr (None, s1)
            | (Some b, s1) \<Rightarrow> if length b < 2 then Inl LengthError else Inr (Some (take (length b - 2) b, []), s1)))"

partial_function (option) chunk_loop ::
    "('s, char) reader \<Rightarrow> nat \<Rightarrow> 's \<Rightarrow> response_parser \<Rightarrow> string \<Rightarrow> string \<Rightarrow> (conn_error + (response_parser \<times> string) option \<times> 's) option" where
  "chunk_loop rd buff_size s p buf body =
     (case chunk_header_loop rd buff_size s p buf True of
        None \<Rightarrow> None
      | Some (Inl e) \<Rightarrow> Some (Inl e)
      | Some (Inr (None, s1)) \<Rightarrow> Some (Inr (None, s1))
      | Some (Inr (Some (p1, data), s1)) \<Rightarrow>
          (case chunk_data rd buff_size (hc_content_len (sp_parser p1)) body data s1 of
             Inl e \<Rightarrow> Some (Inl e)
           | Inr (None, s2) \<Rightarrow> Some (Inr (None, s2))
           | Inr (Some (body1, data1), s2) \<Rightarrow>
               if hc_chunks_done (sp_parser p1) then Some (Inr (Some (p1, body1), s2))
               else chunk_loop rd buff_size s2 p1 data1 body1))"

text \<open>Decompression: the results of \<^verbatim>\<open>write\<close> and \<^verbatim>\<open>flush\<close> are not tested.\<close>

definition inflate_with :: "('z, char) zlib \<Rightarrow> zlib_error + ('z, char) zlib_stream option \<Rightarrow> string \<Rightarrow> (conn_error + string) option" where
  "inflate_with z zs body =
     (case zs of
        Inl e \<Rightarrow> Some (Inl (ZlibAborted e))
      | Inr None \<Rightarrow> Some (Inl NullStream)
      | Inr (Some st) \<Rightarrow>
          Option.bind (zlib_write z body st) (\<lambda>(_, st1). Option.bind (zlib_flush z st1) (\<lambda>(_, st2). Some (Inr (zlib_getResult st2)))))"

definition decode_body :: "('z, char) zlib \<Rightarrow> string \<Rightarrow> string \<Rightarrow> (conn_error + string) option" where
  "decode_body z content_encoding body =
     (if strcasecmp (c_str content_encoding) ''gzip'' = 0 then inflate_with z (CreateGzip z False 4096) body
      else if strcasecmp (c_str content_encoding) ''deflate'' = 0 then inflate_with z (CreateDeflate z False 4096) body
      else Some (Inr body))"

definition finish_response ::
    "('z, char) zlib \<Rightarrow> response_parser \<Rightarrow> string \<Rightarrow> 's \<Rightarrow> (conn_error + http_response option \<times> 's) option" where
  "finish_response z p body s =
     (if body = '''' then Some (Inr (Some (sp_data p), s))
      else map_option (\<lambda>r. case r of Inl e \<Rightarrow> Inl e | Inr b \<Rightarrow> Inr (Some ((sp_data p)\<lparr>r_body := b\<rparr>), s))
             (decode_body z (r_getHeader (sp_data p) ''content-encoding'' '''') body))"

definition recvResponse ::
    "('os, char) sys_calls \<Rightarrow> ('z, char) zlib \<Rightarrow> (string \<Rightarrow> u64 option) \<Rightarrow> httpclient_parser \<Rightarrow> nat \<Rightarrow> 'os socket_stream
      \<Rightarrow> (conn_error + http_response option \<times> 'os socket_stream) option" where
  "recvResponse sys z lexical_cast blank buff_size st =
     (let rd = SocketStream_read sys; closed = (\<lambda>s. Some (Inr (None, SocketStream_close sys s))) in
      case header_loop rd buff_size st (HttpResponseParser blank) '''' of
        None \<Rightarrow> None
      | Some (Inl e) \<Rightarrow> Some (Inl e)
      | Some (Inr (None, s1)) \<Rightarrow> closed s1
      | Some (Inr (Some (p, data), s1)) \<Rightarrow>
          if hc_chunked (sp_parser p)
          then (case chunk_loop rd buff_size s1 p data '''' of
                  None \<Rightarrow> None
                | Some (Inl e) \<Rightarrow> Some (Inl e)
                | Some (Inr (None, s2)) \<Rightarrow> closed s2
                | Some (Inr (Some (p2, body), s2)) \<Rightarrow> finish_response z p2 body s2)
          else (let L = sint (response_getContentLength lexical_cast p) in
                if L > 0
                then (case recv_body rd L data s1 of
                        (None, s2) \<Rightarrow> closed s2
                      | (Some body, s2) \<Rightarrow> finish_response z p body s2)
                else finish_response z p '''' s1))"

definition sendRequest :: "('os, char) sys_calls \<Rightarrow> http_request \<Rightarrow> 'os socket_stream \<Rightarrow> int \<times> 'os socket_stream" where
  "sendRequest sys req st = writeFixSize (SocketStream_write sys) st (q_dump req)"

declare header_loop.simps [code] chunk_header_loop.simps [code] chunk_loop.simps [code]

section \<open>Requests\<close>

datatype result_error = OK | INVALID_URL | INVALID_HOST | CONNECT_FAIL | SEND_CLOSE_BY_PEER | SEND_SOCKET_ERROR | TIMEOUT | CREATE_SOCKET_ERROR
  | POOL_GET_CONNECTION | POOL_INVALID_CONNECTION

definition error_num :: "result_error \<Rightarrow> int" where
  "error_num e = (case e of OK \<Rightarrow> 0 | INVALID_URL \<Rightarrow> 1 | INVALID_HOST \<Rightarrow> 2 | CONNECT_FAIL \<Rightarrow> 3 | SEND_CLOSE_BY_PEER \<Rightarrow> 4 | SEND_SOCKET_ERROR \<Rightarrow> 5
     | TIMEOUT \<Rightarrow> 6 | CREATE_SOCKET_ERROR \<Rightarrow> 7 | POOL_GET_CONNECTION \<Rightarrow> 8 | POOL_INVALID_CONNECTION \<Rightarrow> 9)"

record http_result =
  hr_result :: int
  hr_response :: "http_response option"
  hr_error :: string

definition HttpResult :: "result_error \<Rightarrow> http_response option \<Rightarrow> string \<Rightarrow> http_result" where
  "HttpResult e rsp msg = \<lparr>hr_result = error_num e, hr_response = rsp, hr_error = msg\<rparr>"

definition HttpResult_toString :: "http_result \<Rightarrow> string" where
  "HttpResult_toString r =
     ''[HttpResult result='' @ show_int (hr_result r) @ '' error='' @ hr_error r @ '' response=''
     @ (case hr_response r of None \<Rightarrow> ''nullptr'' | Some x \<Rightarrow> r_dump x) @ '']''"

text \<open>
  What the client relies on. The flag is true for https, whose sockets are of the class \<^verbatim>\<open>SSLSocket\<close>; \<open>ce_create\<close> is \<^verbatim>\<open>CreateTCP\<close> of the two classes,
  \<open>ce_now\<close> the clock in milliseconds.
\<close>

record ('os, 'z) client_env =
  ce_sys :: "bool \<Rightarrow> ('os, char) sys_calls"
  ce_create :: "bool \<Rightarrow> Address \<Rightarrow> 'os \<Rightarrow> sock option \<times> 'os"
  ce_getaddrinfo :: "string \<Rightarrow> string option \<Rightarrow> sockaddr list option"
  ce_strerror :: "int \<Rightarrow> string"
  ce_now :: "'os \<Rightarrow> u64"
  ce_zlib :: "('z, char) zlib"
  ce_cast :: "string \<Rightarrow> u64 option"
  ce_blank :: httpclient_parser
  ce_buff_size :: nat

definition errno_text :: "('os, 'z) client_env \<Rightarrow> bool \<Rightarrow> 'os \<Rightarrow> string" where
  "errno_text env ssl s = (let e = sys_errno (ce_sys env ssl) s in show_int e @ '' errstr='' @ ce_strerror env e)"

text \<open>The headers the caller gives, in the order of the map; the flag says whether a host was among them.\<close>

definition add_header :: "string \<times> string \<Rightarrow> http_request \<times> bool \<Rightarrow> http_request \<times> bool" where
  "add_header kv w =
     (let (k, v) = kv; (req, has_host) = w in
      if strcasecmp (c_str k) ''connection'' = 0
      then (if strcasecmp (c_str v) ''keep-alive'' = 0 then req\<lparr>q_close := False\<rparr> else req, has_host)
      else (q_setHeader req k v, if \<not> has_host \<and> strcasecmp (c_str k) ''host'' = 0 then v \<noteq> '''' else has_host))"

definition make_request :: "HttpMethod \<Rightarrow> uri \<Rightarrow> (string \<times> string) list \<Rightarrow> string \<Rightarrow> http_request" where
  "make_request method u headers body =
     (let req0 = (HttpRequest 0x11 True)\<lparr>q_path := uri_getPath u, q_query := u_query u, q_fragment := u_fragment u, q_method := method\<rparr>;
          (req, has_host) = fold add_header headers (req0, False)
      in (if has_host then req else q_setHeader req ''Host'' (u_host u))\<lparr>q_body := body\<rparr>)"

text \<open>Sending and receiving on a connection; the last argument of the result is the stream behind it.\<close>

definition exchange ::
    "('os, 'z) client_env \<Rightarrow> bool \<Rightarrow> string \<Rightarrow> http_request \<Rightarrow> u64 \<Rightarrow> 'os socket_stream \<Rightarrow> (conn_error + http_result \<times> 'os socket_stream) option" where
  "exchange env ssl peer req timeout_ms st =
     (let (rt, st1) = sendRequest (ce_sys env ssl) req st in
      if rt = 0 then Some (Inr (HttpResult SEND_CLOSE_BY_PEER None (''send request closed by peer: '' @ peer), st1))
      else if rt < 0 then Some (Inr (HttpResult SEND_SOCKET_ERROR None (''send request socket error errno='' @ errno_text env ssl (ss_os st1)), st1))
      else map_option (map_sum id (\<lambda>(rsp, st2).
             case rsp of
               None \<Rightarrow> (HttpResult TIMEOUT None (''recv response timeout: '' @ peer @ '' timeout_ms:'' @ show_nat (unat timeout_ms)), st2)
             | Some r \<Rightarrow> (HttpResult OK (Some r) ''ok'', st2)))
           (recvResponse (ce_sys env ssl) (ce_zlib env) (ce_cast env) (ce_blank env) (ce_buff_size env) st1))"

definition DoRequest_req :: "('os, 'z) client_env \<Rightarrow> http_request \<Rightarrow> uri \<Rightarrow> u64 \<Rightarrow> 'os \<Rightarrow> (conn_error + http_result \<times> 'os) option" where
  "DoRequest_req env req u timeout_ms s =
     (let ssl = (u_scheme u = ''https''); sys = ce_sys env ssl in
      case createAddress (ce_getaddrinfo env) u of
        None \<Rightarrow> Some (Inr (HttpResult INVALID_HOST None (''invalid host: '' @ u_host u), s))
      | Some addr \<Rightarrow>
          (case ce_create env ssl addr s of
             (None, s1) \<Rightarrow>
               Some (Inr (HttpResult CREATE_SOCKET_ERROR None (''create socket fail: '' @ Address_toString addr @ '' errno='' @ errno_text env ssl s1), s1))
           | (Some k, s1) \<Rightarrow>
               (case Socket_connect sys addr (- 1) (k, s1) of
                  (False, k2, s2) \<Rightarrow>
                    Some (Inr (HttpResult CONNECT_FAIL None (''connect fail: '' @ Address_toString addr), snd (snd (Socket_close sys (k2, s2)))))
                | (True, k2, s2) \<Rightarrow>
                    map_option (map_sum id (\<lambda>(r, st). (r, ss_os (SocketStream_destroy sys st))))
                      (exchange env ssl (Address_toString addr) req timeout_ms
                        (SocketStream (Some k2) True (Socket_setRecvTimeout sys (sint timeout_ms) (k2, s2)))))))"

definition DoRequest_uri ::
    "('os, 'z) client_env \<Rightarrow> HttpMethod \<Rightarrow> uri \<Rightarrow> u64 \<Rightarrow> (string \<times> string) list \<Rightarrow> string \<Rightarrow> 'os \<Rightarrow> (conn_error + http_result \<times> 'os) option" where
  "DoRequest_uri env method u timeout_ms headers body s = DoRequest_req env (make_request method u headers body) u timeout_ms s"

definition DoRequest ::
    "('os, 'z) client_env \<Rightarrow> HttpMethod \<Rightarrow> string \<Rightarrow> u64 \<Rightarrow> (string \<times> string) list \<Rightarrow> string \<Rightarrow> 'os \<Rightarrow> (conn_error + http_result \<times> 'os) option" where
  "DoRequest env method url timeout_ms headers body s =
     (case Uri_Create url of
        Inl e \<Rightarrow> Some (Inl (UriRaised e))
      | Inr None \<Rightarrow> Some (Inr (HttpResult INVALID_URL None (''invalid url: '' @ url), s))
      | Inr (Some u) \<Rightarrow> DoRequest_uri env method u timeout_ms headers body s)"

definition DoGet_uri :: "('os, 'z) client_env \<Rightarrow> uri \<Rightarrow> u64 \<Rightarrow> (string \<times> string) list \<Rightarrow> string \<Rightarrow> 'os \<Rightarrow> (conn_error + http_result \<times> 'os) option" where
  "DoGet_uri env u timeout_ms headers body s = DoRequest_uri env GET u timeout_ms headers body s"

definition DoGet :: "('os, 'z) client_env \<Rightarrow> string \<Rightarrow> u64 \<Rightarrow> (string \<times> string) list \<Rightarrow> string \<Rightarrow> 'os \<Rightarrow> (conn_error + http_result \<times> 'os) option" where
  "DoGet env url timeout_ms headers body s =
     (case Uri_Create url of
        Inl e \<Rightarrow> Some (Inl (UriRaised e))
      | Inr None \<Rightarrow> Some (Inr (HttpResult INVALID_URL None (''invalid url: '' @ url), s))
      | Inr (Some u) \<Rightarrow> DoGet_uri env u timeout_ms headers body s)"

definition DoPost_uri :: "('os, 'z) client_env \<Rightarrow> uri \<Rightarrow> u64 \<Rightarrow> (string \<times> string) list \<Rightarrow> string \<Rightarrow> 'os \<Rightarrow> (conn_error + http_result \<times> 'os) option" where
  "DoPost_uri env u timeout_ms headers body s = DoRequest_uri env POST u timeout_ms headers body s"

definition DoPost :: "('os, 'z) client_env \<Rightarrow> string \<Rightarrow> u64 \<Rightarrow> (string \<times> string) list \<Rightarrow> string \<Rightarrow> 'os \<Rightarrow> (conn_error + http_result \<times> 'os) option" where
  "DoPost env url timeout_ms headers body s =
     (case Uri_Create url of
        Inl e \<Rightarrow> Some (Inl (UriRaised e))
      | Inr None \<Rightarrow> Some (Inr (HttpResult INVALID_URL None (''invalid url: '' @ url), s))
      | Inr (Some u) \<Rightarrow> DoPost_uri env u timeout_ms headers body s)"

end
