(* ===== verification/Sylar_HttpReceive.thy ===== *)
theory Sylar_HttpReceive
  imports Sylar_HttpConnection
begin

text \<open>
  Receiving a response (\<^verbatim>\<open>HttpConnection::recvResponse\<close>): every loop returns, what is taken from the connection, and how a chunked body is put together. The interface is a
  byte source with a buffer; the sockets of \<^verbatim>\<open>Sylar_Socket\<close> provide it.
\<close>

section \<open>The loops return\<close>

lemma ragel_run_moves:
  "ragel_run switch act leaves p rest cs s = (p', cs', s') \<Longrightarrow> p \<le> p' \<and> (p' = p \<longrightarrow> cs' = cs \<or> cs' = 0)"
proof (induction rest arbitrary: p cs s)
  case (Cons ch rest)
  show ?case
  proof (cases "switch cs")
    case (Some st)
    obtain acts t where j: "st (signed_char ch) = (acts, t)" by fastforce
    show ?thesis
    proof (cases "t = 0 \<or> list_ex leaves acts")
      case True
      then show ?thesis using Cons.prems Some j by (auto simp: Let_def split: if_splits)
    next
      case False
      then have "ragel_run switch act leaves (p + 1) rest t (fold (act p) acts s) = (p', cs', s')" using Cons.prems Some j by simp
      from Cons.IH [OF this] show ?thesis by simp
    qed
  qed (use Cons.prems in simp)
qed simp

lemma response_execute_splits:
  assumes "response_execute chunck data p = Inr (nparse, rest, p1)"
  shows "nparse \<le> length data" "data = take nparse data @ rest" "length rest = length data - nparse"
  using assms by (auto simp: response_execute_def Let_def split: sum.splits prod.splits if_splits)

lemma finished_state: "response_isFinished p \<Longrightarrow> \<not> response_hasError p \<Longrightarrow> hc_cs (sp_parser p) = 120"
  by (auto simp: response_isFinished_def response_hasError_def httpclient_parser_finish_def httpclient_parser_is_finished_def split: if_splits)

lemma chunk_header_consumes:
  assumes "response_execute True data p = Inr (nparse, rest, p1)" "data \<noteq> []" "length data < 2 ^ 31" "response_isFinished p1" "\<not> response_hasError p1"
  shows "0 < nparse"
proof -
  let ?h = "httpclient_parser_init (sp_parser p)"
  obtain q cs h1 cbs where r: "hc_run data 0 data 1 (?h\<lparr>hc_nread := 0, hc_mark := 0, hc_field_len := 0, hc_field_start := 0\<rparr>, []) = (q, cs, h1, cbs)" by (metis prod_cases4)
  obtain n cbs' h' where x: "httpclient_parser_execute ?h data 0 = Inr (int n, cbs', h')" "n \<le> length data"
    using hc_execute_safe [OF hc_init_ok(1) assms(2, 3), of "sp_parser p"] by blast
  have h: "hc_cs h' = cs" "int n = to_int32 (int (hc_nread h1 + q))" "hc_nread h1 + q \<le> length data"
    using x r assms(2, 3) hc_init_ok(2) [of "sp_parser p"] by (auto simp: httpclient_parser_execute_def Let_def split: if_splits)
  have n: "n = hc_nread h1 + q" using h(2, 3) assms(3) to_int32_small [of "int (hc_nread h1 + q)"] by auto
  have "int n < 2 ^ 64" using x(2) assms(3) by simp
  then have "nparse = n" "sp_parser p1 = h'" using assms(1) x by (auto simp: response_execute_def Let_def split: if_splits)
  moreover have "cs = 120" using finished_state [OF assms(4, 5)] h(1) calculation by simp
  moreover have "0 \<le> q \<and> (q = 0 \<longrightarrow> cs = 1 \<or> cs = 0)" using ragel_run_moves r unfolding hc_run_def by metis
  ultimately show ?thesis using n by auto
qed

text \<open>A byte source with the buffer of the client.\<close>

locale client_source = byte_source rd pending
  for rd :: "('s, char) reader" and pending :: "'s \<Rightarrow> string" +
  fixes buff_size :: nat
  assumes buff_size_ok: "0 < buff_size" "buff_size < 2 ^ 31"
begin

lemma buff_size_int: "to_int32 (int buff_size) = int buff_size"
  using buff_size_ok(2) by (intro to_int32_small) auto

lemma header_loop_spec:
  assumes "length buf < buff_size"
  shows "\<exists>r. header_loop rd buff_size s p buf = Some r \<and> (\<forall>p' rest s'. r = Inr (Some (p', rest), s') \<longrightarrow>
    length rest < buff_size \<and> response_isFinished p' \<and> \<not> response_hasError p' \<and> length (pending s') < length (pending s)
    \<and> (\<exists>parsed. buf @ pending s = parsed @ rest @ pending s'))"
  using assms
proof (induction "length (pending s)" arbitrary: s p buf rule: less_induct)
  case less
  obtain len bs s1 where r: "rd s (buff_size - length buf) = (len, bs, s1)" by (metis prod_cases3)
  have n: "0 < buff_size - length buf" using less.prems by simp
  show ?case
  proof (cases "len \<le> 0")
    case True
    then show ?thesis by (subst header_loop.simps) (simp add: r)
  next
    case False
    have mv: "int (length bs) = len" "pending s = bs @ pending s1" "length (pending s1) < length (pending s)" using rd_moves [OF r n] False by auto
    have room: "length (buf @ bs) \<le> buff_size" using rd_range [OF r n] mv(1) n by simp
    show ?thesis
    proof (cases "response_execute False (buf @ bs) p")
      case (Inl e)
      then show ?thesis using False by (subst header_loop.simps) (simp add: r)
    next
      case (Inr t)
      obtain nparse rest p1 where t: "t = (nparse, rest, p1)" by (metis prod_cases3)
      note x = response_execute_splits [OF Inr [unfolded t]]
      let ?stop = "response_hasError p1 \<or> int (length (buf @ bs)) - int nparse = to_int32 (int buff_size)"
      have eq: "header_loop rd buff_size s p buf = (if ?stop then Some (Inr (None, s1)) else if response_isFinished p1 then Some (Inr (Some (p1, rest), s1))
          else header_loop rd buff_size s1 p1 rest)"
        using False by (subst header_loop.simps) (simp add: r Inr t)
      have split: "buf @ pending s = take nparse (buf @ bs) @ rest @ pending s1" using mv(2) x(2) by (metis append.assoc)
      have short: "length rest < buff_size" if "\<not> ?stop" using that x(1, 3) room buff_size_int by auto
      show ?thesis
      proof (cases "?stop \<or> response_isFinished p1")
        case True
        then show ?thesis using eq short split mv(3) by (cases ?stop) auto
      next
        case False
        from less.hyps [OF mv(3) short, of p1] False obtain r where ih: "header_loop rd buff_size s1 p1 rest = Some r"
          "\<forall>p' rest' s'. r = Inr (Some (p', rest'), s') \<longrightarrow> length rest' < buff_size \<and> response_isFinished p' \<and> \<not> response_hasError p'
             \<and> length (pending s') < length (pending s1) \<and> (\<exists>parsed. rest @ pending s1 = parsed @ rest' @ pending s')" by blast
        have "\<exists>parsed. buf @ pending s = parsed @ rest' @ pending s'" if "rest @ pending s1 = parsed @ rest' @ pending s'" for parsed rest' s'
          using split that by (metis append.assoc)
        then show ?thesis using eq False ih mv(3) by (auto intro: less_trans)
      qed
    qed
  qed
qed

lemma refill_spec:
  assumes "length buf < buff_size" "refill rd buff_size s buf first = (Some data, s1)"
  shows "data \<noteq> []" "length data \<le> buff_size" "buf @ pending s = data @ pending s1"
    "2 * length (pending s1) < 2 * length (pending s) + (if first then 1 else 0)"
proof -
  have n: "0 < buff_size - length buf" using assms(1) by simp
  obtain rt bs s' where r: "rd s (buff_size - length buf) = (rt, bs, s')" by (metis prod_cases3)
  have "data \<noteq> [] \<and> length data \<le> buff_size \<and> buf @ pending s = data @ pending s1 \<and> 2 * length (pending s1) < 2 * length (pending s) + (if first then 1 else 0)"
  proof (cases "\<not> first \<or> buf = []")
    case True
    then have "0 < rt" "data = buf @ bs" "s1 = s'" using assms(2) r by (auto simp: refill_def split: if_splits)
    then show ?thesis using rd_moves [OF r n] rd_range [OF r n] n by auto
  next
    case False
    then show ?thesis using assms by (auto simp: refill_def)
  qed
  then show "data \<noteq> []" "length data \<le> buff_size" "buf @ pending s = data @ pending s1"
    "2 * length (pending s1) < 2 * length (pending s) + (if first then 1 else 0)" by blast+
qed

lemma chunk_header_loop_spec:
  assumes "length buf < buff_size"
  shows "\<exists>r. chunk_header_loop rd buff_size s p buf first = Some r \<and> (\<forall>p' rest s'. r = Inr (Some (p', rest), s') \<longrightarrow>
    length rest < buff_size \<and> (\<exists>parsed. parsed \<noteq> [] \<and> buf @ pending s = parsed @ rest @ pending s'))"
  using assms
proof (induction "2 * length (pending s) + (if first then 1 else 0)" arbitrary: s p buf first rule: less_induct)
  case less
  obtain d s1 where d: "refill rd buff_size s buf first = (d, s1)" by fastforce
  show ?case
  proof (cases d)
    case None
    then show ?thesis using d by (subst chunk_header_loop.simps) simp
  next
    case (Some data)
    note data = refill_spec [OF less.prems d [unfolded Some]]
    show ?thesis
    proof (cases "response_execute True data p")
      case (Inl e)
      then show ?thesis using d Some by (subst chunk_header_loop.simps) simp
    next
      case (Inr t)
      obtain nparse rest p1 where t: "t = (nparse, rest, p1)" by (metis prod_cases3)
      note x = response_execute_splits [OF Inr [unfolded t]]
      let ?stop = "response_hasError p1 \<or> int (length data) - int nparse = to_int32 (int buff_size)"
      have eq: "chunk_header_loop rd buff_size s p buf first = (if ?stop then Some (Inr (None, s1)) else if response_isFinished p1 then Some (Inr (Some (p1, rest), s1))
          else chunk_header_loop rd buff_size s1 p1 rest False)"
        by (subst chunk_header_loop.simps) (simp add: d Some Inr t)
      have split: "buf @ pending s = take nparse data @ rest @ pending s1" using data(3) x(2) by (metis append.assoc)
      have short: "length rest < buff_size" if "\<not> ?stop" using that x(1, 3) data(2) buff_size_int by auto
      consider (stop) ?stop | (fin) "\<not> ?stop" "response_isFinished p1" | (again) "\<not> ?stop" "\<not> response_isFinished p1" by blast
      then show ?thesis
      proof cases
        case stop
        then show ?thesis using eq by auto
      next
        case fin
        have "0 < nparse" using chunk_header_consumes [OF Inr [unfolded t] data(1)] data(2) buff_size_ok(2) fin by auto
        then have "take nparse data \<noteq> []" using data(1) by simp
        then show ?thesis using eq fin short split by auto
      next
        case again
        from less.hyps [of s1 False rest p1] data(4) short again obtain r where ih: "chunk_header_loop rd buff_size s1 p1 rest False = Some r"
          "\<forall>p' rest' s'. r = Inr (Some (p', rest'), s') \<longrightarrow> length rest' < buff_size \<and> (\<exists>parsed. parsed \<noteq> [] \<and> rest @ pending s1 = parsed @ rest' @ pending s')" by auto
        have "\<exists>parsed. parsed \<noteq> [] \<and> buf @ pending s = parsed @ rest' @ pending s'" if "rest @ pending s1 = parsed @ rest' @ pending s'" "parsed \<noteq> []" for parsed rest' s'
          using split that by (metis append.assoc append_is_Nil_conv)
        then show ?thesis using eq again ih by auto
      qed
    qed
  qed
qed

lemma chunk_rest_spec:
  assumes "chunk_rest rd buff_size s body left = (Some b, s')"
  shows "\<exists>got. b = body @ got \<and> pending s = got @ pending s' \<and> int (length got) = max left 0"
  using assms
proof (induction "nat left" arbitrary: s body left rule: less_induct)
  case less
  show ?case
  proof (cases "0 < left")
    case False
    then show ?thesis using less.prems by (subst (asm) chunk_rest.simps) simp
  next
    case True
    let ?m = "if left > to_int32 (int buff_size) then nat (to_int32 (int buff_size)) else nat left"
    have m: "0 < ?m" "int ?m \<le> left" using True buff_size_ok(1) buff_size_int by auto
    obtain rt bs s1 where r: "rd s ?m = (rt, bs, s1)" by (metis prod_cases3)
    have rt: "0 < rt" "chunk_rest rd buff_size s1 (body @ bs) (left - rt) = (Some b, s')"
      using less.prems True r by (subst (asm) chunk_rest.simps; auto split: if_splits)+
    have mv: "int (length bs) = rt" "pending s = bs @ pending s1" "rt \<le> left" using rd_moves [OF r m(1)] rd_range [OF r m(1)] rt(1) m(2) by auto
    have "nat (left - rt) < nat left" using True rt(1) by simp
    from less.hyps [OF this rt(2)] obtain got where "b = (body @ bs) @ got" "pending s1 = got @ pending s'" "int (length got) = max (left - rt) 0" by blast
    then show ?thesis using mv True by (intro exI [of _ "bs @ got"]) simp
  qed
qed

text \<open>However the data of a chunk is cut by the reads, exactly the announced bytes are appended and the line break is skipped.\<close>

lemma chunk_data_spec:
  assumes "chunk_data rd buff_size cl body data s = Inr (Some (body', data'), s')" "0 \<le> cl"
  shows "body' = body @ take (nat cl) (data @ pending s) \<and> data' @ pending s' = drop (nat cl + 2) (data @ pending s)
    \<and> nat cl + 2 \<le> length (data @ pending s) \<and> length data' \<le> length data"
proof (cases "cl + 2 \<le> int (length data)")
  case True
  then show ?thesis using assms by (auto simp: chunk_data_def Let_def split: if_splits)
next
  case False
  let ?left = "cl - int (length data) + 2"
  obtain b where b: "chunk_rest rd buff_size s (body @ data) ?left = (Some b, s')" "2 \<le> length b" "body' = take (length b - 2) b" "data' = []"
    using assms(1) False by (auto simp: chunk_data_def Let_def split: if_splits option.splits prod.splits)
  from chunk_rest_spec [OF b(1)] False obtain got where g: "b = body @ data @ got" "pending s = got @ pending s'" "int (length got) = ?left" by auto
  then have l: "length data + length got = nat cl + 2" using assms(2) by linarith
  define dg where "dg = data @ got"
  have dg: "data @ pending s = dg @ pending s'" "length dg = nat cl + 2" using g(2) l by (simp_all add: dg_def)
  have "take (nat cl) (data @ pending s) = take (nat cl) (data @ got)" "drop (nat cl + 2) (data @ pending s) = pending s'"
    unfolding dg(1) dg_def [symmetric] using dg(2) by simp_all
  moreover have "body' = body @ take (nat cl) (data @ got)" using b(3) g(1) l by (simp add: take_append)
  moreover have "length (data @ pending s) = nat cl + 2 + length (pending s')" using g(2) l by simp
  ultimately show ?thesis using b(4) by simp
qed

lemma chunk_data_shrinks:
  assumes "chunk_data rd buff_size cl body data s = Inr (Some (body', data'), s')"
  shows "length data' + length (pending s') \<le> length data + length (pending s)" "length data' \<le> length data"
proof -
  have "length data' + length (pending s') \<le> length data + length (pending s) \<and> length data' \<le> length data"
  proof (cases "0 \<le> cl")
    case True
    then show ?thesis using chunk_data_spec [OF assms] by (metis (no_types, lifting) length_append length_drop diff_le_self)
  next
    case False
    then have "\<not> cl + 2 \<le> int (length data)" using assms by (auto simp: chunk_data_def Let_def split: if_splits)
    then obtain b where "chunk_rest rd buff_size s (body @ data) (cl - int (length data) + 2) = (Some b, s')" "data' = []"
      using assms by (auto simp: chunk_data_def Let_def split: if_splits option.splits prod.splits)
    then show ?thesis using chunk_rest_spec [of s "body @ data" "cl - int (length data) + 2" b s'] by auto
  qed
  then show "length data' + length (pending s') \<le> length data + length (pending s)" "length data' \<le> length data" by blast+
qed

lemma chunk_loop_returns:
  assumes "length buf < buff_size"
  shows "\<exists>r. chunk_loop rd buff_size s p buf body = Some r"
  using assms
proof (induction "length buf + length (pending s)" arbitrary: s p buf body rule: less_induct)
  case less
  from chunk_header_loop_spec [OF less.prems, of s p True] obtain r where r: "chunk_header_loop rd buff_size s p buf True = Some r"
    "\<forall>p' rest s'. r = Inr (Some (p', rest), s') \<longrightarrow> length rest < buff_size \<and> (\<exists>parsed. parsed \<noteq> [] \<and> buf @ pending s = parsed @ rest @ pending s')" by blast
  show ?case
  proof (cases "\<exists>p1 data s1 b d s2. r = Inr (Some (p1, data), s1)
      \<and> chunk_data rd buff_size (hc_content_len (sp_parser p1)) body data s1 = Inr (Some (b, d), s2) \<and> \<not> hc_chunks_done (sp_parser p1)")
    case True
    then obtain p1 data s1 b d s2 where c: "r = Inr (Some (p1, data), s1)"
      "chunk_data rd buff_size (hc_content_len (sp_parser p1)) body data s1 = Inr (Some (b, d), s2)" "\<not> hc_chunks_done (sp_parser p1)" by blast
    obtain parsed where h: "length data < buff_size" "parsed \<noteq> []" "buf @ pending s = parsed @ data @ pending s1" using r(2) c(1) by blast
    have "length (buf @ pending s) = length (parsed @ data @ pending s1)" using h(3) by (rule arg_cong)
    then have m: "length d + length (pending s2) < length buf + length (pending s)" "length d < buff_size"
      using chunk_data_shrinks [OF c(2)] h(1, 2) by (auto simp flip: length_greater_0_conv)
    have "chunk_loop rd buff_size s p buf body = chunk_loop rd buff_size s2 p1 d b" by (subst chunk_loop.simps) (simp add: r(1) c)
    then show ?thesis using less.hyps [OF m] by simp
  next
    case False
    then show ?thesis by (subst chunk_loop.simps) (use r(1) in \<open>auto split: sum.splits option.splits prod.splits\<close>)
  qed
qed

end

interpretation net_client: client_source "SocketStream_read net_sys" "stream_bytes (\<lambda>s fd. nt_in s)" 4096
  using net_rx.source by (simp add: client_source_def client_source_axioms_def)

section \<open>A response is received\<close>

lemma client_source_sockets:
  assumes "inbound_calls sys inb" "0 < n" "n < 2 ^ 31"
  shows "client_source (SocketStream_read sys) (stream_bytes inb) n"
  using inbound_calls.source [OF assms(1)] assms(2, 3) by (simp add: client_source_def client_source_axioms_def)

lemma recv_body_pending:
  assumes "byte_source rd pending" "recv_body rd L rest s = (Some body, s')" "0 < L" "L < 2 ^ 63"
  shows "\<exists>got. pending s = got @ pending s' \<and> body = take (nat L) (rest @ got) \<and> length body = nat L"
proof -
  have "http_source rd pending (http11 demo_blank)"
    unfolding http_source_def http_source_axioms_def using assms(1) http11_consumes by blast
  from http_source.recv_body_spec [OF this assms(2-4)] show ?thesis by blast
qed

lemma finish_response_cases:
  assumes "\<forall>enc body. decode_body z enc body \<noteq> None"
  obtains (raised) e where "finish_response z p body s = Some (Inl e)" | (given) q where "finish_response z p body s = Some (Inr (Some q, s))"
proof (cases "body = ''''")
  case False
  obtain y where "decode_body z (r_getHeader (sp_data p) ''content-encoding'' '''') body = Some y" using assms by blast
  then show thesis using False that by (cases y) (simp_all add: finish_response_def)
qed (use that in \<open>simp add: finish_response_def\<close>)

text \<open>
  What the result \<open>r\<close> of \<^verbatim>\<open>recvResponse\<close> on the stream \<open>st\<close> says: without a response the connection is closed; a response was parsed from the bytes that arrived, and
  its body is what the chunks yield, or exactly the bytes that the header announces.
\<close>

definition response_received ::
    "('os, char) sys_calls \<Rightarrow> ('os \<Rightarrow> int \<Rightarrow> string) \<Rightarrow> ('z, char) zlib \<Rightarrow> (string \<Rightarrow> u64 option) \<Rightarrow> nat \<Rightarrow> 'os socket_stream
      \<Rightarrow> conn_error + http_response option \<times> 'os socket_stream \<Rightarrow> bool" where
  "response_received sys inb z lexical_cast n st r \<longleftrightarrow>
     (\<forall>st'. r = Inr (None, st') \<longrightarrow> \<not> ss_isConnected st' \<and> (\<forall>k. ss_socket st' = Some k \<longrightarrow> m_sock k = - 1))
     \<and> (\<forall>q st'. r = Inr (Some q, st') \<longrightarrow> (\<exists>p parsed data. response_isFinished p \<and> \<not> response_hasError p \<and>
          (if hc_chunked (sp_parser p)
           then \<exists>s1 p2 body. stream_bytes inb st = parsed @ data @ stream_bytes inb s1
             \<and> chunk_loop (SocketStream_read sys) n s1 p data '''' = Some (Inr (Some (p2, body), st')) \<and> finish_response z p2 body st' = Some r
           else let L = nat (sint (response_getContentLength lexical_cast p)) in
             \<exists>got. stream_bytes inb st = parsed @ data @ got @ stream_bytes inb st' \<and> finish_response z p (take L (data @ got)) st' = Some r
               \<and> length (take L (data @ got)) = L)))"

lemma received_closed: "response_received sys inb z lexical_cast n st (Inr (None, SocketStream_close sys s))" "response_received sys inb z lexical_cast n st (Inl e)"
  using close_stream [of sys s] by (auto simp: response_received_def)

lemma received_parsed:
  assumes "response_isFinished p" "\<not> response_hasError p"
    "if hc_chunked (sp_parser p)
     then \<exists>s1 p2 body. stream_bytes inb st = parsed @ data @ stream_bytes inb s1
       \<and> chunk_loop (SocketStream_read sys) n s1 p data '''' = Some (Inr (Some (p2, body), st')) \<and> finish_response z p2 body st' = Some (Inr (Some q, st'))
     else let L = nat (sint (response_getContentLength lexical_cast p)) in
       \<exists>got. stream_bytes inb st = parsed @ data @ got @ stream_bytes inb st' \<and> finish_response z p (take L (data @ got)) st' = Some (Inr (Some q, st'))
         \<and> length (take L (data @ got)) = L"
  shows "response_received sys inb z lexical_cast n st (Inr (Some q, st'))"
  unfolding response_received_def using assms by blast

lemma recv_chunked:
  assumes "header_loop (SocketStream_read sys) n st (HttpResponseParser blank) '''' = Some (Inr (Some (p, data), s1))" "hc_chunked (sp_parser p)"
    "response_isFinished p" "\<not> response_hasError p" "stream_bytes inb st = parsed @ data @ stream_bytes inb s1"
    "chunk_loop (SocketStream_read sys) n s1 p data '''' = Some r2" "\<forall>enc body. decode_body z enc body \<noteq> None"
  shows "\<exists>r. recvResponse sys z lexical_cast blank n st = Some r \<and> response_received sys inb z lexical_cast n st r"
proof (cases "\<exists>p2 body s2. r2 = Inr (Some (p2, body), s2)")
  case True
  then obtain p2 body s2 where t: "r2 = Inr (Some (p2, body), s2)" by blast
  have eq: "recvResponse sys z lexical_cast blank n st = finish_response z p2 body s2" using assms(1, 2, 6) t by (simp add: recvResponse_def Let_def)
  have c: "chunk_loop (SocketStream_read sys) n s1 p data '''' = Some (Inr (Some (p2, body), s2))" using assms(6) t by simp
  consider (raised) e where "finish_response z p2 body s2 = Some (Inl e)" | (given) q where "finish_response z p2 body s2 = Some (Inr (Some q, s2))"
    using finish_response_cases [OF assms(7)] by metis
  then show ?thesis unfolding eq
  proof cases
    case (given q)
    then show "\<exists>r. finish_response z p2 body s2 = Some r \<and> response_received sys inb z lexical_cast n st r"
      using received_parsed [OF assms(3, 4), of inb st parsed data sys n s2 z q] assms(2, 5) c by auto
  qed (use received_closed(2) in auto)
next
  case False
  then consider e where "r2 = Inl e" | s2 where "r2 = Inr (None, s2)" by (metis sum.exhaust surj_pair option.exhaust)
  then show ?thesis using assms(1, 2, 6) by cases (simp_all add: recvResponse_def Let_def received_closed)
qed

lemma recv_plain:
  assumes "header_loop (SocketStream_read sys) n st (HttpResponseParser blank) '''' = Some (Inr (Some (p, data), s1))" "\<not> hc_chunked (sp_parser p)"
    "response_isFinished p" "\<not> response_hasError p" "stream_bytes inb st = parsed @ data @ stream_bytes inb s1"
    "byte_source (SocketStream_read sys) (stream_bytes inb)" "\<forall>enc body. decode_body z enc body \<noteq> None"
  shows "\<exists>r. recvResponse sys z lexical_cast blank n st = Some r \<and> response_received sys inb z lexical_cast n st r"
proof -
  let ?rd = "SocketStream_read sys" and ?L = "sint (response_getContentLength lexical_cast p)"
  have big: "?L < 2 ^ 63" using sint_lt [of "response_getContentLength lexical_cast p"] by simp
  consider (empty) "?L \<le> 0" | (fail) s2 where "0 < ?L" "recv_body ?rd ?L data s1 = (None, s2)" | (got) body s2 where "0 < ?L" "recv_body ?rd ?L data s1 = (Some body, s2)"
    by (metis not_le option.exhaust surj_pair)
  then show ?thesis
  proof cases
    case empty
    have eq: "recvResponse sys z lexical_cast blank n st = finish_response z p '''' s1" using assms(1, 2) empty by (simp add: recvResponse_def Let_def)
    consider (raised) e where "finish_response z p '''' s1 = Some (Inl e)" | (given) q where "finish_response z p '''' s1 = Some (Inr (Some q, s1))"
      using finish_response_cases [OF assms(7)] by metis
    then show ?thesis unfolding eq
    proof cases
      case (given q)
      then show "\<exists>r. finish_response z p '''' s1 = Some r \<and> response_received sys inb z lexical_cast n st r"
        using received_parsed [OF assms(3, 4), of inb st parsed data sys n s1 z q lexical_cast] assms(2, 5) empty by (auto simp: Let_def)
    qed (use received_closed(2) in auto)
  next
    case fail
    then show ?thesis using assms(1, 2) by (simp add: recvResponse_def Let_def received_closed)
  next
    case got
    have eq: "recvResponse sys z lexical_cast blank n st = finish_response z p body s2" using assms(1, 2) got by (simp add: recvResponse_def Let_def)
    obtain g where g: "stream_bytes inb s1 = g @ stream_bytes inb s2" "body = take (nat ?L) (data @ g)" "length body = nat ?L"
      using recv_body_pending [OF assms(6) got(2, 1) big] by blast
    consider (raised) e where "finish_response z p body s2 = Some (Inl e)" | (given) q where "finish_response z p body s2 = Some (Inr (Some q, s2))"
      using finish_response_cases [OF assms(7)] by metis
    then show ?thesis unfolding eq
    proof cases
      case (given q)
      have "\<exists>got. stream_bytes inb st = parsed @ data @ got @ stream_bytes inb s2 \<and> finish_response z p (take (nat ?L) (data @ got)) s2 = Some (Inr (Some q, s2))
          \<and> length (take (nat ?L) (data @ got)) = nat ?L"
        using assms(5) given g(1, 3) unfolding g(2) by (intro exI [of _ g]) (simp only: append.assoc simp_thms)
      then show "\<exists>r. finish_response z p body s2 = Some r \<and> response_received sys inb z lexical_cast n st r"
        using received_parsed [OF assms(3, 4), of inb st parsed data sys n s2 z q lexical_cast] assms(2) given by (simp add: Let_def)
    qed (use received_closed(2) in auto)
  qed
qed

lemma recvResponse_spec:
  assumes "inbound_calls sys inb" "0 < n" "n < 2 ^ 31" "\<forall>enc body. decode_body z enc body \<noteq> None"
  shows "\<exists>r. recvResponse sys z lexical_cast blank n st = Some r \<and> response_received sys inb z lexical_cast n st r"
proof -
  note src = client_source_sockets [OF assms(1-3)]
  obtain r1 where h: "header_loop (SocketStream_read sys) n st (HttpResponseParser blank) '''' = Some r1"
    "\<And>p rest s'. r1 = Inr (Some (p, rest), s') \<Longrightarrow> length rest < n \<and> response_isFinished p \<and> \<not> response_hasError p
      \<and> (\<exists>parsed. stream_bytes inb st = parsed @ rest @ stream_bytes inb s')"
    using client_source.header_loop_spec [OF src, of "''''" st "HttpResponseParser blank"] assms(2) by auto
  consider e where "r1 = Inl e" | s1 where "r1 = Inr (None, s1)" | p data s1 where "r1 = Inr (Some (p, data), s1)"
    by (metis sum.exhaust surj_pair option.exhaust)
  then show ?thesis
  proof cases
    case (3 p data s1)
    from h(2) [OF 3] obtain parsed where d: "length data < n" "response_isFinished p" "\<not> response_hasError p" "stream_bytes inb st = parsed @ data @ stream_bytes inb s1" by blast
    obtain r2 where r2: "chunk_loop (SocketStream_read sys) n s1 p data '''' = Some r2" using client_source.chunk_loop_returns [OF src d(1)] by blast
    show ?thesis using recv_chunked [OF h(1) [unfolded 3] _ d(2-4) r2 assms(4)] recv_plain [OF h(1) [unfolded 3] _ d(2-4) inbound_calls.source [OF assms(1)] assms(4)] by blast
  qed (use h(1) in \<open>simp_all add: recvResponse_def received_closed\<close>)
qed


lemma decode_stored: "decode_body stored enc body \<noteq> None"
proof -
  let ?b = "take (length body mod 2 ^ 32) body"
  have short: "length ?b < 2 ^ 32" by simp
  have v: "zlib_vec step n f [body] bs z = zlib_vec step n f [?b] bs z" for step and n f and bs and z :: "string \<times> string \<times> string" by simp
  have w: "zlib_write stored body st = zlib_write stored ?b st" for st
    unfolding zlib_write_step zlib_code_def v by (simp del: zlib_vec.simps cong: option.case_cong)
  have "\<exists>y. inflate_with stored (zlib_Create stored False 4096 type DEFAULT_COMPRESSION 15 8 0) body = Some y" for type
  proof -
    let ?st = "\<lparr>zs_zstream = ([], [], []), zs_buffSize = 4096, zs_encode = False, zs_free = True, zs_buffs = []\<rparr> :: (string \<times> string \<times> string, char) zlib_stream"
    have c: "zlib_Create stored False 4096 type DEFAULT_COMPRESSION 15 8 0 = Inr (Some ?st)"
      by (simp add: zlib_Create_def zlib_init_def stored_def)
    obtain st1 st2 where "zlib_writes stored [?b] ?st = Some st1" "zlib_flush stored st1 = Some (Z_OK, st2)"
      using stream_collects [OF stored.zlib_codec_axioms c, of "[?b]"] short by auto
    then show ?thesis using c w by (auto simp: inflate_with_def split: option.splits prod.splits if_splits)
  qed
  then show ?thesis by (auto simp: decode_body_def CreateGzip_def CreateDeflate_def)
qed

definition demo_client_stream :: "string \<Rightarrow> net socket_stream" where
  "demo_client_stream text = SocketStream (Some ((Socket 2 1 0)\<lparr>m_sock := 8, m_isConnected := True\<rparr>)) True
     \<lparr>nt_plan = [1024, 1024], nt_in = text, nt_out = [], nt_closed = []\<rparr>"


section \<open>Chunks\<close>

definition chunk_text :: "string \<times> string \<Rightarrow> string" where
  "chunk_text hc = fst hc @ crlf @ snd hc @ crlf"

text \<open>The size of a chunk in hexadecimal digits.\<close>

definition chunk_ok :: "string \<times> string \<Rightarrow> bool" where
  "chunk_ok hc \<longleftrightarrow> fst hc \<noteq> [] \<and> (\<forall>ch \<in> set (fst hc). hex_char ch) \<and> read_digits 16 0 (fst hc) = length (snd hc)"

lemma chunk_header_parsed:
  assumes "h \<noteq> []" "\<forall>ch \<in> set h. hex_char ch" "read_digits 16 0 h = k" "length (h @ crlf @ rest) \<le> n" "n < 2 ^ 31" "k < 2 ^ 31" "sp_error p = 0"
  shows "\<exists>p'. chunk_header_loop rd n s p (h @ crlf @ rest) True = Some (Inr (Some (p', rest), s)) \<and> hc_content_len (sp_parser p') = int k
    \<and> (hc_chunks_done (sp_parser p') \<longleftrightarrow> k = 0) \<and> sp_data p' = sp_data p \<and> sp_error p' = 0"
proof -
  have k: "to_int32 (int k) = int k" using assms(6) by (intro to_int32_small) auto
  obtain cbs h' where x: "httpclient_parser_execute (httpclient_parser_init (sp_parser p)) (h @ crlf @ rest) 0 = Inr (int (length h + 2), cbs, h')"
    "hc_cs h' = 120" "hc_content_len h' = int k" "hc_chunks_done h' \<longleftrightarrow> k = 0" "\<And>q. fold response_callback cbs q = q"
    using execute_chunk_header [OF assms(1, 2), of rest "sp_parser p"] assms(3-6) k by auto
  have l: "length (h @ crlf @ rest) = length h + 2 + length rest" by (simp add: crlf_length)
  have "int (length h + 2) mod 2 ^ 64 = int (length h + 2)" using assms(4, 5) l by (intro mod_pos_pos_trivial) auto
  then have m: "nat (int (length h + 2) mod 2 ^ 64) = length h + 2" by (simp only: nat_int)
  have e: "response_execute True (h @ crlf @ rest) p = Inr (length h + 2, rest, p\<lparr>sp_parser := h'\<rparr>)"
    using x(5) l unfolding response_execute_def Let_def if_True x(1) by (simp only: sum.case prod.case m) (simp add: crlf_length)
  have f: "response_isFinished (p\<lparr>sp_parser := h'\<rparr>)" "\<not> response_hasError (p\<lparr>sp_parser := h'\<rparr>)"
    using x(2) assms(7) by (simp_all add: response_isFinished_def response_hasError_def httpclient_parser_finish_def httpclient_parser_has_error_def httpclient_parser_is_finished_def)
  have "int (length (h @ crlf @ rest)) - int (length h + 2) \<noteq> to_int32 (int n)" using l assms(4, 5) to_int32_small [of "int n"] by simp
  moreover have "refill rd n s (h @ crlf @ rest) True = (Some (h @ crlf @ rest), s)" using assms(1) by (simp add: refill_def)
  ultimately have "chunk_header_loop rd n s p (h @ crlf @ rest) True = Some (Inr (Some (p\<lparr>sp_parser := h'\<rparr>, rest), s))"
    using e f by (subst chunk_header_loop.simps) simp
  then show ?thesis using x(3, 4) assms(7) by simp
qed

lemma chunks_assembled:
  assumes "\<forall>hc \<in> set cs. chunk_ok hc \<and> snd hc \<noteq> []" "chunk_ok (z, [])" "length (concat (map chunk_text cs) @ chunk_text (z, []) @ rest) \<le> n" "n < 2 ^ 31" "sp_error p = 0"
  shows "\<exists>p'. chunk_loop rd n s p (concat (map chunk_text cs) @ chunk_text (z, []) @ rest) body = Some (Inr (Some (p', body @ concat (map snd cs)), s)) \<and> sp_data p' = sp_data p"
  using assms
proof (induction cs arbitrary: p body)
  case Nil
  have l: "length (z @ crlf @ crlf @ rest) \<le> n" using Nil.prems(3) by (simp add: chunk_text_def)
  obtain p' where p': "chunk_header_loop rd n s p (z @ crlf @ crlf @ rest) True = Some (Inr (Some (p', crlf @ rest), s))"
    "hc_content_len (sp_parser p') = 0" "hc_chunks_done (sp_parser p')" "sp_data p' = sp_data p"
    using chunk_header_parsed [of z 0 "crlf @ rest" n p rd s] Nil.prems l by (auto simp: chunk_ok_def)
  then show ?case by (subst chunk_loop.simps) (simp add: chunk_text_def chunk_data_def crlf_length)
next
  case (Cons hc cs)
  obtain h c where hc: "hc = (h, c)" by fastforce
  let ?more = "concat (map chunk_text cs) @ chunk_text (z, []) @ rest"
  have ok: "h \<noteq> []" "\<forall>ch \<in> set h. hex_char ch" "read_digits 16 0 h = length c" "c \<noteq> []" using Cons.prems(1) hc by (auto simp: chunk_ok_def)
  have t: "concat (map chunk_text (hc # cs)) @ chunk_text (z, []) @ rest = h @ crlf @ c @ crlf @ ?more" by (simp add: chunk_text_def hc)
  have l: "length (h @ crlf @ c @ crlf @ ?more) \<le> n" using Cons.prems(3) t by simp
  obtain p' where p': "chunk_header_loop rd n s p (h @ crlf @ c @ crlf @ ?more) True = Some (Inr (Some (p', c @ crlf @ ?more), s))"
    "hc_content_len (sp_parser p') = int (length c)" "\<not> hc_chunks_done (sp_parser p')" "sp_data p' = sp_data p" "sp_error p' = 0"
    using chunk_header_parsed [OF ok(1-3) l Cons.prems(4), of p rd s] Cons.prems(4, 5) l ok(4) by auto
  have d: "chunk_data rd n (int (length c)) body (c @ crlf @ ?more) s = Inr (Some (body @ c, ?more), s)"
    using l Cons.prems(4) by (simp add: chunk_data_def crlf_length)
  obtain p2 where "chunk_loop rd n s p' ?more (body @ c) = Some (Inr (Some (p2, (body @ c) @ concat (map snd cs)), s))" "sp_data p2 = sp_data p'"
    using Cons.IH [of p' "body @ c"] Cons.prems l p'(5) by auto
  then show ?case unfolding t using p' d hc by (subst chunk_loop.simps) simp
qed

text \<open>
  C27. A chunked body is put together: when the chunks have arrived with the header, each a size in hexadecimal digits and as many bytes, up to the chunk of size zero, the
  response gets the concatenation of the chunks as its body (before decompression) and nothing else is read from the connection.
\<close>

theorem chunked_body_assembled:
  assumes "header_loop (SocketStream_read sys) n st (HttpResponseParser blank) '''' = Some (Inr (Some (p, concat (map chunk_text cs) @ chunk_text (z0, []) @ rest), s1))"
    "hc_chunked (sp_parser p)" "sp_error p = 0" "\<forall>hc \<in> set cs. chunk_ok hc \<and> snd hc \<noteq> []" "chunk_ok (z0, [])"
    "length (concat (map chunk_text cs) @ chunk_text (z0, []) @ rest) \<le> n" "n < 2 ^ 31"
  shows "\<exists>p'. recvResponse sys z lexical_cast blank n st = finish_response z p' (concat (map snd cs)) s1 \<and> sp_data p' = sp_data p"
proof -
  obtain p' where "chunk_loop (SocketStream_read sys) n s1 p (concat (map chunk_text cs) @ chunk_text (z0, []) @ rest) '''' = Some (Inr (Some (p', concat (map snd cs)), s1))"
    "sp_data p' = sp_data p"
    using chunks_assembled [OF assms(4-7, 3), of "SocketStream_read sys" s1 "''''"] by auto
  then show ?thesis using assms(1, 2) by (intro exI [of _ p']) (simp add: recvResponse_def Let_def)
qed

definition demo_chunked :: string where
  "demo_chunked = ''HTTP/1.1 200 OK'' @ crlf @ ''Transfer-Encoding: chunked'' @ crlf @ crlf"

definition demo_chunks :: string where
  "demo_chunks = concat (map chunk_text [(''5'', ''hello''), (''02'', '', '')]) @ chunk_text (''0'', []) @ ''x''"

lemma demo_chunked_header:
  "case response_execute False (demo_chunked @ demo_chunks) (HttpResponseParser demo_client) of
     Inl e \<Rightarrow> False
   | Inr (n, rest, p) \<Rightarrow> n = length demo_chunked \<and> rest = demo_chunks \<and> hc_chunked (sp_parser p) \<and> sp_error p = 0 \<and> hc_cs (sp_parser p) = 120
       \<and> r_getHeader (sp_data p) ''content-encoding'' '''' = ''''"
  by code_simp

lemma demo_chunked_loop:
  "\<exists>p s1. header_loop (SocketStream_read net_sys) 4096 (demo_client_stream (demo_chunked @ demo_chunks)) (HttpResponseParser demo_client) ''''
    = Some (Inr (Some (p, demo_chunks), s1)) \<and> hc_chunked (sp_parser p) \<and> sp_error p = 0
    \<and> r_getHeader (sp_data p) ''content-encoding'' '''' = ''''"
proof -
  let ?t = "demo_chunked @ demo_chunks" and ?st = "demo_client_stream (demo_chunked @ demo_chunks)"
  have len: "length demo_chunked = 47" "length demo_chunks = 24" by code_simp+
  obtain s1 where s1: "SocketStream_read net_sys ?st 4096 = (int (length ?t), ?t, s1)"
    using len by (auto simp: SocketStream_read_def Socket_recv_def demo_client_stream_def SocketStream_def net_sys_def net_recv_def Let_def to_int32_small)
  obtain p where p: "response_execute False ?t (HttpResponseParser demo_client) = Inr (length demo_chunked, demo_chunks, p)"
    "hc_chunked (sp_parser p)" "sp_error p = 0" "hc_cs (sp_parser p) = 120" "r_getHeader (sp_data p) ''content-encoding'' '''' = ''''"
    using demo_chunked_header by (auto split: sum.splits)
  have "response_isFinished p" "\<not> response_hasError p"
    using p(3, 4) by (simp_all add: response_isFinished_def response_hasError_def httpclient_parser_finish_def httpclient_parser_has_error_def httpclient_parser_is_finished_def)
  then show ?thesis using s1 p len by (intro exI [of _ p] exI [of _ s1]) (subst header_loop.simps; simp add: to_int32_small)
qed

theorem chunked_body_assembled_witness:
  "\<exists>r s1. recvResponse net_sys stored (\<lambda>v. None) demo_client 4096 (demo_client_stream (demo_chunked @ demo_chunks)) = Some (Inr (Some r, s1)) \<and> r_body r = ''hello, ''"
proof -
  obtain p s1 where h: "header_loop (SocketStream_read net_sys) 4096 (demo_client_stream (demo_chunked @ demo_chunks)) (HttpResponseParser demo_client) ''''
    = Some (Inr (Some (p, demo_chunks), s1))" "hc_chunked (sp_parser p)" "sp_error p = 0" "r_getHeader (sp_data p) ''content-encoding'' '''' = ''''" using demo_chunked_loop by blast
  have c: "chunk_ok (''5'', ''hello'')" "chunk_ok (''02'', '', '')" "chunk_ok (''0'', [])" "length demo_chunks = 24"
    "decode_body stored '''' ''hello, '' = Some (Inr ''hello, '')" by code_simp+
  obtain p' where "recvResponse net_sys stored (\<lambda>v. None) demo_client 4096 (demo_client_stream (demo_chunked @ demo_chunks)) = finish_response stored p' ''hello, '' s1"
    "sp_data p' = sp_data p"
    using chunked_body_assembled [OF h(1) [unfolded demo_chunks_def] h(2, 3), folded demo_chunks_def, of stored "\<lambda>v. None"] c by auto
  then show ?thesis using h(4) c(5) by (simp add: finish_response_def)
qed

end
