(* ===== verification/Sylar_HttpPool.thy ===== *)
theory Sylar_HttpPool
  imports Sylar_HttpConnection
begin

text \<open>
  The pool of client connections (\<^verbatim>\<open>HttpConnectionPool\<close> in \<^verbatim>\<open>src/sylar/http/http_connection.cpp\<close>). A connection object is its socket and its counters;
  the state of the system is threaded through the calls. The deleter of the shared pointer that \<^verbatim>\<open>getConnection\<close> hands out is \<^verbatim>\<open>ReleasePtr\<close>.
\<close>

section \<open>The pool\<close>

text \<open>A connection without the state of the system, which all connections share. The counter of the pool, an atomic \<^verbatim>\<open>int32_t\<close>, is its word.\<close>

record http_connection =
  cn_socket :: "sock option"
  cn_owner :: bool
  cn_createTime :: u64
  cn_request :: u64

record conn_pool =
  pl_host :: string
  pl_vhost :: string
  pl_port :: u32
  pl_maxSize :: u32
  pl_maxAliveTime :: u32
  pl_maxRequest :: u32
  pl_isHttps :: bool
  pl_conns :: "http_connection list"
  pl_total :: u32

definition HttpConnection :: "sock option \<Rightarrow> bool \<Rightarrow> http_connection" where
  "HttpConnection k owner = \<lparr>cn_socket = k, cn_owner = owner, cn_createTime = 0, cn_request = 0\<rparr>"

definition cn_stream :: "http_connection \<Rightarrow> 'os \<Rightarrow> 'os socket_stream" where
  "cn_stream c s = SocketStream (cn_socket c) (cn_owner c) s"

definition cn_isConnected :: "http_connection \<Rightarrow> bool" where
  "cn_isConnected c = (case cn_socket c of None \<Rightarrow> False | Some k \<Rightarrow> m_isConnected k)"

text \<open>The destructors of \<^verbatim>\<open>HttpConnection\<close> and \<^verbatim>\<open>SocketStream\<close>.\<close>

definition cn_delete :: "('os, char) sys_calls \<Rightarrow> http_connection \<Rightarrow> 'os \<Rightarrow> 'os" where
  "cn_delete sys c s = ss_os (SocketStream_destroy sys (cn_stream c s))"

definition HttpConnectionPool :: "string \<Rightarrow> string \<Rightarrow> u32 \<Rightarrow> bool \<Rightarrow> u32 \<Rightarrow> u32 \<Rightarrow> u32 \<Rightarrow> conn_pool" where
  "HttpConnectionPool host vhost port is_https max_size max_alive_time max_request =
     \<lparr>pl_host = host, pl_vhost = vhost, pl_port = (if port \<noteq> 0 then port else if is_https then 443 else 80), pl_maxSize = max_size,
      pl_maxAliveTime = max_alive_time, pl_maxRequest = max_request, pl_isHttps = is_https, pl_conns = [], pl_total = 0\<rparr>"

text \<open>A text that is no uri is logged, and then the null pointer is used.\<close>

definition pool_Create :: "string \<Rightarrow> string \<Rightarrow> u32 \<Rightarrow> u32 \<Rightarrow> u32 \<Rightarrow> conn_error + conn_pool" where
  "pool_Create uri vhost max_size max_alive_time max_request =
     (case Uri_Create uri of
        Inl e \<Rightarrow> Inl (UriRaised e)
      | Inr None \<Rightarrow> Inl NullUri
      | Inr (Some u) \<Rightarrow>
          Inr (HttpConnectionPool (u_host u) vhost (of_int (uri_getPort u)) (u_scheme u = ''https'') max_size max_alive_time max_request))"

text \<open>The loop of \<^verbatim>\<open>getConnection\<close>: the connections it drops, the one it takes, the ones that stay.\<close>

fun pop_conn :: "u64 \<Rightarrow> u32 \<Rightarrow> http_connection list \<Rightarrow> http_connection list \<times> http_connection option \<times> http_connection list" where
  "pop_conn now_ms alive [] = ([], None, [])"
| "pop_conn now_ms alive (c # cs) =
     (if \<not> cn_isConnected c \<or> cn_createTime c + ucast alive > now_ms
      then let (invalid, ptr, rest) = pop_conn now_ms alive cs in (c # invalid, ptr, rest)
      else ([], Some c, cs))"

definition getConnection :: "('os, 'z) client_env \<Rightarrow> conn_pool \<Rightarrow> 'os \<Rightarrow> http_connection option \<times> conn_pool \<times> 'os" where
  "getConnection env pool s =
     (let ssl = pl_isHttps pool; sys = ce_sys env ssl;
          (invalid, ptr, rest) = pop_conn (ce_now env s) (pl_maxAliveTime pool) (pl_conns pool);
          s1 = fold (cn_delete sys) invalid s;
          pool1 = pool\<lparr>pl_conns := rest, pl_total := pl_total pool - of_nat (length invalid)\<rparr>
      in case ptr of
           Some c \<Rightarrow> (Some c, pool1, s1)
         | None \<Rightarrow>
             (case LookupAnyIPAddress (ce_getaddrinfo env) (pl_host pool) of
                None \<Rightarrow> (None, pool1, s1)
              | Some addr0 \<Rightarrow>
                  (let addr = set_port addr0 (ucast (pl_port pool)) in
                   case ce_create env ssl addr s1 of
                     (None, s2) \<Rightarrow> (None, pool1, s2)
                   | (Some k, s2) \<Rightarrow>
                       (case Socket_connect sys addr (- 1) (k, s2) of
                          (False, k3, s3) \<Rightarrow> (None, pool1, snd (snd (Socket_close sys (k3, s3))))
                        | (True, k3, s3) \<Rightarrow> (Some (HttpConnection (Some k3) True), pool1\<lparr>pl_total := pl_total pool1 + 1\<rparr>, s3)))))"

definition ReleasePtr :: "('os, 'z) client_env \<Rightarrow> http_connection \<Rightarrow> conn_pool \<Rightarrow> 'os \<Rightarrow> conn_pool \<times> 'os" where
  "ReleasePtr env ptr pool s =
     (let c = ptr\<lparr>cn_request := cn_request ptr + 1\<rparr> in
      if \<not> cn_isConnected c \<or> cn_createTime c + ucast (pl_maxAliveTime pool) \<ge> ce_now env s \<or> cn_request c \<ge> ucast (pl_maxRequest pool)
      then (pool\<lparr>pl_total := pl_total pool - 1\<rparr>, cn_delete (ce_sys env (pl_isHttps pool)) c s)
      else (pool\<lparr>pl_conns := pl_conns pool @ [c]\<rparr>, s))"

text \<open>The connection goes back to the pool when the last pointer to it does, behind the result.\<close>

definition pool_doRequest_req :: "('os, 'z) client_env \<Rightarrow> http_request \<Rightarrow> u64 \<Rightarrow> conn_pool \<Rightarrow> 'os \<Rightarrow> (conn_error + http_result \<times> conn_pool \<times> 'os) option" where
  "pool_doRequest_req env req timeout_ms pool s =
     (let ssl = pl_isHttps pool; sys = ce_sys env ssl; place = ''pool host:'' @ pl_host pool @ '' port:'' @ show_nat (unat (pl_port pool)) in
      case getConnection env pool s of
        (None, pool1, s1) \<Rightarrow> Some (Inr (HttpResult POOL_GET_CONNECTION None place, pool1, s1))
      | (Some c, pool1, s1) \<Rightarrow>
          (case cn_socket c of
             None \<Rightarrow> Some (Inr (HttpResult POOL_INVALID_CONNECTION None place, ReleasePtr env c pool1 s1))
           | Some k \<Rightarrow>
               (let s2 = Socket_setRecvTimeout sys (sint timeout_ms) (k, s1); peer = Address_toString (fst (getRemoteAddress sys (k, s2))) in
                map_option (map_sum id (\<lambda>(r, st). (r, ReleasePtr env (c\<lparr>cn_socket := ss_socket st\<rparr>) pool1 (ss_os st))))
                  (exchange env ssl peer req timeout_ms (cn_stream c s2)))))"

definition pool_request :: "HttpMethod \<Rightarrow> string \<Rightarrow> (string \<times> string) list \<Rightarrow> string \<Rightarrow> conn_pool \<Rightarrow> http_request" where
  "pool_request method url headers body pool =
     (let (req, has_host) = fold add_header headers ((HttpRequest 0x11 True)\<lparr>q_path := url, q_method := method, q_close := False\<rparr>, False)
      in (if has_host then req else q_setHeader req ''Host'' (if pl_vhost pool = '''' then pl_host pool else pl_vhost pool))\<lparr>q_body := body\<rparr>)"

definition pool_doRequest ::
    "('os, 'z) client_env \<Rightarrow> HttpMethod \<Rightarrow> string \<Rightarrow> u64 \<Rightarrow> (string \<times> string) list \<Rightarrow> string \<Rightarrow> conn_pool \<Rightarrow> 'os \<Rightarrow> (conn_error + http_result \<times> conn_pool \<times> 'os) option" where
  "pool_doRequest env method url timeout_ms headers body pool s = pool_doRequest_req env (pool_request method url headers body pool) timeout_ms pool s"

definition uri_target :: "uri \<Rightarrow> string" where
  "uri_target u =
     uri_getPath u @ (if u_query u = '''' then '''' else ''?'') @ u_query u @ (if u_fragment u = '''' then '''' else ''#'') @ u_fragment u"

definition pool_doRequest_uri ::
    "('os, 'z) client_env \<Rightarrow> HttpMethod \<Rightarrow> uri \<Rightarrow> u64 \<Rightarrow> (string \<times> string) list \<Rightarrow> string \<Rightarrow> conn_pool \<Rightarrow> 'os \<Rightarrow> (conn_error + http_result \<times> conn_pool \<times> 'os) option" where
  "pool_doRequest_uri env method u timeout_ms headers body pool s = pool_doRequest env method (uri_target u) timeout_ms headers body pool s"

definition pool_doGet ::
    "('os, 'z) client_env \<Rightarrow> string \<Rightarrow> u64 \<Rightarrow> (string \<times> string) list \<Rightarrow> string \<Rightarrow> conn_pool \<Rightarrow> 'os \<Rightarrow> (conn_error + http_result \<times> conn_pool \<times> 'os) option" where
  "pool_doGet env url timeout_ms headers body pool s = pool_doRequest env GET url timeout_ms headers body pool s"

definition pool_doGet_uri ::
    "('os, 'z) client_env \<Rightarrow> uri \<Rightarrow> u64 \<Rightarrow> (string \<times> string) list \<Rightarrow> string \<Rightarrow> conn_pool \<Rightarrow> 'os \<Rightarrow> (conn_error + http_result \<times> conn_pool \<times> 'os) option" where
  "pool_doGet_uri env u timeout_ms headers body pool s = pool_doGet env (uri_target u) timeout_ms headers body pool s"

definition pool_doPost ::
    "('os, 'z) client_env \<Rightarrow> string \<Rightarrow> u64 \<Rightarrow> (string \<times> string) list \<Rightarrow> string \<Rightarrow> conn_pool \<Rightarrow> 'os \<Rightarrow> (conn_error + http_result \<times> conn_pool \<times> 'os) option" where
  "pool_doPost env url timeout_ms headers body pool s = pool_doRequest env POST url timeout_ms headers body pool s"

definition pool_doPost_uri ::
    "('os, 'z) client_env \<Rightarrow> uri \<Rightarrow> u64 \<Rightarrow> (string \<times> string) list \<Rightarrow> string \<Rightarrow> conn_pool \<Rightarrow> 'os \<Rightarrow> (conn_error + http_result \<times> conn_pool \<times> 'os) option" where
  "pool_doPost_uri env u timeout_ms headers body pool s = pool_doPost env (uri_target u) timeout_ms headers body pool s"

section \<open>Reachable pools\<close>

text \<open>
  A pool with the connections that are in use. Between \<^verbatim>\<open>getConnection\<close> and \<^verbatim>\<open>ReleasePtr\<close> a connection may be used, which changes its socket and the system but not its
  counters.
\<close>

inductive pool_step :: "('os, 'z) client_env \<Rightarrow> conn_pool \<times> http_connection list \<times> 'os \<Rightarrow> conn_pool \<times> http_connection list \<times> 'os \<Rightarrow> bool" for env where
  pool_got: "getConnection env pool s = (Some c, pool', s') \<Longrightarrow> pool_step env (pool, used, s) (pool', c # used, s')"
| pool_failed: "getConnection env pool s = (None, pool', s') \<Longrightarrow> pool_step env (pool, used, s) (pool', used, s')"
| pool_used: "pool_step env (pool, as @ c # bs, s) (pool, as @ c\<lparr>cn_socket := k\<rparr> # bs, s')"
| pool_released: "ReleasePtr env c pool s = (pool', s') \<Longrightarrow> pool_step env (pool, as @ c # bs, s) (pool', as @ bs, s')"

inductive pool_reachable :: "('os, 'z) client_env \<Rightarrow> conn_pool \<times> http_connection list \<times> 'os \<Rightarrow> bool" for env where
  pool_created: "pool_reachable env (HttpConnectionPool host vhost port is_https max_size max_alive_time max_request, [], s)"
| pool_more: "pool_reachable env w \<Longrightarrow> pool_step env w w' \<Longrightarrow> pool_reachable env w'"

text \<open>
  The counter is the number of connections that are stored or in use, modulo its width. A stored connection is connected, was used at least once and may be used again;
  no connection has a creation time.
\<close>

definition pool_inv :: "conn_pool \<times> http_connection list \<times> 'os \<Rightarrow> bool" where
  "pool_inv w \<longleftrightarrow>
     (let (pool, used, s) = w in
      pl_total pool = of_nat (length (pl_conns pool) + length used)
      \<and> (\<forall>c \<in> set (pl_conns pool). cn_isConnected c \<and> 0 < cn_request c \<and> cn_request c < ucast (pl_maxRequest pool) \<and> cn_createTime c = 0)
      \<and> (\<forall>c \<in> set used. (cn_request c = 0 \<or> cn_request c < ucast (pl_maxRequest pool)) \<and> cn_createTime c = 0))"

lemma pop_conn_split:
  "pop_conn now alive cs = (invalid, ptr, rest) \<Longrightarrow> cs = invalid @ (case ptr of None \<Rightarrow> [] | Some c \<Rightarrow> [c]) @ rest \<and> (ptr = None \<longrightarrow> rest = [])"
  by (induction cs arbitrary: invalid) (auto split: if_splits prod.splits)

lemma getConnection_cases:
  assumes "getConnection env pool s = (c, pool', s')"
  obtains (stored) c' invalid rest where "c = Some c'" "pl_conns pool = invalid @ c' # rest" "pool' = pool\<lparr>pl_conns := rest, pl_total := pl_total pool - of_nat (length invalid)\<rparr>"
  | (opened) k where "c = Some (HttpConnection (Some k) True)"
      "pool' = pool\<lparr>pl_conns := [], pl_total := pl_total pool - of_nat (length (pl_conns pool)) + 1\<rparr>"
  | (refused) "c = None" "pool' = pool\<lparr>pl_conns := [], pl_total := pl_total pool - of_nat (length (pl_conns pool))\<rparr>"
proof -
  obtain invalid ptr rest where p: "pop_conn (ce_now env s) (pl_maxAliveTime pool) (pl_conns pool) = (invalid, ptr, rest)" by (metis prod_cases3)
  note sp = pop_conn_split [OF p]
  show thesis
  proof (cases ptr)
    case (Some c')
    then show ?thesis using stored [of c' invalid rest] assms p sp by (simp add: getConnection_def Let_def)
  next
    case None
    then have "invalid = pl_conns pool" "rest = []" using sp by auto
    then show ?thesis using assms p None opened refused
      by (simp add: getConnection_def Let_def split: option.splits prod.splits bool.splits) auto
  qed
qed

lemma max_request_bound: "c < ucast (m :: u32) \<Longrightarrow> c + 1 \<noteq> (0 :: u64)"
  using word_order.extremum [of "ucast m :: u64"] by (auto simp: eq_neg_iff_add_eq_0 [symmetric])

lemma pool_release_inv:
  assumes "pool_inv (pool, as @ c # bs, s)" "ReleasePtr env c pool s = (pool', s')"
  shows "pool_inv (pool', as @ bs, s')"
proof -
  let ?c = "c\<lparr>cn_request := cn_request c + 1\<rparr>"
  have c: "cn_request c = 0 \<or> cn_request c < ucast (pl_maxRequest pool)" "cn_createTime c = 0" using assms(1) by (auto simp: pool_inv_def)
  have pos: "0 < cn_request c + 1" using c(1) max_request_bound [of "cn_request c" "pl_maxRequest pool"] by (auto simp: word_gt_0)
  show ?thesis
  proof (cases "\<not> cn_isConnected ?c \<or> cn_createTime ?c + ucast (pl_maxAliveTime pool) \<ge> ce_now env s \<or> cn_request ?c \<ge> ucast (pl_maxRequest pool)")
    case True
    then have "pool' = pool\<lparr>pl_total := pl_total pool - 1\<rparr>" using assms(2) by (auto simp: ReleasePtr_def Let_def)
    then show ?thesis using assms(1) by (auto simp: pool_inv_def)
  next
    case False
    then have "pool' = pool\<lparr>pl_conns := pl_conns pool @ [?c]\<rparr>" using assms(2) by (simp add: ReleasePtr_def Let_def)
    then show ?thesis using assms(1) c(2) pos False by (auto simp: pool_inv_def Let_def not_le)
  qed
qed

lemma pool_step_inv: "pool_step env w w' \<Longrightarrow> pool_inv w \<Longrightarrow> pool_inv w'"
proof (induction rule: pool_step.induct)
  case (pool_got pool s c pool' s' used)
  from pool_got(1) show ?case
  proof (cases rule: getConnection_cases)
    case (stored c' invalid rest)
    then show ?thesis using pool_got(2) by (auto simp: pool_inv_def)
  next
    case (opened k)
    then show ?thesis using pool_got(2) by (auto simp: pool_inv_def HttpConnection_def)
  qed simp
next
  case (pool_failed pool s pool' s' used)
  from pool_failed(1) show ?case
  proof (cases rule: getConnection_cases)
    case refused
    then show ?thesis using pool_failed(2) by (auto simp: pool_inv_def)
  qed simp_all
next
  case (pool_used pool as c bs s k s')
  then show ?case by (auto simp: pool_inv_def)
qed (rule pool_release_inv)

lemma pool_reachable_inv: "pool_reachable env w \<Longrightarrow> pool_inv w"
proof (induction rule: pool_reachable.induct)
  case pool_created
  show ?case by (simp add: pool_inv_def HttpConnectionPool_def)
qed (rule pool_step_inv)

lemma no_age: "2 ^ 32 \<le> unat (now :: u64) \<Longrightarrow> \<not> ucast (alive :: u32) \<ge> now"
proof -
  have "unat alive < 2 ^ LENGTH(32)" by (rule unsigned_less)
  then show "2 ^ 32 \<le> unat now \<Longrightarrow> \<not> ucast alive \<ge> now" by (simp add: word_le_nat_alt unsigned_ucast_eq take_bit_nat_eq_self)
qed

text \<open>
  C28. In every pool that can be reached the counter of connections is the number of those stored and those in use, and every stored connection is connected and has served
  at least one request and fewer than the limit. Two limits are not enforced: since no connection gets a creation time, on a clock that counts milliseconds since 1970 the first
  stored connection is handed out whatever its age; and the configured size does not keep a connection from being stored. A text that is no uri makes \<^verbatim>\<open>Create\<close> use a null
  pointer.
\<close>

theorem pool_lifecycle:
  assumes "pool_reachable env (pool, used, s)" "2 ^ 32 \<le> unat (ce_now env s)"
  shows "pl_total pool = of_nat (length (pl_conns pool) + length used)
    \<and> (\<forall>c \<in> set (pl_conns pool). cn_isConnected c \<and> 0 < cn_request c \<and> cn_request c < ucast (pl_maxRequest pool))
    \<and> (\<forall>c cs. pl_conns pool = c # cs \<longrightarrow> getConnection env pool s = (Some c, pool\<lparr>pl_conns := cs\<rparr>, s))
    \<and> (\<forall>c \<in> set used. cn_isConnected c \<and> cn_request c + 1 < ucast (pl_maxRequest pool) \<longrightarrow>
         ReleasePtr env c pool s = (pool\<lparr>pl_conns := pl_conns pool @ [c\<lparr>cn_request := cn_request c + 1\<rparr>]\<rparr>, s))
    \<and> (Uri_Create text = Inr None \<longrightarrow> pool_Create text vhost max_size max_alive_time max_request = Inl NullUri)"
proof -
  note inv = pool_reachable_inv [OF assms(1), unfolded pool_inv_def, simplified]
  have age: "\<not> now < ucast (pl_maxAliveTime pool)" "\<not> now \<le> ucast (pl_maxAliveTime pool)" if "now = ce_now env s" for now
    using no_age [OF assms(2), of "pl_maxAliveTime pool"] that by auto
  have "getConnection env pool s = (Some c, pool\<lparr>pl_conns := cs\<rparr>, s)" if c: "pl_conns pool = c # cs" for c cs
    using inv c age by (simp add: getConnection_def Let_def)
  moreover have "ReleasePtr env c pool s = (pool\<lparr>pl_conns := pl_conns pool @ [c\<lparr>cn_request := cn_request c + 1\<rparr>]\<rparr>, s)"
    if c: "c \<in> set used" "cn_isConnected c" "cn_request c + 1 < ucast (pl_maxRequest pool)" for c
  proof -
    have "cn_createTime c = 0" "cn_isConnected (c\<lparr>cn_request := n\<rparr>) = cn_isConnected c" for n using inv c(1) by (auto simp: cn_isConnected_def)
    moreover have "\<not> ucast (pl_maxRequest pool) \<le> cn_request c + 1" using c(3) by simp
    ultimately show ?thesis using c(2) age by (simp add: ReleasePtr_def Let_def)
  qed
  ultimately show ?thesis using inv by (auto simp: pool_Create_def)
qed

section \<open>A pool to try things on\<close>

definition demo_client_env :: "(net, string \<times> string \<times> string) client_env" where
  "demo_client_env = \<lparr>ce_sys = (\<lambda>ssl. net_sys\<lparr>sys_connect := (\<lambda>s fd a. (0, s))\<rparr>), ce_create = (\<lambda>ssl a s. (Some (Socket 2 1 0), s)),
     ce_getaddrinfo = (\<lambda>node service. Some [SIn (IPv4Address_new 0x7F000001 0)]), ce_strerror = (\<lambda>e. []), ce_now = (\<lambda>s. 0x18000000000), ce_zlib = stored,
     ce_cast = (\<lambda>v. None), ce_blank = demo_client, ce_buff_size = 4096\<rparr>"

definition demo_pool :: conn_pool where
  "demo_pool = HttpConnectionPool ''sylar.top'' [] 80 False 1 1000 5"

text \<open>A connection that was opened, used and given back.\<close>

definition demo_pooled :: "conn_pool \<times> net" where
  "demo_pooled = (case getConnection demo_client_env demo_pool demo_net of (Some c, pool, s) \<Rightarrow> ReleasePtr demo_client_env c pool s | (None, pool, s) \<Rightarrow> (pool, s))"

lemma demo_pooled_facts: "fst (getConnection demo_client_env demo_pool demo_net) \<noteq> None" "length (pl_conns (fst demo_pooled)) = 1" "pl_maxAliveTime (fst demo_pooled) = 1000"
  by code_simp+

lemma demo_pooled_reachable: "pool_reachable demo_client_env (fst demo_pooled, [], snd demo_pooled)"
proof -
  obtain c pool s where g: "getConnection demo_client_env demo_pool demo_net = (Some c, pool, s)" using demo_pooled_facts(1) by (metis fst_conv option.exhaust prod_cases3)
  have "pool_reachable demo_client_env (demo_pool, [], demo_net)" unfolding demo_pool_def by (rule pool_created)
  from pool_more [OF this pool_got [OF g]] have "pool_reachable demo_client_env (pool, [] @ c # [], s)" by simp
  from pool_more [OF this pool_released [of _ c pool s "fst demo_pooled" "snd demo_pooled"]] show ?thesis using g by (simp add: demo_pooled_def)
qed

theorem pool_lifecycle_witness:
  "pl_total (fst demo_pooled) = 1
    \<and> (\<exists>c. getConnection demo_client_env (fst demo_pooled) (snd demo_pooled) = (Some c, (fst demo_pooled)\<lparr>pl_conns := []\<rparr>, snd demo_pooled))"
proof -
  obtain c where c: "pl_conns (fst demo_pooled) = [c]" using demo_pooled_facts(2) by (auto simp: length_Suc_conv)
  have "2 ^ 32 \<le> unat (ce_now demo_client_env (snd demo_pooled))" by (simp add: demo_client_env_def)
  from pool_lifecycle [OF demo_pooled_reachable this] c show ?thesis by auto
qed

end
