(* ===== verification/Sylar_Exchange.thy ===== *)
theory Sylar_Exchange
  imports Sylar_HttpReceive
begin

text \<open>
  What one side prints and the other reads: the header fields of a printed message in the map of the message that is built from them, and a response that arrives in one
  read.
\<close>

section \<open>Fields in a header map\<close>

abbreviation assign_all :: "(string \<Rightarrow> string) \<Rightarrow> (string \<times> string) list \<Rightarrow> MapType \<Rightarrow> MapType" where
  "assign_all f kvs m \<equiv> fold (\<lambda>kv. cmap_assign CaseInsensitiveLess (fst kv) (f (snd kv))) kvs m"

lemma assign_all_ok: "map_ok m \<Longrightarrow> map_ok (assign_all f kvs m)"
  by (induction kvs arbitrary: m) simp_all

lemma assign_all_other:
  assumes "map_ok m" "\<forall>kv \<in> set kvs. ckey (fst kv) \<noteq> ckey k"
  shows "cmap_find CaseInsensitiveLess k (assign_all f kvs m) = cmap_find CaseInsensitiveLess k m"
  using assms
proof (induction kvs arbitrary: m)
  case (Cons kv kvs)
  then show ?case using ci.find_assign [of m k "fst kv" "f (snd kv)"] by (auto simp: ci_eqv map_ok_def ci.keys_ordered_assign)
qed simp

lemma assign_all_hit:
  assumes "map_ok m" "\<forall>kv \<in> set bs. ckey (fst kv) \<noteq> ckey k"
  shows "cmap_find CaseInsensitiveLess k (assign_all f (as @ (k, v) # bs) m) = Some (f v)"
proof -
  let ?m = "cmap_assign CaseInsensitiveLess k (f v) (assign_all f as m)"
  have "map_ok (assign_all f as m)" using assms(1) by (rule assign_all_ok)
  then have "map_ok ?m" "cmap_find CaseInsensitiveLess k ?m = Some (f v)"
    using ci.find_assign [of "assign_all f as m" k k "f v"] by (simp_all add: ci_eqv map_ok_def ci.keys_ordered_assign)
  then show ?thesis using assign_all_other [of ?m bs k] assms(2) by simp
qed

lemma show_nat_nonempty: "show_nat n \<noteq> []"
  by (subst show_nat.simps) simp

lemma show_nat_first: "\<exists>c cs. show_nat n = c # cs \<and> 48 \<le> signed_char c \<and> signed_char c \<le> 57"
proof -
  obtain c cs where c: "show_nat n = c # cs" using show_nat_nonempty by (cases "show_nat n") auto
  then show ?thesis using show_nat_digit_char [of n] by (auto simp: digit_char_def)
qed

lemma ckey_length: "ckey a = ckey b \<Longrightarrow> length (c_str a) = length (c_str b)"
  unfolding ckey_def by (metis length_map)

lemma field_keys: "ckey ''connection'' \<noteq> ckey ''content-length''" "ckey ''connection'' \<noteq> ckey ''content-encoding''" "ckey ''Set-Cookie'' \<noteq> ckey ''content-length''"
  "ckey ''Set-Cookie'' \<noteq> ckey ''content-encoding''" "ckey ''content-length'' \<noteq> ckey ''content-encoding''"
  by (auto dest!: ckey_length simp: c_str_def)

section \<open>A printed response arrives\<close>

definition set_response_fields :: "(string \<times> string) list \<Rightarrow> http_response \<Rightarrow> http_response" where
  "set_response_fields kvs r = fold (\<lambda>kv r. r_setHeader r (fst kv) (dropWhile value_blank (snd kv))) kvs r"

lemma response_fields_keep:
  "set_response_fields kvs r = r\<lparr>r_headers := assign_all (dropWhile value_blank) kvs (r_headers r)\<rparr>"
  by (induction kvs arbitrary: r) (simp_all add: set_response_fields_def r_setHeader_def)

lemma dumped_length:
  assumes "\<forall>kv \<in> set (r_headers r). ckey (fst kv) \<noteq> ckey ''content-length''"
  shows "cmap_find CaseInsensitiveLess ''content-length'' (assign_all (dropWhile value_blank) (dumped_fields r) [])
    = (if r_body r = '''' then None else Some (show_nat (length (r_body r))))"
proof (cases "r_body r = ''''")
  case True
  then have "\<forall>kv \<in> set (dumped_fields r). ckey (fst kv) \<noteq> ckey ''content-length''" using assms field_keys by (auto simp: dumped_fields_def)
  then show ?thesis using assign_all_other [of "[]" "dumped_fields r" "''content-length''"] True by simp
next
  case False
  then obtain as where as: "dumped_fields r = as @ (''content-length'', CHR '' '' # show_nat (length (r_body r))) # []" by (auto simp: dumped_fields_def)
  have "dropWhile value_blank (CHR '' '' # show_nat n) = show_nat n" for n
    using show_nat_first [of n] by (auto simp: value_blank_def Let_def signed_ascii)
  then show ?thesis unfolding as using False
      assign_all_hit [of "[]" "[]" "''content-length''" "dropWhile value_blank" as "CHR '' '' # show_nat (length (r_body r))"] by simp
qed

lemma dumped_encoding:
  assumes "\<forall>kv \<in> set (r_headers r). ckey (fst kv) \<noteq> ckey ''content-encoding''"
  shows "cmap_find CaseInsensitiveLess ''content-encoding'' (assign_all (dropWhile value_blank) (dumped_fields r) []) = None"
proof -
  have "\<forall>kv \<in> set (dumped_fields r). ckey (fst kv) \<noteq> ckey ''content-encoding''" using assms field_keys by (auto simp: dumped_fields_def)
  then show ?thesis using assign_all_other [of "[]" "dumped_fields r" "''content-encoding''"] by simp
qed

lemma plain_body: "decode_body z '''' body = Some (Inr body)"
  by (simp add: decode_body_def c_str_def tolower_def)


definition demo_length :: "string \<Rightarrow> u64 option" where
  "demo_length v = (if v = ''2'' then Some 2 else None)"

definition demo_response :: http_response where
  "demo_response = (HttpResponse 0x11 True)\<lparr>r_body := ''hi'', r_headers := [(''Server'', ''sylar'')]\<rparr>"


end
