(* ===== verification/Sylar_ByteStream.thy ===== *)
theory Sylar_ByteStream
  imports Sylar_Serial Sylar_Socket
begin

text \<open>
  Byte arrays on socket streams (the overloads of \<^verbatim>\<open>read\<close>, \<^verbatim>\<open>write\<close>, \<^verbatim>\<open>readFixSize\<close> and \<^verbatim>\<open>writeFixSize\<close> for \<^verbatim>\<open>ByteArray\<close> in
  \<^verbatim>\<open>src/sylar/socket_stream.cpp\<close> and \<^verbatim>\<open>stream.cpp\<close>): the blocks of the array are handed to \<^verbatim>\<open>recvmsg\<close> and \<^verbatim>\<open>sendmsg\<close> as a vector of buffers, and the
  position is moved on by what was transferred.
\<close>

section \<open>Operations\<close>

text \<open>The bytes \<^verbatim>\<open>recvmsg\<close> stores through the buffers, in their order.\<close>

fun iov_store :: "node list \<Rightarrow> iovec list \<Rightarrow> u8 list \<Rightarrow> node list" where
  "iov_store ns [] bs = ns"
| "iov_store ns ((i, p, n) # vs) bs =
     iov_store (ns[i := (ns ! i)\<lparr>node_ptr := blit (node_ptr (ns ! i)) p (take n bs)\<rparr>]) vs (drop n bs)"

definition SocketStream_read_ba :: "('os, u8) sys_calls \<Rightarrow> bytearray \<times> 'os socket_stream \<Rightarrow> nat \<Rightarrow> ba_error + int \<times> bytearray \<times> 'os socket_stream" where
  "SocketStream_read_ba sys w n =
     (let (b, st) = w in
      case ss_socket st of
        None \<Rightarrow> Inr (- 1, w)
      | Some k \<Rightarrow>
          if \<not> m_isConnected k then Inr (- 1, w)
          else bindE (getWriteBuffers b n) (\<lambda>(_, vs, b1).
                 let (rt, bs, s) = Socket_recv_iov sys (map (\<lambda>(i, p, l). l) vs) (k, ss_os st);
                     b2 = b1\<lparr>m_nodes := iov_store (m_nodes b1) vs bs\<rparr>; st2 = st\<lparr>ss_os := s\<rparr>
                 in if rt > 0 then bindE (setPosition b2 (m_position b2 + nat rt)) (\<lambda>b3. Inr (rt, b3, st2)) else Inr (rt, b2, st2)))"

definition SocketStream_write_ba :: "('os, u8) sys_calls \<Rightarrow> bytearray \<times> 'os socket_stream \<Rightarrow> nat \<Rightarrow> ba_error + int \<times> bytearray \<times> 'os socket_stream" where
  "SocketStream_write_ba sys w n =
     (let (b, st) = w in
      case ss_socket st of
        None \<Rightarrow> Inr (- 1, w)
      | Some k \<Rightarrow>
          if \<not> m_isConnected k then Inr (- 1, w)
          else bindE (getReadBuffers b n) (\<lambda>(_, vs).
                 let (rt, s) = Socket_send_iov sys (map (\<lambda>v. iov_bytes (m_nodes b) [v]) vs) (k, ss_os st); st2 = st\<lparr>ss_os := s\<rparr>
                 in if rt > 0 then bindE (setPosition b (m_position b + nat rt)) (\<lambda>b3. Inr (rt, b3, st2)) else Inr (rt, b, st2)))"

text \<open>The two loops of \<^verbatim>\<open>Stream\<close> differ only in the virtual function they call, which is a parameter.\<close>

function fix_loop_ba :: "('s \<Rightarrow> nat \<Rightarrow> ba_error + int \<times> 's) \<Rightarrow> 's \<Rightarrow> int \<Rightarrow> int \<Rightarrow> ba_error + int \<times> 's" where
  "fix_loop_ba mv s left len0 =
     (if left > 0
      then (case mv s (nat left) of
              Inl e \<Rightarrow> Inl e
            | Inr (len, s1) \<Rightarrow> if len \<le> 0 then Inr (to_int32 len, s1) else fix_loop_ba mv s1 (left - len) len0)
      else Inr (to_int32 len0, s))"
  by pat_completeness auto

termination
  by (relation "measure (\<lambda>(mv, s, left, len0). nat left)") auto

declare fix_loop_ba.simps [simp del]

definition readFixSize_ba :: "('s \<Rightarrow> nat \<Rightarrow> ba_error + int \<times> 's) \<Rightarrow> 's \<Rightarrow> nat \<Rightarrow> ba_error + int \<times> 's" where
  "readFixSize_ba rd s len = fix_loop_ba rd s (to_int64 (int len)) (int len)"

definition writeFixSize_ba :: "('s \<Rightarrow> nat \<Rightarrow> ba_error + int \<times> 's) \<Rightarrow> 's \<Rightarrow> nat \<Rightarrow> ba_error + int \<times> 's" where
  "writeFixSize_ba wr s len = fix_loop_ba wr s (to_int64 (int len)) (int len)"

section \<open>Interfaces\<close>

text \<open>
  What the loops rely on: a call in a good state does not raise, and its result is the number of bytes it moved, at most what was asked for.
  \<open>moved s k s'\<close> says that \<open>s'\<close> is \<open>s\<close> with \<open>k\<close> bytes moved.
\<close>

locale byte_mover =
  fixes mv :: "'s \<Rightarrow> nat \<Rightarrow> ba_error + int \<times> 's" and good :: "'s \<Rightarrow> bool" and moved :: "'s \<Rightarrow> nat \<Rightarrow> 's \<Rightarrow> bool"
  assumes mv_moves: "good s \<Longrightarrow> 0 < n \<Longrightarrow> \<exists>len s'. mv s n = Inr (len, s') \<and> good s' \<and> moved s (nat len) s' \<and> - (2 ^ 31) \<le> len \<and> len \<le> int n"
    and moved_none: "good s \<Longrightarrow> moved s 0 s"
    and moved_on: "good s \<Longrightarrow> moved s j s1 \<Longrightarrow> moved s1 k s2 \<Longrightarrow> moved s (j + k) s2"
begin

lemma fix_loop_moves:
  assumes "good s"
  shows "\<exists>rt k s'. fix_loop_ba mv s (int n) len0 = Inr (rt, s') \<and> good s' \<and> moved s k s'
    \<and> (k = n \<and> rt = to_int32 len0 \<or> k < n \<and> rt \<le> 0)"
  using assms
proof (induction n arbitrary: s rule: less_induct)
  case (less n)
  show ?case
  proof (cases "n = 0")
    case True
    then show ?thesis using less.prems moved_none by (subst fix_loop_ba.simps) auto
  next
    case False
    then obtain len s1 where r: "mv s n = Inr (len, s1)" "good s1" "moved s (nat len) s1" "- (2 ^ 31) \<le> len" "len \<le> int n"
      using mv_moves [OF less.prems, of n] by auto
    show ?thesis
    proof (cases "len \<le> 0")
      case True
      then have "to_int32 len = len" using r(4) by (intro to_int32_small) auto
      then show ?thesis using r True False by (subst fix_loop_ba.simps) auto
    next
      case pos: False
      then have e: "int n - len = int (n - nat len)" using r(5) by simp
      have "n - nat len < n" using pos False by simp
      from less.IH [OF this r(2)] obtain rt k s' where k: "fix_loop_ba mv s1 (int n - len) len0 = Inr (rt, s')" "good s'" "moved s1 k s'"
        "k = n - nat len \<and> rt = to_int32 len0 \<or> k < n - nat len \<and> rt \<le> 0" unfolding e by blast
      have "moved s (nat len + k) s'" by (rule moved_on [OF less.prems r(3) k(3)])
      moreover have "fix_loop_ba mv s (int n) len0 = Inr (rt, s')" using r(1) pos False k(1) by (subst fix_loop_ba.simps) auto
      ultimately show ?thesis using k(2,4) r(5) pos by (intro exI [of _ rt] exI [of _ "nat len + k"] exI [of _ s']) auto
    qed
  qed
qed

lemma fix_size_moves:
  assumes "good s" "n < 2 ^ 31"
  shows "\<exists>rt k s'. fix_loop_ba mv s (to_int64 (int n)) (int n) = Inr (rt, s') \<and> good s' \<and> moved s k s'
    \<and> (k = n \<and> rt = int n \<or> k < n \<and> rt \<le> 0)"
  using fix_loop_moves [OF assms(1), of n "int n"] assms(2) by (simp add: to_int64_small to_int32_small)

end

text \<open>The documented behaviour of \<^verbatim>\<open>recvmsg\<close> and \<^verbatim>\<open>sendmsg\<close> on a stream socket, as that of \<^verbatim>\<open>recv\<close> and \<^verbatim>\<open>send\<close> over the buffers taken together.\<close>

locale message_source =
  fixes sys :: "('os, u8) sys_calls" and inbound :: "'os \<Rightarrow> int \<Rightarrow> u8 list"
  assumes recvmsg_range: "sys_recvmsg sys s fd ns from = (len, bs, a, s') \<Longrightarrow> 0 < sum_list ns \<Longrightarrow>
      - 1 \<le> len \<and> len \<le> int (sum_list ns) \<and> len \<le> 0x7ffff000"
    and recvmsg_moves: "sys_recvmsg sys s fd ns from = (len, bs, a, s') \<Longrightarrow> 0 < sum_list ns \<Longrightarrow>
      length bs = nat len \<and> inbound s fd = bs @ inbound s' fd"

locale message_sink =
  fixes sys :: "('os, u8) sys_calls" and outbound :: "'os \<Rightarrow> int \<Rightarrow> u8 list"
  assumes sendmsg_range: "sys_sendmsg sys s fd vs to = (len, s') \<Longrightarrow> - 1 \<le> len \<and> len \<le> int (length (concat vs)) \<and> len \<le> 0x7ffff000"
    and sendmsg_moves: "sys_sendmsg sys s fd vs to = (len, s') \<Longrightarrow> outbound s' fd = outbound s fd @ take (nat len) (concat vs)"

section \<open>Buffers\<close>

lemma iov_store_loop:
  assumes "blocks_ok w ns" "blocks_ok w ns0" "length ns0 = length ns" "i < length ns" "p < w" "i * w + p + n \<le> length ns * w" "length bs \<le> n"
    "iov_loop ns0 (Some i) p (w - p) n = Inr vs"
  shows "blocks_ok w (iov_store ns vs bs) \<and> length (iov_store ns vs bs) = length ns \<and> mem (iov_store ns vs bs) = blit (mem ns) (i * w + p) bs
    \<and> sum_list (map (\<lambda>(i, p, l). l) vs) = n"
  using assms
proof (induction n arbitrary: i p ns bs vs rule: less_induct)
  case (less n)
  let ?up = "\<lambda>c. ns[i := (ns ! i)\<lparr>node_ptr := blit (node_ptr (ns ! i)) p c\<rparr>]"
  show ?case
  proof (cases "n \<le> w - p")
    case True
    have "vs = (if n = 0 then [] else [(i, p, n)])" using less.prems(3,4,8) True by (subst (asm) iov_loop.simps) (auto split: if_splits)
    moreover have "take n bs = bs" using less.prems(7) by simp
    moreover have "blocks_ok w (?up bs)" by (rule blocks_ok_blit) (use less.prems True in auto)
    moreover have "mem (?up bs) = blit (mem ns) (i * w + p) bs" by (rule mem_blit) (use less.prems True in auto)
    ultimately show ?thesis using less.prems by auto
  next
    case False
    have nxt: "Suc i < length ns" by (rule next_in_chain) (use less.prems False in auto)
    obtain vs' where vs': "iov_loop ns0 (Some (Suc i)) 0 w (n - (w - p)) = Inr vs'" "vs = (i, p, w - p) # vs'"
      using less.prems(2,3,4,5,8) False nxt by (subst (asm) iov_loop.simps) (auto simp: next_node_def bindE_eq_Inr split: if_splits)
    let ?c = "take (w - p) bs" and ?r = "drop (w - p) bs"
    have ok: "blocks_ok w (?up ?c)" by (rule blocks_ok_blit) (use less.prems in auto)
    have m: "mem (?up ?c) = blit (mem ns) (i * w + p) ?c" by (rule mem_blit) (use less.prems in auto)
    have "n - (w - p) < n" using False less.prems(5) by simp
    from less.IH [OF this ok less.prems(2), of "Suc i" 0 ?r vs'] have ih: "blocks_ok w (iov_store (?up ?c) vs' ?r)"
      "length (iov_store (?up ?c) vs' ?r) = length ns" "mem (iov_store (?up ?c) vs' ?r) = blit (mem (?up ?c)) (Suc i * w) ?r"
      "sum_list (map (\<lambda>(i, p, l). l) vs') = n - (w - p)"
      using less.prems nxt vs'(1) False by auto
    have "blit (blit (mem ns) (i * w + p) ?c) (Suc i * w) ?r = blit (mem ns) (i * w + p) bs"
    proof (cases "length bs \<le> w - p")
      case False
      then have "i * w + p + length ?c = Suc i * w" using less.prems(5) by simp
      then show ?thesis using blit_blit [of "i * w + p" "mem ns" ?c ?r] less.prems by (simp add: add.commute)
    qed simp
    then show ?thesis using ih m vs'(2) False by auto
  qed
qed

lemma iov_parts: "concat (map (\<lambda>v. iov_bytes ns [v]) vs) = iov_bytes ns vs"
  by (induction ns vs rule: iov_bytes.induct) auto

text \<open>Storing through the buffers of \<^verbatim>\<open>getWriteBuffers\<close> is a write at the position that does not move it.\<close>

lemma write_buffers_store:
  assumes "ba_inv b" "0 < n"
  shows "\<exists>vs. getWriteBuffers b n = Inr (n, vs, addCapacity b n) \<and> sum_list (map (\<lambda>(i, p, l). l) vs) = n
    \<and> (\<forall>bs. length bs \<le> n \<longrightarrow> (let b2 = (addCapacity b n)\<lparr>m_nodes := iov_store (m_nodes (addCapacity b n)) vs bs\<rparr> in
         ba_inv b2 \<and> mem (m_nodes b2) = blit (mem (m_nodes (addCapacity b n))) (m_position b) bs))"
proof -
  define c where "c = addCapacity b n"
  have inv: "ba_inv c" unfolding c_def by (rule addCapacity_inv [OF assms(1)])
  note I = ba_invD [OF inv]
  have pos: "m_position c = m_position b" by (simp add: c_def)
  have room: "m_position c + n \<le> m_capacity c" using addCapacity_room [OF assms(1), of n] by (simp add: c_def)
  then have "m_position c < m_capacity c" using assms(2) by simp
  then obtain i p where ip: "m_position c = i * m_baseSize c + p" "p < m_baseSize c" "i < length (m_nodes c)"
    "m_position c mod m_baseSize c = p" "m_cur c = Some i" by (rule position_split [OF inv])
  obtain vs where vs: "iov_loop (m_nodes c) (Some i) p (m_baseSize c - p) n = Inr vs"
    using iov_loop_ok [OF I(2) ip(3,2), of n] room I ip(1) by auto
  have "getWriteBuffers b n = Inr (n, vs, c)"
    using assms(2) ip I(2) vs unfolding getWriteBuffers_def c_def [symmetric] Let_def by (simp add: deref_def)
  moreover have store: "blocks_ok (m_baseSize c) (iov_store (m_nodes c) vs bs)" "length (iov_store (m_nodes c) vs bs) = length (m_nodes c)"
      "mem (iov_store (m_nodes c) vs bs) = blit (mem (m_nodes c)) (m_position c) bs" "sum_list (map (\<lambda>(i, p, l). l) vs) = n" if "length bs \<le> n" for bs
    using iov_store_loop [OF I(2) I(2) refl ip(3,2) _ that vs] room ip(1) I(5) by simp_all
  moreover have "ba_inv (c\<lparr>m_nodes := iov_store (m_nodes c) vs bs\<rparr>)" if "length bs \<le> n" for bs
  proof -
    have "iov_store (m_nodes c) vs bs \<noteq> []" using store(2) [OF that] ip(3) by (metis list.size(3) less_nat_zero_code)
    then show ?thesis using store(1,2) [OF that] inv by (simp add: ba_inv_def)
  qed
  moreover have "sum_list (map (\<lambda>(i, p, l). l) vs) = n" using store(4) [of "[]"] by simp
  ultimately show ?thesis using pos unfolding c_def [symmetric] Let_def by (intro exI [of _ vs]) simp
qed

section \<open>Socket streams move bytes\<close>

definition moved_in :: "('os \<Rightarrow> int \<Rightarrow> u8 list) \<Rightarrow> bytearray \<times> 'os socket_stream \<Rightarrow> nat \<Rightarrow> bytearray \<times> 'os socket_stream \<Rightarrow> bool" where
  "moved_in inbound w k w' =
     (let (b, st) = w; (b', st') = w'; arrived = stream_bytes inbound st in
      k \<le> length arrived \<and> stream_bytes inbound st' = drop k arrived
      \<and> contents b' = blit (contents b) (m_position b) (take k arrived) \<and> m_position b' = m_position b + k)"

definition moved_out :: "('os \<Rightarrow> int \<Rightarrow> u8 list) \<Rightarrow> bytearray \<times> 'os socket_stream \<Rightarrow> nat \<Rightarrow> bytearray \<times> 'os socket_stream \<Rightarrow> bool" where
  "moved_out outbound w k w' =
     (let (b, st) = w; (b', st') = w' in
      stream_bytes outbound st' = stream_bytes outbound st @ take k (drop (m_position b) (contents b))
      \<and> contents b' = contents b \<and> m_position b' = m_position b + k \<and> m_position b' \<le> length (contents b))"

abbreviation array_ok :: "bytearray \<times> 'os socket_stream \<Rightarrow> bool" where
  "array_ok w \<equiv> ba_inv (fst w)"

lemma take_blit_grow:
  assumes "k \<le> sz" "sz \<le> length xs" "k + length ys \<le> length xs"
  shows "take (max sz (k + length ys)) (blit xs k ys) = blit (take sz xs) k ys"
proof -
  have "take m (blit xs k ys) = take k xs @ ys @ take (m - (k + length ys)) (drop (k + length ys) xs)" if "k + length ys \<le> m" for m
    using that assms by (simp add: blit_def min_absorb2 diff_diff_eq)
  then show ?thesis using assms by (simp add: blit_def drop_take min_absorb1 min_absorb2 max_def le_diff_conv2)
qed

lemma stored_position:
  assumes "ba_inv b" "0 < n" "ba_inv b2" "m_nodes b2 = ns" "mem ns = blit (mem (m_nodes (addCapacity b n))) (m_position b) bs" "length bs \<le> n"
    "b2 = (addCapacity b n)\<lparr>m_nodes := ns\<rparr>"
  shows "\<exists>b3. setPosition b2 (m_position b2 + length bs) = Inr b3 \<and> ba_inv b3 \<and> contents b3 = blit (contents b) (m_position b) bs
    \<and> m_position b3 = m_position b + length bs"
proof -
  have room: "m_position b + n \<le> m_capacity (addCapacity b n)" by (rule addCapacity_room [OF assms(1)])
  then have "m_position b2 + length bs \<le> m_capacity b2" using assms(6,7) by simp
  from setPosition_ok [OF assms(3) this] obtain b3 where b3: "setPosition b2 (m_position b2 + length bs) = Inr b3" "ba_inv b3"
    "m_position b3 = m_position b2 + length bs" "m_size b3 = max (m_size b2) (m_position b2 + length bs)" "m_nodes b3 = m_nodes b2" by metis
  note I = ba_invD [OF addCapacity_inv [OF assms(1), of n]]
  have "contents b3 = take (max (m_size b) (m_position b + length bs)) (blit (mem (m_nodes (addCapacity b n))) (m_position b) bs)"
    using b3(4,5) assms(4,5,7) by (simp add: contents_def)
  also have "\<dots> = blit (contents (addCapacity b n)) (m_position b) bs"
    using take_blit_grow [of "m_position b" "m_size b" "mem (m_nodes (addCapacity b n))" bs] I(3,4,7) room assms(6)
    by (simp add: contents_def)
  finally show ?thesis using b3 assms(1,7) by (simp add: addCapacity_contents)
qed

context message_source
begin

lemma read_ba_moves:
  assumes "array_ok w" "0 < n"
  shows "\<exists>len w'. SocketStream_read_ba sys w n = Inr (len, w') \<and> array_ok w' \<and> moved_in inbound w (nat len) w' \<and> - (2 ^ 31) \<le> len \<and> len \<le> int n"
proof (cases "ss_isConnected (snd w)")
  case False
  then have "SocketStream_read_ba sys w n = Inr (- 1, w)"
    by (auto simp: SocketStream_read_ba_def ss_isConnected_def Let_def split: prod.splits option.splits)
  then show ?thesis using assms by (auto simp: moved_in_def Let_def split: prod.splits)
next
  case True
  obtain b st where w: "w = (b, st)" by fastforce
  obtain k where k: "ss_socket st = Some k" "m_isConnected k" using True w by (auto simp: ss_isConnected_def split: option.splits)
  have inv: "ba_inv b" using assms(1) w by simp
  obtain vs where vs: "getWriteBuffers b n = Inr (n, vs, addCapacity b n)" "sum_list (map (\<lambda>(i, p, l). l) vs) = n"
    and st: "\<And>bs b2. length bs \<le> n \<Longrightarrow> b2 = (addCapacity b n)\<lparr>m_nodes := iov_store (m_nodes (addCapacity b n)) vs bs\<rparr> \<Longrightarrow>
      ba_inv b2 \<and> mem (m_nodes b2) = blit (mem (m_nodes (addCapacity b n))) (m_position b) bs"
    using write_buffers_store [OF inv assms(2)] unfolding Let_def by blast
  obtain len bs a s' where c: "sys_recvmsg sys (ss_os st) (m_sock k) (map (\<lambda>(i, p, l). l) vs) None = (len, bs, a, s')" by (metis prod_cases4)
  have range: "- 1 \<le> len" "len \<le> int n" "len \<le> 0x7ffff000" using recvmsg_range [OF c] assms(2) vs(2) by auto
  have mv: "length bs = nat len" "inbound (ss_os st) (m_sock k) = bs @ inbound s' (m_sock k)" using recvmsg_moves [OF c] assms(2) vs(2) by auto
  define b2 where "b2 = (addCapacity b n)\<lparr>m_nodes := iov_store (m_nodes (addCapacity b n)) vs bs\<rparr>"
  have le: "length bs \<le> n" using mv(1) range by simp
  have i2: "ba_inv b2" "mem (m_nodes b2) = blit (mem (m_nodes (addCapacity b n))) (m_position b) bs" using st [OF le b2_def] by auto
  have run: "SocketStream_read_ba sys w n = (if len > 0 then bindE (setPosition b2 (m_position b2 + nat len)) (\<lambda>b3. Inr (len, b3, st\<lparr>ss_os := s'\<rparr>))
      else Inr (len, b2, st\<lparr>ss_os := s'\<rparr>))"
    using w k vs(1) c int32_len [OF range(1,3)] by (simp add: SocketStream_read_ba_def Socket_recv_iov_def Let_def b2_def)
  have sb: "stream_bytes inbound st = bs @ stream_bytes inbound (st\<lparr>ss_os := s'\<rparr>)" using k(1) mv(2) by (simp add: stream_bytes_def)
  show ?thesis
  proof (cases "len > 0")
    case True
    obtain b3 where b3: "setPosition b2 (m_position b2 + length bs) = Inr b3" "ba_inv b3" "contents b3 = blit (contents b) (m_position b) bs"
      "m_position b3 = m_position b + length bs"
      using stored_position [OF inv assms(2) i2(1) refl i2(2) le] by (auto simp: b2_def)
    then show ?thesis using run True mv(1) range sb w by (auto simp: moved_in_def)
  next
    case False
    then have "bs = []" using mv(1) by simp
    then have "contents b2 = contents b" "m_position b2 = m_position b"
      using i2(2) addCapacity_contents [OF inv, of n] by (auto simp: contents_def b2_def)
    then show ?thesis using run False i2(1) range sb w \<open>bs = []\<close> by (auto simp: moved_in_def)
  qed
qed

lemma moved_in_on:
  assumes "array_ok w" "moved_in inbound w j w1" "moved_in inbound w1 k w2"
  shows "moved_in inbound w (j + k) w2"
proof -
  obtain b st b1 st1 b2 st2 where w: "w = (b, st)" "w1 = (b1, st1)" "w2 = (b2, st2)" by (metis surj_pair)
  let ?a = "stream_bytes inbound st"
  have "m_position b \<le> length (contents b)" using assms(1) w ba_invD(3) by simp
  moreover have m: "j \<le> length ?a" "stream_bytes inbound st1 = drop j ?a" "contents b1 = blit (contents b) (m_position b) (take j ?a)"
    "m_position b1 = m_position b + j" "k \<le> length (drop j ?a)" "stream_bytes inbound st2 = drop k (drop j ?a)"
    "contents b2 = blit (contents b1) (m_position b1) (take k (drop j ?a))" "m_position b2 = m_position b1 + k"
    using assms(2,3) w by (auto simp: moved_in_def Let_def)
  ultimately have "contents b2 = blit (contents b) (m_position b) (take (j + k) ?a)"
    using blit_blit [of "m_position b" "contents b" "take j ?a" "take k (drop j ?a)"] by (simp add: take_add)
  then show ?thesis using m w by (simp add: moved_in_def Let_def add.commute le_diff_conv)
qed

end

sublocale message_source \<subseteq> rx_array: byte_mover "SocketStream_read_ba sys" array_ok "moved_in inbound"
  by unfold_locales (use read_ba_moves moved_in_on in \<open>auto simp: moved_in_def\<close>)

context message_sink
begin

lemma write_ba_moves:
  assumes "array_ok w" "0 < n"
  shows "\<exists>len w'. SocketStream_write_ba sys w n = Inr (len, w') \<and> array_ok w' \<and> moved_out outbound w (nat len) w' \<and> - (2 ^ 31) \<le> len \<and> len \<le> int n"
proof (cases "ss_isConnected (snd w)")
  case False
  then have "SocketStream_write_ba sys w n = Inr (- 1, w)"
    by (auto simp: SocketStream_write_ba_def ss_isConnected_def Let_def split: prod.splits option.splits)
  then show ?thesis using assms ba_invD(3) [of "fst w"] by (auto simp: moved_out_def Let_def split: prod.splits)
next
  case True
  obtain b st where w: "w = (b, st)" by fastforce
  obtain k where k: "ss_socket st = Some k" "m_isConnected k" using True w by (auto simp: ss_isConnected_def split: option.splits)
  have inv: "ba_inv b" using assms(1) w by simp
  note I = ba_invD [OF inv]
  obtain m vs where vs: "getReadBuffers b n = Inr (m, vs)" "iov_bytes (m_nodes b) vs = take n (drop (m_position b) (contents b))"
    using getReadBuffers_ok [OF inv] by blast
  obtain len s' where c: "sys_sendmsg sys (ss_os st) (m_sock k) (map (\<lambda>v. iov_bytes (m_nodes b) [v]) vs) None = (len, s')" by fastforce
  have range: "- 1 \<le> len" "len \<le> int (min n (m_size b - m_position b))" "len \<le> 0x7ffff000"
    using sendmsg_range [OF c] vs(2) inv by (auto simp: iov_parts)
  have out: "stream_bytes outbound (st\<lparr>ss_os := s'\<rparr>) = stream_bytes outbound st @ take (nat len) (drop (m_position b) (contents b))"
    using sendmsg_moves [OF c] vs(2) k(1) range(2) by (simp add: iov_parts stream_bytes_def min_absorb1)
  have run: "SocketStream_write_ba sys w n = (if len > 0 then bindE (setPosition b (m_position b + nat len)) (\<lambda>b3. Inr (len, b3, st\<lparr>ss_os := s'\<rparr>))
      else Inr (len, b, st\<lparr>ss_os := s'\<rparr>))"
    using w k vs(1) c int32_len [OF range(1,3)] by (simp add: SocketStream_write_ba_def Socket_send_iov_def Let_def)
  show ?thesis
  proof (cases "len > 0")
    case True
    have room: "m_position b + nat len \<le> m_size b" using range(2) I(3) True by simp
    then obtain b3 where b3: "setPosition b (m_position b + nat len) = Inr b3" "ba_inv b3" "m_position b3 = m_position b + nat len"
      "m_size b3 = m_size b" "m_nodes b3 = m_nodes b"
      using setPosition_ok [OF inv, of "m_position b + nat len"] I(4) by (metis le_trans max.absorb1)
    then have "contents b3 = contents b" by (simp add: contents_def)
    then show ?thesis using run True b3 out room range(2) w inv by (simp add: moved_out_def)
  next
    case False
    then show ?thesis using run inv out range w I(3) by (simp add: moved_out_def)
  qed
qed

lemma moved_out_on:
  assumes "array_ok w" "moved_out outbound w j w1" "moved_out outbound w1 k w2"
  shows "moved_out outbound w (j + k) w2"
proof -
  obtain b st b1 st1 b2 st2 where w: "w = (b, st)" "w1 = (b1, st1)" "w2 = (b2, st2)" by (metis surj_pair)
  let ?c = "drop (m_position b) (contents b)"
  have m: "stream_bytes outbound st1 = stream_bytes outbound st @ take j ?c" "contents b1 = contents b" "m_position b1 = m_position b + j"
    "stream_bytes outbound st2 = stream_bytes outbound st1 @ take k (drop (m_position b1) (contents b1))" "contents b2 = contents b1"
    "m_position b2 = m_position b1 + k" "m_position b2 \<le> length (contents b1)"
    using assms(2,3) w by (auto simp: moved_out_def Let_def)
  show ?thesis using m w by (simp add: moved_out_def take_add add.commute)
qed

end

sublocale message_sink \<subseteq> tx_array: byte_mover "SocketStream_write_ba sys" array_ok "moved_out outbound"
  by unfold_locales (use write_ba_moves moved_out_on ba_invD(3) in \<open>auto simp: moved_out_def\<close>)

context message_sink
begin

lemma send_array:
  assumes "ba_inv b" "n < 2 ^ 31"
  shows "\<exists>rt k b' st'. writeFixSize_ba (SocketStream_write_ba sys) (b, st) n = Inr (rt, b', st') \<and> ba_inv b' \<and> moved_out outbound (b, st) k (b', st')
    \<and> (k = n \<and> rt = int n \<or> k < n \<and> rt \<le> 0)"
  using tx_array.fix_size_moves [of "(b, st)" n] assms by (auto simp: writeFixSize_ba_def)

end

context message_source
begin

lemma receive_array:
  assumes "ba_inv b" "n < 2 ^ 31"
  shows "\<exists>rt k b' st'. readFixSize_ba (SocketStream_read_ba sys) (b, st) n = Inr (rt, b', st') \<and> ba_inv b' \<and> moved_in inbound (b, st) k (b', st')
    \<and> (k = n \<and> rt = int n \<or> k < n \<and> rt \<le> 0)"
  using rx_array.fix_size_moves [of "(b, st)" n] assms by (auto simp: readFixSize_ba_def)

end

section \<open>A wire\<close>

text \<open>A connection that takes four bytes at a time and delivers three.\<close>

definition wire_sys :: "(u8 list \<times> u8 list, u8) sys_calls" where
  "wire_sys =
     \<lparr>sys_socket = (\<lambda>s d t p. (7, s)), sys_setsockopt = (\<lambda>s fd l opt. (0, s)), sys_bind = (\<lambda>s fd a. (0, s)),
      sys_listen = (\<lambda>s fd b. (0, s)), sys_accept = (\<lambda>s fd. (- 1, s)), sys_fd_open_socket = (\<lambda>s fd. True),
      sys_connect = (\<lambda>s fd a. (0, s)), sys_connect_with_timeout = (\<lambda>s fd a t. (0, s)), sys_close = (\<lambda>s fd. s),
      sys_send = (\<lambda>s fd bs. (- 1, s)), sys_recv = (\<lambda>s fd n. (- 1, [], s)), sys_getpeername = (\<lambda>s fd a. None), sys_getsockname = (\<lambda>s fd a. None),
      sys_sendto = (\<lambda>s fd bs a. (- 1, s)), sys_recvfrom = (\<lambda>s fd n a. (- 1, [], a, s)),
      sys_sendmsg = (\<lambda>s fd vs a. let m = take 4 (concat vs) in (int (length m), (fst s, snd s @ m))),
      sys_recvmsg = (\<lambda>s fd ns a. let m = take (min 3 (sum_list ns)) (fst s) in (int (length m), m, a, (drop (length m) (fst s), snd s))),
      sys_getsockopt = (\<lambda>s fd l opt. (None, s)), sys_settimeo = (\<lambda>s fd opt tv. (0, s)), sys_fd_timeout = (\<lambda>s fd opt. None), sys_errno = (\<lambda>s. 0),
      sys_cancelEvent = (\<lambda>s fd e. (False, s)), sys_cancelAll = (\<lambda>s fd. (False, s))\<rparr>"

interpretation wire_rx: message_source wire_sys "\<lambda>s fd. fst s"
  by unfold_locales (auto simp: wire_sys_def Let_def min_def)

interpretation wire_tx: message_sink wire_sys "\<lambda>s fd. snd s"
  by unfold_locales (auto simp: wire_sys_def Let_def min_def)

section \<open>The transfer\<close>

text \<open>
  C31. Byte arrays over streams. Sending and receiving \<open>n\<close> bytes of an array never raises and keeps the arrays well formed, however the system cuts the transfer. What was sent are
  the next bytes of the array, which is not changed but for its position; what was received is written at the position of the array, over what was there and past its
  end. The position moves by exactly the number of bytes that moved, also when the transfer breaks off, and the result is positive if and only if all of them did.
\<close>

theorem bytearray_transfer:
  assumes "message_sink sys outbound" "message_source sys' inbound" "ba_inv b" "ba_inv c" "0 < n" "n < 2 ^ 31"
  shows "(\<exists>rt k b' st'. writeFixSize_ba (SocketStream_write_ba sys) (b, st) n = Inr (rt, b', st') \<and> ba_inv b' \<and> contents b' = contents b
      \<and> stream_bytes outbound st' = stream_bytes outbound st @ take k (drop (m_position b) (contents b))
      \<and> m_position b' = m_position b + k \<and> (if 0 < rt then rt = int n \<and> k = n else k < n))
    \<and> (\<exists>rt k c' sr'. readFixSize_ba (SocketStream_read_ba sys') (c, sr) n = Inr (rt, c', sr') \<and> ba_inv c'
      \<and> contents c' = blit (contents c) (m_position c) (take k (stream_bytes inbound sr)) \<and> stream_bytes inbound sr' = drop k (stream_bytes inbound sr)
      \<and> m_position c' = m_position c + k \<and> (if 0 < rt then rt = int n \<and> k = n else k < n))"
proof -
  obtain rt k b' st' where w: "writeFixSize_ba (SocketStream_write_ba sys) (b, st) n = Inr (rt, b', st')" "ba_inv b'" "moved_out outbound (b, st) k (b', st')"
    "k = n \<and> rt = int n \<or> k < n \<and> rt \<le> 0"
    using message_sink.send_array [OF assms(1,3,6)] by blast
  obtain rt2 k2 c' sr' where r: "readFixSize_ba (SocketStream_read_ba sys') (c, sr) n = Inr (rt2, c', sr')" "ba_inv c'" "moved_in inbound (c, sr) k2 (c', sr')"
    "k2 = n \<and> rt2 = int n \<or> k2 < n \<and> rt2 \<le> 0"
    using message_source.receive_array [OF assms(2,4,6)] by blast
  have "\<exists>rt k b' st'. writeFixSize_ba (SocketStream_write_ba sys) (b, st) n = Inr (rt, b', st') \<and> ba_inv b' \<and> contents b' = contents b
      \<and> stream_bytes outbound st' = stream_bytes outbound st @ take k (drop (m_position b) (contents b))
      \<and> m_position b' = m_position b + k \<and> (if 0 < rt then rt = int n \<and> k = n else k < n)"
    using w assms(5) by (intro exI [of _ rt] exI [of _ k] exI [of _ b'] exI [of _ st']) (auto simp: moved_out_def)
  moreover have "\<exists>rt k c' sr'. readFixSize_ba (SocketStream_read_ba sys') (c, sr) n = Inr (rt, c', sr') \<and> ba_inv c'
      \<and> contents c' = blit (contents c) (m_position c) (take k (stream_bytes inbound sr)) \<and> stream_bytes inbound sr' = drop k (stream_bytes inbound sr)
      \<and> m_position c' = m_position c + k \<and> (if 0 < rt then rt = int n \<and> k = n else k < n)"
    using r assms(5) by (intro exI [of _ rt2] exI [of _ k2] exI [of _ c'] exI [of _ sr']) (auto simp: moved_in_def Let_def)
  ultimately show ?thesis by blast
qed

definition demo_wire :: "u8 list \<Rightarrow> (u8 list \<times> u8 list) socket_stream" where
  "demo_wire bs = SocketStream (Some ((Socket 2 TCP 0)\<lparr>m_sock := 7, m_isConnected := True\<rparr>)) True (bs, [])"

text \<open>Eight bytes that arrive in pieces of three fill two blocks of four; a request for nine breaks off with eight received.\<close>

theorem bytearray_transfer_witness:
  "ba_inv (ByteArray 4 0)
   \<and> (\<exists>rt k c' sr'. readFixSize_ba (SocketStream_read_ba wire_sys) (ByteArray 4 0, demo_wire [1, 2, 3, 4, 5, 6, 7, 8]) 9 = Inr (rt, c', sr') \<and> ba_inv c'
      \<and> contents c' = blit (contents (ByteArray 4 0)) (m_position (ByteArray 4 0)) (take k (stream_bytes (\<lambda>s fd. fst s) (demo_wire [1, 2, 3, 4, 5, 6, 7, 8])))
      \<and> stream_bytes (\<lambda>s fd. fst s) sr' = drop k (stream_bytes (\<lambda>s fd. fst s) (demo_wire [1, 2, 3, 4, 5, 6, 7, 8]))
      \<and> m_position c' = m_position (ByteArray 4 0) + k \<and> (if 0 < rt then rt = int 9 \<and> k = 9 else k < 9))
   \<and> (case readFixSize_ba (SocketStream_read_ba wire_sys) (ByteArray 4 0, demo_wire [1, 2, 3, 4, 5, 6, 7, 8]) 9 of
        Inr (rt, c', sr') \<Rightarrow> rt = 0 \<and> contents c' = [1, 2, 3, 4, 5, 6, 7, 8] | Inl e \<Rightarrow> False)"
proof (intro conjI)
  show i: "ba_inv (ByteArray 4 0)" by (simp add: ByteArray_inv)
  show "\<exists>rt k c' sr'. readFixSize_ba (SocketStream_read_ba wire_sys) (ByteArray 4 0, demo_wire [1, 2, 3, 4, 5, 6, 7, 8]) 9 = Inr (rt, c', sr') \<and> ba_inv c'
      \<and> contents c' = blit (contents (ByteArray 4 0)) (m_position (ByteArray 4 0)) (take k (stream_bytes (\<lambda>s fd. fst s) (demo_wire [1, 2, 3, 4, 5, 6, 7, 8])))
      \<and> stream_bytes (\<lambda>s fd. fst s) sr' = drop k (stream_bytes (\<lambda>s fd. fst s) (demo_wire [1, 2, 3, 4, 5, 6, 7, 8]))
      \<and> m_position c' = m_position (ByteArray 4 0) + k \<and> (if 0 < rt then rt = int 9 \<and> k = 9 else k < 9)"
    by (rule bytearray_transfer [OF wire_tx.message_sink_axioms wire_rx.message_source_axioms i i, THEN conjunct2]) simp_all
  show "case readFixSize_ba (SocketStream_read_ba wire_sys) (ByteArray 4 0, demo_wire [1, 2, 3, 4, 5, 6, 7, 8]) 9 of
      Inr (rt, c', sr') \<Rightarrow> rt = 0 \<and> contents c' = [1, 2, 3, 4, 5, 6, 7, 8] | Inl e \<Rightarrow> False" by code_simp
qed

end
