(* ===== verification/Sylar_Settings.thy ===== *)
theory Sylar_Settings
  imports Sylar_Config
begin

text \<open>
  Settings that the program keeps in static variables (\<^verbatim>\<open>src/sylar/http/http_parser.cpp\<close>: the sizes of buffers and bodies; \<^verbatim>\<open>hook.cpp\<close>: the timeout of connecting). Each one
  belongs to a configuration variable; at the start its value is copied, and a listener copies every new one. The values of configuration variables are tagged with
  their type here, and a conversion yields values of the type it was asked for.
\<close>

section \<open>The static variables\<close>

datatype cfg_type = TyU64 | TyInt | TyText

datatype cfg_value = ValU64 u64 | ValInt "32 word" | ValText string

fun has_type :: "cfg_type \<Rightarrow> cfg_value \<Rightarrow> bool" where
  "has_type TyU64 (ValU64 _) = True"
| "has_type TyInt (ValInt _) = True"
| "has_type TyText (ValText _) = True"
| "has_type _ _ = False"

record statics =
  s_http_request_buffer_size :: u64
  s_http_request_max_body_size :: u64
  s_http_response_buffer_size :: u64
  s_http_response_max_body_size :: u64
  s_connect_timeout :: u64

text \<open>The listeners of the program, and those of others.\<close>

datatype listener = RequestBufferSize | RequestMaxBodySize | ResponseBufferSize | ResponseMaxBodySize | ConnectTimeout | OtherListener nat

text \<open>The body of a listener: the old value is not used. The timeout is an \<^verbatim>\<open>int\<close> that is converted to \<^verbatim>\<open>uint64_t\<close>.\<close>

fun run_listener :: "listener \<times> cfg_value \<times> cfg_value \<Rightarrow> statics \<Rightarrow> statics" where
  "run_listener (RequestBufferSize, ov, ValU64 nv) st = st\<lparr>s_http_request_buffer_size := nv\<rparr>"
| "run_listener (RequestMaxBodySize, ov, ValU64 nv) st = st\<lparr>s_http_request_max_body_size := nv\<rparr>"
| "run_listener (ResponseBufferSize, ov, ValU64 nv) st = st\<lparr>s_http_response_buffer_size := nv\<rparr>"
| "run_listener (ResponseMaxBodySize, ov, ValU64 nv) st = st\<lparr>s_http_response_max_body_size := nv\<rparr>"
| "run_listener (ConnectTimeout, ov, ValInt nv) st = st\<lparr>s_connect_timeout := scast nv\<rparr>"
| "run_listener _ st = st"

definition GetHttpRequestBufferSize :: "statics \<Rightarrow> u64" where
  "GetHttpRequestBufferSize st = s_http_request_buffer_size st"

definition GetHttpRequestMaxBodySize :: "statics \<Rightarrow> u64" where
  "GetHttpRequestMaxBodySize st = s_http_request_max_body_size st"

definition GetHttpResponseBufferSize :: "statics \<Rightarrow> u64" where
  "GetHttpResponseBufferSize st = s_http_response_buffer_size st"

definition GetHttpResponseMaxBodySize :: "statics \<Rightarrow> u64" where
  "GetHttpResponseMaxBodySize st = s_http_response_max_body_size st"

section \<open>Initialisation\<close>

type_synonym cfg = "(cfg_type, cfg_value, listener) config"

text \<open>
  What the static initialisers of the two files do with one variable: look it up with its default, copy the value and add the listener. Copying is what the listener
  does. The ids come from the counter of the variable's type. A name that is in use for another type gives a null pointer, which is the error.
\<close>

datatype settings_error = LookupFailed config_error | NullVariable

definition bind_setting :: "cfg_type \<times> string \<times> cfg_value \<times> string \<times> listener \<Rightarrow> cfg \<times> (cfg_type \<Rightarrow> nat) \<times> statics \<Rightarrow> settings_error + cfg \<times> (cfg_type \<Rightarrow> nat) \<times> statics" where
  "bind_setting e w =
     (let (t, name, d, desc, l) = e; (g, ids, st) = w in
      case Config_Lookup t name d desc g of
        Inl x \<Rightarrow> Inl (LookupFailed x)
      | Inr (None, g1) \<Rightarrow> Inl NullVariable
      | Inr (Some x, g1) \<Rightarrow>
          (let st1 = run_listener (l, cv_val x, cv_val x) st; (k, x1) = addListener l (ids t) x
           in Inr (cmap_assign string_less name x1 g1, ids(t := k), st1)))"

definition settings_table :: "(cfg_type \<times> string \<times> cfg_value \<times> string \<times> listener) list" where
  "settings_table =
     [(TyU64, ''http.request.buffer_size'', ValU64 (4 * 1024), ''http request buffer size'', RequestBufferSize),
      (TyU64, ''http.request.max_body_size'', ValU64 (64 * 1024 * 1024), ''http request max body size'', RequestMaxBodySize),
      (TyU64, ''http.response.buffer_size'', ValU64 (4 * 1024), ''http response buffer size'', ResponseBufferSize),
      (TyU64, ''http.response.max_body_size'', ValU64 (64 * 1024 * 1024), ''http response max body size'', ResponseMaxBodySize),
      (TyInt, ''tcp.connect.timeout'', ValInt 5000, ''tcp connect timeout'', ConnectTimeout)]"

text \<open>Before the initialisers run, the sizes are 0 and the timeout is -1.\<close>

definition settings_init :: "cfg \<times> (cfg_type \<Rightarrow> nat) \<Rightarrow> settings_error + cfg \<times> (cfg_type \<Rightarrow> nat) \<times> statics" where
  "settings_init w =
     fold (\<lambda>e r. bindE r (bind_setting e)) settings_table
       (Inr (fst w, snd w, \<lparr>s_http_request_buffer_size = 0, s_http_request_max_body_size = 0, s_http_response_buffer_size = 0,
                            s_http_response_max_body_size = 0, s_connect_timeout = - 1\<rparr>))"

section \<open>The running program\<close>

text \<open>
  A change of a variable runs its listeners. Other parts of the program may look up variables, change them in their type, add listeners under new ids and take those
  off again; the listeners of the table are never removed.
\<close>

inductive settings_step :: "(cfg_type \<Rightarrow> string \<Rightarrow> cfg_value option) \<Rightarrow> cfg \<times> (cfg_type \<Rightarrow> nat) \<times> statics \<Rightarrow> cfg \<times> (cfg_type \<Rightarrow> nat) \<times> statics \<Rightarrow> bool" for from_str where
  st_lookup: "Config_Lookup t name d desc g = Inr (r, g') \<Longrightarrow> has_type t d \<Longrightarrow> settings_step from_str (g, ids, st) (g', ids, st)"
| st_set: "LookupBase name g = Some x \<Longrightarrow> has_type (cv_type x) v \<Longrightarrow> setValue v x = (calls, x') \<Longrightarrow>
    settings_step from_str (g, ids, st) (cmap_assign string_less name x' g, ids, fold run_listener calls st)"
| st_text: "LookupBase name g = Some x \<Longrightarrow> fromString from_str s x = (ok, calls, x') \<Longrightarrow>
    settings_step from_str (g, ids, st) (cmap_assign string_less name x' g, ids, fold run_listener calls st)"
| st_add: "LookupBase name g = Some x \<Longrightarrow> addListener (OtherListener n) (ids (cv_type x)) x = (k, x') \<Longrightarrow>
    settings_step from_str (g, ids, st) (cmap_assign string_less name x' g, ids(cv_type x := k), st)"
| st_del: "LookupBase name g = Some x \<Longrightarrow> getListener i x = Some (OtherListener n) \<Longrightarrow>
    settings_step from_str (g, ids, st) (cmap_assign string_less name (delListener i x) g, ids, st)"

inductive settings_reachable :: "(cfg_type \<Rightarrow> string \<Rightarrow> cfg_value option) \<Rightarrow> cfg \<times> (cfg_type \<Rightarrow> nat) \<times> statics \<Rightarrow> bool" for from_str where
  sr_init: "settings_init ([], \<lambda>t. 0) = Inr w \<Longrightarrow> settings_reachable from_str w"
| sr_step: "settings_reachable from_str w \<Longrightarrow> settings_step from_str w w' \<Longrightarrow> settings_reachable from_str w'"

section \<open>The invariant\<close>

fun is_other :: "listener \<Rightarrow> bool" where
  "is_other (OtherListener _) = True"
| "is_other _ = False"

definition listener_type :: "listener \<Rightarrow> cfg_type" where
  "listener_type l = (if l = ConnectTimeout then TyInt else TyU64)"

text \<open>Copying the value again would change nothing.\<close>

definition in_sync :: "listener \<Rightarrow> cfg_value \<Rightarrow> statics \<Rightarrow> bool" where
  "in_sync l v st \<longleftrightarrow> run_listener (l, v, v) st = st"

lemma other_cases: "is_other l \<longleftrightarrow> (\<exists>n. l = OtherListener n)"
  by (cases l) auto

lemma run_other: "is_other l \<Longrightarrow> run_listener (l, ov, v) st = st"
  by (auto simp: other_cases)

lemma run_old: "run_listener (l, ov, v) st = run_listener (l, v, v) st"
  by (cases l; cases v) auto

lemma run_sync: "in_sync l v (run_listener (l, ov, v) st)"
  by (cases l; cases v) (auto simp: in_sync_def)

lemma run_keeps: "in_sync l' v' st \<Longrightarrow> l' \<noteq> l \<Longrightarrow> in_sync l' v' (run_listener (l, ov, v) st)"
  unfolding in_sync_def run_old [of l ov]
  by (cases l; cases v; cases l'; cases v'; cases st) simp_all

text \<open>Running the listeners of a variable is running the one of the table.\<close>

lemma run_listeners:
  assumes "\<forall>c \<in> set calls. snd (snd c) = v \<and> (is_other (fst c) \<or> fst c = l)"
  shows "fold run_listener calls st = (if \<exists>c \<in> set calls. fst c = l then run_listener (l, v, v) st else st)"
  using assms
proof (induction calls arbitrary: st)
  case (Cons c calls)
  obtain l' ov where c: "c = (l', ov, v)" using Cons.prems by (cases c) auto
  have ih: "fold run_listener calls st' = (if \<exists>c \<in> set calls. fst c = l then run_listener (l, v, v) st' else st')" for st'
    using Cons by auto
  show ?case
  proof (cases "l' = l")
    case True
    have "run_listener (l, v, v) (run_listener (l, ov, v) st) = run_listener (l, ov, v) st" using run_sync by (simp add: in_sync_def)
    then show ?thesis using ih [of "run_listener (l, ov, v) st"] c True run_old [of l ov v st] by simp
  next
    case False
    then have "run_listener (l', ov, v) st = st" using Cons.prems c by (intro run_other) auto
    then show ?thesis using ih [of st] c False by simp
  qed
qed simp

type_synonym setting = "cfg_type \<times> string \<times> cfg_value \<times> string \<times> listener"

definition table_ok :: "setting list \<Rightarrow> bool" where
  "table_ok tab \<longleftrightarrow> distinct (map (\<lambda>(t, n, d, s, l). n) tab) \<and> distinct (map (\<lambda>(t, n, d, s, l). l) tab)
     \<and> list_all (\<lambda>(t, n, d, s, l). valid_name n \<and> \<not> is_other l \<and> t = listener_type l \<and> has_type t d) tab"

definition owner :: "setting list \<Rightarrow> string \<Rightarrow> listener option" where
  "owner tab name = map_of (map (\<lambda>(t, n, d, s, l). (n, l)) tab) name"

lemma owner_unique:
  assumes "table_ok tab" "owner tab n = Some l" "owner tab m = Some l"
  shows "n = m"
proof -
  have "(n, l) \<in> set (map (\<lambda>(t, n, d, s, l). (n, l)) tab)" "(m, l) \<in> set (map (\<lambda>(t, n, d, s, l). (n, l)) tab)"
    using assms by (auto simp: owner_def dest: map_of_SomeD)
  then show ?thesis using assms(1) unfolding table_ok_def distinct_map by (auto simp: inj_on_def)
qed

definition var_ok :: "setting list \<Rightarrow> (cfg_type \<Rightarrow> nat) \<Rightarrow> statics \<Rightarrow> string \<Rightarrow> (cfg_type, cfg_value, listener) config_var \<Rightarrow> bool" where
  "var_ok tab ids st name x \<longleftrightarrow> has_type (cv_type x) (cv_val x)
     \<and> (\<forall>(i, l) \<in> set (cv_cbs x). i \<le> ids (cv_type x) \<and> (is_other l \<or> owner tab name = Some l))
     \<and> (\<forall>l. owner tab name = Some l \<longrightarrow> cv_type x = listener_type l \<and> l \<in> snd ` set (cv_cbs x) \<and> in_sync l (cv_val x) st)"

definition settings_inv :: "setting list \<Rightarrow> cfg \<times> (cfg_type \<Rightarrow> nat) \<times> statics \<Rightarrow> bool" where
  "settings_inv tab w \<longleftrightarrow> (let (g, ids, st) = w in
     config_inv g \<and> (\<forall>name x. LookupBase name g = Some x \<longrightarrow> var_ok tab ids st name x) \<and> (\<forall>name. owner tab name \<noteq> None \<longrightarrow> LookupBase name g \<noteq> None))"

lemma lookup_assign: "config_inv g \<Longrightarrow> LookupBase n (cmap_assign string_less k x g) = (if n = k then Some x else LookupBase n g)"
  by (simp add: LookupBase_def find_assign_name)

text \<open>A step that changes one variable: the others are fine when their static variables are as they were.\<close>

lemma settings_inv_update:
  assumes "settings_inv tab (g, ids, st)" "valid_name name" "cv_name x = name" "sorted_wrt (<) (map fst (cv_cbs x))" "var_ok tab ids' st' name x"
    "\<forall>t. ids t \<le> ids' t" "\<forall>l v. owner tab name \<noteq> Some l \<longrightarrow> in_sync l v st \<longrightarrow> in_sync l v st'" "table_ok tab"
  shows "settings_inv tab (cmap_assign string_less name x g, ids', st')"
proof -
  have inv: "config_inv g" using assms(1) by (simp add: settings_inv_def)
  have "var_ok tab ids' st' n y" if y: "LookupBase n g = Some y" "n \<noteq> name" for n y
  proof -
    have ok: "var_ok tab ids st n y" using assms(1) y(1) by (simp add: settings_inv_def)
    have "owner tab name \<noteq> Some l" if "owner tab n = Some l" for l using owner_unique [OF assms(8)] that y(2) by metis
    then show ?thesis using ok assms(6,7) unfolding var_ok_def by (fastforce intro: le_trans)
  qed
  then show ?thesis
    using assms config_inv_assign [OF inv assms(2,3,4)] lookup_assign [OF inv] by (auto simp: settings_inv_def)
qed

lemma var_facts:
  assumes "settings_inv tab (g, ids, st)" "LookupBase name g = Some x"
  shows "valid_name name" "cv_name x = name" "sorted_wrt (<) (map fst (cv_cbs x))" "var_ok tab ids st name x"
  using assms find_ok [of g name x] by (auto simp: settings_inv_def LookupBase_def)

lemma change_inv:
  assumes "settings_inv tab (g, ids, st)" "table_ok tab" "LookupBase name g = Some x" "has_type (cv_type x) v" "setValue v x = (calls, x')"
  shows "settings_inv tab (cmap_assign string_less name x' g, ids, fold run_listener calls st)"
proof -
  note x = var_facts [OF assms(1,3)]
  have x': "x' = x\<lparr>cv_val := v\<rparr>" "calls = (if v = cv_val x then [] else map (\<lambda>(k, cb). (cb, cv_val x, v)) (cv_cbs x))"
    using assms(5) by (auto simp: setValue_def split: if_splits)
  have cbs: "\<forall>c \<in> set calls. snd (snd c) = v \<and> (is_other (fst c) \<or> owner tab name = Some (fst c))" using x(4) x'(2) by (auto simp: var_ok_def)
  show ?thesis
  proof (cases "owner tab name")
    case None
    have "fold run_listener calls st = st"
    proof -
      have "\<forall>c \<in> set calls. is_other (fst c)" using cbs None by simp
      moreover have "\<not> (\<exists>c \<in> set calls. fst c = ConnectTimeout)" using calculation by (metis is_other.simps(6))
      ultimately show ?thesis using run_listeners [of calls v ConnectTimeout st] cbs by auto
    qed
    then show ?thesis using settings_inv_update [OF assms(1) x(1), of x' ids st] x assms(2,4) None by (simp add: x'(1) var_ok_def)
  next
    case (Some l)
    let ?st = "fold run_listener calls st"
    have own: "l \<in> snd ` set (cv_cbs x)" "in_sync l (cv_val x) st" using x(4) Some by (auto simp: var_ok_def)
    have st: "?st = run_listener (l, v, v) st"
    proof (cases "v = cv_val x")
      case True
      then show ?thesis using own(2) x'(2) by (simp add: in_sync_def)
    next
      case False
      then have "\<exists>c \<in> set calls. fst c = l" using own(1) x'(2) by force
      moreover have "\<forall>c \<in> set calls. snd (snd c) = v \<and> (is_other (fst c) \<or> fst c = l)" using cbs Some by auto
      ultimately show ?thesis using run_listeners [of calls v l st] by simp
    qed
    have "var_ok tab ids ?st name x'" using x(4) assms(4) Some run_sync [of l v v st] unfolding var_ok_def x'(1) st by auto
    moreover have "\<forall>l' v'. owner tab name \<noteq> Some l' \<longrightarrow> in_sync l' v' st \<longrightarrow> in_sync l' v' ?st" unfolding st using run_keeps Some by auto
    ultimately show ?thesis using settings_inv_update [OF assms(1) x(1), of x' ids ?st] x assms(2) by (simp add: x'(1))
  qed
qed

lemma listener_inv:
  assumes "settings_inv tab (g, ids, st)" "table_ok tab" "LookupBase name g = Some x" "addListener (OtherListener n) (ids (cv_type x)) x = (k, x')"
  shows "settings_inv tab (cmap_assign string_less name x' g, ids(cv_type x := k), st)"
proof -
  note x = var_facts [OF assms(1,3)]
  have k: "k = ids (cv_type x) + 1" "x' = x\<lparr>cv_cbs := cmap_assign (<) k (OtherListener n) (cv_cbs x)\<rparr>" using assms(4) by (auto simp: addListener_def)
  have le: "\<forall>(i, l) \<in> set (cv_cbs x). i < k" using x(4) k(1) by (fastforce simp: var_ok_def)
  have app: "cmap_assign (<) k (OtherListener n) m = m @ [(k, OtherListener n)]" if "\<forall>(i, l) \<in> set m. i < k" for m :: "(nat \<times> listener) list"
    using that by (induction m) auto
  have "var_ok tab (ids(cv_type x := k)) st name x'"
    using x(4) le by (auto simp: var_ok_def k(2) app [OF le] image_Un)
  moreover have "sorted_wrt (<) (map fst (cv_cbs x'))" using x(3) by (simp add: k(2) nat_lt.keys_ordered_assign)
  ultimately show ?thesis
    using settings_inv_update [OF assms(1) x(1), of x' "ids(cv_type x := k)" st] x(2) assms(2) k(1) by (simp add: k(2))
qed

lemma remove_inv:
  assumes "settings_inv tab (g, ids, st)" "table_ok tab" "LookupBase name g = Some x" "getListener i x = Some (OtherListener n)"
  shows "settings_inv tab (cmap_assign string_less name (delListener i x) g, ids, st)"
proof -
  note x = var_facts [OF assms(1,3)]
  have keep: "set (cmap_erase (<) i m) \<subseteq> set m" "sorted_wrt (<) (map fst m) \<Longrightarrow> cmap_find (<) i m = Some y \<Longrightarrow> (j, l) \<in> set m \<Longrightarrow> l \<noteq> y \<Longrightarrow> (j, l) \<in> set (cmap_erase (<) i m)"
    for m :: "(nat \<times> listener) list" and j l y
    by (induction m) (auto split: if_splits)
  have "l \<in> snd ` set (cv_cbs (delListener i x))" if "l \<in> snd ` set (cv_cbs x)" "\<not> is_other l" for l
    using that keep(2) [OF x(3), of "OtherListener n"] assms(4) by (force simp: delListener_def getListener_def)
  moreover have "\<not> is_other l" if "owner tab name = Some l" for l
    using that assms(2) by (auto simp: owner_def table_ok_def list_all_iff dest!: map_of_SomeD)
  ultimately have "var_ok tab ids st name (delListener i x)"
    using x(4) keep(1) [of "cv_cbs x"] by (auto simp: var_ok_def delListener_def)
  then show ?thesis
    using settings_inv_update [OF assms(1) x(1), of "delListener i x" ids st] x assms(2) nat_lt.keys_ordered_erase by (auto simp: delListener_def)
qed

lemma new_variable_inv:
  assumes "settings_inv tab (g, ids, st)" "table_ok tab" "Config_Lookup t name d desc g = Inr (r, g')" "has_type t d"
  shows "settings_inv tab (g', ids, st)"
proof (cases "LookupBase name g")
  case (Some x)
  then show ?thesis using assms by (simp add: Config_Lookup_def LookupBase_def)
next
  case None
  have v: "valid_name name" "g' = cmap_assign string_less name (ConfigVar t name d desc) g"
    using assms(3) None by (auto simp: Config_Lookup_def LookupBase_def Let_def split: if_splits)
  have "owner tab name = None" using assms(1) None by (auto simp: settings_inv_def)
  then have "var_ok tab ids st name (ConfigVar t name d desc)" using assms(4) by (simp add: var_ok_def ConfigVar_def)
  then show ?thesis unfolding v(2)
    using settings_inv_update [OF assms(1) v(1), of "ConfigVar t name d desc" ids st] assms(2) v(1) by (simp add: ConfigVar_def valid_lower)
qed

lemma settings_step_inv:
  assumes "settings_step from_str w w'" "settings_inv tab w" "table_ok tab" "\<forall>t s v. from_str t s = Some v \<longrightarrow> has_type t v"
  shows "settings_inv tab w'"
  using assms
proof (induction rule: settings_step.induct)
  case (st_lookup t name d desc g r g' ids st)
  then show ?case using new_variable_inv by blast
next
  case (st_set name g x v calls x' ids st)
  then show ?case using change_inv by blast
next
  case (st_text name g x s ok calls x' ids st)
  show ?case
  proof (cases "from_str (cv_type x) s")
    case None
    then have "calls = []" "x' = x" using st_text by (auto simp: fromString_def)
    moreover have "setValue (cv_val x) x = ([], x)" by (simp add: setValue_def)
    ultimately show ?thesis using change_inv [OF st_text.prems(1,2) st_text.hyps(1), of "cv_val x"] var_facts(4) [OF st_text.prems(1) st_text.hyps(1)]
      by (simp add: var_ok_def)
  next
    case (Some v)
    then have "setValue v x = (calls, x')" using st_text by (auto simp: fromString_def)
    then show ?thesis using change_inv [OF st_text.prems(1,2) st_text.hyps(1)] Some st_text.prems(3) by blast
  qed
next
  case (st_add name g x n ids k x' st)
  then show ?case using listener_inv by blast
next
  case (st_del name g x i n ids st)
  then show ?case using remove_inv by blast
qed

section \<open>The start\<close>

lemma bind_setting_inv:
  assumes "settings_inv tab (g, ids, st)" "table_ok (tab @ [(t, name, d, desc, l)])" "LookupBase name g = None"
  shows "\<exists>g' ids' st'. bind_setting (t, name, d, desc, l) (g, ids, st) = Inr (g', ids', st') \<and> settings_inv (tab @ [(t, name, d, desc, l)]) (g', ids', st')
    \<and> (\<forall>n. n \<noteq> name \<longrightarrow> LookupBase n g' = LookupBase n g)"
proof -
  let ?tab = "tab @ [(t, name, d, desc, l)]" and ?x = "ConfigVar t name d desc :: (cfg_type, cfg_value, listener) config_var" and ?st = "run_listener (l, d, d) st"
  let ?x1 = "?x\<lparr>cv_cbs := [(ids t + 1, l)]\<rparr>" and ?ids = "ids(t := ids t + 1)"
  have e: "valid_name name" "\<not> is_other l" "t = listener_type l" "has_type t d" "name \<notin> set (map (\<lambda>(t, n, d, s, l). n) tab)"
    using assms(2) by (auto simp: table_ok_def)
  have own: "owner ?tab name = Some l" "n \<noteq> name \<Longrightarrow> owner ?tab n = owner tab n" for n
    using e(5) by (auto simp: owner_def map_add_def image_iff split: option.splits dest!: map_of_SomeD)
  have inv: "config_inv g" using assms(1) by (simp add: settings_inv_def)
  let ?g1 = "cmap_assign string_less name ?x g" and ?g' = "cmap_assign string_less name ?x1 (cmap_assign string_less name ?x g)"
  have inv1: "config_inv ?g1" by (rule config_inv_assign [OF inv e(1)]) (simp_all add: ConfigVar_def valid_lower e(1))
  have inv2: "config_inv ?g'" by (rule config_inv_assign [OF inv1 e(1)]) (simp_all add: ConfigVar_def valid_lower e(1))
  have look: "LookupBase n ?g' = (if n = name then Some ?x1 else LookupBase n g)" for n by (simp add: lookup_assign inv inv1)
  have "Config_Lookup t name d desc g = Inr (Some ?x, ?g1)" using assms(3) e(1) by (simp add: Config_Lookup_def LookupBase_def Let_def)
  then have run: "bind_setting (t, name, d, desc, l) (g, ids, st) = Inr (?g', ?ids, ?st)" by (simp add: bind_setting_def addListener_def ConfigVar_def)
  have "var_ok ?tab ?ids ?st n y" if y: "LookupBase n ?g' = Some y" for n y
  proof (cases "n = name")
    case True
    then have "y = ?x1" using y look by simp
    then show ?thesis using True own(1) e run_sync [of l d d st] by (auto simp: var_ok_def ConfigVar_def)
  next
    case False
    then have old: "var_ok tab ids st n y" using y look assms(1) by (simp add: settings_inv_def)
    have "l' \<noteq> l" if "owner tab n = Some l'" for l' using owner_unique [OF assms(2), of n l' name] own False that by auto
    then show ?thesis using old own(2) [OF False] unfolding var_ok_def by (fastforce simp: run_keeps)
  qed
  then have "settings_inv ?tab (?g', ?ids, ?st)"
    using inv2 look own assms(1) by (auto simp: settings_inv_def)
  then show ?thesis using run look by auto
qed

lemma bind_settings_inv:
  assumes "settings_inv tab0 (g, ids, st)" "table_ok (tab0 @ tab)" "\<forall>e \<in> set tab. LookupBase (fst (snd e)) g = None"
  shows "\<exists>w. fold (\<lambda>e r. bindE r (bind_setting e)) tab (Inr (g, ids, st)) = Inr w \<and> settings_inv (tab0 @ tab) w"
  using assms
proof (induction tab arbitrary: tab0 g ids st)
  case (Cons e tab)
  obtain t n d desc l where e: "e = (t, n, d, desc, l)" by (metis prod_cases5)
  have ok: "table_ok (tab0 @ [e])" using Cons.prems(2) by (auto simp: table_ok_def)
  obtain g' ids' st' where b: "bind_setting e (g, ids, st) = Inr (g', ids', st')" "settings_inv (tab0 @ [e]) (g', ids', st')"
    "\<forall>m. m \<noteq> n \<longrightarrow> LookupBase m g' = LookupBase m g"
    using bind_setting_inv [OF Cons.prems(1) ok [unfolded e]] Cons.prems(3) e by auto
  have "n \<notin> set (map (\<lambda>(t, n, d, s, l). n) tab)" using Cons.prems(2) e by (auto simp: table_ok_def)
  then have "fst (snd e') \<noteq> n" if "e' \<in> set tab" for e' using that by (cases e') (auto simp: image_iff split: prod.splits)
  then have "\<forall>e \<in> set tab. LookupBase (fst (snd e)) g' = None" using Cons.prems(3) b(3) by simp
  moreover have "table_ok ((tab0 @ [e]) @ tab)" using Cons.prems(2) by simp
  ultimately show ?case using Cons.IH [OF b(2)] b(1) by simp
qed simp

lemma settings_table_ok: "table_ok settings_table"
proof -
  have "set ''abcdefghikjlmnopqrstuvwxyz._'' \<subseteq> set config_chars" by (simp add: config_chars_def)
  then have "valid_name n" if "set n \<subseteq> set ''abcdefghikjlmnopqrstuvwxyz._''" for n using that by (auto simp: valid_name_def)
  then show ?thesis by (simp add: table_ok_def settings_table_def listener_type_def)
qed

lemma settings_start: "\<exists>w. settings_init ([], \<lambda>t. 0) = Inr w \<and> settings_inv settings_table w"
proof -
  have "settings_inv [] ([], ids, st)" for ids st by (simp add: settings_inv_def config_inv_def LookupBase_def owner_def)
  from bind_settings_inv [OF this, of settings_table] show ?thesis
    using settings_table_ok by (simp add: settings_init_def LookupBase_def)
qed

lemma settings_reachable_inv:
  assumes "settings_reachable from_str w" "\<forall>t s v. from_str t s = Some v \<longrightarrow> has_type t v"
  shows "settings_inv settings_table w"
  using assms
proof (induction rule: settings_reachable.induct)
  case (sr_init w)
  then show ?case using settings_start by auto
next
  case (sr_step w w')
  then show ?case using settings_step_inv [OF _ _ settings_table_ok] by blast
qed

text \<open>Loading a document is a sequence of such steps.\<close>

lemma load_reachable:
  assumes "settings_reachable from_str (g, ids, st)"
  shows "\<exists>st'. settings_reachable from_str (fold (load_node from_str emit) nodes g, ids, st')"
  using assms
proof (induction nodes arbitrary: g st)
  case (Cons i nodes)
  have "\<exists>st'. settings_reachable from_str (load_node from_str emit i g, ids, st')"
  proof (cases "fst i = '''' \<or> LookupBase (map tolower (fst i)) g = None")
    case True
    then have "load_node from_str emit i g = g" by (auto simp: load_node_def Let_def)
    then show ?thesis using Cons.prems by auto
  next
    case False
    then obtain x where x: "LookupBase (map tolower (fst i)) g = Some x" by auto
    obtain ok calls x' where f: "fromString from_str (case snd i of YScalar s \<Rightarrow> s | node \<Rightarrow> emit node) x = (ok, calls, x')" by (metis prod_cases3)
    have "load_node from_str emit i g = cmap_assign string_less (map tolower (fst i)) x' g"
      using False x f by (simp add: load_node_def Let_def)
    then show ?thesis using sr_step [OF Cons.prems st_text [OF x f]] by auto
  qed
  then show ?case using Cons.IH by auto
qed auto

lemma sync_value:
  "in_sync RequestBufferSize (ValU64 v) st \<longleftrightarrow> v = s_http_request_buffer_size st"
  "in_sync RequestMaxBodySize (ValU64 v) st \<longleftrightarrow> v = s_http_request_max_body_size st"
  "in_sync ResponseBufferSize (ValU64 v) st \<longleftrightarrow> v = s_http_response_buffer_size st"
  "in_sync ResponseMaxBodySize (ValU64 v) st \<longleftrightarrow> v = s_http_response_max_body_size st"
  "in_sync ConnectTimeout (ValInt i) st \<longleftrightarrow> scast i = s_connect_timeout st"
  by (cases st; simp add: in_sync_def)+

lemma typed_values: "has_type TyU64 v \<longleftrightarrow> (\<exists>n. v = ValU64 n)" "has_type TyInt v \<longleftrightarrow> (\<exists>n. v = ValInt n)"
  by (cases v; simp)+

lemma table_value:
  assumes "settings_inv settings_table (g, ids, st)" "owner settings_table name = Some l"
  shows "\<exists>x. LookupBase name g = Some x \<and> has_type (listener_type l) (cv_val x) \<and> in_sync l (cv_val x) st"
  using assms by (fastforce simp: settings_inv_def var_ok_def)


definition demo_cast_value :: "cfg_type \<Rightarrow> string \<Rightarrow> cfg_value option" where
  "demo_cast_value t s = (if t = TyU64 \<and> s = ''8192'' then Some (ValU64 8192) else None)"

definition demo_document :: yaml where
  "demo_document = YMap [(''http'', YMap [(''request'', YMap [(''buffer_size'', YScalar ''8192'')])])]"


end
