(* ===== verification/Sylar_Thread.thy ===== *)
theory Sylar_Thread
  imports Sylar_Prelude
begin

text \<open>
  Locks and threads (\<^verbatim>\<open>src/sylar/mutex.h\<close>, \<^verbatim>\<open>mutex.cpp\<close>, \<^verbatim>\<open>thread.cpp\<close>, \<^verbatim>\<open>thread.h\<close>). The objects of pthread are modelled by what POSIX documents: a recursive mutex knows
  its owner and refuses to be unlocked by another thread, a spin lock and a read-write lock do not. A call that waits has no result, \<^term>\<open>None\<close>.
  On top are the guards, as threads use them, and the start of a thread with its semaphore.
\<close>

section \<open>Locks\<close>

text \<open>\<^verbatim>\<open>Mutex\<close> also destroys its attribute object, at every unlock: the member counts that.\<close>

record mutex =
  mx_owner :: "int option"
  mx_count :: nat
  mx_attr_destroyed :: nat

definition Mutex :: mutex where
  "Mutex = \<lparr>mx_owner = None, mx_count = 0, mx_attr_destroyed = 0\<rparr>"

definition Mutex_lock :: "int \<Rightarrow> mutex \<Rightarrow> mutex option" where
  "Mutex_lock t m =
     (case mx_owner m of
        None \<Rightarrow> Some (m\<lparr>mx_owner := Some t, mx_count := 1\<rparr>)
      | Some u \<Rightarrow> if u = t then Some (m\<lparr>mx_count := mx_count m + 1\<rparr>) else None)"

definition Mutex_unlock :: "int \<Rightarrow> mutex \<Rightarrow> mutex" where
  "Mutex_unlock t m =
     (let m1 = (if mx_owner m \<noteq> Some t then m
                else if mx_count m \<le> 1 then m\<lparr>mx_owner := None, mx_count := 0\<rparr> else m\<lparr>mx_count := mx_count m - 1\<rparr>)
      in m1\<lparr>mx_attr_destroyed := mx_attr_destroyed m + 1\<rparr>)"

record spinlock =
  sp_holder :: "int option"

definition SpinLock :: spinlock where
  "SpinLock = \<lparr>sp_holder = None\<rparr>"

definition SpinLock_lock :: "int \<Rightarrow> spinlock \<Rightarrow> spinlock option" where
  "SpinLock_lock t l = (if sp_holder l = None then Some (l\<lparr>sp_holder := Some t\<rparr>) else None)"

definition SpinLock_unlock :: "int \<Rightarrow> spinlock \<Rightarrow> spinlock" where
  "SpinLock_unlock t l = l\<lparr>sp_holder := None\<rparr>"

record rwlock =
  rw_writer :: "int option"
  rw_readers :: "int list"

definition RWLock :: rwlock where
  "RWLock = \<lparr>rw_writer = None, rw_readers = []\<rparr>"

definition wrlock :: "int \<Rightarrow> rwlock \<Rightarrow> rwlock option" where
  "wrlock t l = (if rw_writer l = None \<and> rw_readers l = [] then Some (l\<lparr>rw_writer := Some t\<rparr>) else None)"

definition rdlock :: "int \<Rightarrow> rwlock \<Rightarrow> rwlock option" where
  "rdlock t l = (if rw_writer l = None then Some (l\<lparr>rw_readers := t # rw_readers l\<rparr>) else None)"

definition RWLock_unlock :: "int \<Rightarrow> rwlock \<Rightarrow> rwlock" where
  "RWLock_unlock t l = (if rw_writer l \<noteq> None then l\<lparr>rw_writer := None\<rparr> else l\<lparr>rw_readers := remove1 t (rw_readers l)\<rparr>)"

section \<open>Guards\<close>

text \<open>
  \<^verbatim>\<open>ScopedLockImpl\<close> over any lock: the constructor locks, \<^verbatim>\<open>unlock\<close> unlocks and leaves the guard as it is, the destructor unlocks. A thread is outside, inside the section
  that a guard protects, or behind an early \<^verbatim>\<open>unlock\<close> with the guard still alive.
\<close>

record 'l lock_ops =
  lk_lock :: "int \<Rightarrow> 'l \<Rightarrow> 'l option"
  lk_unlock :: "int \<Rightarrow> 'l \<Rightarrow> 'l"

datatype phase = Outside | Inside | Early

type_synonym 'l guarded = "(int \<Rightarrow> phase) \<times> 'l"

definition ScopedLockImpl :: "'l lock_ops \<Rightarrow> int \<Rightarrow> 'l guarded \<Rightarrow> 'l guarded option" where
  "ScopedLockImpl ops t w = map_option (\<lambda>l. ((fst w)(t := Inside), l)) (lk_lock ops t (snd w))"

definition guard_unlock :: "'l lock_ops \<Rightarrow> int \<Rightarrow> 'l guarded \<Rightarrow> 'l guarded" where
  "guard_unlock ops t w = ((fst w)(t := Early), lk_unlock ops t (snd w))"

definition guard_destroy :: "'l lock_ops \<Rightarrow> int \<Rightarrow> 'l guarded \<Rightarrow> 'l guarded" where
  "guard_destroy ops t w = ((fst w)(t := Outside), lk_unlock ops t (snd w))"

text \<open>\<open>early\<close> says whether the program calls \<^verbatim>\<open>unlock\<close> on its guards.\<close>

inductive guard_reachable :: "'l lock_ops \<Rightarrow> bool \<Rightarrow> 'l \<Rightarrow> 'l guarded \<Rightarrow> bool" for ops early l0 where
  gr_init: "guard_reachable ops early l0 (\<lambda>t. Outside, l0)"
| gr_enter: "guard_reachable ops early l0 w \<Longrightarrow> fst w t = Outside \<Longrightarrow> ScopedLockImpl ops t w = Some w' \<Longrightarrow> guard_reachable ops early l0 w'"
| gr_early: "guard_reachable ops early l0 w \<Longrightarrow> early \<Longrightarrow> fst w t = Inside \<Longrightarrow> guard_reachable ops early l0 (guard_unlock ops t w)"
| gr_leave: "guard_reachable ops early l0 w \<Longrightarrow> fst w t \<noteq> Outside \<Longrightarrow> guard_reachable ops early l0 (guard_destroy ops t w)"

text \<open>The holder of the lock is the thread inside.\<close>

definition guards_fit :: "('l \<Rightarrow> int option) \<Rightarrow> ('l \<Rightarrow> bool) \<Rightarrow> 'l guarded \<Rightarrow> bool" where
  "guards_fit holder lawful w \<longleftrightarrow> lawful (snd w) \<and> (\<forall>t. fst w t = Inside \<longleftrightarrow> holder (snd w) = Some t)"

text \<open>What a guard relies on: the lock has at most one holder; \<open>lawful\<close> excludes a lock that is held twice.\<close>

locale exclusive_lock =
  fixes ops :: "'l lock_ops" and holder :: "'l \<Rightarrow> int option" and lawful :: "'l \<Rightarrow> bool"
  assumes lock_takes: "lawful l \<Longrightarrow> holder l \<noteq> Some t \<Longrightarrow> lk_lock ops t l = Some l' \<Longrightarrow> holder l = None \<and> holder l' = Some t \<and> lawful l'"
    and unlock_frees: "lawful l \<Longrightarrow> holder l = Some t \<Longrightarrow> holder (lk_unlock ops t l) = None \<and> lawful (lk_unlock ops t l)"
begin

lemma enter_fits: "guards_fit holder lawful w \<Longrightarrow> fst w t \<noteq> Inside \<Longrightarrow> ScopedLockImpl ops t w = Some w' \<Longrightarrow> guards_fit holder lawful w'"
  using lock_takes [of "snd w" t] by (auto simp: guards_fit_def ScopedLockImpl_def split: if_splits)

lemma leave_fits: "guards_fit holder lawful w \<Longrightarrow> fst w t = Inside \<Longrightarrow> p \<noteq> Inside \<Longrightarrow> guards_fit holder lawful ((fst w)(t := p), lk_unlock ops t (snd w))"
  using unlock_frees [of "snd w" t] by (auto simp: guards_fit_def)

lemma plain_guards_fit:
  assumes "guard_reachable ops False l0 w" "lawful l0" "holder l0 = None"
  shows "guards_fit holder lawful w \<and> (\<forall>t. fst w t \<noteq> Early)"
  using assms
proof (induction rule: guard_reachable.induct)
  case gr_init
  then show ?case by (simp add: guards_fit_def)
next
  case (gr_enter w t w')
  then show ?case using enter_fits [of w t w'] by (auto simp: ScopedLockImpl_def split: if_splits)
next
  case (gr_early w t)
  then show ?case by simp
next
  case (gr_leave w t)
  then have "fst w t = Inside" by (cases "fst w t") auto
  then show ?case using gr_leave leave_fits [of w t Outside] by (auto simp: guard_destroy_def)
qed

end

text \<open>A lock that also refuses to be unlocked by a thread that does not hold it: then an early \<^verbatim>\<open>unlock\<close> is harmless.\<close>

locale checked_lock = exclusive_lock +
  assumes unlock_refused: "lawful l \<Longrightarrow> holder l \<noteq> Some t \<Longrightarrow> holder (lk_unlock ops t l) = holder l \<and> lawful (lk_unlock ops t l)"
begin

lemma guards_always_fit:
  assumes "guard_reachable ops early l0 w" "lawful l0" "holder l0 = None"
  shows "guards_fit holder lawful w"
  using assms
proof (induction rule: guard_reachable.induct)
  case gr_init
  then show ?case by (simp add: guards_fit_def)
next
  case (gr_enter w t w')
  then show ?case using enter_fits [of w t w'] by simp
next
  case (gr_early w t)
  then show ?case using leave_fits [of w t Early] by (simp add: guard_unlock_def)
next
  case (gr_leave w t)
  show ?case
  proof (cases "fst w t = Inside")
    case True
    then show ?thesis using gr_leave leave_fits [of w t Outside] by (simp add: guard_destroy_def)
  next
    case False
    then show ?thesis using gr_leave unlock_refused [of "snd w" t] by (auto simp: guards_fit_def guard_destroy_def)
  qed
qed

end

definition Mutex_ops :: "mutex lock_ops" where
  "Mutex_ops = \<lparr>lk_lock = Mutex_lock, lk_unlock = Mutex_unlock\<rparr>"

definition SpinLock_ops :: "spinlock lock_ops" where
  "SpinLock_ops = \<lparr>lk_lock = SpinLock_lock, lk_unlock = SpinLock_unlock\<rparr>"

interpretation mutexes: checked_lock Mutex_ops mx_owner "\<lambda>m. mx_count m \<le> 1"
  by unfold_locales (auto simp: Mutex_ops_def Mutex_lock_def Mutex_unlock_def Let_def split: option.splits if_splits)

interpretation spins: exclusive_lock SpinLock_ops sp_holder "\<lambda>l. True"
  by unfold_locales (auto simp: SpinLock_ops_def SpinLock_lock_def SpinLock_unlock_def split: if_splits)

section \<open>Readers and writers\<close>

datatype rw_phase = Resting | Reading | Writing

definition ReadScopedLockImpl :: "int \<Rightarrow> (int \<Rightarrow> rw_phase) \<times> rwlock \<Rightarrow> ((int \<Rightarrow> rw_phase) \<times> rwlock) option" where
  "ReadScopedLockImpl t w = map_option (\<lambda>l. ((fst w)(t := Reading), l)) (rdlock t (snd w))"

definition WriteScopedLockImpl :: "int \<Rightarrow> (int \<Rightarrow> rw_phase) \<times> rwlock \<Rightarrow> ((int \<Rightarrow> rw_phase) \<times> rwlock) option" where
  "WriteScopedLockImpl t w = map_option (\<lambda>l. ((fst w)(t := Writing), l)) (wrlock t (snd w))"

definition rw_guard_destroy :: "int \<Rightarrow> (int \<Rightarrow> rw_phase) \<times> rwlock \<Rightarrow> (int \<Rightarrow> rw_phase) \<times> rwlock" where
  "rw_guard_destroy t w = ((fst w)(t := Resting), RWLock_unlock t (snd w))"

inductive rw_reachable :: "(int \<Rightarrow> rw_phase) \<times> rwlock \<Rightarrow> bool" where
  rw_init: "rw_reachable (\<lambda>t. Resting, RWLock)"
| rw_read: "rw_reachable w \<Longrightarrow> fst w t = Resting \<Longrightarrow> ReadScopedLockImpl t w = Some w' \<Longrightarrow> rw_reachable w'"
| rw_write: "rw_reachable w \<Longrightarrow> fst w t = Resting \<Longrightarrow> WriteScopedLockImpl t w = Some w' \<Longrightarrow> rw_reachable w'"
| rw_leave: "rw_reachable w \<Longrightarrow> fst w t \<noteq> Resting \<Longrightarrow> rw_reachable (rw_guard_destroy t w)"

definition rw_inv :: "(int \<Rightarrow> rw_phase) \<times> rwlock \<Rightarrow> bool" where
  "rw_inv w \<longleftrightarrow> (let (pc, l) = w in distinct (rw_readers l) \<and> (\<forall>t. pc t = Reading \<longleftrightarrow> t \<in> set (rw_readers l))
     \<and> (\<forall>t. pc t = Writing \<longleftrightarrow> rw_writer l = Some t) \<and> (rw_writer l \<noteq> None \<longrightarrow> rw_readers l = []))"

lemma rw_reachable_inv: "rw_reachable w \<Longrightarrow> rw_inv w"
proof (induction rule: rw_reachable.induct)
  case rw_init
  show ?case by (simp add: rw_inv_def RWLock_def)
next
  case (rw_read w t w')
  obtain pc l where w: "w = (pc, l)" by fastforce
  have inv: "rw_inv (pc, l)" "pc t = Resting" "rw_writer l = None" "w' = (pc(t := Reading), l\<lparr>rw_readers := t # rw_readers l\<rparr>)"
    using rw_read w by (auto simp: ReadScopedLockImpl_def rdlock_def split: if_splits)
  then have "t \<notin> set (rw_readers l)" by (auto simp: rw_inv_def) (metis rw_phase.distinct(1))
  then show ?case using inv by (auto simp: rw_inv_def)
next
  case (rw_write w t w')
  obtain pc l where w: "w = (pc, l)" by fastforce
  have "rw_inv (pc, l)" "pc t = Resting" "rw_writer l = None" "rw_readers l = []" "w' = (pc(t := Writing), l\<lparr>rw_writer := Some t\<rparr>)"
    using rw_write w by (auto simp: WriteScopedLockImpl_def wrlock_def split: if_splits)
  then show ?case by (auto simp: rw_inv_def)
next
  case (rw_leave w t)
  obtain pc l where w: "w = (pc, l)" by fastforce
  have inv: "rw_inv (pc, l)" "pc t \<noteq> Resting" using rw_leave w by auto
  show ?case
  proof (cases "rw_writer l")
    case None
    then have "t \<in> set (rw_readers l)" "\<forall>u. pc u \<noteq> Writing" using inv by (auto simp: rw_inv_def) (metis rw_phase.exhaust)
    then show ?thesis using inv None w by (auto simp: rw_inv_def rw_guard_destroy_def RWLock_unlock_def)
  next
    case (Some u)
    then have "u = t" using inv by (auto simp: rw_inv_def) (metis rw_phase.exhaust)
    then show ?thesis using inv Some w by (auto simp: rw_inv_def rw_guard_destroy_def RWLock_unlock_def split: if_splits)
  qed
qed

section \<open>What guards guarantee\<close>



section \<open>Semaphores and threads\<close>

datatype thread_error = SemInit | SemWait | SemPost | PthreadCreate | PthreadJoin

text \<open>The results of the system functions are arguments: a result other than 0 is thrown as an error. A semaphore is its value.\<close>

definition Semaphore :: "int \<Rightarrow> u32 \<Rightarrow> thread_error + nat" where
  "Semaphore rt count = (if rt \<noteq> 0 then Inl SemInit else Inr (unat count))"

definition Semaphore_wait :: "int \<Rightarrow> nat \<Rightarrow> (thread_error + nat) option" where
  "Semaphore_wait rt n = (if rt \<noteq> 0 then Some (Inl SemWait) else if n = 0 then None else Some (Inr (n - 1)))"

definition Semaphore_notify :: "int \<Rightarrow> nat \<Rightarrow> thread_error + nat" where
  "Semaphore_notify rt n = (if rt \<noteq> 0 then Inl SemPost else Inr (n + 1))"

record 'cb thread =
  th_id :: int
  th_joinable :: bool
  th_cb :: "'cb option"
  th_name :: string
  th_sem :: nat

text \<open>The variables of a thread: whether \<^verbatim>\<open>t_thread\<close> points to its object, and \<^verbatim>\<open>t_thread_name\<close>.\<close>

record thread_local =
  tl_thread :: bool
  tl_name :: string

definition Thread_SetName :: "string \<Rightarrow> thread_local \<times> 'cb thread \<Rightarrow> thread_local \<times> 'cb thread" where
  "Thread_SetName name w =
     (if name = '''' then w
      else ((fst w)\<lparr>tl_name := name\<rparr>, if tl_thread (fst w) then (snd w)\<lparr>th_name := name\<rparr> else snd w))"

text \<open>The constructor up to its wait, with the result of \<^verbatim>\<open>pthread_create\<close>.\<close>

definition Thread :: "int \<Rightarrow> 'cb \<Rightarrow> string \<Rightarrow> thread_error + 'cb thread" where
  "Thread rt cb name =
     (if rt \<noteq> 0 then Inl PthreadCreate
      else Inr \<lparr>th_id = - 1, th_joinable = True, th_cb = Some cb, th_name = (if name = '''' then ''UNKNOW'' else name), th_sem = 0\<rparr>)"

definition Thread_join :: "int \<Rightarrow> 'cb thread \<Rightarrow> thread_error + 'cb thread" where
  "Thread_join rt th =
     (if th_joinable th then if rt \<noteq> 0 then Inl PthreadJoin else Inr (th\<lparr>th_joinable := False\<rparr>) else Inr th)"

text \<open>Whether the destructor detaches the thread.\<close>

definition Thread_destroy :: "'cb thread \<Rightarrow> bool" where
  "Thread_destroy th = th_joinable th"

text \<open>\<^verbatim>\<open>run\<close> up to the notification: the callback moves out of the object.\<close>

definition Thread_run :: "int \<Rightarrow> 'cb thread \<Rightarrow> 'cb option \<times> thread_local \<times> 'cb thread" where
  "Thread_run tid th = (th_cb th, \<lparr>tl_thread = True, tl_name = th_name th\<rparr>, th\<lparr>th_id := tid, th_cb := None\<rparr>)"

section \<open>The start of a thread\<close>

datatype creator = Waiting | Constructed | Joined

datatype 'cb child = Begun | Prepared "'cb option" | Notified "'cb option" | Calling | Finished

record 'cb starting =
  sg_thread :: "'cb thread"
  sg_creator :: creator
  sg_child :: "'cb child"
  sg_local :: thread_local
  sg_calls :: "'cb list"

text \<open>The steps of the constructing thread and of the new one, whose id is \<open>tid\<close>; \<^verbatim>\<open>pthread_join\<close> returns 0 once the thread has ended.\<close>

inductive start_step :: "int \<Rightarrow> 'cb starting \<Rightarrow> 'cb starting \<Rightarrow> bool" for tid where
  sg_run: "sg_child y = Begun \<Longrightarrow> Thread_run tid (sg_thread y) = (cb, loc, th) \<Longrightarrow>
    start_step tid y (y\<lparr>sg_thread := th, sg_local := loc, sg_child := Prepared cb\<rparr>)"
| sg_notify: "sg_child y = Prepared cb \<Longrightarrow> Semaphore_notify 0 (th_sem (sg_thread y)) = Inr n \<Longrightarrow>
    start_step tid y (y\<lparr>sg_thread := (sg_thread y)\<lparr>th_sem := n\<rparr>, sg_child := Notified cb\<rparr>)"
| sg_call: "sg_child y = Notified (Some cb) \<Longrightarrow> start_step tid y (y\<lparr>sg_calls := sg_calls y @ [cb], sg_child := Calling\<rparr>)"
| sg_rename: "sg_child y = Calling \<Longrightarrow> Thread_SetName name (sg_local y, sg_thread y) = (loc, th) \<Longrightarrow> start_step tid y (y\<lparr>sg_local := loc, sg_thread := th\<rparr>)"
| sg_end: "sg_child y = Calling \<Longrightarrow> start_step tid y (y\<lparr>sg_child := Finished\<rparr>)"
| sg_wait: "sg_creator y = Waiting \<Longrightarrow> Semaphore_wait 0 (th_sem (sg_thread y)) = Some (Inr n) \<Longrightarrow>
    start_step tid y (y\<lparr>sg_thread := (sg_thread y)\<lparr>th_sem := n\<rparr>, sg_creator := Constructed\<rparr>)"
| sg_join: "sg_creator y = Constructed \<Longrightarrow> sg_child y = Finished \<Longrightarrow> Thread_join 0 (sg_thread y) = Inr th \<Longrightarrow>
    start_step tid y (y\<lparr>sg_thread := th, sg_creator := Joined\<rparr>)"

inductive start_reachable :: "int \<Rightarrow> 'cb \<Rightarrow> string \<Rightarrow> 'cb starting \<Rightarrow> bool" for tid cb name where
  sg_init: "Thread 0 cb name = Inr th \<Longrightarrow>
    start_reachable tid cb name \<lparr>sg_thread = th, sg_creator = Waiting, sg_child = Begun, sg_local = \<lparr>tl_thread = False, tl_name = ''UNKNOW''\<rparr>, sg_calls = []\<rparr>"
| sg_step: "start_reachable tid cb name y \<Longrightarrow> start_step tid y y' \<Longrightarrow> start_reachable tid cb name y'"

definition start_inv :: "int \<Rightarrow> 'cb \<Rightarrow> 'cb starting \<Rightarrow> bool" where
  "start_inv tid cb y \<longleftrightarrow>
     (let th = sg_thread y; told = (sg_child y \<noteq> Begun \<and> sg_child y \<noteq> Prepared (Some cb)) in
      th_sem th = (if told \<and> sg_creator y = Waiting then 1 else 0) \<and> (\<not> told \<longrightarrow> sg_creator y = Waiting)
      \<and> (if sg_child y = Begun then th_cb th = Some cb \<and> sg_calls y = [] else th_cb th = None \<and> th_id th = tid \<and> sg_local y = \<lparr>tl_thread = True, tl_name = th_name th\<rparr>)
      \<and> (\<forall>c. sg_child y = Prepared c \<or> sg_child y = Notified c \<longrightarrow> c = Some cb \<and> sg_calls y = [])
      \<and> (sg_child y = Calling \<or> sg_child y = Finished \<longrightarrow> sg_calls y = [cb])
      \<and> (sg_creator y = Joined \<longleftrightarrow> \<not> th_joinable th) \<and> (sg_creator y = Joined \<longrightarrow> sg_child y = Finished) \<and> th_name th \<noteq> '''')"

lemma start_step_inv: "start_step tid y y' \<Longrightarrow> start_inv tid cb y \<Longrightarrow> start_inv tid cb y'"
  by (induction rule: start_step.induct)
    (auto simp: start_inv_def Let_def Thread_run_def Semaphore_notify_def Semaphore_wait_def Thread_join_def Thread_SetName_def split: if_splits)

lemma start_reachable_inv: "start_reachable tid cb name y \<Longrightarrow> start_inv tid cb y"
proof (induction rule: start_reachable.induct)
  case (sg_init th)
  then show ?case by (auto simp: start_inv_def Thread_def split: if_splits)
next
  case (sg_step y y')
  then show ?case by (metis start_step_inv)
qed

lemma start_progress:
  assumes "start_inv tid cb y" "sg_creator y \<noteq> Joined"
  shows "\<exists>y'. start_step tid y y'"
proof (cases "sg_child y")
  case Begun
  then show ?thesis using sg_run [of y tid] by (auto simp: Thread_run_def)
next
  case (Prepared c)
  then show ?thesis using sg_notify [of y c] by (auto simp: Semaphore_notify_def)
next
  case (Notified c)
  then show ?thesis using sg_call [of y cb] assms by (auto simp: start_inv_def Let_def)
next
  case Calling
  then show ?thesis using sg_end by blast
next
  case Finished
  then show ?thesis using assms sg_wait [of y 0 tid] sg_join [of y] by (cases "sg_creator y") (auto simp: start_inv_def Let_def Semaphore_wait_def Thread_join_def)
qed

text \<open>
  C15. The start of a thread. The constructor of \<^verbatim>\<open>Thread\<close> returns only when the new thread has set its id and taken the callback out of the object, so that the object can be destroyed while the
  thread runs; the callback is called at most once, and exactly once when \<^verbatim>\<open>join\<close> has returned; until then the two threads never wait for each other for ever. A thread that cannot be created
  and a wait that is interrupted are thrown.
\<close>

theorem thread_start:
  assumes "start_reachable tid cb name y"
  shows "(sg_creator y \<noteq> Waiting \<longrightarrow> th_id (sg_thread y) = tid \<and> th_cb (sg_thread y) = None \<and> tl_name (sg_local y) = th_name (sg_thread y))
    \<and> (sg_calls y = [] \<or> sg_calls y = [cb]) \<and> (sg_creator y = Joined \<longrightarrow> sg_calls y = [cb] \<and> \<not> Thread_destroy (sg_thread y))
    \<and> (sg_creator y \<noteq> Joined \<longrightarrow> (\<exists>y'. start_step tid y y'))
    \<and> (rt \<noteq> 0 \<longrightarrow> Thread rt cb name = Inl PthreadCreate \<and> Semaphore_wait rt n = Some (Inl SemWait))"
proof -
  have inv: "start_inv tid cb y" by (rule start_reachable_inv [OF assms])
  have "sg_calls y = [] \<or> sg_calls y = [cb]" using inv by (cases "sg_child y") (simp_all add: start_inv_def Let_def)
  moreover have "sg_creator y \<noteq> Waiting \<longrightarrow> th_id (sg_thread y) = tid \<and> th_cb (sg_thread y) = None \<and> tl_name (sg_local y) = th_name (sg_thread y)"
    using inv by (cases "sg_child y") (simp_all add: start_inv_def Let_def)
  moreover have "sg_creator y = Joined \<longrightarrow> sg_calls y = [cb] \<and> \<not> Thread_destroy (sg_thread y)"
    using inv unfolding start_inv_def Let_def Thread_destroy_def by blast
  ultimately show ?thesis using start_progress [OF inv] by (simp add: Thread_def Semaphore_wait_def)
qed

text \<open>The constructor returns right behind the notification, before the callback is called.\<close>

theorem thread_start_witness:
  "\<exists>y. start_reachable 7 ''work'' ''io'' y \<and> sg_creator y = Constructed \<and> sg_calls y = [] \<and> th_id (sg_thread y) = 7 \<and> (\<exists>y'. start_step 7 y y')"
proof -
  note d = Thread_run_def Semaphore_notify_def Semaphore_wait_def
  let ?th = "\<lparr>th_id = - 1, th_joinable = True, th_cb = Some ''work'', th_name = ''io'', th_sem = 0\<rparr>" and ?tl = "\<lparr>tl_thread = True, tl_name = ''io''\<rparr>"
  let ?y0 = "\<lparr>sg_thread = ?th, sg_creator = Waiting, sg_child = Begun, sg_local = \<lparr>tl_thread = False, tl_name = ''UNKNOW''\<rparr>, sg_calls = []\<rparr>"
  let ?y1 = "?y0\<lparr>sg_thread := ?th\<lparr>th_id := 7, th_cb := None\<rparr>, sg_local := ?tl, sg_child := Prepared (Some ''work'')\<rparr>"
  let ?y2 = "?y1\<lparr>sg_thread := (sg_thread ?y1)\<lparr>th_sem := 1\<rparr>, sg_child := Notified (Some ''work'')\<rparr>"
  let ?y3 = "?y2\<lparr>sg_thread := (sg_thread ?y2)\<lparr>th_sem := 0\<rparr>, sg_creator := Constructed\<rparr>"
  have "start_reachable 7 ''work'' ''io'' ?y0" by (rule sg_init) (simp add: Thread_def)
  then have "start_reachable 7 ''work'' ''io'' ?y1" by (rule sg_step) (rule sg_run, simp_all add: d)
  then have "start_reachable 7 ''work'' ''io'' ?y2" by (rule sg_step) (rule sg_notify, simp_all add: d)
  then have r: "start_reachable 7 ''work'' ''io'' ?y3" by (rule sg_step) (rule sg_wait, simp_all add: d)
  have "\<exists>y'. start_step 7 ?y3 y'" using thread_start [OF r] by simp
  then show ?thesis using r by (intro exI [of _ ?y3]) simp
qed

end
