(* ===== verification/Spec2Isabelle.thy ===== *)
theory Spec2Isabelle
  imports Sylar_Prelude Sylar_ByteArray Sylar_Serial Sylar_Containers Sylar_Timer Sylar_Util Sylar_Http Sylar_Stream Sylar_Address
  Sylar_Fiber Sylar_Scheduler Sylar_IOManager Sylar_Socket Sylar_Session Sylar_Servlet Sylar_Hook Sylar_Config Sylar_LogFormat Sylar_Log Sylar_Tcp Sylar_Http11 Sylar_RequestParser
  Sylar_Ragel Sylar_HttpClient Sylar_ResponseParser Sylar_UriMachine Sylar_Uri Sylar_UriMark Sylar_Zlib Sylar_HttpConnection Sylar_HttpReceive Sylar_HttpPool Sylar_Exchange
  Sylar_ByteStream Sylar_Settings Sylar_Thread
begin

text \<open>
  \<^bold>\<open>A model of the sylar server framework.\<close>

  The repository is a C++ framework for network servers: user-level threads (fibers) that a
  scheduler runs on a pool of kernel threads, an event loop on top of epoll and an ordered set of timers,
  hooked system calls that let blocking code suspend its fiber, sockets and streams, an HTTP server
  with servlets and an HTTP client with a pool of connections, parsers for messages and uris, a serialisation buffer, compression, a configuration registry fed
  from YAML, and a logger configured through it. The theories follow the source file by file; a definition has the name of the function it
  translates wherever HOL allows it.

  \<^bold>\<open>Theories and sources\<close> (paths below \<^verbatim>\<open>src/sylar\<close>).

  \<^item> \<^verbatim>\<open>Sylar_Prelude\<close>: machine integers, results that may be an error (\<open>bindE\<close>, \<open>foldE\<close>), pointers into a chain of
    blocks, list lemmas.
  \<^item> \<^verbatim>\<open>Sylar_ByteArray\<close> (\<^verbatim>\<open>bytearray.cpp\<close>, blocks, cursor, \<^verbatim>\<open>read\<close>, \<^verbatim>\<open>write\<close>, \<^verbatim>\<open>setPosition\<close>, the iovec views, file
    input and output) and \<^verbatim>\<open>Sylar_Serial\<close> (the typed readers and writers, \<^verbatim>\<open>endian.h\<close>). The chain of blocks refines a
    flat buffer; all codecs read back what they wrote.
  \<^item> \<^verbatim>\<open>Sylar_Containers\<close>: \<^verbatim>\<open>std::set\<close> and \<^verbatim>\<open>std::map\<close> with a comparator, as sorted lists. The locale of ordered
    containers is interpreted by the timers' comparator and by the case-insensitive one of the HTTP headers.
  \<^item> \<^verbatim>\<open>Sylar_Timer\<close> (\<^verbatim>\<open>timer.cpp\<close>): a heap of timers and the set of the pending ones; it stays sorted although the
    comparator reads through pointers, and exactly the due timers fire.
  \<^item> \<^verbatim>\<open>Sylar_Thread\<close> (\<^verbatim>\<open>thread.cpp\<close>, \<^verbatim>\<open>mutex.h\<close>, \<^verbatim>\<open>mutex.cpp\<close>): locks by the documented behaviour of pthread, the guards over them (a locale states what a guard needs of a lock, a
    second one when an early unlock is harmless) and the start of a thread.
  \<^item> \<^verbatim>\<open>Sylar_Fiber\<close> (\<^verbatim>\<open>fiber.cpp\<close>), \<^verbatim>\<open>Sylar_Scheduler\<close> (\<^verbatim>\<open>scheduler.cpp\<close>), \<^verbatim>\<open>Sylar_IOManager\<close> (\<^verbatim>\<open>iomanager.cpp\<close>): the state
    machine of fibers, the scheduler's threads as interleaved atomic actions, the event table. Invariants by rule
    induction over the reachable states.
  \<^item> \<^verbatim>\<open>Sylar_Hook\<close> (\<^verbatim>\<open>hook.cpp\<close>, \<^verbatim>\<open>fdmanager.cpp\<close>): descriptors are non-blocking in the kernel while the program sees
    the mode it asked for; \<^verbatim>\<open>do_io\<close> turns a non-blocking call into a blocking one, and the functions of the C library that move data forward to it.
  \<^item> \<^verbatim>\<open>Sylar_Address\<close> (\<^verbatim>\<open>address.cpp\<close>), \<^verbatim>\<open>Sylar_Stream\<close> (\<^verbatim>\<open>stream.cpp\<close>), \<^verbatim>\<open>Sylar_Socket\<close> (\<^verbatim>\<open>socket.cpp\<close>,
    \<^verbatim>\<open>socket_stream.cpp\<close>), \<^verbatim>\<open>Sylar_Tcp\<close> (\<^verbatim>\<open>tcpserver.cpp\<close>): from addresses to an accepting server. \<^verbatim>\<open>Sylar_ByteStream\<close>: byte arrays
    sent and received over streams.
  \<^item> \<^verbatim>\<open>Sylar_Zlib\<close> (\<^verbatim>\<open>zlib_stream.cpp\<close>): the stream around zlib, whose functions are parameters.
  \<^item> \<^verbatim>\<open>Sylar_Http\<close> (\<^verbatim>\<open>http/http.cpp\<close>, \<^verbatim>\<open>http.h\<close>), \<^verbatim>\<open>Sylar_Session\<close> (\<^verbatim>\<open>http/http_parser.cpp\<close>, \<^verbatim>\<open>http_session.cpp\<close>),
    \<^verbatim>\<open>Sylar_Servlet\<close> (\<^verbatim>\<open>http/servlet.cpp\<close>, \<^verbatim>\<open>http_server.cpp\<close>): messages, receiving and answering requests, dispatch.
  \<^item> \<^verbatim>\<open>Sylar_Http11\<close> (\<^verbatim>\<open>http/http11_parser.cc\<close>), \<^verbatim>\<open>Sylar_HttpClient\<close> (\<^verbatim>\<open>http/httpclient_parser.cc\<close>), \<^verbatim>\<open>Sylar_UriMachine\<close> (the machine in \<^verbatim>\<open>uri.cc\<close>): the goto code that
    ragel generated, one definition for every label and every state. \<^verbatim>\<open>Sylar_Ragel\<close> holds how such code runs. \<^verbatim>\<open>Sylar_RequestParser\<close>, \<^verbatim>\<open>Sylar_ResponseParser\<close>, \<^verbatim>\<open>Sylar_Uri\<close> and
    \<^verbatim>\<open>Sylar_UriMark\<close> prove what the machines do: they stay within their buffers however the text is cut, they read back what the message and uri classes print, and where they misread.
    \<^verbatim>\<open>Sylar_Uri\<close> also has the class \<^verbatim>\<open>Uri\<close>.
  \<^item> \<^verbatim>\<open>Sylar_HttpConnection\<close>, \<^verbatim>\<open>Sylar_HttpReceive\<close> and \<^verbatim>\<open>Sylar_HttpPool\<close> (\<^verbatim>\<open>http/http_connection.cpp\<close>): the client, what it receives, and the pool of connections.
    \<^verbatim>\<open>Sylar_Exchange\<close>: a response the server prints is received by the client; the theory at hand ends with the same for requests.
  \<^item> \<^verbatim>\<open>Sylar_Util\<close> (\<^verbatim>\<open>util.cpp\<close>), \<^verbatim>\<open>Sylar_Config\<close> (\<^verbatim>\<open>config.cpp\<close>, \<^verbatim>\<open>config.h\<close>), \<^verbatim>\<open>Sylar_LogFormat\<close> and \<^verbatim>\<open>Sylar_Log\<close>
    (\<^verbatim>\<open>log.cpp\<close>): strings, configuration variables and their listeners, the log pattern language, loggers and
    appenders, the listener that applies logger definitions. \<^verbatim>\<open>Sylar_Settings\<close> (\<^verbatim>\<open>http/http_parser.cpp\<close>, \<^verbatim>\<open>hook.cpp\<close>): the static variables that follow
    configuration variables.

  \<^bold>\<open>How the parts interact.\<close> The event loop of \<^verbatim>\<open>Sylar_IOManager\<close> takes its wait time and the due callbacks from
  \<^verbatim>\<open>Sylar_Timer\<close> and posts tasks to the schedulers of \<^verbatim>\<open>Sylar_Scheduler\<close>, which switch fibers of \<^verbatim>\<open>Sylar_Fiber\<close>. Sessions run the
  parser objects over the stream interface; a socket stream of \<^verbatim>\<open>Sylar_Socket\<close> is an instance of it. The HTTP server runs the
  dispatch table over a session; the client runs the response parser over a socket stream, decompresses with \<^verbatim>\<open>Sylar_Zlib\<close> and finds its peer through \<^verbatim>\<open>Sylar_Uri\<close> and \<^verbatim>\<open>Sylar_Address\<close>. The logger's configuration is a variable of \<^verbatim>\<open>Sylar_Config\<close> whose casts are those of
  \<^verbatim>\<open>Sylar_Log\<close>. Where a client relies on a provider, a locale states the laws and the provider's theory interprets it.

  \<^bold>\<open>Effects and errors.\<close> A member function takes the object's record and returns it; a thrown exception, a failed assertion
  and a null dereference are values of an error type in a sum. Shared objects (timers, fibers, loggers, appenders, the
  sockets of a server) live under addresses. A section under a lock is one atomic step. Integers whose width matters are words.

  \<^bold>\<open>Parameters.\<close> What is outside the repository is an argument: system calls, \<^verbatim>\<open>epoll_ctl\<close> and the events that
  \<^verbatim>\<open>epoll_wait\<close> reports, \<^verbatim>\<open>getaddrinfo\<close>, the clock, \<^verbatim>\<open>fnmatch\<close>, \<^verbatim>\<open>strftime\<close>, \<^verbatim>\<open>boost::lexical_cast\<close>, the YAML library, zlib, the functions users register, and
  \<^verbatim>\<open>Socket::CreateTCP\<close> and \<^verbatim>\<open>SSLSocket\<close>, which the client calls and the repository lacks. Sessions are proved over an interface of the request machine (a call reports the bytes it
  consumed and the callbacks it made) that the generated machine implements. The hypotheses on them are locales or premises, each with a witness on a concrete instance.

  \<^bold>\<open>Loops.\<close> Loops over data are total functions with a measure. Loops that wait for the outside (the receive loops of server and client, the loop over chunks, the
  client loop, the loop around zlib, the retry of \<^verbatim>\<open>do_io\<close>) and the recursion of \<^verbatim>\<open>Logger::log\<close> through root loggers are partial functions
  into option; the theorems prove that they return under the stated progress of the outside, and what they return.
  No definition uses fuel.

  \<^bold>\<open>Not modelled.\<close> The boost fiber class (\<^verbatim>\<open>fiber_boost.cpp\<close>, \<^verbatim>\<open>context.cpp\<close>), which is unfinished and no other part uses; class templates without logic (\<^verbatim>\<open>singleton.h\<close>) and
  compiler built-ins (\<^verbatim>\<open>macro.h\<close>); the memory of stacks and the switching of machine contexts itself; looking up the original functions of the hooks; what only forwards to libc
  (\<^verbatim>\<open>Format\<close>, \<^verbatim>\<open>Time2Str\<close>, wide strings, demangling); the body of \<^verbatim>\<open>LoadFromConfDir\<close>, which is commented out; the lines of the generated files that declare the machines' tables; programs under
  \<^verbatim>\<open>tests\<close> and files that CMake generates.
\<close>

section \<open>A printed request arrives\<close>

abbreviation set_fields :: "(string \<times> string) list \<Rightarrow> http_request \<Rightarrow> http_request" where
  "set_fields kvs r \<equiv> fold (\<lambda>kv r. q_setHeader r (fst kv) (dropWhile blank_char (snd kv))) kvs r"

lemma set_fields_keep:
  "q_method (set_fields kvs r) = q_method r \<and> q_version (set_fields kvs r) = q_version r \<and> q_path (set_fields kvs r) = q_path r
    \<and> q_query (set_fields kvs r) = q_query r \<and> q_fragment (set_fields kvs r) = q_fragment r \<and> q_body (set_fields kvs r) = q_body r"
  by (induction kvs arbitrary: r) (simp_all add: q_setHeader_def)

lemma set_fields_headers: "q_headers (set_fields kvs r) = assign_all (dropWhile blank_char) kvs (q_headers r)"
  by (induction kvs arbitrary: r) (simp_all add: q_setHeader_def)

lemma not_connection: "strcasecmp (c_str k) ''connection'' \<noteq> 0 \<longleftrightarrow> ckey k \<noteq> ckey ''connection''"
  using strcasecmp_iff [of "c_str k" "''connection''"] c_str_no_null [of k] by (simp add: ckey_def c_str_def)

lemma dump_fields_connection:
  assumes "\<not> q_websocket q" "map_ok (q_headers r)"
  shows "cmap_find CaseInsensitiveLess ''connection'' (q_headers (set_fields (dump_fields q) r)) = Some (if q_close q then ''close'' else ''keep-alive'')"
proof -
  let ?v = "if q_close q then '' close'' else '' keep-alive''"
  obtain bs where bs: "dump_fields q = [] @ (''connection'', ?v) # bs" "\<forall>kv \<in> set bs. ckey (fst kv) \<noteq> ckey ''connection''"
    using assms(1) field_keys unfolding dump_fields_def by (auto simp: not_connection)
  have "dropWhile blank_char ?v = (if q_close q then ''close'' else ''keep-alive'')" by (simp add: blank_char_def signed_ascii)
  then show ?thesis unfolding set_fields_headers using assign_all_hit [OF assms(2) bs(2), of "dropWhile blank_char" "[]" ?v] bs(1) by simp
qed

lemma dump_fields_length:
  assumes "\<forall>kv \<in> set (q_headers q). ckey (fst kv) \<noteq> ckey ''content-length''" "q_headers r = []"
  shows "cmap_find CaseInsensitiveLess ''content-length'' (q_headers (set_fields (dump_fields q) r))
    = (if q_body q = '''' then None else Some (show_nat (length (q_body q))))"
proof (cases "q_body q = ''''")
  case True
  then have "\<forall>kv \<in> set (dump_fields q). ckey (fst kv) \<noteq> ckey ''content-length''" using assms(1) field_keys by (auto simp: dump_fields_def)
  then show ?thesis unfolding set_fields_headers using assign_all_other [of "[]" "dump_fields q" "''content-length''"] True assms(2) by simp
next
  case False
  then obtain as where as: "dump_fields q = as @ (''content-length'', CHR '' '' # show_nat (length (q_body q))) # []" by (auto simp: dump_fields_def)
  have "dropWhile blank_char (CHR '' '' # show_nat n) = show_nat n" for n
    using show_nat_first [of n] by (auto simp: blank_char_def Let_def signed_ascii)
  then show ?thesis unfolding set_fields_headers as using False assms(2)
      assign_all_hit [of "[]" "[]" "''content-length''" "dropWhile blank_char" as "CHR '' '' # show_nat (length (q_body q))"] by simp
qed

text \<open>C18. From the printer of a client to the parser of a server. Suppose a request is printed by \<^verbatim>\<open>HttpRequest::dump\<close> and arrives in one read of
  the server's session, whose buffer is large enough. Then \<^verbatim>\<open>recvRequest\<close>, with the request machine of \<^verbatim>\<open>http11_parser.cc\<close>, returns a request with the
  same method, version, path, query, fragment, body and connection flag, and with the printed fields as its headers. The
  request must have parts the grammar admits (the premises of the parser's theorem) and no content-length header of its own, and
  \<^verbatim>\<open>lexical_cast\<close> must read back the printed length.\<close>

theorem printed_request_received:
  assumes "(q_method q, name) \<in> set HTTP_METHOD_MAP" "q_method q \<noteq> MSEARCH" "q_version q = 0x10 \<or> q_version q = 0x11"
    "path_ok (q_path q)" "pct_text query_char (q_query q)" "pct_text query_char (q_fragment q)" "\<forall>kv \<in> set (q_headers q). field_ok kv"
    "\<not> q_websocket q" "\<forall>kv \<in> set (q_headers q). ckey (fst kv) \<noteq> ckey ''content-length''"
    "lexical_cast (show_nat (length (q_body q))) = Some (of_nat (length (q_body q)))"
    "SocketStream_read sys st buff_size = (int (length (q_dump q)), q_dump q, st1)" "length (q_dump q) \<le> buff_size" "buff_size < 2 ^ 31"
  shows "\<exists>r. recvRequest sys (http11 blank) lexical_cast buff_size st = Some (Some r, st1)
    \<and> q_method r = q_method q \<and> q_version r = q_version q \<and> q_path r = q_path q \<and> q_query r = q_query q \<and> q_fragment r = q_fragment q
    \<and> q_body r = q_body q \<and> q_close r = q_close q
    \<and> q_headers r = fold (\<lambda>kv. cmap_assign CaseInsensitiveLess (fst kv) (dropWhile blank_char (snd kv))) (dump_fields q) []"
proof -
  let ?rg = "http11 blank" and ?body = "q_body q"
  let ?r0 = "(HttpRequest (q_version q) True)\<lparr>q_method := q_method q, q_path := q_path q, q_query := q_query q, q_fragment := q_fragment q\<rparr>"
  obtain p where p: "request_execute ?rg (q_dump q) (HttpRequestParser ?rg) = (length (q_dump q) - length ?body, ?body, p)"
    "request_isFinished ?rg p" "\<not> request_hasError ?rg p" "rp_data p = set_fields (dump_fields q) ?r0"
    using request_dump_execute [OF assms(1-7), of blank] assms(12, 13) by auto
  have len: "length ?body < length (q_dump q)" by (simp add: q_dump_def dump_body_def)
  have loop: "recv_loop (SocketStream_read sys) ?rg buff_size st (HttpRequestParser ?rg) '''' = Some (Some (p, ?body), st1)"
    using assms(11-13) p len to_int32_small [of "int buff_size"] by (subst recv_loop.simps) auto
  have r0: "q_headers ?r0 = []" "map_ok (q_headers ?r0)" "q_body ?r0 = ''''" by (simp_all add: HttpRequest_def)
  have conn: "cmap_find CaseInsensitiveLess ''connection'' (q_headers (rp_data p)) = Some (if q_close q then ''close'' else ''keep-alive'')"
    unfolding p(4) by (rule dump_fields_connection [OF assms(8) r0(2)])
  have cast: "request_getContentLength lexical_cast p = (if ?body = '''' then 0 else of_nat (length ?body))"
    unfolding request_getContentLength_def getAs_def p(4) dump_fields_length [OF assms(9) r0(1)] using assms(10) by simp
  have small: "sint (of_nat (length ?body) :: u64) = int (length ?body)" using len assms(12, 13)
    by (subst signed_of_nat) (simp add: signed_take_bit_int_eq_self)
  have body: "recvRequest sys ?rg lexical_cast buff_size st = Some (Some (q_init ((rp_data p)\<lparr>q_body := ?body\<rparr>)), st1)"
  proof (cases "?body = ''''")
    case True
    have "q_body (rp_data p) = ''''" using p(4) r0(3) set_fields_keep [of "dump_fields q" ?r0] by simp
    moreover have "(rp_data p)\<lparr>q_body := q_body (rp_data p)\<rparr> = rp_data p" by simp
    ultimately have "(rp_data p)\<lparr>q_body := ?body\<rparr> = rp_data p" using True by simp
    then show ?thesis using loop cast True by (simp add: recvRequest_def)
  next
    case False
    then show ?thesis using loop cast small by (simp add: recvRequest_def recv_body_def)
  qed
  have close: "strcasecmp (c_str (if q_close q then ''close'' else ''keep-alive'')) ''keep-alive'' \<noteq> 0 \<longleftrightarrow> q_close q"
    using strcasecmp_iff [of "''close''" "''keep-alive''"] strcasecmp_iff [of "''keep-alive''" "''keep-alive''"] by (simp add: c_str_def)
  have init: "q_init ((rp_data p)\<lparr>q_body := ?body\<rparr>) = (rp_data p)\<lparr>q_body := ?body, q_close := q_close q\<rparr>"
    using conn close by (simp add: q_init_def q_getHeader_def get_or_def Let_def)
  show ?thesis using body init set_fields_keep [of "dump_fields q" ?r0] set_fields_headers [of "dump_fields q" ?r0] r0(1) by (auto simp: p(4) HttpRequest_def)
qed

definition demo_arrival :: "net socket_stream" where
  "demo_arrival = SocketStream (Some ((Socket 2 1 0)\<lparr>m_sock := 8, m_isConnected := True\<rparr>)) True
     \<lparr>nt_plan = [4096], nt_in = q_dump demo_request, nt_out = [], nt_closed = []\<rparr>"

theorem printed_request_received_witness:
  "\<exists>r st'. recvRequest net_sys (http11 demo_blank) demo_length 4096 demo_arrival = Some (Some r, st') \<and> q_method r = POST \<and> q_body r = ''hi''"
proof -
  note len = demo_request_length
  obtain st1 where st1: "SocketStream_read net_sys demo_arrival 4096 = (int (length (q_dump demo_request)), q_dump demo_request, st1)"
    using len by (auto simp: SocketStream_read_def Socket_recv_def demo_arrival_def SocketStream_def net_sys_def net_recv_def Let_def to_int32_small)
  have c: "demo_length (show_nat (length (q_body demo_request))) = Some (of_nat (length (q_body demo_request)))" by code_simp
  have "\<exists>r. recvRequest net_sys (http11 demo_blank) demo_length 4096 demo_arrival = Some (Some r, st1)
    \<and> q_method r = q_method demo_request \<and> q_version r = q_version demo_request \<and> q_path r = q_path demo_request \<and> q_query r = q_query demo_request
    \<and> q_fragment r = q_fragment demo_request \<and> q_body r = q_body demo_request \<and> q_close r = q_close demo_request
    \<and> q_headers r = fold (\<lambda>kv. cmap_assign CaseInsensitiveLess (fst kv) (dropWhile blank_char (snd kv))) (dump_fields demo_request) []"
    by (rule printed_request_received [of demo_request "''POST''" demo_length net_sys demo_arrival 4096 st1])
      (use st1 len c in \<open>simp_all add: demo_request_def HttpRequest_def HTTP_METHOD_MAP_def path_ok_def hex_char_def uri_char_def query_char_def field_ok_def
        token_char_def value_char_def signed_ascii ckey_def c_str_def\<close>)
  then show ?thesis by (auto simp: demo_request_def)
qed

end
